(* ===== verification/Prelude.thy ===== *)
theory Prelude
  imports Complex_Main "HOL-Library.List_Lexorder" "HOL-Library.Char_ord" "HOL-Library.Multiset"
begin

text \<open>
  What every component shares: Go maps as dictionaries (association lists kept sorted by key, so
  that equal maps are equal lists and iteration follows the key order in which
  \<^verbatim>\<open>encoding/json\<close> writes them), Go's stable sort by a comparator, the lowest-free-number allocator,
  moving averages, and invariants of runs of a deterministic step function. Each contract that a
  client relies on is a locale; the theory that defines the operations interprets it.
\<close>

named_theorems dict_simps \<open>lookup after an update of a dictionary\<close>
named_theorems ok_intros \<open>well-formedness of data is kept\<close>

section \<open>Dictionaries: Go's map types\<close>

text \<open>\<open>dput k v d\<close> is Go's \<^verbatim>\<open>d[k] = v\<close>, \<open>ddel k d\<close> is
  \<^verbatim>\<open>delete(d, k)\<close>, \<open>map_of d k\<close> is the comma-ok read.\<close>

type_synonym ('k, 'v) dict = "('k \<times> 'v) list"

fun dput :: "'k::linorder \<Rightarrow> 'v \<Rightarrow> ('k, 'v) dict \<Rightarrow> ('k, 'v) dict" where
  "dput k v [] = [(k, v)]"
| "dput k v (p # d) =
     (if k < fst p then (k, v) # p # d
      else if k = fst p then (k, v) # d
      else p # dput k v d)"

definition ddel :: "'k \<Rightarrow> ('k, 'v) dict \<Rightarrow> ('k, 'v) dict" where
  "ddel k d = filter (\<lambda>p. fst p \<noteq> k) d"

definition dict_ok :: "('k::linorder, 'v) dict \<Rightarrow> bool" where
  "dict_ok d \<longleftrightarrow> sorted_wrt (<) (map fst d)"

definition dict_of :: "('k::linorder \<times> 'v) list \<Rightarrow> ('k, 'v) dict" where
  "dict_of kvs = fold (\<lambda>(k, v). dput k v) kvs []"

definition dget_or :: "'v \<Rightarrow> ('k, 'v) dict \<Rightarrow> 'k \<Rightarrow> 'v" where
  "dget_or z d k = (case map_of d k of None \<Rightarrow> z | Some v \<Rightarrow> v)"

lemma map_of_dput [simp, dict_simps]: "map_of (dput k v d) k' = (if k' = k then Some v else map_of d k')"
  by (induction d) auto

lemma map_of_ddel [simp, dict_simps]: "map_of (ddel k d) k' = (if k' = k then None else map_of d k')"
  by (induction d) (auto simp: ddel_def)

lemma keys_dput [simp]: "fst ` set (dput k v d) = insert k (fst ` set d)"
  by (induction d) auto

lemma keys_ddel [simp]: "fst ` set (ddel k d) = fst ` set d - {k}"
  by (auto simp: ddel_def)

lemma dict_ok_Nil [simp, ok_intros]: "dict_ok []"
  by (simp add: dict_ok_def)

lemma dict_ok_Cons: "dict_ok (p # d) \<longleftrightarrow> (\<forall>q \<in> set d. fst p < fst q) \<and> dict_ok d"
  by (auto simp: dict_ok_def)

lemma dput_mem: "q \<in> set (dput k v d) \<Longrightarrow> q = (k, v) \<or> q \<in> set d"
  by (induction d) (auto split: if_splits)

lemma dict_ok_dput [simp, ok_intros]: "dict_ok d \<Longrightarrow> dict_ok (dput k v d)"
proof (induction d)
  case (Cons p d)
  then show ?case
    by (auto simp: dict_ok_Cons dest!: dput_mem)
qed (simp add: dict_ok_def)

lemma dict_ok_filter [simp, ok_intros]: "dict_ok d \<Longrightarrow> dict_ok (filter P d)"
  by (induction d) (auto simp: dict_ok_Cons)

lemma dict_ok_ddel [simp, ok_intros]: "dict_ok d \<Longrightarrow> dict_ok (ddel k d)"
  by (simp add: ddel_def)

lemma dict_ok_distinct: "dict_ok d \<Longrightarrow> distinct (map fst d)"
  unfolding dict_ok_def by (simp add: strict_sorted_iff)

lemma dict_ok_map_val [simp, ok_intros]: "dict_ok (map (\<lambda>(k, v). (k, f k v)) d) = dict_ok d"
  by (induction d) (auto simp: dict_ok_Cons)

lemma map_of_dfilter:
  "dict_ok d \<Longrightarrow> map_of (filter P d) k = (case map_of d k of Some v \<Rightarrow> if P (k, v) then Some v else None | None \<Rightarrow> None)"
proof (induction d)
  case (Cons p d)
  have "map_of d (fst p) = None"
    using Cons.prems by (auto simp: dict_ok_Cons map_of_eq_None_iff)
  with Cons show ?case
    by (cases p) (auto simp: dict_ok_Cons split: option.splits)
qed simp

lemma map_of_dmap:
  "map_of (map (\<lambda>(k, v). (k, f k v)) d) k = map_option (f k) (map_of d k)"
  by (induction d) auto

lemma dict_ext:
  assumes "dict_ok d" and "dict_ok d'" and "\<And>k. map_of d k = map_of d' k"
  shows "d = d'"
proof -
  have keys: "fst ` set d = fst ` set d'"
    using assms(3) by (metis dom_map_of_conv_image_fst ext)
  have "map fst d = map fst d'"
    using assms(1,2) keys unfolding dict_ok_def
    by (intro strict_sorted_equal) auto
  moreover have "map snd d = map snd d'"
  proof -
    have "map snd d = map (the \<circ> map_of d) (map fst d)"
      using dict_ok_distinct [OF assms(1)] by (auto simp: map_of_is_SomeI)
    moreover have "map snd d' = map (the \<circ> map_of d') (map fst d')"
      using dict_ok_distinct [OF assms(2)] by (auto simp: map_of_is_SomeI)
    ultimately show ?thesis
      using \<open>map fst d = map fst d'\<close> assms(3) by simp
  qed
  ultimately show ?thesis by (metis zip_map_fst_snd)
qed

text \<open>The contract a client of a Go map relies on.\<close>

locale finite_map =
  fixes get :: "'m \<Rightarrow> 'k \<Rightarrow> 'v option"
    and put :: "'k \<Rightarrow> 'v \<Rightarrow> 'm \<Rightarrow> 'm"
    and del :: "'k \<Rightarrow> 'm \<Rightarrow> 'm"
    and emp :: 'm
    and ok :: "'m \<Rightarrow> bool"
  assumes get_emp: "get emp k = None"
    and get_put: "get (put k v m) k' = (if k' = k then Some v else get m k')"
    and get_del: "get (del k m) k' = (if k' = k then None else get m k')"
    and ok_emp: "ok emp"
    and ok_put: "ok m \<Longrightarrow> ok (put k v m)"
    and ok_del: "ok m \<Longrightarrow> ok (del k m)"
    and ext_eq: "ok m \<Longrightarrow> ok m' \<Longrightarrow> (\<And>k. get m k = get m' k) \<Longrightarrow> m = m'"
begin

lemma put_put_same: "ok m \<Longrightarrow> put k v (put k w m) = put k v m"
  by (rule ext_eq) (auto simp: get_put ok_put)

lemma put_commute: "ok m \<Longrightarrow> k \<noteq> k' \<Longrightarrow> put k v (put k' w m) = put k' w (put k v m)"
  by (rule ext_eq) (auto simp: get_put ok_put)

lemma del_put_same: "ok m \<Longrightarrow> del k (put k v m) = del k m"
  by (rule ext_eq) (auto simp: get_put get_del ok_put ok_del)

lemma del_absent: "ok m \<Longrightarrow> get m k = None \<Longrightarrow> del k m = m"
  by (rule ext_eq) (auto simp: get_del ok_del)

lemma put_present: "ok m \<Longrightarrow> get m k = Some v \<Longrightarrow> put k v m = m"
  by (rule ext_eq) (auto simp: get_put ok_put)

lemma ok_fold_put: "ok m \<Longrightarrow> ok (fold (\<lambda>(k, v). put k v) kvs m)"
  by (induction kvs arbitrary: m) (auto simp: ok_put)

lemma get_fold_put:
  "get (fold (\<lambda>(k, v). put k v) kvs m) k = (case map_of (rev kvs) k of Some v \<Rightarrow> Some v | None \<Rightarrow> get m k)"
proof (induction kvs arbitrary: m)
  case (Cons p kvs)
  then show ?case
    by (cases p) (auto simp: get_put map_add_def split: option.splits)
qed simp

lemma ok_fold_del: "ok m \<Longrightarrow> ok (fold del ks m)"
  by (induction ks arbitrary: m) (auto simp: ok_del)

lemma get_fold_del: "get (fold del ks m) k = (if k \<in> set ks then None else get m k)"
  by (induction ks arbitrary: m) (auto simp: get_del)

end

interpretation dict: finite_map map_of "dput :: 'k::linorder \<Rightarrow> 'v \<Rightarrow> _" ddel "[]" dict_ok
  by unfold_locales (auto intro: dict_ext)

lemma dict_ok_dict_of [simp, ok_intros]: "dict_ok (dict_of kvs)"
  unfolding dict_of_def by (rule dict.ok_fold_put) simp

lemma map_of_dict_of [dict_simps]: "map_of (dict_of kvs) k = map_of (rev kvs) k"
  by (simp add: dict_of_def dict.get_fold_put split: option.splits)

lemma dict_of_keys: "fst ` set (dict_of kvs) = fst ` set kvs"
proof -
  have "k \<in> fst ` set (dict_of kvs) \<longleftrightarrow> k \<in> fst ` set kvs" for k
  proof -
    have "k \<in> fst ` set (dict_of kvs) \<longleftrightarrow> map_of (dict_of kvs) k \<noteq> None" by (simp add: map_of_eq_None_iff)
    also have "\<dots> \<longleftrightarrow> k \<in> fst ` set kvs" by (simp add: map_of_dict_of map_of_eq_None_iff)
    finally show ?thesis .
  qed
  then show ?thesis by blast
qed

lemma map_filter_set: "set (List.map_filter f xs) = {y. \<exists>x \<in> set xs. f x = Some y}"
  by (induction xs) (auto simp: map_filter_simps split: option.splits)

section \<open>Outcomes\<close>

text \<open>A Go function returns a value, returns an error, or panics.\<close>

datatype ('e, 'a) outcome = Ok 'a | Fail 'e | Panic

fun obind :: "('e, 'a) outcome \<Rightarrow> ('a \<Rightarrow> ('e, 'b) outcome) \<Rightarrow> ('e, 'b) outcome" where
  "obind (Ok x) f = f x"
| "obind (Fail e) f = Fail e"
| "obind Panic f = Panic"

text \<open>A loop that stops at the first error, and one that threads a state.\<close>

fun omap :: "('a \<Rightarrow> ('e, 'b) outcome) \<Rightarrow> 'a list \<Rightarrow> ('e, 'b list) outcome" where
  "omap f [] = Ok []"
| "omap f (x # xs) = obind (f x) (\<lambda>y. obind (omap f xs) (\<lambda>ys. Ok (y # ys)))"

lemma obind_Ok [simp]: "obind r f = Ok y \<longleftrightarrow> (\<exists>x. r = Ok x \<and> f x = Ok y)"
  by (cases r) auto

lemma obind_Panic: "obind r f = Panic \<longleftrightarrow> r = Panic \<or> (\<exists>x. r = Ok x \<and> f x = Panic)"
  by (cases r) auto

lemma omap_Ok: "omap f xs = Ok ys \<longleftrightarrow> list_all2 (\<lambda>x y. f x = Ok y) xs ys"
  by (induction f xs arbitrary: ys rule: omap.induct) (auto simp: list_all2_Cons1)

lemma omap_Ok_set: "omap f xs = Ok ys \<Longrightarrow> y \<in> set ys \<Longrightarrow> \<exists>x \<in> set xs. f x = Ok y"
  by (induction f xs arbitrary: ys rule: omap.induct) fastforce+

lemma omap_Ok_in: "omap f xs = Ok ys \<Longrightarrow> x \<in> set xs \<Longrightarrow> \<exists>y \<in> set ys. f x = Ok y"
  by (induction f xs arbitrary: ys rule: omap.induct) fastforce+

lemma omap_total: "(\<And>x. x \<in> set xs \<Longrightarrow> \<exists>y. f x = Ok y) \<Longrightarrow> \<exists>ys. omap f xs = Ok ys"
  by (induction xs) fastforce+

section \<open>Sorting by a comparator\<close>

text \<open>
  \<open>go_sort lt xs\<close> is the insertion sort that \<^verbatim>\<open>sort.SliceStable\<close> runs
  (each element moves left while it is less than its left neighbour); the accumulator is the
  sorted prefix, last element first. For a strict weak order the result is the only stable one,
  whatever blocks and merges the library uses.
\<close>

fun ins_left :: "('a \<Rightarrow> 'a \<Rightarrow> bool) \<Rightarrow> 'a \<Rightarrow> 'a list \<Rightarrow> 'a list" where
  "ins_left lt x [] = [x]"
| "ins_left lt x (y # ys) = (if lt x y then y # ins_left lt x ys else x # y # ys)"

definition go_sort :: "('a \<Rightarrow> 'a \<Rightarrow> bool) \<Rightarrow> 'a list \<Rightarrow> 'a list" where
  "go_sort lt xs = rev (fold (ins_left lt) xs [])"

lemma mset_ins_left [simp]: "mset (ins_left lt x ys) = add_mset x (mset ys)"
  by (induction ys) auto

lemma mset_fold_ins_left: "mset (fold (ins_left lt) xs acc) = mset xs + mset acc"
  by (induction xs arbitrary: acc) auto

lemma mset_go_sort [simp]: "mset (go_sort lt xs) = mset xs"
  by (simp add: go_sort_def mset_fold_ins_left)

lemma set_go_sort [simp]: "set (go_sort lt xs) = set xs"
  by (metis mset_go_sort set_mset_mset)

lemma length_go_sort [simp]: "length (go_sort lt xs) = length xs"
  by (metis mset_go_sort size_mset)

lemma distinct_go_sort [simp]: "distinct (go_sort lt xs) = distinct xs"
  by (metis mset_eq_imp_distinct_iff mset_go_sort)

lemma distinct_map_go_sort [simp]: "distinct (map f (go_sort lt xs)) = distinct (map f xs)"
  by (metis mset_eq_imp_distinct_iff mset_go_sort mset_map)

lemma go_sort_Nil [simp]: "go_sort lt [] = []"
  by (simp add: go_sort_def)

lemma go_sort_eq_Nil [simp]: "go_sort lt xs = [] \<longleftrightarrow> xs = []"
  by (metis length_go_sort length_0_conv)

text \<open>The contract of a comparator: a strict weak order.\<close>

locale strict_weak =
  fixes lt :: "'a \<Rightarrow> 'a \<Rightarrow> bool"
  assumes asym: "lt x y \<Longrightarrow> \<not> lt y x"
    and neg_trans: "\<not> lt x y \<Longrightarrow> \<not> lt y z \<Longrightarrow> \<not> lt x z"
begin

lemma less_trans: "lt x y \<Longrightarrow> lt y z \<Longrightarrow> lt x z"
  using asym neg_trans by blast

lemma ins_left_sorted:
  "sorted_wrt (\<lambda>a b. \<not> lt a b) ys \<Longrightarrow> sorted_wrt (\<lambda>a b. \<not> lt a b) (ins_left lt x ys)"
proof (induction ys)
  case (Cons y ys)
  have "set (ins_left lt x ys) = insert x (set ys)"
    by (metis mset_ins_left set_mset_mset set_mset_add_mset_insert)
  with Cons show ?case
    by (auto dest: asym neg_trans)
qed simp

lemma fold_ins_left_sorted:
  "sorted_wrt (\<lambda>a b. \<not> lt a b) acc \<Longrightarrow>
   sorted_wrt (\<lambda>a b. \<not> lt a b) (fold (ins_left lt) xs acc)"
  by (induction xs arbitrary: acc) (auto simp: ins_left_sorted)

lemma go_sort_sorted: "sorted_wrt (\<lambda>a b. \<not> lt b a) (go_sort lt xs)"
  unfolding go_sort_def sorted_wrt_rev by (rule fold_ins_left_sorted) simp

lemma ins_left_filter:
  assumes "sorted_wrt (\<lambda>a b. \<not> lt a b) ys"
    and "\<And>a b. P a \<Longrightarrow> P b \<Longrightarrow> \<not> lt a b" and "\<And>a b. P a \<Longrightarrow> \<not> lt a b \<Longrightarrow> \<not> lt b a \<Longrightarrow> P b"
  shows "filter P (ins_left lt x ys) = (if P x then x # filter P ys else filter P ys)"
  using assms(1)
proof (induction ys)
  case (Cons y ys)
  show ?case
  proof (cases "lt x y")
    case True
    then have "P x \<Longrightarrow> \<not> P y" using assms(2) by blast
    with Cons True show ?thesis by auto
  qed auto
qed simp

lemma go_sort_stable:
  assumes "\<And>a b. P a \<Longrightarrow> P b \<Longrightarrow> \<not> lt a b" and "\<And>a b. P a \<Longrightarrow> \<not> lt a b \<Longrightarrow> \<not> lt b a \<Longrightarrow> P b"
  shows "filter P (go_sort lt xs) = filter P xs"
proof -
  have "filter P (fold (ins_left lt) xs acc) = rev (filter P xs) @ filter P acc"
    if "sorted_wrt (\<lambda>a b. \<not> lt a b) acc" for acc
    using that
  proof (induction xs arbitrary: acc)
    case (Cons x xs)
    have "filter P (ins_left lt x acc) = (if P x then x # filter P acc else filter P acc)"
      using Cons.prems assms by (rule ins_left_filter)
    with Cons.IH [OF ins_left_sorted [OF Cons.prems]] show ?case by simp
  qed simp
  from this [of "[]"] show ?thesis by (simp add: go_sort_def flip: rev_filter)
qed

text \<open>Everything before the cut of the sorted list is at least as good as everything after it.\<close>

lemma take_go_sort_best:
  "a \<in> set (take n (go_sort lt xs)) \<Longrightarrow> b \<in> set (drop n (go_sort lt xs)) \<Longrightarrow> \<not> lt b a"
proof -
  assume a: "a \<in> set (take n (go_sort lt xs))" and b: "b \<in> set (drop n (go_sort lt xs))"
  have "sorted_wrt (\<lambda>a b. \<not> lt b a) (take n (go_sort lt xs) @ drop n (go_sort lt xs))"
    using go_sort_sorted [of xs] by simp
  then show ?thesis using a b unfolding sorted_wrt_append by blast
qed

lemma hd_go_sort_best: "xs \<noteq> [] \<Longrightarrow> b \<in> set xs \<Longrightarrow> \<not> lt b (hd (go_sort lt xs))"
proof -
  assume "xs \<noteq> []" and b: "b \<in> set xs"
  then obtain h t where ht: "go_sort lt xs = h # t"
    by (metis go_sort_eq_Nil neq_Nil_conv)
  then have "b \<in> set (h # t)" using b by (metis set_go_sort)
  then show ?thesis using go_sort_sorted [of xs] ht asym [of h h] by (auto simp: ht)
qed

end

text \<open>Comparators built from keys: one key, then a comparator that may depend on its value.\<close>

lemma strict_weak_key: "strict_weak (\<lambda>a b. (f a :: 'b::linorder) < f b)"
  by unfold_locales auto

lemma strict_weak_False: "strict_weak (\<lambda>a b. False)"
  by unfold_locales auto

lemma strict_weak_dep:
  assumes "\<And>k. strict_weak (L k)"
  shows "strict_weak (\<lambda>a b. if (f a :: 'b::linorder) \<noteq> f b then f a < f b else L (f a) a b)"
proof (unfold_locales, goal_cases)
  case (1 x y)
  then show ?case
    using strict_weak.asym [OF assms, of "f x" x y] by (auto split: if_splits)
next
  case (2 x y z)
  then show ?case
    using strict_weak.neg_trans [OF assms, of "f x" x y z] by (auto split: if_splits)
qed

lemma strict_weak_rkey_dep:
  assumes "\<And>k. strict_weak (L k)"
  shows "strict_weak (\<lambda>a b. if (f a :: 'b::linorder) \<noteq> f b then f a > f b else L (f a) a b)"
proof (unfold_locales, goal_cases)
  case (1 x y)
  then show ?case
    using strict_weak.asym [OF assms, of "f x" x y] by (auto split: if_splits)
next
  case (2 x y z)
  then show ?case
    using strict_weak.neg_trans [OF assms, of "f x" x y z] by (auto split: if_splits)
qed

text \<open>Sorting by a single key is the library's stable \<open>sort_key\<close>.\<close>

lemma go_sort_key: "go_sort (\<lambda>a b. (f a :: 'b::linorder) < f b) xs = sort_key f xs"
proof (rule properties_for_sort_key [symmetric])
  show "mset (go_sort (\<lambda>a b. f a < f b) xs) = mset xs" by simp
next
  fix k
  assume "k \<in> set (go_sort (\<lambda>a b. f a < f b) xs)"
  show "filter (\<lambda>x. f k = f x) (go_sort (\<lambda>a b. f a < f b) xs) = filter (\<lambda>x. f k = f x) xs"
    by (rule strict_weak.go_sort_stable [OF strict_weak_key]) auto
next
  have "sorted_wrt (\<lambda>a b. \<not> f b < f a) (go_sort (\<lambda>a b. f a < f b) xs)"
    by (rule strict_weak.go_sort_sorted [OF strict_weak_key])
  then show "sorted (map f (go_sort (\<lambda>a b. f a < f b) xs))"
    by (simp add: sorted_wrt_map linorder_not_less)
qed

section \<open>The lowest free number\<close>

text \<open>Listen ports and slot indices are handed out the same way: the lowest number of a range
  that is not in use.\<close>

locale lowest_free =
  fixes lo hi :: nat
    and nxt :: "(nat \<Rightarrow> bool) \<Rightarrow> nat option"
  assumes nxt_Some: "nxt used = Some p \<Longrightarrow> lo \<le> p \<and> p < hi \<and> \<not> used p \<and> (\<forall>q. lo \<le> q \<longrightarrow> q < p \<longrightarrow> used q)"
    and nxt_None: "nxt used = None \<Longrightarrow> lo \<le> q \<Longrightarrow> q < hi \<Longrightarrow> used q"
begin

lemma nxt_fresh: "nxt used = Some p \<Longrightarrow> \<not> used p"
  using nxt_Some by blast

lemma nxt_range: "nxt used = Some p \<Longrightarrow> p \<in> {lo..<hi}"
  using nxt_Some by fastforce

lemma nxt_exists: "lo \<le> q \<Longrightarrow> q < hi \<Longrightarrow> \<not> used q \<Longrightarrow> \<exists>p \<le> q. nxt used = Some p"
proof -
  assume q: "lo \<le> q" "q < hi" "\<not> used q"
  show ?thesis
  proof (cases "nxt used")
    case None
    with q nxt_None show ?thesis by blast
  next
    case (Some p)
    then have "p \<le> q" using nxt_Some [OF Some] q by (meson not_le)
    with Some show ?thesis by blast
  qed
qed

lemma exhausted_card:
  assumes "nxt used = None" and "finite {p. used p}"
  shows "hi - lo \<le> card {p. used p}"
proof -
  have "{lo..<hi} \<subseteq> {p. used p}" using nxt_None [OF assms(1)] by auto
  then have "card {lo..<hi} \<le> card {p. used p}" by (rule card_mono [OF assms(2)])
  then show ?thesis by simp
qed

end

definition scan_free :: "nat \<Rightarrow> nat \<Rightarrow> (nat \<Rightarrow> bool) \<Rightarrow> nat option" where
  "scan_free lo hi used = List.find (\<lambda>p. \<not> used p) [lo..<hi]"

lemma scan_free_lowest: "lowest_free lo hi (scan_free lo hi)"
proof
  fix used p
  assume "scan_free lo hi used = Some p"
  then obtain i where i: "i < hi - lo" "\<not> used (lo + i)" "p = lo + i" "\<forall>j < i. used (lo + j)"
    by (auto simp: scan_free_def find_Some_iff)
  then have "\<forall>q. lo \<le> q \<longrightarrow> q < p \<longrightarrow> used q"
    by (metis add_diff_inverse_nat add_less_cancel_left not_le)
  with i show "lo \<le> p \<and> p < hi \<and> \<not> used p \<and> (\<forall>q. lo \<le> q \<longrightarrow> q < p \<longrightarrow> used q)" by simp
next
  fix used q
  assume "scan_free lo hi used = None" "lo \<le> q" "q < hi"
  then show "used q" by (auto simp: scan_free_def find_None_iff)
qed

section \<open>Moving averages\<close>

text \<open>An exponentially weighted average moves a fixed share of the way to each new sample.\<close>

locale ewma =
  fixes alpha :: rat
  assumes alpha_pos: "0 < alpha" and alpha_le: "alpha \<le> 1"
begin

lemma ewma_between:
  fixes x r lo hi :: rat
  assumes "lo \<le> x" "x \<le> hi" "lo \<le> r" "r \<le> hi"
  shows "lo \<le> x + alpha * (r - x)" and "x + alpha * (r - x) \<le> hi"
proof -
  have eq: "x + alpha * (r - x) = (1 - alpha) * x + alpha * r" by (simp add: algebra_simps)
  have "(1 - alpha) * lo + alpha * lo \<le> (1 - alpha) * x + alpha * r"
    using assms alpha_pos alpha_le by (intro add_mono mult_left_mono) auto
  then show "lo \<le> x + alpha * (r - x)" unfolding eq by (simp add: algebra_simps)
  have "(1 - alpha) * x + alpha * r \<le> (1 - alpha) * hi + alpha * hi"
    using assms alpha_pos alpha_le by (intro add_mono mult_left_mono) auto
  then show "x + alpha * (r - x) \<le> hi" unfolding eq by (simp add: algebra_simps)
qed

lemma ewma_fixed: "x + alpha * (x - x) = (x :: rat)"
  by simp

end

section \<open>Invariants of runs\<close>

text \<open>A component driven by a sequence of events keeps whatever every single step keeps.\<close>

locale run_invariant =
  fixes step :: "'e \<Rightarrow> 's \<Rightarrow> 's"
    and inv :: "'s \<Rightarrow> bool"
  assumes step_inv: "inv s \<Longrightarrow> inv (step e s)"
begin

lemma run_inv: "inv s \<Longrightarrow> inv (fold step es s)"
  by (induction es arbitrary: s) (auto simp: step_inv)

lemma prefix_inv: "inv s \<Longrightarrow> inv (fold step (take n es) s)"
  by (rule run_inv)

end

section \<open>First occurrences\<close>

text \<open>The \<^verbatim>\<open>seen\<close> map idiom: keep the first element of each key, in order.\<close>

fun keep_first :: "('a \<Rightarrow> 'k) \<Rightarrow> 'k list \<Rightarrow> 'a list \<Rightarrow> 'a list" where
  "keep_first f seen [] = []"
| "keep_first f seen (x # xs) =
     (if f x \<in> set seen then keep_first f seen xs else x # keep_first f (f x # seen) xs)"

lemma keep_first_set: "f ` set (keep_first f seen xs) = f ` set xs - set seen"
  by (induction f seen xs rule: keep_first.induct) auto

lemma keep_first_subset: "set (keep_first f seen xs) \<subseteq> set xs"
  by (induction f seen xs rule: keep_first.induct) auto

lemma keep_first_distinct: "distinct (map f (keep_first f seen xs))"
proof (induction f seen xs rule: keep_first.induct)
  case (2 f seen x xs)
  have "f x \<notin> set (map f (keep_first f (f x # seen) xs))"
    using keep_first_set [of f "f x # seen" xs] by auto
  with 2 show ?case by simp
qed simp

lemma keep_first_id: "distinct (map f xs) \<Longrightarrow> f ` set xs \<inter> set seen = {} \<Longrightarrow> keep_first f seen xs = xs"
  by (induction f seen xs rule: keep_first.induct) auto

lemma keep_first_idem [simp]: "keep_first f [] (keep_first f [] xs) = keep_first f [] xs"
  by (rule keep_first_id) (auto simp: keep_first_distinct)

end
