(* ===== verification/Go_Strings.thy ===== *)
theory Go_Strings
  imports Prelude "HOL-Library.Sublist"
begin

text \<open>
  The string functions of Go's standard library that the program uses. A Go string is a byte
  string, here a \<open>string\<close> whose characters are the bytes. White space is Unicode white space
  in its UTF-8 encoding, as \<^verbatim>\<open>strings.TrimSpace\<close> and \<^verbatim>\<open>strings.Fields\<close> read it;
  lower-casing is that of the ASCII letters (the program lower-cases only keywords, hex digits and
  host names).
\<close>

named_theorems go_str \<open>facts about Go's string functions\<close>

section \<open>Bytes and characters\<close>

definition byte :: "char \<Rightarrow> nat" where
  "byte c = of_char c"

definition is_digit :: "char \<Rightarrow> bool" where
  "is_digit c \<longleftrightarrow> 48 \<le> byte c \<and> byte c \<le> 57"

definition is_alnum :: "char \<Rightarrow> bool" where
  "is_alnum c \<longleftrightarrow> is_digit c \<or> (65 \<le> byte c \<and> byte c \<le> 90) \<or> (97 \<le> byte c \<and> byte c \<le> 122)"

definition lower_char :: "char \<Rightarrow> char" where
  "lower_char c = (if 65 \<le> byte c \<and> byte c \<le> 90 then char_of (byte c + 32) else c)"

definition to_lower :: "string \<Rightarrow> string" where
  "to_lower s = map lower_char s"

section \<open>White space\<close>

text \<open>The length in bytes of the white-space rune at the start of a string, 0 when it starts with
  none: the ASCII ones, U+0085 and U+00A0 (two bytes), and U+1680, U+2000 to U+200A, U+2028, U+2029,
  U+202F, U+205F and U+3000 (three).\<close>

definition ascii_space :: "char \<Rightarrow> bool" where
  "ascii_space c \<longleftrightarrow> byte c = 32 \<or> (9 \<le> byte c \<and> byte c \<le> 13)"

definition space2 :: "char \<Rightarrow> char \<Rightarrow> bool" where
  "space2 a b \<longleftrightarrow> byte a = 0xC2 \<and> (byte b = 0x85 \<or> byte b = 0xA0)"

definition space3 :: "char \<Rightarrow> char \<Rightarrow> char \<Rightarrow> bool" where
  "space3 a b c \<longleftrightarrow>
     (byte a = 0xE1 \<and> byte b = 0x9A \<and> byte c = 0x80) \<or>
     (byte a = 0xE2 \<and> byte b = 0x80 \<and>
        ((0x80 \<le> byte c \<and> byte c \<le> 0x8A) \<or> byte c = 0xA8 \<or> byte c = 0xA9 \<or> byte c = 0xAF)) \<or>
     (byte a = 0xE2 \<and> byte b = 0x81 \<and> byte c = 0x9F) \<or>
     (byte a = 0xE3 \<and> byte b = 0x80 \<and> byte c = 0x80)"

definition space_width :: "string \<Rightarrow> nat" where
  "space_width s = (case s of [] \<Rightarrow> 0
     | a # s' \<Rightarrow> if ascii_space a then 1 else (case s' of [] \<Rightarrow> 0
         | b # s'' \<Rightarrow> if space2 a b then 2 else (case s'' of [] \<Rightarrow> 0
             | c # _ \<Rightarrow> if space3 a b c then 3 else 0)))"

text \<open>The same from the end: the argument is the reversed string.\<close>

definition rspace_width :: "string \<Rightarrow> nat" where
  "rspace_width r = (case r of [] \<Rightarrow> 0
     | a # r' \<Rightarrow> if ascii_space a then 1 else (case r' of [] \<Rightarrow> 0
         | b # r'' \<Rightarrow> if space2 b a then 2 else (case r'' of [] \<Rightarrow> 0
             | c # _ \<Rightarrow> if space3 c b a then 3 else 0)))"

lemma space_width_Nil [simp]: "space_width [] = 0"
  by (simp add: space_width_def)

lemma rspace_width_Nil [simp]: "rspace_width [] = 0"
  by (simp add: rspace_width_def)

fun trim_left :: "string \<Rightarrow> string" where
  "trim_left [] = []"
| "trim_left (c # s) = (if space_width (c # s) = 0 then c # s else trim_left (drop (space_width (c # s) - 1) s))"

fun rtrim_left :: "string \<Rightarrow> string" where
  "rtrim_left [] = []"
| "rtrim_left (c # s) = (if rspace_width (c # s) = 0 then c # s else rtrim_left (drop (rspace_width (c # s) - 1) s))"

definition trim_space :: "string \<Rightarrow> string" where
  "trim_space s = rev (rtrim_left (rev (trim_left s)))"

text \<open>\<^verbatim>\<open>strings.Fields\<close>: the maximal runs without white space; the first argument is the
  current run, reversed.\<close>

fun str_fields_from :: "string \<Rightarrow> string \<Rightarrow> string list" where
  "str_fields_from cur [] = (if cur = [] then [] else [rev cur])"
| "str_fields_from cur (c # s) =
     (if space_width (c # s) = 0 then str_fields_from (c # cur) s
      else (if cur = [] then [] else [rev cur]) @ str_fields_from [] (drop (space_width (c # s) - 1) s))"

definition str_fields :: "string \<Rightarrow> string list" where
  "str_fields s = str_fields_from [] s"

fun join :: "string \<Rightarrow> string list \<Rightarrow> string" where
  "join sep [] = []"
| "join sep [x] = x"
| "join sep (x # y # ys) = x @ sep @ join sep (y # ys)"

section \<open>Splitting and cutting\<close>

fun split_on :: "char \<Rightarrow> string \<Rightarrow> string list" where
  "split_on c [] = [[]]"
| "split_on c (x # s) =
     (if x = c then [] # split_on c s
      else (case split_on c s of [] \<Rightarrow> [[x]] | y # ys \<Rightarrow> (x # y) # ys))"

text \<open>\<^verbatim>\<open>strings.Cut\<close> at the first occurrence of a separator.\<close>

fun cut :: "string \<Rightarrow> string \<Rightarrow> (string \<times> string) option" where
  "cut sep [] = (if sep = [] then Some ([], []) else None)"
| "cut sep (x # s) =
     (if prefix sep (x # s) then Some ([], drop (length sep) (x # s))
      else map_option (\<lambda>(a, b). (x # a, b)) (cut sep s))"

definition trim_prefix :: "string \<Rightarrow> string \<Rightarrow> string" where
  "trim_prefix p s = (if prefix p s then drop (length p) s else s)"

text \<open>\<^verbatim>\<open>strings.Trim(s, "_")\<close> and its kind: drop a character from both ends.\<close>

definition trim_char :: "char \<Rightarrow> string \<Rightarrow> string" where
  "trim_char c s = rev (dropWhile (\<lambda>x. x = c) (rev (dropWhile (\<lambda>x. x = c) s)))"

section \<open>Numbers\<close>

definition digit :: "nat \<Rightarrow> char" where
  "digit n = char_of (n + 48)"

fun nat_str :: "nat \<Rightarrow> string" where
  "nat_str n = (if n < 10 then [digit n] else nat_str (n div 10) @ [digit (n mod 10)])"

declare nat_str.simps [simp del]

definition itoa :: "int \<Rightarrow> string" where
  "itoa i = (if i < 0 then CHR ''-'' # nat_str (nat (- i)) else nat_str (nat i))"

definition digits_val :: "string \<Rightarrow> nat" where
  "digits_val s = foldl (\<lambda>n c. 10 * n + (byte c - 48)) 0 s"

text \<open>\<^verbatim>\<open>strconv.Atoi\<close> on a 64-bit platform: an optional sign and decimal digits, in range.\<close>

definition parse_int :: "string \<Rightarrow> int option" where
  "parse_int s =
     (let (neg, ds) = (case s of [] \<Rightarrow> (False, [])
            | c # t \<Rightarrow> if c = CHR ''-'' then (True, t) else if c = CHR ''+'' then (False, t) else (False, s))
      in if ds = [] \<or> \<not> list_all is_digit ds then None
         else let v = (if neg then - int (digits_val ds) else int (digits_val ds))
              in if - (2 ^ 63) \<le> v \<and> v < 2 ^ 63 then Some v else None)"

section \<open>Facts\<close>

lemma space_width_pos_le: "space_width s \<le> length s"
  by (auto simp: space_width_def split: list.splits)

lemma length_trim_left: "length (trim_left s) \<le> length s"
  by (induction s rule: trim_left.induct) (auto simp: Let_def intro: le_trans)

lemma byte_lt: "byte c < 256"
  by (simp add: byte_def)

lemma byte_inj [simp]: "byte a = byte b \<longleftrightarrow> a = b"
  by (simp add: byte_def)

text \<open>A string no position of which starts a white-space rune; a \<open>word\<close> is a non-empty one.\<close>

fun no_space :: "string \<Rightarrow> bool" where
  "no_space [] = True"
| "no_space (c # s) = (space_width (c # s) = 0 \<and> no_space s)"

definition plain :: "string \<Rightarrow> bool" where
  "plain s \<longleftrightarrow> (\<forall>c \<in> set s. \<not> ascii_space c \<and> byte c < 128)"

lemma plain_no_space: "plain s \<Longrightarrow> no_space s"
  by (induction s) (auto simp: plain_def space_width_def space2_def space3_def split: list.splits)

lemma space_width_append: "space_width s \<noteq> 0 \<Longrightarrow> space_width (s @ t) = space_width s"
  by (auto simp: space_width_def split: list.splits if_splits)

lemma no_space_prefix: "no_space (s @ t) \<Longrightarrow> no_space s"
proof (induction s)
  case (Cons c s)
  have "space_width (c # s) = 0"
    using Cons.prems space_width_append [of "c # s" t] by (cases "space_width (c # s) = 0") auto
  with Cons show ?case by simp
qed simp

lemma space_width_blank [simp]: "space_width (CHR '' '' # s) = 1"
  by (simp add: space_width_def ascii_space_def byte_def)

lemma space_width_then_blank: "s \<noteq> [] \<Longrightarrow> space_width (s @ CHR '' '' # t) = space_width s"
  by (auto simp: space_width_def space2_def space3_def byte_def split: list.splits)

lemma no_space_not_blank: "no_space s \<Longrightarrow> CHR '' '' \<notin> set s"
  by (induction s) (auto simp: space_width_def ascii_space_def byte_def split: if_splits)

lemma fields_from_word: "no_space w \<Longrightarrow> str_fields_from cur w = (if rev cur @ w = [] then [] else [rev cur @ w])"
  by (induction w arbitrary: cur) auto

lemma fields_from_blank:
  "no_space w \<Longrightarrow> str_fields_from cur (w @ CHR '' '' # t) =
     (if rev cur @ w = [] then [] else [rev cur @ w]) @ str_fields_from [] t"
proof (induction w arbitrary: cur)
  case (Cons c w)
  then have "space_width ((c # w) @ CHR '' '' # t) = 0"
    using space_width_then_blank [of "c # w" t] by simp
  with Cons show ?case by simp
qed simp

lemma str_fields_join_words:
  "(\<And>w. w \<in> set ws \<Longrightarrow> w \<noteq> [] \<and> no_space w) \<Longrightarrow> str_fields (join [CHR '' ''] ws) = ws"
  unfolding str_fields_def
proof (induction "[CHR '' '']" ws rule: join.induct)
  case 1
  then show ?case by simp
next
  case (2 x)
  then show ?case by (simp add: fields_from_word)
next
  case (3 x y ys)
  then show ?case by (simp add: fields_from_blank)
qed

lemma no_space_snoc:
  assumes "space_width (c # s) = 0" and "no_space (rev cur)"
    and later: "\<And>p. suffix p (rev cur) \<Longrightarrow> p \<noteq> [] \<Longrightarrow> space_width (p @ c # s) = 0"
  shows "no_space (rev (c # cur))"
proof -
  have "no_space (p @ [c])" if "suffix p (rev cur)" for p
    using that
  proof (induction p)
    case Nil
    then show ?case
      using assms(1) space_width_append [of "[c]" s] by (cases "space_width [c] = 0") auto
  next
    case (Cons a p)
    have "space_width (a # p @ c # s) = 0" using later [OF Cons.prems] by simp
    then have "space_width (a # p @ [c]) = 0"
      using space_width_append [of "a # p @ [c]" s] by (cases "space_width (a # p @ [c]) = 0") auto
    with Cons show ?case by (simp add: suffix_ConsD)
  qed
  from this [of "rev cur"] show ?thesis by simp
qed

lemma str_fields_from_words:
  assumes "no_space (rev cur)"
    and "\<And>p. suffix p (rev cur) \<Longrightarrow> p \<noteq> [] \<Longrightarrow> space_width (p @ s) = 0"
    and "w \<in> set (str_fields_from cur s)"
  shows "w \<noteq> [] \<and> no_space w"
  using assms
proof (induction cur s rule: str_fields_from.induct)
  case (1 cur)
  then show ?case by (auto split: if_splits)
next
  case (2 cur c s)
  show ?case
  proof (cases "space_width (c # s) = 0")
    case True
    have suf: "space_width (p @ s) = 0" if "suffix p (rev (c # cur))" "p \<noteq> []" for p
    proof -
      from that obtain q where q: "p = q @ [c]" "suffix q (rev cur)"
        by (metis rev.simps(2) suffix_snoc)
      with "2.prems"(2) [of q] True show ?thesis by (cases "q = []") auto
    qed
    have "no_space (rev (c # cur))"
      by (rule no_space_snoc [OF True "2.prems"(1)]) (use "2.prems"(2) in auto)
    then show ?thesis using "2.IH"(1) [OF True _ suf] "2.prems"(3) True by simp
  next
    case False
    then consider "w = rev cur" "cur \<noteq> []" | "w \<in> set (str_fields_from [] (drop (space_width (c # s) - 1) s))"
      using "2.prems"(3) by (auto split: if_splits)
    then show ?thesis
    proof cases
      case 1
      then show ?thesis using "2.prems"(1) by simp
    next
      case 2
      then show ?thesis using "2.IH"(2) [OF False] by simp
    qed
  qed
qed

lemma str_fields_words: "w \<in> set (str_fields s) \<Longrightarrow> w \<noteq> [] \<and> no_space w"
  unfolding str_fields_def by (rule str_fields_from_words [where cur = "[]"]) auto

lemma str_fields_join [simp, go_str]: "str_fields (join [CHR '' ''] (str_fields s)) = str_fields s"
  by (rule str_fields_join_words) (rule str_fields_words)

lemma trim_left_no_space: "no_space s \<Longrightarrow> trim_left s = s"
  by (cases s) auto

text \<open>Trimming does not change the fields.\<close>

lemma str_fields_trim_left: "str_fields (trim_left s) = str_fields s"
  unfolding str_fields_def by (induction s rule: trim_left.induct) auto

lemma set_split_on: "s' \<in> set (split_on c s) \<Longrightarrow> set s' \<subseteq> set s - {c}"
  by (induction s arbitrary: s') (fastforce split: list.splits if_splits)+

lemma split_on_ne [simp]: "split_on c s \<noteq> []"
  by (induction s) (auto split: list.splits)

lemma split_on_absent: "c \<notin> set s \<Longrightarrow> split_on c s = [s]"
  by (induction s) auto

lemma split_on_append: "c \<notin> set s \<Longrightarrow> split_on c (s @ c # t) = s # split_on c t"
  by (induction s) auto

lemma split_on_join [go_str]:
  "ws \<noteq> [] \<Longrightarrow> (\<And>w. w \<in> set ws \<Longrightarrow> c \<notin> set w) \<Longrightarrow> split_on c (join [c] ws) = ws"
  by (induction "[c]" ws rule: join.induct) (auto simp: split_on_absent split_on_append)

lemma cut_char_None: "cut [c] s = None \<longleftrightarrow> c \<notin> set s"
  by (induction s) (auto simp: prefix_def)

lemma cut_char_Some: "cut [c] s = Some (a, b) \<longleftrightarrow> s = a @ c # b \<and> c \<notin> set a"
proof (induction s arbitrary: a)
  case (Cons x s)
  show ?case
  proof (cases "x = c")
    case True
    then show ?thesis by (cases a) (auto simp: prefix_def)
  next
    case False
    then have "cut [c] (x # s) = map_option (\<lambda>(a, b). (x # a, b)) (cut [c] s)" by simp
    then show ?thesis using Cons False by (cases a) auto
  qed
qed simp

lemma cut_char_append [simp, go_str]: "c \<notin> set a \<Longrightarrow> cut [c] (a @ c # b) = Some (a, b)"
  by (simp add: cut_char_Some)

lemma join_snoc_cases: "join sep (ws @ [w]) = (if ws = [] then w else join sep ws @ sep @ w)"
  by (induction sep ws rule: join.induct) auto

lemma set_join: "set (join sep ws) \<subseteq> set sep \<union> (\<Union>w \<in> set ws. set w)"
  by (induction sep ws rule: join.induct) auto

text \<open>Decimal numbers can be read back, so equal renderings come from equal numbers.\<close>

lemma byte_digit: "n < 10 \<Longrightarrow> byte (digit n) = n + 48"
  by (simp add: byte_def digit_def)

lemma is_digit_digit: "n < 10 \<Longrightarrow> is_digit (digit n)"
  by (simp add: is_digit_def byte_digit)

lemma nat_str_digits: "list_all is_digit (nat_str n)"
proof (induction n rule: nat_str.induct)
  case (1 n)
  then show ?case by (subst nat_str.simps) (auto simp: is_digit_digit)
qed

lemma nat_str_ne [simp]: "nat_str n \<noteq> []"
  by (subst nat_str.simps) simp

lemma digits_val_nat_str [simp, go_str]: "digits_val (nat_str n) = n"
proof (induction n rule: nat_str.induct)
  case (1 n)
  show ?case
  proof (cases "n < 10")
    case True
    then show ?thesis by (subst nat_str.simps) (simp add: digits_val_def byte_digit)
  next
    case False
    then have "digits_val (nat_str (n div 10)) = n div 10" using 1 by simp
    with False show ?thesis
      by (subst nat_str.simps) (simp add: digits_val_def byte_digit)
  qed
qed

lemma nat_str_inj [simp]: "nat_str m = nat_str n \<longleftrightarrow> m = n"
  by (metis digits_val_nat_str)

lemma nat_str_hd: "nat_str n = c # t \<Longrightarrow> is_digit c"
  using nat_str_digits [of n] by simp

lemma parse_int_itoa [go_str]: "- (2 ^ 63) \<le> i \<Longrightarrow> i < 2 ^ 63 \<Longrightarrow> parse_int (itoa i) = Some i"
proof -
  assume r: "- (2 ^ 63) \<le> i" "i < 2 ^ 63"
  show ?thesis
  proof (cases "i < 0")
    case True
    then show ?thesis using r nat_str_digits [of "nat (- i)"]
      by (simp add: parse_int_def itoa_def Let_def)
  next
    case False
    obtain c t where ct: "nat_str (nat i) = c # t" by (metis nat_str_ne neq_Nil_conv)
    then have "c \<noteq> CHR ''-''" "c \<noteq> CHR ''+''"
      using nat_str_hd [OF ct] by (auto simp: is_digit_def byte_def)
    with False ct r nat_str_digits [of "nat i"] digits_val_nat_str [of "nat i"] show ?thesis
      by (simp add: parse_int_def itoa_def Let_def)
  qed
qed

lemma itoa_nat: "0 \<le> i \<Longrightarrow> itoa i = nat_str (nat i)"
  by (simp add: itoa_def)

end
