(* ===== verification/Json_Values.thy ===== *)
theory Json_Values
  imports Go_Strings
begin

text \<open>
  JSON values as \<^verbatim>\<open>encoding/json\<close> hands them to the program: an object is a
  \<^verbatim>\<open>map[string]any\<close>, here a dictionary, so that writing it out (keys sorted) and reading it
  back is the identity and two objects are equal exactly when they print alike. Numbers are
  exact: \<open>JNum n\<close> an integer, \<open>JDec m e\<close> any other number, \<open>m * 10 ^ e\<close> with \<open>e < 0\<close> and no
  trailing zero in \<open>m\<close> (the program writes integers only). A stored JSON text is represented by the value it decodes
  to, \<open>None\<close> for text that is not JSON.
\<close>

datatype json =
    JNull
  | JBool bool
  | JNum int
  | JDec int int
  | JStr string
  | JArr "json list"
  | JObj "(string, json) dict"

type_synonym object = "(string, json) dict"
type_synonym raw_json = "json option"

definition jobj :: "(string \<times> json) list \<Rightarrow> json" where
  "jobj kvs = JObj (dict_of kvs)"

text \<open>Decoding into a \<^verbatim>\<open>map[string]any\<close>: \<^verbatim>\<open>null\<close> decodes without an error into a nil
  map, which can be read but panics when it is written to; any other non-object is an error.\<close>

datatype gomap = BadJson | NilMap | GoMap object

definition to_map :: "raw_json \<Rightarrow> gomap" where
  "to_map r = (case r of Some (JObj d) \<Rightarrow> GoMap d | Some JNull \<Rightarrow> NilMap | _ \<Rightarrow> BadJson)"

text \<open>Reads through type assertions: \<open>obj_at\<close> is \<^verbatim>\<open>m[k].(map[string]any)\<close>, comma-ok.\<close>

definition as_obj :: "json \<Rightarrow> object option" where
  "as_obj v = (case v of JObj d \<Rightarrow> Some d | _ \<Rightarrow> None)"

definition as_arr :: "json \<Rightarrow> json list option" where
  "as_arr v = (case v of JArr xs \<Rightarrow> Some xs | _ \<Rightarrow> None)"

definition as_str :: "json \<Rightarrow> string option" where
  "as_str v = (case v of JStr s \<Rightarrow> Some s | _ \<Rightarrow> None)"

definition obj_at :: "object \<Rightarrow> string \<Rightarrow> object option" where
  "obj_at d k = Option.bind (map_of d k) as_obj"

definition arr_at :: "object \<Rightarrow> string \<Rightarrow> json list" where
  "arr_at d k = (case Option.bind (map_of d k) as_arr of None \<Rightarrow> [] | Some xs \<Rightarrow> xs)"

definition str_at :: "object \<Rightarrow> string \<Rightarrow> string" where
  "str_at d k = (case Option.bind (map_of d k) as_str of None \<Rightarrow> [] | Some s \<Rightarrow> s)"

text \<open>A missing or mistyped object reads as the empty (nil) map.\<close>

definition obj_or_nil :: "object \<Rightarrow> string \<Rightarrow> object" where
  "obj_or_nil d k = (case obj_at d k of None \<Rightarrow> [] | Some d' \<Rightarrow> d')"

text \<open>Decoding one string field of a struct: an exactly named key, else one that differs only in
  letter case; a missing or null field keeps the zero value, any other type is a decoding error
  (\<open>None\<close>). A dictionary has no order of its own, so of two spellings of one key, of which Go takes the
  last in the text, the exact one is taken here; no object the program writes has two.\<close>

definition struct_key :: "object \<Rightarrow> string \<Rightarrow> json option" where
  "struct_key d k = (case map_of d k of Some v \<Rightarrow> Some v
     | None \<Rightarrow> map_option snd (List.find (\<lambda>p. to_lower (fst p) = to_lower k) (rev d)))"

definition struct_str :: "object \<Rightarrow> string \<Rightarrow> string option" where
  "struct_str d k = (case struct_key d k of None \<Rightarrow> Some [] | Some JNull \<Rightarrow> Some []
     | Some (JStr s) \<Rightarrow> Some s | Some _ \<Rightarrow> None)"

text \<open>The \<^verbatim>\<open>struct{ Protocol string }\<close> decode that the program runs on outbounds: \<open>None\<close> is
  the decoding error.\<close>

definition decode_protocol :: "raw_json \<Rightarrow> string option" where
  "decode_protocol r = (case r of None \<Rightarrow> None | Some JNull \<Rightarrow> Some []
     | Some (JObj d) \<Rightarrow> struct_str d ''protocol'' | Some _ \<Rightarrow> None)"

lemma jobj_eq_JObj [simp]: "jobj kvs = JObj (dict_of kvs)"
  by (simp add: jobj_def)

lemma to_map_GoMap [simp]: "to_map r = GoMap d \<longleftrightarrow> r = Some (JObj d)"
  by (auto simp: to_map_def split: option.splits json.splits)

lemma to_map_NilMap [simp]: "to_map r = NilMap \<longleftrightarrow> r = Some JNull"
  by (auto simp: to_map_def split: option.splits json.splits)

lemma obj_at_dput [simp, dict_simps]: "obj_at (dput k v d) k' = (if k' = k then as_obj v else obj_at d k')"
  by (simp add: obj_at_def)

lemma str_at_dput [simp, dict_simps]:
  "str_at (dput k v d) k' = (if k' = k then (case as_str v of None \<Rightarrow> [] | Some s \<Rightarrow> s) else str_at d k')"
  by (simp add: str_at_def)

lemma arr_at_dput [simp, dict_simps]:
  "arr_at (dput k v d) k' = (if k' = k then (case as_arr v of None \<Rightarrow> [] | Some s \<Rightarrow> s) else arr_at d k')"
  by (simp add: arr_at_def)

lemma obj_at_ddel [simp, dict_simps]: "obj_at (ddel k d) k' = (if k' = k then None else obj_at d k')"
  by (simp add: obj_at_def)

lemma str_at_ddel [simp, dict_simps]: "str_at (ddel k d) k' = (if k' = k then [] else str_at d k')"
  by (simp add: str_at_def)

lemma as_simps [simp]:
  "as_obj (JObj d) = Some d" "as_obj (JStr s) = None" "as_obj (JNum n) = None" "as_obj (JArr xs) = None"
  "as_obj JNull = None" "as_obj (JBool b) = None" "as_obj (JDec m e) = None" "as_str (JDec m e) = None" "as_arr (JDec m e) = None"
  "as_str (JStr s) = Some s" "as_str (JObj d) = None" "as_str (JNum n) = None" "as_str (JArr xs) = None"
  "as_str JNull = None" "as_str (JBool b) = None"
  "as_arr (JArr xs) = Some xs" "as_arr (JObj d) = None" "as_arr (JStr s) = None" "as_arr (JNum n) = None"
  "as_arr JNull = None" "as_arr (JBool b) = None"
  by (simp_all add: as_obj_def as_str_def as_arr_def)

lemma as_obj_Some [simp]: "as_obj v = Some d \<longleftrightarrow> v = JObj d"
  by (cases v) auto

lemma as_str_Some [simp]: "as_str v = Some s \<longleftrightarrow> v = JStr s"
  by (cases v) auto

lemma as_arr_Some [simp]: "as_arr v = Some s \<longleftrightarrow> v = JArr s"
  by (cases v) auto

lemma obj_or_nil_dput [simp, dict_simps]:
  "obj_or_nil (dput k v d) k' = (if k' = k then (case as_obj v of None \<Rightarrow> [] | Some d' \<Rightarrow> d') else obj_or_nil d k')"
  by (simp add: obj_or_nil_def)

lemma obj_or_nil_ddel [simp, dict_simps]:
  "obj_or_nil (ddel k d) k' = (if k' = k then [] else obj_or_nil d k')"
  by (simp add: obj_or_nil_def)

lemma nil_map_simps [simp]:
  "obj_at [] k = None" "str_at [] k = []" "arr_at [] k = []" "obj_or_nil [] k = []"
  by (simp_all add: obj_at_def str_at_def arr_at_def obj_or_nil_def)

lemma to_map_simps [simp]:
  "to_map (Some (JObj d)) = GoMap d" "to_map (Some JNull) = NilMap" "to_map None = BadJson"
  by (simp_all add: to_map_def)

end
