(* ===== verification/Models.thy ===== *)
theory Models
  imports Json_Values
begin

text \<open>
  \<^verbatim>\<open>core/xray/models.go\<close>: the rows of the database, names, targets and strategies. Times are
  nanoseconds since an epoch, \<open>None\<close> for Go's zero time. The bookkeeping columns
  \<^verbatim>\<open>CreatedAt\<close> and \<^verbatim>\<open>UpdatedAt\<close>, which nothing reads, are left out.
\<close>

type_synonym time = int

definition seconds :: "int \<Rightarrow> time" where
  "seconds n = n * 1000000000"

definition minutes :: "int \<Rightarrow> time" where
  "minutes n = seconds (60 * n)"

definition hours :: "int \<Rightarrow> time" where
  "hours n = minutes (60 * n)"

lemmas duration_defs = seconds_def minutes_def hours_def

section \<open>Rows\<close>

definition DefaultSubUserAgent :: string where "DefaultSubUserAgent = ''v2rayN/6.23''"
definition DefaultSubIntervalSec :: int where "DefaultSubIntervalSec = 12 * 3600"
definition DefaultSubNodeCap :: int where "DefaultSubNodeCap = 30"

record subscription =
  sub_ID :: nat
  sub_Name :: string
  sub_URL :: string
  sub_UserAgent :: string
  sub_IntervalSec :: int
  sub_NodeCap :: int
  sub_Enabled :: bool
  sub_Strategy :: string
  sub_LastFetched :: "time option"
  sub_LastError :: string
  sub_Upload :: int
  sub_Download :: int
  sub_Total :: int
  sub_Expire :: int

record sub_node =
  nd_ID :: nat
  nd_SubID :: nat
  nd_Name :: string
  nd_Fingerprint :: string
  nd_Outbound :: raw_json
  nd_Active :: bool
  nd_LastLatencyMs :: int

record sub_node_override =
  ov_ID :: nat
  ov_SubID :: nat
  ov_Fingerprint :: string
  ov_Disabled :: bool
  ov_Pinned :: bool

record xray_entry =
  e_ID :: nat
  e_Name :: string
  e_Outbound :: raw_json
  e_Enabled :: bool
  e_Dialer :: string
  e_Mux :: bool

record inbound_user =
  u_ID :: nat
  u_InboundID :: nat
  u_Name :: string
  u_UUID :: string
  u_Password :: string
  u_Auth :: string
  u_Email :: string
  u_ByteCap :: int
  u_Enabled :: bool

record inbound =
  in_ID :: nat
  in_Name :: string
  in_Protocol :: string
  in_Listen :: string
  in_Port :: nat
  in_Enabled :: bool
  in_UUID :: string
  in_Password :: string
  in_HysteriaAuth :: string
  in_SocksUser :: string
  in_Flow :: string
  in_Network :: string
  in_Path :: string
  in_Host :: string
  in_Security :: string
  in_XHTTPMode :: string
  in_ClientEmail :: string
  in_RealityPrivateKey :: string
  in_RealityPublicKey :: string
  in_RealityShortID :: string
  in_RealityDest :: string
  in_RealitySNI :: string
  in_TLSCert :: string
  in_TLSKey :: string
  in_TLSSNI :: string
  in_PublicHost :: string
  in_Target :: string
  in_Users :: "inbound_user list"

definition IsMaster :: "xray_entry \<Rightarrow> bool" where
  "IsMaster e \<longleftrightarrow> trim_space (e_Dialer e) \<noteq> []"

section \<open>Strategies and subscription defaults\<close>

definition StrategyAuto :: string where "StrategyAuto = ''auto''"
definition StrategyStable :: string where "StrategyStable = ''stable''"
definition StrategyAgile :: string where "StrategyAgile = ''agile''"
definition StrategyManual :: string where "StrategyManual = ''manual''"

lemmas strategy_defs = StrategyAuto_def StrategyStable_def StrategyAgile_def StrategyManual_def

definition ParseStrategy :: "string \<Rightarrow> string + string" where
  "ParseStrategy s =
     (let v = to_lower (trim_space s)
      in if v = [] \<or> v = StrategyAuto then Inr StrategyAuto
         else if v \<in> {StrategyStable, StrategyAgile, StrategyManual} then Inr v
         else Inl s)"

definition EffectiveStrategy :: "subscription \<Rightarrow> string" where
  "EffectiveStrategy s = (case ParseStrategy (sub_Strategy s) of Inr v \<Rightarrow> v | Inl _ \<Rightarrow> StrategyAuto)"

definition EffectiveInterval :: "subscription \<Rightarrow> time" where
  "EffectiveInterval s =
     (if sub_IntervalSec s \<le> 0 then seconds DefaultSubIntervalSec else seconds (sub_IntervalSec s))"

definition EffectiveCap :: "subscription \<Rightarrow> int" where
  "EffectiveCap s = (if sub_NodeCap s \<le> 0 then DefaultSubNodeCap else sub_NodeCap s)"

lemma EffectiveStrategy_range:
  "EffectiveStrategy s \<in> {StrategyAuto, StrategyStable, StrategyAgile, StrategyManual}"
  by (auto simp: EffectiveStrategy_def ParseStrategy_def Let_def)

lemma EffectiveCap_pos: "0 < EffectiveCap s"
  by (simp add: EffectiveCap_def DefaultSubNodeCap_def)

lemma EffectiveInterval_pos: "0 < EffectiveInterval s"
  by (simp add: EffectiveInterval_def DefaultSubIntervalSec_def seconds_def)

section \<open>Names\<close>

datatype name_error = NameEmpty | NameTooLong nat | NameBadChars string

definition name_char :: "char \<Rightarrow> bool" where
  "name_char c \<longleftrightarrow> is_alnum c \<or> c \<in> set '' ._-''"

definition NormalizeName :: "string \<Rightarrow> string" where
  "NormalizeName s = join '' '' (str_fields (trim_space s))"

definition ValidName :: "string \<Rightarrow> name_error + string" where
  "ValidName s =
     (let n = NormalizeName s
      in if n = [] then Inl NameEmpty
         else if length n > 64 then Inl (NameTooLong (length n))
         else if \<not> list_all name_char n then Inl (NameBadChars n)
         else Inr n)"

section \<open>Targets\<close>

definition TargetDirect :: string where "TargetDirect = ''direct''"
definition KindMaster :: string where "KindMaster = ''master''"
definition KindXray :: string where "KindXray = ''xray''"
definition KindIface :: string where "KindIface = ''iface''"

lemmas kind_defs = TargetDirect_def KindMaster_def KindXray_def KindIface_def

datatype target_error = BadTarget string | BadIfaceName string | UnknownTargetKind string

definition iface_char :: "char \<Rightarrow> bool" where
  "iface_char c \<longleftrightarrow> is_alnum c \<or> c \<in> set ''_.:@-''"

definition iface_name_ok :: "string \<Rightarrow> bool" where
  "iface_name_ok n \<longleftrightarrow> 1 \<le> length n \<and> length n \<le> 15 \<and> list_all iface_char n"

definition ParseTarget :: "string \<Rightarrow> target_error + (string \<times> string)" where
  "ParseTarget t0 =
     (let t = trim_space t0
      in if t = [] \<or> t = TargetDirect then Inr (TargetDirect, [])
         else case cut '':'' t of
                None \<Rightarrow> Inl (BadTarget t)
              | Some (k, n) \<Rightarrow>
                  if n = [] then Inl (BadTarget t)
                  else if k = KindMaster \<or> k = KindXray then Inr (k, n)
                  else if k = KindIface then
                    (if iface_name_ok n then Inr (k, n) else Inl (BadIfaceName n))
                  else Inl (UnknownTargetKind k))"

definition CanonicalTarget :: "string \<Rightarrow> target_error + string" where
  "CanonicalTarget t =
     (case ParseTarget t of Inl e \<Rightarrow> Inl e
      | Inr (kind, name) \<Rightarrow> if kind = TargetDirect then Inr TargetDirect else Inr (kind @ '':'' @ name))"

section \<open>Trimming and normalizing again changes nothing\<close>

lemma trim_left_space_width: "space_width (trim_left s) = 0"
  by (induction s rule: trim_left.induct) auto

lemma trim_left_id: "space_width s = 0 \<Longrightarrow> trim_left s = s"
  by (cases s) auto

lemma rtrim_left_space_width: "rspace_width (rtrim_left s) = 0"
  by (induction s rule: rtrim_left.induct) auto

lemma rtrim_left_id: "rspace_width s = 0 \<Longrightarrow> rtrim_left s = s"
  by (cases s) auto

lemma rtrim_left_suffix: "suffix (rtrim_left s) s"
proof (induction s rule: rtrim_left.induct)
  case (2 c s)
  then show ?case
    by (auto intro: suffix_ConsI suffix_drop suffix_order.trans)
qed simp

lemma trim_space_prefix: "prefix (trim_space s) (trim_left s)"
  unfolding trim_space_def using rtrim_left_suffix [of "rev (trim_left s)"]
  by (simp add: suffix_to_prefix)

lemma trim_space_idem [simp, go_str]: "trim_space (trim_space s) = trim_space s"
proof -
  obtain u where u: "trim_left s = trim_space s @ u"
    using trim_space_prefix [of s] by (auto simp: prefix_def)
  have "space_width (trim_space s) = 0"
    using space_width_append [of "trim_space s" u] trim_left_space_width [of s] u
    by (cases "space_width (trim_space s) = 0") auto
  moreover have "rspace_width (rev (trim_space s)) = 0"
    unfolding trim_space_def by (simp add: rtrim_left_space_width)
  ultimately show ?thesis
    by (simp add: trim_space_def [of "trim_space s"] trim_left_id rtrim_left_id)
qed

lemma no_space_app: "no_space (p @ w) \<Longrightarrow> no_space w"
  by (induction p) auto

lemma rspace_width_no_space: "no_space w \<Longrightarrow> w \<noteq> [] \<Longrightarrow> rspace_width (rev w) = 0"
proof -
  assume w: "no_space w" "w \<noteq> []"
  have s1: "space_width [c] = 0" if "suffix [c] w" for c
    using that w(1) no_space_app unfolding suffix_def by (metis no_space.simps(2))
  have s2: "space_width [b, c] = 0" if "suffix [b, c] w" for b c
    using that w(1) no_space_app unfolding suffix_def by (metis no_space.simps(2))
  have s3: "space_width [a, b, c] = 0" if "suffix [a, b, c] w" for a b c
    using that w(1) no_space_app unfolding suffix_def by (metis no_space.simps(2))
  consider c where "rev w = [c]" | b c where "rev w = [c, b]" | a b c r where "rev w = c # b # a # r"
    using w(2) by (metis rev_is_Nil_conv neq_Nil_conv)
  then show ?thesis
  proof cases
    case 1
    then have "suffix [c] w" by (metis rev_singleton_conv suffix_order.refl)
    from s1 [OF this] 1 show ?thesis by (auto simp: rspace_width_def space_width_def split: if_splits)
  next
    case 2
    then have "w = [b, c]" by (metis rev.simps(1) rev.simps(2) rev_rev_ident append_Cons append_Nil)
    then have "suffix [c] w" "suffix [b, c] w" by (auto simp: suffix_def)
    from s1 [OF this(1)] s2 [OF this(2)] 2 show ?thesis
      by (auto simp: rspace_width_def space_width_def split: if_splits)
  next
    case 3
    then have "w = rev r @ [a, b, c]" by (metis rev.simps(2) rev_rev_ident append.assoc append_Cons append_Nil)
    then have "suffix [c] w" "suffix [b, c] w" "suffix [a, b, c] w" by (auto simp: suffix_def)
    from s1 [OF this(1)] s2 [OF this(2)] s3 [OF this(3)] 3 show ?thesis
      by (auto simp: rspace_width_def space_width_def split: if_splits)
  qed
qed

lemma rspace_width_then_blank:
  "r \<noteq> [] \<Longrightarrow> rspace_width (r @ CHR '' '' # t) = rspace_width r"
  by (auto simp: rspace_width_def space2_def space3_def byte_def split: list.splits)

lemma trim_space_words:
  assumes "\<And>w. w \<in> set ws \<Longrightarrow> w \<noteq> [] \<and> no_space w"
  shows "trim_space (join '' '' ws) = join '' '' ws"
proof (cases ws)
  case Nil
  then show ?thesis by (simp add: trim_space_def)
next
  case (Cons w ws')
  have hd0: "space_width w = 0" "w \<noteq> []" using assms [of w] Cons by (cases w; auto)+
  have left: "space_width (join '' '' ws) = 0"
    using hd0 space_width_then_blank [of w] Cons by (cases ws') auto
  have "ws \<noteq> []" using Cons by simp
  then obtain us l where snoc: "ws = us @ [l]" by (metis rev_exhaust)
  then have l: "l \<noteq> []" "no_space l" using assms by auto
  have right: "rspace_width (rev (join '' '' ws)) = 0"
    using rspace_width_no_space [OF l(2,1)] rspace_width_then_blank [of "rev l"] l(1)
    by (simp add: snoc join_snoc_cases)
  show ?thesis using left right
    by (simp add: trim_space_def trim_left_id rtrim_left_id)
qed

lemma NormalizeName_idem [simp, go_str]: "NormalizeName (NormalizeName s) = NormalizeName s"
proof -
  have "trim_space (join '' '' (str_fields (trim_space s))) = join '' '' (str_fields (trim_space s))"
    by (rule trim_space_words) (rule str_fields_words)
  then show ?thesis by (simp add: NormalizeName_def)
qed

lemma ValidName_Inr: "ValidName s = Inr n \<Longrightarrow> n = NormalizeName s \<and> n \<noteq> [] \<and> length n \<le> 64 \<and> list_all name_char n"
  by (auto simp: ValidName_def Let_def split: if_splits)

lemma ValidName_normal: "ValidName s = Inr n \<Longrightarrow> NormalizeName n = n"
  by (auto dest: ValidName_Inr)

lemma ParseTarget_kind:
  "ParseTarget t = Inr (k, n) \<Longrightarrow>
     (k = TargetDirect \<and> n = [] \<and> trim_space t \<in> {[], TargetDirect}) \<or>
     (k \<in> {KindMaster, KindXray, KindIface} \<and> n \<noteq> [] \<and> trim_space t = k @ '':'' @ n)"
  by (auto simp: ParseTarget_def Let_def cut_char_Some split: if_splits option.splits)

lemma CanonicalTarget_form:
  "CanonicalTarget t = Inr c \<Longrightarrow> c = TargetDirect \<or> c = trim_space t"
  by (auto simp: CanonicalTarget_def split: sum.splits prod.splits if_splits dest!: ParseTarget_kind)

lemma ParseTarget_trim [simp]: "ParseTarget (trim_space t) = ParseTarget t"
  by (simp add: ParseTarget_def)

lemma ParseTarget_direct [simp]: "ParseTarget TargetDirect = Inr (TargetDirect, [])"
  by (simp add: ParseTarget_def TargetDirect_def trim_space_def space_width_def rspace_width_def
      ascii_space_def space2_def space3_def byte_def)

section \<open>Trimmed strings\<close>

definition trimmed :: "string \<Rightarrow> bool" where
  "trimmed s \<longleftrightarrow> space_width s = 0 \<and> rspace_width (rev s) = 0"

lemma trimmed_iff: "trimmed s \<longleftrightarrow> trim_space s = s"
proof
  assume "trimmed s"
  then show "trim_space s = s" by (simp add: trimmed_def trim_space_def trim_left_id rtrim_left_id)
next
  assume eq: "trim_space s = s"
  have "rspace_width (rev (trim_space s)) = 0"
    unfolding trim_space_def by (simp add: rtrim_left_space_width)
  moreover obtain u where "trim_left s = trim_space s @ u"
    using trim_space_prefix [of s] by (auto simp: prefix_def)
  then have "space_width (trim_space s) = 0"
    using space_width_append [of "trim_space s" u] trim_left_space_width [of s]
    by (cases "space_width (trim_space s) = 0") auto
  ultimately show "trimmed s" by (simp add: trimmed_def eq)
qed

lemma trimmed_trim_space [simp]: "trimmed (trim_space s)"
  by (simp add: trimmed_iff)

lemma space_width_then_ascii: "s \<noteq> [] \<Longrightarrow> byte c < 128 \<Longrightarrow> space_width (s @ c # t) = space_width s"
  by (auto simp: space_width_def space2_def space3_def split: list.splits)

lemma rspace_width_then_ascii: "r \<noteq> [] \<Longrightarrow> byte c < 128 \<Longrightarrow> rspace_width (r @ c # t) = rspace_width r"
  by (auto simp: rspace_width_def space2_def space3_def split: list.splits)

lemma trimmed_append: "a \<noteq> [] \<Longrightarrow> b \<noteq> [] \<Longrightarrow> byte c < 128 \<Longrightarrow> trimmed a \<Longrightarrow> trimmed b \<Longrightarrow> trimmed (a @ c # b)"
  using space_width_then_ascii [of a c b] rspace_width_then_ascii [of "rev b" c "rev a"]
  by (simp add: trimmed_def)

lemma trimmed_join:
  "(\<And>w. w \<in> set ws \<Longrightarrow> w \<noteq> [] \<and> trimmed w) \<Longrightarrow> byte c < 128 \<Longrightarrow> trimmed (join [c] ws)"
proof (induction "[c]" ws rule: join.induct)
  case (3 x y ys)
  have "trimmed (join [c] (y # ys))" using 3 by simp
  moreover have "join [c] (y # ys) \<noteq> []" using 3 by (cases ys) auto
  ultimately show ?case using 3 trimmed_append [of x "join [c] (y # ys)" c] by simp
qed (auto simp: trimmed_def)

lemma trimmed_plain: "plain s \<Longrightarrow> trimmed s"
  using plain_no_space [of s] rspace_width_no_space [of s] by (cases s) (auto simp: trimmed_def)

lemma str_fields_from_ne: "cur \<noteq> [] \<Longrightarrow> str_fields_from cur s \<noteq> []"
  by (induction cur s rule: str_fields_from.induct) auto

lemma NormalizeName_ne: "trim_space s \<noteq> [] \<Longrightarrow> NormalizeName s \<noteq> []"
proof -
  assume ne: "trim_space s \<noteq> []"
  then obtain c t where ct: "trim_space s = c # t" by (cases "trim_space s") auto
  then have "space_width (c # t) = 0" using trimmed_trim_space [of s] by (simp add: trimmed_def)
  then have "str_fields (trim_space s) \<noteq> []"
    using str_fields_from_ne [of "[c]" t] by (simp add: str_fields_def ct)
  then obtain w ws where w: "str_fields (trim_space s) = w # ws" by (cases "str_fields (trim_space s)") auto
  then have "w \<noteq> []" using str_fields_words [of w "trim_space s"] by simp
  then show ?thesis by (cases ws) (simp_all add: NormalizeName_def w)
qed

lemma NormalizeName_trimmed [simp]: "trimmed (NormalizeName s)"
  unfolding NormalizeName_def trimmed_iff by (rule trim_space_words) (rule str_fields_words)

lemma set_trim_left: "set (trim_left s) \<subseteq> set s"
  by (induction s rule: trim_left.induct) (auto dest: in_set_dropD)

lemma set_rtrim_left: "set (rtrim_left s) \<subseteq> set s"
  using set_mono_suffix [OF rtrim_left_suffix] .

lemma set_trim_space: "set (trim_space s) \<subseteq> set s"
  using set_trim_left [of s] set_rtrim_left [of "rev (trim_left s)"] by (auto simp: trim_space_def)

lemma set_str_fields_from: "w \<in> set (str_fields_from cur s) \<Longrightarrow> set w \<subseteq> set cur \<union> set s"
  by (induction cur s rule: str_fields_from.induct) (fastforce split: if_splits dest: in_set_dropD)+

lemma set_NormalizeName: "set (NormalizeName s) \<subseteq> insert (CHR '' '') (set s)"
proof -
  have "set (NormalizeName s) \<subseteq> set '' '' \<union> (\<Union>w \<in> set (str_fields (trim_space s)). set w)"
    unfolding NormalizeName_def by (rule set_join)
  also have "\<dots> \<subseteq> insert (CHR '' '') (set s)"
    using set_str_fields_from [of _ "[]" "trim_space s"] set_trim_space [of s]
    by (fastforce simp: str_fields_def)
  finally show ?thesis .
qed

end
