(* ===== verification/Tags.thy ===== *)
theory Tags
  imports Models Sha256
begin

text \<open>
  \<^verbatim>\<open>core/xray/ports.go\<close>, the tag functions of \<^verbatim>\<open>dialer.go\<close>,
  \<^verbatim>\<open>traffic.go\<close>, \<^verbatim>\<open>users.go\<close> and \<^verbatim>\<open>template.go\<close>: routing tags,
  stats e-mails, loopback ports and the loopback source address of a dialer hop. The listen-port
  allocator is an instance of the lowest-free-number contract.
\<close>

named_theorems tag_defs \<open>the tag functions\<close>

section \<open>Tag-safe names\<close>

definition tag_char :: "char \<Rightarrow> bool" where
  "tag_char c \<longleftrightarrow> is_alnum c \<or> c = CHR ''_'' \<or> c = CHR ''-''"

text \<open>Replace each maximal run of other bytes by one underscore; the flag says that the previous
  byte belonged to such a run.\<close>

fun replace_runs :: "bool \<Rightarrow> string \<Rightarrow> string" where
  "replace_runs r [] = []"
| "replace_runs r (c # s) =
     (if tag_char c then c # replace_runs False s
      else if r then replace_runs True s
      else CHR ''_'' # replace_runs True s)"

definition sanitizeKey :: "string \<Rightarrow> string" where
  "sanitizeKey s = trim_char (CHR ''_'') (replace_runs False (trim_space s))"

definition InboundTag :: "string \<Rightarrow> string" where
  [tag_defs]: "InboundTag name = ''in-'' @ sanitizeKey name"

definition OutboundTag :: "string \<Rightarrow> string" where
  [tag_defs]: "OutboundTag name = ''out-'' @ sanitizeKey name"

definition IfaceTag :: "string \<Rightarrow> string" where
  [tag_defs]: "IfaceTag name = ''iface-'' @ sanitizeKey name"

definition DialerTag :: "string \<Rightarrow> string" where
  [tag_defs]: "DialerTag master = ''dialer-'' @ sanitizeKey master"

definition DialerEmail :: "string \<Rightarrow> string" where
  [tag_defs]: "DialerEmail master = ''dialer-'' @ sanitizeKey master"

definition SlotInTag :: "nat \<Rightarrow> string" where
  [tag_defs]: "SlotInTag idx = ''slot'' @ nat_str idx @ ''-in''"

definition SlotOutPrefix :: "nat \<Rightarrow> string" where
  [tag_defs]: "SlotOutPrefix idx = ''slot'' @ nat_str idx @ ''-out-''"

definition SlotBalTag :: "nat \<Rightarrow> string \<Rightarrow> string" where
  [tag_defs]: "SlotBalTag idx master = ''slot'' @ nat_str idx @ ''-bal-'' @ sanitizeKey master"

definition SlotMemberTag :: "nat \<Rightarrow> string \<Rightarrow> string" where
  [tag_defs]: "SlotMemberTag idx key = SlotOutPrefix idx @ sanitizeKey key"

definition UserEmail :: "string \<Rightarrow> string \<Rightarrow> string" where
  "UserEmail inboundName userName = sanitizeKey inboundName @ ''.'' @ sanitizeKey userName"

definition PrimaryUserEmail :: "string \<Rightarrow> string" where
  "PrimaryUserEmail inboundName = sanitizeKey inboundName"

section \<open>Identities derived from a master's name\<close>

definition DialerUUID :: "string \<Rightarrow> string" where
  "DialerUUID master =
     (let h0 = sha256 (bytes_of (''emx-dialer:'' @ master));
          h1 = h0[6 := (h0 ! 6 AND 0x0f) OR 0x40];
          h = h1[8 := (h1 ! 8 AND 0x3f) OR 0x80]
      in hex (take 4 h) @ ''-'' @ hex (take 2 (drop 4 h)) @ ''-'' @ hex (take 2 (drop 6 h)) @ ''-'' @
         hex (take 2 (drop 8 h)) @ ''-'' @ hex (take 6 (drop 10 h)))"

definition fnv1a32 :: "8 word list \<Rightarrow> 32 word" where
  "fnv1a32 bs = fold (\<lambda>b h. (h XOR ucast b) * 16777619) bs 2166136261"

definition source_octets :: "32 word \<Rightarrow> nat list" where
  "source_octets v =
     [127, unat (64 + (drop_bit 16 v AND 63)), unat (drop_bit 8 v AND 255), unat (v AND 255)]"

definition DialerSourceAddr :: "string \<Rightarrow> string" where
  "DialerSourceAddr master = join ''.'' (map nat_str (source_octets (fnv1a32 (bytes_of master))))"

section \<open>Loopback ports\<close>

definition PortStart :: nat where "PortStart = 11800"
definition PortEnd :: nat where "PortEnd = 11899"
definition SlotPortStart :: nat where "SlotPortStart = 11900"
definition SlotCount :: nat where "SlotCount = 32"
definition ApiPort :: nat where "ApiPort = 11932"
definition MetricsPort :: nat where "MetricsPort = 11933"
definition ApiTag :: string where [tag_defs]: "ApiTag = ''api''"
definition MetricsTag :: string where "MetricsTag = ''metrics''"

lemmas port_defs = PortStart_def PortEnd_def SlotPortStart_def SlotCount_def ApiPort_def MetricsPort_def

definition SlotPort :: "nat \<Rightarrow> nat" where
  "SlotPort idx = SlotPortStart + idx"

definition IsUnixInbound :: "inbound \<Rightarrow> bool" where
  "IsUnixInbound i \<longleftrightarrow> prefix ''/'' (in_Listen i) \<or> prefix ''@'' (in_Listen i)"

definition nextFreePort :: "nat list \<Rightarrow> nat" where
  "nextFreePort used = (case scan_free PortStart (PortEnd + 1) (\<lambda>p. p \<in> set used) of Some p \<Rightarrow> p | None \<Rightarrow> 0)"

text \<open>The loop of \<^verbatim>\<open>AssignInboundPorts\<close>: the index of the next inbound, the ports in
  use, and the rest of the list; it gives the new list and the indices that changed, and stops when
  the range is exhausted.\<close>

fun assign_from :: "nat \<Rightarrow> nat list \<Rightarrow> inbound list \<Rightarrow> inbound list \<times> nat list" where
  "assign_from i used [] = ([], [])"
| "assign_from i used (x # xs) =
     (if \<not> in_Enabled x \<or> in_Port x \<noteq> 0 \<or> IsUnixInbound x
      then apfst (Cons x) (assign_from (Suc i) used xs)
      else (let p = nextFreePort used
            in if p = 0 then (x # xs, [])
               else map_prod (Cons (x\<lparr>in_Port := p\<rparr>)) (Cons i) (assign_from (Suc i) (p # used) xs)))"

definition AssignInboundPorts :: "inbound list \<Rightarrow> inbound list \<times> nat list" where
  "AssignInboundPorts xs =
     assign_from 0 (filter (\<lambda>p. p \<noteq> 0) (map in_Port xs)) xs"

section \<open>Facts about tags\<close>

lemma tag_char_underscore [simp]: "tag_char (CHR ''_'')"
  by (simp add: tag_char_def)

lemma replace_runs_chars: "list_all tag_char (replace_runs r s)"
  by (induction r s rule: replace_runs.induct) auto

lemma replace_runs_id: "list_all tag_char s \<Longrightarrow> replace_runs r s = s"
  by (induction s arbitrary: r) auto

lemma set_trim_char: "set (trim_char c s) \<subseteq> set s"
  unfolding trim_char_def by (auto dest!: set_dropWhileD)

lemma trim_char_idem [simp]: "trim_char c (trim_char c s) = trim_char c s"
proof -
  define u where "u = dropWhile (\<lambda>x. x = c) s"
  have hd_u: "u = [] \<or> hd u \<noteq> c"
    unfolding u_def by (metis (full_types) hd_dropWhile)
  define v where "v = rev (dropWhile (\<lambda>x. x = c) (rev u))"
  have "prefix v u"
    unfolding v_def by (metis suffix_dropWhile suffix_to_prefix rev_rev_ident)
  then have hd_v: "v = [] \<or> hd v \<noteq> c"
    using hd_u by (auto simp: prefix_def)
  then have 1: "dropWhile (\<lambda>x. x = c) v = v" by (cases v) auto
  have 2: "dropWhile (\<lambda>x. x = c) (rev v) = rev v" unfolding v_def by simp
  show ?thesis
    unfolding trim_char_def u_def [symmetric] v_def [symmetric] 1 2 by simp
qed

lemma sanitizeKey_chars [simp]: "list_all tag_char (sanitizeKey s)"
  using set_trim_char [of "CHR ''_''" "replace_runs False (trim_space s)"]
    replace_runs_chars [of False "trim_space s"]
  by (auto simp: sanitizeKey_def list_all_iff)

lemma tag_char_plain: "tag_char c \<Longrightarrow> \<not> ascii_space c \<and> byte c < 128"
  by (auto simp: tag_char_def is_alnum_def is_digit_def ascii_space_def byte_def)

lemma tag_plain: "list_all tag_char s \<Longrightarrow> plain s"
  by (auto simp: plain_def list_all_iff dest: tag_char_plain)

lemma trim_space_no_space: "no_space s \<Longrightarrow> trim_space s = s"
  by (cases "s = []")
    (auto simp: trim_space_def trim_left_no_space rtrim_left_id rspace_width_no_space)

lemma sanitizeKey_idem [simp]: "sanitizeKey (sanitizeKey s) = sanitizeKey s"
proof -
  have "trim_space (sanitizeKey s) = sanitizeKey s"
    by (rule trim_space_no_space [OF plain_no_space [OF tag_plain]]) simp
  then show ?thesis
    by (simp add: sanitizeKey_def [of "sanitizeKey s"] replace_runs_id)
      (simp add: sanitizeKey_def)
qed

lemma tag_char_no_digit_clash: "tag_char c \<Longrightarrow> c \<noteq> CHR ''>''"
  by (auto simp: tag_char_def is_alnum_def is_digit_def byte_def)

text \<open>Slot tags tell the slots apart: digits end at the dash.\<close>

lemma digits_dash_inj:
  assumes "nat_str i @ CHR ''-'' # s = nat_str j @ CHR ''-'' # t"
  shows "i = j \<and> s = t"
proof -
  have dash: "CHR ''-'' \<notin> set (nat_str n)" for n
    using nat_str_digits [of n] by (auto simp: list_all_iff is_digit_def byte_def)
  have "cut ''-'' (nat_str i @ CHR ''-'' # s) = Some (nat_str i, s)"
    "cut ''-'' (nat_str j @ CHR ''-'' # t) = Some (nat_str j, t)"
    by (rule cut_char_append [OF dash])+
  with assms have "(nat_str i, s) = (nat_str j, t)" by (metis option.inject)
  then show ?thesis by simp
qed

lemma SlotInTag_inj [simp]: "SlotInTag i = SlotInTag j \<longleftrightarrow> i = j"
  using digits_dash_inj [of i "''in''" j "''in''"] by (auto simp: SlotInTag_def)

lemma SlotMemberTag_slot: "SlotMemberTag i k = SlotMemberTag j l \<Longrightarrow> i = j \<and> sanitizeKey k = sanitizeKey l"
  using digits_dash_inj [of i "''out-'' @ sanitizeKey k" j "''out-'' @ sanitizeKey l"]
  by (auto simp: SlotMemberTag_def SlotOutPrefix_def)

lemma SlotBalTag_slot: "SlotBalTag i k = SlotBalTag j l \<Longrightarrow> i = j \<and> sanitizeKey k = sanitizeKey l"
  using digits_dash_inj [of i "''bal-'' @ sanitizeKey k" j "''bal-'' @ sanitizeKey l"]
  by (auto simp: SlotBalTag_def)

text \<open>The second octet of a dialer's source address is in 64..127, so the address is in
  127.64.0.0/10 and never 127.0.0.1.\<close>

lemma word_and_le: "unat (x AND y :: 'a::len word) \<le> unat y"
  by (metis word_and_le1 word_le_nat_alt)

lemma source_octets_range:
  "\<exists>a b c. source_octets v = [127, a, b, c] \<and> 64 \<le> a \<and> a \<le> 127 \<and> b \<le> 255 \<and> c \<le> 255"
proof -
  let ?w = "drop_bit 16 v AND 63 :: 32 word"
  have w: "unat ?w \<le> 63" using word_and_le [of "drop_bit 16 v" "63 :: 32 word"] by simp
  have "unat (64 + ?w) = 64 + unat ?w"
    using w by (subst unat_add_lem [THEN iffD1]) auto
  moreover have "unat (drop_bit 8 v AND 255) \<le> 255" "unat (v AND 255) \<le> 255"
    using word_and_le [of "drop_bit 8 v" "255 :: 32 word"] word_and_le [of v "255 :: 32 word"] by simp_all
  ultimately show ?thesis using w unfolding source_octets_def by auto
qed

section \<open>Facts about ports\<close>

interpretation listen_ports: lowest_free 11800 11900 "scan_free PortStart (PortEnd + 1)"
  using scan_free_lowest [of PortStart "PortEnd + 1"] by (simp add: PortStart_def PortEnd_def)

lemma nextFreePort_pos:
  "nextFreePort used = p \<Longrightarrow> p \<noteq> 0 \<Longrightarrow> PortStart \<le> p \<and> p \<le> PortEnd \<and> p \<notin> set used \<and> (\<forall>q. PortStart \<le> q \<longrightarrow> q < p \<longrightarrow> q \<in> set used)"
  using listen_ports.nxt_Some [of "\<lambda>p. p \<in> set used" p]
  by (auto simp: nextFreePort_def PortStart_def PortEnd_def split: option.splits)

lemma nextFreePort_0: "nextFreePort used = 0 \<longleftrightarrow> (\<forall>p. PortStart \<le> p \<longrightarrow> p \<le> PortEnd \<longrightarrow> p \<in> set used)"
proof (cases "scan_free PortStart (PortEnd + 1) (\<lambda>p. p \<in> set used)")
  case None
  then show ?thesis
    using listen_ports.nxt_None [of "\<lambda>p. p \<in> set used"]
    by (simp add: nextFreePort_def PortStart_def PortEnd_def)
next
  case (Some p)
  then have "11800 \<le> p" "p < 11900" "p \<notin> set used" "nextFreePort used = p"
    using listen_ports.nxt_Some [OF Some] by (simp_all add: nextFreePort_def)
  then show ?thesis
    unfolding PortStart_def PortEnd_def by (auto intro!: exI [where x = p])
qed

lemma assign_from_length: "length (fst (assign_from i used xs)) = length xs"
  by (induction i used xs rule: assign_from.induct) (simp_all add: Let_def)

text \<open>What one run of the allocator guarantees, relative to the ports known to be in use.\<close>

definition ports_ok :: "inbound list \<Rightarrow> bool" where
  "ports_ok xs \<longleftrightarrow> distinct (filter (\<lambda>p. p \<noteq> 0) (map in_Port xs))"

lemma ports_ok_Cons:
  "ports_ok (x # xs) \<longleftrightarrow> ports_ok xs \<and> (in_Port x = 0 \<or> in_Port x \<notin> in_Port ` set xs)"
  by (auto simp: ports_ok_def)

lemma assign_from_fresh:
  assumes "\<forall>x \<in> set xs. in_Port x \<noteq> 0 \<longrightarrow> in_Port x \<in> set used"
    and "ports_ok xs" and "y \<in> set (fst (assign_from i used xs))" and "in_Port y \<noteq> 0"
  shows "in_Port y \<in> in_Port ` set xs \<or> in_Port y \<notin> set used \<and> PortStart \<le> in_Port y \<and> in_Port y \<le> PortEnd"
  using assms
proof (induction i used xs rule: assign_from.induct)
  case (2 i used x xs)
  show ?case
  proof (cases "\<not> in_Enabled x \<or> in_Port x \<noteq> 0 \<or> IsUnixInbound x")
    case True
    with 2 show ?thesis by (auto simp: ports_ok_Cons)
  next
    case False
    show ?thesis
    proof (cases "nextFreePort used = 0")
      case True
      with False 2 show ?thesis by auto
    next
      case pos: False
      then have fresh: "PortStart \<le> nextFreePort used" "nextFreePort used \<le> PortEnd" "nextFreePort used \<notin> set used"
        using nextFreePort_pos [OF refl pos] by auto
      from "2.prems"(3) False pos
      consider "y = x\<lparr>in_Port := nextFreePort used\<rparr>"
        | "y \<in> set (fst (assign_from (Suc i) (nextFreePort used # used) xs))"
        by (auto simp: Let_def)
      then show ?thesis
      proof cases
        case 1
        with fresh show ?thesis by simp
      next
        case 2
        then show ?thesis
          using "2.IH"(2) [OF False refl pos _ _ 2 "2.prems"(4)] "2.prems"(1,2)
          by (auto simp: ports_ok_Cons split: if_splits)
      qed
    qed
  qed
qed simp

lemma assign_from_ports_ok:
  assumes "\<forall>x \<in> set xs. in_Port x \<noteq> 0 \<longrightarrow> in_Port x \<in> set used" and "ports_ok xs"
  shows "ports_ok (fst (assign_from i used xs))"
  using assms
proof (induction i used xs rule: assign_from.induct)
  case (2 i used x xs)
  show ?case
  proof (cases "\<not> in_Enabled x \<or> in_Port x \<noteq> 0 \<or> IsUnixInbound x")
    case True
    have "ports_ok (fst (assign_from (Suc i) used xs))"
      using "2.IH"(1) [OF True] "2.prems" by (simp add: ports_ok_Cons)
    moreover have "in_Port x = 0 \<or> in_Port x \<notin> in_Port ` set (fst (assign_from (Suc i) used xs))"
      using assign_from_fresh [of xs used _ "Suc i"] "2.prems" by (fastforce simp: ports_ok_Cons)
    ultimately show ?thesis using True by (simp add: ports_ok_Cons)
  next
    case False
    show ?thesis
    proof (cases "nextFreePort used = 0")
      case True
      with False 2 show ?thesis by simp
    next
      case pos: False
      let ?u = "nextFreePort used # used"
      have fresh: "nextFreePort used \<notin> set used"
        using nextFreePort_pos [OF refl pos] by auto
      have u: "\<forall>x \<in> set xs. in_Port x \<noteq> 0 \<longrightarrow> in_Port x \<in> set ?u" "ports_ok xs"
        using "2.prems" by (auto simp: ports_ok_Cons)
      have "ports_ok (fst (assign_from (Suc i) ?u xs))"
        using "2.IH"(2) [OF False refl pos u] .
      moreover have "nextFreePort used \<notin> in_Port ` set (fst (assign_from (Suc i) ?u xs))"
        using assign_from_fresh [OF u, of _ "Suc i"] fresh pos "2.prems"(1) by (auto simp: image_iff) metis+
      ultimately show ?thesis using False pos by (simp add: ports_ok_Cons Let_def)
    qed
  qed
qed (simp add: ports_ok_def)

lemma assign_from_kept:
  "list_all2 (\<lambda>x y. y = x \<or> in_Enabled x \<and> in_Port x = 0 \<and> \<not> IsUnixInbound x \<and> y = x\<lparr>in_Port := in_Port y\<rparr>) xs (fst (assign_from i used xs))"
  by (induction i used xs rule: assign_from.induct)
    (simp_all add: Let_def list_all2_refl)

end
