(* ===== verification/Dialers.thy ===== *)
theory Dialers
  imports Tags
begin

text \<open>
  \<^verbatim>\<open>core/xray/dialer.go\<close>, the text form of a master's dialer: parsing, the canonical form,
  the key by which masters share a slot, renaming, and the search for a dialer that routes a master
  through itself. The search's termination is a lexicographic measure, and its verdict is exact.
\<close>

section \<open>References\<close>

definition RefXray :: string where "RefXray = ''xray''"
definition RefXraySub :: string where "RefXraySub = ''xraysub''"
definition RefProxy :: string where "RefProxy = ''proxy''"

lemmas ref_defs = RefXray_def RefXraySub_def RefProxy_def

record dialer_ref =
  r_Kind :: string
  r_Name :: string

datatype dialer_error = BadRef string | UnknownRefKind string string

definition ref_kinds :: "string list" where
  "ref_kinds = [RefXray, RefXraySub, RefProxy]"

definition parse_ref :: "string \<Rightarrow> dialer_error + dialer_ref" where
  "parse_ref part =
     (case cut '':'' part of
        None \<Rightarrow> Inl (BadRef part)
      | Some (kind, name) \<Rightarrow>
          if trim_space name = [] then Inl (BadRef part)
          else if kind \<notin> set ref_kinds then Inl (UnknownRefKind kind part)
          else Inr \<lparr>r_Kind = kind, r_Name = trim_space name\<rparr>)"

fun parse_refs :: "string list \<Rightarrow> dialer_error + dialer_ref list" where
  "parse_refs [] = Inr []"
| "parse_refs (p # ps) =
     (let part = trim_space p
      in if part = [] then parse_refs ps
         else case parse_ref part of
                Inl e \<Rightarrow> Inl e
              | Inr r \<Rightarrow> (case parse_refs ps of Inl e \<Rightarrow> Inl e | Inr rs \<Rightarrow> Inr (r # rs)))"

definition ParseDialer :: "string \<Rightarrow> dialer_error + dialer_ref list" where
  "ParseDialer s0 =
     (let s = trim_space s0 in if s = [] then Inr [] else parse_refs (split_on (CHR '','') s))"

definition ref_key :: "dialer_ref \<Rightarrow> string" where
  "ref_key r = r_Kind r @ '':'' @ r_Name r"

definition CanonicalDialer :: "string \<Rightarrow> dialer_error + string" where
  "CanonicalDialer s =
     (case ParseDialer s of Inl e \<Rightarrow> Inl e
      | Inr refs \<Rightarrow> Inr (join '','' (keep_first id [] (map (\<lambda>r. r_Kind r @ '':'' @ NormalizeName (r_Name r)) refs))))"

definition DialerGroupKey :: "dialer_ref list \<Rightarrow> string" where
  "DialerGroupKey refs = join '','' (sort (keep_first id [] (map ref_key refs)))"

text \<open>The loop of \<^verbatim>\<open>RenameDialerRef\<close>: what has been seen, then the references.\<close>

definition rename_hit :: "string \<Rightarrow> string \<Rightarrow> dialer_ref \<Rightarrow> bool" where
  "rename_hit kind oldName r \<longleftrightarrow> r_Kind r = kind \<and> NormalizeName (r_Name r) = NormalizeName oldName"

definition rename_key :: "string \<Rightarrow> string \<Rightarrow> string \<Rightarrow> dialer_ref \<Rightarrow> string" where
  "rename_key kind oldName newName r =
     ref_key (if rename_hit kind oldName r then r\<lparr>r_Name := newName\<rparr> else r)"

fun rename_refs :: "string \<Rightarrow> string \<Rightarrow> string \<Rightarrow> string list \<Rightarrow> dialer_ref list \<Rightarrow> string list \<times> bool" where
  "rename_refs kind oldName newName seen [] = ([], False)"
| "rename_refs kind oldName newName seen (r # rs) =
     (if rename_key kind oldName newName r \<in> set seen
      then (fst (rename_refs kind oldName newName seen rs), True)
      else map_prod (Cons (rename_key kind oldName newName r)) ((\<or>) (rename_hit kind oldName r))
             (rename_refs kind oldName newName (rename_key kind oldName newName r # seen) rs))"

definition RenameDialerRef :: "string \<Rightarrow> string \<Rightarrow> string \<Rightarrow> string \<Rightarrow> string \<times> bool" where
  "RenameDialerRef dialer kind oldName newName =
     (case ParseDialer dialer of Inl _ \<Rightarrow> (dialer, False)
      | Inr refs \<Rightarrow> apfst (join '','') (rename_refs kind oldName newName [] refs))"

section \<open>The cycle search\<close>

datatype cycle_error = CycleThrough string | RoutesThroughItself string | BadDialer dialer_error

text \<open>\<open>rows\<close> is the callback's table: the stored dialer of each entry by normalized name. The
  proposed row shadows it.\<close>

definition cycle_lookup :: "string \<Rightarrow> string \<Rightarrow> (string \<times> string) list \<Rightarrow> string \<Rightarrow> string option" where
  "cycle_lookup name dialer rows entry = (if NormalizeName entry = name then Some dialer else map_of rows entry)"

definition cycle_room :: "string \<Rightarrow> (string \<times> string) list \<Rightarrow> string set \<Rightarrow> nat" where
  "cycle_room name rows visiting = card (insert name (fst ` set rows) - visiting)"

lemma cycle_room_less:
  assumes "entry \<notin> visiting" and "cycle_lookup name dialer rows entry = Some d" and "NormalizeName entry = entry"
  shows "cycle_room name rows (insert entry visiting) < cycle_room name rows visiting"
proof -
  have "entry \<in> insert name (fst ` set rows)"
    using assms(2,3) by (auto simp: cycle_lookup_def split: if_splits dest!: map_of_SomeD intro: rev_image_eqI)
  with assms(1) have "insert name (fst ` set rows) - insert entry visiting \<subset> insert name (fst ` set rows) - visiting"
    by blast
  then show ?thesis unfolding cycle_room_def by (rule psubset_card_mono [rotated]) simp
qed

function (sequential)
  walk :: "string \<Rightarrow> string \<Rightarrow> (string \<times> string) list \<Rightarrow> string set \<Rightarrow> string \<Rightarrow> cycle_error option" and
  walk_refs :: "string \<Rightarrow> string \<Rightarrow> (string \<times> string) list \<Rightarrow> string set \<Rightarrow> dialer_ref list \<Rightarrow> cycle_error option" where
  "walk name dialer rows visiting entry0 =
     (let entry = NormalizeName entry0
      in if entry \<in> visiting then Some (CycleThrough entry)
         else case cycle_lookup name dialer rows entry of
                None \<Rightarrow> None
              | Some d \<Rightarrow>
                  (case ParseDialer d of
                     Inl e \<Rightarrow> Some (BadDialer e)
                   | Inr refs \<Rightarrow> walk_refs name dialer rows (insert entry visiting) refs))"
| "walk_refs name dialer rows visiting [] = None"
| "walk_refs name dialer rows visiting (r # rs) =
     (if r_Kind r \<noteq> RefXray then walk_refs name dialer rows visiting rs
      else if NormalizeName (r_Name r) = name then Some (RoutesThroughItself name)
      else case walk name dialer rows visiting (r_Name r) of
             Some e \<Rightarrow> Some e
           | None \<Rightarrow> walk_refs name dialer rows visiting rs)"
  by pat_completeness auto

termination
proof (relation "inv_image (less_than <*lex*> less_than)
    (case_sum (\<lambda>(name, dialer, rows, visiting, entry). (cycle_room name rows visiting, 0 :: nat))
              (\<lambda>(name, dialer, rows, visiting, rs). (cycle_room name rows visiting, Suc (length rs))))")
  show "wf (inv_image (less_than <*lex*> less_than)
    (case_sum (\<lambda>(name, dialer :: string, rows :: (string \<times> string) list, visiting, entry :: string). (cycle_room name rows visiting, 0 :: nat))
              (\<lambda>(name, dialer :: string, rows, visiting, rs :: dialer_ref list). (cycle_room name rows visiting, Suc (length rs)))))"
    by blast
qed (auto intro: cycle_room_less)

definition DetectDialerCycle :: "string \<Rightarrow> string \<Rightarrow> (string \<times> string) list \<Rightarrow> cycle_error option" where
  "DetectDialerCycle name dialer rows = walk (NormalizeName name) dialer rows {} (NormalizeName name)"

text \<open>The specification: the graph of xray references, and what may not be reachable in it.\<close>

definition dial_edge :: "string \<Rightarrow> string \<Rightarrow> (string \<times> string) list \<Rightarrow> (string \<times> string) set" where
  "dial_edge name dialer rows =
     {(a, b). \<exists>d refs r. cycle_lookup name dialer rows a = Some d \<and> ParseDialer d = Inr refs \<and>
        r \<in> set refs \<and> r_Kind r = RefXray \<and> b = NormalizeName (r_Name r)}"

definition bad_dialer :: "string \<Rightarrow> string \<Rightarrow> (string \<times> string) list \<Rightarrow> string \<Rightarrow> bool" where
  "bad_dialer name dialer rows a \<longleftrightarrow> (\<exists>d e. cycle_lookup name dialer rows a = Some d \<and> ParseDialer d = Inl e)"

lemma walk_None:
  "walk name dialer rows V e0 = None \<Longrightarrow>
     (\<forall>x. (NormalizeName e0, x) \<in> (dial_edge name dialer rows)\<^sup>* \<longrightarrow>
        x \<notin> V \<and> \<not> bad_dialer name dialer rows x \<and> (x, x) \<notin> (dial_edge name dialer rows)\<^sup>+)"
  "walk_refs name dialer rows V rs = None \<Longrightarrow>
     (\<forall>r \<in> set rs. r_Kind r = RefXray \<longrightarrow>
       (\<forall>x. (NormalizeName (r_Name r), x) \<in> (dial_edge name dialer rows)\<^sup>* \<longrightarrow>
          x \<notin> V \<and> \<not> bad_dialer name dialer rows x \<and> (x, x) \<notin> (dial_edge name dialer rows)\<^sup>+))"
proof (induction name dialer rows V e0 and name dialer rows V rs rule: walk_walk_refs.induct)
  case (1 name dialer rows V e0)
  let ?e = "NormalizeName e0" and ?E = "dial_edge name dialer rows"
  have notin: "?e \<notin> V" using "1.prems" by (auto simp: Let_def split: if_splits)
  show ?case
  proof (cases "cycle_lookup name dialer rows ?e")
    case None
    then have "(?e, y) \<notin> ?E" for y by (simp add: dial_edge_def)
    then have "(?e, x) \<in> ?E\<^sup>* \<Longrightarrow> x = ?e" "(?e, ?e) \<notin> ?E\<^sup>+" for x
      by (auto elim: converse_rtranclE dest: tranclD)
    moreover have "\<not> bad_dialer name dialer rows ?e" using None by (simp add: bad_dialer_def)
    ultimately show ?thesis using notin by metis
  next
    case (Some d)
    with "1.prems" notin obtain refs where refs: "ParseDialer d = Inr refs"
      "walk_refs name dialer rows (insert ?e V) refs = None"
      by (auto simp: Let_def split: sum.splits)
    have sub: "x \<notin> insert ?e V \<and> \<not> bad_dialer name dialer rows x \<and> (x, x) \<notin> ?E\<^sup>+"
      if "(?e, y) \<in> ?E" "(y, x) \<in> ?E\<^sup>*" for x y
      using "1.IH" [OF refl notin Some refs(1) refs(2)] that Some refs(1)
      by (auto simp: dial_edge_def)
    have "x \<notin> V \<and> \<not> bad_dialer name dialer rows x \<and> (x, x) \<notin> ?E\<^sup>+" if "(?e, x) \<in> ?E\<^sup>*" for x
    proof (cases "x = ?e")
      case True
      have "(?e, ?e) \<notin> ?E\<^sup>+" using sub tranclD [of ?e ?e ?E] by blast
      with True notin Some refs(1) show ?thesis by (auto simp: bad_dialer_def)
    next
      case False
      with that obtain y where "(?e, y) \<in> ?E" "(y, x) \<in> ?E\<^sup>*" by (auto elim: converse_rtranclE)
      with sub show ?thesis by blast
    qed
    then show ?thesis by blast
  qed
next
  case (2 name dialer rows V)
  then show ?case by simp
next
  case (3 name dialer rows V r rs)
  show ?case
  proof (cases "r_Kind r = RefXray")
    case False
    with "3.prems" "3.IH"(1) [OF False] show ?thesis by simp
  next
    case True
    with "3.prems" have other: "NormalizeName (r_Name r) \<noteq> name"
      and w: "walk name dialer rows V (r_Name r) = None" and rest: "walk_refs name dialer rows V rs = None"
      by (auto split: if_splits option.splits)
    have nn: "\<not> r_Kind r \<noteq> RefXray" using True by simp
    show ?thesis using "3.IH"(2) [OF nn other w] "3.IH"(3) [OF nn other w rest] by simp
  qed
qed

lemma walk_Some:
  "walk name dialer rows V e0 = Some err \<Longrightarrow>
     (\<forall>v \<in> V. (v, NormalizeName e0) \<in> (dial_edge name dialer rows)\<^sup>+) \<Longrightarrow>
     name \<in> insert (NormalizeName e0) V \<Longrightarrow>
     (\<exists>x. (NormalizeName e0, x) \<in> (dial_edge name dialer rows)\<^sup>* \<and>
        (bad_dialer name dialer rows x \<or> (x, x) \<in> (dial_edge name dialer rows)\<^sup>+))"
  "walk_refs name dialer rows V rs = Some err \<Longrightarrow>
     (\<forall>v \<in> V. \<forall>r \<in> set rs. r_Kind r = RefXray \<longrightarrow> (v, NormalizeName (r_Name r)) \<in> (dial_edge name dialer rows)\<^sup>+) \<Longrightarrow>
     name \<in> V \<Longrightarrow>
     (\<exists>r x. r \<in> set rs \<and> r_Kind r = RefXray \<and> (NormalizeName (r_Name r), x) \<in> (dial_edge name dialer rows)\<^sup>* \<and>
        (bad_dialer name dialer rows x \<or> (x, x) \<in> (dial_edge name dialer rows)\<^sup>+))"
proof (induction name dialer rows V e0 and name dialer rows V rs rule: walk_walk_refs.induct)
  case (1 name dialer rows V e0)
  let ?e = "NormalizeName e0" and ?E = "dial_edge name dialer rows"
  show ?case
  proof (cases "?e \<in> V")
    case True
    with "1.prems"(2) show ?thesis by blast
  next
    case notin: False
    with "1.prems"(1) obtain d where d: "cycle_lookup name dialer rows ?e = Some d"
      by (auto simp: Let_def split: option.splits)
    show ?thesis
    proof (cases "ParseDialer d")
      case (Inl e)
      with d show ?thesis by (auto simp: bad_dialer_def)
    next
      case (Inr refs)
      have edge: "r \<in> set refs \<Longrightarrow> r_Kind r = RefXray \<Longrightarrow> (?e, NormalizeName (r_Name r)) \<in> ?E" for r
        using d Inr by (auto simp: dial_edge_def)
      have "walk_refs name dialer rows (insert ?e V) refs = Some err"
        using "1.prems"(1) notin d Inr by (simp add: Let_def)
      moreover have "\<forall>v \<in> insert ?e V. \<forall>r \<in> set refs. r_Kind r = RefXray \<longrightarrow> (v, NormalizeName (r_Name r)) \<in> ?E\<^sup>+"
        using edge "1.prems"(2) by (auto intro: trancl_into_trancl)
      ultimately obtain r x where rx: "r \<in> set refs" "r_Kind r = RefXray" "(NormalizeName (r_Name r), x) \<in> ?E\<^sup>*"
        "bad_dialer name dialer rows x \<or> (x, x) \<in> ?E\<^sup>+"
        using "1.IH" [OF refl notin d Inr] "1.prems"(3) by blast
      have "(?e, x) \<in> ?E\<^sup>*" using converse_rtrancl_into_rtrancl [OF edge [OF rx(1,2)] rx(3)] .
      with rx(4) show ?thesis by blast
    qed
  qed
next
  case (2 name dialer rows V)
  then show ?case by simp
next
  case (3 name dialer rows V r rs)
  show ?case
  proof (cases "r_Kind r = RefXray")
    case False
    with 3 show ?thesis by (auto split: if_splits)
  next
    case kind: True
    show ?thesis
    proof (cases "NormalizeName (r_Name r) = name")
      case True
      have "(name, NormalizeName (r_Name r)) \<in> (dial_edge name dialer rows)\<^sup>+"
        using "3.prems"(2,3) kind by simp
      with True kind show ?thesis by (intro exI [of _ r] exI [of _ name]) auto
    next
      case noself: False
      show ?thesis
      proof (cases "walk name dialer rows V (r_Name r)")
        case None
        have "walk_refs name dialer rows V rs = Some err"
          using "3.prems"(1) kind noself None by simp
        moreover have "\<not> r_Kind r \<noteq> RefXray" using kind by simp
        ultimately obtain q x where "q \<in> set rs" "r_Kind q = RefXray"
          "(NormalizeName (r_Name q), x) \<in> (dial_edge name dialer rows)\<^sup>*"
          "bad_dialer name dialer rows x \<or> (x, x) \<in> (dial_edge name dialer rows)\<^sup>+"
          using "3.IH"(3) [OF _ noself None] "3.prems"(2,3) by (meson list.set_intros(2))
        then show ?thesis by (meson list.set_intros(2))
      next
        case (Some e)
        then have "walk name dialer rows V (r_Name r) = Some err" using "3.prems"(1) kind noself by simp
        moreover have "\<not> r_Kind r \<noteq> RefXray" using kind by simp
        ultimately obtain x where "(NormalizeName (r_Name r), x) \<in> (dial_edge name dialer rows)\<^sup>*"
          "bad_dialer name dialer rows x \<or> (x, x) \<in> (dial_edge name dialer rows)\<^sup>+"
          using "3.IH"(2) [OF _ noself] "3.prems"(2,3) kind by (meson insertI2 list.set_intros(1))
        with kind show ?thesis by (meson list.set_intros(1))
      qed
    qed
  qed
qed

text \<open>C20. The search for cycles accepts a dialer exactly when no entry reached from it over stored dialers has a
  malformed dialer or reaches itself.\<close>

theorem DetectDialerCycle_iff:
  "DetectDialerCycle name dialer rows = None \<longleftrightarrow>
     (\<forall>x. (NormalizeName name, x) \<in> (dial_edge (NormalizeName name) dialer rows)\<^sup>* \<longrightarrow>
        \<not> bad_dialer (NormalizeName name) dialer rows x \<and>
        (x, x) \<notin> (dial_edge (NormalizeName name) dialer rows)\<^sup>+)" (is "?L \<longleftrightarrow> ?R")
proof
  assume ?L
  then show ?R using walk_None(1) [of "NormalizeName name" dialer rows "{}" "NormalizeName name"]
    by (auto simp: DetectDialerCycle_def)
next
  assume R: ?R
  show ?L
  proof (rule ccontr)
    assume "\<not> ?L"
    then obtain e where "walk (NormalizeName name) dialer rows {} (NormalizeName name) = Some e"
      by (auto simp: DetectDialerCycle_def)
    from walk_Some(1) [OF this] R show False by auto
  qed
qed

lemma DetectDialerCycle_iff_witness:
  "(''m'', ''m'') \<notin> (dial_edge ''m'' ''xray:a'' [(''a'', ''xraysub:s'')])\<^sup>+"
proof -
  have n: "NormalizeName ''m'' = ''m''" by code_simp
  have "DetectDialerCycle ''m'' ''xray:a'' [(''a'', ''xraysub:s'')] = None" by code_simp
  then show ?thesis using DetectDialerCycle_iff [of "''m''" "''xray:a''" "[(''a'', ''xraysub:s'')]"] by (simp add: n)
qed

section \<open>What parsing yields\<close>

definition ref_ok :: "dialer_ref \<Rightarrow> bool" where
  "ref_ok r \<longleftrightarrow> r_Kind r \<in> set ref_kinds \<and> r_Name r \<noteq> [] \<and> trimmed (r_Name r) \<and> CHR '','' \<notin> set (r_Name r)"

lemma parse_ref_ok:
  "parse_ref p = Inr r \<Longrightarrow> CHR '','' \<notin> set p \<Longrightarrow> ref_ok r"
  using set_trim_space by (fastforce simp: parse_ref_def ref_ok_def cut_char_Some split: option.splits prod.splits if_splits)

lemma parse_refs_ok:
  "parse_refs ps = Inr rs \<Longrightarrow> (\<And>p. p \<in> set ps \<Longrightarrow> CHR '','' \<notin> set p) \<Longrightarrow> r \<in> set rs \<Longrightarrow> ref_ok r"
proof (induction ps arbitrary: rs)
  case (Cons p ps)
  have "CHR '','' \<notin> set (trim_space p)" using set_trim_space [of p] Cons.prems(2) [of p] by auto
  with Cons show ?case by (auto simp: Let_def intro: parse_ref_ok split: if_splits sum.splits)
qed simp

lemma ParseDialer_ok: "ParseDialer s = Inr rs \<Longrightarrow> r \<in> set rs \<Longrightarrow> ref_ok r"
  using set_split_on parse_refs_ok by (fastforce simp: ParseDialer_def Let_def split: if_splits)

lemma kind_facts:
  assumes "k \<in> set ref_kinds"
  shows "k \<noteq> []" "trimmed k" "CHR '':'' \<notin> set k" "CHR '','' \<notin> set k"
proof -
  have "plain k" using assms by (auto simp: ref_kinds_def ref_defs plain_def ascii_space_def byte_def)
  then show "trimmed k" by (rule trimmed_plain)
qed (use assms in \<open>auto simp: ref_kinds_def ref_defs\<close>)

lemma key_facts:
  assumes "k \<in> set ref_kinds" and "n \<noteq> []" and "trimmed n"
  shows "trimmed (k @ CHR '':'' # n)" and "parse_ref (k @ CHR '':'' # n) = Inr \<lparr>r_Kind = k, r_Name = n\<rparr>"
proof -
  show "trimmed (k @ CHR '':'' # n)"
    using assms kind_facts [OF assms(1)] by (intro trimmed_append) (auto simp: byte_def)
  show "parse_ref (k @ CHR '':'' # n) = Inr \<lparr>r_Kind = k, r_Name = n\<rparr>"
    using assms kind_facts(3) [OF assms(1)] by (auto simp: parse_ref_def trimmed_iff)
qed

lemma parse_refs_keys:
  "(\<And>r. r \<in> set rs \<Longrightarrow> ref_ok r) \<Longrightarrow> parse_refs (map ref_key rs) = Inr rs"
proof (induction rs)
  case (Cons r rs)
  have r: "ref_ok r" using Cons.prems by simp
  have "trim_space (ref_key r) = ref_key r" "parse_ref (ref_key r) = Inr r"
    using key_facts [of "r_Kind r" "r_Name r"] r by (auto simp: ref_ok_def ref_key_def trimmed_iff)
  moreover have "ref_key r \<noteq> []" by (simp add: ref_key_def)
  ultimately show ?case using Cons by simp
qed simp

text \<open>Printing references and parsing them back is the identity.\<close>

lemma ParseDialer_join:
  assumes "\<And>r. r \<in> set rs \<Longrightarrow> ref_ok r"
  shows "ParseDialer (join '','' (map ref_key rs)) = Inr rs"
proof (cases "rs = []")
  case True
  then show ?thesis by (simp add: ParseDialer_def trim_space_def)
next
  case False
  have tr: "trimmed (join '','' (map ref_key rs))"
    using assms key_facts(1) by (intro trimmed_join) (auto simp: ref_key_def ref_ok_def byte_def)
  have "split_on (CHR '','') (join '','' (map ref_key rs)) = map ref_key rs"
    using False assms kind_facts(4) by (intro split_on_join) (auto simp: ref_key_def ref_ok_def)
  moreover have "join '','' (map ref_key rs) \<noteq> []"
    using False by (cases rs; cases "tl rs") (auto simp: ref_key_def)
  ultimately show ?thesis
    using tr parse_refs_keys [OF assms] by (simp add: ParseDialer_def trimmed_iff)
qed

lemma keep_first_map: "keep_first id (map f seen) (map f xs) = map f (keep_first f (map f seen) xs)"
  by (induction xs arbitrary: seen) (auto, metis list.simps(9))

definition norm_ref :: "dialer_ref \<Rightarrow> dialer_ref" where
  "norm_ref r = r\<lparr>r_Name := NormalizeName (r_Name r)\<rparr>"

lemma norm_ref_ok: "ref_ok r \<Longrightarrow> ref_ok (norm_ref r)"
  using set_NormalizeName [of "r_Name r"] NormalizeName_ne [of "r_Name r"] trimmed_iff [of "r_Name r"]
  by (auto simp: ref_ok_def norm_ref_def)

lemma CanonicalDialer_refs:
  "ParseDialer s = Inr refs \<Longrightarrow>
     CanonicalDialer s = Inr (join '','' (map ref_key (keep_first ref_key [] (map norm_ref refs))))"
  using keep_first_map [of ref_key "[]" "map norm_ref refs"]
  by (simp add: CanonicalDialer_def norm_ref_def ref_key_def comp_def)

lemma CanonicalDialer_parse:
  assumes "ParseDialer s = Inr refs" and "CanonicalDialer s = Inr c"
  shows "ParseDialer c = Inr (keep_first ref_key [] (map norm_ref refs))"
proof -
  have "ref_ok r" if "r \<in> set (keep_first ref_key [] (map norm_ref refs))" for r
    using that keep_first_subset [of ref_key "[]" "map norm_ref refs"] ParseDialer_ok [OF assms(1)] norm_ref_ok
    by fastforce
  then have "ParseDialer (join '','' (map ref_key (keep_first ref_key [] (map norm_ref refs)))) =
      Inr (keep_first ref_key [] (map norm_ref refs))"
    by (rule ParseDialer_join)
  then show ?thesis
    using assms CanonicalDialer_refs [OF assms(1)] by simp
qed

lemma norm_ref_idem [simp]: "norm_ref (norm_ref r) = norm_ref r"
  by (simp add: norm_ref_def)

theorem CanonicalDialer_idem: "CanonicalDialer s = Inr c \<Longrightarrow> CanonicalDialer c = Inr c"
proof -
  assume c: "CanonicalDialer s = Inr c"
  then obtain refs where p: "ParseDialer s = Inr refs"
    by (auto simp: CanonicalDialer_def split: sum.splits)
  let ?k = "keep_first ref_key [] (map norm_ref refs)"
  have "map norm_ref ?k = ?k"
    using keep_first_subset [of ref_key "[]" "map norm_ref refs"] by (intro map_idI) auto
  then show ?thesis
    using CanonicalDialer_refs [OF CanonicalDialer_parse [OF p c]] CanonicalDialer_refs [OF p] c by simp
qed

text \<open>The group key depends on the set of references only.\<close>

lemma DialerGroupKey_set:
  assumes "ref_key ` set rs = ref_key ` set rs'"
  shows "DialerGroupKey rs = DialerGroupKey rs'"
proof -
  have "set (keep_first id [] (map ref_key rs)) = set (keep_first id [] (map ref_key rs'))"
    using keep_first_set [of id "[]" "map ref_key rs"] keep_first_set [of id "[]" "map ref_key rs'"] assms by simp
  moreover have "distinct (keep_first id [] (map ref_key xs))" for xs
    using keep_first_distinct [of id "[]" "map ref_key xs"] by simp
  ultimately have "sort (keep_first id [] (map ref_key rs)) = sort (keep_first id [] (map ref_key rs'))"
    by (metis distinct_sort set_sort sorted_distinct_set_unique sorted_sort)
  then show ?thesis by (simp add: DialerGroupKey_def)
qed

section \<open>Renaming\<close>

lemma rename_refs_set:
  "set (fst (rename_refs kind old new seen rs)) = rename_key kind old new ` set rs - set seen"
  by (induction kind old new seen rs rule: rename_refs.induct) auto

lemma rename_refs_distinct: "distinct (fst (rename_refs kind old new seen rs))"
  by (induction kind old new seen rs rule: rename_refs.induct) (auto simp: rename_refs_set)

text \<open>Without a hit or a duplicate nothing changes.\<close>

lemma rename_refs_unchanged:
  "\<not> snd (rename_refs kind old new seen rs) \<Longrightarrow> fst (rename_refs kind old new seen rs) = map ref_key rs"
  by (induction kind old new seen rs rule: rename_refs.induct) (auto simp: rename_key_def split: if_splits)

end
