(* ===== verification/Json_Parse.thy ===== *)
theory Json_Parse
  imports Json_Values
begin

text \<open>
  \<^verbatim>\<open>json.Unmarshal\<close> on a text: where the program decodes JSON that is itself a JSON string
  (an xhttp \<^verbatim>\<open>extra\<close>, a vmess share link). The text is taken to be valid UTF-8 with
  numbers in the range of a 64-bit float; a later duplicate of a key wins. The recursion is on fuel;
  every nesting level consumes a character, so the length of the text is enough.
\<close>

definition json_ws :: "char \<Rightarrow> bool" where
  "json_ws c \<longleftrightarrow> byte c \<in> {32, 9, 10, 13}"

definition skip_ws :: "string \<Rightarrow> string" where
  "skip_ws s = dropWhile json_ws s"

definition hex_val :: "char \<Rightarrow> nat option" where
  "hex_val c =
     (if is_digit c then Some (byte c - 48)
      else if 97 \<le> byte c \<and> byte c \<le> 102 then Some (byte c - 87)
      else if 65 \<le> byte c \<and> byte c \<le> 70 then Some (byte c - 55) else None)"

definition hex4 :: "string \<Rightarrow> nat option" where
  "hex4 s = (if length s < 4 then None
     else case map hex_val (take 4 s) of
            [Some a, Some b, Some c, Some d] \<Rightarrow> Some (((a * 16 + b) * 16 + c) * 16 + d)
          | _ \<Rightarrow> None)"

definition utf8_enc :: "nat \<Rightarrow> string" where
  "utf8_enc n =
     (if n < 0x80 then [char_of n]
      else if n < 0x800 then [char_of (0xC0 + n div 64), char_of (0x80 + n mod 64)]
      else if n < 0x10000 then
        [char_of (0xE0 + n div 4096), char_of (0x80 + n div 64 mod 64), char_of (0x80 + n mod 64)]
      else [char_of (0xF0 + n div 262144), char_of (0x80 + n div 4096 mod 64),
            char_of (0x80 + n div 64 mod 64), char_of (0x80 + n mod 64)])"

definition quote :: char where "quote = CHR 0x22"
definition backslash :: char where "backslash = CHR 0x5C"

text \<open>One escape after its backslash: the bytes it stands for and the rest. A surrogate that does
  not start a pair stands for U+FFFD.\<close>

definition unescape :: "string \<Rightarrow> (string \<times> string) option" where
  "unescape s =
     (case s of [] \<Rightarrow> None
      | e # r \<Rightarrow>
          if e = CHR ''u'' then
            (case hex4 r of None \<Rightarrow> None
             | Some h \<Rightarrow>
                 let r' = drop 4 r in
                 if h < 0xD800 \<or> 0xDFFF < h then Some (utf8_enc h, r')
                 else case (if take 2 r' = [backslash, CHR ''u''] then hex4 (drop 2 r') else None) of
                        Some l \<Rightarrow>
                          if h < 0xDC00 \<and> 0xDC00 \<le> l \<and> l \<le> 0xDFFF
                          then Some (utf8_enc (0x10000 + (h - 0xD800) * 1024 + (l - 0xDC00)), drop 6 r')
                          else Some (utf8_enc 0xFFFD, r')
                      | None \<Rightarrow> Some (utf8_enc 0xFFFD, r'))
          else if e \<in> {quote, backslash, CHR ''/''} then Some ([e], r)
          else if e = CHR ''b'' then Some ([char_of (8 :: nat)], r)
          else if e = CHR ''f'' then Some ([char_of (12 :: nat)], r)
          else if e = CHR ''n'' then Some ([char_of (10 :: nat)], r)
          else if e = CHR ''r'' then Some ([char_of (13 :: nat)], r)
          else if e = CHR ''t'' then Some ([char_of (9 :: nat)], r)
          else None)"

text \<open>A string after its opening quote.\<close>

fun parse_chars :: "nat \<Rightarrow> string \<Rightarrow> (string \<times> string) option" where
  "parse_chars 0 s = None"
| "parse_chars (Suc n) [] = None"
| "parse_chars (Suc n) (c # s) =
     (if c = quote then Some ([], s)
      else if byte c < 32 then None
      else if c = backslash then
        (case unescape s of None \<Rightarrow> None
         | Some (u, r) \<Rightarrow> map_option (\<lambda>(t, r'). (u @ t, r')) (parse_chars n r))
      else map_option (\<lambda>(t, r'). (c # t, r')) (parse_chars n s))"

text \<open>A number: sign, integer part without leading zeros, fraction, exponent.\<close>

fun norm_dec :: "nat \<Rightarrow> int \<Rightarrow> int \<Rightarrow> json" where
  "norm_dec 0 m e = JDec m e"
| "norm_dec (Suc n) m e =
     (if m = 0 then JNum 0
      else if 0 \<le> e then JNum (m * 10 ^ nat e)
      else if m mod 10 = 0 then norm_dec n (m div 10) (e + 1)
      else JDec m e)"

definition parse_num :: "string \<Rightarrow> (json \<times> string) option" where
  "parse_num s =
     (let neg = (take 1 s = ''-''); s1 = (if neg then drop 1 s else s);
          ip = takeWhile is_digit s1; s2 = dropWhile is_digit s1;
          hasf = (take 1 s2 = ''.''); fp = (if hasf then takeWhile is_digit (drop 1 s2) else []);
          s3 = (if hasf then dropWhile is_digit (drop 1 s2) else s2);
          hase = (take 1 s3 = ''e'' \<or> take 1 s3 = ''E'');
          s4 = (if hase then drop 1 s3 else s3);
          eneg = (hase \<and> take 1 s4 = ''-'');
          s5 = (if hase \<and> take 1 s4 \<in> {''-'', ''+''} then drop 1 s4 else s4);
          ep = (if hase then takeWhile is_digit s5 else []);
          s6 = (if hase then dropWhile is_digit s5 else s5)
      in if ip = [] \<or> (take 1 ip = ''0'' \<and> length ip > 1) \<or> (hasf \<and> fp = []) \<or> (hase \<and> ep = []) then None
         else let m = int (digits_val (ip @ fp));
                  e = (if eneg then - int (digits_val ep) else int (digits_val ep)) - int (length fp)
              in Some (norm_dec (Suc (length (ip @ fp))) (if neg then - m else m) e, s6))"

fun parse_val :: "nat \<Rightarrow> string \<Rightarrow> (json \<times> string) option"
and parse_elems :: "nat \<Rightarrow> string \<Rightarrow> (json list \<times> string) option"
and parse_fields :: "nat \<Rightarrow> object \<Rightarrow> string \<Rightarrow> (object \<times> string) option" where
  "parse_val 0 s = None"
| "parse_val (Suc n) s0 =
     (let s = skip_ws s0 in
      if prefix ''null'' s then Some (JNull, drop 4 s)
      else if prefix ''true'' s then Some (JBool True, drop 4 s)
      else if prefix ''false'' s then Some (JBool False, drop 5 s)
      else if take 1 s = [quote] then map_option (\<lambda>(t, r). (JStr t, r)) (parse_chars (length s) (drop 1 s))
      else if take 1 s = ''['' then
        (let r = skip_ws (drop 1 s)
         in if take 1 r = '']'' then Some (JArr [], drop 1 r)
            else map_option (\<lambda>(xs, r'). (JArr xs, r')) (parse_elems n r))
      else if take 1 s = ''{'' then
        (let r = skip_ws (drop 1 s)
         in if take 1 r = ''}'' then Some (JObj [], drop 1 r)
            else map_option (\<lambda>(d, r'). (JObj d, r')) (parse_fields n [] r))
      else parse_num s)"
| "parse_elems 0 s = None"
| "parse_elems (Suc n) s =
     (case parse_val n s of None \<Rightarrow> None
      | Some (v, r0) \<Rightarrow>
          let r = skip_ws r0
          in if take 1 r = '']'' then Some ([v], drop 1 r)
             else if take 1 r = '','' then map_option (\<lambda>(vs, r'). (v # vs, r')) (parse_elems n (drop 1 r))
             else None)"
| "parse_fields 0 d s = None"
| "parse_fields (Suc n) d s0 =
     (let s = skip_ws s0 in
      if take 1 s \<noteq> [quote] then None
      else case parse_chars (length s) (drop 1 s) of None \<Rightarrow> None
           | Some (k, r0) \<Rightarrow>
               let r = skip_ws r0
               in if take 1 r \<noteq> '':'' then None
                  else case parse_val n (drop 1 r) of None \<Rightarrow> None
                       | Some (v, r1) \<Rightarrow>
                           let r2 = skip_ws r1
                           in if take 1 r2 = ''}'' then Some (dput k v d, drop 1 r2)
                              else if take 1 r2 = '','' then parse_fields n (dput k v d) (drop 1 r2)
                              else None)"

definition parse_json :: "string \<Rightarrow> raw_json" where
  "parse_json s =
     (case parse_val (2 * length s + 2) s of
        None \<Rightarrow> None
      | Some (v, r) \<Rightarrow> if skip_ws r = [] then Some v else None)"

end
