(* ===== verification/Outbounds.thy ===== *)
theory Outbounds
  imports Dialers Json_Parse
begin

text \<open>
  Outbound objects: \<^verbatim>\<open>core/xray/mux.go\<close>, the healing and wiring functions of
  \<^verbatim>\<open>config.go\<close>, \<^verbatim>\<open>dialer.go\<close> and \<^verbatim>\<open>probe.go\<close>. A function that
  mutates the map it is given is a function to the new object.
\<close>

section \<open>Library functions used on outbounds\<close>

text \<open>\<^verbatim>\<open>strings.EqualFold\<close> against an ASCII keyword: the two non-ASCII runes that fold to
  ASCII letters are U+017F (to s) and U+212A (to k).\<close>

fun fold_ascii :: "string \<Rightarrow> string" where
  "fold_ascii [] = []"
| "fold_ascii (c # s) =
     (if byte c = 0xC5 \<and> map byte (take 1 s) = [0xBF] then CHR ''s'' # fold_ascii (drop 1 s)
      else if byte c = 0xE2 \<and> map byte (take 2 s) = [0x84, 0xAA] then CHR ''k'' # fold_ascii (drop 2 s)
      else lower_char c # fold_ascii s)"

definition equal_fold :: "string \<Rightarrow> string \<Rightarrow> bool" where
  "equal_fold s keyword \<longleftrightarrow> fold_ascii s = to_lower keyword"

text \<open>\<^verbatim>\<open>fmt.Sscanf(s, "%d", &p)\<close> into a zero \<open>p\<close>.\<close>

definition scan_int :: "string \<Rightarrow> int" where
  "scan_int s0 =
     (let s = dropWhile (\<lambda>c. byte c \<in> {32, 9, 11, 12}) s0;
          sgn = take 1 s;
          t = (if sgn \<in> {''-'', ''+''} then drop 1 s else s);
          ds = takeWhile is_digit t
      in case parse_int ((if sgn = ''-'' then sgn else []) @ ds) of Some n \<Rightarrow> if ds = [] then 0 else n | None \<Rightarrow> 0)"

text \<open>\<^verbatim>\<open>net.SplitHostPort\<close>, \<open>None\<close> for an error.\<close>

definition last_colon :: "string \<Rightarrow> (string \<times> string) option" where
  "last_colon s = map_option (\<lambda>(a, b). (rev b, rev a)) (cut '':'' (rev s))"

definition split_host_port :: "string \<Rightarrow> (string \<times> string) option" where
  "split_host_port s =
     (case last_colon s of
        None \<Rightarrow> None
      | Some (before, port) \<Rightarrow>
          if take 1 s = ''['' then
            (case cut '']'' s of
               None \<Rightarrow> None
             | Some (inside, after) \<Rightarrow>
                 if after = [] \<or> inside @ '']'' \<noteq> before then None
                 else if CHR ''['' \<in> set (drop 1 s) \<or> CHR '']'' \<in> set after then None
                 else Some (drop 1 inside, port))
          else if CHR '':'' \<in> set before \<or> CHR ''['' \<in> set s \<or> CHR '']'' \<in> set s then None
          else Some (before, port))"

section \<open>Multiplexing\<close>

definition muxSettings :: object where
  "muxSettings = dict_of
     [(''enabled'', JBool True), (''concurrency'', JNum 8), (''xudpConcurrency'', JNum 16),
      (''xudpProxyUDP443'', JStr ''skip'')]"

definition obj_or_empty :: "json \<Rightarrow> object" where
  "obj_or_empty v = (case as_obj v of None \<Rightarrow> [] | Some d \<Rightarrow> d)"

definition hasXTLSFlow :: "object \<Rightarrow> bool" where
  "hasXTLSFlow ob =
     (let st = obj_or_nil ob ''settings''
      in (\<exists>v \<in> set (arr_at st ''vnext''). \<exists>u \<in> set (arr_at (obj_or_empty v) ''users'').
            trim_space (str_at (obj_or_empty u) ''flow'') \<noteq> []) \<or>
         trim_space (str_at st ''flow'') \<noteq> [])"

datatype mux_note = OwnMux | XtlsFlow | MuxProtocol | AlreadyMultiplexes string | OutboundUnparsed

definition mux_transports :: "string list" where
  "mux_transports = [''grpc'', ''xhttp'', ''splithttp'', ''h2'', ''http'', ''quic'']"

definition muxSupport :: "object \<Rightarrow> mux_note option" where
  "muxSupport ob =
     (if map_of ob ''mux'' \<noteq> None then Some OwnMux
      else let proto = to_lower (str_at ob ''protocol'')
           in if proto = ''vless'' \<and> hasXTLSFlow ob then Some XtlsFlow
              else if proto \<notin> {''vmess'', ''trojan'', ''vless''} then Some MuxProtocol
              else let network = str_at (obj_or_nil ob ''streamSettings'') ''network''
                   in if to_lower network \<in> set mux_transports then Some (AlreadyMultiplexes network) else None)"

definition MuxSupport :: "raw_json \<Rightarrow> mux_note option" where
  "MuxSupport r = (case to_map r of BadJson \<Rightarrow> Some OutboundUnparsed | NilMap \<Rightarrow> muxSupport [] | GoMap d \<Rightarrow> muxSupport d)"

definition applyMux :: "object \<Rightarrow> object" where
  "applyMux ob = (if muxSupport ob = None then dput ''mux'' (JObj muxSettings) ob else ob)"

section \<open>Healing stored outbounds\<close>

definition healAllowInsecure :: "object \<Rightarrow> object" where
  "healAllowInsecure ob =
     (case obj_at ob ''streamSettings'' of None \<Rightarrow> ob
      | Some ss \<Rightarrow> (case obj_at ss ''tlsSettings'' of None \<Rightarrow> ob
          | Some tls \<Rightarrow> dput ''streamSettings'' (JObj (dput ''tlsSettings'' (JObj (ddel ''allowInsecure'' tls)) ss)) ob))"

text \<open>The decoded string may be any object, or \<^verbatim>\<open>null\<close>, which decodes to a nil map.\<close>

definition healXHTTPExtra :: "object \<Rightarrow> object" where
  "healXHTTPExtra ob =
     (case obj_at ob ''streamSettings'' of None \<Rightarrow> ob
      | Some ss \<Rightarrow> (case obj_at ss ''xhttpSettings'' of None \<Rightarrow> ob
          | Some xs \<Rightarrow> (case map_of xs ''extra'' of
              Some (JStr s) \<Rightarrow>
                let xs' = (case to_map (parse_json s) of
                             GoMap d \<Rightarrow> dput ''extra'' (JObj d) xs
                           | NilMap \<Rightarrow> dput ''extra'' JNull xs
                           | BadJson \<Rightarrow> ddel ''extra'' xs)
                in dput ''streamSettings'' (JObj (dput ''xhttpSettings'' (JObj xs') ss)) ob
            | _ \<Rightarrow> ob)))"

definition heal :: "object \<Rightarrow> object" where
  "heal ob = healAllowInsecure (healXHTTPExtra ob)"

section \<open>Wiring\<close>

text \<open>Both writers of \<^verbatim>\<open>streamSettings.sockopt\<close> create the objects that are missing.\<close>

definition with_sockopt :: "(object \<Rightarrow> object) \<Rightarrow> object \<Rightarrow> object" where
  "with_sockopt f ob =
     (let ss = obj_or_nil ob ''streamSettings''; so = obj_or_nil ss ''sockopt''
      in dput ''streamSettings'' (JObj (dput ''sockopt'' (JObj (f so)) ss)) ob)"

definition setDialerProxy :: "object \<Rightarrow> string \<Rightarrow> object" where
  "setDialerProxy ob dialerTag = with_sockopt (dput ''dialerProxy'' (JStr dialerTag)) ob"

definition stall_timeouts :: object where
  "stall_timeouts = dict_of
     [(''tcpUserTimeout'', JNum 15000), (''tcpKeepAliveIdle'', JNum 30), (''tcpKeepAliveInterval'', JNum 10)]"

definition put_absent :: "string \<times> json \<Rightarrow> object \<Rightarrow> object" where
  "put_absent kv d = (if map_of d (fst kv) = None then dput (fst kv) (snd kv) d else d)"

definition setStallTimeouts :: "object \<Rightarrow> object" where
  "setStallTimeouts ob = with_sockopt (fold put_absent stall_timeouts) ob"

definition stripDialerProxy :: "object \<Rightarrow> object" where
  "stripDialerProxy ob =
     (case obj_at ob ''streamSettings'' of None \<Rightarrow> ob
      | Some ss \<Rightarrow> (case obj_at ss ''sockopt'' of None \<Rightarrow> ob
          | Some so \<Rightarrow>
              let so' = ddel ''dialerProxy'' so
              in dput ''streamSettings'' (JObj (if so' = [] then ddel ''sockopt'' ss else dput ''sockopt'' (JObj so') ss)) ob))"

definition dialerProxy_of :: "object \<Rightarrow> json option" where
  "dialerProxy_of ob = map_of (obj_or_nil (obj_or_nil ob ''streamSettings'') ''sockopt'') ''dialerProxy''"

section \<open>Which outbounds may be masters and members\<close>

datatype outbound_error = BadOutboundJson | HysteriaMaster | NotATunnel string | EntryError string outbound_error

definition tunnelProtocols :: "string list" where
  "tunnelProtocols = [''vless'', ''vmess'', ''trojan'', ''shadowsocks'', ''socks'', ''http'', ''hysteria'', ''wireguard'']"

definition CheckMasterOutbound :: "raw_json \<Rightarrow> outbound_error option" where
  "CheckMasterOutbound r = (case decode_protocol r of None \<Rightarrow> Some BadOutboundJson
     | Some p \<Rightarrow> if equal_fold p ''hysteria'' then Some HysteriaMaster else None)"

definition CheckMemberOutbound :: "raw_json \<Rightarrow> outbound_error option" where
  "CheckMemberOutbound r = (case decode_protocol r of None \<Rightarrow> Some BadOutboundJson
     | Some p \<Rightarrow> if to_lower p \<notin> set tunnelProtocols then Some (NotATunnel p) else None)"

section \<open>Emitted outbounds\<close>

text \<open>Writing the tag into the nil map that \<^verbatim>\<open>null\<close> decodes to panics.\<close>

definition tagged :: "raw_json \<Rightarrow> string \<Rightarrow> (outbound_error, object) outcome" where
  "tagged r tag = (case to_map r of BadJson \<Rightarrow> Fail BadOutboundJson | NilMap \<Rightarrow> Panic
     | GoMap d \<Rightarrow> Ok (dput ''tag'' (JStr tag) d))"

definition entryOutbound :: "raw_json \<Rightarrow> string \<Rightarrow> (outbound_error, object) outcome" where
  "entryOutbound r tag = obind (tagged r tag) (\<lambda>m. Ok (heal m))"

record slot_member =
  m_Key :: string
  m_Outbound :: raw_json

definition MemberOutboundJSON :: "nat \<Rightarrow> slot_member \<Rightarrow> (outbound_error, object) outcome" where
  "MemberOutboundJSON idx m =
     obind (tagged (m_Outbound m) (SlotMemberTag idx (m_Key m))) (\<lambda>ob. Ok (setStallTimeouts (heal ob)))"

definition MasterProbeOutbound :: "xray_entry \<Rightarrow> (outbound_error, object) outcome" where
  "MasterProbeOutbound e =
     obind (entryOutbound (e_Outbound e) ''master'')
       (\<lambda>ob. Ok (stripDialerProxy (if e_Mux e then applyMux ob else ob)))"

section \<open>The server an outbound dials\<close>

definition json_port :: "json option \<Rightarrow> int" where
  "json_port v = (case v of Some (JNum n) \<Rightarrow> n
     | Some (JDec m e) \<Rightarrow> if m < 0 then - ((- m) div 10 ^ nat (- e)) else m div 10 ^ nat (- e)
     | Some (JStr s) \<Rightarrow> scan_int s | _ \<Rightarrow> 0)"

definition hostPort :: "object \<Rightarrow> (string \<times> int) option" where
  "hostPort m = (let h = str_at m ''address''; p = json_port (map_of m ''port'')
     in if h \<noteq> [] \<and> p > 0 then Some (h, p) else None)"

definition first_obj :: "object \<Rightarrow> string \<Rightarrow> object option" where
  "first_obj d k = (case arr_at d k of [] \<Rightarrow> None | v # _ \<Rightarrow> as_obj v)"

definition outbound_settings :: "raw_json \<Rightarrow> object option" where
  "outbound_settings r = (case r of Some (JObj d) \<Rightarrow> Option.bind (struct_key d ''settings'') as_obj | _ \<Rightarrow> None)"

definition OutboundEndpoint :: "raw_json \<Rightarrow> (string \<times> int) option" where
  "OutboundEndpoint r =
     (case outbound_settings r of None \<Rightarrow> None
      | Some st \<Rightarrow>
          (case first_obj st ''vnext'' of Some m \<Rightarrow> hostPort m
           | None \<Rightarrow> (case first_obj st ''servers'' of Some m \<Rightarrow> hostPort m
              | None \<Rightarrow> (case first_obj st ''peers'' of
                    Some m \<Rightarrow> (case split_host_port (str_at m ''endpoint'') of None \<Rightarrow> None
                       | Some (h, p) \<Rightarrow> let n = scan_int p in if h \<noteq> [] \<and> n > 0 then Some (h, n) else None)
                  | None \<Rightarrow> hostPort st))))"

section \<open>Facts\<close>

lemma dialerProxy_set [simp]: "dialerProxy_of (setDialerProxy ob t) = Some (JStr t)"
  by (simp add: dialerProxy_of_def setDialerProxy_def with_sockopt_def Let_def)

lemma dialerProxy_strip [simp]: "dialerProxy_of (stripDialerProxy ob) = None"
  by (auto simp: dialerProxy_of_def stripDialerProxy_def obj_or_nil_def Let_def split: option.splits)

lemma tag_kept [simp]:
  "map_of (setDialerProxy ob t) ''tag'' = map_of ob ''tag''"
  "map_of (setStallTimeouts ob) ''tag'' = map_of ob ''tag''"
  "map_of (stripDialerProxy ob) ''tag'' = map_of ob ''tag''"
  "map_of (applyMux ob) ''tag'' = map_of ob ''tag''"
  "map_of (heal ob) ''tag'' = map_of ob ''tag''"
  by (auto simp: setDialerProxy_def setStallTimeouts_def with_sockopt_def stripDialerProxy_def applyMux_def
      heal_def healAllowInsecure_def healXHTTPExtra_def Let_def split: option.splits json.splits gomap.splits)

lemma protocol_kept [simp]:
  "map_of (setDialerProxy ob t) ''protocol'' = map_of ob ''protocol''"
  "map_of (setStallTimeouts ob) ''protocol'' = map_of ob ''protocol''"
  "map_of (stripDialerProxy ob) ''protocol'' = map_of ob ''protocol''"
  "map_of (applyMux ob) ''protocol'' = map_of ob ''protocol''"
  "map_of (heal ob) ''protocol'' = map_of ob ''protocol''"
  by (auto simp: setDialerProxy_def setStallTimeouts_def with_sockopt_def stripDialerProxy_def applyMux_def
      heal_def healAllowInsecure_def healXHTTPExtra_def Let_def split: option.splits json.splits gomap.splits)

lemma tagged_Ok [simp]: "tagged r tag = Ok d \<longleftrightarrow> (\<exists>d0. r = Some (JObj d0) \<and> d = dput ''tag'' (JStr tag) d0)"
  by (cases "to_map r"; cases r) (auto simp: tagged_def)

lemma entryOutbound_tag: "entryOutbound r tag = Ok ob \<Longrightarrow> map_of ob ''tag'' = Some (JStr tag)"
  by (auto simp: entryOutbound_def)

lemma MemberOutboundJSON_tag:
  "MemberOutboundJSON idx m = Ok ob \<Longrightarrow> map_of ob ''tag'' = Some (JStr (SlotMemberTag idx (m_Key m)))"
  by (auto simp: MemberOutboundJSON_def)

text \<open>Healed outbounds: nothing xray refuses to load is left, and healing again changes nothing.\<close>

definition healed :: "object \<Rightarrow> bool" where
  "healed ob \<longleftrightarrow>
     (let ss = obj_or_nil ob ''streamSettings''
      in map_of (obj_or_nil ss ''tlsSettings'') ''allowInsecure'' = None \<and>
         (\<forall>s. map_of (obj_or_nil ss ''xhttpSettings'') ''extra'' \<noteq> Some (JStr s)))"

lemma healed_heal [simp]: "healed (heal ob)"
  by (auto simp: healed_def heal_def healAllowInsecure_def healXHTTPExtra_def Let_def obj_or_nil_def
      split: option.splits json.splits gomap.splits)

definition ob_ok :: "object \<Rightarrow> bool" where
  "ob_ok ob \<longleftrightarrow> dict_ok ob \<and>
     (\<forall>ss. obj_at ob ''streamSettings'' = Some ss \<longrightarrow> dict_ok ss \<and>
        (\<forall>k d. obj_at ss k = Some d \<longrightarrow> dict_ok d))"

lemma obj_at_map_of: "obj_at d k = Some v \<longleftrightarrow> map_of d k = Some (JObj v)"
  by (auto simp: obj_at_def bind_eq_Some_conv)

lemma healAllowInsecure_id:
  assumes "ob_ok ob" and "map_of (obj_or_nil (obj_or_nil ob ''streamSettings'') ''tlsSettings'') ''allowInsecure'' = None"
  shows "healAllowInsecure ob = ob"
proof (cases "obj_at ob ''streamSettings''")
  case (Some ss)
  show ?thesis
  proof (cases "obj_at ss ''tlsSettings''")
    case tls: (Some tls)
    have "dict_ok tls" "dict_ok ss" "dict_ok ob" using assms(1) Some tls by (auto simp: ob_ok_def)
    moreover have "map_of tls ''allowInsecure'' = None" using assms(2) Some tls by (simp add: obj_or_nil_def)
    moreover have "map_of ob ''streamSettings'' = Some (JObj ss)" "map_of ss ''tlsSettings'' = Some (JObj tls)"
      using Some tls by (simp_all add: obj_at_map_of)
    ultimately show ?thesis using Some tls
      by (simp add: healAllowInsecure_def dict.del_absent dict.put_present)
  qed (simp add: healAllowInsecure_def Some)
qed (simp add: healAllowInsecure_def)

lemma healXHTTPExtra_id:
  assumes "\<And>s. map_of (obj_or_nil (obj_or_nil ob ''streamSettings'') ''xhttpSettings'') ''extra'' \<noteq> Some (JStr s)"
  shows "healXHTTPExtra ob = ob"
  using assms by (fastforce simp: healXHTTPExtra_def obj_or_nil_def split: option.splits json.splits)

lemma heal_healed: "ob_ok ob \<Longrightarrow> healed ob \<Longrightarrow> heal ob = ob"
  by (simp add: heal_def healed_def Let_def healXHTTPExtra_id healAllowInsecure_id)

text \<open>Stall timeouts are set unless the outbound sets its own, and nothing else is touched.\<close>

lemma map_of_put_absent_fold:
  "map_of (fold put_absent kvs d) k = (case map_of d k of Some v \<Rightarrow> Some v | None \<Rightarrow> map_of kvs k)"
proof (induction kvs arbitrary: d)
  case (Cons kv kvs)
  then show ?case by (cases kv) (auto simp: put_absent_def split: option.splits)
qed (simp split: option.splits)

lemma stall_sockopt:
  "map_of (obj_or_nil (obj_or_nil (setStallTimeouts ob) ''streamSettings'') ''sockopt'') k =
     (case map_of (obj_or_nil (obj_or_nil ob ''streamSettings'') ''sockopt'') k of
        Some v \<Rightarrow> Some v | None \<Rightarrow> map_of stall_timeouts k)"
  by (simp add: setStallTimeouts_def with_sockopt_def Let_def map_of_put_absent_fold split: option.splits)

lemma applyMux_own: "map_of ob ''mux'' \<noteq> None \<Longrightarrow> applyMux ob = ob"
  by (simp add: applyMux_def muxSupport_def)

lemma applyMux_idem: "applyMux (applyMux ob) = applyMux ob"
  by (simp add: applyMux_def muxSupport_def)

text \<open>A member never egresses by itself: its protocol, however spelled, is one that tunnels.\<close>

lemma CheckMember_tunnels:
  "CheckMemberOutbound r = None \<Longrightarrow> \<exists>p. decode_protocol r = Some p \<and> to_lower p \<in> set tunnelProtocols"
  by (auto simp: CheckMemberOutbound_def split: option.splits if_splits)

lemma CheckMember_null: "CheckMemberOutbound (Some JNull) \<noteq> None"
  by (simp add: CheckMemberOutbound_def decode_protocol_def tunnelProtocols_def to_lower_def)

end
