(* ===== verification/Slots.thy ===== *)
theory Slots
  imports Outbounds
begin

text \<open>
  The resolved node pools of \<^verbatim>\<open>core/xray/dialer.go\<close>: slots, the picks of the masters that
  share one, and the sets of members they route through.
\<close>

definition SlotBalancerExpected :: nat where "SlotBalancerExpected = 2"

record master_pick =
  p_Picked :: "string list"
  p_Active :: int

record slot =
  s_Master :: string
  s_Aliases :: "string list"
  s_Key :: string
  s_Index :: nat
  s_Members :: "slot_member list"
  s_Picked :: "string list"
  s_Active :: int
  s_MasterPicks :: "(string, master_pick) dict"
  s_Strategy :: string
  s_Auto :: bool
  s_Pinned :: "string list"

definition activeCount :: "int \<Rightarrow> string list \<Rightarrow> nat" where
  "activeCount active picked =
     min (if active \<le> 0 then SlotBalancerExpected else nat active) (length picked)"

definition ActiveCount :: "master_pick \<Rightarrow> nat" where
  "ActiveCount p = activeCount (p_Active p) (p_Picked p)"

definition PickOf :: "slot \<Rightarrow> string \<Rightarrow> master_pick" where
  "PickOf s master = (case map_of (s_MasterPicks s) master of Some p \<Rightarrow> p
     | None \<Rightarrow> \<lparr>p_Picked = s_Picked s, p_Active = s_Active s\<rparr>)"

definition SlotMasters :: "slot \<Rightarrow> string list" where
  "SlotMasters s = s_Master s # s_Aliases s"

definition ActiveKeys :: "slot \<Rightarrow> string set" where
  "ActiveKeys s = (\<Union>m \<in> set (SlotMasters s). set (take (ActiveCount (PickOf s m)) (p_Picked (PickOf s m))))"

definition PickedKeys :: "slot \<Rightarrow> string set" where
  "PickedKeys s = (\<Union>m \<in> set (SlotMasters s). set (p_Picked (PickOf s m)))"

definition Ranked :: "slot \<Rightarrow> bool" where
  "Ranked s \<longleftrightarrow> s_Picked s \<noteq> [] \<or> s_MasterPicks s \<noteq> []"

definition Agile :: "slot \<Rightarrow> bool" where
  "Agile s \<longleftrightarrow> s_Strategy s = StrategyAgile"

definition Manual :: "slot \<Rightarrow> bool" where
  "Manual s \<longleftrightarrow> s_Strategy s = StrategyManual"

definition NeverParks :: "slot \<Rightarrow> bool" where
  "NeverParks s \<longleftrightarrow> Agile s \<or> Manual s"

definition SlotIndexByName :: "slot list \<Rightarrow> (string, nat) dict" where
  "SlotIndexByName slots =
     fold (\<lambda>s m. fold (\<lambda>name. dput name (s_Index s)) (SlotMasters s) m) slots []"

definition member_keys :: "slot \<Rightarrow> string list" where
  "member_keys s = map m_Key (s_Members s)"

lemma ActiveCount_le: "ActiveCount p \<le> length (p_Picked p)"
  by (simp add: ActiveCount_def activeCount_def)

lemma ActiveCount_pos: "p_Picked p \<noteq> [] \<Longrightarrow> 0 < ActiveCount p"
  by (auto simp: ActiveCount_def activeCount_def SlotBalancerExpected_def)

lemma ActiveKeys_picked: "ActiveKeys s \<subseteq> PickedKeys s"
  by (auto simp: ActiveKeys_def PickedKeys_def dest: in_set_takeD)

lemma SlotIndexByName_dom:
  "map_of (SlotIndexByName slots) name \<noteq> None \<longleftrightarrow> (\<exists>s \<in> set slots. name \<in> set (SlotMasters s))"
proof -
  have inner: "map_of (fold (\<lambda>name. dput name i) ns m) name =
      (if name \<in> set ns then Some i else map_of m name)" for i ns and m :: "(string, nat) dict"
    by (induction ns arbitrary: m) auto
  have "map_of (fold (\<lambda>s m. fold (\<lambda>name. dput name (s_Index s)) (SlotMasters s) m) slots m) name \<noteq> None \<longleftrightarrow>
      map_of m name \<noteq> None \<or> (\<exists>s \<in> set slots. name \<in> set (SlotMasters s))" for m :: "(string, nat) dict"
    by (induction slots arbitrary: m) (auto simp: inner)
  from this [of "[]"] show ?thesis by (simp add: SlotIndexByName_def)
qed

lemma SlotIndexByName_index:
  "map_of (SlotIndexByName slots) name = Some i \<Longrightarrow> \<exists>s \<in> set slots. s_Index s = i \<and> name \<in> set (SlotMasters s)"
proof -
  have inner: "map_of (fold (\<lambda>name. dput name i) ns m) name =
      (if name \<in> set ns then Some i else map_of m name)" for i ns and m :: "(string, nat) dict"
    by (induction ns arbitrary: m) auto
  have "map_of (fold (\<lambda>s m. fold (\<lambda>name. dput name (s_Index s)) (SlotMasters s) m) slots m) name = Some i \<Longrightarrow>
      map_of m name = Some i \<or> (\<exists>s \<in> set slots. s_Index s = i \<and> name \<in> set (SlotMasters s))" for m :: "(string, nat) dict"
  proof (induction slots arbitrary: m)
    case (Cons s slots)
    from Cons.IH [OF Cons.prems [simplified]] show ?case by (auto simp: inner split: if_splits)
  qed simp
  from this [of "[]"] show "map_of (SlotIndexByName slots) name = Some i \<Longrightarrow> ?thesis"
    by (simp add: SlotIndexByName_def)
qed

end
