(* ===== verification/Base64.thy ===== *)
theory Base64
  imports Models
begin

text \<open>
  \<^verbatim>\<open>encoding/base64\<close> of Go's standard library in the four variants the program uses, and
  \<^verbatim>\<open>core/xray/base64.go\<close>, which tries them in turn. Decoding skips line breaks and does
  not check trailing bits, as Go's does.
\<close>

definition b64_char :: "bool \<Rightarrow> nat \<Rightarrow> char" where
  "b64_char url n =
     (if n < 26 then char_of (n + 65)
      else if n < 52 then char_of (n + 71)
      else if n < 62 then char_of (n - 4)
      else if n = 62 then (if url then CHR ''-'' else CHR ''+'')
      else (if url then CHR ''_'' else CHR ''/''))"

definition b64_val :: "bool \<Rightarrow> char \<Rightarrow> nat option" where
  "b64_val url c =
     (let b = byte c
      in if 65 \<le> b \<and> b \<le> 90 then Some (b - 65)
         else if 97 \<le> b \<and> b \<le> 122 then Some (b - 71)
         else if 48 \<le> b \<and> b \<le> 57 then Some (b + 4)
         else if c = (if url then CHR ''-'' else CHR ''+'') then Some 62
         else if c = (if url then CHR ''_'' else CHR ''/'') then Some 63
         else None)"

fun b64_encode :: "bool \<Rightarrow> bool \<Rightarrow> string \<Rightarrow> string" where
  "b64_encode url pad (a # b # c # r) =
     b64_char url (byte a div 4) # b64_char url (byte a mod 4 * 16 + byte b div 16) #
     b64_char url (byte b mod 16 * 4 + byte c div 64) # b64_char url (byte c mod 64) # b64_encode url pad r"
| "b64_encode url pad [a, b] =
     b64_char url (byte a div 4) # b64_char url (byte a mod 4 * 16 + byte b div 16) #
     b64_char url (byte b mod 16 * 4) # (if pad then ''='' else [])"
| "b64_encode url pad [a] =
     b64_char url (byte a div 4) # b64_char url (byte a mod 4 * 16) # (if pad then ''=='' else [])"
| "b64_encode url pad [] = []"

fun b64_decode_clean :: "bool \<Rightarrow> bool \<Rightarrow> string \<Rightarrow> string option" where
  "b64_decode_clean url pad (a # b # c # d # r) =
     (case (b64_val url a, b64_val url b, b64_val url c, b64_val url d) of
        (Some v, Some w, Some x, Some y) \<Rightarrow>
          map_option (\<lambda>t. char_of (v * 4 + w div 16) # char_of (w mod 16 * 16 + x div 4) # char_of (x mod 4 * 64 + y) # t)
            (b64_decode_clean url pad r)
      | (Some v, Some w, Some x, None) \<Rightarrow>
          if pad \<and> d = CHR ''='' \<and> r = []
          then Some [char_of (v * 4 + w div 16), char_of (w mod 16 * 16 + x div 4)] else None
      | (Some v, Some w, None, None) \<Rightarrow>
          if pad \<and> c = CHR ''='' \<and> d = CHR ''='' \<and> r = [] then Some [char_of (v * 4 + w div 16)] else None
      | _ \<Rightarrow> None)"
| "b64_decode_clean url pad [a, b, c] =
     (case (b64_val url a, b64_val url b, b64_val url c) of
        (Some v, Some w, Some x) \<Rightarrow>
          if pad then None else Some [char_of (v * 4 + w div 16), char_of (w mod 16 * 16 + x div 4)]
      | _ \<Rightarrow> None)"
| "b64_decode_clean url pad [a, b] =
     (case (b64_val url a, b64_val url b) of
        (Some v, Some w) \<Rightarrow> if pad then None else Some [char_of (v * 4 + w div 16)]
      | _ \<Rightarrow> None)"
| "b64_decode_clean url pad [a] = None"
| "b64_decode_clean url pad [] = Some []"

definition b64_decode :: "bool \<Rightarrow> bool \<Rightarrow> string \<Rightarrow> string option" where
  "b64_decode url pad s = b64_decode_clean url pad (filter (\<lambda>c. byte c \<noteq> 10 \<and> byte c \<noteq> 13) s)"

fun first_some :: "'a option list \<Rightarrow> 'a option" where
  "first_some [] = None"
| "first_some (x # xs) = (case x of Some y \<Rightarrow> Some y | None \<Rightarrow> first_some xs)"

definition decodeB64 :: "string \<Rightarrow> string option" where
  "decodeB64 s0 =
     (let s = trim_space s0
      in if s = [] then None
         else first_some [b64_decode False True s, b64_decode False False s,
                          b64_decode True True s, b64_decode True False s])"

section \<open>Decoding inverts encoding\<close>

lemma byte_char_of: "n < 256 \<Longrightarrow> byte (char_of n) = n"
  by (simp add: byte_def)

lemma b64_char_facts:
  assumes "n < 64"
  shows "b64_val url (b64_char url n) = Some n \<and>
    \<not> ascii_space (b64_char url n) \<and> byte (b64_char url n) < 128 \<and> b64_char url n \<noteq> CHR ''=''"
proof -
  consider "n < 26" | "26 \<le> n" "n < 52" | "52 \<le> n" "n < 62" | "n = 62" | "n = 63"
    using assms by linarith
  then show ?thesis
  proof cases
    case 1
    then have b: "byte (b64_char url n) = n + 65" by (simp add: b64_char_def byte_char_of)
    then have "b64_char url n \<noteq> CHR ''=''" by (auto simp: byte_def)
    with b 1 show ?thesis by (simp add: b64_val_def ascii_space_def)
  next
    case 2
    then have b: "byte (b64_char url n) = n + 71" by (simp add: b64_char_def byte_char_of)
    then have "b64_char url n \<noteq> CHR ''=''" by (auto simp: byte_def)
    with b 2 show ?thesis by (simp add: b64_val_def ascii_space_def)
  next
    case 3
    then obtain m where m: "n = m + 52" "m < 10" by (metis le_Suc_ex add.commute add_less_cancel_left numeral_plus_numeral add_num_simps semiring_norm(3))
    then have b: "byte (b64_char url n) = m + 48" by (simp add: b64_char_def byte_char_of)
    then have "b64_char url n \<noteq> CHR ''=''" using m by (auto simp: byte_def)
    with b m show ?thesis by (simp add: b64_val_def ascii_space_def)
  qed (cases url; simp add: b64_char_def b64_val_def byte_def ascii_space_def)+
qed

lemma b64_val_char [simp]: "n < 64 \<Longrightarrow> b64_val url (b64_char url n) = Some n"
  using b64_char_facts [of n url] by blast

lemma b64_char_plain: "n < 64 \<Longrightarrow> \<not> ascii_space (b64_char url n) \<and> byte (b64_char url n) < 128 \<and> b64_char url n \<noteq> CHR ''=''"
  using b64_char_facts [of n url] by blast

lemma b64_val_pad [simp]: "b64_val url (CHR ''='') = None"
  by (simp add: b64_val_def byte_def)

lemma b64_val_lt: "b64_val url c = Some n \<Longrightarrow> n < 64"
  by (auto simp: b64_val_def Let_def split: if_splits)

lemma char_of_byte [simp]: "char_of (byte c) = c"
  by (simp add: byte_def)

lemma sextets:
  fixes a b c :: nat
  assumes "a < 256" "b < 256" "c < 256"
  shows "a div 4 < 64" "a mod 4 * 16 + b div 16 < 64" "b mod 16 * 4 + c div 64 < 64" "a mod 4 * 16 < 64" "b mod 16 * 4 < 64"
    and "(a mod 4 * 16 + b div 16) div 16 = a mod 4"
    and "(a mod 4 * 16 + b div 16) mod 16 = b div 16"
    and "(b mod 16 * 4 + c div 64) div 4 = b mod 16"
    and "(b mod 16 * 4 + c div 64) mod 4 = c div 64"
    and "b div 16 mod 16 = b div 16" "c div 64 mod 4 = c div 64"
proof -
  have d: "b div 16 < 16" "c div 64 < 4" "a mod 4 < 4" "b mod 16 < 16" using assms by auto
  show "a div 4 < 64" using assms by auto
  show "a mod 4 * 16 + b div 16 < 64" "b mod 16 * 4 + c div 64 < 64" "a mod 4 * 16 < 64" "b mod 16 * 4 < 64"
    using d by linarith+
  show "(a mod 4 * 16 + b div 16) div 16 = a mod 4" "(a mod 4 * 16 + b div 16) mod 16 = b div 16"
    "(b mod 16 * 4 + c div 64) div 4 = b mod 16" "(b mod 16 * 4 + c div 64) mod 4 = c div 64"
    "b div 16 mod 16 = b div 16" "c div 64 mod 4 = c div 64"
    using d by simp_all
qed

lemma b64_roundtrip_clean: "b64_decode_clean url pad (b64_encode url pad s) = Some s"
proof (induction url pad s rule: b64_encode.induct)
  case (1 url pad a b c r)
  note s = sextets [OF byte_lt [of a] byte_lt [of b] byte_lt [of c]]
  show ?case using 1 by (simp add: s)
next
  case (2 url pad a b)
  note s = sextets [OF byte_lt [of a] byte_lt [of b] byte_lt [of b]]
  show ?case by (simp add: s)
next
  case (3 url pad a)
  note s = sextets [OF byte_lt [of a] byte_lt [of a] byte_lt [of a]]
  show ?case by (simp add: s)
next
  case (4 url pad)
  then show ?case by simp
qed

lemma pad_plain: "\<not> ascii_space (CHR ''='')" "byte (CHR ''='') < 128"
  by (simp_all add: ascii_space_def byte_def)

lemma b64_encode_plain: "plain (b64_encode url pad s)"
proof (induction url pad s rule: b64_encode.induct)
  case (1 url pad a b c r)
  note s = sextets [OF byte_lt [of a] byte_lt [of b] byte_lt [of c]]
  show ?case using 1 by (simp add: plain_def s b64_char_plain)
next
  case (2 url pad a b)
  note s = sextets [OF byte_lt [of a] byte_lt [of b] byte_lt [of b]]
  show ?case by (simp add: plain_def s b64_char_plain pad_plain)
next
  case (3 url pad a)
  note s = sextets [OF byte_lt [of a] byte_lt [of a] byte_lt [of a]]
  show ?case by (simp add: plain_def s b64_char_plain pad_plain)
qed (simp add: plain_def)

lemma plain_no_breaks: "plain s \<Longrightarrow> filter (\<lambda>c. byte c \<noteq> 10 \<and> byte c \<noteq> 13) s = s"
  by (auto simp: plain_def ascii_space_def filter_id_conv)

lemma b64_decode_encode: "b64_decode url pad (b64_encode url pad s) = Some s"
  by (simp add: b64_decode_def plain_no_breaks [OF b64_encode_plain] b64_roundtrip_clean)

text \<open>Whichever variant decodes a text first, it yields the same bytes: the variants agree on
  their common characters, and a padded text is not an unpadded one.\<close>

lemma b64_val_agree: "b64_val url x = Some v \<Longrightarrow> b64_val url' x = Some w \<Longrightarrow> v = w"
  by (auto simp: b64_val_def Let_def split: if_splits)

lemma b64_decode_quad:
  "b64_decode_clean url pad (a # b # c # d # r) = Some t \<Longrightarrow>
   \<exists>v w. b64_val url a = Some v \<and> b64_val url b = Some w \<and>
     ((\<exists>x y u. b64_val url c = Some x \<and> b64_val url d = Some y \<and> b64_decode_clean url pad r = Some u \<and>
         t = char_of (v * 4 + w div 16) # char_of (w mod 16 * 16 + x div 4) # char_of (x mod 4 * 64 + y) # u) \<or>
      (\<exists>x. b64_val url c = Some x \<and> d = CHR ''='' \<and> t = [char_of (v * 4 + w div 16), char_of (w mod 16 * 16 + x div 4)]) \<or>
      c = CHR ''='' \<and> d = CHR ''='' \<and> t = [char_of (v * 4 + w div 16)])"
  by (cases "b64_val url a"; cases "b64_val url b"; cases "b64_val url c"; cases "b64_val url d")
    (auto split: if_splits)

lemma b64_decode_alphabets:
  "b64_decode_clean url pad s = Some t \<Longrightarrow> b64_decode_clean url' pad' s = Some t' \<Longrightarrow> t = t'"
proof (induction s arbitrary: t t' rule: length_induct)
  case (1 s)
  note va = b64_val_agree [of url _ _ url']
  consider a b c d r where "s = a # b # c # d # r" | a b c where "s = [a, b, c]" | a b where "s = [a, b]"
    | a where "s = [a]" | "s = []"
    by (metis neq_Nil_conv)
  then show ?case
  proof cases
    case (1 a b c d r)
    have ih: "b64_decode_clean url pad r = Some u \<Longrightarrow> b64_decode_clean url' pad' r = Some u' \<Longrightarrow> u = u'" for u u'
      using "1.IH" [rule_format, of r] 1 by simp
    from b64_decode_quad [of url pad a b c d r t] "1.prems"(1) 1 obtain v w where
      vw: "b64_val url a = Some v" "b64_val url b = Some w" and D: "(\<exists>x y u. b64_val url c = Some x \<and> b64_val url d = Some y \<and> b64_decode_clean url pad r = Some u \<and>
         t = char_of (v * 4 + w div 16) # char_of (w mod 16 * 16 + x div 4) # char_of (x mod 4 * 64 + y) # u) \<or>
      (\<exists>x. b64_val url c = Some x \<and> d = CHR ''='' \<and> t = [char_of (v * 4 + w div 16), char_of (w mod 16 * 16 + x div 4)]) \<or>
      c = CHR ''='' \<and> d = CHR ''='' \<and> t = [char_of (v * 4 + w div 16)]" by blast
    from b64_decode_quad [of url' pad' a b c d r t'] "1.prems"(2) 1 va vw have D':
      "(\<exists>x y u. b64_val url' c = Some x \<and> b64_val url' d = Some y \<and> b64_decode_clean url' pad' r = Some u \<and>
         t' = char_of (v * 4 + w div 16) # char_of (w mod 16 * 16 + x div 4) # char_of (x mod 4 * 64 + y) # u) \<or>
      (\<exists>x. b64_val url' c = Some x \<and> d = CHR ''='' \<and> t' = [char_of (v * 4 + w div 16), char_of (w mod 16 * 16 + x div 4)]) \<or>
      c = CHR ''='' \<and> d = CHR ''='' \<and> t' = [char_of (v * 4 + w div 16)]" by blast
    show ?thesis
      using D
    proof (elim disjE exE conjE, goal_cases)
      case (1 x y u)
      with D' va [OF 1(1)] va [OF 1(2)] ih [OF 1(3)] show ?case by auto
    next
      case (2 x)
      with D' va [OF 2(1)] show ?case by auto
    next
      case 3
      with D' show ?case by auto
    qed
  next
    case (2 a b c)
    obtain v w x where s: "b64_val url a = Some v" "b64_val url b = Some w" "b64_val url c = Some x"
      "t = [char_of (v * 4 + w div 16), char_of (w mod 16 * 16 + x div 4)]"
      using "1.prems"(1) 2 by (auto split: option.splits if_splits)
    obtain v' w' x' where s': "b64_val url' a = Some v'" "b64_val url' b = Some w'" "b64_val url' c = Some x'"
      "t' = [char_of (v' * 4 + w' div 16), char_of (w' mod 16 * 16 + x' div 4)]"
      using "1.prems"(2) 2 by (auto split: option.splits if_splits)
    show ?thesis using s(4) s'(4) va [OF s(1) s'(1)] va [OF s(2) s'(2)] va [OF s(3) s'(3)] by simp
  next
    case (3 a b)
    obtain v w where s: "b64_val url a = Some v" "b64_val url b = Some w" "t = [char_of (v * 4 + w div 16)]"
      using "1.prems"(1) 3 by (auto split: option.splits if_splits)
    obtain v' w' where s': "b64_val url' a = Some v'" "b64_val url' b = Some w'" "t' = [char_of (v' * 4 + w' div 16)]"
      using "1.prems"(2) 3 by (auto split: option.splits if_splits)
    show ?thesis using s(3) s'(3) va [OF s(1) s'(1)] va [OF s(2) s'(2)] by simp
  qed (use "1.prems" in simp_all)
qed

lemma first_some_agree: "set xs \<subseteq> {None, Some v} \<Longrightarrow> Some v \<in> set xs \<Longrightarrow> first_some xs = Some v"
  by (induction xs) auto

lemma decodeB64_any:
  assumes "trim_space s = s" and "s \<noteq> []" and "b64_decode url pad s = Some t"
  shows "decodeB64 s = Some t"
proof -
  let ?xs = "[b64_decode False True s, b64_decode False False s, b64_decode True True s, b64_decode True False s]"
  have agree: "b64_decode u p s = Some x \<Longrightarrow> x = t" for u p x
    using assms(3) b64_decode_alphabets unfolding b64_decode_def by blast
  have "Some t \<in> set ?xs" using assms(3) by (cases url; cases pad) simp_all
  moreover have "b64_decode u p s \<in> {None, Some t}" for u p
    using agree [of u p] by (cases "b64_decode u p s") auto
  then have "set ?xs \<subseteq> {None, Some t}" by simp
  ultimately have "first_some ?xs = Some t" by (rule first_some_agree [rotated])
  then show ?thesis unfolding decodeB64_def Let_def assms(1) using assms(2) by simp
qed

lemma b64_encode_ne: "s \<noteq> [] \<Longrightarrow> b64_encode url pad s \<noteq> []"
  by (cases s; cases "tl s"; cases "tl (tl s)") simp_all

text \<open>Whatever alphabet a text was encoded in, with or without padding, decoding gives it back; an empty text is
  not decoded.\<close>

theorem decodeB64_encode: "s \<noteq> [] \<Longrightarrow> decodeB64 (b64_encode url pad s) = Some s"
proof (rule decodeB64_any)
  show "trim_space (b64_encode url pad s) = b64_encode url pad s"
    using trimmed_plain [OF b64_encode_plain] by (simp add: trimmed_iff)
  show "b64_decode url pad (b64_encode url pad s) = Some s" by (rule b64_decode_encode)
qed (rule b64_encode_ne)

end
