(* ===== verification/Inbounds.thy ===== *)
theory Inbounds
  imports Outbounds Base64
begin

text \<open>
  Listeners: \<^verbatim>\<open>core/xray/template.go\<close>, the credential generators of
  \<^verbatim>\<open>keygen.go\<close>, the extra users of \<^verbatim>\<open>users.go\<close> and the inbound half of
  \<^verbatim>\<open>config.go\<close>. Random bytes, the X25519 key derivation and the certificate maker are
  arguments; \<open>None\<close> is their error.
\<close>

section \<open>Credentials\<close>

definition uuid_text :: "8 word list \<Rightarrow> string" where
  "uuid_text h = hex (take 4 h) @ ''-'' @ hex (take 2 (drop 4 h)) @ ''-'' @ hex (take 2 (drop 6 h)) @ ''-'' @
     hex (take 2 (drop 8 h)) @ ''-'' @ hex (take 6 (drop 10 h))"

definition string_of_bytes :: "8 word list \<Rightarrow> string" where
  "string_of_bytes bs = map (\<lambda>b. char_of (unat b)) bs"

definition NewUUID :: "8 word list \<Rightarrow> string" where
  "NewUUID b0 = (let b1 = b0[6 := (b0 ! 6 AND 0x0f) OR 0x40]; b = b1[8 := (b1 ! 8 AND 0x3f) OR 0x80] in uuid_text b)"

definition NewPassword :: "8 word list \<Rightarrow> string" where
  "NewPassword b = b64_encode True False (string_of_bytes b)"

definition NewShortID :: "int \<Rightarrow> 8 word list \<Rightarrow> string" where
  "NewShortID n b = hex (take (if n \<le> 0 \<or> n > 8 then 8 else nat n) b)"

definition NewRealityKeys :: "(8 word list \<Rightarrow> 8 word list option) \<Rightarrow> 8 word list \<Rightarrow> (string \<times> string) option" where
  "NewRealityKeys x25519 p0 =
     (let p1 = p0[0 := p0 ! 0 AND 248]; p2 = p1[31 := p1 ! 31 AND 127]; priv = p2[31 := p2 ! 31 OR 64]
      in map_option (\<lambda>pub. (b64_encode True False (string_of_bytes priv), b64_encode True False (string_of_bytes pub)))
           (x25519 priv))"

text \<open>What one call of a function that fills in credentials can draw: each generator is called at
  most once. \<open>None\<close> is an error of the random source or of the generator.\<close>

record keygen =
  kg_uuid :: "string option"
  kg_password :: "string option"
  kg_shortid :: "int \<Rightarrow> string option"
  kg_reality :: "(string \<times> string) option"
  kg_tls :: "string \<Rightarrow> (string \<times> string) option"

datatype inbound_error =
    KeygenError | BadXHTTPMode string | NameError name_error | TargetError target_error
  | UnknownTemplate string | NoExtraUsers string | UnsupportedProtocol string
  | NoRealityKey | NoCertificate | NoSuchTarget string

definition of_gen :: "'a option \<Rightarrow> (inbound_error, 'a) outcome" where
  "of_gen g = (case g of None \<Rightarrow> Fail KeygenError | Some x \<Rightarrow> Ok x)"

section \<open>Templates\<close>

record template =
  t_Name :: string
  t_Protocol :: string
  t_Network :: string
  t_Security :: string
  t_Flow :: string
  t_Listen :: string
  t_RealityDest :: string
  t_RealitySNI :: string
  t_Path :: string
  t_Host :: string
  t_TLSSNI :: string

definition mk_template :: "string \<Rightarrow> string \<Rightarrow> string \<Rightarrow> string \<Rightarrow> string \<Rightarrow> string \<Rightarrow> string \<Rightarrow> string \<Rightarrow> string \<Rightarrow> template" where
  "mk_template n proto net sec flow listen dest sni path =
     \<lparr>t_Name = n, t_Protocol = proto, t_Network = net, t_Security = sec, t_Flow = flow, t_Listen = listen,
      t_RealityDest = dest, t_RealitySNI = sni, t_Path = path, t_Host = [], t_TLSSNI = []\<rparr>"

definition any_addr :: string where "any_addr = ''0.0.0.0''"
definition ms_dest :: string where "ms_dest = ''www.microsoft.com:443''"
definition ms_sni :: string where "ms_sni = ''www.microsoft.com''"
definition vision :: string where "vision = ''xtls-rprx-vision''"

definition templates :: "template list" where
  "templates =
    [mk_template ''vless-reality'' ''vless'' ''tcp'' ''reality'' vision any_addr ms_dest ms_sni [],
     mk_template ''vless-reality-grpc'' ''vless'' ''grpc'' ''reality'' [] any_addr ms_dest ms_sni ''grpc'',
     mk_template ''vless-reality-xhttp'' ''vless'' ''xhttp'' ''reality'' [] any_addr ms_dest ms_sni ''/'',
     mk_template ''vless-tls'' ''vless'' ''tcp'' ''tls'' vision any_addr [] [] [],
     mk_template ''vless-tls-ws'' ''vless'' ''ws'' ''tls'' [] any_addr [] [] ''/'',
     mk_template ''vless-tls-xhttp'' ''vless'' ''xhttp'' ''tls'' [] any_addr [] [] ''/'',
     mk_template ''vless-caddy-xhttp'' ''vless'' ''xhttp'' ''none'' [] [] [] [] [],
     mk_template ''vless-tls-grpc'' ''vless'' ''grpc'' ''tls'' [] any_addr [] [] ''grpc'',
     mk_template ''vless-tls-httpupgrade'' ''vless'' ''httpupgrade'' ''tls'' [] any_addr [] [] ''/'',
     mk_template ''vmess-ws'' ''vmess'' ''ws'' ''none'' [] any_addr [] [] ''/'',
     mk_template ''vmess-tcp'' ''vmess'' ''tcp'' ''none'' [] any_addr [] [] [],
     mk_template ''vmess-tls-ws'' ''vmess'' ''ws'' ''tls'' [] any_addr [] [] ''/'',
     mk_template ''trojan-tls'' ''trojan'' ''tcp'' ''tls'' [] any_addr [] [] [],
     mk_template ''trojan-tls-ws'' ''trojan'' ''ws'' ''tls'' [] any_addr [] [] ''/'',
     mk_template ''hysteria2'' ''hysteria'' ''hysteria'' ''tls'' [] any_addr [] [] [],
     mk_template ''socks'' ''socks'' ''tcp'' ''none'' [] ''127.0.0.1'' [] [] [],
     mk_template ''socks-public'' ''socks'' ''tcp'' ''none'' [] any_addr [] [] []]"

definition DefaultTemplate :: string where "DefaultTemplate = ''vless-reality''"

definition TemplateByName :: "string \<Rightarrow> template option" where
  "TemplateByName name0 =
     (let name = (if name0 = [] then DefaultTemplate else name0)
      in List.find (\<lambda>t. t_Name t = name) templates)"

definition TemplateList :: "template list" where
  "TemplateList = sort_key t_Name templates"

definition isLoopback :: "string \<Rightarrow> bool" where
  "isLoopback listen \<longleftrightarrow> listen = ''127.0.0.1'' \<or> listen = ''::1'' \<or> listen = ''localhost''"

definition CaddySocketListen :: "string \<Rightarrow> string" where
  "CaddySocketListen name = ''/dev/shm/emx-xhttp-'' @ to_lower (sanitizeKey name) @ ''.sock,0666''"

definition IsCaddyXHTTP :: "inbound \<Rightarrow> bool" where
  "IsCaddyXHTTP i \<longleftrightarrow> in_Network i = ''xhttp'' \<and> in_Security i = ''none'' \<and> IsUnixInbound i"

definition UnixSocketPath :: "string \<Rightarrow> string" where
  "UnixSocketPath listen = (case cut '','' listen of Some (p, _) \<Rightarrow> p | None \<Rightarrow> listen)"

section \<open>Materialize\<close>

definition xhttp_modes :: "string list" where
  "xhttp_modes = [''auto'', ''packet-up'', ''stream-up'', ''stream-one'']"

definition fill_network :: "inbound \<Rightarrow> inbound" where
  "fill_network i =
     (if in_Network i = [] then i\<lparr>in_Network := (if in_Protocol i = ''hysteria'' then ''hysteria'' else ''tcp'')\<rparr> else i)"

definition fill_mode :: "inbound \<Rightarrow> inbound" where
  "fill_mode i = (if in_Network i = ''xhttp'' \<and> in_XHTTPMode i = [] then i\<lparr>in_XHTTPMode := ''auto''\<rparr> else i)"

definition fill_listen :: "inbound \<Rightarrow> inbound" where
  "fill_listen i =
     (if in_Listen i = [] then i\<lparr>in_Listen := (if in_Protocol i = ''socks'' then ''127.0.0.1'' else ''0.0.0.0'')\<rparr> else i)"

definition slashed :: "string \<Rightarrow> string" where
  "slashed p0 = (let p = (if prefix ''/'' p0 then p0 else ''/'' @ p0) in if suffix ''/'' p then p else p @ ''/'')"

definition fill_path :: "inbound \<Rightarrow> inbound" where
  "fill_path i = (if IsCaddyXHTTP i \<and> in_Path i \<noteq> [] then i\<lparr>in_Path := slashed (in_Path i)\<rparr> else i)"

definition mat_transport :: "inbound \<Rightarrow> (inbound_error, inbound) outcome" where
  "mat_transport i0 =
     (let i = fill_mode (fill_network i0)
      in if in_Network i = ''xhttp'' \<and> in_XHTTPMode i \<notin> set xhttp_modes then Fail (BadXHTTPMode (in_XHTTPMode i))
         else Ok (fill_path (fill_listen i)))"

definition mat_credentials :: "keygen \<Rightarrow> inbound \<Rightarrow> (inbound_error, inbound) outcome" where
  "mat_credentials g i =
     (if in_Protocol i = ''vless'' \<or> in_Protocol i = ''vmess'' then
        (if in_UUID i = [] then obind (of_gen (kg_uuid g)) (\<lambda>u. Ok (i\<lparr>in_UUID := u\<rparr>)) else Ok i)
      else if in_Protocol i = ''trojan'' then
        (if in_Password i = [] then obind (of_gen (kg_password g)) (\<lambda>p. Ok (i\<lparr>in_Password := p\<rparr>)) else Ok i)
      else if in_Protocol i = ''hysteria'' then
        (if in_HysteriaAuth i = [] then obind (of_gen (kg_password g)) (\<lambda>a. Ok (i\<lparr>in_HysteriaAuth := a\<rparr>)) else Ok i)
      else if in_Protocol i = ''socks'' \<and> \<not> isLoopback (in_Listen i) \<and> in_SocksUser i = [] then
        obind (of_gen (kg_shortid g 6)) (\<lambda>u.
          let i' = i\<lparr>in_SocksUser := u\<rparr>
          in if in_Password i' = [] then obind (of_gen (kg_password g)) (\<lambda>p. Ok (i'\<lparr>in_Password := p\<rparr>)) else Ok i')
      else Ok i)"

definition fill_reality_key :: "keygen \<Rightarrow> inbound \<Rightarrow> (inbound_error, inbound) outcome" where
  "fill_reality_key g i =
     (if in_RealityPrivateKey i = []
      then obind (of_gen (kg_reality g)) (\<lambda>k. Ok (i\<lparr>in_RealityPrivateKey := fst k, in_RealityPublicKey := snd k\<rparr>))
      else Ok i)"

definition fill_short_id :: "keygen \<Rightarrow> inbound \<Rightarrow> (inbound_error, inbound) outcome" where
  "fill_short_id g i =
     (if in_RealityShortID i = [] then obind (of_gen (kg_shortid g 8)) (\<lambda>sid. Ok (i\<lparr>in_RealityShortID := sid\<rparr>)) else Ok i)"

definition fill_dest :: "inbound \<Rightarrow> inbound" where
  "fill_dest i0 =
     (let i = (if in_RealityDest i0 = [] then i0\<lparr>in_RealityDest := ms_dest\<rparr> else i0)
      in if in_RealitySNI i = [] then i\<lparr>in_RealitySNI := ms_sni\<rparr> else i)"

definition mat_reality :: "keygen \<Rightarrow> inbound \<Rightarrow> (inbound_error, inbound) outcome" where
  "mat_reality g i =
     (if in_Security i \<noteq> ''reality'' then Ok i
      else obind (fill_reality_key g i) (\<lambda>i1. obind (fill_short_id g i1) (\<lambda>i2. Ok (fill_dest i2))))"

definition mat_tls :: "keygen \<Rightarrow> inbound \<Rightarrow> (inbound_error, inbound) outcome" where
  "mat_tls g i =
     (if in_Security i = ''tls'' \<and> (in_TLSCert i = [] \<or> in_TLSKey i = [])
      then obind (of_gen (kg_tls g (in_TLSSNI i))) (\<lambda>ck. Ok (i\<lparr>in_TLSCert := fst ck, in_TLSKey := snd ck\<rparr>))
      else Ok i)"

definition Materialize :: "keygen \<Rightarrow> inbound \<Rightarrow> (inbound_error, inbound) outcome" where
  "Materialize g i =
     obind (mat_transport i) (\<lambda>i1. obind (mat_credentials g i1) (\<lambda>i2. obind (mat_reality g i2) (mat_tls g)))"

definition blank_inbound :: inbound where
  "blank_inbound =
     \<lparr>in_ID = 0, in_Name = [], in_Protocol = [], in_Listen = [], in_Port = 0, in_Enabled = False,
      in_UUID = [], in_Password = [], in_HysteriaAuth = [], in_SocksUser = [], in_Flow = [], in_Network = [],
      in_Path = [], in_Host = [], in_Security = [], in_XHTTPMode = [], in_ClientEmail = [],
      in_RealityPrivateKey = [], in_RealityPublicKey = [], in_RealityShortID = [], in_RealityDest = [],
      in_RealitySNI = [], in_TLSCert = [], in_TLSKey = [], in_TLSSNI = [], in_PublicHost = [], in_Target = [],
      in_Users = []\<rparr>"

text \<open>The path of a Caddy-backed inbound is drawn before \<^verbatim>\<open>Materialize\<close> runs, from a
  generator of its own.\<close>

definition NewXHTTPPath :: "string option \<Rightarrow> string option" where
  "NewXHTTPPath pw = map_option (\<lambda>i. ''/'' @ i @ ''/'') pw"

definition NewInboundFromTemplate ::
  "keygen \<Rightarrow> string option \<Rightarrow> string \<Rightarrow> string \<Rightarrow> string \<Rightarrow> (inbound_error, inbound) outcome" where
  "NewInboundFromTemplate g pathkey name templateName target =
     (case ValidName name of Inl e \<Rightarrow> Fail (NameError e)
      | Inr n \<Rightarrow> (case CanonicalTarget target of Inl e \<Rightarrow> Fail (TargetError e)
          | Inr tgt \<Rightarrow> (case TemplateByName templateName of None \<Rightarrow> Fail (UnknownTemplate templateName)
              | Some t \<Rightarrow>
                  let i = blank_inbound\<lparr>in_Name := n, in_Protocol := t_Protocol t, in_Network := t_Network t,
                            in_Security := t_Security t, in_Flow := t_Flow t, in_Listen := t_Listen t,
                            in_Path := t_Path t, in_Host := t_Host t, in_RealityDest := t_RealityDest t,
                            in_RealitySNI := t_RealitySNI t, in_TLSSNI := t_TLSSNI t, in_Enabled := True,
                            in_Target := tgt\<rparr>
                  in obind (if templateName = ''vless-caddy-xhttp''
                            then obind (of_gen (NewXHTTPPath pathkey)) (\<lambda>path.
                                   Ok (i\<lparr>in_Listen := CaddySocketListen n, in_Path := path, in_XHTTPMode := ''packet-up'',
                                        in_ClientEmail := sanitizeKey n @ ''@xhttp.local''\<rparr>))
                            else Ok i) (Materialize g))))"

definition NewInboundUser :: "keygen \<Rightarrow> inbound \<Rightarrow> string \<Rightarrow> int \<Rightarrow> (inbound_error, inbound_user) outcome" where
  "NewInboundUser g i name capBytes =
     (case ValidName name of Inl e \<Rightarrow> Fail (NameError e)
      | Inr n \<Rightarrow>
          let u = \<lparr>u_ID = 0, u_InboundID = in_ID i, u_Name = n, u_UUID = [], u_Password = [], u_Auth = [],
                   u_Email = UserEmail (in_Name i) n, u_ByteCap = capBytes, u_Enabled = True\<rparr>
          in if in_Protocol i = ''vless'' \<or> in_Protocol i = ''vmess''
             then obind (of_gen (kg_uuid g)) (\<lambda>x. Ok (u\<lparr>u_UUID := x\<rparr>))
             else if in_Protocol i = ''trojan'' then obind (of_gen (kg_password g)) (\<lambda>x. Ok (u\<lparr>u_Password := x\<rparr>))
             else if in_Protocol i = ''hysteria'' then obind (of_gen (kg_password g)) (\<lambda>x. Ok (u\<lparr>u_Auth := x\<rparr>))
             else Fail (NoExtraUsers (in_Protocol i)))"

section \<open>The inbound object\<close>

definition orDefault :: "string \<Rightarrow> string \<Rightarrow> string" where
  "orDefault s d = (if trim_space s = [] then d else s)"

definition clientObject :: "string \<Rightarrow> string \<Rightarrow> string \<Rightarrow> string \<Rightarrow> string \<Rightarrow> json" where
  "clientObject protocol uuid password email flow =
     jobj ([(''level'', JNum 0)] @ (if email \<noteq> [] then [(''email'', JStr email)] else []) @
       (if protocol = ''vless'' then [(''id'', JStr uuid)] @ (if flow \<noteq> [] then [(''flow'', JStr flow)] else [])
        else if protocol = ''vmess'' then [(''id'', JStr uuid), (''alterId'', JNum 0)]
        else if protocol = ''trojan'' then [(''password'', JStr password)] else []))"

definition inboundClients :: "inbound \<Rightarrow> json list" where
  "inboundClients i =
     clientObject (in_Protocol i) (in_UUID i) (in_Password i)
       (if in_ClientEmail i = [] then PrimaryUserEmail (in_Name i) else in_ClientEmail i) (in_Flow i) #
     map (\<lambda>u. clientObject (in_Protocol i) (u_UUID u) (u_Password u) (u_Email u) (in_Flow i)) (in_Users i)"

definition hysteriaUsers :: "inbound \<Rightarrow> json list" where
  "hysteriaUsers i =
     jobj [(''auth'', JStr (in_HysteriaAuth i)), (''email'', JStr (PrimaryUserEmail (in_Name i))), (''level'', JNum 0)] #
     map (\<lambda>u. jobj [(''auth'', JStr (u_Auth u)), (''email'', JStr (u_Email u)), (''level'', JNum 0)]) (in_Users i)"

definition pemLines :: "string \<Rightarrow> json" where
  "pemLines pem = JArr (map JStr (split_on (char_of (10::nat)) (rev (dropWhile (\<lambda>c. byte c = 10) (rev pem)))))"

definition stream_security :: "inbound \<Rightarrow> string \<Rightarrow> (inbound_error, (string \<times> json) list) outcome" where
  "stream_security i network =
     (if in_Security i = ''reality'' then
        (if in_RealityPrivateKey i = [] then Fail NoRealityKey
         else Ok [(''security'', JStr ''reality''),
                  (''realitySettings'', jobj
                    [(''show'', JBool False), (''dest'', JStr (orDefault (in_RealityDest i) ms_dest)), (''xver'', JNum 0),
                     (''serverNames'', JArr [JStr (orDefault (in_RealitySNI i) ms_sni)]),
                     (''privateKey'', JStr (in_RealityPrivateKey i)), (''shortIds'', JArr [JStr (in_RealityShortID i)])])])
      else if in_Security i = ''tls'' then
        (if in_TLSCert i = [] \<or> in_TLSKey i = [] then Fail NoCertificate
         else Ok [(''security'', JStr ''tls''),
                  (''tlsSettings'', jobj
                    ([(''certificates'', JArr [jobj [(''certificate'', pemLines (in_TLSCert i)), (''key'', pemLines (in_TLSKey i))]])] @
                     (if in_TLSSNI i \<noteq> [] then [(''serverName'', JStr (in_TLSSNI i))] else []) @
                     (if network = ''hysteria'' then [(''alpn'', JArr [JStr ''h3''])] else [])))])
      else Ok [])"

definition stream_transport :: "inbound \<Rightarrow> string \<Rightarrow> (string \<times> json) list" where
  "stream_transport i network =
     (if network = ''ws'' then
        [(''wsSettings'', jobj ([(''path'', JStr (orDefault (in_Path i) ''/''))] @
           (if in_Host i \<noteq> [] then [(''headers'', jobj [(''Host'', JStr (in_Host i))])] else [])))]
      else if network = ''httpupgrade'' then
        [(''httpupgradeSettings'', jobj ([(''path'', JStr (orDefault (in_Path i) ''/''))] @
           (if in_Host i \<noteq> [] then [(''host'', JStr (in_Host i))] else [])))]
      else if network = ''xhttp'' then
        [(''xhttpSettings'', jobj ([(''path'', JStr (orDefault (in_Path i) ''/'')), (''mode'', JStr (orDefault (in_XHTTPMode i) ''auto''))] @
           (if in_Host i \<noteq> [] then [(''host'', JStr (in_Host i))] else [])))]
      else if network = ''grpc'' then [(''grpcSettings'', jobj [(''serviceName'', JStr (in_Path i))])]
      else if network = ''hysteria'' then
        [(''hysteriaSettings'', jobj ([(''version'', JNum 2)] @
           (if in_HysteriaAuth i \<noteq> [] then [(''auth'', JStr (in_HysteriaAuth i))] else [])))]
      else [])"

definition buildInboundStream :: "inbound \<Rightarrow> (inbound_error, json) outcome" where
  "buildInboundStream i =
     (let network = (if in_Network i = [] then ''tcp'' else in_Network i)
      in obind (stream_security i network) (\<lambda>sec.
           Ok (jobj ([(''network'', JStr network)] @ sec @ stream_transport i network))))"

definition protocol_settings :: "inbound \<Rightarrow> json option" where
  "protocol_settings i =
     (if in_Protocol i = ''vless'' then Some (jobj [(''clients'', JArr (inboundClients i)), (''decryption'', JStr ''none'')])
      else if in_Protocol i = ''vmess'' \<or> in_Protocol i = ''trojan'' then Some (jobj [(''clients'', JArr (inboundClients i))])
      else if in_Protocol i = ''hysteria'' then Some (jobj [(''version'', JNum 2), (''clients'', JArr (hysteriaUsers i))])
      else None)"

definition socks_settings :: "inbound \<Rightarrow> json" where
  "socks_settings i =
     jobj ([(''udp'', JBool True), (''auth'', JStr (if in_SocksUser i \<noteq> [] then ''password'' else ''noauth''))] @
       (if in_SocksUser i \<noteq> []
        then [(''accounts'', JArr [jobj [(''user'', JStr (in_SocksUser i)), (''pass'', JStr (in_Password i))]])] else []))"

definition buildInbound :: "inbound \<Rightarrow> (inbound_error, object) outcome" where
  "buildInbound i =
     (let base = [(''tag'', JStr (InboundTag (in_Name i))), (''listen'', JStr (if in_Listen i = [] then ''0.0.0.0'' else in_Listen i)),
                  (''protocol'', JStr (in_Protocol i))] @
                 (if IsUnixInbound i then [] else [(''port'', JNum (int (in_Port i)))])
      in if in_Protocol i = ''socks'' then Ok (dict_of (base @ [(''settings'', socks_settings i)]))
         else case protocol_settings i of None \<Rightarrow> Fail (UnsupportedProtocol (in_Protocol i))
              | Some st \<Rightarrow> obind (buildInboundStream i) (\<lambda>ss.
                  Ok (dict_of (base @
                    [(''settings'', st), (''streamSettings'', ss),
                     (''sniffing'', jobj [(''enabled'', JBool True), (''destOverride'', JArr [JStr ''http'', JStr ''tls''])])]))))"

section \<open>Materialize fills in what is missing, once\<close>

text \<open>What the generators promise: their values are not empty.\<close>

definition gen_ok :: "keygen \<Rightarrow> bool" where
  "gen_ok g \<longleftrightarrow> kg_uuid g \<noteq> Some [] \<and> kg_password g \<noteq> Some [] \<and> kg_shortid g 6 \<noteq> Some [] \<and> kg_shortid g 8 \<noteq> Some [] \<and>
     (\<forall>k. kg_reality g = Some k \<longrightarrow> fst k \<noteq> []) \<and> (\<forall>sni k. kg_tls g sni = Some k \<longrightarrow> fst k \<noteq> [] \<and> snd k \<noteq> [])"

definition transport_ok :: "inbound \<Rightarrow> bool" where
  "transport_ok i \<longleftrightarrow> in_Network i \<noteq> [] \<and> in_Listen i \<noteq> [] \<and>
     (in_Network i = ''xhttp'' \<longrightarrow> in_XHTTPMode i \<in> set xhttp_modes) \<and>
     (IsCaddyXHTTP i \<and> in_Path i \<noteq> [] \<longrightarrow> prefix ''/'' (in_Path i) \<and> suffix ''/'' (in_Path i))"

definition credentials_ok :: "inbound \<Rightarrow> bool" where
  "credentials_ok i \<longleftrightarrow>
     (in_Protocol i \<in> {''vless'', ''vmess''} \<longrightarrow> in_UUID i \<noteq> []) \<and>
     (in_Protocol i = ''trojan'' \<longrightarrow> in_Password i \<noteq> []) \<and>
     (in_Protocol i = ''hysteria'' \<longrightarrow> in_HysteriaAuth i \<noteq> []) \<and>
     (in_Protocol i = ''socks'' \<and> \<not> isLoopback (in_Listen i) \<longrightarrow> in_SocksUser i \<noteq> [])"

definition reality_ok :: "inbound \<Rightarrow> bool" where
  "reality_ok i \<longleftrightarrow> (in_Security i = ''reality'' \<longrightarrow>
     in_RealityPrivateKey i \<noteq> [] \<and> in_RealityShortID i \<noteq> [] \<and> in_RealityDest i \<noteq> [] \<and> in_RealitySNI i \<noteq> [])"

definition tls_ok :: "inbound \<Rightarrow> bool" where
  "tls_ok i \<longleftrightarrow> (in_Security i = ''tls'' \<longrightarrow> in_TLSCert i \<noteq> [] \<and> in_TLSKey i \<noteq> [])"

definition inbound_complete :: "inbound \<Rightarrow> bool" where
  "inbound_complete i \<longleftrightarrow> transport_ok i \<and> credentials_ok i \<and> reality_ok i \<and> tls_ok i"

lemma xhttp_modes_ne: "[] \<notin> set xhttp_modes" "''auto'' \<in> set xhttp_modes"
  by (auto simp: xhttp_modes_def)

lemma of_gen_Ok [simp]: "of_gen x = Ok y \<longleftrightarrow> x = Some y"
  by (cases x) (auto simp: of_gen_def)

lemma fill_network_facts [simp]:
  "in_Network (fill_network i) \<noteq> []" "in_Protocol (fill_network i) = in_Protocol i"
  "in_XHTTPMode (fill_network i) = in_XHTTPMode i" "in_Listen (fill_network i) = in_Listen i"
  "in_Path (fill_network i) = in_Path i" "in_Network i \<noteq> [] \<Longrightarrow> fill_network i = i"
  by (simp_all add: fill_network_def)

lemma fill_mode_facts [simp]:
  "in_Network (fill_mode i) = in_Network i" "in_Listen (fill_mode i) = in_Listen i"
  "in_Network i = ''xhttp'' \<Longrightarrow> in_XHTTPMode i \<noteq> [] \<Longrightarrow> fill_mode i = i"
  "in_Network i \<noteq> ''xhttp'' \<Longrightarrow> fill_mode i = i"
  by (simp_all add: fill_mode_def)

lemma fill_listen_facts [simp]:
  "in_Listen (fill_listen i) \<noteq> []" "in_Network (fill_listen i) = in_Network i"
  "in_XHTTPMode (fill_listen i) = in_XHTTPMode i" "in_Listen i \<noteq> [] \<Longrightarrow> fill_listen i = i"
  by (simp_all add: fill_listen_def)

lemma slashed_ends: "prefix ''/'' (slashed p) \<and> suffix ''/'' (slashed p)"
  by (auto simp: slashed_def Let_def suffix_append)

lemma slashed_id: "prefix ''/'' p \<Longrightarrow> suffix ''/'' p \<Longrightarrow> slashed p = p"
  by (simp add: slashed_def)

lemma IsCaddyXHTTP_path [simp]: "IsCaddyXHTTP (i\<lparr>in_Path := p\<rparr>) = IsCaddyXHTTP i"
  by (simp add: IsCaddyXHTTP_def IsUnixInbound_def)

lemma fill_path_facts [simp]:
  "in_Listen (fill_path i) = in_Listen i" "in_Network (fill_path i) = in_Network i"
  "in_XHTTPMode (fill_path i) = in_XHTTPMode i" "IsCaddyXHTTP (fill_path i) = IsCaddyXHTTP i"
  by (simp_all add: fill_path_def)

lemma fill_path_ends: "IsCaddyXHTTP i \<Longrightarrow> in_Path (fill_path i) \<noteq> [] \<Longrightarrow> prefix ''/'' (in_Path (fill_path i)) \<and> suffix ''/'' (in_Path (fill_path i))"
  using slashed_ends [of "in_Path i"] by (simp add: fill_path_def split: if_splits)

lemma mat_transport_ok: "mat_transport i = Ok j \<Longrightarrow> transport_ok j"
  using fill_path_ends [of "fill_listen (fill_mode (fill_network i))"]
  by (auto simp: mat_transport_def transport_ok_def Let_def split: if_splits)

lemma mat_transport_id: "transport_ok i \<Longrightarrow> mat_transport i = Ok i"
proof -
  assume ok: "transport_ok i"
  have "in_Network i = ''xhttp'' \<Longrightarrow> in_XHTTPMode i \<noteq> []" using ok xhttp_modes_ne(1) by (auto simp: transport_ok_def)
  then have "fill_mode i = i" by (simp add: fill_mode_def)
  moreover have "fill_path i = i" using ok by (simp add: transport_ok_def fill_path_def slashed_id)
  ultimately show ?thesis using ok by (simp add: mat_transport_def transport_ok_def)
qed

lemmas same_inbound_defs = transport_ok_def credentials_ok_def reality_ok_def IsCaddyXHTTP_def IsUnixInbound_def

text \<open>The fields that the four stages may not touch.\<close>

definition transport_fields :: "inbound \<Rightarrow> string \<times> string \<times> string \<times> string \<times> string \<times> string" where
  "transport_fields i = (in_Network i, in_Listen i, in_XHTTPMode i, in_Security i, in_Path i, in_Protocol i)"

definition credential_fields :: "inbound \<Rightarrow> string \<times> string \<times> string \<times> string" where
  "credential_fields i = (in_UUID i, in_Password i, in_HysteriaAuth i, in_SocksUser i)"

definition reality_fields :: "inbound \<Rightarrow> string \<times> string \<times> string \<times> string" where
  "reality_fields i = (in_RealityPrivateKey i, in_RealityShortID i, in_RealityDest i, in_RealitySNI i)"

lemmas field_defs = transport_fields_def credential_fields_def reality_fields_def

lemma transport_ok_fields: "transport_fields j = transport_fields i \<Longrightarrow> transport_ok j = transport_ok i"
  by (simp add: transport_fields_def transport_ok_def IsCaddyXHTTP_def IsUnixInbound_def)

lemma credentials_ok_fields:
  "transport_fields j = transport_fields i \<Longrightarrow> credential_fields j = credential_fields i \<Longrightarrow> credentials_ok j = credentials_ok i"
  by (simp add: field_defs credentials_ok_def)

lemma reality_ok_fields:
  "transport_fields j = transport_fields i \<Longrightarrow> reality_fields j = reality_fields i \<Longrightarrow> reality_ok j = reality_ok i"
  by (simp add: field_defs reality_ok_def)

lemma obind_kept: "obind r k = Ok j \<Longrightarrow> (\<And>x. k x = Ok j \<Longrightarrow> h j = h0) \<Longrightarrow> h j = h0"
  by auto

lemma Ok_kept: "Ok i' = Ok j \<Longrightarrow> h i' = h0 \<Longrightarrow> h j = h0"
  by simp

lemma if_kept: "(if P then r else r') = Ok j \<Longrightarrow> (P \<Longrightarrow> r = Ok j \<Longrightarrow> h j = h0) \<Longrightarrow> (\<not> P \<Longrightarrow> r' = Ok j \<Longrightarrow> h j = h0) \<Longrightarrow> h j = h0"
  by (cases P) auto

lemmas kept = obind_kept Ok_kept if_kept

lemma fill_keeps:
  "credential_fields (fill_network i) = credential_fields i" "in_Protocol (fill_network i) = in_Protocol i"
  "credential_fields (fill_mode i) = credential_fields i" "in_Protocol (fill_mode i) = in_Protocol i"
  "credential_fields (fill_listen i) = credential_fields i" "in_Protocol (fill_listen i) = in_Protocol i"
  "credential_fields (fill_path i) = credential_fields i" "in_Protocol (fill_path i) = in_Protocol i"
  by (simp_all add: credential_fields_def fill_network_def fill_mode_def fill_listen_def fill_path_def)

lemma mat_transport_keeps:
  "mat_transport i = Ok j \<Longrightarrow> credential_fields j = credential_fields i \<and> in_Protocol j = in_Protocol i"
  by (simp add: mat_transport_def Let_def fill_keeps split: if_split_asm) (auto simp: fill_keeps)

lemma mat_credentials_keeps: "mat_credentials g i = Ok j \<Longrightarrow> transport_fields j = transport_fields i"
  unfolding mat_credentials_def Let_def by (elim kept; simp add: transport_fields_def)

lemma mat_credentials_ok:
  assumes "gen_ok g" and "mat_credentials g i = Ok j"
  shows "credentials_ok j"
proof -
  consider "in_Protocol i = ''vless'' \<or> in_Protocol i = ''vmess''" | "in_Protocol i = ''trojan''"
    | "in_Protocol i = ''hysteria''" | "in_Protocol i = ''socks''"
    | "in_Protocol i \<notin> {''vless'', ''vmess'', ''trojan'', ''hysteria'', ''socks''}" by blast
  then show ?thesis
  proof cases
    case 1
    with assms show ?thesis
      by (cases "in_UUID i = []") (auto simp: mat_credentials_def credentials_ok_def gen_ok_def)
  next
    case 2
    with assms show ?thesis
      by (cases "in_Password i = []") (auto simp: mat_credentials_def credentials_ok_def gen_ok_def)
  next
    case 3
    with assms show ?thesis
      by (cases "in_HysteriaAuth i = []") (auto simp: mat_credentials_def credentials_ok_def gen_ok_def)
  next
    case 4
    with assms show ?thesis
      by (cases "isLoopback (in_Listen i)"; cases "in_SocksUser i = []"; cases "in_Password i = []")
        (auto simp: mat_credentials_def credentials_ok_def gen_ok_def)
  next
    case 5
    with assms(2) show ?thesis by (simp add: mat_credentials_def credentials_ok_def)
  qed
qed

lemma mat_credentials_id: "credentials_ok i \<Longrightarrow> mat_credentials g i = Ok i"
proof -
  assume ok: "credentials_ok i"
  then have "\<not> (in_Protocol i = ''socks'' \<and> \<not> isLoopback (in_Listen i) \<and> in_SocksUser i = [])"
    by (auto simp: credentials_ok_def)
  then show ?thesis using ok unfolding mat_credentials_def by (simp only: if_False) (simp add: credentials_ok_def)
qed

lemma fill_reality_key_keeps:
  "fill_reality_key g i = Ok j \<Longrightarrow> transport_fields j = transport_fields i"
  "fill_reality_key g i = Ok j \<Longrightarrow> credential_fields j = credential_fields i"
  unfolding fill_reality_key_def by (elim kept; simp add: field_defs)+

lemma fill_short_id_keeps:
  "fill_short_id g i = Ok j \<Longrightarrow> transport_fields j = transport_fields i"
  "fill_short_id g i = Ok j \<Longrightarrow> credential_fields j = credential_fields i"
  "fill_short_id g i = Ok j \<Longrightarrow> in_RealityPrivateKey j = in_RealityPrivateKey i"
  unfolding fill_short_id_def by (elim kept; simp add: field_defs)+

lemma fill_dest_keeps:
  "transport_fields (fill_dest i) = transport_fields i" "credential_fields (fill_dest i) = credential_fields i"
  "in_RealityPrivateKey (fill_dest i) = in_RealityPrivateKey i" "in_RealityShortID (fill_dest i) = in_RealityShortID i"
  "in_RealityDest (fill_dest i) \<noteq> []" "in_RealitySNI (fill_dest i) \<noteq> []"
  by (simp_all add: fill_dest_def field_defs ms_dest_def ms_sni_def Let_def)

lemma fill_reality_key_ne: "gen_ok g \<Longrightarrow> fill_reality_key g i = Ok j \<Longrightarrow> in_RealityPrivateKey j \<noteq> []"
  by (cases "in_RealityPrivateKey i = []") (auto simp: fill_reality_key_def gen_ok_def)

lemma fill_short_id_ne: "gen_ok g \<Longrightarrow> fill_short_id g i = Ok j \<Longrightarrow> in_RealityShortID j \<noteq> []"
  by (cases "in_RealityShortID i = []") (auto simp: fill_short_id_def gen_ok_def)

lemma mat_reality_stages:
  assumes "mat_reality g i = Ok j"
  shows "j = i \<and> in_Security i \<noteq> ''reality'' \<or>
    (\<exists>i1 i2. fill_reality_key g i = Ok i1 \<and> fill_short_id g i1 = Ok i2 \<and> j = fill_dest i2)"
  using assms by (cases "in_Security i = ''reality''") (auto simp: mat_reality_def)

lemma mat_reality_keeps:
  assumes "mat_reality g i = Ok j"
  shows "transport_fields j = transport_fields i \<and> credential_fields j = credential_fields i"
  using mat_reality_stages [OF assms]
  by (elim disjE exE conjE) (simp_all add: fill_dest_keeps fill_reality_key_keeps [symmetric] fill_short_id_keeps [symmetric])

lemma mat_reality_ok:
  assumes "gen_ok g" and "mat_reality g i = Ok j"
  shows "reality_ok j"
  using mat_reality_stages [OF assms(2)]
proof (elim disjE exE conjE)
  fix i1 i2
  assume s: "fill_reality_key g i = Ok i1" "fill_short_id g i1 = Ok i2" "j = fill_dest i2"
  show ?thesis
    using fill_reality_key_ne [OF assms(1) s(1)] fill_short_id_ne [OF assms(1) s(2)] fill_short_id_keeps(3) [OF s(2)]
    by (simp add: reality_ok_def s(3) fill_dest_keeps)
qed (simp add: reality_ok_def)

lemma mat_reality_id: "reality_ok i \<Longrightarrow> mat_reality g i = Ok i"
  by (simp add: mat_reality_def reality_ok_def fill_reality_key_def fill_short_id_def fill_dest_def)

lemma mat_tls_ok: "gen_ok g \<Longrightarrow> mat_tls g i = Ok j \<Longrightarrow> tls_ok j"
  by (cases "in_Security i = ''tls'' \<and> (in_TLSCert i = [] \<or> in_TLSKey i = [])")
    (auto simp: mat_tls_def tls_ok_def gen_ok_def)

lemma mat_tls_id: "tls_ok i \<Longrightarrow> mat_tls g i = Ok i"
  unfolding mat_tls_def tls_ok_def by (cases "in_Security i = ''tls''") simp_all

lemma mat_tls_keeps:
  "mat_tls g i = Ok j \<Longrightarrow> transport_fields j = transport_fields i"
  "mat_tls g i = Ok j \<Longrightarrow> credential_fields j = credential_fields i"
  "mat_tls g i = Ok j \<Longrightarrow> reality_fields j = reality_fields i"
  unfolding mat_tls_def by (elim kept; simp add: field_defs)+

lemma Materialize_complete:
  assumes "gen_ok g" and "Materialize g i = Ok j"
  shows "inbound_complete j"
proof -
  obtain a b c where s: "mat_transport i = Ok a" "mat_credentials g a = Ok b" "mat_reality g b = Ok c" "mat_tls g c = Ok j"
    using assms(2) by (auto simp: Materialize_def)
  have "transport_fields j = transport_fields a" "transport_fields j = transport_fields b" "transport_fields j = transport_fields c"
    using mat_credentials_keeps [OF s(2)] mat_reality_keeps [OF s(3)] mat_tls_keeps(1) [OF s(4)] by simp_all
  moreover have "credential_fields j = credential_fields b"
    using mat_reality_keeps [OF s(3)] mat_tls_keeps(2) [OF s(4)] by simp
  ultimately show ?thesis
    using mat_transport_ok [OF s(1)] mat_credentials_ok [OF assms(1) s(2)] mat_reality_ok [OF assms(1) s(3)]
      mat_tls_ok [OF assms(1) s(4)] mat_tls_keeps(3) [OF s(4)]
    by (metis inbound_complete_def transport_ok_fields credentials_ok_fields reality_ok_fields)
qed

lemma Materialize_id: "inbound_complete i \<Longrightarrow> Materialize g i = Ok i"
  by (simp add: Materialize_def inbound_complete_def mat_transport_id mat_credentials_id mat_reality_id mat_tls_id)

text \<open>A complete inbound of a supported protocol always builds.\<close>

definition supported_protocols :: "string list" where
  "supported_protocols = [''socks'', ''vless'', ''vmess'', ''trojan'', ''hysteria'']"

lemma buildInbound_total:
  "inbound_complete i \<Longrightarrow> in_Protocol i \<in> set supported_protocols \<Longrightarrow> \<exists>d. buildInbound i = Ok d"
  by (auto simp: buildInbound_def buildInboundStream_def stream_security_def inbound_complete_def reality_ok_def
      tls_ok_def supported_protocols_def protocol_settings_def Let_def)

lemma dict_of_append_tag:
  "map_of (dict_of ((k, v) # kvs)) k = (case map_of (rev kvs) k of None \<Rightarrow> Some v | Some w \<Rightarrow> Some w)"
  by (simp add: map_of_dict_of map_add_def split: option.splits)

lemma buildInbound_tag: "buildInbound i = Ok d \<Longrightarrow> map_of d ''tag'' = Some (JStr (InboundTag (in_Name i)))"
  by (auto simp: buildInbound_def Let_def map_of_dict_of split: if_splits option.splits)

text \<open>A socks listener is open without a password only on loopback.\<close>

lemma socks_auth:
  "buildInbound i = Ok d \<Longrightarrow> in_Protocol i = ''socks'' \<Longrightarrow>
     str_at (obj_or_nil d ''settings'') ''auth'' = (if in_SocksUser i = [] then ''noauth'' else ''password'')"
  by (auto simp: buildInbound_def Let_def socks_settings_def map_of_dict_of obj_or_nil_def obj_at_def str_at_def)

end
