(* ===== verification/Config_Gen.thy ===== *)
theory Config_Gen
  imports Slots Inbounds
begin

text \<open>
  \<^verbatim>\<open>Generate\<close> of \<^verbatim>\<open>core/xray/config.go\<close>: the whole xray configuration from the
  enabled entries, the listeners and the resolved slots, built in the order the code builds it. The
  configuration is the JSON object; its text is the object's rendering with sorted keys.
\<close>

record gen_options =
  o_AccessLog :: string
  o_ErrorLog :: string
  o_LogLevel :: string
  o_ProbeInterval :: string
  o_ProbeURL :: string
  o_DialerSource :: bool

datatype gen_error =
    EntryFailed string outbound_error | InboundFailed string inbound_error
  | NoOutbound string string | MemberFailed string outbound_error

definition lift_fail :: "('e \<Rightarrow> 'f) \<Rightarrow> ('e, 'a) outcome \<Rightarrow> ('f, 'a) outcome" where
  "lift_fail h r = (case r of Ok x \<Rightarrow> Ok x | Fail e \<Rightarrow> Fail (h e) | Panic \<Rightarrow> Panic)"

lemma lift_fail_Ok [simp]: "lift_fail h r = Ok x \<longleftrightarrow> r = Ok x"
  by (cases r) (auto simp: lift_fail_def)

definition DefaultProbeURL :: string where "DefaultProbeURL = ''https://www.gstatic.com/generate_204''"
definition DefaultProbeInterval :: string where "DefaultProbeInterval = ''10s''"
definition DefaultPingTimeout :: string where "DefaultPingTimeout = ''5s''"
definition ObservatorySelectorPrefix :: string where "ObservatorySelectorPrefix = ''slot''"

section \<open>Outbounds\<close>

definition blackhole :: "string \<Rightarrow> object" where
  "blackhole tag = dict_of [(''tag'', JStr tag), (''protocol'', JStr ''blackhole'')]"

definition base_outbounds :: "object list" where
  "base_outbounds = [blackhole ''block'', dict_of [(''tag'', JStr ''direct''), (''protocol'', JStr ''freedom'')]]"

definition entry_wired :: "(string, nat) dict \<Rightarrow> xray_entry \<Rightarrow> object \<Rightarrow> object" where
  "entry_wired slotIdx e ob =
     (if IsMaster e \<and> CheckMasterOutbound (e_Outbound e) \<noteq> None then blackhole (OutboundTag (e_Name e))
      else if map_of slotIdx (e_Name e) \<noteq> None then setDialerProxy ob (DialerTag (e_Name e))
      else if IsMaster e then setDialerProxy ob ''block''
      else ob)"

definition gen_entry :: "(string, nat) dict \<Rightarrow> xray_entry \<Rightarrow> (gen_error, object) outcome" where
  "gen_entry slotIdx e =
     obind (lift_fail (EntryFailed (e_Name e)) (entryOutbound (e_Outbound e) (OutboundTag (e_Name e))))
       (\<lambda>ob. Ok (entry_wired slotIdx e (if e_Mux e then applyMux ob else ob)))"

definition iface_targets :: "inbound list \<Rightarrow> string list" where
  "iface_targets ins = concat (map (\<lambda>i. case ParseTarget (in_Target i) of
     Inr (k, n) \<Rightarrow> if k = KindIface then [n] else [] | Inl _ \<Rightarrow> []) (filter in_Enabled ins))"

definition iface_outbound :: "string \<Rightarrow> object" where
  "iface_outbound name = dict_of
     [(''tag'', JStr (IfaceTag name)), (''protocol'', JStr ''freedom''),
      (''streamSettings'', jobj [(''sockopt'', jobj [(''interface'', JStr name)])])]"

definition outboundTagFor :: "string \<Rightarrow> target_error + string" where
  "outboundTagFor target =
     (case ParseTarget target of Inl e \<Rightarrow> Inl e
      | Inr (kind, name) \<Rightarrow>
          if kind = TargetDirect then Inr ''direct''
          else if kind = KindXray \<or> kind = KindMaster then Inr (OutboundTag name)
          else if kind = KindIface then Inr (IfaceTag name)
          else Inl (UnknownTargetKind kind))"

section \<open>Listeners\<close>

definition field_rule :: "string \<Rightarrow> string \<Rightarrow> object" where
  "field_rule inTag outTag = dict_of
     [(''type'', JStr ''field''), (''inboundTag'', JArr [JStr inTag]), (''outboundTag'', JStr outTag)]"

definition gen_inbound :: "string list \<Rightarrow> inbound \<Rightarrow> (gen_error, object \<times> object) outcome" where
  "gen_inbound haveOut i =
     obind (lift_fail (InboundFailed (in_Name i)) (buildInbound i)) (\<lambda>ib.
       case outboundTagFor (in_Target i) of Inl e \<Rightarrow> Fail (InboundFailed (in_Name i) (TargetError e))
       | Inr outTag \<Rightarrow>
           if outTag \<notin> set haveOut then Fail (NoOutbound (in_Name i) (in_Target i))
           else Ok (ib, field_rule (InboundTag (in_Name i)) outTag))"

definition api_inbound :: object where
  "api_inbound = dict_of
     [(''tag'', JStr ApiTag), (''listen'', JStr ''127.0.0.1''), (''port'', JNum (int ApiPort)),
      (''protocol'', JStr ''dokodemo-door''), (''settings'', jobj [(''address'', JStr ''127.0.0.1'')])]"

section \<open>Slots\<close>

definition slot_inbound :: "slot \<Rightarrow> object" where
  "slot_inbound s = dict_of
     [(''tag'', JStr (SlotInTag (s_Index s))), (''listen'', JStr ''127.0.0.1''),
      (''port'', JNum (int (SlotPort (s_Index s)))), (''protocol'', JStr ''vless''),
      (''settings'', jobj [(''decryption'', JStr ''none''),
         (''clients'', JArr (map (\<lambda>m. jobj [(''id'', JStr (DialerUUID m)), (''email'', JStr (DialerEmail m))]) (SlotMasters s)))])]"

definition dialer_outbound :: "gen_options \<Rightarrow> nat \<Rightarrow> string \<Rightarrow> object" where
  "dialer_outbound opts idx master = dict_of
     ([(''tag'', JStr (DialerTag master)), (''protocol'', JStr ''vless''),
       (''settings'', jobj [(''vnext'', JArr [jobj
          [(''address'', JStr ''127.0.0.1''), (''port'', JNum (int (SlotPort idx))),
           (''users'', JArr [jobj [(''id'', JStr (DialerUUID master)), (''encryption'', JStr ''none'')]])]])])] @
      (if o_DialerSource opts then [(''sendThrough'', JStr (DialerSourceAddr master))] else []))"

definition loaded_members :: "slot \<Rightarrow> slot_member list" where
  "loaded_members s = filter (\<lambda>m. CheckMemberOutbound (m_Outbound m) = None) (s_Members s)"

definition gen_member :: "slot \<Rightarrow> slot_member \<Rightarrow> (gen_error, object) outcome" where
  "gen_member s m = lift_fail (MemberFailed (s_Master s)) (MemberOutboundJSON (s_Index s) m)"

definition first_member_tag :: "slot \<Rightarrow> string" where
  "first_member_tag s = (case loaded_members s of [] \<Rightarrow> [] | m # _ \<Rightarrow> SlotMemberTag (s_Index s) (m_Key m))"

record balancer =
  b_Tag :: string
  b_Selector :: "string list"
  b_Random :: bool
  b_Fallback :: string

definition slotBalancer :: "nat \<Rightarrow> string \<Rightarrow> master_pick \<Rightarrow> string list \<Rightarrow> string \<Rightarrow> balancer" where
  "slotBalancer idx master pick loaded first =
     (let picked = map (SlotMemberTag idx) (filter (\<lambda>k. k \<in> set loaded) (p_Picked pick));
          active = activeCount (p_Active pick) picked
      in if picked = [] then
           \<lparr>b_Tag = SlotBalTag idx master, b_Selector = [SlotOutPrefix idx], b_Random = False,
            b_Fallback = (if first = [] then ''block'' else first)\<rparr>
         else
           \<lparr>b_Tag = SlotBalTag idx master, b_Selector = take active picked, b_Random = True,
            b_Fallback = (if length picked > active then picked ! active else hd picked)\<rparr>)"

definition balancer_json :: "balancer \<Rightarrow> json" where
  "balancer_json b = jobj
     [(''tag'', JStr (b_Tag b)), (''selector'', JArr (map JStr (b_Selector b))),
      (''strategy'', if b_Random b then jobj [(''type'', JStr ''random'')]
         else jobj [(''type'', JStr ''leastLoad''), (''settings'', jobj [(''expected'', JNum (int SlotBalancerExpected))])]),
      (''fallbackTag'', JStr (b_Fallback b))]"

definition balancer_of :: "slot \<Rightarrow> string \<Rightarrow> balancer" where
  "balancer_of s master =
     slotBalancer (s_Index s) master (PickOf s master) (map m_Key (loaded_members s)) (first_member_tag s)"

definition slot_rule :: "slot \<Rightarrow> string \<Rightarrow> object" where
  "slot_rule s master = dict_of
     [(''type'', JStr ''field''), (''inboundTag'', JArr [JStr (SlotInTag (s_Index s))]),
      (''user'', JArr [JStr (DialerEmail master)]), (''balancerTag'', JStr (SlotBalTag (s_Index s) master))]"

definition gen_slot :: "gen_options \<Rightarrow> slot \<Rightarrow> (gen_error, object list) outcome" where
  "gen_slot opts s =
     obind (omap (gen_member s) (loaded_members s)) (\<lambda>ms.
       Ok (map (dialer_outbound opts (s_Index s)) (SlotMasters s) @ ms))"

section \<open>The configuration\<close>

record config =
  c_log :: object
  c_inbounds :: "object list"
  c_outbounds :: "object list"
  c_rules :: "object list"
  c_balancers :: "balancer list"
  c_ping :: object

definition gen_log :: "gen_options \<Rightarrow> object" where
  "gen_log opts = dict_of
     [(''access'', JStr (o_AccessLog opts)), (''error'', JStr (o_ErrorLog opts)),
      (''loglevel'', JStr (orDefault (o_LogLevel opts) ''warning''))]"

definition gen_ping :: "gen_options \<Rightarrow> object" where
  "gen_ping opts = dict_of
     [(''destination'', JStr (orDefault (o_ProbeURL opts) DefaultProbeURL)),
      (''interval'', JStr (orDefault (o_ProbeInterval opts) DefaultProbeInterval)),
      (''sampling'', JNum 2), (''timeout'', JStr DefaultPingTimeout)]"

definition listening :: "inbound \<Rightarrow> bool" where
  "listening i \<longleftrightarrow> in_Enabled i \<and> \<not> (in_Port i = 0 \<and> \<not> IsUnixInbound i)"

definition entry_tags :: "xray_entry list \<Rightarrow> string list" where
  "entry_tags ents = map (\<lambda>e. OutboundTag (e_Name e)) (filter e_Enabled ents)"

definition build_config ::
  "xray_entry list \<Rightarrow> inbound list \<Rightarrow> slot list \<Rightarrow> gen_options \<Rightarrow> (gen_error, config) outcome" where
  "build_config ents ins sl opts =
     (let slotIdx = SlotIndexByName sl;
          have0 = [''direct'', ''block''] @ entry_tags ents;
          ifaces = keep_first IfaceTag have0 (iface_targets ins);
          haveOut = have0 @ map IfaceTag ifaces
      in obind (omap (gen_entry slotIdx) (filter e_Enabled ents)) (\<lambda>entry_obs.
         obind (omap (gen_inbound haveOut) (filter listening ins)) (\<lambda>irs.
         obind (omap (gen_slot opts) sl) (\<lambda>slot_obs.
         Ok \<lparr>c_log = gen_log opts,
             c_inbounds = map fst irs @ [api_inbound] @ map slot_inbound sl,
             c_outbounds = base_outbounds @ entry_obs @ map iface_outbound ifaces @ concat slot_obs,
             c_rules = [field_rule ApiTag ApiTag] @ map snd irs @
                       concat (map (\<lambda>s. map (slot_rule s) (SlotMasters s)) sl),
             c_balancers = concat (map (\<lambda>s. map (balancer_of s) (SlotMasters s)) sl),
             c_ping = gen_ping opts\<rparr>))))"

definition gen_config ::
  "xray_entry list \<Rightarrow> inbound list \<Rightarrow> slot list \<Rightarrow> gen_options \<Rightarrow> (gen_error, config) outcome" where
  "gen_config entries inbounds slots opts =
     build_config (go_sort (\<lambda>a b. e_Name a < e_Name b) entries)
       (go_sort (\<lambda>a b. in_Name a < in_Name b) inbounds)
       (go_sort (\<lambda>a b. s_Index a < s_Index b) slots) opts"

definition policy_json :: json where
  "policy_json = jobj
     [(''system'', jobj [(''statsInboundUplink'', JBool True), (''statsInboundDownlink'', JBool True),
         (''statsOutboundUplink'', JBool True), (''statsOutboundDownlink'', JBool True)]),
      (''levels'', jobj [(''0'', jobj [(''statsUserUplink'', JBool True), (''statsUserDownlink'', JBool True),
         (''handshake'', JNum 8), (''connIdle'', JNum 1800), (''uplinkOnly'', JNum 2), (''downlinkOnly'', JNum 5)])])]"

definition config_json :: "config \<Rightarrow> object" where
  "config_json c = dict_of
     [(''log'', JObj (c_log c)), (''stats'', jobj []),
      (''metrics'', jobj [(''tag'', JStr MetricsTag), (''listen'', JStr (''127.0.0.1:'' @ nat_str MetricsPort))]),
      (''policy'', policy_json),
      (''burstObservatory'', jobj [(''subjectSelector'', JArr [JStr ObservatorySelectorPrefix]), (''pingConfig'', JObj (c_ping c))]),
      (''api'', jobj [(''tag'', JStr ApiTag), (''services'', JArr (map JStr
         [''HandlerService'', ''RoutingService'', ''StatsService'', ''ObservatoryService'']))]),
      (''inbounds'', JArr (map JObj (c_inbounds c))), (''outbounds'', JArr (map JObj (c_outbounds c))),
      (''routing'', jobj ([(''rules'', JArr (map JObj (c_rules c)))] @
         (if c_balancers c \<noteq> [] then [(''balancers'', JArr (map balancer_json (c_balancers c)))] else [])))]"

definition Generate ::
  "xray_entry list \<Rightarrow> inbound list \<Rightarrow> slot list \<Rightarrow> gen_options \<Rightarrow> (gen_error, object) outcome" where
  "Generate entries inbounds slots opts = obind (gen_config entries inbounds slots opts) (\<lambda>c. Ok (config_json c))"

definition ob_tag :: "object \<Rightarrow> string" where
  "ob_tag ob = str_at ob ''tag''"

definition out_tags :: "config \<Rightarrow> string set" where
  "out_tags c = ob_tag ` set (c_outbounds c)"

section \<open>The parts of a generated configuration\<close>

lemma ob_tag_eq: "map_of ob ''tag'' = Some (JStr t) \<Longrightarrow> ob_tag ob = t"
  by (simp add: ob_tag_def str_at_def)

lemma blackhole_tag [simp]: "map_of (blackhole t) ''tag'' = Some (JStr t)"
  by (simp add: blackhole_def map_of_dict_of)

lemma blackhole_protocol [simp]: "str_at (blackhole t) ''protocol'' = ''blackhole''"
  by (simp add: blackhole_def map_of_dict_of str_at_def)

lemma iface_outbound_tag: "ob_tag (iface_outbound n) = IfaceTag n"
  by (simp add: iface_outbound_def map_of_dict_of ob_tag_def str_at_def)

lemma dialer_outbound_tag: "ob_tag (dialer_outbound opts idx m) = DialerTag m"
  by (simp add: dialer_outbound_def map_of_dict_of ob_tag_def str_at_def)

lemma entry_wired_tag: "map_of ob ''tag'' = Some (JStr (OutboundTag (e_Name e))) \<Longrightarrow> map_of (entry_wired idx e ob) ''tag'' = Some (JStr (OutboundTag (e_Name e)))"
  by (simp add: entry_wired_def)

lemma gen_entry_tag: "gen_entry idx e = Ok ob \<Longrightarrow> ob_tag ob = OutboundTag (e_Name e)"
  by (auto simp: gen_entry_def intro!: ob_tag_eq entry_wired_tag dest: entryOutbound_tag)

lemma gen_member_tag: "gen_member s m = Ok ob \<Longrightarrow> ob_tag ob = SlotMemberTag (s_Index s) (m_Key m)"
  by (auto simp: gen_member_def intro!: ob_tag_eq dest: MemberOutboundJSON_tag)

text \<open>Inversion of the whole builder, used by every property.\<close>

lemma build_config_Ok:
  assumes "build_config ents ins sl opts = Ok c"
  obtains eobs irs sobs ifaces haveOut where
    "haveOut = [''direct'', ''block''] @ entry_tags ents @ map IfaceTag ifaces"
    "ifaces = keep_first IfaceTag ([''direct'', ''block''] @ entry_tags ents) (iface_targets ins)"
    "omap (gen_entry (SlotIndexByName sl)) (filter e_Enabled ents) = Ok eobs"
    "omap (gen_inbound haveOut) (filter listening ins) = Ok irs"
    "omap (gen_slot opts) sl = Ok sobs"
    "c_log c = gen_log opts" "c_ping c = gen_ping opts"
    "c_inbounds c = map fst irs @ [api_inbound] @ map slot_inbound sl"
    "c_outbounds c = base_outbounds @ eobs @ map iface_outbound ifaces @ concat sobs"
    "c_rules c = [field_rule ApiTag ApiTag] @ map snd irs @ concat (map (\<lambda>s. map (slot_rule s) (SlotMasters s)) sl)"
    "c_balancers c = concat (map (\<lambda>s. map (balancer_of s) (SlotMasters s)) sl)"
  using assms by (auto simp: build_config_def Let_def)

lemma gen_entries_tags:
  "omap (gen_entry idx) es = Ok obs \<Longrightarrow> map ob_tag obs = map (\<lambda>e. OutboundTag (e_Name e)) es"
  by (induction es arbitrary: obs) (auto dest: gen_entry_tag)

lemma gen_slot_tags:
  assumes "gen_slot opts s = Ok obs"
  shows "ob_tag ` set obs = DialerTag ` set (SlotMasters s) \<union> (\<lambda>m. SlotMemberTag (s_Index s) (m_Key m)) ` set (loaded_members s)"
proof -
  obtain ms where ms: "omap (gen_member s) (loaded_members s) = Ok ms"
    "obs = map (dialer_outbound opts (s_Index s)) (SlotMasters s) @ ms"
    using assms by (auto simp: gen_slot_def)
  have "omap (gen_member s) xs = Ok ys \<Longrightarrow> map ob_tag ys = map (\<lambda>m. SlotMemberTag (s_Index s) (m_Key m)) xs" for xs ys
    by (induction xs arbitrary: ys) (auto dest: gen_member_tag)
  from this [OF ms(1)] have "ob_tag ` set ms = (\<lambda>m. SlotMemberTag (s_Index s) (m_Key m)) ` set (loaded_members s)"
    by (metis image_set)
  then show ?thesis by (auto simp: ms(2) dialer_outbound_tag image_Un image_image)
qed

lemma gen_slots_tags:
  "omap (gen_slot opts) sl = Ok sobs \<Longrightarrow>
     ob_tag ` set (concat sobs) = (\<Union>s \<in> set sl. DialerTag ` set (SlotMasters s) \<union> (\<lambda>m. SlotMemberTag (s_Index s) (m_Key m)) ` set (loaded_members s))"
proof (induction sl arbitrary: sobs)
  case (Cons s sl)
  then obtain obs rest where r: "gen_slot opts s = Ok obs" "omap (gen_slot opts) sl = Ok rest" "sobs = obs # rest" by auto
  show ?case by (simp only: r(3) concat.simps set_append image_Un gen_slot_tags [OF r(1)] Cons.IH [OF r(2)] list.set(2) UN_insert)
qed simp

text \<open>Every tag an outbound can have.\<close>

lemma build_config_tags:
  assumes "build_config ents ins sl opts = Ok c"
  shows "out_tags c = {''block'', ''direct''} \<union> set (entry_tags ents) \<union> IfaceTag ` set (iface_targets ins) \<union>
     (\<Union>s \<in> set sl. DialerTag ` set (SlotMasters s) \<union> (\<lambda>m. SlotMemberTag (s_Index s) (m_Key m)) ` set (loaded_members s))"
proof -
  from assms obtain eobs irs sobs ifaces haveOut where c:
    "ifaces = keep_first IfaceTag ([''direct'', ''block''] @ entry_tags ents) (iface_targets ins)"
    "omap (gen_entry (SlotIndexByName sl)) (filter e_Enabled ents) = Ok eobs"
    "omap (gen_slot opts) sl = Ok sobs"
    "c_outbounds c = base_outbounds @ eobs @ map iface_outbound ifaces @ concat sobs"
    by (rule build_config_Ok)
  have 1: "ob_tag ` set base_outbounds = {''block'', ''direct''}"
    by (auto simp: base_outbounds_def ob_tag_def str_at_def map_of_dict_of blackhole_def)
  have 2: "ob_tag ` set eobs = set (entry_tags ents)"
    using gen_entries_tags [OF c(2)] unfolding entry_tags_def by (metis image_set)
  have 3: "ob_tag ` set (map iface_outbound ifaces) = IfaceTag ` set ifaces"
    by (auto simp: iface_outbound_tag image_image)
  have 4: "IfaceTag ` set ifaces = IfaceTag ` set (iface_targets ins) - set ([''direct'', ''block''] @ entry_tags ents)"
    unfolding c(1) by (rule keep_first_set)
  show ?thesis
    unfolding out_tags_def c(4) set_append image_Un 1 2 3 4 gen_slots_tags [OF c(3)] by auto
qed

end
