(* ===== verification/Config_Props.thy ===== *)
theory Config_Props
  imports Config_Gen
begin

text \<open>
  What \<^verbatim>\<open>Generate\<close> guarantees: routing misses fail closed, no tag dangles, a master's
  own server is reached only through its pool, a balancer routes only through loaded members that
  tunnel, the order of the inputs does not matter, and which inputs make it panic.
\<close>

section \<open>Tags of different kinds never meet\<close>

lemma tag_kinds [simp]:
  "OutboundTag a \<noteq> IfaceTag b" "OutboundTag a \<noteq> DialerTag b" "OutboundTag a \<noteq> SlotMemberTag i k"
  "OutboundTag a \<noteq> ''block''" "OutboundTag a \<noteq> ''direct''"
  by (simp_all add: tag_defs)

lemma gen_config_build:
  assumes "gen_config es ins sl opts = Ok c"
  obtains es' ins' sl' where "build_config es' ins' sl' opts = Ok c" "set es' = set es" "set ins' = set ins" "set sl' = set sl"
  using assms unfolding gen_config_def by (rule that) simp_all

section \<open>Masters\<close>

lemma entry_wired_master:
  "IsMaster e \<Longrightarrow> str_at (entry_wired idx e ob) ''protocol'' = ''blackhole'' \<or>
     dialerProxy_of (entry_wired idx e ob) = Some (JStr ''block'') \<or>
     dialerProxy_of (entry_wired idx e ob) = Some (JStr (DialerTag (e_Name e))) \<and> map_of idx (e_Name e) \<noteq> None"
  by (simp add: entry_wired_def)

lemma gen_entry_master:
  "gen_entry idx e = Ok ob \<Longrightarrow> IsMaster e \<Longrightarrow> str_at ob ''protocol'' = ''blackhole'' \<or>
     dialerProxy_of ob = Some (JStr ''block'') \<or>
     dialerProxy_of ob = Some (JStr (DialerTag (e_Name e))) \<and> map_of idx (e_Name e) \<noteq> None"
  using entry_wired_master by (auto simp: gen_entry_def)

text \<open>The outbounds with an entry's tag are the ones made from an entry of that tag.\<close>

lemma outbound_of_entry:
  assumes "build_config ents ins sl opts = Ok c" and "ob \<in> set (c_outbounds c)" and "ob_tag ob = OutboundTag n"
  shows "\<exists>e \<in> set ents. e_Enabled e \<and> OutboundTag (e_Name e) = OutboundTag n \<and> gen_entry (SlotIndexByName sl) e = Ok ob"
proof -
  from assms(1) obtain eobs irs sobs ifaces haveOut where c:
    "omap (gen_entry (SlotIndexByName sl)) (filter e_Enabled ents) = Ok eobs"
    "omap (gen_slot opts) sl = Ok sobs"
    "c_outbounds c = base_outbounds @ eobs @ map iface_outbound ifaces @ concat sobs"
    by (rule build_config_Ok)
  have "ob \<notin> set base_outbounds"
    using assms(3) by (auto simp: base_outbounds_def ob_tag_def str_at_def map_of_dict_of blackhole_def tag_defs)
  moreover have "ob \<notin> set (map iface_outbound ifaces)"
    using assms(3) tag_kinds(1) by (metis ex_map_conv iface_outbound_tag)
  moreover have "ob \<notin> set (concat sobs)"
  proof
    assume "ob \<in> set (concat sobs)"
    then have "OutboundTag n \<in> ob_tag ` set (concat sobs)" using assms(3) by force
    then show False unfolding gen_slots_tags [OF c(2)] by (auto dest: sym)
  qed
  ultimately have "ob \<in> set eobs" using assms(2) c(3) by auto
  from omap_Ok_set [OF c(1) this] show ?thesis using gen_entry_tag assms(3) by fastforce
qed

lemma entry_has_outbound:
  assumes "build_config ents ins sl opts = Ok c" and "e \<in> set ents" and "e_Enabled e"
  shows "\<exists>ob \<in> set (c_outbounds c). ob_tag ob = OutboundTag (e_Name e) \<and> gen_entry (SlotIndexByName sl) e = Ok ob"
proof -
  from assms(1) obtain eobs irs sobs ifaces haveOut where c:
    "omap (gen_entry (SlotIndexByName sl)) (filter e_Enabled ents) = Ok eobs"
    "c_outbounds c = base_outbounds @ eobs @ map iface_outbound ifaces @ concat sobs"
    by (rule build_config_Ok)
  from omap_Ok_in [OF c(1), of e] assms(2,3) obtain ob where "ob \<in> set eobs" "gen_entry (SlotIndexByName sl) e = Ok ob" by auto
  with c(2) show ?thesis using gen_entry_tag by fastforce
qed

lemma dialer_tag_present:
  "build_config ents ins sl opts = Ok c \<Longrightarrow> map_of (SlotIndexByName sl) m \<noteq> None \<Longrightarrow> DialerTag m \<in> out_tags c"
  using build_config_tags SlotIndexByName_dom by fastforce

text \<open>The wiring of a master's outbound, in the words of the specification.\<close>

definition tunnelled_by :: "config \<Rightarrow> string \<Rightarrow> object \<Rightarrow> bool" where
  "tunnelled_by c master ob \<longleftrightarrow>
     str_at ob ''protocol'' = ''blackhole'' \<or> dialerProxy_of ob = Some (JStr ''block'') \<or>
     dialerProxy_of ob = Some (JStr (DialerTag master)) \<and> DialerTag master \<in> out_tags c"

lemma gen_entry_tunnelled:
  "build_config ents ins sl opts = Ok c \<Longrightarrow> gen_entry (SlotIndexByName sl) e = Ok ob \<Longrightarrow> IsMaster e \<Longrightarrow> tunnelled_by c (e_Name e) ob"
  using gen_entry_master dialer_tag_present unfolding tunnelled_by_def by blast

section \<open>Rules and balancers\<close>

lemma rule_shapes:
  "map_of (field_rule a b) ''outboundTag'' = Some (JStr b)" "map_of (field_rule a b) ''balancerTag'' = None"
  "map_of (slot_rule s m) ''outboundTag'' = None" "map_of (slot_rule s m) ''balancerTag'' = Some (JStr (SlotBalTag (s_Index s) m))"
  by (simp_all add: field_rule_def slot_rule_def map_of_dict_of)

lemma gen_inbound_rule:
  "gen_inbound haveOut i = Ok (ib, r) \<Longrightarrow> \<exists>t \<in> set haveOut. r = field_rule (InboundTag (in_Name i)) t"
  by (cases "outboundTagFor (in_Target i)") (auto simp: gen_inbound_def split: if_split_asm)

text \<open>A balancer of a slot: what it selects and where it falls back.\<close>

lemma picked_tags:
  "t \<in> set (map (SlotMemberTag i) (filter (\<lambda>k. k \<in> set (map m_Key ms)) ks)) \<Longrightarrow> \<exists>m \<in> set ms. m_Key m \<in> set ks \<and> t = SlotMemberTag i (m_Key m)"
  by auto

lemma balancer_of_members:
  shows "b_Random (balancer_of s master) \<Longrightarrow> t \<in> set (b_Selector (balancer_of s master)) \<Longrightarrow>
      \<exists>m \<in> set (loaded_members s). t = SlotMemberTag (s_Index s) (m_Key m)"
    and "\<not> b_Random (balancer_of s master) \<Longrightarrow> b_Selector (balancer_of s master) = [SlotOutPrefix (s_Index s)]"
    and "b_Fallback (balancer_of s master) = (if loaded_members s = [] then ''block'' else b_Fallback (balancer_of s master))"
    and "loaded_members s \<noteq> [] \<Longrightarrow> \<exists>m \<in> set (loaded_members s). b_Fallback (balancer_of s master) = SlotMemberTag (s_Index s) (m_Key m)"
proof -
  let ?p = "map (SlotMemberTag (s_Index s)) (filter (\<lambda>k. k \<in> set (map m_Key (loaded_members s))) (p_Picked (PickOf s master)))"
  let ?a = "activeCount (p_Active (PickOf s master)) ?p"
  note b = balancer_of_def slotBalancer_def Let_def
  show "b_Random (balancer_of s master) \<Longrightarrow> t \<in> set (b_Selector (balancer_of s master)) \<Longrightarrow>
      \<exists>m \<in> set (loaded_members s). t = SlotMemberTag (s_Index s) (m_Key m)"
    by (auto simp: b split: if_splits dest!: in_set_takeD)
  show "\<not> b_Random (balancer_of s master) \<Longrightarrow> b_Selector (balancer_of s master) = [SlotOutPrefix (s_Index s)]"
    by (auto simp: b split: if_splits)
  show "b_Fallback (balancer_of s master) = (if loaded_members s = [] then ''block'' else b_Fallback (balancer_of s master))"
    by (auto simp: b first_member_tag_def)
  assume ne: "loaded_members s \<noteq> []"
  show "\<exists>m \<in> set (loaded_members s). b_Fallback (balancer_of s master) = SlotMemberTag (s_Index s) (m_Key m)"
  proof (cases "?p = []")
    case True
    with ne show ?thesis
      by (cases "loaded_members s") (auto simp: b first_member_tag_def SlotMemberTag_def SlotOutPrefix_def)
  next
    case False
    have "xs \<noteq> [] \<Longrightarrow> (if length xs > a then xs ! a else hd xs) \<in> set xs" for xs :: "string list" and a
      by simp
    from this [OF False, of ?a] have "(if length ?p > ?a then ?p ! ?a else hd ?p) \<in> set ?p" .
    moreover have "b_Fallback (balancer_of s master) = (if length ?p > ?a then ?p ! ?a else hd ?p)"
      unfolding b using False by simp
    ultimately show ?thesis using picked_tags by metis
  qed
qed

section \<open>Panics\<close>

lemma omap_Panic: "omap f xs = Panic \<longleftrightarrow> (\<exists>pre x post. xs = pre @ x # post \<and> f x = Panic \<and> (\<forall>y \<in> set pre. \<exists>z. f y = Ok z))"
proof (induction f xs rule: omap.induct)
  case (2 f x xs)
  show ?case
  proof (cases "f x")
    case (Ok y)
    have "omap f (x # xs) = Panic \<longleftrightarrow> omap f xs = Panic" using Ok by (cases "omap f xs") auto
    also have "\<dots> \<longleftrightarrow> (\<exists>pre x' post. x # xs = pre @ x' # post \<and> f x' = Panic \<and> (\<forall>y \<in> set pre. \<exists>z. f y = Ok z))" (is "?L \<longleftrightarrow> ?R")
    proof
      assume ?L
      with "2.IH" obtain pre x' post where "xs = pre @ x' # post" "f x' = Panic" "\<forall>y \<in> set pre. \<exists>z. f y = Ok z" by blast
      with Ok show ?R by (intro exI [of _ "x # pre"] exI [of _ x'] exI [of _ post]) auto
    next
      assume ?R
      then obtain pre x' post where r: "x # xs = pre @ x' # post" "f x' = Panic" "\<forall>y \<in> set pre. \<exists>z. f y = Ok z" by blast
      with Ok obtain pre' where "pre = x # pre'" by (cases pre) auto
      with r "2.IH" show ?L by auto
    qed
    finally show ?thesis .
  next
    case (Fail e)
    have "\<not> (\<exists>pre x' post. x # xs = pre @ x' # post \<and> f x' = Panic \<and> (\<forall>y \<in> set pre. \<exists>z. f y = Ok z))"
    proof (intro notI, elim exE conjE)
      fix pre x' post assume "x # xs = pre @ x' # post" "f x' = Panic" "\<forall>y \<in> set pre. \<exists>z. f y = Ok z"
      with Fail show False by (cases pre) auto
    qed
    with Fail show ?thesis by simp
  next
    case Panic
    then have "\<exists>pre x' post. x # xs = pre @ x' # post \<and> f x' = Panic \<and> (\<forall>y \<in> set pre. \<exists>z. f y = Ok z)"
      by (intro exI [of _ "[]"] exI [of _ x] exI [of _ xs]) auto
    with Panic show ?thesis by simp
  qed
qed simp

lemma lift_fail_Panic [simp]: "lift_fail h r = Panic \<longleftrightarrow> r = Panic"
  by (cases r) (auto simp: lift_fail_def)

lemma tagged_Panic [simp]: "tagged r tag = Panic \<longleftrightarrow> r = Some JNull"
  by (cases "to_map r") (auto simp: tagged_def)

lemma gen_entry_Panic: "gen_entry idx e = Panic \<longleftrightarrow> e_Outbound e = Some JNull"
  by (auto simp: gen_entry_def obind_Panic entryOutbound_def)

lemma gen_entry_Ok_iff: "(\<exists>ob. gen_entry idx e = Ok ob) \<longleftrightarrow> (\<exists>d. e_Outbound e = Some (JObj d))"
  by (auto simp: gen_entry_def entryOutbound_def)

lemma buildInbound_no_panic: "buildInbound i \<noteq> Panic"
  by (auto simp: buildInbound_def buildInboundStream_def stream_security_def Let_def obind_Panic split: option.splits)

lemma gen_inbound_no_panic: "gen_inbound haveOut i \<noteq> Panic"
  by (auto simp: gen_inbound_def obind_Panic buildInbound_no_panic split: sum.splits)

text \<open>A loaded member decodes to an object, so tagging it cannot panic.\<close>

lemma loaded_member_obj: "m \<in> set (loaded_members s) \<Longrightarrow> \<exists>d. m_Outbound m = Some (JObj d)"
proof -
  assume "m \<in> set (loaded_members s)"
  then have "CheckMemberOutbound (m_Outbound m) = None" by (simp add: loaded_members_def)
  then obtain p where p: "decode_protocol (m_Outbound m) = Some p" "to_lower p \<in> set tunnelProtocols"
    using CheckMember_tunnels by blast
  then have "p \<noteq> []" by (auto simp: tunnelProtocols_def to_lower_def)
  with p(1) show ?thesis by (auto simp: decode_protocol_def split: option.splits json.splits)
qed

lemma gen_slot_Ok: "\<exists>obs. gen_slot opts s = Ok obs"
proof -
  have "\<exists>y. gen_member s m = Ok y" if "m \<in> set (loaded_members s)" for m
    using loaded_member_obj [OF that] by (auto simp: gen_member_def MemberOutboundJSON_def)
  then have "\<exists>ms. omap (gen_member s) (loaded_members s) = Ok ms" by (rule omap_total)
  then show ?thesis by (auto simp: gen_slot_def)
qed

lemma build_config_Panic:
  "build_config ents ins sl opts = Panic \<longleftrightarrow> omap (gen_entry (SlotIndexByName sl)) (filter e_Enabled ents) = Panic"
proof -
  have "omap (gen_inbound h) is \<noteq> Panic" for h "is" using gen_inbound_no_panic by (simp add: omap_Panic)
  moreover have "omap (gen_slot opts) sl \<noteq> Panic" using gen_slot_Ok omap_total [of sl "gen_slot opts"] by fastforce
  ultimately show ?thesis by (simp add: build_config_def Let_def obind_Panic)
qed

section \<open>Order independence\<close>

lemma go_sort_key_perm:
  fixes f :: "'a \<Rightarrow> 'b::linorder"
  assumes "mset xs = mset ys" and "distinct (map f xs)"
  shows "go_sort (\<lambda>a b. f a < f b) xs = go_sort (\<lambda>a b. f a < f b) ys"
proof -
  have "inj_on f (set xs)" using assms(2) by (simp add: distinct_map)
  have "sort_key f ys = sort_key f xs"
  proof (rule properties_for_sort_key)
    show "mset (sort_key f xs) = mset ys" using assms(1) by simp
    fix k assume k: "k \<in> set (sort_key f xs)"
    have eq: "filter (\<lambda>x. f k = f x) zs = [k]" if "mset zs = mset xs" for zs
    proof -
      have "distinct (map f zs)" using that assms(2) by (metis mset_eq_imp_distinct_iff mset_map)
      moreover have "k \<in> set zs" using k that by (metis set_mset_mset set_sort)
      ultimately show ?thesis
      proof (induction zs)
        case (Cons z zs)
        show ?case
        proof (cases "k = z")
          case True
          then have "filter (\<lambda>x. f k = f x) zs = []" using Cons.prems by (auto simp: filter_empty_conv)
          with True show ?thesis by simp
        next
          case False
          then have "k \<in> set zs" using Cons.prems(2) by simp
          then have "f k \<noteq> f z" using Cons.prems(1) by (metis distinct.simps(2) image_eqI list.simps(9) set_map)
          with False Cons \<open>k \<in> set zs\<close> show ?thesis by auto
        qed
      qed simp
    qed
    show "filter (\<lambda>x. f k = f x) (sort_key f xs) = filter (\<lambda>x. f k = f x) ys"
      using eq [of "sort_key f xs"] eq [of ys] assms(1) by simp
  next
    show "sorted (map f (sort_key f xs))" by simp
  qed
  then show ?thesis by (simp add: go_sort_key)
qed

section \<open>Properties\<close>

text \<open>C1. Masters fail closed. In a generated configuration an enabled master (with a tag of its
  own) has an outbound, and every outbound with its tag is a blackhole, is wired to the blackhole,
  or dials through the master's own dialer outbound, which the configuration contains. The first
  outbound, xray's default handler, is the blackhole.\<close>

theorem Generate_masters_fail_closed:
  assumes "gen_config entries inbounds slots opts = Ok c"
    and "e \<in> set entries" and "e_Enabled e" and "IsMaster e"
    and "\<forall>e' \<in> set entries. OutboundTag (e_Name e') = OutboundTag (e_Name e) \<longrightarrow> e' = e"
  shows "(\<exists>ob \<in> set (c_outbounds c). ob_tag ob = OutboundTag (e_Name e)) \<and>
    (\<forall>ob \<in> set (c_outbounds c). ob_tag ob = OutboundTag (e_Name e) \<longrightarrow> tunnelled_by c (e_Name e) ob) \<and>
    hd (c_outbounds c) = blackhole ''block''"
proof -
  obtain es' ins' sl' where b: "build_config es' ins' sl' opts = Ok c" "set es' = set entries"
    using assms(1) by (rule gen_config_build)
  have "hd (c_outbounds c) = blackhole ''block''"
    using b(1) by (rule build_config_Ok) (simp add: base_outbounds_def)
  moreover have "tunnelled_by c (e_Name e) ob" if "ob \<in> set (c_outbounds c)" "ob_tag ob = OutboundTag (e_Name e)" for ob
    using outbound_of_entry [OF b(1) that] gen_entry_tunnelled [OF b(1)] assms(4,5) b(2) by metis
  ultimately show ?thesis using entry_has_outbound [OF b(1)] assms(2,3) b(2) by blast
qed

definition demo_vless :: raw_json where
  "demo_vless = Some (JObj [(''protocol'', JStr ''vless'')])"

definition demo_master :: xray_entry where
  "demo_master = \<lparr>e_ID = 1, e_Name = ''m'', e_Outbound = demo_vless, e_Enabled = True, e_Dialer = ''xray:a'', e_Mux = False\<rparr>"

definition demo_member :: xray_entry where
  "demo_member = \<lparr>e_ID = 2, e_Name = ''a'', e_Outbound = demo_vless, e_Enabled = True, e_Dialer = [], e_Mux = False\<rparr>"

definition demo_slot :: slot where
  "demo_slot = \<lparr>s_Master = ''m'', s_Aliases = [], s_Key = ''xray:a'', s_Index = 0,
     s_Members = [\<lparr>m_Key = ''xray-a'', m_Outbound = demo_vless\<rparr>], s_Picked = [], s_Active = 0, s_MasterPicks = [],
     s_Strategy = ''stable'', s_Auto = True, s_Pinned = []\<rparr>"

definition demo_inbound :: inbound where
  "demo_inbound = blank_inbound\<lparr>in_Name := ''s'', in_Protocol := ''socks'', in_Listen := ''127.0.0.1'', in_Port := 11800,
     in_Enabled := True, in_Target := ''master:m''\<rparr>"

definition demo_opts :: gen_options where
  "demo_opts = \<lparr>o_AccessLog = [], o_ErrorLog = [], o_LogLevel = [], o_ProbeInterval = [], o_ProbeURL = [], o_DialerSource = False\<rparr>"

lemmas demo_defs = demo_vless_def demo_master_def demo_member_def demo_slot_def demo_inbound_def demo_opts_def

lemma demo_parse [simp]: "ParseTarget ''master:m'' = Inr (''master'', ''m'')"
  by code_simp

lemma demo_config: "\<exists>c. gen_config [demo_member, demo_master] [demo_inbound] [demo_slot] demo_opts = Ok c"
proof -
  have i: "\<exists>y. gen_inbound ([''direct'', ''block''] @ entry_tags (go_sort (\<lambda>a b. e_Name a < e_Name b) [demo_member, demo_master]) @ t) demo_inbound = Ok y" for t
    by (simp add: gen_inbound_def demo_defs buildInbound_def blank_inbound_def outboundTagFor_def kind_defs entry_tags_def go_sort_def)
  have "\<exists>ys. omap (gen_entry idx) (filter e_Enabled (go_sort (\<lambda>a b. e_Name a < e_Name b) [demo_member, demo_master])) = Ok ys" for idx
    by (rule omap_total) (auto simp: gen_entry_Ok_iff demo_defs)
  moreover have "\<exists>ys. omap (gen_inbound ([''direct'', ''block''] @ entry_tags (go_sort (\<lambda>a b. e_Name a < e_Name b) [demo_member, demo_master]) @ t))
      (filter listening (go_sort (\<lambda>a b. in_Name a < in_Name b) [demo_inbound])) = Ok ys" for t
    by (rule omap_total) (use i in \<open>auto simp: go_sort_def split: if_split_asm\<close>)
  moreover have "\<exists>ys. omap (gen_slot demo_opts) sl = Ok ys" for sl
    by (rule omap_total) (rule gen_slot_Ok)
  ultimately show ?thesis unfolding gen_config_def build_config_def Let_def append_assoc by (metis obind.simps(1))
qed

lemma Generate_masters_fail_closed_witness:
  "\<exists>c. gen_config [demo_member, demo_master] [demo_inbound] [demo_slot] demo_opts = Ok c \<and> hd (c_outbounds c) = blackhole ''block''"
proof -
  obtain c where c: "gen_config [demo_member, demo_master] [demo_inbound] [demo_slot] demo_opts = Ok c"
    using demo_config by blast
  have "OutboundTag ''a'' \<noteq> OutboundTag ''m''" by code_simp
  moreover have "IsMaster demo_master" by (simp add: IsMaster_def demo_defs) code_simp
  ultimately show ?thesis
    using Generate_masters_fail_closed [OF c, of demo_master] c by (auto simp: demo_defs)
qed

lemma balancer_targets:
  assumes "build_config ents ins sl opts = Ok c" and "s \<in> set sl"
  shows "b_Fallback (balancer_of s m) \<in> out_tags c"
    and "b_Random (balancer_of s m) \<longrightarrow> set (b_Selector (balancer_of s m)) \<subseteq> out_tags c"
proof -
  have mem: "SlotMemberTag (s_Index s) (m_Key x) \<in> out_tags c" if "x \<in> set (loaded_members s)" for x
    unfolding build_config_tags [OF assms(1)] using that assms(2) by blast
  show "b_Fallback (balancer_of s m) \<in> out_tags c"
  proof (cases "loaded_members s = []")
    case True
    then have "b_Fallback (balancer_of s m) = ''block''" using balancer_of_members(3) [of s m] by simp
    then show ?thesis unfolding build_config_tags [OF assms(1)] by simp
  next
    case False
    then show ?thesis using balancer_of_members(4) [of s m] mem by auto
  qed
  show "b_Random (balancer_of s m) \<longrightarrow> set (b_Selector (balancer_of s m)) \<subseteq> out_tags c"
    using balancer_of_members(1) [of s m] mem by blast
qed

text \<open>C2. No tag dangles. The first rule, of the API inbound, targets the tag that xray's own API answers to; every
  other routing rule targets an outbound of the configuration, or a balancer of it. Every balancer of the
  configuration falls back to an outbound of it, and one with an explicit selector selects only such.\<close>

theorem Generate_no_dangling_tags:
  assumes "gen_config entries inbounds slots opts = Ok c"
  shows "hd (c_rules c) = field_rule ApiTag ApiTag \<and>
    (\<forall>r \<in> set (tl (c_rules c)).
      (\<exists>t \<in> out_tags c. map_of r ''outboundTag'' = Some (JStr t)) \<or>
      (\<exists>b \<in> set (c_balancers c). map_of r ''balancerTag'' = Some (JStr (b_Tag b)))) \<and>
    (\<forall>b \<in> set (c_balancers c). b_Fallback b \<in> out_tags c \<and> (b_Random b \<longrightarrow> set (b_Selector b) \<subseteq> out_tags c))"
proof -
  obtain ents ins sl where b: "build_config ents ins sl opts = Ok c"
    using assms(1) by (rule gen_config_build)
  from b obtain eobs irs sobs ifaces haveOut where c:
    "haveOut = [''direct'', ''block''] @ entry_tags ents @ map IfaceTag ifaces"
    "ifaces = keep_first IfaceTag ([''direct'', ''block''] @ entry_tags ents) (iface_targets ins)"
    "omap (gen_inbound haveOut) (filter listening ins) = Ok irs"
    "c_rules c = [field_rule ApiTag ApiTag] @ map snd irs @ concat (map (\<lambda>s. map (slot_rule s) (SlotMasters s)) sl)"
    "c_balancers c = concat (map (\<lambda>s. map (balancer_of s) (SlotMasters s)) sl)"
    by (rule build_config_Ok)
  have "b_Fallback y \<in> out_tags c \<and> (b_Random y \<longrightarrow> set (b_Selector y) \<subseteq> out_tags c)" if "y \<in> set (c_balancers c)" for y
  proof -
    obtain s m where s: "s \<in> set sl" "y = balancer_of s m" using \<open>y \<in> set (c_balancers c)\<close> c(5) by auto
    then show ?thesis using balancer_targets [OF b] by simp
  qed
  moreover have "(\<exists>t \<in> out_tags c. map_of r ''outboundTag'' = Some (JStr t)) \<or>
      (\<exists>y \<in> set (c_balancers c). map_of r ''balancerTag'' = Some (JStr (b_Tag y)))" if "r \<in> set (tl (c_rules c))" for r
  proof -
    consider "r \<in> set (map snd irs)" | s m where "s \<in> set sl" "m \<in> set (SlotMasters s)" "r = slot_rule s m"
      using \<open>r \<in> set (tl (c_rules c))\<close> c(4) by auto
    then show ?thesis
    proof cases
      case 1
      then obtain i ib where "gen_inbound haveOut i = Ok (ib, r)" using omap_Ok_set [OF c(3)] by force
      then obtain t where t: "t \<in> set haveOut" "r = field_rule (InboundTag (in_Name i)) t" using gen_inbound_rule by blast
      have "t \<in> out_tags c"
        using t(1) keep_first_subset [of IfaceTag "[''direct'', ''block''] @ entry_tags ents" "iface_targets ins"]
        unfolding build_config_tags [OF b] c(1) c(2) by auto
      with t(2) show ?thesis by (simp add: rule_shapes)
    next
      case (2 s m)
      have "balancer_of s m \<in> set (c_balancers c)" using c(5) 2(1,2) by auto
      moreover have "b_Tag (balancer_of s m) = SlotBalTag (s_Index s) m" by (simp add: balancer_of_def slotBalancer_def Let_def)
      ultimately show ?thesis unfolding 2(3)
        by (intro disjI2 bexI [of _ "balancer_of s m"]) (simp_all add: rule_shapes)
    qed
  qed
  moreover have "hd (c_rules c) = field_rule ApiTag ApiTag" using c(4) by simp
  ultimately show ?thesis by blast
qed

lemma Generate_no_dangling_tags_witness:
  "\<exists>c. gen_config [demo_member, demo_master] [demo_inbound] [demo_slot] demo_opts = Ok c \<and> c_balancers c \<noteq> [] \<and>
    list_all (\<lambda>b. b_Fallback b \<in> out_tags c) (c_balancers c)"
proof -
  obtain c where c: "gen_config [demo_member, demo_master] [demo_inbound] [demo_slot] demo_opts = Ok c"
    using demo_config by blast
  then have "c_balancers c = concat (map (\<lambda>s. map (balancer_of s) (SlotMasters s)) [demo_slot])"
    unfolding gen_config_def by (rule build_config_Ok) (simp add: go_sort_def)
  then have "c_balancers c \<noteq> []" by (simp add: demo_slot_def SlotMasters_def)
  then show ?thesis using c Generate_no_dangling_tags [OF c] by (auto simp: list_all_iff)
qed

text \<open>A slot's balancer routes a master only through loaded members of that slot, each of which
  tunnels; only a slot without a loadable member falls back to the blackhole.\<close>

theorem slotBalancer_only_members:
  assumes "b_Random (balancer_of s master) \<and> t \<in> set (b_Selector (balancer_of s master)) \<or> t = b_Fallback (balancer_of s master)"
  shows "(\<exists>m \<in> set (s_Members s). t = SlotMemberTag (s_Index s) (m_Key m) \<and> CheckMemberOutbound (m_Outbound m) = None) \<or>
    t = ''block'' \<and> (\<forall>m \<in> set (s_Members s). CheckMemberOutbound (m_Outbound m) \<noteq> None)"
proof (cases "loaded_members s = []")
  case True
  then have "t = ''block''"
    using assms balancer_of_members(1) [of s master t] balancer_of_members(3) [of s master] by auto
  with True show ?thesis by (auto simp: loaded_members_def filter_empty_conv)
next
  case False
  then have "\<exists>m \<in> set (loaded_members s). t = SlotMemberTag (s_Index s) (m_Key m)"
    using assms balancer_of_members(1) [of s master t] balancer_of_members(4) [OF False, of master] by blast
  then show ?thesis by (auto simp: loaded_members_def)
qed

lemma slotBalancer_only_members_witness:
  "(\<exists>m \<in> set (s_Members demo_slot). b_Fallback (balancer_of demo_slot ''m'') = SlotMemberTag 0 (m_Key m) \<and> CheckMemberOutbound (m_Outbound m) = None) \<or>
    b_Fallback (balancer_of demo_slot ''m'') = ''block'' \<and> (\<forall>m \<in> set (s_Members demo_slot). CheckMemberOutbound (m_Outbound m) \<noteq> None)"
  using slotBalancer_only_members [of demo_slot "''m''" "b_Fallback (balancer_of demo_slot ''m'')"] by (simp add: demo_slot_def)

text \<open>The configuration does not depend on the order in which the database returns its rows,
  when names and slot indices are unique (as the schema makes them).\<close>

theorem Generate_order_independent:
  assumes "mset entries = mset entries'" and "mset inbounds = mset inbounds'" and "mset slots = mset slots'"
    and "distinct (map e_Name entries)" and "distinct (map in_Name inbounds)" and "distinct (map s_Index slots)"
  shows "Generate entries inbounds slots opts = Generate entries' inbounds' slots' opts"
  using go_sort_key_perm [OF assms(1,4)] go_sort_key_perm [OF assms(2,5)] go_sort_key_perm [OF assms(3,6)]
  by (simp add: Generate_def gen_config_def)

lemma Generate_order_independent_witness:
  "Generate [demo_member, demo_master] [demo_inbound] [demo_slot] demo_opts =
   Generate [demo_master, demo_member] [demo_inbound] [demo_slot] demo_opts"
  by (rule Generate_order_independent) (simp_all add: demo_defs add_mset_commute)

text \<open>Which inputs make it panic: exactly those where the first enabled entry, in name order,
  whose outbound is not an object holds the JSON text \<open>null\<close>. Slots and listeners never do.\<close>

theorem Generate_panics_iff:
  "Generate entries inbounds slots opts = Panic \<longleftrightarrow>
     (\<exists>pre e post. filter e_Enabled (go_sort (\<lambda>a b. e_Name a < e_Name b) entries) = pre @ e # post \<and>
        e_Outbound e = Some JNull \<and> list_all (\<lambda>x. \<exists>d. e_Outbound x = Some (JObj d)) pre)"
  by (simp add: list_all_iff Generate_def obind_Panic gen_config_def build_config_Panic omap_Panic gen_entry_Panic gen_entry_Ok_iff)

end
