(* ===== verification/Store.thy ===== *)
theory Store
  imports Inbounds
begin

text \<open>
  The database of \<^verbatim>\<open>core/xray/store.go\<close>, \<^verbatim>\<open>users.go\<close>,
  \<^verbatim>\<open>traffic_store.go\<close> and \<^verbatim>\<open>settings.go\<close>: tables are lists of rows, an
  operation is the effect of its SQL statements, and a transaction that fails leaves the database as
  it was. Row ids come from one increasing counter. What the ORM stores for a column that has a
  default when the row holds the zero value is an argument (\<open>orm\<close>). Byte counts are unbounded.
\<close>

record traffic_bucket =
  tb_Kind :: string
  tb_Tag :: string
  tb_Hour :: int
  tb_Up :: int
  tb_Down :: int

record traffic_total =
  tt_Kind :: string
  tt_Tag :: string
  tt_Name :: string
  tt_Up :: int
  tt_Down :: int

record db =
  db_next :: nat
  db_subs :: "subscription list"
  db_nodes :: "sub_node list"
  db_overrides :: "sub_node_override list"
  db_entries :: "xray_entry list"
  db_inbounds :: "inbound list"
  db_users :: "inbound_user list"
  db_buckets :: "traffic_bucket list"
  db_totals :: "traffic_total list"
  db_settings :: "(string, string) dict"

datatype store_error =
    StoreName name_error | StoreTarget target_error | NotFound | NameTaken string | NoFreePort
  | StoreInbound inbound_error

section \<open>Rows\<close>

definition find_row :: "('r \<Rightarrow> bool) \<Rightarrow> 'r list \<Rightarrow> (store_error, 'r) outcome" where
  "find_row P rows = (case List.find P rows of None \<Rightarrow> Fail NotFound | Some r \<Rightarrow> Ok r)"

definition update_where :: "('r \<Rightarrow> bool) \<Rightarrow> ('r \<Rightarrow> 'r) \<Rightarrow> 'r list \<Rightarrow> 'r list" where
  "update_where P f rows = map (\<lambda>r. if P r then f r else r) rows"

definition delete_where :: "('r \<Rightarrow> bool) \<Rightarrow> 'r list \<Rightarrow> 'r list" where
  "delete_where P rows = filter (\<lambda>r. \<not> P r) rows"

section \<open>Active nodes\<close>

text \<open>The loop of \<^verbatim>\<open>recomputeActive\<close>: the verdict for each node, and how much of the cap is
  used up.\<close>

fun want_active :: "bool \<Rightarrow> string list \<Rightarrow> string list \<Rightarrow> int \<Rightarrow> int \<Rightarrow> sub_node list \<Rightarrow> (nat \<times> bool) list" where
  "want_active enabled off pinned cap kept [] = []"
| "want_active enabled off pinned cap kept (n # ns) =
     (if enabled \<and> nd_Fingerprint n \<notin> set off then
        (if nd_Fingerprint n \<in> set pinned then (nd_ID n, True) # want_active enabled off pinned cap kept ns
         else if kept < cap then (nd_ID n, True) # want_active enabled off pinned cap (kept + 1) ns
         else (nd_ID n, False) # want_active enabled off pinned cap kept ns)
      else (nd_ID n, False) # want_active enabled off pinned cap kept ns)"

definition sub_nodes :: "db \<Rightarrow> nat \<Rightarrow> sub_node list" where
  "sub_nodes d subID = filter (\<lambda>n. nd_SubID n = subID) (db_nodes d)"

definition DisabledFingerprints :: "db \<Rightarrow> nat \<Rightarrow> string list" where
  "DisabledFingerprints d subID = map ov_Fingerprint (filter (\<lambda>v. ov_SubID v = subID \<and> ov_Disabled v) (db_overrides d))"

definition PinnedFingerprints :: "db \<Rightarrow> nat \<Rightarrow> string list" where
  "PinnedFingerprints d subID = map ov_Fingerprint (filter (\<lambda>v. ov_SubID v = subID \<and> ov_Pinned v) (db_overrides d))"

definition set_active :: "(nat \<times> bool) list \<Rightarrow> sub_node \<Rightarrow> sub_node" where
  "set_active wants n = (case map_of wants (nd_ID n) of Some w \<Rightarrow> n\<lparr>nd_Active := w\<rparr> | None \<Rightarrow> n)"

definition recomputeActive :: "db \<Rightarrow> nat \<Rightarrow> (store_error, db) outcome" where
  "recomputeActive d subID =
     obind (find_row (\<lambda>s. sub_ID s = subID) (db_subs d)) (\<lambda>sub.
       Ok (d\<lparr>db_nodes := map (set_active (want_active (sub_Enabled sub) (DisabledFingerprints d subID)
               (PinnedFingerprints d subID) (EffectiveCap sub) 0 (sub_nodes d subID))) (db_nodes d)\<rparr>))"

section \<open>Subscriptions and nodes\<close>

definition CreateSubscription :: "(bool \<Rightarrow> bool) \<Rightarrow> db \<Rightarrow> subscription \<Rightarrow> (store_error, db) outcome" where
  "CreateSubscription orm d sub =
     (case ValidName (sub_Name sub) of Inl e \<Rightarrow> Fail (StoreName e)
      | Inr name \<Rightarrow>
          if name \<in> sub_Name ` set (db_subs d) then Fail (NameTaken name)
          else Ok (d\<lparr>db_subs := db_subs d @ [sub\<lparr>sub_ID := db_next d, sub_Name := name,
                 sub_UserAgent := (if sub_UserAgent sub = [] then DefaultSubUserAgent else sub_UserAgent sub),
                 sub_Enabled := orm (sub_Enabled sub)\<rparr>], db_next := Suc (db_next d)\<rparr>))"

text \<open>GORM's \<^verbatim>\<open>Save\<close>: all columns of the row with the key, an insert when there is none; a name that
  another row has is refused.\<close>

definition save_row :: "('r \<Rightarrow> nat) \<Rightarrow> ('r \<Rightarrow> string) \<Rightarrow> ('r \<Rightarrow> 'r) \<Rightarrow> 'r \<Rightarrow> 'r list \<Rightarrow> (store_error, 'r list) outcome" where
  "save_row key name defaults r rows =
     (if list_ex (\<lambda>x. key x \<noteq> key r \<and> name x = name r) rows then Fail (NameTaken (name r))
      else if list_ex (\<lambda>x. key x = key r) rows then Ok (update_where (\<lambda>x. key x = key r) (\<lambda>_. r) rows)
      else Ok (rows @ [defaults r]))"

definition UpdateSubscription :: "(bool \<Rightarrow> bool) \<Rightarrow> db \<Rightarrow> subscription \<Rightarrow> (store_error, db) outcome" where
  "UpdateSubscription orm d sub =
     obind (save_row sub_ID sub_Name (sub_Enabled_update orm) sub (db_subs d)) (\<lambda>rows. Ok (d\<lparr>db_subs := rows\<rparr>))"

definition SetSubEnabled :: "db \<Rightarrow> nat \<Rightarrow> bool \<Rightarrow> (store_error, db) outcome" where
  "SetSubEnabled d subID enabled =
     recomputeActive (d\<lparr>db_subs := update_where (\<lambda>s. sub_ID s = subID) (sub_Enabled_update (\<lambda>_. enabled)) (db_subs d)\<rparr>) subID"

definition DeleteSubscription :: "db \<Rightarrow> nat \<Rightarrow> db" where
  "DeleteSubscription d subID =
     d\<lparr>db_nodes := delete_where (\<lambda>n. nd_SubID n = subID) (db_nodes d),
       db_overrides := delete_where (\<lambda>v. ov_SubID v = subID) (db_overrides d),
       db_subs := delete_where (\<lambda>s. sub_ID s = subID) (db_subs d)\<rparr>"

fun number_nodes :: "nat \<Rightarrow> nat \<Rightarrow> sub_node list \<Rightarrow> sub_node list" where
  "number_nodes subID next [] = []"
| "number_nodes subID next (n # ns) = n\<lparr>nd_ID := next, nd_SubID := subID\<rparr> # number_nodes subID (Suc next) ns"

definition ReplaceNodes :: "db \<Rightarrow> nat \<Rightarrow> sub_node list \<Rightarrow> (store_error, db) outcome" where
  "ReplaceNodes d subID nodes =
     recomputeActive (d\<lparr>db_nodes := delete_where (\<lambda>n. nd_SubID n = subID) (db_nodes d) @ number_nodes subID (db_next d) nodes,
                       db_next := db_next d + length nodes\<rparr>) subID"

definition ActiveNodes :: "db \<Rightarrow> nat \<Rightarrow> sub_node list" where
  "ActiveNodes d subID = filter nd_Active (sub_nodes d subID)"

definition NodeNameByFingerprint :: "db \<Rightarrow> string \<Rightarrow> string" where
  "NodeNameByFingerprint d fp = (case List.find (\<lambda>n. nd_Fingerprint n = fp) (db_nodes d) of Some n \<Rightarrow> nd_Name n | None \<Rightarrow> fp)"

definition SetNodeLatency :: "db \<Rightarrow> nat \<Rightarrow> string \<Rightarrow> int \<Rightarrow> db" where
  "SetNodeLatency d subID fp ms =
     d\<lparr>db_nodes := update_where (\<lambda>n. nd_SubID n = subID \<and> nd_Fingerprint n = fp) (nd_LastLatencyMs_update (\<lambda>_. ms)) (db_nodes d)\<rparr>"

text \<open>The upsert of an override: insert the row, or on a conflict of subscription and fingerprint
  apply the assignments.\<close>

definition upsert_override :: "db \<Rightarrow> nat \<Rightarrow> string \<Rightarrow> bool \<Rightarrow> bool \<Rightarrow> (sub_node_override \<Rightarrow> sub_node_override) \<Rightarrow> db" where
  "upsert_override d subID fp disabled pinned f =
     (let P = (\<lambda>v. ov_SubID v = subID \<and> ov_Fingerprint v = fp)
      in if \<exists>v \<in> set (db_overrides d). P v then d\<lparr>db_overrides := update_where P f (db_overrides d)\<rparr>
         else d\<lparr>db_overrides := db_overrides d @ [\<lparr>ov_ID = db_next d, ov_SubID = subID, ov_Fingerprint = fp,
                  ov_Disabled = disabled, ov_Pinned = pinned\<rparr>], db_next := Suc (db_next d)\<rparr>)"

definition SetNodePinned :: "db \<Rightarrow> nat \<Rightarrow> string \<Rightarrow> bool \<Rightarrow> (store_error, db) outcome" where
  "SetNodePinned d subID fp pinned =
     recomputeActive (upsert_override d subID fp False pinned
       (\<lambda>v. if pinned then v\<lparr>ov_Pinned := True, ov_Disabled := False\<rparr> else v\<lparr>ov_Pinned := False\<rparr>)) subID"

definition ClearPins :: "db \<Rightarrow> nat \<Rightarrow> (store_error, db) outcome" where
  "ClearPins d subID =
     recomputeActive (d\<lparr>db_overrides := update_where (\<lambda>v. ov_SubID v = subID) (ov_Pinned_update (\<lambda>_. False)) (db_overrides d)\<rparr>) subID"

definition SetNodeDisabled :: "db \<Rightarrow> nat \<Rightarrow> string \<Rightarrow> bool \<Rightarrow> (store_error, db) outcome" where
  "SetNodeDisabled d subID fp disabled =
     recomputeActive (upsert_override d subID fp disabled False
       (\<lambda>v. if disabled then v\<lparr>ov_Disabled := True, ov_Pinned := False\<rparr> else v\<lparr>ov_Disabled := False\<rparr>)) subID"

section \<open>Entries\<close>

definition CreateEntry :: "(bool \<Rightarrow> bool) \<Rightarrow> db \<Rightarrow> xray_entry \<Rightarrow> (store_error, db \<times> xray_entry) outcome" where
  "CreateEntry orm d e =
     (case ValidName (e_Name e) of Inl er \<Rightarrow> Fail (StoreName er)
      | Inr name \<Rightarrow>
          if name \<in> e_Name ` set (db_entries d) then Fail (NameTaken name)
          else let e' = e\<lparr>e_ID := db_next d, e_Name := name, e_Enabled := orm (e_Enabled e)\<rparr>
               in Ok (d\<lparr>db_entries := db_entries d @ [e'], db_next := Suc (db_next d)\<rparr>, e'))"

definition GetEntry :: "db \<Rightarrow> nat \<Rightarrow> (store_error, xray_entry) outcome" where
  "GetEntry d i = find_row (\<lambda>e. e_ID e = i) (db_entries d)"

definition GetEntryByName :: "db \<Rightarrow> string \<Rightarrow> (store_error, xray_entry) outcome" where
  "GetEntryByName d name = find_row (\<lambda>e. e_Name e = NormalizeName name) (db_entries d)"

definition GetSubscriptionByName :: "db \<Rightarrow> string \<Rightarrow> (store_error, subscription) outcome" where
  "GetSubscriptionByName d name = find_row (\<lambda>s. sub_Name s = NormalizeName name) (db_subs d)"

definition ListEntries :: "db \<Rightarrow> xray_entry list" where
  "ListEntries d = sort_key e_Name (db_entries d)"

definition UpdateEntry :: "(bool \<Rightarrow> bool) \<Rightarrow> db \<Rightarrow> xray_entry \<Rightarrow> (store_error, db) outcome" where
  "UpdateEntry orm d e =
     obind (save_row e_ID e_Name (e_Enabled_update orm) e (db_entries d)) (\<lambda>rows. Ok (d\<lparr>db_entries := rows\<rparr>))"

definition SetEntryDialers :: "db \<Rightarrow> (nat, string) dict \<Rightarrow> db" where
  "SetEntryDialers d dialers =
     d\<lparr>db_entries := map (\<lambda>e. case map_of dialers (e_ID e) of Some x \<Rightarrow> e\<lparr>e_Dialer := x\<rparr> | None \<Rightarrow> e) (db_entries d)\<rparr>"

definition SetEntryEnabled :: "db \<Rightarrow> nat \<Rightarrow> bool \<Rightarrow> db" where
  "SetEntryEnabled d i enabled =
     d\<lparr>db_entries := update_where (\<lambda>e. e_ID e = i) (e_Enabled_update (\<lambda>_. enabled)) (db_entries d)\<rparr>"

definition DeleteEntry :: "db \<Rightarrow> nat \<Rightarrow> db" where
  "DeleteEntry d i = d\<lparr>db_entries := delete_where (\<lambda>e. e_ID e = i) (db_entries d)\<rparr>"

definition NamesExist :: "db \<Rightarrow> string list \<Rightarrow> string list" where
  "NamesExist d names = filter (\<lambda>n. \<forall>e. GetEntryByName d n \<noteq> Ok e) names"

definition SubNamesExist :: "db \<Rightarrow> string list \<Rightarrow> string list" where
  "SubNamesExist d names = filter (\<lambda>n. \<forall>s. GetSubscriptionByName d n \<noteq> Ok s) names"

section \<open>Traffic history\<close>

definition tb_key :: "traffic_bucket \<Rightarrow> string \<times> string \<times> int" where
  "tb_key b = (tb_Kind b, tb_Tag b, tb_Hour b)"

fun upsert_bucket :: "traffic_bucket \<Rightarrow> traffic_bucket list \<Rightarrow> traffic_bucket list" where
  "upsert_bucket b [] = [b]"
| "upsert_bucket b (x # xs) =
     (if tb_key x = tb_key b
      then x\<lparr>tb_Up := tb_Up x + tb_Up b, tb_Down := tb_Down x + tb_Down b\<rparr> # xs
      else x # upsert_bucket b xs)"

fun upsert_total :: "traffic_total \<Rightarrow> traffic_total list \<Rightarrow> traffic_total list" where
  "upsert_total t [] = [t]"
| "upsert_total t (x # xs) =
     (if tt_Kind x = tt_Kind t \<and> tt_Tag x = tt_Tag t
      then x\<lparr>tt_Up := tt_Up x + tt_Up t, tt_Down := tt_Down x + tt_Down t, tt_Name := tt_Name t\<rparr> # xs
      else x # upsert_total t xs)"

definition AddTraffic :: "string \<Rightarrow> string \<Rightarrow> string \<Rightarrow> int \<Rightarrow> int \<Rightarrow> int \<Rightarrow> db \<Rightarrow> db" where
  "AddTraffic kind tag name hour up down d =
     d\<lparr>db_buckets := upsert_bucket \<lparr>tb_Kind = kind, tb_Tag = tag, tb_Hour = hour, tb_Up = up, tb_Down = down\<rparr> (db_buckets d),
       db_totals := upsert_total \<lparr>tt_Kind = kind, tt_Tag = tag, tt_Name = name, tt_Up = up, tt_Down = down\<rparr> (db_totals d)\<rparr>"

definition TrafficTotals :: "db \<Rightarrow> traffic_total list" where
  "TrafficTotals d = sort_key tt_Kind (sort_key tt_Name (db_totals d))"

definition TrafficBucketsSince :: "db \<Rightarrow> string \<Rightarrow> string \<Rightarrow> int \<Rightarrow> traffic_bucket list" where
  "TrafficBucketsSince d kind tag since =
     sort_key tb_Hour (filter (\<lambda>b. tb_Kind b = kind \<and> tb_Tag b = tag \<and> since \<le> tb_Hour b) (db_buckets d))"

definition PruneTrafficBefore :: "db \<Rightarrow> int \<Rightarrow> db" where
  "PruneTrafficBefore d hour = d\<lparr>db_buckets := delete_where (\<lambda>b. tb_Hour b < hour) (db_buckets d)\<rparr>"

definition TrafficTotalFor :: "db \<Rightarrow> string \<Rightarrow> string \<Rightarrow> int \<times> int" where
  "TrafficTotalFor d kind tag =
     (case List.find (\<lambda>t. tt_Kind t = kind \<and> tt_Tag t = tag) (db_totals d) of
        Some t \<Rightarrow> (tt_Up t, tt_Down t) | None \<Rightarrow> (0, 0))"

definition moveTrafficTag :: "string \<Rightarrow> string \<Rightarrow> string \<Rightarrow> string \<Rightarrow> db \<Rightarrow> db" where
  "moveTrafficTag kind oldTag newTag name d =
     (if oldTag = newTag
      then d\<lparr>db_totals := update_where (\<lambda>t. tt_Kind t = kind \<and> tt_Tag t = newTag) (tt_Name_update (\<lambda>_. name)) (db_totals d)\<rparr>
      else
        let isold = (\<lambda>b. tb_Kind b = kind \<and> tb_Tag b = oldTag);
            bs = fold (\<lambda>b. upsert_bucket (b\<lparr>tb_Tag := newTag\<rparr>)) (filter isold (db_buckets d)) (db_buckets d);
            d1 = d\<lparr>db_buckets := delete_where isold bs\<rparr>
        in case List.find (\<lambda>t. tt_Kind t = kind \<and> tt_Tag t = oldTag) (db_totals d1) of
             None \<Rightarrow> d1
           | Some t \<Rightarrow>
               d1\<lparr>db_totals := delete_where (\<lambda>x. tt_Kind x = kind \<and> tt_Tag x = oldTag)
                   (upsert_total (t\<lparr>tt_Tag := newTag, tt_Name := name\<rparr>) (db_totals d1))\<rparr>)"

section \<open>Renames\<close>

definition redial :: "string \<Rightarrow> string \<Rightarrow> string \<Rightarrow> xray_entry \<Rightarrow> xray_entry" where
  "redial kind old name m =
     (if e_Dialer m = [] then m
      else let (nd, changed) = RenameDialerRef (e_Dialer m) kind old name
           in if changed then m\<lparr>e_Dialer := nd\<rparr> else m)"

definition cascadeRename :: "string \<Rightarrow> string \<Rightarrow> string \<Rightarrow> db \<Rightarrow> db" where
  "cascadeRename kind old name d = d\<lparr>db_entries := map (redial kind old name) (db_entries d)\<rparr>"

definition retarget :: "string \<Rightarrow> string \<Rightarrow> inbound \<Rightarrow> inbound" where
  "retarget old name i =
     (case ParseTarget (in_Target i) of Inl _ \<Rightarrow> i
      | Inr (kind, n) \<Rightarrow>
          if (kind \<noteq> KindMaster \<and> kind \<noteq> KindXray) \<or> NormalizeName n \<noteq> NormalizeName old then i
          else i\<lparr>in_Target := kind @ '':'' @ name\<rparr>)"

definition renameInboundTargets :: "string \<Rightarrow> string \<Rightarrow> db \<Rightarrow> db" where
  "renameInboundTargets old name d = d\<lparr>db_inbounds := map (retarget old name) (db_inbounds d)\<rparr>"

definition RenameEntry :: "db \<Rightarrow> nat \<Rightarrow> string \<Rightarrow> (store_error, db) outcome" where
  "RenameEntry d i newName =
     (case ValidName newName of Inl er \<Rightarrow> Fail (StoreName er)
      | Inr name \<Rightarrow> obind (find_row (\<lambda>e. e_ID e = i) (db_entries d)) (\<lambda>e.
          if e_Name e = name then Ok d
          else if name \<in> e_Name ` set (db_entries d) then Fail (NameTaken name)
          else Ok (moveTrafficTag ''outbound'' (OutboundTag (e_Name e)) (OutboundTag name) name
                 (renameInboundTargets (e_Name e) name
                   (cascadeRename RefXray (e_Name e) name
                     (d\<lparr>db_entries := update_where (\<lambda>x. e_ID x = i) (e_Name_update (\<lambda>_. name)) (db_entries d)\<rparr>))))))"

definition RenameSubscription :: "db \<Rightarrow> nat \<Rightarrow> string \<Rightarrow> (store_error, db) outcome" where
  "RenameSubscription d i newName =
     (case ValidName newName of Inl er \<Rightarrow> Fail (StoreName er)
      | Inr name \<Rightarrow> obind (find_row (\<lambda>s. sub_ID s = i) (db_subs d)) (\<lambda>s.
          if sub_Name s = name then Ok d
          else if name \<in> sub_Name ` set (db_subs d) then Fail (NameTaken name)
          else Ok (cascadeRename RefXraySub (sub_Name s) name
                 (d\<lparr>db_subs := update_where (\<lambda>x. sub_ID x = i) (sub_Name_update (\<lambda>_. name)) (db_subs d)\<rparr>))))"

section \<open>Inbounds and users\<close>

definition CreateInbound :: "(bool \<Rightarrow> bool) \<Rightarrow> db \<Rightarrow> inbound \<Rightarrow> (store_error, db \<times> inbound) outcome" where
  "CreateInbound orm d i =
     (case ValidName (in_Name i) of Inl e \<Rightarrow> Fail (StoreName e)
      | Inr name \<Rightarrow> (case ParseTarget (in_Target i) of Inl e \<Rightarrow> Fail (StoreTarget e)
          | Inr _ \<Rightarrow>
              obind (if in_Port i = 0 \<and> \<not> IsUnixInbound i
                     then (let p = nextFreePort (filter (\<lambda>p. p \<noteq> 0) (map in_Port (db_inbounds d)))
                           in if p = 0 then Fail NoFreePort else Ok (i\<lparr>in_Port := p\<rparr>))
                     else Ok i) (\<lambda>i1.
                if name \<in> in_Name ` set (db_inbounds d) then Fail (NameTaken name)
                else let i2 = i1\<lparr>in_ID := db_next d, in_Name := name, in_Enabled := orm (in_Enabled i1)\<rparr>
                     in Ok (d\<lparr>db_inbounds := db_inbounds d @ [i2], db_next := Suc (db_next d)\<rparr>, i2))))"

definition defaultCopyName :: "string \<Rightarrow> string \<Rightarrow> string" where
  "defaultCopyName newName src = (if NormalizeName newName \<noteq> [] then newName else src @ '' copy'')"

definition inbound_copy :: "inbound \<Rightarrow> string \<Rightarrow> inbound" where
  "inbound_copy src newName =
     src\<lparr>in_ID := 0, in_Name := defaultCopyName newName (in_Name src), in_Port := 0, in_UUID := [], in_Password := [],
         in_RealityPrivateKey := [], in_RealityPublicKey := [], in_RealityShortID := [], in_TLSCert := [], in_TLSKey := []\<rparr>"

definition DuplicateInbound :: "(bool \<Rightarrow> bool) \<Rightarrow> keygen \<Rightarrow> string option \<Rightarrow> db \<Rightarrow> nat \<Rightarrow> string \<Rightarrow> (store_error, db \<times> inbound) outcome" where
  "DuplicateInbound orm g pathkey d i newName =
     obind (find_row (\<lambda>x. in_ID x = i) (db_inbounds d)) (\<lambda>src.
       let dup = inbound_copy src newName
       in obind (if IsCaddyXHTTP src
                 then (case NewXHTTPPath pathkey of None \<Rightarrow> Fail (StoreInbound KeygenError)
                       | Some path \<Rightarrow> Ok (dup\<lparr>in_Listen := CaddySocketListen (in_Name dup), in_Path := path,
                             in_ClientEmail := sanitizeKey (in_Name dup) @ ''@xhttp.local''\<rparr>))
                 else Ok dup) (\<lambda>dup1.
            case Materialize g dup1 of Fail e \<Rightarrow> Fail (StoreInbound e) | Panic \<Rightarrow> Panic
            | Ok dup2 \<Rightarrow> CreateInbound orm d dup2))"

definition DuplicateEntry :: "(bool \<Rightarrow> bool) \<Rightarrow> db \<Rightarrow> nat \<Rightarrow> string \<Rightarrow> (store_error, db \<times> xray_entry) outcome" where
  "DuplicateEntry orm d i newName =
     obind (GetEntry d i) (\<lambda>src. CreateEntry orm d (src\<lparr>e_ID := 0, e_Name := defaultCopyName newName (e_Name src)\<rparr>))"

definition SetInboundEnabled :: "db \<Rightarrow> nat \<Rightarrow> bool \<Rightarrow> db" where
  "SetInboundEnabled d i enabled =
     d\<lparr>db_inbounds := update_where (\<lambda>x. in_ID x = i) (in_Enabled_update (\<lambda>_. enabled)) (db_inbounds d)\<rparr>"

definition DeleteInbound :: "db \<Rightarrow> nat \<Rightarrow> db" where
  "DeleteInbound d i = d\<lparr>db_inbounds := delete_where (\<lambda>x. in_ID x = i) (db_inbounds d)\<rparr>"

definition DeleteAllConfig :: "db \<Rightarrow> db" where
  "DeleteAllConfig d = d\<lparr>db_inbounds := [], db_entries := [], db_subs := [], db_nodes := [], db_overrides := []\<rparr>"

definition CreateInboundUser :: "(bool \<Rightarrow> bool) \<Rightarrow> db \<Rightarrow> inbound_user \<Rightarrow> (store_error, db) outcome" where
  "CreateInboundUser orm d u =
     (case ValidName (u_Name u) of Inl e \<Rightarrow> Fail (StoreName e)
      | Inr _ \<Rightarrow>
          if \<exists>x \<in> set (db_users d). u_InboundID x = u_InboundID u \<and> u_Name x = u_Name u then Fail (NameTaken (u_Name u))
          else Ok (d\<lparr>db_users := db_users d @ [u\<lparr>u_ID := db_next d, u_Enabled := orm (u_Enabled u)\<rparr>], db_next := Suc (db_next d)\<rparr>))"

definition InboundUsers :: "db \<Rightarrow> nat \<Rightarrow> inbound_user list" where
  "InboundUsers d i = filter (\<lambda>u. u_InboundID u = i) (db_users d)"

definition DeleteInboundUser :: "db \<Rightarrow> nat \<Rightarrow> db" where
  "DeleteInboundUser d i = d\<lparr>db_users := delete_where (\<lambda>u. u_ID u = i) (db_users d)\<rparr>"

definition SetInboundUserEnabled :: "db \<Rightarrow> nat \<Rightarrow> bool \<Rightarrow> db" where
  "SetInboundUserEnabled d i enabled =
     d\<lparr>db_users := update_where (\<lambda>u. u_ID u = i) (u_Enabled_update (\<lambda>_. enabled)) (db_users d)\<rparr>"

section \<open>Settings\<close>

definition GetSetting :: "db \<Rightarrow> string \<Rightarrow> string option" where
  "GetSetting d key = map_of (db_settings d) key"

definition SetSetting :: "string \<Rightarrow> string \<Rightarrow> db \<Rightarrow> db" where
  "SetSetting key value d = d\<lparr>db_settings := dput key value (db_settings d)\<rparr>"

definition LogLevels :: "string list" where
  "LogLevels = [''debug'', ''info'', ''warning'', ''error'', ''none'']"

definition ValidLogLevel :: "string \<Rightarrow> bool" where
  "ValidLogLevel s \<longleftrightarrow> s \<in> set LogLevels"

definition LogLevel :: "db \<Rightarrow> string" where
  "LogLevel d = (case GetSetting d ''loglevel'' of Some v \<Rightarrow> if ValidLogLevel v then v else ''warning'' | None \<Rightarrow> ''warning'')"

definition int_setting :: "string \<Rightarrow> (int \<Rightarrow> bool) \<Rightarrow> int \<Rightarrow> db \<Rightarrow> int" where
  "int_setting key ok dflt d =
     (case GetSetting d key of None \<Rightarrow> dflt
      | Some v \<Rightarrow> (case parse_int v of Some n \<Rightarrow> if ok n then n else dflt | None \<Rightarrow> dflt))"

definition LogMaxMB :: "db \<Rightarrow> int" where
  "LogMaxMB d = int_setting ''log_max_mb'' (\<lambda>n. 0 \<le> n) 50 d"

definition ProbeIntervalSec :: "db \<Rightarrow> int" where
  "ProbeIntervalSec d = int_setting ''probe_interval_sec'' (\<lambda>n. 5 \<le> n \<and> n \<le> 3600) 10 d"

definition TrafficDays :: "db \<Rightarrow> int" where
  "TrafficDays d = int_setting ''traffic_days'' (\<lambda>n. 1 \<le> n) 8 d"

record auto_tuning =
  at_WindowMin :: int
  at_Flips :: int
  at_FlappingPct :: int
  at_PickLoss :: int
  at_CalmMin :: int

definition DefaultAutoTuning :: auto_tuning where
  "DefaultAutoTuning = \<lparr>at_WindowMin = 10, at_Flips = 2, at_FlappingPct = 30, at_PickLoss = 2, at_CalmMin = 30\<rparr>"

definition tuning_valid :: "auto_tuning \<Rightarrow> bool" where
  "tuning_valid t \<longleftrightarrow> 2 \<le> at_WindowMin t \<and> at_WindowMin t \<le> 30 \<and> 1 \<le> at_Flips t \<and> at_Flips t \<le> 100 \<and>
     1 \<le> at_FlappingPct t \<and> at_FlappingPct t \<le> 100 \<and> 0 \<le> at_PickLoss t \<and> at_PickLoss t \<le> 100 \<and>
     1 \<le> at_CalmMin t \<and> at_CalmMin t \<le> 1440"

end
