(* ===== verification/Store_Props.thy ===== *)
theory Store_Props
  imports Store
begin

text \<open>
  What the store promises: the active flags are the ones their definition gives, pins and disables
  exclude each other under every sequence of node operations, a rename leaves no reference to the old
  name behind, and moving a traffic tag loses no byte.
\<close>

section \<open>Active flags\<close>

definition consumes_cap :: "string list \<Rightarrow> string list \<Rightarrow> sub_node \<Rightarrow> bool" where
  "consumes_cap off pinned n \<longleftrightarrow> nd_Fingerprint n \<notin> set off \<and> nd_Fingerprint n \<notin> set pinned"

lemma want_active_ids: "map fst (want_active en off pin cap kept ns) = map nd_ID ns"
  by (induction en off pin cap kept ns rule: want_active.induct) auto

lemma want_active_at:
  assumes "distinct (map nd_ID (pre @ n # post))"
  shows "map_of (want_active en off pin cap kept (pre @ n # post)) (nd_ID n) =
     Some (en \<and> nd_Fingerprint n \<notin> set off \<and>
       (nd_Fingerprint n \<in> set pin \<or> kept + int (length (filter (consumes_cap off pin) pre)) < cap))"
  using assms
proof (induction pre arbitrary: kept)
  case Nil
  then show ?case by auto
next
  case (Cons m pre)
  then have "nd_ID m \<noteq> nd_ID n" "distinct (map nd_ID (pre @ n # post))" by auto
  with Cons.IH show ?case by (auto simp: consumes_cap_def)
qed

lemma map_of_want_None: "i \<notin> nd_ID ` set ns \<Longrightarrow> map_of (want_active en off pin cap kept ns) i = None"
  using want_active_ids [of en off pin cap kept ns] by (metis image_set map_of_eq_None_iff)

lemma set_active_fields [simp]:
  "nd_ID (set_active w n) = nd_ID n" "nd_SubID (set_active w n) = nd_SubID n" "nd_Fingerprint (set_active w n) = nd_Fingerprint n"
  by (auto simp: set_active_def split: option.splits)

lemma find_row_Ok: "find_row P rows = Ok r \<Longrightarrow> r \<in> set rows \<and> P r"
  by (auto simp: find_row_def find_Some_iff split: option.splits)

lemma recomputeActive_Ok:
  assumes "recomputeActive d subID = Ok d'"
  obtains sub where "find_row (\<lambda>s. sub_ID s = subID) (db_subs d) = Ok sub"
    "d' = d\<lparr>db_nodes := map (set_active (want_active (sub_Enabled sub) (DisabledFingerprints d subID)
               (PinnedFingerprints d subID) (EffectiveCap sub) 0 (sub_nodes d subID))) (db_nodes d)\<rparr>"
  using assms by (auto simp: recomputeActive_def)

lemma recomputeActive_keeps:
  assumes "recomputeActive d subID = Ok d'"
  shows "db_overrides d' = db_overrides d" "db_subs d' = db_subs d" "db_next d' = db_next d"
    "map nd_ID (db_nodes d') = map nd_ID (db_nodes d)" "map nd_SubID (db_nodes d') = map nd_SubID (db_nodes d)"
    "map nd_Fingerprint (db_nodes d') = map nd_Fingerprint (db_nodes d)"
  using assms by (auto elim!: recomputeActive_Ok simp: comp_def)

section \<open>Node operations in sequence\<close>

datatype node_op =
    PinNode nat string bool
  | DisableNode nat string bool
  | ClearAllPins nat
  | RefreshNodes nat "sub_node list"
  | EnableSub nat bool
  | DropSub nat

definition node_step :: "node_op \<Rightarrow> db \<Rightarrow> db" where
  "node_step opn d =
     (let keep = (\<lambda>r. case r of Ok d' \<Rightarrow> d' | _ \<Rightarrow> d)
      in case opn of
           PinNode s fp b \<Rightarrow> keep (SetNodePinned d s fp b)
         | DisableNode s fp b \<Rightarrow> keep (SetNodeDisabled d s fp b)
         | ClearAllPins s \<Rightarrow> keep (ClearPins d s)
         | RefreshNodes s ns \<Rightarrow> keep (ReplaceNodes d s ns)
         | EnableSub s b \<Rightarrow> keep (SetSubEnabled d s b)
         | DropSub s \<Rightarrow> DeleteSubscription d s)"

definition override_exclusive :: "sub_node_override \<Rightarrow> bool" where
  "override_exclusive v \<longleftrightarrow> \<not> (ov_Disabled v \<and> ov_Pinned v)"

definition node_inv :: "db \<Rightarrow> bool" where
  "node_inv d \<longleftrightarrow> list_all override_exclusive (db_overrides d) \<and>
     distinct (map (\<lambda>v. (ov_SubID v, ov_Fingerprint v)) (db_overrides d)) \<and>
     distinct (map nd_ID (db_nodes d)) \<and> list_all (\<lambda>n. nd_ID n < db_next d) (db_nodes d)"

lemma number_nodes_ids: "map nd_ID (number_nodes s nxt ns) = [nxt ..< nxt + length ns]"
  by (induction s nxt ns rule: number_nodes.induct) (auto simp: upt_rec)

lemma node_inv_recompute: "node_inv d \<Longrightarrow> recomputeActive d s = Ok d' \<Longrightarrow> node_inv d'"
proof -
  assume inv: "node_inv d" and r: "recomputeActive d s = Ok d'"
  have "list_all (\<lambda>i. i < db_next d) (map nd_ID (db_nodes d'))"
    using inv unfolding recomputeActive_keeps(4) [OF r] by (simp add: node_inv_def list.pred_map comp_def)
  then have "list_all (\<lambda>n. nd_ID n < db_next d) (db_nodes d')" by (simp add: list.pred_map comp_def)
  then show ?thesis
    using inv recomputeActive_keeps [OF r] by (simp add: node_inv_def)
qed

lemma update_where_map: "(\<And>r. P r \<Longrightarrow> h (f r) = h r) \<Longrightarrow> map h (update_where P f rows) = map h rows"
  by (auto simp: update_where_def)

lemma update_where_all: "list_all Q rows \<Longrightarrow> (\<And>r. Q r \<Longrightarrow> P r \<Longrightarrow> Q (f r)) \<Longrightarrow> list_all Q (update_where P f rows)"
  by (auto simp: update_where_def list_all_iff)

lemma node_inv_upsert:
  assumes "node_inv d" and "\<And>v. override_exclusive v \<Longrightarrow> override_exclusive (f v)"
    and "\<And>v. ov_SubID (f v) = ov_SubID v \<and> ov_Fingerprint (f v) = ov_Fingerprint v" and "\<not> (dis \<and> pin)"
  shows "node_inv (upsert_override d s fp dis pin f)"
proof (cases "\<exists>v \<in> set (db_overrides d). ov_SubID v = s \<and> ov_Fingerprint v = fp")
  case True
  then have "upsert_override d s fp dis pin f =
      d\<lparr>db_overrides := update_where (\<lambda>v. ov_SubID v = s \<and> ov_Fingerprint v = fp) f (db_overrides d)\<rparr>"
    by (simp add: upsert_override_def)
  moreover have "map (\<lambda>v. (ov_SubID v, ov_Fingerprint v)) (update_where (\<lambda>v. ov_SubID v = s \<and> ov_Fingerprint v = fp) f (db_overrides d)) =
      map (\<lambda>v. (ov_SubID v, ov_Fingerprint v)) (db_overrides d)"
    using assms(3) by (intro update_where_map) simp
  ultimately show ?thesis using assms(1,2) by (simp add: node_inv_def update_where_all)
next
  case False
  then have "upsert_override d s fp dis pin f =
      d\<lparr>db_overrides := db_overrides d @ [\<lparr>ov_ID = db_next d, ov_SubID = s, ov_Fingerprint = fp, ov_Disabled = dis, ov_Pinned = pin\<rparr>],
        db_next := Suc (db_next d)\<rparr>"
    unfolding upsert_override_def Let_def by (simp only: if_False)
  with assms(1,4) False show ?thesis
    by (auto simp: node_inv_def override_exclusive_def list_all_iff intro: less_SucI)
qed

lemma distinct_map_delete: "distinct (map h rows) \<Longrightarrow> distinct (map h (delete_where P rows))"
  by (simp add: delete_where_def distinct_map_filter)

lemma list_all_delete: "list_all Q rows \<Longrightarrow> list_all Q (delete_where P rows)"
  by (auto simp: delete_where_def list_all_iff)

lemma node_step_inv: "node_inv d \<Longrightarrow> node_inv (node_step opn d)"
proof (cases opn)
  case (PinNode s fp b)
  assume inv: "node_inv d"
  let ?d = "upsert_override d s fp False b (\<lambda>v. if b then v\<lparr>ov_Pinned := True, ov_Disabled := False\<rparr> else v\<lparr>ov_Pinned := False\<rparr>)"
  have "node_inv ?d" using inv by (rule node_inv_upsert) (auto simp: override_exclusive_def)
  with PinNode inv show ?thesis
    by (auto simp: node_step_def SetNodePinned_def Let_def dest: node_inv_recompute split: outcome.splits)
next
  case (DisableNode s fp b)
  assume inv: "node_inv d"
  let ?d = "upsert_override d s fp b False (\<lambda>v. if b then v\<lparr>ov_Disabled := True, ov_Pinned := False\<rparr> else v\<lparr>ov_Disabled := False\<rparr>)"
  have "node_inv ?d" using inv by (rule node_inv_upsert) (auto simp: override_exclusive_def)
  with DisableNode inv show ?thesis
    by (auto simp: node_step_def SetNodeDisabled_def Let_def dest: node_inv_recompute split: outcome.splits)
next
  case (ClearAllPins s)
  assume inv: "node_inv d"
  let ?d = "d\<lparr>db_overrides := update_where (\<lambda>v. ov_SubID v = s) (ov_Pinned_update (\<lambda>_. False)) (db_overrides d)\<rparr>"
  have "map (\<lambda>v. (ov_SubID v, ov_Fingerprint v)) (db_overrides ?d) = map (\<lambda>v. (ov_SubID v, ov_Fingerprint v)) (db_overrides d)"
    by (simp add: update_where_map)
  then have "node_inv ?d" using inv
    by (auto simp: node_inv_def override_exclusive_def intro: update_where_all)
  with ClearAllPins inv show ?thesis
    by (auto simp: node_step_def ClearPins_def Let_def dest: node_inv_recompute split: outcome.splits)
next
  case (RefreshNodes s ns)
  assume inv: "node_inv d"
  let ?d = "d\<lparr>db_nodes := delete_where (\<lambda>n. nd_SubID n = s) (db_nodes d) @ number_nodes s (db_next d) ns,
                       db_next := db_next d + length ns\<rparr>"
  have old: "list_all (\<lambda>n. nd_ID n < db_next d) (delete_where (\<lambda>n. nd_SubID n = s) (db_nodes d))"
    using inv by (simp add: node_inv_def list_all_delete)
  have new: "nd_ID ` set (number_nodes s (db_next d) ns) = {db_next d ..< db_next d + length ns}"
    by (metis number_nodes_ids image_set set_upt)
  have "distinct (map nd_ID (db_nodes ?d))"
    using inv old new by (auto simp: node_inv_def distinct_map_delete number_nodes_ids list_all_iff image_iff)
  moreover have "list_all (\<lambda>n. nd_ID n < db_next ?d) (db_nodes ?d)"
    using old new by (fastforce simp: list_all_iff image_iff)
  ultimately have "node_inv ?d" using inv by (simp add: node_inv_def)
  with RefreshNodes inv show ?thesis
    by (auto simp: node_step_def ReplaceNodes_def Let_def dest: node_inv_recompute split: outcome.splits)
next
  case (EnableSub s b)
  assume inv: "node_inv d"
  have "node_inv (d\<lparr>db_subs := x\<rparr>)" for x using inv by (simp add: node_inv_def)
  with EnableSub inv show ?thesis
    by (auto simp: node_step_def SetSubEnabled_def Let_def dest: node_inv_recompute split: outcome.splits)
next
  case (DropSub s)
  assume inv: "node_inv d"
  with DropSub show ?thesis
    by (simp add: node_step_def DeleteSubscription_def Let_def node_inv_def distinct_map_delete list_all_delete)
qed

interpretation node_run: run_invariant node_step node_inv
  by unfold_locales (rule node_step_inv)

section \<open>Renames\<close>

lemma rename_refs_no_hit:
  "\<not> snd (rename_refs kind old new seen rs) \<Longrightarrow> r \<in> set rs \<Longrightarrow> \<not> rename_hit kind old r"
  by (induction kind old new seen rs rule: rename_refs.induct) (auto split: if_splits)

lemma rename_refs_keep:
  "fst (rename_refs kind old new seen rs) = map (rename_key kind old new) (keep_first (rename_key kind old new) seen rs)"
  by (induction kind old new seen rs rule: rename_refs.induct) auto

definition names_ref :: "string \<Rightarrow> string \<Rightarrow> string \<Rightarrow> bool" where
  "names_ref kind name dialer \<longleftrightarrow>
     (\<exists>refs r. ParseDialer dialer = Inr refs \<and> r \<in> set refs \<and> r_Kind r = kind \<and> NormalizeName (r_Name r) = name)"

lemma name_char_facts: "list_all name_char n \<Longrightarrow> CHR '','' \<notin> set n \<and> CHR '':'' \<notin> set n"
  by (auto simp: list_all_iff name_char_def is_alnum_def is_digit_def byte_def)

lemma valid_name_ref: "ValidName s = Inr n \<Longrightarrow> k \<in> set ref_kinds \<Longrightarrow> ref_ok \<lparr>r_Kind = k, r_Name = n\<rparr>"
  using ValidName_Inr [of s n] ValidName_normal [of s n] NormalizeName_trimmed [of n]
  by (auto simp: ref_ok_def dest: name_char_facts)

text \<open>A renamed dialer names the old entry no more, however it was written.\<close>

definition ren :: "string \<Rightarrow> string \<Rightarrow> string \<Rightarrow> dialer_ref \<Rightarrow> dialer_ref" where
  "ren kind old new r = (if rename_hit kind old r then r\<lparr>r_Name := new\<rparr> else r)"

lemma rename_key_ren: "rename_key kind old new r = ref_key (ren kind old new r)"
  by (simp add: rename_key_def ren_def)

lemma ren_ok: "ValidName s = Inr new \<Longrightarrow> kind \<in> set ref_kinds \<Longrightarrow> ref_ok r \<Longrightarrow> ref_ok (ren kind old new r)"
  using valid_name_ref [of s new kind] by (auto simp: ref_ok_def ren_def)

lemma RenameDialerRef_parse:
  assumes "ValidName s = Inr new" "kind \<in> set ref_kinds" "ParseDialer dialer = Inr refs"
  shows "ParseDialer (fst (RenameDialerRef dialer kind old new)) =
    Inr (map (ren kind old new) (keep_first (rename_key kind old new) [] refs))"
proof -
  let ?out = "map (ren kind old new) (keep_first (rename_key kind old new) [] refs)"
  have "ParseDialer (join '','' (map ref_key ?out)) = Inr ?out"
  proof (rule ParseDialer_join)
    fix q assume "q \<in> set ?out"
    then obtain r where "r \<in> set refs" "q = ren kind old new r"
      using keep_first_subset [of "rename_key kind old new" "[]" refs] by auto
    then show "ref_ok q" using ren_ok [OF assms(1,2)] ParseDialer_ok [OF assms(3)] by simp
  qed
  moreover have "rename_key kind old new = ref_key \<circ> ren kind old new" by (simp add: fun_eq_iff rename_key_ren)
  ultimately show ?thesis by (simp add: RenameDialerRef_def assms(3) rename_refs_keep)
qed

lemma RenameDialerRef_gone:
  assumes new: "ValidName s = Inr new" and kind: "kind \<in> set ref_kinds" and ne: "new \<noteq> NormalizeName old"
  shows "\<not> names_ref kind (NormalizeName old) (fst (RenameDialerRef dialer kind old new))"
proof (cases "ParseDialer dialer")
  case (Inl e)
  then show ?thesis by (simp add: RenameDialerRef_def names_ref_def)
next
  case (Inr refs)
  have "\<not> (r_Kind (ren kind old new r) = kind \<and> NormalizeName (r_Name (ren kind old new r)) = NormalizeName old)" for r
    using ne ValidName_normal [OF new] by (auto simp: rename_hit_def ren_def)
  then show ?thesis unfolding names_ref_def RenameDialerRef_parse [OF new kind Inr] by auto
qed

lemma RenameDialerRef_unchanged:
  "\<not> snd (RenameDialerRef dialer kind old new) \<Longrightarrow> \<not> names_ref kind (NormalizeName old) dialer"
  using rename_refs_no_hit [of kind old new "[]"]
  by (fastforce simp: RenameDialerRef_def names_ref_def rename_hit_def split: sum.splits)

definition targets_entry :: "string \<Rightarrow> string \<Rightarrow> bool" where
  "targets_entry name target \<longleftrightarrow>
     (\<exists>kind n. ParseTarget target = Inr (kind, n) \<and> kind \<in> {KindMaster, KindXray} \<and> NormalizeName n = name)"

lemma ParseTarget_entry:
  assumes "kind \<in> {KindMaster, KindXray}" and "n \<noteq> []" and "trimmed n"
  shows "ParseTarget (kind @ '':'' @ n) = Inr (kind, n)"
proof -
  have k: "kind \<noteq> []" "trimmed kind" "CHR '':'' \<notin> set kind" "kind @ '':'' @ n \<noteq> TargetDirect"
    using assms(1) by (auto simp: kind_defs trimmed_def space_width_def rspace_width_def ascii_space_def space2_def space3_def byte_def)
  have "trimmed (kind @ CHR '':'' # n)" using k assms by (intro trimmed_append) (auto simp: byte_def)
  then have "trim_space (kind @ '':'' @ n) = kind @ '':'' @ n" by (simp add: trimmed_iff)
  then show ?thesis using k assms by (auto simp: ParseTarget_def Let_def)
qed

lemma retarget_gone:
  assumes new: "ValidName s = Inr new" and ne: "new \<noteq> NormalizeName old"
  shows "\<not> targets_entry (NormalizeName old) (in_Target (retarget old new i))"
proof (cases "ParseTarget (in_Target i)")
  case (Inl e)
  then show ?thesis by (simp add: retarget_def targets_entry_def)
next
  case (Inr p)
  obtain kind n where p: "p = (kind, n)" by (cases p)
  show ?thesis
  proof (cases "kind \<in> {KindMaster, KindXray} \<and> NormalizeName n = NormalizeName old")
    case True
    have "ParseTarget (kind @ '':'' @ new) = Inr (kind, new)"
      using True ValidName_Inr [OF new] ValidName_normal [OF new] NormalizeName_trimmed [of new]
      by (intro ParseTarget_entry) auto
    moreover have "retarget old new i = i\<lparr>in_Target := kind @ '':'' @ new\<rparr>" using Inr p True by (auto simp: retarget_def)
    ultimately show ?thesis using ne ValidName_normal [OF new] by (simp add: targets_entry_def)
  next
    case False
    then have "retarget old new i = i" using Inr p by (auto simp: retarget_def)
    with Inr p False show ?thesis by (auto simp: targets_entry_def)
  qed
qed

lemma moveTrafficTag_fields [simp]:
  "db_entries (moveTrafficTag k a b n d) = db_entries d" "db_inbounds (moveTrafficTag k a b n d) = db_inbounds d"
  by (auto simp: moveTrafficTag_def Let_def split: option.splits)

lemma names_ref_empty: "\<not> names_ref k n []"
  by (simp add: names_ref_def ParseDialer_def trim_space_def)

lemma cascadeRename_gone:
  assumes "ValidName s = Inr new" and "kind \<in> set ref_kinds" and "new \<noteq> NormalizeName old"
    and "m \<in> set (db_entries (cascadeRename kind old new d))"
  shows "\<not> names_ref kind (NormalizeName old) (e_Dialer m)"
proof -
  obtain m0 where m0: "m = redial kind old new m0" using assms(4) by (auto simp: cascadeRename_def)
  show ?thesis
  proof (cases "e_Dialer m0 = []")
    case True
    then show ?thesis using m0 names_ref_empty by (simp add: redial_def)
  next
    case False
    show ?thesis
    proof (cases "snd (RenameDialerRef (e_Dialer m0) kind old new)")
      case True
      then have "e_Dialer m = fst (RenameDialerRef (e_Dialer m0) kind old new)"
        using m0 False by (simp add: redial_def split: prod.splits)
      then show ?thesis using RenameDialerRef_gone [OF assms(1-3)] by simp
    next
      case nc: False
      then have "m = m0" using m0 False by (simp add: redial_def split: prod.splits)
      then show ?thesis using RenameDialerRef_unchanged [OF nc] by simp
    qed
  qed
qed

section \<open>Traffic is conserved\<close>

definition bucket_bytes :: "(traffic_bucket \<Rightarrow> int) \<Rightarrow> string \<times> string \<times> int \<Rightarrow> traffic_bucket list \<Rightarrow> int" where
  "bucket_bytes f key bs = sum_list (map f (filter (\<lambda>b. tb_key b = key) bs))"

definition bytes_field :: "(traffic_bucket \<Rightarrow> int) \<Rightarrow> bool" where
  "bytes_field f \<longleftrightarrow> f = tb_Up \<or> f = tb_Down"

lemma bucket_bytes_simps [simp]:
  "bucket_bytes f key [] = 0"
  "bucket_bytes f key (b # bs) = (if tb_key b = key then f b else 0) + bucket_bytes f key bs"
  by (simp_all add: bucket_bytes_def)

lemma tb_key_update [simp]: "tb_key (x\<lparr>tb_Up := u, tb_Down := w\<rparr>) = tb_key x"
  by (simp add: tb_key_def)

lemma bytes_field_update: "bytes_field f \<Longrightarrow> f (x\<lparr>tb_Up := tb_Up x + tb_Up b, tb_Down := tb_Down x + tb_Down b\<rparr>) = f x + f b"
  by (auto simp: bytes_field_def)

lemma bucket_bytes_upsert:
  assumes "bytes_field f"
  shows "bucket_bytes f key (upsert_bucket b bs) = bucket_bytes f key bs + (if tb_key b = key then f b else 0)"
proof (induction bs)
  case (Cons x xs)
  then show ?case by (cases "tb_key x = tb_key b") (simp_all add: bytes_field_update [OF assms])
qed simp

lemma bytes_field_retag: "bytes_field f \<Longrightarrow> f (b\<lparr>tb_Tag := t\<rparr>) = f b"
  by (auto simp: bytes_field_def)

lemma bucket_bytes_fold:
  assumes "bytes_field f" and "\<forall>b \<in> set ms. tb_Kind b = k \<and> tb_Tag b = old"
  shows "bucket_bytes f (kind, tag, hour) (fold (\<lambda>b. upsert_bucket (b\<lparr>tb_Tag := new\<rparr>)) ms bs) =
     bucket_bytes f (kind, tag, hour) bs + (if tag = new then bucket_bytes f (kind, old, hour) ms else 0)"
  using assms(2)
proof (induction ms arbitrary: bs)
  case (Cons m ms)
  let ?m = "m\<lparr>tb_Tag := new\<rparr>"
  have m: "tb_Kind m = k" "tb_Tag m = old" and ms: "\<forall>b \<in> set ms. tb_Kind b = k \<and> tb_Tag b = old"
    using Cons.prems by simp_all
  have keys: "tb_key m = (k, old, tb_Hour m)" "tb_key ?m = (k, new, tb_Hour m)" using m by (simp_all add: tb_key_def)
  have up: "bucket_bytes f (kind, tag, hour) (upsert_bucket ?m bs) =
      bucket_bytes f (kind, tag, hour) bs + (if (k, new, tb_Hour m) = (kind, tag, hour) then f m else 0)"
    using bucket_bytes_upsert [OF assms(1), of "(kind, tag, hour)" ?m bs] keys(2)
    by (simp only: bytes_field_retag [OF assms(1)])
  have "bucket_bytes f (kind, tag, hour) (fold (\<lambda>b. upsert_bucket (b\<lparr>tb_Tag := new\<rparr>)) (m # ms) bs) =
      bucket_bytes f (kind, tag, hour) (upsert_bucket ?m bs) + (if tag = new then bucket_bytes f (kind, old, hour) ms else 0)"
    using Cons.IH [OF ms, of "upsert_bucket ?m bs"] by (simp only: fold_Cons comp_apply)
  then show ?case using up keys(1) by auto
qed simp

lemma bucket_bytes_filter:
  "bucket_bytes f (kind, tag, hour) (filter (\<lambda>b. tb_Kind b = k \<and> tb_Tag b = t) bs) =
     (if kind = k \<and> tag = t then bucket_bytes f (kind, tag, hour) bs else 0)"
  by (induction bs) (auto simp: tb_key_def)

lemma bucket_bytes_delete:
  "bucket_bytes f (kind, tag, hour) (delete_where (\<lambda>b. tb_Kind b = k \<and> tb_Tag b = t) bs) =
     (if kind = k \<and> tag = t then 0 else bucket_bytes f (kind, tag, hour) bs)"
  by (induction bs) (auto simp: tb_key_def delete_where_def)

lemma moveTrafficTag_buckets:
  "old \<noteq> new \<Longrightarrow> db_buckets (moveTrafficTag k old new n d) =
     delete_where (\<lambda>b. tb_Kind b = k \<and> tb_Tag b = old)
       (fold (\<lambda>b. upsert_bucket (b\<lparr>tb_Tag := new\<rparr>)) (filter (\<lambda>b. tb_Kind b = k \<and> tb_Tag b = old) (db_buckets d)) (db_buckets d))"
  by (auto simp: moveTrafficTag_def Let_def split: option.splits)

section \<open>Properties\<close>

text \<open>C4. A node is active exactly when its subscription is enabled, it is not overridden off, and it
  is pinned or fewer than the cap of the nodes before it (in insertion order) count against the cap;
  overridden-off and pinned nodes do not count.\<close>

theorem recomputeActive_spec:
  assumes "recomputeActive d subID = Ok d'" and "find_row (\<lambda>s. sub_ID s = subID) (db_subs d) = Ok sub"
    and "distinct (map nd_ID (db_nodes d))" and "sub_nodes d subID = pre @ n # post"
  shows "n\<lparr>nd_Active := sub_Enabled sub \<and> nd_Fingerprint n \<notin> set (DisabledFingerprints d subID) \<and>
      (nd_Fingerprint n \<in> set (PinnedFingerprints d subID) \<or>
       int (length (filter (consumes_cap (DisabledFingerprints d subID) (PinnedFingerprints d subID)) pre)) < EffectiveCap sub)\<rparr>
    \<in> set (sub_nodes d' subID)"
proof -
  have dist: "distinct (map nd_ID (pre @ n # post))"
    using assms(3) unfolding assms(4) [symmetric] sub_nodes_def by (rule distinct_map_filter)
  from assms(1) obtain sub' where r: "find_row (\<lambda>s. sub_ID s = subID) (db_subs d) = Ok sub'"
    "d' = d\<lparr>db_nodes := map (set_active (want_active (sub_Enabled sub') (DisabledFingerprints d subID)
               (PinnedFingerprints d subID) (EffectiveCap sub') 0 (sub_nodes d subID))) (db_nodes d)\<rparr>"
    by (rule recomputeActive_Ok)
  have n: "n \<in> set (db_nodes d)" "nd_SubID n = subID"
    using assms(4) by (auto simp: sub_nodes_def filter_eq_Cons_iff dest!: arg_cong [where f = set])
  have "sub' = sub" using r(1) assms(2) by simp
  then show ?thesis
    using want_active_at [OF dist, of "sub_Enabled sub" "DisabledFingerprints d subID" "PinnedFingerprints d subID" "EffectiveCap sub" 0] n
    by (auto simp: r(2) sub_nodes_def assms(4) [unfolded sub_nodes_def] set_active_def image_iff intro!: bexI [of _ n])
qed

definition demo_entry :: "nat \<Rightarrow> string \<Rightarrow> string \<Rightarrow> xray_entry" where
  "demo_entry i name dialer = \<lparr>e_ID = i, e_Name = name, e_Outbound = Some (JObj []), e_Enabled = True, e_Dialer = dialer, e_Mux = False\<rparr>"

definition demo_node :: "nat \<Rightarrow> string \<Rightarrow> bool \<Rightarrow> sub_node" where
  "demo_node i fp act = \<lparr>nd_ID = i, nd_SubID = 1, nd_Name = fp, nd_Fingerprint = fp, nd_Outbound = None, nd_Active = act, nd_LastLatencyMs = 0\<rparr>"

definition demo_sub :: subscription where
  "demo_sub = \<lparr>sub_ID = 1, sub_Name = ''s'', sub_URL = [], sub_UserAgent = [], sub_IntervalSec = 0, sub_NodeCap = 1,
        sub_Enabled = True, sub_Strategy = [], sub_LastFetched = None, sub_LastError = [], sub_Upload = 0, sub_Download = 0,
        sub_Total = 0, sub_Expire = 0\<rparr>"

definition demo_db :: db where
  "demo_db = \<lparr>db_next = 9, db_subs = [demo_sub], db_nodes = [demo_node 1 ''f1'' False, demo_node 2 ''f2'' True],
     db_overrides = [], db_entries = [demo_entry 3 ''old'' [], demo_entry 4 ''mst'' ''xray:old''], db_inbounds = [],
     db_users = [], db_buckets = [], db_totals = [], db_settings = []\<rparr>"

lemma recomputeActive_spec_witness:
  "\<exists>d'. recomputeActive demo_db 1 = Ok d' \<and> demo_node 2 ''f2'' False \<in> set (sub_nodes d' 1)"
proof -
  have f: "find_row (\<lambda>s. sub_ID s = 1) (db_subs demo_db) = Ok demo_sub"
    by (simp add: demo_db_def demo_sub_def find_row_def)
  obtain d' where d': "recomputeActive demo_db 1 = Ok d'" using f by (simp add: recomputeActive_def)
  have "sub_nodes demo_db 1 = [demo_node 1 ''f1'' False] @ demo_node 2 ''f2'' True # []"
    by (simp add: demo_db_def sub_nodes_def demo_node_def)
  from recomputeActive_spec [OF d' f _ this] d' show ?thesis
    by (simp add: demo_db_def demo_node_def demo_sub_def DisabledFingerprints_def PinnedFingerprints_def consumes_cap_def EffectiveCap_def)
qed

text \<open>C3. Whatever sequence of pins, disables, refreshes and toggles runs, no node is both pinned
  and disabled, and rows stay unique.\<close>

theorem node_ops_keep_exclusive:
  assumes "node_inv d"
  shows "node_inv (fold node_step ops d)"
  using assms by (rule node_run.run_inv)

lemma node_ops_keep_exclusive_witness:
  "node_inv (fold node_step [PinNode 1 ''f1'' True, DisableNode 1 ''f1'' True] demo_db)"
  by (rule node_ops_keep_exclusive) (simp add: node_inv_def demo_db_def demo_node_def)

text \<open>C5. After a successful rename of an entry no master's dialer refers to the old name and no
  listener targets it, however either was spelled.\<close>

theorem RenameEntry_no_old_refs:
  assumes "RenameEntry d i newName = Ok d'" and "GetEntry d i = Ok e"
    and "NormalizeName (e_Name e) = e_Name e" and "ValidName newName \<noteq> Inr (e_Name e)"
  shows "list_all (\<lambda>m. \<not> names_ref RefXray (e_Name e) (e_Dialer m)) (db_entries d') \<and>
    list_all (\<lambda>x. \<not> targets_entry (e_Name e) (in_Target x)) (db_inbounds d')"
proof -
  obtain new where new: "ValidName newName = Inr new" using assms(1) by (auto simp: RenameEntry_def split: sum.splits)
  have ne: "new \<noteq> NormalizeName (e_Name e)" using new assms(3,4) by auto
  have kind: "RefXray \<in> set ref_kinds" by (simp add: ref_kinds_def)
  let ?d = "d\<lparr>db_entries := update_where (\<lambda>x. e_ID x = i) (e_Name_update (\<lambda>_. new)) (db_entries d)\<rparr>"
  have d': "d' = moveTrafficTag ''outbound'' (OutboundTag (e_Name e)) (OutboundTag new) new
                 (renameInboundTargets (e_Name e) new (cascadeRename RefXray (e_Name e) new ?d))"
    using assms(1,2) new ne assms(3) by (auto simp: RenameEntry_def GetEntry_def split: if_splits)
  show ?thesis
    using cascadeRename_gone [OF new kind ne, of _ ?d] retarget_gone [OF new ne]
    by (auto simp: d' list_all_iff renameInboundTargets_def assms(3))
qed

lemma RenameEntry_no_old_refs_witness:
  "\<exists>d'. RenameEntry demo_db 3 ''new'' = Ok d' \<and> list_all (\<lambda>m. \<not> names_ref RefXray ''old'' (e_Dialer m)) (db_entries d')"
proof -
  have v: "ValidName ''new'' = Inr ''new''" "NormalizeName ''old'' = ''old''" by code_simp+
  have g: "GetEntry demo_db 3 = Ok (demo_entry 3 ''old'' [])"
    by (simp add: GetEntry_def find_row_def demo_db_def demo_entry_def)
  then obtain d' where d': "RenameEntry demo_db 3 ''new'' = Ok d'"
    using v by (auto simp: RenameEntry_def GetEntry_def demo_db_def demo_entry_def)
  from RenameEntry_no_old_refs [OF d' g] v d' show ?thesis by (simp add: demo_entry_def)
qed

text \<open>Moving a tag's traffic to another tag loses no byte: for every hour the new tag gains
  what the old one had, the old one is left with nothing, and no other tag changes.\<close>

theorem moveTrafficTag_conserves:
  assumes "old \<noteq> new" and "bytes_field f"
  shows "bucket_bytes f (kind, new, hour) (db_buckets (moveTrafficTag kind old new name d)) =
      bucket_bytes f (kind, new, hour) (db_buckets d) + bucket_bytes f (kind, old, hour) (db_buckets d) \<and>
    bucket_bytes f (kind, old, hour) (db_buckets (moveTrafficTag kind old new name d)) = 0 \<and>
    (tag \<notin> {old, new} \<longrightarrow> bucket_bytes f (kind, tag, hour) (db_buckets (moveTrafficTag kind old new name d)) =
      bucket_bytes f (kind, tag, hour) (db_buckets d))"
proof -
  have all: "\<forall>b \<in> set (filter (\<lambda>b. tb_Kind b = kind \<and> tb_Tag b = old) (db_buckets d)). tb_Kind b = kind \<and> tb_Tag b = old" by simp
  show ?thesis
    using assms by (auto simp: moveTrafficTag_buckets bucket_bytes_delete bucket_bytes_fold [OF assms(2) all] bucket_bytes_filter)
qed

lemma moveTrafficTag_conserves_witness:
  "bucket_bytes tb_Up (''outbound'', ''out-a'', 0) (db_buckets (moveTrafficTag ''outbound'' ''out-b'' ''out-a'' ''a'' demo_db)) =
     bucket_bytes tb_Up (''outbound'', ''out-a'', 0) (db_buckets demo_db) + bucket_bytes tb_Up (''outbound'', ''out-b'', 0) (db_buckets demo_db)"
  using moveTrafficTag_conserves [of "''out-b''" "''out-a''" tb_Up "''outbound''" 0 "''a''" demo_db "[]"]
  by (simp add: bytes_field_def)

text \<open>A copy of a password-protected socks listener comes out with an empty password, and a copy
  of a hysteria listener with the source's own secret: \<^verbatim>\<open>DuplicateInbound\<close> does not give
  either of them fresh credentials.\<close>

theorem DuplicateInbound_stale_credentials:
  assumes "DuplicateInbound orm g pathkey d i newName = Ok (d', dup)"
    and "find_row (\<lambda>x. in_ID x = i) (db_inbounds d) = Ok src" and "\<not> IsCaddyXHTTP src"
  shows "(in_Protocol src = ''socks'' \<and> in_SocksUser src \<noteq> [] \<longrightarrow> in_SocksUser dup = in_SocksUser src \<and> in_Password dup = []) \<and>
    (in_Protocol src = ''hysteria'' \<and> in_HysteriaAuth src \<noteq> [] \<longrightarrow> in_HysteriaAuth dup = in_HysteriaAuth src)"
proof -
  obtain m where m: "Materialize g (inbound_copy src newName) = Ok m" "CreateInbound orm d m = Ok (d', dup)"
    using assms by (auto simp: DuplicateInbound_def Let_def split: outcome.splits)
  obtain a b c where s: "mat_transport (inbound_copy src newName) = Ok a" "mat_credentials g a = Ok b"
    "mat_reality g b = Ok c" "mat_tls g c = Ok m"
    using m(1) by (auto simp: Materialize_def)
  have cm: "credential_fields m = credential_fields b"
    using mat_reality_keeps [OF s(3)] mat_tls_keeps(2) [OF s(4)] by simp
  have dup: "credential_fields dup = credential_fields m"
    using m(2) by (auto simp: CreateInbound_def Let_def credential_fields_def split: sum.splits if_split_asm)
  have a: "credential_fields a = credential_fields (inbound_copy src newName)" "in_Protocol a = in_Protocol (inbound_copy src newName)"
    using mat_transport_keeps [OF s(1)] by simp_all
  then have p: "in_Protocol a = in_Protocol src" by (simp add: inbound_copy_def)
  have c: "in_SocksUser a = in_SocksUser src" "in_HysteriaAuth a = in_HysteriaAuth src" "in_Password a = []"
    using a(1) by (simp_all add: credential_fields_def inbound_copy_def)
  have "b = a" if "in_Protocol src = ''socks'' \<and> in_SocksUser src \<noteq> [] \<or> in_Protocol src = ''hysteria'' \<and> in_HysteriaAuth src \<noteq> []"
  proof -
    have "credentials_ok a" using that by (auto simp: credentials_ok_def p c)
    from mat_credentials_id [OF this, of g] s(2) show ?thesis by simp
  qed
  note ba = this
  have dc: "credential_fields dup = credential_fields b" using dup cm by simp
  show ?thesis
  proof (intro conjI impI)
    assume h: "in_Protocol src = ''socks'' \<and> in_SocksUser src \<noteq> []"
    then have "b = a" using ba by blast
    with dc c show "in_SocksUser dup = in_SocksUser src" "in_Password dup = []" by (simp_all add: credential_fields_def)
  next
    assume h: "in_Protocol src = ''hysteria'' \<and> in_HysteriaAuth src \<noteq> []"
    then have "b = a" using ba by blast
    with dc c show "in_HysteriaAuth dup = in_HysteriaAuth src" by (simp add: credential_fields_def)
  qed
qed

definition demo_socks :: inbound where
  "demo_socks = blank_inbound\<lparr>in_ID := 5, in_Name := ''tg'', in_Protocol := ''socks'', in_Listen := ''0.0.0.0'', in_Port := 11800,
     in_Network := ''tcp'', in_Security := ''none'', in_SocksUser := ''ab12'', in_Password := ''secret'', in_Target := ''direct''\<rparr>"

definition demo_gen :: keygen where
  "demo_gen = \<lparr>kg_uuid = Some ''u'', kg_password = Some ''p'', kg_shortid = (\<lambda>_. Some ''s''), kg_reality = Some (''a'', ''b''), kg_tls = (\<lambda>_. Some (''c'', ''k''))\<rparr>"

lemma DuplicateInbound_stale_credentials_witness:
  "\<exists>d' dup. DuplicateInbound (\<lambda>_. True) demo_gen None (demo_db\<lparr>db_inbounds := [demo_socks]\<rparr>) 5 ''tg2'' = Ok (d', dup) \<and> in_Password dup = []"
proof -
  let ?d = "demo_db\<lparr>db_inbounds := [demo_socks]\<rparr>"
  have f: "find_row (\<lambda>x. in_ID x = 5) (db_inbounds ?d) = Ok demo_socks" by (simp add: find_row_def demo_socks_def)
  have nc: "\<not> IsCaddyXHTTP demo_socks" by (simp add: IsCaddyXHTTP_def demo_socks_def)
  have v: "ValidName ''tg2'' = Inr ''tg2''" "NormalizeName ''tg2'' = ''tg2''" "ParseTarget ''direct'' = Inr (''direct'', [])" by code_simp+
  have p: "nextFreePort [11800] \<noteq> 0" by (simp add: nextFreePort_def scan_free_def PortStart_def PortEnd_def upt_rec)
  have "\<exists>m. Materialize demo_gen (inbound_copy demo_socks ''tg2'') = Ok m \<and> in_Name m = ''tg2'' \<and> in_Target m = ''direct'' \<and> in_Port m = 0 \<and> \<not> IsUnixInbound m"
    by (simp add: Materialize_def mat_transport_def fill_path_def fill_listen_def fill_mode_def fill_network_def mat_credentials_def
        mat_reality_def mat_tls_def inbound_copy_def demo_socks_def blank_inbound_def v defaultCopyName_def isLoopback_def IsUnixInbound_def IsCaddyXHTTP_def)
  then obtain m where m: "Materialize demo_gen (inbound_copy demo_socks ''tg2'') = Ok m" "in_Name m = ''tg2''" "in_Target m = ''direct''" "in_Port m = 0" "\<not> IsUnixInbound m"
    by blast
  have "\<exists>d' dup. CreateInbound (\<lambda>_. True) ?d m = Ok (d', dup)"
    using m v p by (simp add: CreateInbound_def demo_socks_def blank_inbound_def Let_def)
  then obtain d' dup where "DuplicateInbound (\<lambda>_. True) demo_gen None ?d 5 ''tg2'' = Ok (d', dup)"
    using f nc m(1) by (auto simp: DuplicateInbound_def Let_def)
  from DuplicateInbound_stale_credentials [OF this f nc] this show ?thesis
    by (auto simp: demo_socks_def)
qed

end
