(* ===== verification/Node_Pick.thy ===== *)
theory Node_Pick
  imports Slots
begin

text \<open>
  \<^verbatim>\<open>daemon/nodepick.go\<close>: the scores kept per pool member and the ranking built on them. A
  score is a moving average of the success ratio and of the latency; the stable pick keeps an
  incumbent unless it is clearly beaten, the agile pick follows the latest round, and a member that
  fails a master's chain probe ranks below every member that might carry it. The floating-point
  averages are rationals here, and a nil \<^verbatim>\<open>*nodeScore\<close> is \<^term>\<open>None\<close>.
\<close>

section \<open>Tiers and chain classes\<close>

datatype tier = TierHealthy | TierUnknown | TierSuspect | TierChainBad | TierDead

datatype chain_class = ChainGood | ChainUnknown | ChainBad

fun tier_index :: "tier \<Rightarrow> nat" where
  "tier_index TierHealthy = 0"
| "tier_index TierUnknown = 1"
| "tier_index TierSuspect = 2"
| "tier_index TierChainBad = 3"
| "tier_index TierDead = 4"

fun class_index :: "chain_class \<Rightarrow> nat" where
  "class_index ChainGood = 0"
| "class_index ChainUnknown = 1"
| "class_index ChainBad = 2"

lemma tier_index_inj [simp]: "tier_index a = tier_index b \<longleftrightarrow> a = b"
  by (cases a; cases b) auto

lemma class_index_inj [simp]: "class_index a = class_index b \<longleftrightarrow> a = b"
  by (cases a; cases b) auto

instantiation tier :: linorder
begin

definition less_eq_tier :: "tier \<Rightarrow> tier \<Rightarrow> bool" where
  "less_eq_tier a b \<longleftrightarrow> tier_index a \<le> tier_index b"

definition less_tier :: "tier \<Rightarrow> tier \<Rightarrow> bool" where
  "less_tier a b \<longleftrightarrow> tier_index a < tier_index b"

instance
  by standard (auto simp: less_eq_tier_def less_tier_def simp flip: tier_index_inj)

end

instantiation chain_class :: linorder
begin

definition less_eq_chain_class :: "chain_class \<Rightarrow> chain_class \<Rightarrow> bool" where
  "less_eq_chain_class a b \<longleftrightarrow> class_index a \<le> class_index b"

definition less_chain_class :: "chain_class \<Rightarrow> chain_class \<Rightarrow> bool" where
  "less_chain_class a b \<longleftrightarrow> class_index a < class_index b"

instance
  by standard (auto simp: less_eq_chain_class_def less_chain_class_def simp flip: class_index_inj)

end

lemmas rank_orders = less_eq_tier_def less_tier_def less_eq_chain_class_def less_chain_class_def

record chain_verdict =
  v_class :: chain_class
  v_cost :: rat

type_synonym chain_view = "(string, chain_verdict) dict"

definition verdict_of :: "chain_view \<Rightarrow> string \<Rightarrow> chain_verdict" where
  "verdict_of v key = dget_or \<lparr>v_class = ChainUnknown, v_cost = 0\<rparr> v key"

section \<open>Scores\<close>

record node_status =
  st_Alive :: bool
  st_Delay :: int
  st_All :: int
  st_Fail :: int

record node_score =
  sc_ok :: rat
  sc_rttMs :: rat
  sc_lastRTT :: rat
  sc_hasRTT :: bool
  sc_alive :: bool
  sc_clean :: bool
  sc_sampled :: bool
  sc_wentDown :: bool

type_synonym scores = "(string, node_score) dict"

definition nodePickCount :: nat where "nodePickCount = 3"
definition agileActiveMax :: nat where "agileActiveMax = 4"
definition nodeScoreAlpha :: rat where "nodeScoreAlpha = 3 / 20"
definition nodeHealthyRatio :: rat where "nodeHealthyRatio = 4 / 5"
definition nodeStickyRatio :: rat where "nodeStickyRatio = 5 / 4"
definition nodeStickyMs :: rat where "nodeStickyMs = 40"

text \<open>The tags of the loaded members, each once (the keys of the Go map \<^verbatim>\<open>loaded\<close>).\<close>

definition loaded_tags :: "slot list \<Rightarrow> string list" where
  "loaded_tags slots = remdups (concat (map (\<lambda>sl. map (\<lambda>m. SlotMemberTag (s_Index sl) (m_Key m)) (s_Members sl)) slots))"

definition sampled_status :: "(string, node_status) dict \<Rightarrow> string \<Rightarrow> node_status option" where
  "sampled_status byTag tag = (case map_of byTag tag of Some st \<Rightarrow> if st_All st > 0 then Some st else None | None \<Rightarrow> None)"

definition ok_ratio :: "node_status \<Rightarrow> rat" where
  "ok_ratio st = of_int (st_All st - st_Fail st) / of_int (st_All st)"

text \<open>One sampled round of one member: \<^verbatim>\<open>sc\<close> is its score so far.\<close>

definition fold_ratio :: "node_status \<Rightarrow> node_score option \<Rightarrow> node_score" where
  "fold_ratio st sc =
     (case sc of
        None \<Rightarrow> \<lparr>sc_ok = ok_ratio st, sc_rttMs = 0, sc_lastRTT = 0, sc_hasRTT = False, sc_alive = False,
                 sc_clean = False, sc_sampled = False, sc_wentDown = False\<rparr>
      | Some s \<Rightarrow> s\<lparr>sc_ok := sc_ok s + nodeScoreAlpha * (ok_ratio st - sc_ok s)\<rparr>)"

definition fold_delay :: "node_status \<Rightarrow> node_score \<Rightarrow> node_score" where
  "fold_delay st s =
     (if st_Alive st \<and> st_Delay st > 0
      then s\<lparr>sc_lastRTT := of_int (st_Delay st),
             sc_rttMs := (if sc_hasRTT s then sc_rttMs s + nodeScoreAlpha * (of_int (st_Delay st) - sc_rttMs s)
                          else of_int (st_Delay st)),
             sc_hasRTT := True\<rparr>
      else s)"

definition fold_status :: "node_status \<Rightarrow> node_score option \<Rightarrow> node_score" where
  "fold_status st sc =
     (let s = fold_ratio st sc
      in (fold_delay st (s\<lparr>sc_wentDown := sc_sampled s \<and> sc_alive s \<and> \<not> st_Alive st\<rparr>))
           \<lparr>sc_alive := st_Alive st, sc_clean := (st_Fail st = 0), sc_sampled := True\<rparr>)"

definition observe_tag :: "(string, node_status) dict \<Rightarrow> string \<Rightarrow> scores \<Rightarrow> scores" where
  "observe_tag byTag tag scs =
     (case sampled_status byTag tag of
        Some st \<Rightarrow> dput tag (fold_status st (map_of scs tag)) scs
      | None \<Rightarrow> (case map_of scs tag of Some s \<Rightarrow> dput tag (s\<lparr>sc_sampled := False\<rparr>) scs | None \<Rightarrow> scs))"

definition any_sampled :: "slot list \<Rightarrow> (string, node_status) dict \<Rightarrow> bool" where
  "any_sampled slots byTag \<longleftrightarrow> list_ex (\<lambda>t. sampled_status byTag t \<noteq> None) (loaded_tags slots)"

definition any_alive :: "slot list \<Rightarrow> (string, node_status) dict \<Rightarrow> bool" where
  "any_alive slots byTag \<longleftrightarrow>
     list_ex (\<lambda>t. case sampled_status byTag t of Some st \<Rightarrow> st_Alive st | None \<Rightarrow> False) (loaded_tags slots)"

definition settle_scores :: "slot list \<Rightarrow> scores \<Rightarrow> scores" where
  "settle_scores slots scs =
     map (\<lambda>(t, s). (t, s\<lparr>sc_wentDown := False\<rparr>)) (filter (\<lambda>p. fst p \<in> set (loaded_tags slots)) scs)"

text \<open>The new scores, and whether the poll says anything about the nodes.\<close>

definition pick_observe :: "slot list \<Rightarrow> (string, node_status) dict \<Rightarrow> scores \<Rightarrow> scores \<times> bool" where
  "pick_observe slots byTag scs =
     (let settled = settle_scores slots scs
      in if any_sampled slots byTag \<and> \<not> any_alive slots byTag then (settled, False)
         else (fold (observe_tag byTag) (loaded_tags slots) settled, True))"

definition tier_of :: "node_score option \<Rightarrow> tier" where
  "tier_of sc =
     (case sc of
        None \<Rightarrow> TierUnknown
      | Some s \<Rightarrow>
          if \<not> sc_sampled s then TierUnknown
          else if \<not> sc_alive s then TierDead
          else if \<not> sc_clean s \<or> sc_ok s < nodeHealthyRatio \<or> \<not> sc_hasRTT s then TierSuspect
          else TierHealthy)"

definition score_cost :: "node_score \<Rightarrow> rat" where
  "score_cost s = (let ok = if sc_ok s < 1 / 20 then 1 / 20 else sc_ok s in sc_rttMs s / (ok * ok))"

definition score_at :: "scores \<Rightarrow> nat \<Rightarrow> string \<Rightarrow> node_score option" where
  "score_at scs idx key = map_of scs (SlotMemberTag idx key)"

definition knownDead :: "scores \<Rightarrow> string \<Rightarrow> bool" where
  "knownDead scs tag = (case map_of scs tag of Some s \<Rightarrow> sc_sampled s \<and> \<not> sc_alive s | None \<Rightarrow> False)"

definition wentDown :: "scores \<Rightarrow> slot \<Rightarrow> string list" where
  "wentDown scs sl =
     map m_Key (filter (\<lambda>m. case score_at scs (s_Index sl) (m_Key m) of Some s \<Rightarrow> sc_wentDown s | None \<Rightarrow> False)
       (s_Members sl))"

definition samePick :: "string list \<Rightarrow> string list \<Rightarrow> bool" where
  "samePick a b \<longleftrightarrow> a = b"

section \<open>The stable ranking\<close>

record cand =
  c_key :: string
  c_tier :: tier
  c_class :: chain_class
  c_sc :: "node_score option"
  c_raw :: rat
  c_inc :: bool

definition mk_cand :: "scores \<Rightarrow> nat \<Rightarrow> string list \<Rightarrow> chain_view \<Rightarrow> slot_member \<Rightarrow> cand" where
  "mk_cand scs idx incumbent cv m =
     (let sc = score_at scs idx (m_Key m); v = verdict_of cv (m_Key m);
          t = (if v_class v = ChainBad \<and> tier_of sc \<noteq> TierDead then TierChainBad else tier_of sc)
      in \<lparr>c_key = m_Key m, c_tier = t, c_class = v_class v, c_sc = sc,
          c_raw = (if t = TierHealthy
                   then (if v_class v = ChainGood then v_cost v
                         else (case sc of Some s \<Rightarrow> score_cost s | None \<Rightarrow> 0))
                   else 0),
          c_inc = (m_Key m \<in> set incumbent)\<rparr>)"

definition sticky :: "bool \<Rightarrow> rat \<Rightarrow> rat" where
  "sticky inc c = (if inc then c / nodeStickyRatio - nodeStickyMs else c)"

definition cand_cost :: "cand \<Rightarrow> rat" where
  "cand_cost c = (if c_tier c = TierHealthy then sticky (c_inc c) (c_raw c) else 0)"

text \<open>The order of \<^verbatim>\<open>rank\<close>, from its last key to its first: incumbency and name; the record
  of a member that is not healthy; the cost of a healthy one; class; tier.\<close>

definition lt_name :: "cand \<Rightarrow> cand \<Rightarrow> bool" where
  "lt_name a b = (if c_inc a \<noteq> c_inc b then c_inc a > c_inc b else c_key a < c_key b)"

definition c_ok :: "cand \<Rightarrow> rat" where "c_ok c = (case c_sc c of Some s \<Rightarrow> sc_ok s | None \<Rightarrow> 0)"
definition c_hasRTT :: "cand \<Rightarrow> bool" where "c_hasRTT c = (case c_sc c of Some s \<Rightarrow> sc_hasRTT s | None \<Rightarrow> False)"
definition c_rttMs :: "cand \<Rightarrow> rat" where "c_rttMs c = (case c_sc c of Some s \<Rightarrow> sc_rttMs s | None \<Rightarrow> 0)"

definition lt_record :: "cand \<Rightarrow> cand \<Rightarrow> bool" where
  "lt_record a b =
     (if (c_sc a = None) \<noteq> (c_sc b = None) then (c_sc a = None) < (c_sc b = None)
      else if c_ok a \<noteq> c_ok b then c_ok a > c_ok b
      else if c_hasRTT a \<noteq> c_hasRTT b then c_hasRTT a > c_hasRTT b
      else if c_rttMs a \<noteq> c_rttMs b then c_rttMs a < c_rttMs b
      else lt_name a b)"

definition lt_cost :: "cand \<Rightarrow> cand \<Rightarrow> bool" where
  "lt_cost a b = (if cand_cost a \<noteq> cand_cost b then cand_cost a < cand_cost b else lt_name a b)"

fun lt_within :: "tier \<Rightarrow> cand \<Rightarrow> cand \<Rightarrow> bool" where
  "lt_within TierHealthy a b = lt_cost a b"
| "lt_within TierUnknown a b = lt_name a b"
| "lt_within t a b = lt_record a b"

definition lt_class :: "tier \<Rightarrow> cand \<Rightarrow> cand \<Rightarrow> bool" where
  "lt_class t a b = (if c_class a \<noteq> c_class b then c_class a < c_class b else lt_within t a b)"

definition lt_cand :: "cand \<Rightarrow> cand \<Rightarrow> bool" where
  "lt_cand a b = (if c_tier a \<noteq> c_tier b then c_tier a < c_tier b else lt_class (c_tier a) a b)"

definition rank :: "cand list \<Rightarrow> cand list" where
  "rank cs = go_sort lt_cand cs"

text \<open>The number of active members: an active chain-failed member at the end goes while one that is
  not failed leads.\<close>

fun shrink_active :: "cand list \<Rightarrow> nat \<Rightarrow> nat" where
  "shrink_active tops (Suc (Suc n)) =
     (if c_tier (tops ! 0) \<noteq> TierChainBad \<and> c_tier (tops ! Suc n) = TierChainBad
      then shrink_active tops (Suc n) else Suc (Suc n))"
| "shrink_active tops n = n"

definition spare_end :: "cand list \<Rightarrow> nat \<Rightarrow> nat" where
  "spare_end tops active =
     (if tops = [] \<or> c_tier (tops ! 0) = TierChainBad then length tops
      else active + length (takeWhile (\<lambda>c. c_tier c \<noteq> TierChainBad) (drop active tops)))"

definition picked_top :: "scores \<Rightarrow> nat \<Rightarrow> slot_member list \<Rightarrow> string list \<Rightarrow> chain_view \<Rightarrow> cand list" where
  "picked_top scs idx members incumbent cv =
     rank (map (\<lambda>c. c\<lparr>c_inc := c_key c \<in> set (take SlotBalancerExpected incumbent)\<rparr>)
       (take nodePickCount (rank (map (mk_cand scs idx incumbent cv) members))))"

definition scored :: "scores \<Rightarrow> nat \<Rightarrow> slot_member list \<Rightarrow> bool" where
  "scored scs idx members = list_ex (\<lambda>m. tier_of (score_at scs idx (m_Key m)) \<noteq> TierUnknown) members"

definition pickStableLocked ::
    "scores \<Rightarrow> nat \<Rightarrow> slot_member list \<Rightarrow> string list \<Rightarrow> chain_view \<Rightarrow> string list \<times> nat" where
  "pickStableLocked scs idx members incumbent cv =
     (if \<not> scored scs idx members then ([], 0)
      else (let tops = picked_top scs idx members incumbent cv;
                active = shrink_active tops (min SlotBalancerExpected (length tops));
                out = map c_key (take (spare_end tops active) tops)
            in (sort (take active out) @ drop active out, active)))"

definition pick :: "scores \<Rightarrow> nat \<Rightarrow> slot_member list \<Rightarrow> string list \<Rightarrow> chain_view \<Rightarrow> string list \<times> nat" where
  "pick scs idx members incumbent cv =
     (if members = [] then ([], 0) else pickStableLocked scs idx members incumbent cv)"

section \<open>The agile ranking\<close>

record acand =
  a_key :: string
  a_sc :: "node_score option"
  a_class :: chain_class
  a_cost :: rat

definition live_cand :: "string list \<Rightarrow> chain_view \<Rightarrow> string \<Rightarrow> node_score \<Rightarrow> acand" where
  "live_cand wasActive cv key s =
     (let v = verdict_of cv key;
          rtt = (if sc_lastRTT s = 0 then sc_rttMs s else sc_lastRTT s);
          cost = (if v_class v = ChainGood then v_cost v else rtt)
      in \<lparr>a_key = key, a_sc = Some s, a_class = v_class v, a_cost = sticky (key \<in> set wasActive) cost\<rparr>)"

definition live_score :: "scores \<Rightarrow> nat \<Rightarrow> slot_member \<Rightarrow> node_score option" where
  "live_score scs idx m =
     (case score_at scs idx (m_Key m) of
        Some s \<Rightarrow> if sc_sampled s \<and> sc_alive s then Some s else None
      | None \<Rightarrow> None)"

definition live_cands :: "scores \<Rightarrow> nat \<Rightarrow> string list \<Rightarrow> chain_view \<Rightarrow> slot_member list \<Rightarrow> acand list" where
  "live_cands scs idx wasActive cv members =
     List.map_filter (\<lambda>m. map_option (live_cand wasActive cv (m_Key m)) (live_score scs idx m)) members"

definition rest_cands :: "scores \<Rightarrow> nat \<Rightarrow> slot_member list \<Rightarrow> acand list" where
  "rest_cands scs idx members =
     map (\<lambda>m. \<lparr>a_key = m_Key m, a_sc = score_at scs idx (m_Key m), a_class = ChainGood, a_cost = 0\<rparr>)
       (filter (\<lambda>m. live_score scs idx m = None) members)"

definition a_sampled :: "scores \<Rightarrow> nat \<Rightarrow> slot_member \<Rightarrow> bool" where
  "a_sampled scs idx m = (case score_at scs idx (m_Key m) of Some s \<Rightarrow> sc_sampled s | None \<Rightarrow> False)"

definition lt_agile_cost :: "acand \<Rightarrow> acand \<Rightarrow> bool" where
  "lt_agile_cost a b = (if a_cost a \<noteq> a_cost b then a_cost a < a_cost b else a_key a < a_key b)"

definition lt_agile :: "acand \<Rightarrow> acand \<Rightarrow> bool" where
  "lt_agile a b = (if a_class a \<noteq> a_class b then a_class a < a_class b else lt_agile_cost a b)"

definition a_ok :: "acand \<Rightarrow> rat" where "a_ok c = (case a_sc c of Some s \<Rightarrow> sc_ok s | None \<Rightarrow> 0)"

definition lt_rest :: "acand \<Rightarrow> acand \<Rightarrow> bool" where
  "lt_rest a b =
     (if (a_sc a = None) \<noteq> (a_sc b = None) then (a_sc a = None) < (a_sc b = None)
      else if a_ok a \<noteq> a_ok b then a_ok a > a_ok b
      else a_key a < a_key b)"

definition agile_order :: "acand list \<Rightarrow> acand list" where
  "agile_order live =
     (let good = filter (\<lambda>c. a_class c \<noteq> ChainBad) live
      in go_sort lt_agile (if good = [] then go_sort lt_agile live else good))"

definition agile_spare :: "acand list \<Rightarrow> acand list \<Rightarrow> string list" where
  "agile_spare order rest =
     (if length order > agileActiveMax then [a_key (order ! agileActiveMax)]
      else map a_key (take 1 (go_sort lt_rest rest)))"

definition pickAgile ::
    "scores \<Rightarrow> nat \<Rightarrow> slot_member list \<Rightarrow> string list \<Rightarrow> nat \<Rightarrow> chain_view \<Rightarrow> string list \<times> nat" where
  "pickAgile scs idx members incumbent incActive cv =
     (if \<not> list_ex (a_sampled scs idx) members then ([], 0)
      else (let order = agile_order (live_cands scs idx (take incActive incumbent) cv members);
                n = min (length order) agileActiveMax
            in if order = [] then pickStableLocked scs idx members incumbent cv
               else (sort (map a_key (take n order)) @ agile_spare order (rest_cands scs idx members), n)))"

section \<open>Picking by strategy\<close>

definition pickFor :: "scores \<Rightarrow> slot \<Rightarrow> master_pick \<Rightarrow> chain_view \<Rightarrow> string list \<times> nat" where
  "pickFor scs sl prev cv =
     (if Manual sl then (s_Pinned sl, length (s_Pinned sl))
      else if Agile sl then pickAgile scs (s_Index sl) (s_Members sl) (p_Picked prev) (ActiveCount prev) cv
      else pick scs (s_Index sl) (s_Members sl) (p_Picked prev) cv)"

text \<open>The pool's own order, its comparator as the code has it (the comparison falls through to the
  names when one of the scores is missing).\<close>

record pcand =
  o_key :: string
  o_tier :: tier
  o_sc :: "node_score option"

definition lt_pool :: "pcand \<Rightarrow> pcand \<Rightarrow> bool" where
  "lt_pool a b =
     (if o_tier a \<noteq> o_tier b then o_tier a < o_tier b
      else case (o_sc a, o_sc b) of
        (Some x, Some y) \<Rightarrow>
          if o_tier a = TierHealthy then score_cost x < score_cost y
          else if sc_ok x \<noteq> sc_ok y then sc_ok x > sc_ok y
          else o_key a < o_key b
      | _ \<Rightarrow> o_key a < o_key b)"

definition pool_cands :: "scores \<Rightarrow> nat \<Rightarrow> slot_member list \<Rightarrow> pcand list" where
  "pool_cands scs idx members =
     filter (\<lambda>c. o_tier c \<noteq> TierDead)
       (map (\<lambda>m. let sc = score_at scs idx (m_Key m) in \<lparr>o_key = m_Key m, o_tier = tier_of sc, o_sc = sc\<rparr>) members)"

definition poolOrder :: "scores \<Rightarrow> nat \<Rightarrow> slot_member list \<Rightarrow> string list" where
  "poolOrder scs idx members = map o_key (go_sort lt_pool (pool_cands scs idx members))"

end
