(* ===== verification/Pick_Props.thy ===== *)
theory Pick_Props
  imports Node_Pick
begin

text \<open>
  What the ranking promises: the comparators are strict weak orders (the pool's own is not), the
  averages stay in range, picks are distinct members of the pool within their limits, a member known
  to fail a master's chain never carries it while another can, an incumbent is only displaced when
  clearly beaten, and a member that answers ten clean rounds is healthy again.
\<close>

section \<open>The comparators\<close>

lemma strict_weak_name: "strict_weak lt_name"
proof -
  have "strict_weak (\<lambda>a b. if c_inc a \<noteq> c_inc b then c_inc a > c_inc b else (\<lambda>_ a b. c_key a < c_key b) (c_inc a) a b)"
    by (rule strict_weak_rkey_dep) (rule strict_weak_key)
  then show ?thesis by (simp add: lt_name_def [abs_def])
qed

lemma strict_weak_cost: "strict_weak lt_cost"
proof -
  have "strict_weak (\<lambda>a b. if cand_cost a \<noteq> cand_cost b then cand_cost a < cand_cost b else (\<lambda>_. lt_name) (cand_cost a) a b)"
    by (rule strict_weak_dep) (rule strict_weak_name)
  then show ?thesis by (simp add: lt_cost_def [abs_def])
qed

lemma strict_weak_record: "strict_weak lt_record"
proof -
  have "strict_weak (\<lambda>a b. if (c_sc a = None) \<noteq> (c_sc b = None) then (c_sc a = None) < (c_sc b = None)
      else (\<lambda>_ a b. if c_ok a \<noteq> c_ok b then c_ok a > c_ok b
      else (\<lambda>_ a b. if c_hasRTT a \<noteq> c_hasRTT b then c_hasRTT a > c_hasRTT b
      else (\<lambda>_ a b. if c_rttMs a \<noteq> c_rttMs b then c_rttMs a < c_rttMs b
      else (\<lambda>_. lt_name) (c_rttMs a) a b) (c_hasRTT a) a b) (c_ok a) a b) (c_sc a = None) a b)"
    by (intro strict_weak_dep strict_weak_rkey_dep strict_weak_name)
  then show ?thesis by (simp add: lt_record_def [abs_def])
qed

interpretation cand_order: strict_weak lt_cand
proof -
  have "lt_within TierHealthy = lt_cost" "lt_within TierUnknown = lt_name" "lt_within TierSuspect = lt_record"
      "lt_within TierChainBad = lt_record" "lt_within TierDead = lt_record"
    by (auto intro!: ext)
  then have "strict_weak (lt_within t)" for t
    by (cases t) (simp_all add: strict_weak_cost strict_weak_record strict_weak_name)
  then have "strict_weak (\<lambda>a b. if c_class a \<noteq> c_class b then c_class a < c_class b else (\<lambda>_. lt_within t) (c_class a) a b)" for t
    by (intro strict_weak_dep)
  then have cls: "strict_weak (lt_class t)" for t
    by (simp add: lt_class_def [abs_def])
  have "strict_weak (\<lambda>a b. if c_tier a \<noteq> c_tier b then c_tier a < c_tier b else lt_class (c_tier a) a b)"
    by (rule strict_weak_dep) (rule cls)
  then show "strict_weak lt_cand" by (simp add: lt_cand_def [abs_def])
qed

interpretation agile_order: strict_weak lt_agile
proof -
  have "strict_weak (\<lambda>a b. if a_cost a \<noteq> a_cost b then a_cost a < a_cost b else (\<lambda>_ a b. a_key a < a_key b) (a_cost a) a b)"
    by (rule strict_weak_dep) (rule strict_weak_key)
  then have cost: "strict_weak lt_agile_cost" by (simp add: lt_agile_cost_def [abs_def])
  have "strict_weak (\<lambda>a b. if a_class a \<noteq> a_class b then a_class a < a_class b else (\<lambda>_. lt_agile_cost) (a_class a) a b)"
    by (rule strict_weak_dep) (rule cost)
  then show "strict_weak lt_agile" by (simp add: lt_agile_def [abs_def])
qed

section \<open>Averages\<close>

interpretation node_ewma: ewma nodeScoreAlpha
  by unfold_locales (simp_all add: nodeScoreAlpha_def)

definition status_ok :: "node_status \<Rightarrow> bool" where
  "status_ok st \<longleftrightarrow> 0 \<le> st_Fail st \<and> st_Fail st \<le> st_All st"

definition score_ok :: "node_score \<Rightarrow> bool" where
  "score_ok s \<longleftrightarrow> 0 \<le> sc_ok s \<and> sc_ok s \<le> 1 \<and> 0 \<le> sc_rttMs s \<and> 0 \<le> sc_lastRTT s"

definition scores_ok :: "scores \<Rightarrow> bool" where
  "scores_ok scs \<longleftrightarrow> list_all (\<lambda>(t, s). score_ok s) scs"

lemma score_ok_flags [simp]:
  "score_ok (s\<lparr>sc_sampled := b\<rparr>) = score_ok s" "score_ok (s\<lparr>sc_wentDown := b\<rparr>) = score_ok s"
  "score_ok (s\<lparr>sc_alive := b\<rparr>) = score_ok s" "score_ok (s\<lparr>sc_clean := b\<rparr>) = score_ok s"
  by (simp_all add: score_ok_def)

lemma ok_ratio_range: "status_ok st \<Longrightarrow> 0 < st_All st \<Longrightarrow> 0 \<le> ok_ratio st \<and> ok_ratio st \<le> 1"
  by (auto simp: status_ok_def ok_ratio_def divide_simps)

lemma fold_ratio_ok:
  assumes "status_ok st" "0 < st_All st" "\<And>s. sc = Some s \<Longrightarrow> score_ok s"
  shows "score_ok (fold_ratio st sc)"
proof (cases sc)
  case None
  then show ?thesis using ok_ratio_range [OF assms(1,2)] by (simp add: fold_ratio_def score_ok_def)
next
  case (Some s)
  with assms(3) have "score_ok s" by simp
  with node_ewma.ewma_between [of 0 "sc_ok s" 1 "ok_ratio st"] ok_ratio_range [OF assms(1,2)] Some
  show ?thesis by (simp add: fold_ratio_def score_ok_def)
qed

lemma fold_delay_ok: "score_ok s \<Longrightarrow> score_ok (fold_delay st s)"
proof -
  assume s: "score_ok s"
  let ?hi = "max (sc_rttMs s) (of_int (st_Delay st))"
  have "st_Delay st > 0 \<Longrightarrow> 0 \<le> sc_rttMs s + nodeScoreAlpha * (of_int (st_Delay st) - sc_rttMs s)"
    using s by (intro node_ewma.ewma_between(1) [where hi = ?hi]) (auto simp: score_ok_def)
  with s show ?thesis by (auto simp: fold_delay_def score_ok_def)
qed

lemma fold_status_ok:
  assumes "status_ok st" "0 < st_All st" "\<And>s. sc = Some s \<Longrightarrow> score_ok s"
  shows "score_ok (fold_status st sc)"
proof -
  have "score_ok (fold_delay st ((fold_ratio st sc)\<lparr>sc_wentDown := b\<rparr>))" for b
    using fold_ratio_ok [OF assms] by (intro fold_delay_ok) simp
  then show ?thesis by (simp add: fold_status_def Let_def)
qed

lemma scores_ok_put: "scores_ok scs \<Longrightarrow> score_ok s \<Longrightarrow> scores_ok (dput t s scs)"
  by (auto simp: scores_ok_def list_all_iff dest!: dput_mem)

lemma scores_ok_at: "scores_ok scs \<Longrightarrow> map_of scs t = Some s \<Longrightarrow> score_ok s"
  by (auto simp: scores_ok_def list_all_iff dest!: map_of_SomeD)

lemma sampled_status_Some: "sampled_status byTag t = Some st \<longleftrightarrow> map_of byTag t = Some st \<and> 0 < st_All st"
  by (auto simp: sampled_status_def split: option.splits if_splits)

lemma observe_tag_ok:
  assumes "list_all (\<lambda>(t, st). status_ok st) byTag" "scores_ok scs"
  shows "scores_ok (observe_tag byTag t scs)"
proof (cases "sampled_status byTag t")
  case None
  with assms(2) show ?thesis
    by (auto simp: observe_tag_def split: option.splits intro!: scores_ok_put dest: scores_ok_at)
next
  case (Some st)
  then have "map_of byTag t = Some st" "0 < st_All st" by (auto simp: sampled_status_Some)
  then have "status_ok st" using assms(1) by (auto simp: list_all_iff dest!: map_of_SomeD)
  with Some \<open>0 < st_All st\<close> assms(2) show ?thesis
    by (auto simp: observe_tag_def intro!: scores_ok_put fold_status_ok dest: scores_ok_at)
qed

lemma settle_scores_ok: "scores_ok scs \<Longrightarrow> scores_ok (settle_scores slots scs)"
  by (auto simp: scores_ok_def settle_scores_def list_all_iff score_ok_def)

lemma pick_observe_ok:
  assumes "list_all (\<lambda>(t, st). status_ok st) byTag" "scores_ok scs"
  shows "scores_ok (fst (pick_observe slots byTag scs))"
proof -
  have "scores_ok scs' \<Longrightarrow> scores_ok (fold (observe_tag byTag) ts scs')" for ts scs'
    by (induction ts arbitrary: scs') (auto simp: observe_tag_ok [OF assms(1)])
  then show ?thesis using settle_scores_ok [OF assms(2)] by (simp add: pick_observe_def Let_def)
qed

section \<open>Picks\<close>

lemma key_mk_cand [simp]: "c_key (mk_cand scs idx inc cv m) = m_Key m"
  by (simp add: mk_cand_def Let_def)

lemma inc_mk_cand [simp]: "c_inc (mk_cand scs idx inc cv m) \<longleftrightarrow> m_Key m \<in> set inc"
  by (simp add: mk_cand_def Let_def)

lemma rank_mset [simp]: "set (rank cs) = set cs" "length (rank cs) = length cs" "distinct (map f (rank cs)) = distinct (map f cs)"
  by (simp_all add: rank_def)

definition all_cands :: "scores \<Rightarrow> nat \<Rightarrow> slot_member list \<Rightarrow> string list \<Rightarrow> chain_view \<Rightarrow> cand list" where
  "all_cands scs idx members inc cv = rank (map (mk_cand scs idx inc cv) members)"

lemma all_cands_keys: "distinct (map m_Key members) \<Longrightarrow> distinct (map c_key (all_cands scs idx members inc cv))"
  by (simp add: all_cands_def o_def)

lemma in_all_cands: "c \<in> set (all_cands scs idx members inc cv) \<longleftrightarrow> (\<exists>m \<in> set members. c = mk_cand scs idx inc cv m)"
  by (auto simp: all_cands_def)

lemma picked_top_all:
  "picked_top scs idx members inc cv =
     rank (map (\<lambda>c. c\<lparr>c_inc := c_key c \<in> set (take SlotBalancerExpected inc)\<rparr>)
       (take nodePickCount (all_cands scs idx members inc cv)))"
  by (simp add: picked_top_def all_cands_def)

lemma picked_top_length: "length (picked_top scs idx members inc cv) = min nodePickCount (length members)"
  by (simp add: picked_top_all all_cands_def)

lemma picked_top_keys:
  assumes "distinct (map m_Key members)"
  shows "distinct (map c_key (picked_top scs idx members inc cv))"
proof -
  have "distinct (map c_key (take nodePickCount (all_cands scs idx members inc cv)))"
    using all_cands_keys [OF assms, of scs idx inc cv] by (simp add: distinct_take flip: take_map)
  then show ?thesis by (simp add: picked_top_all o_def)
qed

lemma picked_top_from:
  assumes "c \<in> set (picked_top scs idx members inc cv)"
  obtains m b where "m \<in> set members" "mk_cand scs idx inc cv m \<in> set (take nodePickCount (all_cands scs idx members inc cv))"
    "c = (mk_cand scs idx inc cv m)\<lparr>c_inc := b\<rparr>"
proof -
  from assms obtain d where d: "d \<in> set (take nodePickCount (all_cands scs idx members inc cv))"
    "c = d\<lparr>c_inc := c_key d \<in> set (take SlotBalancerExpected inc)\<rparr>"
    by (auto simp: picked_top_all)
  from in_set_takeD [OF d(1)] obtain m where "m \<in> set members" "d = mk_cand scs idx inc cv m"
    by (auto simp: in_all_cands)
  with d show thesis by (intro that [of m "c_key d \<in> set (take SlotBalancerExpected inc)"]) simp_all
qed

lemma shrink_active_le: "shrink_active tops n \<le> n"
  by (induction tops n rule: shrink_active.induct) auto

lemma shrink_active_pos: "0 < n \<Longrightarrow> 0 < shrink_active tops n"
  by (induction tops n rule: shrink_active.induct) auto

lemma spare_end_range: "active \<le> length tops \<Longrightarrow> active \<le> spare_end tops active \<and> spare_end tops active \<le> length tops"
  using length_takeWhile_le [of "\<lambda>c. c_tier c \<noteq> TierChainBad" "drop active tops"] by (auto simp: spare_end_def)

text \<open>What the stable pick returns, as a prefix of the ranked candidates.\<close>

lemma pickStable_form:
  fixes inc :: "string list" and cv :: chain_view
  assumes "scored scs idx members"
  defines "tops \<equiv> picked_top scs idx members inc cv"
  shows "\<exists>active e. active = shrink_active tops (min SlotBalancerExpected (length tops)) \<and> e = spare_end tops active \<and>
    active \<le> e \<and> e \<le> length tops \<and> 0 < active \<and> active \<le> SlotBalancerExpected \<and>
    pickStableLocked scs idx members inc cv =
      (sort (map c_key (take active tops)) @ map c_key (take (e - active) (drop active tops)), active)"
proof -
  define active where "active = shrink_active tops (min SlotBalancerExpected (length tops))"
  have "members \<noteq> []" using assms(1) by (auto simp: scored_def)
  then have "tops \<noteq> []" using picked_top_length [of scs idx members inc cv]
    by (cases members) (auto simp: tops_def nodePickCount_def)
  then have "0 < active" "active \<le> SlotBalancerExpected" "active \<le> length tops"
    using shrink_active_le [of tops "min SlotBalancerExpected (length tops)"]
    by (auto simp: active_def SlotBalancerExpected_def intro!: shrink_active_pos)
  moreover have "active \<le> spare_end tops active" "spare_end tops active \<le> length tops"
    using spare_end_range [OF \<open>active \<le> length tops\<close>] by auto
  ultimately show ?thesis
    using assms(1) by (auto simp: pickStableLocked_def Let_def active_def tops_def take_map drop_map drop_take min_def)
qed

lemma pickStable_keys:
  assumes "pickStableLocked scs idx members inc cv = (ks, n)"
  shows "set ks \<subseteq> c_key ` set (picked_top scs idx members inc cv)" and "n \<le> length ks" and "length ks \<le> nodePickCount"
    and "n \<le> SlotBalancerExpected" and "distinct (map m_Key members) \<Longrightarrow> distinct ks"
proof -
  let ?tops = "picked_top scs idx members inc cv"
  have "set ks \<subseteq> c_key ` set ?tops \<and> n \<le> length ks \<and> length ks \<le> nodePickCount \<and> n \<le> SlotBalancerExpected \<and>
    (distinct (map m_Key members) \<longrightarrow> distinct ks)"
  proof (cases "scored scs idx members")
    case False
    then show ?thesis using assms by (auto simp: pickStableLocked_def)
  next
    case True
    from pickStable_form [OF True, of inc cv] obtain e where f: "n \<le> e" "e \<le> length ?tops" "n \<le> SlotBalancerExpected"
      "ks = sort (map c_key (take n ?tops)) @ map c_key (take (e - n) (drop n ?tops))"
      using assms by auto
    have "mset ks = mset (map c_key (take e ?tops))"
      unfolding f(4) using take_add [of n "e - n" ?tops] f(1) by simp
    then have "set ks = set (map c_key (take e ?tops))" "length ks = e" "distinct ks = distinct (map c_key (take e ?tops))"
      using f(2) by (metis set_mset_mset, metis size_mset length_map length_take min.absorb2, metis mset_eq_imp_distinct_iff)
    then show ?thesis using f picked_top_length [of scs idx members inc cv] picked_top_keys [of members scs idx inc cv]
      by (auto simp: take_map [symmetric] distinct_take dest: in_set_takeD)
  qed
  then show "set ks \<subseteq> c_key ` set ?tops" "n \<le> length ks" "length ks \<le> nodePickCount" "n \<le> SlotBalancerExpected"
    "distinct (map m_Key members) \<Longrightarrow> distinct ks" by auto
qed

text \<open>A member that is neither dead nor known to fail the chain.\<close>

definition may_carry :: "scores \<Rightarrow> nat \<Rightarrow> chain_view \<Rightarrow> slot_member \<Rightarrow> bool" where
  "may_carry scs idx cv m \<longleftrightarrow> tier_of (score_at scs idx (m_Key m)) \<noteq> TierDead \<and> v_class (verdict_of cv (m_Key m)) \<noteq> ChainBad"

definition chain_failed :: "scores \<Rightarrow> nat \<Rightarrow> chain_view \<Rightarrow> string \<Rightarrow> bool" where
  "chain_failed scs idx cv k \<longleftrightarrow> tier_of (score_at scs idx k) \<noteq> TierDead \<and> v_class (verdict_of cv k) = ChainBad"

lemma tier_of_not_bad: "tier_of sc \<noteq> TierChainBad"
  by (simp add: tier_of_def split: option.splits)

lemma tier_mk_cand: "c_tier (mk_cand scs idx inc cv m) = TierChainBad \<longleftrightarrow> chain_failed scs idx cv (m_Key m)"
  by (auto simp: mk_cand_def Let_def chain_failed_def tier_of_not_bad)

lemma tier_may_carry: "c_tier (mk_cand scs idx inc cv m) < TierChainBad \<longleftrightarrow> may_carry scs idx cv m"
  by (cases "tier_of (score_at scs idx (m_Key m))")
    (auto simp: mk_cand_def Let_def may_carry_def rank_orders tier_of_not_bad)

lemma not_lt_tier: "\<not> lt_cand b a \<Longrightarrow> c_tier a \<le> c_tier b"
  by (auto simp: lt_cand_def not_le [symmetric] split: if_splits)

lemma rank_tiers: "sorted_wrt (\<lambda>a b. c_tier a \<le> c_tier b) (rank cs)"
  using cand_order.go_sort_sorted [of cs] by (auto simp: rank_def elim: sorted_wrt_mono_rel [rotated] dest: not_lt_tier)

lemma picked_top_tiers: "sorted_wrt (\<lambda>a b. c_tier a \<le> c_tier b) (picked_top scs idx members inc cv)"
  by (simp add: picked_top_all rank_tiers)

text \<open>If any member may carry the chain, the best ranked one does.\<close>

lemma picked_top_hd:
  assumes "m \<in> set members" "may_carry scs idx cv m"
  shows "c_tier (picked_top scs idx members inc cv ! 0) < TierChainBad"
proof -
  let ?all = "all_cands scs idx members inc cv" and ?tops = "picked_top scs idx members inc cv"
  have ne: "?all \<noteq> []" "?tops \<noteq> []"
    using assms(1) picked_top_length [of scs idx members inc cv]
    by (auto simp: all_cands_def nodePickCount_def rank_def min_def split: if_splits)
  have "mk_cand scs idx inc cv m \<in> set ?all" using assms(1) by (auto simp: in_all_cands)
  then have "c_tier (hd ?all) \<le> c_tier (mk_cand scs idx inc cv m)"
    using cand_order.hd_go_sort_best [of "map (mk_cand scs idx inc cv) members" "mk_cand scs idx inc cv m"] assms(1) length_pos_if_in_set [OF assms(1)]
    by (intro not_lt_tier) (auto simp: all_cands_def rank_def)
  moreover have "c_tier (mk_cand scs idx inc cv m) < TierChainBad" using assms(2) by (simp only: tier_may_carry)
  ultimately have hd: "c_tier (hd ?all) < TierChainBad" by (rule le_less_trans)
  have "hd ?all \<in> set (take nodePickCount ?all)" using ne(1) by (cases ?all) (simp_all add: nodePickCount_def)
  then obtain c where c: "c \<in> set ?tops" "c_tier c = c_tier (hd ?all)"
    by (intro that [of "(hd ?all)\<lparr>c_inc := c_key (hd ?all) \<in> set (take SlotBalancerExpected inc)\<rparr>"])
      (simp_all add: picked_top_all)
  from ne(2) obtain t ts where t: "?tops = t # ts" by (cases ?tops) auto
  have "c_tier t \<le> c_tier c" using picked_top_tiers [of scs idx members inc cv] c(1) by (auto simp: t)
  with hd c(2) show ?thesis by (simp add: t)
qed

lemma shrunk_not_bad:
  assumes "c_tier (tops ! 0) \<noteq> TierChainBad" "i < shrink_active tops (min SlotBalancerExpected (length tops))"
  shows "c_tier (tops ! i) \<noteq> TierChainBad"
proof -
  have two: "min SlotBalancerExpected (length tops) \<le> Suc (Suc 0)" by (simp add: SlotBalancerExpected_def)
  have le: "i < min SlotBalancerExpected (length tops)" using assms(2) shrink_active_le order_less_le_trans by blast
  with two consider "i = 0" | "i = Suc 0" "min SlotBalancerExpected (length tops) = Suc (Suc 0)" by linarith
  then show ?thesis
  proof cases
    case 1
    with assms(1) show ?thesis by simp
  next
    case 2
    with assms show ?thesis by (auto split: if_splits)
  qed
qed

lemma pick_tiers:
  assumes "m \<in> set members" "may_carry scs idx cv m" "scored scs idx members"
    and "pickStableLocked scs idx members inc cv = (ks, n)" "k \<in> set ks"
  shows "\<not> chain_failed scs idx cv k"
proof -
  let ?tops = "picked_top scs idx members inc cv"
  have hd: "c_tier (?tops ! 0) < TierChainBad" by (rule picked_top_hd [OF assms(1,2)])
  from pickStable_form [OF assms(3), of inc cv] assms(4) obtain e where
    n: "n = shrink_active ?tops (min SlotBalancerExpected (length ?tops))" and e: "e = spare_end ?tops n" "n \<le> e" "e \<le> length ?tops"
    and ks: "ks = sort (map c_key (take n ?tops)) @ map c_key (take (e - n) (drop n ?tops))"
    and pos: "0 < n" by auto
  from assms(5) obtain c where c: "c \<in> set (take n ?tops) \<or> c \<in> set (take (e - n) (drop n ?tops))" "k = c_key c"
    by (auto simp: ks)
  have "c_tier c \<noteq> TierChainBad"
  proof (cases "c \<in> set (take n ?tops)")
    case True
    then obtain i where "i < n" "c = ?tops ! i" by (auto simp: in_set_conv_nth)
    then show ?thesis using shrunk_not_bad [of ?tops i] hd n by auto
  next
    case False
    with c(1) have "c \<in> set (takeWhile (\<lambda>c. c_tier c \<noteq> TierChainBad) (drop n ?tops))"
      using e hd pos by (auto simp: spare_end_def takeWhile_eq_take [symmetric] split: if_splits)
    then show ?thesis by (auto dest: set_takeWhileD)
  qed
  moreover have "c \<in> set ?tops" using c(1) by (auto dest: in_set_takeD in_set_dropD)
  ultimately show ?thesis using c(2) by (auto elim!: picked_top_from simp: tier_mk_cand)
qed

section \<open>Hysteresis\<close>

text \<open>A healthy member, and when another clearly beats it.\<close>

definition healthy :: "scores \<Rightarrow> nat \<Rightarrow> chain_view \<Rightarrow> string \<Rightarrow> bool" where
  "healthy scs idx cv k \<longleftrightarrow> tier_of (score_at scs idx k) = TierHealthy \<and> v_class (verdict_of cv k) \<noteq> ChainBad"

definition member_cost :: "scores \<Rightarrow> nat \<Rightarrow> chain_view \<Rightarrow> string \<Rightarrow> rat" where
  "member_cost scs idx cv k =
     (if v_class (verdict_of cv k) = ChainGood then v_cost (verdict_of cv k)
      else case score_at scs idx k of Some s \<Rightarrow> score_cost s | None \<Rightarrow> 0)"

definition clearly_beats :: "scores \<Rightarrow> nat \<Rightarrow> chain_view \<Rightarrow> string \<Rightarrow> string \<Rightarrow> bool" where
  "clearly_beats scs idx cv k old \<longleftrightarrow> healthy scs idx cv k \<and>
     (v_class (verdict_of cv k) < v_class (verdict_of cv old) \<or>
      v_class (verdict_of cv k) = v_class (verdict_of cv old) \<and>
      member_cost scs idx cv k \<le> member_cost scs idx cv old / nodeStickyRatio - nodeStickyMs)"

lemma tier_mk_healthy: "c_tier (mk_cand scs idx inc cv m) = TierHealthy \<longleftrightarrow> healthy scs idx cv (m_Key m)"
  by (auto simp: mk_cand_def Let_def healthy_def)

lemma class_mk_cand: "c_class (mk_cand scs idx inc cv m) = v_class (verdict_of cv (m_Key m))"
  by (simp add: mk_cand_def Let_def)

lemma raw_mk_cand: "healthy scs idx cv (m_Key m) \<Longrightarrow> c_raw (mk_cand scs idx inc cv m) = member_cost scs idx cv (m_Key m)"
  by (simp add: mk_cand_def Let_def healthy_def member_cost_def)

lemma not_lt_healthy:
  assumes "\<not> lt_cand a b" "c_tier a = TierHealthy"
  shows "c_tier b = TierHealthy \<and> (c_class b < c_class a \<or> c_class b = c_class a \<and> cand_cost b \<le> cand_cost a)"
proof -
  have "c_tier b = TierHealthy"
    using assms by (cases "c_tier b") (auto simp: lt_cand_def rank_orders)
  with assms show ?thesis by (auto simp: lt_cand_def lt_class_def lt_cost_def split: if_splits)
qed

lemma top_beats:
  assumes "m \<in> set members" "healthy scs idx cv (m_Key m)" "m_Key m \<in> set inc"
    and "mk_cand scs idx inc cv m \<notin> set (take nodePickCount (all_cands scs idx members inc cv))"
    and "mk_cand scs idx inc cv m' \<in> set (take nodePickCount (all_cands scs idx members inc cv))" "m_Key m' \<notin> set inc"
  shows "clearly_beats scs idx cv (m_Key m') (m_Key m)"
proof -
  let ?all = "all_cands scs idx members inc cv" and ?c = "mk_cand scs idx inc cv m" and ?c' = "mk_cand scs idx inc cv m'"
  have "?c \<in> set ?all" using assms(1) by (auto simp: in_all_cands)
  then have "?c \<in> set (drop nodePickCount ?all)"
    using assms(4) by (metis Un_iff append_take_drop_id set_append)
  then have "\<not> lt_cand ?c ?c'"
    using assms(5) by (simp add: all_cands_def rank_def cand_order.take_go_sort_best)
  moreover have "c_tier ?c = TierHealthy" using assms(2) by (simp add: tier_mk_healthy)
  ultimately have nl: "c_tier ?c' = TierHealthy" "c_class ?c' < c_class ?c \<or> c_class ?c' = c_class ?c \<and> cand_cost ?c' \<le> cand_cost ?c"
    using not_lt_healthy by auto
  then have h: "healthy scs idx cv (m_Key m')" by (simp add: tier_mk_healthy)
  have "cand_cost ?c' = member_cost scs idx cv (m_Key m')"
    using nl(1) assms(6) by (simp add: cand_cost_def sticky_def raw_mk_cand h)
  moreover have "cand_cost ?c = member_cost scs idx cv (m_Key m) / nodeStickyRatio - nodeStickyMs"
    using assms(2,3) by (simp add: cand_cost_def sticky_def raw_mk_cand tier_mk_healthy)
  ultimately show ?thesis using nl h by (simp add: clearly_beats_def class_mk_cand)
qed

text \<open>A healthy member among the best three is never cut off by the rule about failed spares.\<close>

lemma healthy_top_picked:
  assumes "c \<in> set (picked_top scs idx members inc cv)" "c_tier c = TierHealthy"
    and "scored scs idx members" "pickStableLocked scs idx members inc cv = (ks, n)"
  shows "c_key c \<in> set ks"
proof -
  let ?tops = "picked_top scs idx members inc cv"
  from pickStable_form [OF assms(3), of inc cv] assms(4) obtain e where
    e: "e = spare_end ?tops n" "n \<le> e" "e \<le> length ?tops"
    and ks: "ks = sort (map c_key (take n ?tops)) @ map c_key (take (e - n) (drop n ?tops))" by auto
  have "c \<in> set (take e ?tops)"
  proof (rule ccontr)
    assume no: "c \<notin> set (take e ?tops)"
    with assms(1) have late: "c \<in> set (drop e ?tops)" by (metis Un_iff append_take_drop_id set_append)
    then have "e < length ?tops" by (cases "e < length ?tops") auto
    with e have "e = n + length (takeWhile (\<lambda>c. c_tier c \<noteq> TierChainBad) (drop n ?tops))"
      by (auto simp: spare_end_def split: if_splits)
    with \<open>e < length ?tops\<close> have bad: "c_tier (?tops ! e) = TierChainBad"
      using nth_length_takeWhile [of "\<lambda>c. c_tier c \<noteq> TierChainBad" "drop n ?tops"] by auto
    from late obtain j where "c = ?tops ! (e + j)" "e + j < length ?tops"
      by (auto simp: in_set_conv_nth)
    then have "c_tier (?tops ! e) \<le> c_tier c"
      using picked_top_tiers [of scs idx members inc cv] \<open>e < length ?tops\<close>
      by (cases j) (auto simp: sorted_wrt_iff_nth_less)
    with bad assms(2) show False by (simp add: rank_orders)
  qed
  with e have "c \<in> set (take n ?tops) \<union> set (take (e - n) (drop n ?tops))"
    by (metis le_add_diff_inverse set_append take_add)
  then show ?thesis by (auto simp: ks)
qed

section \<open>The agile ranking\<close>

lemma key_live_cand [simp]: "a_key (live_cand was cv k s) = k"
  by (simp add: live_cand_def Let_def)

lemma class_live_cand [simp]: "a_class (live_cand was cv k s) = v_class (verdict_of cv k)"
  by (simp add: live_cand_def Let_def)

lemma live_cands_Cons [simp]:
  "live_cands scs idx was cv (m # ms) =
     (case live_score scs idx m of Some s \<Rightarrow> live_cand was cv (m_Key m) s # live_cands scs idx was cv ms
      | None \<Rightarrow> live_cands scs idx was cv ms)"
  by (simp add: live_cands_def map_filter_simps split: option.splits)

lemma live_cands_Nil [simp]: "live_cands scs idx was cv [] = []"
  by (simp add: live_cands_def map_filter_simps)

lemma in_live_cands: "c \<in> set (live_cands scs idx was cv ms) \<longleftrightarrow>
    (\<exists>m \<in> set ms. \<exists>s. live_score scs idx m = Some s \<and> c = live_cand was cv (m_Key m) s)"
  by (induction ms) (auto split: option.splits)

lemma keys_live_cands: "map a_key (live_cands scs idx was cv ms) = map m_Key (filter (\<lambda>m. live_score scs idx m \<noteq> None) ms)"
  by (induction ms) (auto split: option.splits)

lemma keys_rest_cands: "map a_key (rest_cands scs idx ms) = map m_Key (filter (\<lambda>m. live_score scs idx m = None) ms)"
  by (simp add: rest_cands_def o_def)

lemma agile_order_set: "set (agile_order live) \<subseteq> set live"
  by (auto simp: agile_order_def Let_def)

lemma agile_order_distinct: "distinct (map a_key live) \<Longrightarrow> distinct (map a_key (agile_order live))"
  by (auto simp: agile_order_def Let_def distinct_map_filter)

lemma agile_order_good: "c \<in> set live \<Longrightarrow> a_class c \<noteq> ChainBad \<Longrightarrow> d \<in> set (agile_order live) \<Longrightarrow> a_class d \<noteq> ChainBad"
  by (auto simp: agile_order_def Let_def filter_empty_conv split: if_splits)

lemma agile_spare_facts:
  "set (agile_spare order rest) \<subseteq> a_key ` set (drop agileActiveMax order) \<union> a_key ` set rest" "length (agile_spare order rest) \<le> 1"
proof -
  have "order ! agileActiveMax \<in> set (drop agileActiveMax order)" if "agileActiveMax < length order"
    using Cons_nth_drop_Suc [OF that] by (metis list.set_intros(1))
  moreover have "set (take 1 (go_sort lt_rest rest)) \<subseteq> set rest"
    using set_take_subset [of 1 "go_sort lt_rest rest"] by simp
  ultimately show "set (agile_spare order rest) \<subseteq> a_key ` set (drop agileActiveMax order) \<union> a_key ` set rest"
    by (simp add: agile_spare_def image_mono le_supI2)
  show "length (agile_spare order rest) \<le> 1" by (simp add: agile_spare_def)
qed

lemma disjoint_from_Un: "A \<subseteq> B \<union> C \<Longrightarrow> X \<inter> B = {} \<Longrightarrow> X \<inter> C = {} \<Longrightarrow> A \<inter> X = {}"
  by blast

lemma pickAgile_keys:
  assumes "pickAgile scs idx members inc ia cv = (ks, n)" "distinct (map m_Key members)"
  shows "set ks \<subseteq> m_Key ` set members \<and> n \<le> length ks \<and> distinct ks \<and> n \<le> agileActiveMax \<and> length ks \<le> Suc agileActiveMax"
proof (cases "list_ex (a_sampled scs idx) members \<and> agile_order (live_cands scs idx (take ia inc) cv members) \<noteq> []")
  case False
  then have "ks = [] \<and> n = 0 \<or> pickStableLocked scs idx members inc cv = (ks, n)"
    using assms(1) by (cases "list_ex (a_sampled scs idx) members") (simp_all add: pickAgile_def)
  then consider "ks = []" "n = 0" | "pickStableLocked scs idx members inc cv = (ks, n)" by blast
  then show ?thesis
  proof cases
    case 2
    from pickStable_keys [OF this] assms(2) show ?thesis
      by (fastforce simp: nodePickCount_def SlotBalancerExpected_def agileActiveMax_def elim!: picked_top_from)
  qed simp
next
  case True
  define order where "order = agile_order (live_cands scs idx (take ia inc) cv members)"
  define rest where "rest = rest_cands scs idx members"
  have n: "n = min (length order) agileActiveMax" and ks: "ks = sort (map a_key (take n order)) @ agile_spare order rest"
    using assms(1) True by (auto simp: pickAgile_def Let_def order_def rest_def)
  have live: "a_key ` set order \<subseteq> m_Key ` {m \<in> set members. live_score scs idx m \<noteq> None}"
    using agile_order_set [of "live_cands scs idx (take ia inc) cv members"] by (fastforce simp: order_def in_live_cands)
  have dead: "a_key ` set rest = m_Key ` {m \<in> set members. live_score scs idx m = None}"
    using arg_cong [OF keys_rest_cands, of set] by (simp add: rest_def)
  have dist: "distinct (map a_key order)"
    unfolding order_def using assms(2) by (intro agile_order_distinct) (simp add: keys_live_cands distinct_map_filter)
  have inj: "inj_on m_Key (set members)" using assms(2) by (simp add: distinct_map)
  have apart: "a_key ` set order \<inter> a_key ` set rest = {}"
    using live unfolding dead by (fastforce dest: inj_onD [OF inj])
  have spare: "set (agile_spare order rest) \<inter> set (map a_key (take n order)) = {}"
  proof -
    have "set (take n (map a_key order)) \<inter> set (drop n (map a_key order)) = {}"
      by (rule set_take_disj_set_drop_if_distinct [OF dist]) simp
    moreover have "drop n order = drop agileActiveMax order" by (simp add: n min_def)
    ultimately have "set (map a_key (take n order)) \<inter> a_key ` set (drop agileActiveMax order) = {}"
      by (simp add: take_map drop_map)
    moreover have "set (map a_key (take n order)) \<inter> a_key ` set rest = {}"
      using apart set_take_subset [of n order] by (simp only: set_map) blast
    ultimately show ?thesis by (rule disjoint_from_Un [OF agile_spare_facts(1)])
  qed
  have "distinct (agile_spare order rest)"
    using agile_spare_facts(2) [of order rest] by (cases "agile_spare order rest") auto
  moreover have "distinct (map a_key (take n order))" using distinct_take [OF dist, of n] by (simp add: take_map)
  ultimately have "distinct ks" using spare unfolding ks by (simp add: Int_commute)
  moreover have "set ks \<subseteq> m_Key ` set members"
  proof -
    have order: "a_key ` set order \<subseteq> m_Key ` set members" and rest: "a_key ` set rest \<subseteq> m_Key ` set members"
      using live dead by auto
    note tk = subset_trans [OF image_mono [OF set_take_subset] order]
    note dr = subset_trans [OF image_mono [OF set_drop_subset] order]
    note sp = subset_trans [OF agile_spare_facts(1) Un_least [OF dr rest]]
    show ?thesis by (simp add: ks tk sp)
  qed
  moreover have "n \<le> length ks" "n \<le> agileActiveMax" "length ks \<le> Suc agileActiveMax"
    using agile_spare_facts(2) [of order rest] by (auto simp: ks n)
  ultimately show ?thesis by simp
qed

lemma pickAgile_good:
  assumes "pickAgile scs idx members inc ia cv = (ks, n)" "m \<in> set members" "live_score scs idx m \<noteq> None"
    and "v_class (verdict_of cv (m_Key m)) \<noteq> ChainBad" "k \<in> set (take n ks)"
  shows "v_class (verdict_of cv k) \<noteq> ChainBad"
proof -
  define live where "live = live_cands scs idx (take ia inc) cv members"
  define order where "order = agile_order live"
  from assms(3) obtain s where s: "live_score scs idx m = Some s" by auto
  then have c: "live_cand (take ia inc) cv (m_Key m) s \<in> set live" using assms(2) by (auto simp: live_def in_live_cands)
  have "list_ex (a_sampled scs idx) members"
    using assms(2) s by (auto simp: list_ex_iff a_sampled_def live_score_def split: option.splits if_splits intro!: bexI [of _ m])
  moreover have "order \<noteq> []" using c by (auto simp: order_def agile_order_def Let_def)
  ultimately have ks: "n = min (length order) agileActiveMax" "ks = sort (map a_key (take n order)) @ agile_spare order (rest_cands scs idx members)"
    using assms(1) by (auto simp: pickAgile_def Let_def order_def live_def)
  then have "k \<in> a_key ` set (take n order)" using assms(5) by auto
  then obtain d where d: "d \<in> set order" "k = a_key d" by (auto dest: in_set_takeD)
  have "a_class d \<noteq> ChainBad"
    using agile_order_good [OF c _ d(1) [unfolded order_def]] assms(4) by simp
  moreover from d(1) have "d \<in> set live" using agile_order_set [of live] by (auto simp: order_def)
  then have "a_class d = v_class (verdict_of cv (a_key d))" by (auto simp: live_def in_live_cands)
  ultimately show ?thesis using d(2) by simp
qed

section \<open>Recovery\<close>

lemma map_of_filter_key: "map_of (filter (\<lambda>p. P (fst p)) d) k = (if P k then map_of d k else None)"
  by (induction d) auto

lemma map_of_settle: "map_of (settle_scores slots scs) t =
    (if t \<in> set (loaded_tags slots) then map_option (\<lambda>s. s\<lparr>sc_wentDown := False\<rparr>) (map_of scs t) else None)"
  by (simp add: settle_scores_def map_of_dmap map_of_filter_key [where P = "\<lambda>t. t \<in> set (loaded_tags slots)"])

lemma observe_tag_other: "t \<noteq> t' \<Longrightarrow> map_of (observe_tag byTag t' scs) t = map_of scs t"
  by (simp add: observe_tag_def split: option.splits)

lemma fold_observe_tag: "distinct ts \<Longrightarrow> map_of (fold (observe_tag byTag) ts scs) t =
    (if t \<in> set ts then map_of (observe_tag byTag t scs) t else map_of scs t)"
proof (induction ts arbitrary: scs)
  case (Cons a ts)
  then show ?case by (cases "t = a") (auto simp: observe_tag_other, simp_all add: observe_tag_def observe_tag_other split: option.splits)
qed simp

lemma distinct_loaded [simp]: "distinct (loaded_tags slots)"
  by (simp add: loaded_tags_def)

definition clean_status :: "node_status \<Rightarrow> bool" where
  "clean_status st \<longleftrightarrow> st_Alive st \<and> st_All st > 0 \<and> st_Fail st = 0 \<and> st_Delay st > 0"

lemma observe_clean:
  assumes "t \<in> set (loaded_tags slots)" "map_of byTag t = Some st" "clean_status st"
  shows "map_of (fst (pick_observe slots byTag scs)) t =
    Some (fold_status st (map_option (\<lambda>s. s\<lparr>sc_wentDown := False\<rparr>) (map_of scs t)))"
proof -
  have st: "sampled_status byTag t = Some st" using assms(2,3) by (simp add: sampled_status_Some clean_status_def)
  then have "any_alive slots byTag" using assms(1,3) by (auto simp: any_alive_def list_ex_iff clean_status_def intro!: bexI [of _ t])
  then show ?thesis using assms(1) st
    by (simp add: pick_observe_def Let_def fold_observe_tag observe_tag_def map_of_settle)
qed

lemma fold_status_clean:
  assumes "clean_status st"
  shows "sc_alive (fold_status st sc) \<and> sc_clean (fold_status st sc) \<and> sc_sampled (fold_status st sc) \<and> sc_hasRTT (fold_status st sc)"
    and "1 - sc_ok (fold_status st sc) = (case sc of None \<Rightarrow> 0 | Some s \<Rightarrow> 17 / 20 * (1 - sc_ok s))"
  using assms
  by (auto simp: fold_status_def fold_delay_def fold_ratio_def ok_ratio_def clean_status_def Let_def nodeScoreAlpha_def field_simps split: option.splits)

text \<open>A run of polls that all find the member clean.\<close>

fun poll_run :: "(slot list \<times> (string, node_status) dict) list \<Rightarrow> scores \<Rightarrow> scores" where
  "poll_run [] scs = scs"
| "poll_run ((slots, byTag) # ps) scs = poll_run ps (fst (pick_observe slots byTag scs))"

definition clean_poll :: "string \<Rightarrow> slot list \<times> (string, node_status) dict \<Rightarrow> bool" where
  "clean_poll t p \<longleftrightarrow> t \<in> set (loaded_tags (fst p)) \<and>
     (case map_of (snd p) t of Some st \<Rightarrow> clean_status st | None \<Rightarrow> False)"

lemma clean_run:
  assumes "list_all (clean_poll t) ps" "ps \<noteq> []" "scores_ok scs"
  shows "\<exists>s. map_of (poll_run ps scs) t = Some s \<and> sc_alive s \<and> sc_clean s \<and> sc_sampled s \<and> sc_hasRTT s \<and>
    1 - sc_ok s \<le> (17 / 20) ^ length ps"
proof -
  have step: "\<exists>s. map_of (fst (pick_observe (fst p) (snd p) scs)) t = Some s \<and> sc_alive s \<and> sc_clean s \<and> sc_sampled s \<and> sc_hasRTT s \<and>
      1 - sc_ok s \<le> 17 / 20 * (case map_of scs t of Some s0 \<Rightarrow> 1 - sc_ok s0 | None \<Rightarrow> 0)" if "clean_poll t p" for p scs
  proof -
    from that obtain st where st: "map_of (snd p) t = Some st" "clean_status st" "t \<in> set (loaded_tags (fst p))"
      by (auto simp: clean_poll_def split: option.splits)
    show ?thesis
      using fold_status_clean [OF st(2), of "map_option (\<lambda>s. s\<lparr>sc_wentDown := False\<rparr>) (map_of scs t)"]
      by (cases "map_of scs t") (simp_all add: observe_clean [OF st(3,1,2)])
  qed
  have run: "\<exists>s. map_of (poll_run ps scs) t = Some s \<and> sc_alive s \<and> sc_clean s \<and> sc_sampled s \<and> sc_hasRTT s \<and>
      1 - sc_ok s \<le> (17 / 20) ^ length ps * (case map_of scs t of Some s0 \<Rightarrow> 1 - sc_ok s0 | None \<Rightarrow> 0)"
    if "list_all (clean_poll t) ps" "ps \<noteq> []" for scs
    using that
  proof (induction ps arbitrary: scs)
    case (Cons p ps)
    from Cons.prems step [of p scs] obtain s where
      s: "map_of (fst (pick_observe (fst p) (snd p) scs)) t = Some s" "sc_alive s" "sc_clean s" "sc_sampled s" "sc_hasRTT s"
        "1 - sc_ok s \<le> 17 / 20 * (case map_of scs t of Some s0 \<Rightarrow> 1 - sc_ok s0 | None \<Rightarrow> 0)" by auto
    show ?case
    proof (cases "ps = []")
      case True
      with s show ?thesis by (cases p) simp
    next
      case False
      with Cons obtain s' where s': "map_of (poll_run ps (fst (pick_observe (fst p) (snd p) scs))) t = Some s'"
        "sc_alive s'" "sc_clean s'" "sc_sampled s'" "sc_hasRTT s'" "1 - sc_ok s' \<le> (17 / 20) ^ length ps * (1 - sc_ok s)"
        using s(1) by fastforce
      have "(17 / 20) ^ length ps * (1 - sc_ok s) \<le>
          (17 / 20) ^ length ps * (17 / 20 * (case map_of scs t of Some s0 \<Rightarrow> 1 - sc_ok s0 | None \<Rightarrow> 0))"
        using s(6) by (intro mult_left_mono) auto
      with s' show ?thesis by (cases p) (auto simp: algebra_simps)
    qed
  qed simp
  have "(case map_of scs t of Some s0 \<Rightarrow> 1 - sc_ok s0 | None \<Rightarrow> 0) \<le> 1"
    using scores_ok_at [OF assms(3), of t] by (auto simp: score_ok_def split: option.splits)
  then have "(17 / 20 :: rat) ^ length ps * (case map_of scs t of Some s0 \<Rightarrow> 1 - sc_ok s0 | None \<Rightarrow> 0) \<le> (17 / 20) ^ length ps * 1"
    by (intro mult_left_mono) auto
  then have "1 - x \<le> (17 / 20) ^ length ps" if "1 - x \<le> (17 / 20) ^ length ps * (case map_of scs t of Some s0 \<Rightarrow> 1 - sc_ok s0 | None \<Rightarrow> 0)" for x
    using order_trans [OF that] by simp
  with run [OF assms(1,2), of scs] show ?thesis by (elim exE conjE) (intro exI conjI; assumption?)
qed

section \<open>A small pool\<close>

definition demo_score :: "rat \<Rightarrow> bool \<Rightarrow> bool \<Rightarrow> node_score" where
  "demo_score ok sampled alive = \<lparr>sc_ok = ok, sc_rttMs = 50, sc_lastRTT = 50, sc_hasRTT = True, sc_alive = alive,
     sc_clean = True, sc_sampled = sampled, sc_wentDown = False\<rparr>"

definition demo_member :: "string \<Rightarrow> slot_member" where
  "demo_member k = \<lparr>m_Key = k, m_Outbound = None\<rparr>"

definition demo_scores :: scores where
  "demo_scores = [(''slot0-out-a'', demo_score 1 True True), (''slot0-out-b'', demo_score (9 / 10) True True)]"

definition demo_pool :: slot where
  "demo_pool = \<lparr>s_Master = ''m'', s_Aliases = [], s_Key = ''subscription:s'', s_Index = 0,
     s_Members = [demo_member ''a'', demo_member ''b''], s_Picked = [], s_Active = 0, s_MasterPicks = [],
     s_Strategy = ''stable'', s_Auto = False, s_Pinned = []\<rparr>"

definition demo_clean :: "slot list \<times> (string, node_status) dict" where
  "demo_clean = ([demo_pool], [(''slot0-out-a'', \<lparr>st_Alive = True, st_Delay = 40, st_All = 10, st_Fail = 0\<rparr>)])"

section \<open>Properties\<close>

text \<open>C21. The pick of a pool or of a master is a list of distinct members of the pool (or of its pins, when
  the pool is manual), the active ones first; a stable pick has at most two active of at most three,
  an agile pick at most four active of at most five.\<close>

theorem pickFor_members:
  assumes "distinct (member_keys sl)" and "distinct (s_Pinned sl)" and "set (s_Pinned sl) \<subseteq> set (member_keys sl)"
  shows "let (ks, n) = pickFor scs sl prev cv in
    set ks \<subseteq> set (member_keys sl) \<and> distinct ks \<and> n \<le> length ks \<and>
    (Manual sl \<or> (if Agile sl then n \<le> agileActiveMax \<and> length ks \<le> Suc agileActiveMax
                    else n \<le> SlotBalancerExpected \<and> length ks \<le> nodePickCount))"
proof (cases "Manual sl")
  case True
  with assms show ?thesis by (simp add: pickFor_def)
next
  case False
  have dist: "distinct (map m_Key (s_Members sl))" using assms(1) by (simp add: member_keys_def)
  show ?thesis
  proof (cases "Agile sl")
    case True
    obtain ks n where p: "pickAgile scs (s_Index sl) (s_Members sl) (p_Picked prev) (ActiveCount prev) cv = (ks, n)" by fastforce
    from pickAgile_keys [OF p dist] p True False show ?thesis by (auto simp: pickFor_def member_keys_def)
  next
    case stable: False
    obtain ks n where p: "pickStableLocked scs (s_Index sl) (s_Members sl) (p_Picked prev) cv = (ks, n)" by fastforce
    have "set ks \<subseteq> m_Key ` set (s_Members sl)"
      using pickStable_keys(1) [OF p] by (force elim!: picked_top_from)
    with pickStable_keys [OF p] p dist stable False show ?thesis by (auto simp: pickFor_def pick_def member_keys_def)
  qed
qed

lemma pickFor_members_witness:
  "let (ks, n) = pickFor demo_scores demo_pool \<lparr>p_Picked = [], p_Active = 0\<rparr> [] in
    set ks \<subseteq> set (member_keys demo_pool) \<and> distinct ks \<and> n \<le> length ks \<and>
    (Manual demo_pool \<or> (if Agile demo_pool then n \<le> agileActiveMax \<and> length ks \<le> Suc agileActiveMax
                          else n \<le> SlotBalancerExpected \<and> length ks \<le> nodePickCount))"
  by (rule pickFor_members) (simp_all add: demo_pool_def demo_member_def member_keys_def)

text \<open>C6. A member known to fail a master's chain, though alive, is not in the master's stable pick, neither
  active nor spare, while the pool has a member that is not dead and not known to fail it.\<close>

theorem stable_pick_avoids_chain_failed:
  assumes "list_ex (may_carry scs idx cv) members"
  shows "list_all (\<lambda>k. \<not> chain_failed scs idx cv k) (fst (pick scs idx members incumbent cv))"
proof -
  from assms obtain m where m: "m \<in> set members" "may_carry scs idx cv m" by (auto simp: list_ex_iff)
  show ?thesis
  proof (cases "scored scs idx members")
    case True
    obtain ks n where p: "pickStableLocked scs idx members incumbent cv = (ks, n)" by fastforce
    with pick_tiers [OF m True p] show ?thesis by (auto simp: pick_def list_all_iff)
  qed (simp add: pick_def pickStableLocked_def)
qed

lemma stable_pick_avoids_chain_failed_witness:
  "list_all (\<lambda>k. \<not> chain_failed demo_scores 0 [(''a'', \<lparr>v_class = ChainBad, v_cost = 0\<rparr>)] k)
     (fst (pick demo_scores 0 (s_Members demo_pool) [] [(''a'', \<lparr>v_class = ChainBad, v_cost = 0\<rparr>)]))"
  by (rule stable_pick_avoids_chain_failed) code_simp

text \<open>In an agile pool no active member fails the master's chain while a live member is not known to.\<close>

theorem agile_active_avoid_chain_failed:
  assumes "list_ex (\<lambda>m. live_score scs idx m \<noteq> None \<and> v_class (verdict_of cv (m_Key m)) \<noteq> ChainBad) members"
  shows "let (ks, n) = pickAgile scs idx members incumbent ia cv
    in 0 < n \<and> list_all (\<lambda>k. v_class (verdict_of cv k) \<noteq> ChainBad) (take n ks)"
proof -
  from assms obtain m where m: "m \<in> set members" "live_score scs idx m \<noteq> None" "v_class (verdict_of cv (m_Key m)) \<noteq> ChainBad"
    by (auto simp: list_ex_iff)
  obtain ks n where p: "pickAgile scs idx members incumbent ia cv = (ks, n)" by fastforce
  from m(2) obtain s where s: "live_score scs idx m = Some s" by auto
  have "list_ex (a_sampled scs idx) members"
    using m(1) s by (auto simp: list_ex_iff a_sampled_def live_score_def split: option.splits if_splits intro!: bexI [of _ m])
  moreover have "live_cand (take ia incumbent) cv (m_Key m) s \<in> set (live_cands scs idx (take ia incumbent) cv members)"
    using m(1) s by (auto simp: in_live_cands)
  then have "agile_order (live_cands scs idx (take ia incumbent) cv members) \<noteq> []"
    by (auto simp: agile_order_def Let_def)
  ultimately have "0 < n" using p by (auto simp: pickAgile_def Let_def agileActiveMax_def)
  with p pickAgile_good [OF p m] show ?thesis by (auto simp: list_all_iff)
qed

lemma agile_active_avoid_chain_failed_witness:
  "let (ks, n) = pickAgile demo_scores 0 (s_Members demo_pool) [] 0 [(''a'', \<lparr>v_class = ChainBad, v_cost = 0\<rparr>)]
   in 0 < n \<and> list_all (\<lambda>k. v_class (verdict_of [(''a'', \<lparr>v_class = ChainBad, v_cost = 0\<rparr>)] k) \<noteq> ChainBad) (take n ks)"
  by (rule agile_active_avoid_chain_failed) code_simp

text \<open>A healthy member that was in the last pick of a scored pool loses its place only to members that
  clearly beat it: a newcomer in the new pick is healthy and of a better chain class, or of the same
  class at a cost below four fifths of the old member's less forty milliseconds.\<close>

theorem incumbent_only_clearly_beaten:
  assumes "distinct (map m_Key members)" and "m \<in> set members" and "m_Key m \<in> set incumbent"
    and "healthy scs idx cv (m_Key m)" and "m_Key m \<notin> set (fst (pick scs idx members incumbent cv))"
    and "k \<in> set (fst (pick scs idx members incumbent cv))" and "k \<notin> set incumbent"
  shows "clearly_beats scs idx cv k (m_Key m)"
proof -
  let ?all = "all_cands scs idx members incumbent cv" and ?tops = "picked_top scs idx members incumbent cv"
  obtain ks n where p: "pickStableLocked scs idx members incumbent cv = (ks, n)" by fastforce
  have "members \<noteq> []" using assms(2) by auto
  with p assms(5,6) have k: "m_Key m \<notin> set ks" "k \<in> set ks" by (auto simp: pick_def)
  have scored: "scored scs idx members"
    using assms(2,4) by (auto simp: scored_def list_ex_iff healthy_def intro!: bexI [of _ m])
  have out: "mk_cand scs idx incumbent cv m \<notin> set (take nodePickCount ?all)"
  proof
    assume "mk_cand scs idx incumbent cv m \<in> set (take nodePickCount ?all)"
    then have "(mk_cand scs idx incumbent cv m)\<lparr>c_inc := m_Key m \<in> set (take SlotBalancerExpected incumbent)\<rparr> \<in> set ?tops"
      unfolding picked_top_all rank_mset(1) set_map by (rule rev_image_eqI) simp
    from healthy_top_picked [OF this _ scored p] k(1) assms(4) show False by (simp add: tier_mk_healthy)
  qed
  from k(2) pickStable_keys(1) [OF p] obtain c where c: "c \<in> set ?tops" "k = c_key c" by auto
  from c(1) show ?thesis
  proof (rule picked_top_from)
    fix m' b assume m': "m' \<in> set members" "mk_cand scs idx incumbent cv m' \<in> set (take nodePickCount ?all)"
      "c = (mk_cand scs idx incumbent cv m')\<lparr>c_inc := b\<rparr>"
    with c(2) have "k = m_Key m'" by simp
    with top_beats [OF assms(2,4,3) out m'(2)] assms(7) show ?thesis by simp
  qed
qed

lemma incumbent_only_clearly_beaten_witness:
  "clearly_beats (map (\<lambda>k. (''slot0-out-'' @ k, demo_score 1 True True)) [''a'', ''b'', ''c'', ''d'']) 0
     (map (\<lambda>k. (k, \<lparr>v_class = ChainGood, v_cost = (if k = ''a'' then 900 else 90)\<rparr>)) [''a'', ''b'', ''c'', ''d'']) ''b'' ''a''"
  by (rule incumbent_only_clearly_beaten [where members = "map demo_member [''a'', ''b'', ''c'', ''d'']" and m = "demo_member ''a''"
        and incumbent = "[''a'']", unfolded demo_member_def slot_member.simps]) code_simp+

text \<open>A member found clean (alive, every ping answered) by ten polls in a row is healthy again, whatever
  its record was.\<close>

theorem ten_clean_polls_heal:
  assumes "scores_ok scs" and "list_all (clean_poll t) ps" and "10 \<le> length ps"
  shows "tier_of (map_of (poll_run ps scs) t) = TierHealthy"
proof -
  have "ps \<noteq> []" using assms(3) by auto
  from clean_run [OF assms(2) this assms(1)] obtain s where s: "map_of (poll_run ps scs) t = Some s"
    "sc_alive s" "sc_clean s" "sc_sampled s" "sc_hasRTT s" "1 - sc_ok s \<le> (17 / 20) ^ length ps" by auto
  have "(17 / 20 :: rat) ^ length ps \<le> (17 / 20) ^ 10" using assms(3) by (intro power_decreasing) auto
  also have "\<dots> \<le> 1 / 5" by (simp add: power_divide)
  finally have "nodeHealthyRatio \<le> sc_ok s" using s(6) by (simp add: nodeHealthyRatio_def)
  with s show ?thesis by (simp add: tier_of_def)
qed

lemma ten_clean_polls_heal_witness:
  "tier_of (map_of (poll_run (replicate 10 demo_clean) [(''slot0-out-a'', demo_score 0 True False)]) ''slot0-out-a'') = TierHealthy"
  by (rule ten_clean_polls_heal)
    (code_simp, simp add: list_all_iff, code_simp, simp)

text \<open>The averages stay within their range over every sequence of polls whose counts make sense.\<close>

theorem scores_stay_in_range:
  assumes "scores_ok scs" and "list_all (\<lambda>(slots, byTag). list_all (\<lambda>(t, st). status_ok st) byTag) ps"
  shows "scores_ok (poll_run ps scs)"
  using assms
proof (induction ps scs rule: poll_run.induct)
  case (2 slots byTag ps scs)
  then show ?case using pick_observe_ok [of byTag scs slots] by simp
qed simp

lemma scores_stay_in_range_witness:
  "scores_ok (poll_run (replicate 3 demo_clean) demo_scores)"
  by (rule scores_stay_in_range)
    (code_simp, simp add: demo_clean_def status_ok_def list_all_iff)

text \<open>The pool's own order depends on how its members are listed: among unsampled members two with a
  score are compared by it and any other two by name, so three of them can beat one another in a circle.\<close>

theorem poolOrder_depends_on_listing:
  "\<exists>scs idx ms. distinct (map m_Key ms) \<and> poolOrder scs idx (rev ms) \<noteq> poolOrder scs idx ms"
proof (intro exI)
  let ?scs = "[(''slot0-out-a'', demo_score (1 / 2) False True), (''slot0-out-c'', demo_score (9 / 10) False True)]"
  let ?ms = "map demo_member [''a'', ''b'', ''c'']"
  have "poolOrder ?scs 0 ?ms = [''a'', ''b'', ''c'']" by code_simp
  moreover have "poolOrder ?scs 0 (rev ?ms) = [''b'', ''c'', ''a'']" by code_simp
  ultimately show "distinct (map m_Key ?ms) \<and> poolOrder ?scs 0 (rev ?ms) \<noteq> poolOrder ?scs 0 ?ms"
    by (simp add: demo_member_def)
qed

end
