(* ===== verification/Node_Park.thy ===== *)
theory Node_Park
  imports Node_Pick
begin

text \<open>
  \<^verbatim>\<open>daemon/nodepark.go\<close>: members that fail every ping for a while are parked (left out of
  their pool) and come back on trial. The state is a dictionary from member keys to
  \<^verbatim>\<open>parkState\<close>; a zero \<^verbatim>\<open>time.Time\<close> is \<^term>\<open>None\<close>. The second half proves what the header
  comment of the file promises.
\<close>

section \<open>State\<close>

definition nodeDeadBeforePark :: time where "nodeDeadBeforePark = minutes 15"
definition nodeTrialWindow :: time where "nodeTrialWindow = minutes 3"
definition nodeParkInitial :: time where "nodeParkInitial = minutes 30"
definition nodeParkMax :: time where "nodeParkMax = hours 6"

lemmas park_times = nodeDeadBeforePark_def nodeTrialWindow_def nodeParkInitial_def nodeParkMax_def
  minutes_def hours_def seconds_def

definition status_dead :: "node_status \<Rightarrow> bool" where
  "status_dead n \<longleftrightarrow> \<not> st_Alive n \<and> st_All n > 0 \<and> st_Fail n = st_All n"

record park_state =
  ps_deadSince :: "time option"
  ps_parkedUntil :: "time option"
  ps_parkFor :: time
  ps_onTrial :: bool

type_synonym parks = "(string, park_state) dict"

definition zero_park :: park_state where
  "zero_park = \<lparr>ps_deadSince = None, ps_parkedUntil = None, ps_parkFor = 0, ps_onTrial = False\<rparr>"

record park_event =
  pe_key :: string
  pe_parked :: bool
  pe_for :: time

definition is_parked :: "time \<Rightarrow> park_state \<Rightarrow> bool" where
  "is_parked now st = (case ps_parkedUntil st of Some u \<Rightarrow> now < u | None \<Rightarrow> False)"

definition parked :: "time \<Rightarrow> parks \<Rightarrow> (string, time) dict" where
  "parked now ps =
     List.map_filter (\<lambda>(k, st). if is_parked now st then map_option (Pair k) (ps_parkedUntil st) else None) ps"

section \<open>Observing a poll\<close>

definition forget_gone :: "slot list \<Rightarrow> parks \<Rightarrow> parks" where
  "forget_gone slots ps =
     filter (\<lambda>p. fst p \<in> set (concat (map member_keys slots)) \<or> ps_parkedUntil (snd p) \<noteq> None) ps"

definition member_status :: "slot \<Rightarrow> (string, node_status) dict \<Rightarrow> string \<Rightarrow> node_status option" where
  "member_status sl byTag k = map_of byTag (SlotMemberTag (s_Index sl) k)"

definition alive_count :: "slot \<Rightarrow> (string, node_status) dict \<Rightarrow> nat" where
  "alive_count sl byTag =
     length (filter (\<lambda>k. case member_status sl byTag k of Some st \<Rightarrow> st_Alive st | None \<Rightarrow> False) (member_keys sl))"

definition next_park_for :: "park_state \<Rightarrow> time" where
  "next_park_for ps =
     (if ps_parkFor ps = 0 then nodeParkInitial
      else if ps_onTrial ps then (if ps_parkFor ps * 2 > nodeParkMax then nodeParkMax else ps_parkFor ps * 2)
      else ps_parkFor ps)"

definition dead_since :: "time \<Rightarrow> park_state \<Rightarrow> time" where
  "dead_since now ps = (case ps_deadSince ps of Some t \<Rightarrow> t | None \<Rightarrow> now)"

text \<open>A dead member: the updated state, and whether it is parked now.\<close>

definition observe_dead :: "time \<Rightarrow> nat \<Rightarrow> nat \<Rightarrow> park_state \<Rightarrow> park_state \<times> bool" where
  "observe_dead now alive remaining ps0 =
     (let ps = ps0\<lparr>ps_deadSince := Some (dead_since now ps0)\<rparr>;
          wait = (if ps_onTrial ps then nodeTrialWindow else nodeDeadBeforePark)
      in if now - dead_since now ps0 < wait \<or> alive = 0 \<or> remaining \<le> 1 then (ps, False)
         else (\<lparr>ps_deadSince = None, ps_parkedUntil = Some (now + next_park_for ps),
                ps_parkFor = next_park_for ps, ps_onTrial = False\<rparr>, True))"

record park_run =
  pr_nodes :: parks
  pr_remaining :: nat
  pr_events :: "park_event list"

definition observe_member :: "time \<Rightarrow> slot \<Rightarrow> (string, node_status) dict \<Rightarrow> string \<Rightarrow> park_run \<Rightarrow> park_run" where
  "observe_member now sl byTag k r =
     (case member_status sl byTag k of
        None \<Rightarrow> r
      | Some st \<Rightarrow>
          if st_Alive st then r\<lparr>pr_nodes := ddel k (pr_nodes r)\<rparr>
          else if status_dead st
          then (let (ps, park) = observe_dead now (alive_count sl byTag) (pr_remaining r) (dget_or zero_park (pr_nodes r) k);
                    r' = r\<lparr>pr_nodes := dput k ps (pr_nodes r)\<rparr>
                in if park
                   then r'\<lparr>pr_remaining := pr_remaining r - 1,
                           pr_events := pr_events r @ [\<lparr>pe_key = k, pe_parked = True, pe_for = ps_parkFor ps\<rparr>]\<rparr>
                   else r')
          else r)"

definition observe_slot :: "time \<Rightarrow> (string, node_status) dict \<Rightarrow> slot \<Rightarrow> park_run \<Rightarrow> park_run" where
  "observe_slot now byTag sl r =
     (if NeverParks sl then r
      else fold (observe_member now sl byTag) (member_keys sl) (r\<lparr>pr_remaining := length (s_Members sl)\<rparr>))"

definition park_observe :: "time \<Rightarrow> slot list \<Rightarrow> (string, node_status) dict \<Rightarrow> parks \<Rightarrow> parks \<times> park_event list" where
  "park_observe now slots byTag ps =
     (let r = fold (observe_slot now byTag) slots \<lparr>pr_nodes = forget_gone slots ps, pr_remaining = 0, pr_events = []\<rparr>
      in (pr_nodes r, pr_events r))"

section \<open>Coming back\<close>

definition park_over :: "time \<Rightarrow> park_state \<Rightarrow> bool" where
  "park_over now st = (case ps_parkedUntil st of Some u \<Rightarrow> \<not> now < u | None \<Rightarrow> False)"

definition on_trial :: "park_state \<Rightarrow> park_state" where
  "on_trial st = st\<lparr>ps_parkedUntil := None, ps_onTrial := True, ps_deadSince := None\<rparr>"

definition release :: "time \<Rightarrow> parks \<Rightarrow> parks \<times> park_event list" where
  "release now ps =
     (map (\<lambda>(k, st). (k, if park_over now st then on_trial st else st)) ps,
      map (\<lambda>(k, _). \<lparr>pe_key = k, pe_parked = False, pe_for = 0\<rparr>) (filter (\<lambda>(k, st). park_over now st) ps))"

fun unpark :: "time \<Rightarrow> string list \<Rightarrow> parks \<Rightarrow> parks \<times> string list" where
  "unpark now [] ps = (ps, [])"
| "unpark now (k # ks) ps =
     (case map_of ps k of
        None \<Rightarrow> unpark now ks ps
      | Some st \<Rightarrow> apsnd (\<lambda>out. if is_parked now st then k # out else out) (unpark now ks (ddel k ps)))"

definition withoutParked :: "slot_member list \<Rightarrow> (string, time) dict \<Rightarrow> slot_member list" where
  "withoutParked members pk =
     (if pk = [] then members
      else (let out = filter (\<lambda>m. map_of pk (m_Key m) = None) members in if out = [] then members else out))"

section \<open>Lemmas\<close>

lemma park_state_cases [simp]: "zero_park\<lparr>ps_deadSince := d\<rparr> = \<lparr>ps_deadSince = d, ps_parkedUntil = None, ps_parkFor = 0, ps_onTrial = False\<rparr>"
  by (simp add: zero_park_def)

lemma fold_list_inv: "P s \<Longrightarrow> (\<And>x s. x \<in> set xs \<Longrightarrow> P s \<Longrightarrow> P (f x s)) \<Longrightarrow> P (fold f xs s)"
  by (induction xs arbitrary: s) auto

text \<open>The lengths of the parks.\<close>

definition park_ok :: "time \<Rightarrow> park_state \<Rightarrow> bool" where
  "park_ok now st \<longleftrightarrow> (ps_parkFor st = 0 \<or> nodeParkInitial \<le> ps_parkFor st \<and> ps_parkFor st \<le> nodeParkMax) \<and>
     (case ps_parkedUntil st of Some u \<Rightarrow> u \<le> now + nodeParkMax | None \<Rightarrow> True)"

definition parks_ok :: "time \<Rightarrow> parks \<Rightarrow> bool" where
  "parks_ok now ps \<longleftrightarrow> list_all (\<lambda>(k, st). park_ok now st) ps"

lemma parks_okI: "(\<And>k st. (k, st) \<in> set ps \<Longrightarrow> park_ok now st) \<Longrightarrow> parks_ok now ps"
  by (auto simp: parks_ok_def list_all_iff)

lemma parks_okD: "parks_ok now ps \<Longrightarrow> (k, st) \<in> set ps \<Longrightarrow> park_ok now st"
  by (auto simp: parks_ok_def list_all_iff)

lemma parks_ok_put: "parks_ok now ps \<Longrightarrow> park_ok now st \<Longrightarrow> parks_ok now (dput k st ps)"
  by (auto intro!: parks_okI dest!: dput_mem dest: parks_okD)

lemma parks_ok_sub: "parks_ok now ps \<Longrightarrow> set ps' \<subseteq> set ps \<Longrightarrow> parks_ok now ps'"
  by (auto intro!: parks_okI dest: parks_okD)

lemma parks_ok_later: "parks_ok now ps \<Longrightarrow> now \<le> now' \<Longrightarrow> parks_ok now' ps"
  by (rule parks_okI, drule parks_okD, assumption) (auto simp: park_ok_def split: option.splits)

lemma park_ok_at: "parks_ok now ps \<Longrightarrow> park_ok now (dget_or zero_park ps k)"
  by (auto simp: dget_or_def park_ok_def zero_park_def split: option.splits dest!: map_of_SomeD dest: parks_okD)

lemma next_park_range: "park_ok now st \<Longrightarrow> nodeParkInitial \<le> next_park_for st \<and> next_park_for st \<le> nodeParkMax"
  by (auto simp: next_park_for_def park_ok_def park_times)

lemma observe_dead_ok: "park_ok now st \<Longrightarrow> park_ok now (fst (observe_dead now a r st))"
proof -
  assume ok: "park_ok now st"
  have "next_park_for (st\<lparr>ps_deadSince := d\<rparr>) = next_park_for st" for d by (simp add: next_park_for_def)
  with next_park_range [OF ok] ok show ?thesis by (auto simp: observe_dead_def Let_def park_ok_def split: option.splits)
qed

lemma observe_member_ok: "parks_ok now (pr_nodes r) \<Longrightarrow> parks_ok now (pr_nodes (observe_member now sl byTag k r))"
proof -
  assume ok: "parks_ok now (pr_nodes r)"
  have "parks_ok now (ddel k (pr_nodes r))" by (rule parks_ok_sub [OF ok]) (auto simp: ddel_def)
  moreover have "parks_ok now (dput k (fst (observe_dead now a n (dget_or zero_park (pr_nodes r) k))) (pr_nodes r))" for a n
    by (rule parks_ok_put [OF ok observe_dead_ok [OF park_ok_at [OF ok]]])
  ultimately show ?thesis using ok by (auto simp: observe_member_def Let_def case_prod_beta split: option.splits)
qed

lemma observe_slot_ok: "parks_ok now (pr_nodes r) \<Longrightarrow> parks_ok now (pr_nodes (observe_slot now byTag sl r))"
  unfolding observe_slot_def by (auto intro!: fold_list_inv [where P = "\<lambda>r. parks_ok now (pr_nodes r)"] observe_member_ok)

lemma park_observe_ok: "parks_ok now ps \<Longrightarrow> parks_ok now (fst (park_observe now slots byTag ps))"
  unfolding park_observe_def Let_def fst_conv
  by (rule fold_list_inv [where P = "\<lambda>r. parks_ok now (pr_nodes r)"])
    (auto simp: forget_gone_def intro: parks_ok_sub observe_slot_ok)

lemma release_ok: "parks_ok now ps \<Longrightarrow> parks_ok now (fst (release now ps))"
proof (rule parks_okI)
  fix k st assume ok: "parks_ok now ps" and "(k, st) \<in> set (fst (release now ps))"
  then obtain st0 where "(k, st0) \<in> set ps" "st = (if park_over now st0 then on_trial st0 else st0)"
    by (auto simp: release_def)
  with parks_okD [OF ok] show "park_ok now st" by (auto simp: park_ok_def on_trial_def)
qed

lemma unpark_sub: "set (fst (unpark now ks ps)) \<subseteq> set ps"
proof (induction ks arbitrary: ps)
  case (Cons k ks)
  have "set (ddel k ps) \<subseteq> set ps" by (auto simp: ddel_def)
  with Cons.IH [of ps] Cons.IH [of "ddel k ps"] show ?case by (auto split: option.splits)
qed simp

text \<open>The life of the parker: time passes, and one of its operations runs.\<close>

datatype park_act = ActObserve "slot list" "(string, node_status) dict" | ActRelease | ActUnpark "string list"

fun run_act :: "park_act \<Rightarrow> time \<Rightarrow> parks \<Rightarrow> parks" where
  "run_act (ActObserve slots byTag) now ps = fst (park_observe now slots byTag ps)"
| "run_act ActRelease now ps = fst (release now ps)"
| "run_act (ActUnpark ks) now ps = fst (unpark now ks ps)"

definition park_step :: "nat \<times> park_act \<Rightarrow> time \<times> parks \<Rightarrow> time \<times> parks" where
  "park_step e s = (fst s + int (fst e), run_act (snd e) (fst s + int (fst e)) (snd s))"

interpretation park_lengths: run_invariant park_step "\<lambda>(now, ps). parks_ok now ps"
proof
  fix e :: "nat \<times> park_act" and s :: "time \<times> parks"
  assume "case s of (now, ps) \<Rightarrow> parks_ok now ps"
  then have later: "parks_ok (fst s + int (fst e)) (snd s)" by (auto intro: parks_ok_later)
  have "parks_ok (fst s + int (fst e)) (run_act (snd e) (fst s + int (fst e)) (snd s))"
    by (cases "snd e") (auto intro: park_observe_ok release_ok later parks_ok_sub [OF later unpark_sub])
  then show "case park_step e s of (now, ps) \<Rightarrow> parks_ok now ps" by (simp add: park_step_def)
qed

lemma parked_Cons: "parked now ((k, st) # ps) =
    (case ps_parkedUntil st of Some u \<Rightarrow> if now < u then (k, u) # parked now ps else parked now ps | None \<Rightarrow> parked now ps)"
  by (simp add: parked_def map_filter_simps is_parked_def split: option.splits)

lemma parked_Nil [simp]: "parked now [] = []"
  by (simp add: parked_def map_filter_simps)

lemma in_parked: "(k, u) \<in> set (parked now ps) \<longleftrightarrow> (\<exists>st. (k, st) \<in> set ps \<and> ps_parkedUntil st = Some u \<and> now < u)"
proof (induction ps)
  case (Cons p ps)
  then show ?case by (cases p; cases "ps_parkedUntil (snd p)") (auto simp: parked_Cons)
qed simp

lemma none_parked: "(\<And>k st u. (k, st) \<in> set ps \<Longrightarrow> ps_parkedUntil st = Some u \<Longrightarrow> u \<le> now) \<Longrightarrow> parked now ps = []"
  by (induction ps) (fastforce simp: parked_Cons split: option.splits)+

text \<open>A member that was not on record at \<^verbatim>\<open>t0\<close>, as after every live ping.\<close>

definition fresh_since :: "time \<Rightarrow> park_state \<Rightarrow> bool" where
  "fresh_since t0 st \<longleftrightarrow> ps_parkedUntil st = None \<and> \<not> ps_onTrial st \<and>
     (case ps_deadSince st of Some d \<Rightarrow> t0 \<le> d | None \<Rightarrow> True)"

definition fresh_in :: "time \<Rightarrow> string \<Rightarrow> parks \<Rightarrow> bool" where
  "fresh_in t0 k ps \<longleftrightarrow> (\<forall>st. (k, st) \<in> set ps \<longrightarrow> fresh_since t0 st)"

lemma fresh_in_sub: "fresh_in t0 k ps \<Longrightarrow> set ps' \<subseteq> set ps \<Longrightarrow> fresh_in t0 k ps'"
  by (auto simp: fresh_in_def)

lemma fresh_in_put: "fresh_in t0 k ps \<Longrightarrow> (k' = k \<Longrightarrow> fresh_since t0 st) \<Longrightarrow> fresh_in t0 k (dput k' st ps)"
  by (auto simp: fresh_in_def dest!: dput_mem)

lemma fresh_in_get: "fresh_in t0 k ps \<Longrightarrow> fresh_since t0 (dget_or zero_park ps k)"
  by (auto simp: fresh_in_def dget_or_def fresh_since_def zero_park_def split: option.splits dest!: map_of_SomeD)

lemma fresh_dead:
  assumes "fresh_since t0 st" "t0 \<le> now" "now < t0 + nodeDeadBeforePark"
  shows "fresh_since t0 (fst (observe_dead now a r st))"
proof -
  from assms have "now - dead_since now st < nodeDeadBeforePark" "t0 \<le> dead_since now st"
    by (auto simp: fresh_since_def dead_since_def park_times split: option.splits)
  with assms show ?thesis by (simp add: observe_dead_def Let_def fresh_since_def)
qed

lemma fresh_member:
  assumes "fresh_in t0 k (pr_nodes r)" "t0 \<le> now" "now < t0 + nodeDeadBeforePark"
  shows "fresh_in t0 k (pr_nodes (observe_member now sl byTag k' r))"
proof -
  have "fresh_in t0 k (ddel k' (pr_nodes r))" by (rule fresh_in_sub [OF assms(1)]) (auto simp: ddel_def)
  moreover have "fresh_in t0 k (dput k' (fst (observe_dead now a n (dget_or zero_park (pr_nodes r) k'))) (pr_nodes r))" for a n
    using fresh_dead [OF fresh_in_get [OF assms(1)] assms(2,3)] by (intro fresh_in_put assms(1)) simp
  ultimately show ?thesis using assms(1) by (auto simp: observe_member_def Let_def case_prod_beta split: option.splits)
qed

lemma fresh_observe:
  assumes "fresh_in t0 k ps" "t0 \<le> now" "now < t0 + nodeDeadBeforePark"
  shows "fresh_in t0 k (fst (park_observe now slots byTag ps))"
proof -
  have "fresh_in t0 k (forget_gone slots ps)"
    by (rule fresh_in_sub [OF assms(1)]) (auto simp: forget_gone_def)
  then show ?thesis
    unfolding park_observe_def Let_def fst_conv observe_slot_def
    by (intro fold_list_inv [where P = "\<lambda>r. fresh_in t0 k (pr_nodes r)"])
      (auto intro!: fold_list_inv [where P = "\<lambda>r. fresh_in t0 k (pr_nodes r)"] fresh_member assms(2,3))
qed

lemma fresh_release: "fresh_in t0 k ps \<Longrightarrow> fresh_in t0 k (fst (release now ps))"
  by (fastforce simp: release_def fresh_in_def fresh_since_def park_over_def)

lemma fresh_act: "fresh_in t0 k ps \<Longrightarrow> t0 \<le> now \<Longrightarrow> now < t0 + nodeDeadBeforePark \<Longrightarrow> fresh_in t0 k (run_act a now ps)"
  by (cases a) (simp_all add: fresh_observe fresh_release fresh_in_sub [OF _ unpark_sub])

text \<open>What an event of an observed poll says.\<close>

definition park_justified :: "slot list \<Rightarrow> (string, node_status) dict \<Rightarrow> park_event \<Rightarrow> bool" where
  "park_justified slots byTag e \<longleftrightarrow>
     list_ex (\<lambda>sl. \<not> NeverParks sl \<and> pe_key e \<in> set (member_keys sl) \<and>
       (case member_status sl byTag (pe_key e) of Some st \<Rightarrow> status_dead st | None \<Rightarrow> False) \<and>
       list_ex (\<lambda>k. case member_status sl byTag k of Some st \<Rightarrow> st_Alive st | None \<Rightarrow> False) (member_keys sl)) slots"

lemma observe_dead_parks: "snd (observe_dead now a n st) \<Longrightarrow> 0 < a"
  by (auto simp: observe_dead_def Let_def split: if_splits)

lemma alive_count_pos: "0 < alive_count sl byTag \<Longrightarrow>
    list_ex (\<lambda>k. case member_status sl byTag k of Some st \<Rightarrow> st_Alive st | None \<Rightarrow> False) (member_keys sl)"
  by (auto simp: alive_count_def list_ex_iff filter_empty_conv)

lemma observe_member_events:
  assumes "list_all (park_justified slots byTag) (pr_events r)" "sl \<in> set slots" "\<not> NeverParks sl" "k \<in> set (member_keys sl)"
  shows "list_all (park_justified slots byTag) (pr_events (observe_member now sl byTag k r))"
proof -
  let ?od = "observe_dead now (alive_count sl byTag) (pr_remaining r) (dget_or zero_park (pr_nodes r) k)"
  have "park_justified slots byTag \<lparr>pe_key = k, pe_parked = True, pe_for = t\<rparr>"
    if "snd ?od" "member_status sl byTag k = Some st" "status_dead st" for st t
    unfolding park_justified_def list_ex_iff [of _ slots]
    using assms(2-4) that(2,3) alive_count_pos [OF observe_dead_parks [OF that(1)]] by (intro bexI [of _ sl]) simp_all
  with assms(1) show ?thesis by (auto simp: observe_member_def Let_def case_prod_beta split: option.splits)
qed

section \<open>Properties\<close>

text \<open>C7. Whatever polls, releases and returns happen and however time passes, every park ends at most six
  hours from now, and a release six hours from now leaves no member parked.\<close>

theorem parks_end_within_six_hours:
  "let (now, ps) = fold park_step acts (t0, [])
   in list_all (\<lambda>(k, u). now < u \<and> u \<le> now + nodeParkMax) (parked now ps) \<and>
      parked (now + nodeParkMax) (fst (release (now + nodeParkMax) ps)) = []"
proof -
  obtain now ps where s: "fold park_step acts (t0, []) = (now, ps)" by fastforce
  have "parks_ok now ps" using park_lengths.run_inv [of "(t0, [])" acts] by (simp add: s parks_ok_def)
  then have le: "\<And>k st u. (k, st) \<in> set ps \<Longrightarrow> ps_parkedUntil st = Some u \<Longrightarrow> u \<le> now + nodeParkMax"
    by (auto simp: park_ok_def dest!: parks_okD)
  have "parked (now + nodeParkMax) (fst (release (now + nodeParkMax) ps)) = []"
  proof (rule none_parked)
    fix k st u assume "(k, st) \<in> set (fst (release (now + nodeParkMax) ps))" "ps_parkedUntil st = Some u"
    then obtain st0 where "(k, st0) \<in> set ps" "st = (if park_over (now + nodeParkMax) st0 then on_trial st0 else st0)"
      by (auto simp: release_def)
    with \<open>ps_parkedUntil st = Some u\<close> le show "u \<le> now + nodeParkMax"
      by (auto simp: on_trial_def split: if_splits)
  qed
  with le show ?thesis by (auto simp: s list_all_iff in_parked)
qed

text \<open>A member with no bad record at some time, as after every live ping, is not parked at any time in
  the fifteen minutes that follow, whatever happens.\<close>

theorem live_member_not_parked_for_a_while:
  assumes "map_of ps k = None" and "fst (fold park_step acts (t0, ps)) < t0 + nodeDeadBeforePark"
  shows "case map_of (snd (fold park_step acts (t0, ps))) k of
    Some st \<Rightarrow> \<not> is_parked (fst (fold park_step acts (t0, ps))) st | None \<Rightarrow> True"
proof -
  have mono: "fst s \<le> fst (fold park_step acts s)" for acts and s :: "time \<times> parks"
  proof (induction acts arbitrary: s)
    case (Cons a acts)
    from Cons [of "park_step a s"] show ?case by (simp add: park_step_def)
  qed simp
  have run: "fresh_in t0 k (snd (fold park_step acts s))"
    if "fresh_in t0 k (snd s)" "t0 \<le> fst s" "fst (fold park_step acts s) < t0 + nodeDeadBeforePark" for acts s
    using that
  proof (induction acts arbitrary: s)
    case (Cons a acts)
    have "fst (park_step a s) < t0 + nodeDeadBeforePark" using Cons.prems(3) mono [of "park_step a s" acts] by simp
    then have "fresh_in t0 k (snd (park_step a s))"
      using Cons.prems fresh_act by (simp add: park_step_def)
    with Cons show ?case by (simp add: park_step_def)
  qed simp
  have "fresh_in t0 k (snd (fold park_step acts (t0, ps)))"
    using assms(1) by (intro run) (auto simp: assms(2) fresh_in_def dest: weak_map_of_SomeI)
  then show ?thesis by (auto simp: fresh_in_def fresh_since_def is_parked_def split: option.splits dest!: map_of_SomeD)
qed

lemma live_member_not_parked_for_a_while_witness:
  "case map_of (snd (fold park_step [(60000000000, ActRelease)] (0, []))) ''a'' of
     Some st \<Rightarrow> \<not> is_parked (fst (fold park_step [(60000000000, ActRelease)] (0, []))) st | None \<Rightarrow> True"
  by (rule live_member_not_parked_for_a_while) (simp_all add: park_step_def park_times)

text \<open>A poll only parks a member it found dead in a pool that may park, and only while the same poll found
  another member of that pool alive.\<close>

theorem parked_only_beside_a_live_member:
  "list_all (park_justified slots byTag) (snd (park_observe now slots byTag ps))"
  unfolding park_observe_def Let_def snd_conv observe_slot_def
  by (rule fold_list_inv [where P = "\<lambda>r. list_all (park_justified slots byTag) (pr_events r)"])
    (auto intro!: fold_list_inv [where P = "\<lambda>r. list_all (park_justified slots byTag) (pr_events r)"] observe_member_events)

end
