(* ===== verification/Chain_Probe.thy ===== *)
theory Chain_Probe
  imports Pick_Props
begin

text \<open>
  \<^verbatim>\<open>daemon/chainprobe.go\<close> and the part of \<^verbatim>\<open>daemon/nodepick.go\<close> that reads it: what
  probing a master through a pool member found, which pairs are probed next, how one round of results
  is folded in, and the picks of the masters that share a pool. The probes themselves are a parameter:
  a round is the list of its results.
\<close>

section \<open>Scores\<close>

definition chainProbeEvery :: time where "chainProbeEvery = minutes 10"
definition chainVerdictTTL :: time where "chainVerdictTTL = minutes 30"
definition chainProbeMax :: nat where "chainProbeMax = 120"
definition chainWindow :: nat where "chainWindow = 4"
definition chainProbeAttempts :: int where "chainProbeAttempts = 1"
definition chainProbeBytes :: int where "chainProbeBytes = 65536"
definition chainScoreAlpha :: rat where "chainScoreAlpha = 1 / 2"
definition chainGoodRatio :: rat where "chainGoodRatio = 1 / 2"

record chain_score =
  ch_ok :: rat
  ch_rttMs :: rat
  ch_hasRTT :: bool
  ch_at :: time
  ch_lastErr :: string

type_synonym chain_scores = "(string, (string, chain_score) dict) dict"

definition verdict :: "chain_score \<Rightarrow> chain_verdict" where
  "verdict c =
     (if ch_ok c < chainGoodRatio \<or> \<not> ch_hasRTT c then \<lparr>v_class = ChainBad, v_cost = 0\<rparr>
      else \<lparr>v_class = ChainGood, v_cost = ch_rttMs c / (ch_ok c * ch_ok c)\<rparr>)"

definition master_scores :: "chain_scores \<Rightarrow> string \<Rightarrow> (string, chain_score) dict" where
  "master_scores c master = dget_or [] c master"

definition chain_score_at :: "chain_scores \<Rightarrow> string \<Rightarrow> string \<Rightarrow> chain_score option" where
  "chain_score_at c master key = map_of (master_scores c master) key"

text \<open>One probe of a pair, folded into its score.\<close>

definition fold_probe :: "int \<Rightarrow> int \<Rightarrow> int \<Rightarrow> string option \<Rightarrow> time \<Rightarrow> chain_score option \<Rightarrow> chain_score" where
  "fold_probe passed attempts ms err tm sc0 =
     (let ratio = of_int passed / of_int attempts;
          sc = (case sc0 of
                  None \<Rightarrow> \<lparr>ch_ok = ratio, ch_rttMs = 0, ch_hasRTT = False, ch_at = tm, ch_lastErr = []\<rparr>
                | Some s \<Rightarrow> s\<lparr>ch_ok := ch_ok s + chainScoreAlpha * (ratio - ch_ok s)\<rparr>);
          sc' = (if passed > 0
                 then sc\<lparr>ch_rttMs := (if ch_hasRTT sc then ch_rttMs sc + chainScoreAlpha * (of_int ms - ch_rttMs sc) else of_int ms),
                         ch_hasRTT := True\<rparr>
                 else sc)
      in sc'\<lparr>ch_at := tm, ch_lastErr := (case err of Some e \<Rightarrow> if passed = 0 then e else [] | None \<Rightarrow> [])\<rparr>)"

definition chain_record ::
    "string \<Rightarrow> string \<Rightarrow> int \<Rightarrow> int \<Rightarrow> int \<Rightarrow> string option \<Rightarrow> time \<Rightarrow> chain_scores \<Rightarrow> chain_scores" where
  "chain_record master key passed attempts ms err tm c =
     (if attempts \<le> 0 then c
      else (let byKey = master_scores c master
            in dput master (dput key (fold_probe passed attempts ms err tm (map_of byKey key)) byKey) c))"

definition chain_at :: "chain_scores \<Rightarrow> string \<Rightarrow> slot_member list \<Rightarrow> time \<Rightarrow> chain_view" where
  "chain_at c master members now =
     dict_of (List.map_filter (\<lambda>m.
       case chain_score_at c master (m_Key m) of
         Some sc \<Rightarrow> if now - ch_at sc < chainVerdictTTL then Some (m_Key m, verdict sc) else None
       | None \<Rightarrow> None) members)"

definition chain_due :: "chain_scores \<Rightarrow> string \<Rightarrow> string \<Rightarrow> time \<Rightarrow> bool" where
  "chain_due c master key now =
     (case chain_score_at c master key of None \<Rightarrow> True | Some sc \<Rightarrow> now - ch_at sc \<ge> chainProbeEvery)"

definition lastProbed :: "chain_scores \<Rightarrow> string \<Rightarrow> string \<Rightarrow> time option" where
  "lastProbed c master key = map_option ch_at (chain_score_at c master key)"

text \<open>The members each master can be probed through; a master in two pools has the later one's.\<close>

definition present_keys :: "slot list \<Rightarrow> (string, string list) dict" where
  "present_keys slots = fold (\<lambda>sl. fold (\<lambda>master. dput master (member_keys sl)) (SlotMasters sl)) slots []"

definition chain_keep :: "slot list \<Rightarrow> chain_scores \<Rightarrow> chain_scores" where
  "chain_keep slots c =
     List.map_filter (\<lambda>(master, byKey).
       map_option (\<lambda>keys. (master, filter (\<lambda>p. fst p \<in> set keys) byKey)) (map_of (present_keys slots) master)) c"

definition renameMaster :: "string \<Rightarrow> string \<Rightarrow> chain_scores \<Rightarrow> chain_scores" where
  "renameMaster old name c = (case map_of c old of Some byKey \<Rightarrow> dput name byKey (ddel old c) | None \<Rightarrow> c)"

definition renameMember :: "string \<Rightarrow> string \<Rightarrow> chain_scores \<Rightarrow> chain_scores" where
  "renameMember old key c =
     map (\<lambda>(master, byKey). (master, case map_of byKey old of Some sc \<Rightarrow> dput key sc (ddel old byKey) | None \<Rightarrow> byKey)) c"

record chain_status =
  cs_Probed :: bool
  cs_Good :: bool
  cs_OK :: rat
  cs_RTTMs :: int
  cs_Err :: string

definition chain_status_of :: "chain_scores \<Rightarrow> string \<Rightarrow> string \<Rightarrow> time \<Rightarrow> chain_status" where
  "chain_status_of c master key now =
     (case chain_score_at c master key of
        Some sc \<Rightarrow>
          if now - ch_at sc \<ge> chainVerdictTTL then \<lparr>cs_Probed = False, cs_Good = False, cs_OK = 0, cs_RTTMs = 0, cs_Err = []\<rparr>
          else \<lparr>cs_Probed = True, cs_Good = (v_class (verdict sc) = ChainGood), cs_OK = ch_ok sc,
                cs_RTTMs = \<lfloor>ch_rttMs sc\<rfloor>, cs_Err = ch_lastErr sc\<rparr>
      | None \<Rightarrow> \<lparr>cs_Probed = False, cs_Good = False, cs_OK = 0, cs_RTTMs = 0, cs_Err = []\<rparr>)"

definition ChainStatuses :: "chain_scores \<Rightarrow> slot list \<Rightarrow> time \<Rightarrow> (string, (string, chain_status) dict) dict" where
  "ChainStatuses c slots now =
     fold (\<lambda>sl. fold (\<lambda>master. dput master
         (dict_of (map (\<lambda>k. (k, chain_status_of c master k now))
           (filter (\<lambda>k. cs_Probed (chain_status_of c master k now)) (member_keys sl))))) (SlotMasters sl)) slots []"

section \<open>Which pairs to probe\<close>

definition chainBytes :: "int \<Rightarrow> int" where
  "chainBytes minBytes = (if minBytes < 0 then 0 else if minBytes > 0 then minBytes else chainProbeBytes)"

record host_addr =
  ha_text :: string
  ha_isNet :: bool
  ha_loopback :: bool
  ha_linkLocal :: bool

text \<open>The fingerprint of this box's addresses, and whether it changed since the last call.\<close>

definition networkChanged :: "host_addr list \<Rightarrow> string \<Rightarrow> string \<times> bool" where
  "networkChanged addrs netFP =
     (let fp = join '','' (sort (map ha_text (filter (\<lambda>a. ha_isNet a \<and> \<not> ha_loopback a \<and> \<not> ha_linkLocal a) addrs)))
      in (fp, netFP \<noteq> [] \<and> fp \<noteq> netFP))"

record chain_pair =
  cp_master :: string
  cp_member :: slot_member
  cp_last :: "time option"
  cp_control :: bool

definition best_of :: "string \<times> chain_verdict \<Rightarrow> string \<times> rat \<Rightarrow> string \<times> rat" where
  "best_of kv b =
     (if v_class (snd kv) = ChainGood \<and>
         (fst b = [] \<or> v_cost (snd kv) < snd b \<or> (v_cost (snd kv) = snd b \<and> fst kv < fst b))
      then (fst kv, v_cost (snd kv)) else b)"

definition bestProven :: "chain_view \<Rightarrow> string option" where
  "bestProven cv = (let k = fst (fold best_of cv ([], 0)) in if k = [] then None else Some k)"

definition picked_cands :: "scores \<Rightarrow> slot \<Rightarrow> string \<Rightarrow> string list" where
  "picked_cands scs sl master =
     keep_first id [] (filter (\<lambda>k. \<not> knownDead scs (SlotMemberTag (s_Index sl) k)) (p_Picked (PickOf sl master)))"

text \<open>Walk down the pool's order until enough members not known to fail are covered.\<close>

fun cover_order :: "chain_view \<Rightarrow> nat \<Rightarrow> string list \<Rightarrow> string list \<Rightarrow> string list" where
  "cover_order cv covered cands [] = cands"
| "cover_order cv covered cands (k # order) =
     (if covered \<ge> chainWindow then cands
      else if k \<in> set cands then cover_order cv covered cands order
      else cover_order cv (if v_class (verdict_of cv k) \<noteq> ChainBad then Suc covered else covered) (cands @ [k]) order)"

definition probe_cands :: "scores \<Rightarrow> slot \<Rightarrow> string \<Rightarrow> chain_view \<Rightarrow> string list" where
  "probe_cands scs sl master cv =
     (let cands = picked_cands scs sl master
      in cover_order cv (length (filter (\<lambda>k. v_class (verdict_of cv k) \<noteq> ChainBad) cands)) cands
           (poolOrder scs (s_Index sl) (s_Members sl)))"

definition member_by_key :: "slot \<Rightarrow> string \<Rightarrow> slot_member" where
  "member_by_key sl k =
     (case map_of (rev (map (\<lambda>m. (m_Key m, m)) (s_Members sl))) k of Some m \<Rightarrow> m | None \<Rightarrow> \<lparr>m_Key = [], m_Outbound = None\<rparr>)"

definition mk_pair :: "chain_scores \<Rightarrow> slot \<Rightarrow> string \<Rightarrow> bool \<Rightarrow> string \<Rightarrow> chain_pair" where
  "mk_pair c sl master ctl k =
     \<lparr>cp_master = master, cp_member = member_by_key sl k, cp_last = lastProbed c master k, cp_control = ctl\<rparr>"

definition master_pairs :: "scores \<Rightarrow> chain_scores \<Rightarrow> time \<Rightarrow> slot \<Rightarrow> string \<Rightarrow> chain_pair list" where
  "master_pairs scs c now sl master =
     (let cv = chain_at c master (s_Members sl) now;
          mine = map (mk_pair c sl master False) (filter (\<lambda>k. chain_due c master k now) (probe_cands scs sl master cv))
      in if mine = [] then []
         else mine @ (case bestProven cv of
                        Some ctl \<Rightarrow> if \<not> chain_due c master ctl now then [mk_pair c sl master True ctl] else []
                      | None \<Rightarrow> []))"

definition time_before :: "time option \<Rightarrow> time option \<Rightarrow> bool" where
  "time_before a b = (case (a, b) of (None, Some _) \<Rightarrow> True | (Some x, Some y) \<Rightarrow> x < y | _ \<Rightarrow> False)"

definition duePairs :: "scores \<Rightarrow> chain_scores \<Rightarrow> slot list \<Rightarrow> time \<Rightarrow> chain_pair list" where
  "duePairs scs c slots now =
     take chainProbeMax (go_sort (\<lambda>a b. time_before (cp_last a) (cp_last b))
       (concat (map (\<lambda>sl. concat (map (master_pairs scs c now sl) (SlotMasters sl))) (filter (\<lambda>sl. \<not> Manual sl) slots))))"

section \<open>A round of results\<close>

record probe_result =
  r_Passed :: int
  r_LatencyMs :: int
  r_Err :: "string option"

definition passed_masters :: "(chain_pair \<times> probe_result) list \<Rightarrow> string list" where
  "passed_masters rs = map (\<lambda>(p, r). cp_master p) (filter (\<lambda>(p, r). r_Passed r > 0) rs)"

definition fold_round :: "time \<Rightarrow> (chain_pair \<times> probe_result) list \<Rightarrow> chain_scores \<Rightarrow> chain_scores" where
  "fold_round now rs c =
     fold (\<lambda>(p, r) c.
       if cp_master p \<in> set (passed_masters rs)
       then chain_record (cp_master p) (m_Key (cp_member p)) (r_Passed r) chainProbeAttempts (r_LatencyMs r) (r_Err r) now c
       else c) rs c"

section \<open>The picks of a pool's masters\<close>

definition master_pick_of :: "scores \<Rightarrow> chain_scores \<Rightarrow> time \<Rightarrow> slot \<Rightarrow> slot \<Rightarrow> string \<Rightarrow> (string \<times> master_pick) option" where
  "master_pick_of scs c now sl prev master =
     (let cv = chain_at c master (s_Members sl) now
      in if cv = [] then None
         else (case pickFor scs sl (PickOf prev master) cv of (keys, active) \<Rightarrow>
                 Some (master, \<lparr>p_Picked = keys, p_Active = int active\<rparr>)))"

definition pickSlot :: "scores \<Rightarrow> chain_scores \<Rightarrow> time \<Rightarrow> slot \<Rightarrow> slot \<Rightarrow> slot" where
  "pickSlot scs c now sl prev =
     (case pickFor scs sl \<lparr>p_Picked = s_Picked prev, p_Active = s_Active prev\<rparr> [] of (keys, active) \<Rightarrow>
        (let sl' = sl\<lparr>s_Picked := keys, s_Active := int active, s_MasterPicks := []\<rparr>
         in if Manual sl then sl'
            else sl'\<lparr>s_MasterPicks := dict_of (List.map_filter (master_pick_of scs c now sl' prev) (SlotMasters sl))\<rparr>))"

definition zero_slot :: slot where
  "zero_slot = \<lparr>s_Master = [], s_Aliases = [], s_Key = [], s_Index = 0, s_Members = [], s_Picked = [], s_Active = 0,
     s_MasterPicks = [], s_Strategy = [], s_Auto = False, s_Pinned = []\<rparr>"

definition prev_slot :: "slot list \<Rightarrow> string \<Rightarrow> slot" where
  "prev_slot prev key = (case map_of (rev (map (\<lambda>sl. (s_Key sl, sl)) prev)) key of Some sl \<Rightarrow> sl | None \<Rightarrow> zero_slot)"

definition pickSlots :: "scores \<Rightarrow> chain_scores \<Rightarrow> time \<Rightarrow> slot list \<Rightarrow> slot list \<Rightarrow> slot list" where
  "pickSlots scs c now slots prev = map (\<lambda>sl. pickSlot scs c now sl (prev_slot prev (s_Key sl))) slots"

definition slot_pick :: "slot \<Rightarrow> master_pick" where
  "slot_pick sl = \<lparr>p_Picked = s_Picked sl, p_Active = s_Active sl\<rparr>"

definition pick_differs :: "master_pick \<Rightarrow> master_pick \<Rightarrow> bool" where
  "pick_differs a b \<longleftrightarrow> \<not> samePick (p_Picked a) (p_Picked b) \<or> ActiveCount a \<noteq> ActiveCount b"

definition slot_repicked :: "slot \<Rightarrow> slot \<Rightarrow> bool" where
  "slot_repicked now sl \<longleftrightarrow> pick_differs (slot_pick now) (slot_pick sl) \<or>
     list_ex (\<lambda>master. (map_of (s_MasterPicks sl) master \<noteq> None \<or> map_of (s_MasterPicks now) master \<noteq> None) \<and>
        pick_differs (PickOf sl master) (PickOf now master)) (SlotMasters sl)"

definition repicked :: "scores \<Rightarrow> chain_scores \<Rightarrow> time \<Rightarrow> slot list \<Rightarrow> bool" where
  "repicked scs c now slots = list_ex (\<lambda>sl. slot_repicked (pickSlot scs c now sl sl) sl) slots"

end
