(* ===== verification/Chain_Props.thy ===== *)
theory Chain_Props
  imports Chain_Probe
begin

text \<open>
  What probing chains promises: which pairs a round probes, that a master whose every pair failed
  blames no node, how fast a verdict turns, and that the picks of every master of every pool are
  members of the pool that avoid the ones known to fail it.
\<close>

section \<open>Scores\<close>

interpretation chain_ewma: ewma chainScoreAlpha
  by unfold_locales (simp_all add: chainScoreAlpha_def)

definition chain_ok :: "chain_score \<Rightarrow> bool" where
  "chain_ok sc \<longleftrightarrow> 0 \<le> ch_ok sc \<and> ch_ok sc \<le> 1"

definition probe_pass :: "int \<Rightarrow> time \<Rightarrow> chain_score option \<Rightarrow> chain_score" where
  "probe_pass ms now sc = fold_probe 1 chainProbeAttempts ms None now sc"

definition probe_fail :: "string \<Rightarrow> time \<Rightarrow> chain_score option \<Rightarrow> chain_score" where
  "probe_fail e now sc = fold_probe 0 chainProbeAttempts 0 (Some e) now sc"

lemma fold_probe_ok:
  assumes "0 \<le> passed" "passed \<le> attempts" "0 < attempts" "\<And>s. sc = Some s \<Longrightarrow> chain_ok s"
  shows "chain_ok (fold_probe passed attempts ms err now sc)"
proof -
  have r: "0 \<le> (of_int passed / of_int attempts :: rat)" "(of_int passed / of_int attempts :: rat) \<le> 1"
    using assms(1-3) by simp_all
  show ?thesis
  proof (cases sc)
    case None
    with r show ?thesis by (auto simp: fold_probe_def Let_def chain_ok_def)
  next
    case (Some s)
    with assms(4) chain_ewma.ewma_between [of 0 "ch_ok s" 1 "of_int passed / of_int attempts"] r show ?thesis
      by (auto simp: fold_probe_def Let_def chain_ok_def)
  qed
qed

lemma fold_probe_rate: "ch_ok (fold_probe passed 1 ms err now sc) =
    (case sc of None \<Rightarrow> of_int passed | Some s \<Rightarrow> (ch_ok s + of_int passed) / 2)"
  by (auto simp: fold_probe_def Let_def chainScoreAlpha_def field_simps split: option.splits)

lemma fold_probe_hasRTT: "0 < passed \<Longrightarrow> ch_hasRTT (fold_probe passed n ms err now sc)"
  by (auto simp: fold_probe_def Let_def split: option.splits)

section \<open>The round\<close>

lemma chain_record_other: "m \<noteq> master \<Longrightarrow> map_of (chain_record master k p n ms e now c) m = map_of c m"
  by (simp add: chain_record_def Let_def)

lemma fold_round_other:
  "list_all (\<lambda>(p, r). cp_master p \<in> set ms \<longrightarrow> cp_master p \<noteq> m) rs \<Longrightarrow>
   map_of (fold (\<lambda>(p, r) c. if cp_master p \<in> set ms
       then chain_record (cp_master p) (m_Key (cp_member p)) (r_Passed r) chainProbeAttempts (r_LatencyMs r) (r_Err r) now c
       else c) rs c) m = map_of c m"
  by (induction rs arbitrary: c) (auto simp: chain_record_other)

section \<open>Views\<close>

lemma chain_at_keys: "map_of (chain_at c master members now) k = Some v \<Longrightarrow> k \<in> m_Key ` set members"
  unfolding chain_at_def map_of_dict_of
  by (drule map_of_SomeD, unfold set_rev map_filter_set) (auto split: option.split_asm if_split_asm)

lemma best_of_keys: "fst (fold best_of kvs b) \<in> insert (fst b) (fst ` set kvs)"
proof (induction kvs arbitrary: b)
  case (Cons kv kvs)
  from Cons.IH [of "best_of kv b"] show ?case by (auto simp: best_of_def split: if_splits)
qed simp

lemma bestProven_key: "bestProven (chain_at c master members now) = Some k \<Longrightarrow> k \<in> m_Key ` set members"
proof -
  assume "bestProven (chain_at c master members now) = Some k"
  then have "k \<in> fst ` set (chain_at c master members now)"
    using best_of_keys [of "chain_at c master members now" "([], 0)"] by (auto simp: bestProven_def Let_def split: if_splits)
  then obtain v where "map_of (chain_at c master members now) k = Some v"
    by (metis map_of_eq_None_iff not_None_eq)
  then show ?thesis by (rule chain_at_keys)
qed

section \<open>Picks\<close>

definition pool_ok :: "slot \<Rightarrow> bool" where
  "pool_ok sl \<longleftrightarrow> distinct (member_keys sl) \<and> distinct (s_Pinned sl) \<and> set (s_Pinned sl) \<subseteq> set (member_keys sl)"

definition picks_ok :: "slot \<Rightarrow> master_pick \<Rightarrow> bool" where
  "picks_ok sl p \<longleftrightarrow> set (p_Picked p) \<subseteq> set (member_keys sl) \<and> distinct (p_Picked p) \<and>
     (p_Active p = 0 \<longrightarrow> p_Picked p = []) \<and> 0 \<le> p_Active p \<and> p_Active p \<le> int (length (p_Picked p))"

definition slot_ok :: "slot \<Rightarrow> bool" where
  "slot_ok sl \<longleftrightarrow> pool_ok sl \<and> picks_ok sl (slot_pick sl) \<and> list_all (\<lambda>(m, p). picks_ok sl p) (s_MasterPicks sl)"

lemma PickOf_ok: "slot_ok sl \<Longrightarrow> picks_ok sl (PickOf sl master)"
  by (auto simp: slot_ok_def PickOf_def slot_pick_def list_all_iff split: option.splits dest!: map_of_SomeD)

lemma stable_active_pos:
  assumes "pickStableLocked scs idx members inc cv = (ks, n)" "n = 0"
  shows "ks = []"
  using assms pickStable_form [of scs idx members inc cv] by (cases "scored scs idx members") (auto simp: pickStableLocked_def)

lemma pickFor_ok:
  assumes "pool_ok sl" "pickFor scs sl prev cv = (ks, n)"
  shows "picks_ok sl \<lparr>p_Picked = ks, p_Active = int n\<rparr>"
proof (cases "Manual sl")
  case True
  with assms show ?thesis by (auto simp: pickFor_def picks_ok_def pool_ok_def)
next
  case False
  have dist: "distinct (map m_Key (s_Members sl))" using assms(1) by (simp add: pool_ok_def member_keys_def)
  show ?thesis
  proof (cases "Agile sl")
    case True
    then have p: "pickAgile scs (s_Index sl) (s_Members sl) (p_Picked prev) (ActiveCount prev) cv = (ks, n)"
      using assms(2) False by (simp add: pickFor_def)
    have "n = 0 \<longrightarrow> ks = []"
    proof (cases "list_ex (a_sampled scs (s_Index sl)) (s_Members sl)")
      case ne: True
      show ?thesis
      proof (cases "agile_order (live_cands scs (s_Index sl) (take (ActiveCount prev) (p_Picked prev)) cv (s_Members sl)) = []")
        case True
        with p ne have "pickStableLocked scs (s_Index sl) (s_Members sl) (p_Picked prev) cv = (ks, n)" by (simp add: pickAgile_def)
        with stable_active_pos show ?thesis by blast
      next
        case False
        then have "0 < length (agile_order (live_cands scs (s_Index sl) (take (ActiveCount prev) (p_Picked prev)) cv (s_Members sl)))"
          by simp
        with p ne have "0 < n" by (auto simp: pickAgile_def Let_def agileActiveMax_def)
        then show ?thesis by simp
      qed
    qed (use p in \<open>simp add: pickAgile_def\<close>)
    with pickAgile_keys [OF p dist] show ?thesis by (simp add: picks_ok_def member_keys_def)
  next
    case stable: False
    show ?thesis
    proof (cases "s_Members sl = []")
      case True
      with assms(2) False stable show ?thesis by (auto simp: pickFor_def pick_def picks_ok_def)
    next
      case ne: False
      then have p: "pickStableLocked scs (s_Index sl) (s_Members sl) (p_Picked prev) cv = (ks, n)"
        using assms(2) False stable by (simp add: pickFor_def pick_def)
      have "set ks \<subseteq> m_Key ` set (s_Members sl)" using pickStable_keys(1) [OF p] by (force elim!: picked_top_from)
      with pickStable_keys [OF p] dist stable_active_pos [OF p] show ?thesis by (auto simp: picks_ok_def member_keys_def)
    qed
  qed
qed

lemma picks_ok_cong: "s_Members a = s_Members b \<Longrightarrow> picks_ok a p = picks_ok b p"
  by (simp add: picks_ok_def member_keys_def)

lemma pool_ok_cong: "s_Members a = s_Members b \<Longrightarrow> s_Pinned a = s_Pinned b \<Longrightarrow> pool_ok a = pool_ok b"
  by (simp add: pool_ok_def member_keys_def)

lemma pickSlot_fields [simp]:
  "s_Members (pickSlot scs c now sl prev) = s_Members sl" "s_Pinned (pickSlot scs c now sl prev) = s_Pinned sl"
  "s_Index (pickSlot scs c now sl prev) = s_Index sl" "s_Key (pickSlot scs c now sl prev) = s_Key sl"
  "s_Strategy (pickSlot scs c now sl prev) = s_Strategy sl" "SlotMasters (pickSlot scs c now sl prev) = SlotMasters sl"
  by (simp_all add: pickSlot_def Let_def SlotMasters_def split: prod.split)

lemma master_pick_of_Some: "master_pick_of scs c now sl prev m = Some (m', p) \<longleftrightarrow> m' = m \<and> chain_at c m (s_Members sl) now \<noteq> [] \<and>
    p = \<lparr>p_Picked = fst (pickFor scs sl (PickOf prev m) (chain_at c m (s_Members sl) now)),
         p_Active = int (snd (pickFor scs sl (PickOf prev m) (chain_at c m (s_Members sl) now)))\<rparr>"
  by (auto simp: master_pick_of_def Let_def split: prod.split)

lemma pickSlot_MasterPicks:
  assumes "map_of (s_MasterPicks (pickSlot scs c now sl prev)) master = Some p"
  obtains sl' cv keys active where "s_Members sl' = s_Members sl" "s_Pinned sl' = s_Pinned sl" "s_Index sl' = s_Index sl"
    "s_Strategy sl' = s_Strategy sl" "cv = chain_at c master (s_Members sl) now" "cv \<noteq> []" "\<not> Manual sl"
    "pickFor scs sl' (PickOf prev master) cv = (keys, active)" "p = \<lparr>p_Picked = keys, p_Active = int active\<rparr>"
proof -
  obtain ks n where k: "pickFor scs sl \<lparr>p_Picked = s_Picked prev, p_Active = s_Active prev\<rparr> [] = (ks, n)" by fastforce
  let ?sl = "sl\<lparr>s_Picked := ks, s_Active := int n, s_MasterPicks := []\<rparr>"
  have nm: "\<not> Manual sl" using assms by (auto simp: pickSlot_def k Let_def split: if_splits)
  have "(master, p) \<in> set (List.map_filter (master_pick_of scs c now ?sl prev) (SlotMasters sl))"
    using assms nm by (auto simp: pickSlot_def k Let_def map_of_dict_of dest!: map_of_SomeD)
  then obtain x where "master_pick_of scs c now ?sl prev x = Some (master, p)" unfolding map_filter_set by blast
  then have mp: "chain_at c master (s_Members sl) now \<noteq> []"
    "p = \<lparr>p_Picked = fst (pickFor scs ?sl (PickOf prev master) (chain_at c master (s_Members sl) now)),
         p_Active = int (snd (pickFor scs ?sl (PickOf prev master) (chain_at c master (s_Members sl) now)))\<rparr>"
    unfolding master_pick_of_Some by simp_all
  obtain keys active where "pickFor scs ?sl (PickOf prev master) (chain_at c master (s_Members sl) now) = (keys, active)" by fastforce
  with mp nm show thesis
    by (intro that [of ?sl "chain_at c master (s_Members sl) now" keys active]) simp_all
qed

lemma pickSlot_ok: "pool_ok sl \<Longrightarrow> slot_ok (pickSlot scs c now sl prev)"
proof -
  assume ok: "pool_ok sl"
  let ?r = "pickSlot scs c now sl prev"
  obtain ks n where k: "pickFor scs sl \<lparr>p_Picked = s_Picked prev, p_Active = s_Active prev\<rparr> [] = (ks, n)" by fastforce
  have "slot_pick ?r = \<lparr>p_Picked = ks, p_Active = int n\<rparr>" by (simp add: pickSlot_def k Let_def slot_pick_def)
  with pickFor_ok [OF ok k] have "picks_ok ?r (slot_pick ?r)" by (simp add: picks_ok_cong [of ?r sl])
  moreover have "picks_ok ?r p" if mem: "(m, p) \<in> set (s_MasterPicks ?r)" for m p
  proof -
    have "dict_ok (s_MasterPicks ?r)" by (simp add: pickSlot_def k Let_def)
    then have "map_of (s_MasterPicks ?r) m = Some p" using mem by (simp add: dict_ok_distinct)
    then show ?thesis
    proof (rule pickSlot_MasterPicks)
      fix sl' cv keys active
      assume a: "s_Members sl' = s_Members sl" "s_Pinned sl' = s_Pinned sl"
        "pickFor scs sl' (PickOf prev m) cv = (keys, active)" "p = \<lparr>p_Picked = keys, p_Active = int active\<rparr>"
      have "pool_ok sl'" using ok pool_ok_cong [OF a(1,2)] by simp
      from pickFor_ok [OF this a(3)] a(1,4) show "picks_ok ?r p" by (simp add: picks_ok_cong [of ?r sl'])
    qed
  qed
  ultimately show ?thesis using ok pool_ok_cong [of ?r sl] by (auto simp: slot_ok_def list_all_iff)
qed

section \<open>The pairs of a round\<close>

interpretation pair_order: strict_weak "\<lambda>a b. time_before (cp_last a) (cp_last b)"
  by unfold_locales (auto simp: time_before_def split: option.splits)

lemma member_by_key: "k \<in> set (member_keys sl) \<Longrightarrow> m_Key (member_by_key sl k) = k \<and> member_by_key sl k \<in> set (s_Members sl)"
proof -
  assume "k \<in> set (member_keys sl)"
  then have "k \<in> fst ` set (rev (map (\<lambda>m. (m_Key m, m)) (s_Members sl)))" by (auto simp: member_keys_def image_image)
  then obtain m where m: "map_of (rev (map (\<lambda>m. (m_Key m, m)) (s_Members sl))) k = Some m"
    by (metis map_of_eq_None_iff not_None_eq)
  from map_of_SomeD [OF this] have "m_Key m = k" "m \<in> set (s_Members sl)" by auto
  with m show ?thesis by (simp add: member_by_key_def)
qed

lemma cover_order_sub: "set (cover_order cv n cands order) \<subseteq> set cands \<union> set order"
  by (induction cv n cands order rule: cover_order.induct) auto

lemma poolOrder_sub: "set (poolOrder scs idx members) \<subseteq> m_Key ` set members"
  by (auto simp: poolOrder_def pool_cands_def Let_def)

lemma picked_cands_sub: "slot_ok sl \<Longrightarrow> set (picked_cands scs sl master) \<subseteq> set (member_keys sl)"
proof -
  assume "slot_ok sl"
  then have "set (p_Picked (PickOf sl master)) \<subseteq> set (member_keys sl)"
    using PickOf_ok by (simp add: picks_ok_def)
  moreover have "set (picked_cands scs sl master) \<subseteq> set (p_Picked (PickOf sl master))"
    unfolding picked_cands_def using keep_first_subset filter_is_subset by (rule subset_trans)
  ultimately show ?thesis by blast
qed

lemma probe_cands_sub: "slot_ok sl \<Longrightarrow> set (probe_cands scs sl master cv) \<subseteq> set (member_keys sl)"
  unfolding probe_cands_def Let_def member_keys_def set_map
  by (rule subset_trans [OF cover_order_sub])
    (simp add: poolOrder_sub picked_cands_sub [unfolded member_keys_def set_map])

definition pair_ok :: "chain_scores \<Rightarrow> slot list \<Rightarrow> time \<Rightarrow> chain_pair \<Rightarrow> bool" where
  "pair_ok c slots now p \<longleftrightarrow>
     list_ex (\<lambda>sl. \<not> Manual sl \<and> cp_master p \<in> set (SlotMasters sl) \<and> cp_member p \<in> set (s_Members sl)) slots \<and>
     cp_last p = lastProbed c (cp_master p) (m_Key (cp_member p)) \<and>
     (cp_control p \<noteq> chain_due c (cp_master p) (m_Key (cp_member p)) now)"

lemma master_pairs_ok:
  assumes "slot_ok sl" "sl \<in> set slots" "\<not> Manual sl" "master \<in> set (SlotMasters sl)" "p \<in> set (master_pairs scs c now sl master)"
  shows "pair_ok c slots now p"
proof -
  have ok: "pair_ok c slots now (mk_pair c sl master ctl k)"
    if "k \<in> set (member_keys sl)" "ctl \<noteq> chain_due c master k now" for k ctl
    using member_by_key [OF that(1)] that(2) assms(2-4) by (auto simp: pair_ok_def mk_pair_def list_ex_iff)
  let ?cv = "chain_at c master (s_Members sl) now"
  from assms(5) consider k where "k \<in> set (probe_cands scs sl master ?cv)" "chain_due c master k now" "p = mk_pair c sl master False k"
    | k where "bestProven ?cv = Some k" "\<not> chain_due c master k now" "p = mk_pair c sl master True k"
    by (cases "bestProven ?cv") (auto simp: master_pairs_def Let_def split: if_splits)
  then show ?thesis
  proof cases
    case 1
    with ok probe_cands_sub [OF assms(1)] show ?thesis by blast
  next
    case 2
    with ok [of k True] bestProven_key [OF 2(1)] show ?thesis by (simp add: member_keys_def)
  qed
qed

section \<open>Properties\<close>

text \<open>C8. A round probes at most 120 pairs, the least recently probed first, each a master of a loaded pool
  that is not manual with a member of that pool, and each either due or its master's control.\<close>

theorem duePairs_ok:
  assumes "list_all slot_ok slots"
  shows "let ps = duePairs scs c slots now
    in length ps \<le> chainProbeMax \<and> list_all (pair_ok c slots now) ps \<and>
       sorted_wrt (\<lambda>p q. \<not> time_before (cp_last q) (cp_last p)) ps"
proof -
  let ?all = "concat (map (\<lambda>sl. concat (map (master_pairs scs c now sl) (SlotMasters sl))) (filter (\<lambda>sl. \<not> Manual sl) slots))"
  have "sorted_wrt (\<lambda>p q. \<not> time_before (cp_last q) (cp_last p)) (duePairs scs c slots now)"
    unfolding duePairs_def by (intro sorted_wrt_take pair_order.go_sort_sorted)
  moreover have "pair_ok c slots now p" if "p \<in> set ?all" for p
    using that assms master_pairs_ok [of _ slots] by (auto simp: list_all_iff)
  ultimately show ?thesis by (auto simp: duePairs_def list_all_iff dest: in_set_takeD)
qed

lemma duePairs_ok_witness:
  "let ps = duePairs demo_scores [] [demo_pool] 0
   in length ps \<le> chainProbeMax \<and> list_all (pair_ok [] [demo_pool] 0) ps \<and>
      sorted_wrt (\<lambda>p q. \<not> time_before (cp_last q) (cp_last p)) ps"
  by (rule duePairs_ok) (simp add: slot_ok_def pool_ok_def picks_ok_def slot_pick_def demo_pool_def demo_member_def member_keys_def)

text \<open>A master none of whose pairs passed in a round blames no node: all its scores stay as they are.\<close>

theorem failed_master_blames_no_node:
  assumes "list_all (\<lambda>(p, r). cp_master p = master \<longrightarrow> r_Passed r \<le> 0) rs"
  shows "map_of (fold_round now rs c) master = map_of c master"
proof -
  have "master \<notin> set (passed_masters rs)" using assms by (fastforce simp: passed_masters_def list_all_iff)
  then have "list_all (\<lambda>(p, r). cp_master p \<in> set (passed_masters rs) \<longrightarrow> cp_master p \<noteq> master) rs"
    by (auto simp: list_all_iff)
  from fold_round_other [OF this] show ?thesis by (simp add: fold_round_def)
qed

lemma failed_master_blames_no_node_witness:
  "map_of (fold_round 5 [(\<lparr>cp_master = ''m'', cp_member = demo_member ''a'', cp_last = None, cp_control = False\<rparr>,
      \<lparr>r_Passed = 0, r_LatencyMs = 0, r_Err = Some ''timeout''\<rparr>)]
     [(''m'', [(''a'', probe_pass 90 1 None)])]) ''m'' = map_of [(''m'', [(''a'', probe_pass 90 1 None)])] ''m''"
  by (rule failed_master_blames_no_node) simp

text \<open>One passing probe proves a member, and two failing ones in a row condemn it, whatever its record; one
  failure does not condemn a member that never failed.\<close>

theorem verdict_turns:
  assumes "case sc of Some s \<Rightarrow> chain_ok s | None \<Rightarrow> True"
  shows "v_class (verdict (probe_pass ms now sc)) = ChainGood \<and>
    v_class (verdict (probe_fail e now' (Some (probe_fail e' now sc)))) = ChainBad \<and>
    v_class (verdict (probe_fail e now' (Some (probe_pass ms now None)))) = ChainGood"
proof (intro conjI)
  have ok: "0 \<le> ch_ok s \<and> ch_ok s \<le> 1" if "sc = Some s" for s using assms that by (simp add: chain_ok_def)
  show "v_class (verdict (probe_pass ms now sc)) = ChainGood"
    using ok by (auto simp: verdict_def probe_pass_def chainProbeAttempts_def fold_probe_rate fold_probe_hasRTT chainGoodRatio_def
        split: option.splits)
  show "v_class (verdict (probe_fail e now' (Some (probe_fail e' now sc)))) = ChainBad"
    using ok by (auto simp: verdict_def probe_fail_def chainProbeAttempts_def fold_probe_rate chainGoodRatio_def split: option.splits)
  have "ch_hasRTT (fold_probe 0 n 0 (Some e) now' (Some s)) = ch_hasRTT s" for n s
    by (simp add: fold_probe_def Let_def)
  then show "v_class (verdict (probe_fail e now' (Some (probe_pass ms now None)))) = ChainGood"
    by (simp add: verdict_def probe_fail_def probe_pass_def chainProbeAttempts_def fold_probe_rate fold_probe_hasRTT chainGoodRatio_def)
qed

lemma verdict_turns_witness:
  "v_class (verdict (probe_pass 90 1 None)) = ChainGood \<and>
   v_class (verdict (probe_fail ''x'' 3 (Some (probe_fail ''y'' 2 None)))) = ChainBad \<and>
   v_class (verdict (probe_fail ''x'' 3 (Some (probe_pass 90 1 None)))) = ChainGood"
  using verdict_turns [of None 90 1 "''x''" 3 "''y''"] verdict_turns [of None 90 2 "''x''" 3 "''y''"] by simp

text \<open>After a pool is ranked every master on it has a pick of distinct members of the pool, some of them
  active unless the pick is empty.\<close>

theorem every_master_picks_members:
  assumes "list_all pool_ok slots"
  shows "list_all slot_ok (pickSlots scs c now slots prev)"
  using assms by (auto simp: pickSlots_def list_all_iff intro: pickSlot_ok)

lemma every_master_picks_members_witness: "list_all slot_ok (pickSlots demo_scores [] 0 [demo_pool] [])"
  by (rule every_master_picks_members) (simp add: pool_ok_def demo_pool_def demo_member_def member_keys_def)

text \<open>In a ranked pool that is neither manual nor agile, a master with verdicts of its own rides no live
  member known to fail it, active or spare, while the pool has a member that is not dead and not known to.\<close>

theorem masters_avoid_failed_members:
  assumes "\<not> Manual sl" and "\<not> Agile sl" and "map_of (s_MasterPicks (pickSlot scs c now sl prev)) master \<noteq> None"
    and "list_ex (may_carry scs (s_Index sl) (chain_at c master (s_Members sl) now)) (s_Members sl)"
  shows "list_all (\<lambda>k. \<not> chain_failed scs (s_Index sl) (chain_at c master (s_Members sl) now) k)
     (p_Picked (PickOf (pickSlot scs c now sl prev) master))"
proof -
  from assms(3) obtain p where p: "map_of (s_MasterPicks (pickSlot scs c now sl prev)) master = Some p" by auto
  then have po: "PickOf (pickSlot scs c now sl prev) master = p" by (simp add: PickOf_def)
  from assms(4) obtain m where m: "m \<in> set (s_Members sl)" "may_carry scs (s_Index sl) (chain_at c master (s_Members sl) now) m"
    by (auto simp: list_ex_iff)
  from p show ?thesis
  proof (rule pickSlot_MasterPicks)
    fix sl' cv keys active
    assume a: "s_Members sl' = s_Members sl" "s_Index sl' = s_Index sl" "s_Strategy sl' = s_Strategy sl"
      "cv = chain_at c master (s_Members sl) now" "pickFor scs sl' (PickOf prev master) cv = (keys, active)"
      "p = \<lparr>p_Picked = keys, p_Active = int active\<rparr>"
    have "\<not> Manual sl'" "\<not> Agile sl'" using assms(1,2) a(3) by (simp_all add: Manual_def Agile_def)
    with a m(1) have ps: "pickStableLocked scs (s_Index sl) (s_Members sl) (p_Picked (PickOf prev master)) cv = (keys, active)"
      by (auto simp: pickFor_def pick_def split: if_splits)
    show ?thesis
    proof (cases "scored scs (s_Index sl) (s_Members sl)")
      case True
      with pick_tiers [OF m [folded a(4)] True ps] show ?thesis by (simp add: po a list_all_iff)
    next
      case False
      with ps show ?thesis by (simp add: po a pickStableLocked_def)
    qed
  qed
qed

lemma masters_avoid_failed_members_witness:
  "list_all (\<lambda>k. \<not> chain_failed demo_scores 0 (chain_at [(''m'', [(''a'', probe_fail ''x'' 0 None)])] ''m'' (s_Members demo_pool) 0) k)
     (p_Picked (PickOf (pickSlot demo_scores [(''m'', [(''a'', probe_fail ''x'' 0 None)])] 0 demo_pool zero_slot) ''m''))"
proof -
  have idx: "s_Index demo_pool = 0" by (simp add: demo_pool_def)
  show ?thesis
    by (rule masters_avoid_failed_members [where sl = demo_pool, unfolded idx]) code_simp+
qed

end
