(* ===== verification/Node_History.thy ===== *)
theory Node_History
  imports Node_Park
begin

text \<open>
  \<^verbatim>\<open>daemon/nodehistory.go\<close>: the rounds recorded per pool and the statistics drawn from them.
  A round-trip time is an \<^verbatim>\<open>int32\<close>, kept as a 32-bit word.
\<close>

section \<open>State\<close>

definition nodeHistoryWindow :: time where "nodeHistoryWindow = minutes 30"
definition nodeHealthPollInterval :: time where "nodeHealthPollInterval = seconds 10"

datatype health_state = HsNone | HsUnknown | HsAlive | HsDead | HsParked | HsUplinkDown

datatype health_role = RoleIdle | RoleActive | RoleSpare

fun role_string :: "health_role \<Rightarrow> string" where
  "role_string RoleActive = ''active''"
| "role_string RoleSpare = ''spare''"
| "role_string RoleIdle = ''idle''"

record node_sample =
  ns_state :: health_state
  ns_role :: health_role
  ns_rttMs :: "32 word"

record health_round =
  hr_at :: time
  hr_uplinkDown :: bool
  hr_ranked :: bool
  hr_nodes :: "(string, node_sample) dict"

record pool_history =
  ph_masters :: "string list"
  ph_strategy :: string
  ph_auto :: bool
  ph_rounds :: "health_round list"

type_synonym histories = "(string, pool_history) dict"

section \<open>Recording a poll\<close>

definition uplink_down :: "slot list \<Rightarrow> (string, node_status) dict \<Rightarrow> bool" where
  "uplink_down slots byTag \<longleftrightarrow> any_sampled slots byTag \<and> \<not> any_alive slots byTag"

definition role_of :: "slot \<Rightarrow> string \<Rightarrow> health_role" where
  "role_of sl k = (if k \<in> ActiveKeys sl then RoleActive else if k \<in> PickedKeys sl then RoleSpare else RoleIdle)"

definition sample_of :: "bool \<Rightarrow> (string, node_status) dict \<Rightarrow> slot \<Rightarrow> string \<Rightarrow> node_sample" where
  "sample_of down byTag sl k =
     (case sampled_status byTag (SlotMemberTag (s_Index sl) k) of
        None \<Rightarrow> \<lparr>ns_state = HsUnknown, ns_role = role_of sl k, ns_rttMs = 0\<rparr>
      | Some st \<Rightarrow>
          if st_Alive st then \<lparr>ns_state = HsAlive, ns_role = role_of sl k, ns_rttMs = of_int (st_Delay st)\<rparr>
          else \<lparr>ns_state = (if down then HsUplinkDown else HsDead), ns_role = role_of sl k, ns_rttMs = 0\<rparr>)"

definition knownKeys :: "pool_history \<Rightarrow> string list" where
  "knownKeys ph = remdups (concat (map (\<lambda>r. map fst (hr_nodes r)) (ph_rounds ph)))"

definition trim_history :: "time \<Rightarrow> pool_history \<Rightarrow> pool_history" where
  "trim_history cutoff ph = ph\<lparr>ph_rounds := dropWhile (\<lambda>r. hr_at r < cutoff) (ph_rounds ph)\<rparr>"

definition add_parked :: "(string, time) dict \<Rightarrow> string list \<Rightarrow> (string, node_sample) dict \<Rightarrow> (string, node_sample) dict" where
  "add_parked pk known nodes =
     fold (\<lambda>k ns. if map_of ns k = None \<and> map_of pk k \<noteq> None
                  then dput k \<lparr>ns_state = HsParked, ns_role = RoleIdle, ns_rttMs = 0\<rparr> ns else ns) known nodes"

definition round_of :: "time \<Rightarrow> bool \<Rightarrow> (string, node_status) dict \<Rightarrow> (string, time) dict \<Rightarrow> pool_history \<Rightarrow> slot \<Rightarrow> health_round" where
  "round_of now down byTag pk ph sl =
     \<lparr>hr_at = now, hr_uplinkDown = down, hr_ranked = Ranked sl,
      hr_nodes = add_parked pk (knownKeys ph) (dict_of (map (\<lambda>k. (k, sample_of down byTag sl k)) (member_keys sl)))\<rparr>"

definition record_slot :: "time \<Rightarrow> bool \<Rightarrow> (string, node_status) dict \<Rightarrow> (string, time) dict \<Rightarrow> slot \<Rightarrow> histories \<Rightarrow> histories" where
  "record_slot now down byTag pk sl h =
     (let ph = dget_or \<lparr>ph_masters = [], ph_strategy = [], ph_auto = False, ph_rounds = []\<rparr> h (s_Key sl);
          ph' = ph\<lparr>ph_masters := SlotMasters sl, ph_strategy := s_Strategy sl, ph_auto := s_Auto sl,
                  ph_rounds := ph_rounds ph @ [round_of now down byTag pk ph sl]\<rparr>
      in dput (s_Key sl) (trim_history (now - nodeHistoryWindow) ph') h)"

definition history_record ::
    "time \<Rightarrow> slot list \<Rightarrow> (string, node_status) dict \<Rightarrow> (string, time) dict \<Rightarrow> histories \<Rightarrow> histories" where
  "history_record now slots byTag pk h =
     filter (\<lambda>p. fst p \<in> set (map s_Key slots)) (fold (record_slot now (uplink_down slots byTag) byTag pk) slots h)"

definition rename_sample :: "string \<Rightarrow> string \<Rightarrow> health_round \<Rightarrow> health_round" where
  "rename_sample old new r =
     (case map_of (hr_nodes r) old of
        Some s \<Rightarrow> r\<lparr>hr_nodes := dput new s (ddel old (hr_nodes r))\<rparr>
      | None \<Rightarrow> r)"

definition history_rename :: "(string \<Rightarrow> string) \<Rightarrow> string \<Rightarrow> string \<Rightarrow> histories \<Rightarrow> histories" where
  "history_rename rekey oldMember newMember h =
     dict_of (map (\<lambda>(k, ph). (rekey k, if oldMember = [] then ph
        else ph\<lparr>ph_rounds := map (rename_sample oldMember newMember) (ph_rounds ph)\<rparr>)) h)"

section \<open>Statistics\<close>

record node_health =
  nh_Key :: string
  nh_Role :: string
  nh_States :: "health_state list"
  nh_UptimePct :: int
  nh_Flips :: nat
  nh_AvgRTTms :: int
  nh_LastRTTms :: int

record pool_health =
  po_Key :: string
  po_Masters :: "string list"
  po_Strategy :: string
  po_Auto :: bool
  po_Since :: time
  po_Rounds :: nat
  po_PickLoss :: nat
  po_LossSec :: int
  po_ChurnPct :: nat
  po_Nodes :: "node_health list"

definition seconds_between :: "time \<Rightarrow> time \<Rightarrow> int" where
  "seconds_between a b = (if a \<le> b then (b - a) div seconds 1 else - ((a - b) div seconds 1))"

text \<open>The whole pick of a round is dead.\<close>

definition round_loss :: "health_round \<Rightarrow> bool" where
  "round_loss r \<longleftrightarrow> hr_ranked r \<and> \<not> hr_uplinkDown r \<and>
     (let picked = filter (\<lambda>(k, s). ns_role s = RoleActive \<or> ns_role s = RoleSpare) (hr_nodes r)
      in 0 < length picked \<and> length (filter (\<lambda>(k, s). ns_state s = HsDead) picked) = length picked)"

fun pick_loss :: "bool \<Rightarrow> health_round list \<Rightarrow> nat" where
  "pick_loss inLoss [] = 0"
| "pick_loss inLoss (r # rs) = (if round_loss r \<and> \<not> inLoss then 1 else 0) + pick_loss (round_loss r) rs"

fun loss_sec :: "health_round list \<Rightarrow> int" where
  "loss_sec [] = 0"
| "loss_sec [r] = (if round_loss r then nodeHealthPollInterval div seconds 1 else 0)"
| "loss_sec (r # r' # rs) = (if round_loss r then seconds_between (hr_at r) (hr_at r') else 0) + loss_sec (r' # rs)"

record node_run =
  nr_alive :: nat
  nr_dead :: nat
  nr_rttSum :: int
  nr_last :: health_state
  nr_flips :: nat
  nr_lastRTT :: int

definition node_flip :: "node_run \<Rightarrow> health_state \<Rightarrow> node_run" where
  "node_flip a s = a\<lparr>nr_flips := (if nr_last a \<noteq> HsNone \<and> nr_last a \<noteq> s then Suc (nr_flips a) else nr_flips a), nr_last := s\<rparr>"

definition health_step :: "string \<Rightarrow> health_round \<Rightarrow> node_run \<Rightarrow> node_run" where
  "health_step k r a =
     (case map_of (hr_nodes r) k of
        None \<Rightarrow> a
      | Some s \<Rightarrow>
          (case ns_state s of
             HsAlive \<Rightarrow> node_flip (a\<lparr>nr_alive := Suc (nr_alive a), nr_rttSum := nr_rttSum a + sint (ns_rttMs s),
                                     nr_lastRTT := sint (ns_rttMs s)\<rparr>) HsAlive
           | HsDead \<Rightarrow> node_flip (a\<lparr>nr_dead := Suc (nr_dead a)\<rparr>) HsDead
           | _ \<Rightarrow> a))"

definition node_stats :: "string \<Rightarrow> health_round list \<Rightarrow> node_run" where
  "node_stats k rounds =
     fold (health_step k) rounds \<lparr>nr_alive = 0, nr_dead = 0, nr_rttSum = 0, nr_last = HsNone, nr_flips = 0, nr_lastRTT = 0\<rparr>"

definition state_in :: "string \<Rightarrow> health_round \<Rightarrow> health_state" where
  "state_in k r = (case map_of (hr_nodes r) k of Some s \<Rightarrow> ns_state s | None \<Rightarrow> HsNone)"

definition latest_role :: "string \<Rightarrow> health_round \<Rightarrow> string" where
  "latest_role k r =
     (case map_of (hr_nodes r) k of
        None \<Rightarrow> ''gone''
      | Some s \<Rightarrow> if ns_state s = HsParked then ''parked'' else role_string (ns_role s))"

definition node_health_of :: "health_round list \<Rightarrow> string \<Rightarrow> node_health" where
  "node_health_of rounds k =
     (let a = node_stats k rounds
      in \<lparr>nh_Key = k, nh_Role = latest_role k (last rounds), nh_States = map (state_in k) rounds,
          nh_UptimePct = (if nr_alive a + nr_dead a > 0 then int (nr_alive a * 100 div (nr_alive a + nr_dead a)) else -1),
          nh_Flips = nr_flips a,
          nh_AvgRTTms = (if nr_alive a > 0
            then (if nr_rttSum a \<ge> 0 then nr_rttSum a div int (nr_alive a) else - ((- nr_rttSum a) div int (nr_alive a))) else 0),
          nh_LastRTTms = nr_lastRTT a\<rparr>)"

definition roleRank :: "string \<Rightarrow> nat" where
  "roleRank role =
     (if role = ''active'' then 0 else if role = ''spare'' then 1 else if role = ''idle'' then 2
      else if role = ''parked'' then 3 else 4)"

definition lt_health :: "node_health \<Rightarrow> node_health \<Rightarrow> bool" where
  "lt_health a b =
     (if roleRank (nh_Role a) \<noteq> roleRank (nh_Role b) then roleRank (nh_Role a) < roleRank (nh_Role b)
      else if nh_UptimePct a \<noteq> nh_UptimePct b then nh_UptimePct a > nh_UptimePct b
      else nh_Key a < nh_Key b)"

definition history_keys :: "health_round list \<Rightarrow> string list" where
  "history_keys rounds = remdups (concat (map (\<lambda>r. map fst (hr_nodes r)) rounds))"

definition poolStats :: "string \<Rightarrow> string list \<Rightarrow> health_round list \<Rightarrow> pool_health" where
  "poolStats key masters rounds =
     (let nodes = map (node_health_of rounds) (history_keys rounds);
          observed = filter (\<lambda>n. nh_UptimePct n \<ge> 0) nodes;
          flipped = filter (\<lambda>n. nh_Flips n > 0) observed
      in \<lparr>po_Key = key, po_Masters = masters, po_Strategy = [], po_Auto = False, po_Since = hr_at (hd rounds),
          po_Rounds = length rounds, po_PickLoss = pick_loss False rounds, po_LossSec = loss_sec rounds,
          po_ChurnPct = (if observed = [] then 0 else length flipped * 100 div length observed),
          po_Nodes = go_sort lt_health nodes\<rparr>)"

definition clamp_window :: "time \<Rightarrow> time" where
  "clamp_window window = (if window \<le> 0 \<or> window > nodeHistoryWindow then nodeHistoryWindow else window)"

definition pool_snapshot :: "time \<Rightarrow> string \<times> pool_history \<Rightarrow> pool_health option" where
  "pool_snapshot cutoff kp =
     (let ph = snd kp; rounds = dropWhile (\<lambda>r. hr_at r < cutoff) (ph_rounds ph)
      in if rounds = [] then None
         else Some ((poolStats (fst kp) (ph_masters ph) rounds)\<lparr>po_Strategy := ph_strategy ph, po_Auto := ph_auto ph\<rparr>))"

definition snapshot :: "time \<Rightarrow> time \<Rightarrow> histories \<Rightarrow> pool_health list" where
  "snapshot now window h =
     go_sort (\<lambda>a b. join '','' (po_Masters a) < join '','' (po_Masters b))
       (List.map_filter (pool_snapshot (now - clamp_window window)) h)"

section \<open>Lemmas\<close>

text \<open>The reference for the flips: changes between neighbours among the rounds seen alive or dead.\<close>

fun changes :: "'a list \<Rightarrow> nat" where
  "changes (x # y # xs) = (if x \<noteq> y then 1 else 0) + changes (y # xs)"
| "changes _ = 0"

definition alive_or_dead :: "health_state \<Rightarrow> bool" where
  "alive_or_dead s \<longleftrightarrow> s = HsAlive \<or> s = HsDead"

lemma health_step_runs:
  "nr_flips (fold (health_step k) rounds a) = nr_flips a +
     (if nr_last a = HsNone then changes (filter alive_or_dead (map (state_in k) rounds))
      else changes (nr_last a # filter alive_or_dead (map (state_in k) rounds)))"
proof (induction rounds arbitrary: a)
  case (Cons r rounds)
  have flips: "nr_flips (health_step k r a) = (if alive_or_dead (state_in k r) \<and> nr_last a \<noteq> HsNone \<and> nr_last a \<noteq> state_in k r
      then Suc (nr_flips a) else nr_flips a)"
    and last: "nr_last (health_step k r a) = (if alive_or_dead (state_in k r) then state_in k r else nr_last a)"
    by (auto simp: health_step_def state_in_def alive_or_dead_def node_flip_def split: option.splits health_state.splits)
  have ne: "alive_or_dead s \<Longrightarrow> s \<noteq> HsNone" for s by (auto simp: alive_or_dead_def)
  show ?case by (simp add: Cons.IH flips last) (auto dest: ne)
qed simp

lemma health_step_counts:
  "nr_alive (fold (health_step k) rounds a) = nr_alive a + length (filter (\<lambda>r. state_in k r = HsAlive) rounds) \<and>
   nr_dead (fold (health_step k) rounds a) = nr_dead a + length (filter (\<lambda>r. state_in k r = HsDead) rounds)"
  by (induction rounds arbitrary: a)
    (auto simp: health_step_def state_in_def node_flip_def split: option.splits health_state.splits)

lemma pick_loss_le: "2 * pick_loss inLoss rs \<le> (if inLoss then length rs else Suc (length rs))"
proof (induction rs arbitrary: inLoss)
  case (Cons r rs)
  from Cons.IH [of True] Cons.IH [of False] show ?case by (cases inLoss; cases "round_loss r") auto
qed simp

text \<open>The rounds kept.\<close>

definition rounds_ok :: "time \<Rightarrow> health_round list \<Rightarrow> bool" where
  "rounds_ok now rs \<longleftrightarrow> sorted (map hr_at rs) \<and> list_all (\<lambda>r. now - nodeHistoryWindow \<le> hr_at r \<and> hr_at r \<le> now) rs"

lemma dropWhile_sorted_ge: "sorted (map f xs) \<Longrightarrow> x \<in> set (dropWhile (\<lambda>r. f r < c) xs) \<Longrightarrow> (c::int) \<le> f x"
  by (induction xs) (auto split: if_splits)

lemma trim_rounds:
  assumes "sorted (map hr_at rs)" "list_all (\<lambda>r. hr_at r \<le> now) rs"
  shows "rounds_ok now (dropWhile (\<lambda>r. hr_at r < now - nodeHistoryWindow) rs)"
  using assms dropWhile_sorted_ge [OF assms(1)] sorted_dropWhile [OF assms(1), of "\<lambda>t. t < now - nodeHistoryWindow"]
  by (auto simp: rounds_ok_def list_all_iff dropWhile_map o_def dest: set_dropWhileD)

definition histories_sorted :: "time \<Rightarrow> histories \<Rightarrow> bool" where
  "histories_sorted now h \<longleftrightarrow> list_all (\<lambda>(k, ph). sorted (map hr_at (ph_rounds ph)) \<and> list_all (\<lambda>r. hr_at r \<le> now) (ph_rounds ph)) h"

lemma histories_sorted_put: "histories_sorted now h \<Longrightarrow> sorted (map hr_at (ph_rounds ph)) \<Longrightarrow>
    list_all (\<lambda>r. hr_at r \<le> now) (ph_rounds ph) \<Longrightarrow> histories_sorted now (dput k ph h)"
  by (auto simp: histories_sorted_def list_all_iff dest!: dput_mem)

lemma histories_sorted_get:
  "histories_sorted now h \<Longrightarrow> sorted (map hr_at (ph_rounds (dget_or \<lparr>ph_masters = [], ph_strategy = [], ph_auto = False, ph_rounds = []\<rparr> h k))) \<and>
     list_all (\<lambda>r. hr_at r \<le> now) (ph_rounds (dget_or \<lparr>ph_masters = [], ph_strategy = [], ph_auto = False, ph_rounds = []\<rparr> h k))"
  by (auto simp: histories_sorted_def dget_or_def list_all_iff split: option.splits dest!: map_of_SomeD)

lemma rounds_ok_sorted: "rounds_ok now rs \<Longrightarrow> sorted (map hr_at rs) \<and> list_all (\<lambda>r. hr_at r \<le> now) rs"
  by (auto simp: rounds_ok_def list_all_iff)

text \<open>One pool after its slot was recorded.\<close>

lemma record_slot_rounds:
  assumes "histories_sorted now h"
  shows "map_of (record_slot now down byTag pk sl h) (s_Key sl) \<noteq> None"
    and "map_of (record_slot now down byTag pk sl h) (s_Key sl) = Some ph \<Longrightarrow> rounds_ok now (ph_rounds ph)"
    and "histories_sorted now (record_slot now down byTag pk sl h)"
proof -
  let ?ph = "dget_or \<lparr>ph_masters = [], ph_strategy = [], ph_auto = False, ph_rounds = []\<rparr> h (s_Key sl)"
  let ?rs = "ph_rounds ?ph @ [round_of now down byTag pk ?ph sl]"
  have "sorted (map hr_at ?rs) \<and> list_all (\<lambda>r. hr_at r \<le> now) ?rs"
    using histories_sorted_get [OF assms, of "s_Key sl"] by (auto simp: sorted_append round_of_def list_all_iff)
  then have ok: "rounds_ok now (dropWhile (\<lambda>r. hr_at r < now - nodeHistoryWindow) ?rs)" by (simp add: trim_rounds)
  show "map_of (record_slot now down byTag pk sl h) (s_Key sl) \<noteq> None" by (simp add: record_slot_def Let_def)
  show "map_of (record_slot now down byTag pk sl h) (s_Key sl) = Some ph \<Longrightarrow> rounds_ok now (ph_rounds ph)"
    using ok by (auto simp: record_slot_def Let_def trim_history_def)
  show "histories_sorted now (record_slot now down byTag pk sl h)"
    using rounds_ok_sorted [OF ok] assms by (simp add: record_slot_def Let_def trim_history_def histories_sorted_put)
qed

lemma record_slot_other: "k \<noteq> s_Key sl \<Longrightarrow> map_of (record_slot now down byTag pk sl h) k = map_of h k"
  by (simp add: record_slot_def Let_def)

lemma fold_record_slot:
  assumes "histories_sorted now h"
  shows "histories_sorted now (fold (record_slot now down byTag pk) slots h) \<and>
    (\<forall>k ph. k \<in> s_Key ` set slots \<longrightarrow> map_of (fold (record_slot now down byTag pk) slots h) k = Some ph \<longrightarrow> rounds_ok now (ph_rounds ph))"
  using assms
proof (induction slots rule: rev_induct)
  case (snoc sl slots)
  let ?h = "fold (record_slot now down byTag pk) slots h"
  from snoc have ih: "histories_sorted now ?h"
    "\<And>k ph. k \<in> s_Key ` set slots \<Longrightarrow> map_of ?h k = Some ph \<Longrightarrow> rounds_ok now (ph_rounds ph)" by auto
  have "rounds_ok now (ph_rounds ph)"
    if "k \<in> s_Key ` set (slots @ [sl])" "map_of (record_slot now down byTag pk sl ?h) k = Some ph" for k ph
  proof (cases "k = s_Key sl")
    case True
    with record_slot_rounds(2) [OF ih(1)] that(2) show ?thesis by simp
  next
    case False
    with ih(2) that show ?thesis by (auto simp: record_slot_other)
  qed
  with record_slot_rounds(3) [OF ih(1)] show ?case by simp
qed simp

lemma dict_ok_record: "dict_ok h \<Longrightarrow> dict_ok (fold (record_slot now down byTag pk) slots h)"
  by (induction slots arbitrary: h) (auto simp: record_slot_def Let_def)

text \<open>The life of the history: time passes, and a poll is recorded.\<close>

definition history_step :: "nat \<times> slot list \<times> (string, node_status) dict \<times> (string, time) dict \<Rightarrow> time \<times> histories \<Rightarrow> time \<times> histories" where
  "history_step e s = (case e of (dt, slots, byTag, pk) \<Rightarrow>
     (fst s + int dt, history_record (fst s + int dt) slots byTag pk (snd s)))"

definition histories_ok :: "time \<Rightarrow> histories \<Rightarrow> bool" where
  "histories_ok now h \<longleftrightarrow> dict_ok h \<and> list_all (\<lambda>(k, ph). rounds_ok now (ph_rounds ph)) h"

interpretation history_window: run_invariant history_step "\<lambda>(now, h). histories_ok now h"
proof
  fix e :: "nat \<times> slot list \<times> (string, node_status) dict \<times> (string, time) dict" and s :: "time \<times> histories"
  assume "case s of (now, h) \<Rightarrow> histories_ok now h"
  then have ok: "histories_ok (fst s) (snd s)" by (simp add: case_prod_beta)
  obtain dt slots byTag pk where e: "e = (dt, slots, byTag, pk)" by (cases e) auto
  let ?now = "fst s + int dt"
  have srt: "histories_sorted ?now (snd s)"
    using ok by (fastforce simp: histories_ok_def histories_sorted_def rounds_ok_def list_all_iff)
  let ?h = "fold (record_slot ?now (uplink_down slots byTag) byTag pk) slots (snd s)"
  have d: "dict_ok ?h" using ok by (simp add: histories_ok_def dict_ok_record)
  have "rounds_ok ?now (ph_rounds ph)" if "(k, ph) \<in> set ?h" "k \<in> s_Key ` set slots" for k ph
  proof -
    from that(1) d have "map_of ?h k = Some ph" by (simp add: dict_ok_distinct)
    with fold_record_slot [OF srt] that(2) show ?thesis by blast
  qed
  then show "case history_step e s of (now, h) \<Rightarrow> histories_ok now h"
    using d by (auto simp: history_step_def e histories_ok_def history_record_def list_all_iff)
qed

section \<open>Properties\<close>

text \<open>Every round of every pool's history lies in the last thirty minutes and the rounds are in the order of
  time, whatever polls were recorded.\<close>

theorem history_within_window:
  "case fold history_step polls (t0, []) of (now, h) \<Rightarrow> list_all (\<lambda>(k, ph). rounds_ok now (ph_rounds ph)) h"
  using history_window.run_inv [of "(t0, [])" polls] by (auto simp: histories_ok_def split: prod.splits)

text \<open>The flips of a node are the changes between neighbouring rounds among those that saw it alive or dead
  (rounds in which it was unknown, parked, absent or behind a dead uplink do not count), its uptime
  the share of alive rounds among those, or -1 when there is none.\<close>

theorem node_health_reference:
  "nh_Flips (node_health_of rounds k) = changes (filter alive_or_dead (map (state_in k) rounds)) \<and>
   nh_UptimePct (node_health_of rounds k) =
     (let a = length (filter (\<lambda>r. state_in k r = HsAlive) rounds); d = length (filter (\<lambda>r. state_in k r = HsDead) rounds)
      in if a + d = 0 then -1 else int (a * 100 div (a + d)))"
  using health_step_runs [of k rounds "\<lparr>nr_alive = 0, nr_dead = 0, nr_rttSum = 0, nr_last = HsNone, nr_flips = 0, nr_lastRTT = 0\<rparr>"]
    health_step_counts [of k rounds "\<lparr>nr_alive = 0, nr_dead = 0, nr_rttSum = 0, nr_last = HsNone, nr_flips = 0, nr_lastRTT = 0\<rparr>"]
  by (simp add: node_health_of_def Let_def node_stats_def)

text \<open>The statistics of a pool stay in range: percentages between 0 and 100, and at most every second round
  starts a loss of the whole pick.\<close>

theorem poolStats_ranges:
  "let p = poolStats key masters rounds
   in po_ChurnPct p \<le> 100 \<and> 2 * po_PickLoss p \<le> Suc (po_Rounds p) \<and>
      list_all (\<lambda>n. -1 \<le> nh_UptimePct n \<and> nh_UptimePct n \<le> 100) (po_Nodes p)"
proof -
  have pct: "a * 100 div b \<le> 100" if "a \<le> b" for a b :: nat
    using div_le_mono [of "a * 100" "b * 100" b] that by (cases "b = 0") auto
  have "nh_UptimePct (node_health_of rounds k) \<le> 100 \<and> -1 \<le> nh_UptimePct (node_health_of rounds k)" for k
    using pct [of "nr_alive (node_stats k rounds)" "nr_alive (node_stats k rounds) + nr_dead (node_stats k rounds)"]
    by (simp add: node_health_of_def Let_def)
  moreover have "(if c then 0 else length (filter P xs) * 100 div length xs) \<le> 100" for c P and xs :: "node_health list"
    using pct [of "length (filter P xs)" "length xs"] by simp
  then have "po_ChurnPct (poolStats key masters rounds) \<le> 100"
    unfolding poolStats_def Let_def pool_health.select_convs by this
  ultimately show ?thesis using pick_loss_le [of False rounds]
    by (simp del: filter_map filter_filter add: poolStats_def Let_def list_all_iff)
qed

end
