(* ===== verification/Auto_Strategy.thy ===== *)
theory Auto_Strategy
  imports Node_History Store
begin

text \<open>
  \<^verbatim>\<open>daemon/autostrategy.go\<close>: the classifier that runs a pool left on auto as stable or agile.
  The abstract specification of one pool is a function of what the polls judged it; the concrete
  classifier, which keeps its state in a map of all pools, refines it.
\<close>

section \<open>The classifier\<close>

definition autoMinFlapping :: nat where "autoMinFlapping = 2"

record auto_state =
  au_agile :: bool
  au_since :: time
  au_lastFlappy :: "time option"
  au_reason :: string

type_synonym classifier = "(string, auto_state) dict"

record auto_event =
  ev_key :: string
  ev_agile :: bool
  ev_reason :: string

definition cls_agile :: "classifier \<Rightarrow> string \<Rightarrow> bool" where
  "cls_agile c key = (case map_of c key of Some st \<Rightarrow> au_agile st | None \<Rightarrow> False)"

text \<open>A duration of whole minutes, as every window and calm time is.\<close>

definition shortMinutes :: "time \<Rightarrow> string" where
  "shortMinutes d = itoa (d div minutes 1) @ ''m''"

definition times_sign :: string where "times_sign = [CHR 0xC3, CHR 0x97]"
definition swap_arrow :: string where "swap_arrow = [CHR 0xE2, CHR 0x86, CHR 0x94]"

definition flapping :: "pool_health \<Rightarrow> auto_tuning \<Rightarrow> bool \<times> string" where
  "flapping p t =
     (let win = minutes (at_WindowMin t);
          observed = filter (\<lambda>n. \<not> nh_UptimePct n < 0) (po_Nodes p);
          flappers = filter (\<lambda>n. int (nh_Flips n) \<ge> at_Flips t) observed
      in if at_PickLoss t > 0 \<and> int (po_PickLoss p) \<ge> at_PickLoss t
         then (True, ''whole pick died '' @ nat_str (po_PickLoss p) @ times_sign @ '' in '' @ shortMinutes win)
         else if length flappers \<ge> autoMinFlapping \<and> int (length flappers) * 100 \<ge> at_FlappingPct t * int (length observed)
         then (True, nat_str (length flappers) @ ''/'' @ nat_str (length observed) @ '' nodes flipped alive'' @ swap_arrow @ ''dead '' @
                itoa (at_Flips t) @ ''+ times in '' @ shortMinutes win)
         else (False, []))"

text \<open>One pool judged once: its new state, and the switch it made if any.\<close>

definition judge :: "time \<Rightarrow> auto_tuning \<Rightarrow> pool_health \<Rightarrow> auto_state option \<Rightarrow> auto_state \<times> auto_event option" where
  "judge now t p st0 =
     (let calm = minutes (at_CalmMin t);
          st = (case st0 of None \<Rightarrow> \<lparr>au_agile = False, au_since = now, au_lastFlappy = None, au_reason = ''no flapping seen''\<rparr> | Some s \<Rightarrow> s);
          (flappy, why) = flapping p t
      in if flappy
         then (let st' = st\<lparr>au_lastFlappy := Some now\<rparr>
               in if \<not> au_agile st
                  then (st'\<lparr>au_agile := True, au_since := now, au_reason := why\<rparr>,
                        Some \<lparr>ev_key = po_Key p, ev_agile = True, ev_reason = why\<rparr>)
                  else (st', None))
         else if au_agile st \<and> (case au_lastFlappy st of Some f \<Rightarrow> now - f \<ge> calm | None \<Rightarrow> True)
         then (let why' = ''calm for '' @ shortMinutes calm
               in (st\<lparr>au_agile := False, au_since := now, au_reason := why'\<rparr>,
                   Some \<lparr>ev_key = po_Key p, ev_agile = False, ev_reason = why'\<rparr>))
         else (st, None))"

definition judge_window :: "time \<Rightarrow> auto_tuning \<Rightarrow> string list \<Rightarrow> pool_health \<Rightarrow> classifier \<times> auto_event list \<Rightarrow> classifier \<times> auto_event list" where
  "judge_window now t auto p s =
     (if po_Key p \<notin> set auto then s
      else (case judge now t p (map_of (fst s) (po_Key p)) of
              (st, ev) \<Rightarrow> (dput (po_Key p) st (fst s), snd s @ (case ev of Some e \<Rightarrow> [e] | None \<Rightarrow> []))))"

definition evaluate :: "time \<Rightarrow> pool_health list \<Rightarrow> string list \<Rightarrow> auto_tuning \<Rightarrow> classifier \<Rightarrow> classifier \<times> auto_event list" where
  "evaluate now windows auto t c =
     fold (judge_window now t auto) windows (filter (\<lambda>p. fst p \<in> set auto) c, [])"

definition classifier_rename :: "(string \<Rightarrow> string) \<Rightarrow> classifier \<Rightarrow> classifier" where
  "classifier_rename rekey c = dict_of (map (\<lambda>(k, st). (rekey k, st)) c)"

text \<open>The auto pools among the loaded ones, judged by the last window of their history.\<close>

definition autoSwitched :: "time \<Rightarrow> slot list \<Rightarrow> auto_tuning \<Rightarrow> histories \<Rightarrow> classifier \<Rightarrow> classifier \<times> bool" where
  "autoSwitched now slots t h c =
     (case evaluate now (snapshot now (minutes (at_WindowMin t)) h) (map s_Key (filter s_Auto slots)) t c of
        (c', events) \<Rightarrow> (c', events \<noteq> []))"

section \<open>The abstract specification of one pool\<close>

text \<open>What a sequence of judgements, oldest first, should make of a pool: agile exactly while the last
  judgement that found it flapping is less than the calm time old.\<close>

fun last_flappy :: "(time \<times> bool) list \<Rightarrow> time option" where
  "last_flappy [] = None"
| "last_flappy ((now, flappy) # js) =
     (case last_flappy js of Some f \<Rightarrow> Some f | None \<Rightarrow> if flappy then Some now else None)"

definition spec_agile :: "time \<Rightarrow> (time \<times> bool) list \<Rightarrow> bool" where
  "spec_agile calm js \<longleftrightarrow> js \<noteq> [] \<and> (case last_flappy js of None \<Rightarrow> False | Some f \<Rightarrow> fst (last js) - f < calm)"

text \<open>The polls of a pool that is on auto throughout: the time and what the poll saw.\<close>

fun judge_run :: "auto_tuning \<Rightarrow> (time \<times> pool_health) list \<Rightarrow> auto_state option \<Rightarrow> auto_state option" where
  "judge_run t [] st = st"
| "judge_run t ((now, p) # ps) st = judge_run t ps (Some (fst (judge now t p st)))"

definition judgements :: "auto_tuning \<Rightarrow> (time \<times> pool_health) list \<Rightarrow> (time \<times> bool) list" where
  "judgements t ps = map (\<lambda>(now, p). (now, fst (flapping p t))) ps"

lemma judge_run_append: "judge_run t (ps @ [(now, p)]) st = Some (fst (judge now t p (judge_run t ps st)))"
  by (induction t ps st rule: judge_run.induct) auto

lemma last_flappy_append: "last_flappy (js @ [(now, flappy)]) = (if flappy then Some now else last_flappy js)"
  by (induction js) (auto split: option.splits)

lemma last_flappy_le: "sorted (map fst js) \<Longrightarrow> last_flappy js = Some f \<Longrightarrow> f \<le> fst (last js)"
  by (induction js rule: last_flappy.induct) (auto split: option.splits if_splits)

lemma judge_agile:
  "au_agile (fst (judge now t p st)) \<longleftrightarrow>
     fst (flapping p t) \<or>
     (case st of Some s \<Rightarrow> au_agile s \<and> (case au_lastFlappy s of Some f \<Rightarrow> now - f < minutes (at_CalmMin t) | None \<Rightarrow> False) | None \<Rightarrow> False)"
  by (auto simp: judge_def Let_def case_prod_beta split: option.splits)

lemma judge_lastFlappy:
  "au_lastFlappy (fst (judge now t p st)) =
     (if fst (flapping p t) then Some now else (case st of Some s \<Rightarrow> au_lastFlappy s | None \<Rightarrow> None))"
  by (auto simp: judge_def Let_def case_prod_beta split: option.splits)

lemma judge_run_spec:
  assumes "sorted (map fst ps)" "0 < at_CalmMin t" "ps \<noteq> []"
  shows "\<exists>st. judge_run t ps None = Some st \<and> au_agile st = spec_agile (minutes (at_CalmMin t)) (judgements t ps) \<and>
     au_lastFlappy st = last_flappy (judgements t ps)"
  using assms
proof (induction ps rule: rev_induct)
  case (snoc q ps)
  obtain now p where q: "q = (now, p)" by (cases q)
  have calm: "0 < minutes (at_CalmMin t)" using snoc.prems(2) by (simp add: minutes_def seconds_def)
  let ?js = "judgements t ps"
  have js: "judgements t (ps @ [(now, p)]) = ?js @ [(now, fst (flapping p t))]" by (simp add: judgements_def)
  show ?case
  proof (cases "ps = []")
    case True
    with calm show ?thesis
      by (auto simp: q spec_agile_def judgements_def judge_agile judge_lastFlappy split: if_splits)
  next
    case False
    with snoc obtain st where st: "judge_run t ps None = Some st"
      "au_agile st = spec_agile (minutes (at_CalmMin t)) ?js" "au_lastFlappy st = last_flappy ?js" by (auto simp: sorted_append)
    have ne: "?js \<noteq> []" using False by (simp add: judgements_def)
    have "fst (last ?js) = fst (last ps)" using False by (simp add: judgements_def last_map case_prod_beta)
    moreover have "fst (last ps) \<le> now" using snoc.prems(1) False by (auto simp: q sorted_append)
    ultimately have "fst (last ?js) \<le> now" by simp
    then show ?thesis
      using st calm ne
      by (auto simp: q judge_run_append js judge_agile judge_lastFlappy last_flappy_append spec_agile_def split: option.splits if_splits)
  qed
qed simp

section \<open>The map of pools\<close>

lemma judge_window_other: "po_Key p \<noteq> k \<Longrightarrow> map_of (fst (judge_window now t auto p s)) k = map_of (fst s) k"
  by (auto simp: judge_window_def split: prod.splits)

lemma fold_judge_at:
  assumes "distinct (map po_Key windows)" "k \<in> set auto"
  shows "map_of (fst (fold (judge_window now t auto) windows s)) k =
    (case List.find (\<lambda>p. po_Key p = k) windows of
       Some p \<Rightarrow> Some (fst (judge now t p (map_of (fst s) k))) | None \<Rightarrow> map_of (fst s) k)"
  using assms(1)
proof (induction windows arbitrary: s)
  case (Cons p windows)
  show ?case
  proof (cases "po_Key p = k")
    case True
    with Cons.prems have "k \<notin> po_Key ` set windows" by simp
    then have "\<And>x. x \<in> set windows \<Longrightarrow> po_Key x \<noteq> k" by blast
    then have "List.find (\<lambda>p. po_Key p = k) windows = None" by (simp add: find_None_iff)
    with Cons True assms(2) show ?thesis by (auto simp: judge_window_def split: prod.splits)
  next
    case False
    with Cons show ?thesis by (simp add: judge_window_other split: option.split)
  qed
qed simp

lemma map_of_filter_auto: "map_of (filter (\<lambda>p. fst p \<in> A) c) k = (if k \<in> A then map_of c k else None)"
  by (induction c) auto

section \<open>Properties\<close>

text \<open>The classifier's map refines its pools one by one: after an evaluation a pool that is on auto has the
  state its own judgement gives it, or keeps its state when it has no window.\<close>

theorem evaluate_refines_judge:
  assumes "distinct (map po_Key windows)" and "k \<in> set auto"
  shows "map_of (fst (evaluate now windows auto t c)) k =
    (case List.find (\<lambda>p. po_Key p = k) windows of
       Some p \<Rightarrow> Some (fst (judge now t p (map_of c k))) | None \<Rightarrow> map_of c k)"
  using fold_judge_at [OF assms] assms(2) by (simp add: evaluate_def map_of_filter_auto split: option.split)

definition demo_health :: "nat \<Rightarrow> pool_health" where
  "demo_health loss = \<lparr>po_Key = ''subscription:s'', po_Masters = [''m''], po_Strategy = ''stable'', po_Auto = True, po_Since = 0,
     po_Rounds = 5, po_PickLoss = loss, po_LossSec = 0, po_ChurnPct = 0, po_Nodes = []\<rparr>"

lemma evaluate_refines_judge_witness:
  "map_of (fst (evaluate 9 [demo_health 2] [''subscription:s''] DefaultAutoTuning [])) ''subscription:s'' =
     Some (fst (judge 9 DefaultAutoTuning (demo_health 2) None))"
  using evaluate_refines_judge [of "[demo_health 2]" "''subscription:s''" "[''subscription:s'']" 9 DefaultAutoTuning "[]"]
  by (simp add: demo_health_def)

text \<open>C9. A pool on auto is agile exactly while the last poll that found it flapping is less than the calm time
  old: it goes agile at once, and back to stable only after the calm time without flapping.\<close>

theorem auto_mode_refines_spec:
  assumes "tuning_valid t" and "sorted (map fst polls)" and "polls \<noteq> []"
  shows "map_option au_agile (judge_run t polls None) = Some (spec_agile (minutes (at_CalmMin t)) (judgements t polls))"
  using judge_run_spec [OF assms(2) _ assms(3), of t] assms(1) by (auto simp: tuning_valid_def)

lemma auto_mode_refines_spec_witness:
  "map_option au_agile (judge_run DefaultAutoTuning [(0, demo_health 2), (60000000000, demo_health 0)] None) =
     Some (spec_agile (minutes (at_CalmMin DefaultAutoTuning)) (judgements DefaultAutoTuning [(0, demo_health 2), (60000000000, demo_health 0)]))"
  by (rule auto_mode_refines_spec) (simp_all add: tuning_valid_def DefaultAutoTuning_def)

end
