(* ===== verification/Pools.thy ===== *)
theory Pools
  imports Auto_Strategy Chain_Props
begin

text \<open>
  The pools of \<^verbatim>\<open>daemon/xray.go\<close> and the rejected members of
  \<^verbatim>\<open>daemon/validate.go\<close>: the members a master's dialer resolves to, the strategy and the
  pins of a pool, which slot index it gets, and the whole resolution of the stored entries into ranked
  slots. The supervisor's state is the record \<open>sup\<close>; logging is left out.
\<close>

section \<open>The supervisor's state\<close>

record rejection =
  rj_outbound :: raw_json
  rj_reason :: string

record sup =
  su_slotIdx :: "(string, nat) dict"
  su_loaded :: "slot list"
  su_parks :: parks
  su_scores :: scores
  su_chain :: chain_scores
  su_history :: histories
  su_auto :: classifier
  su_rejected :: "(string, rejection) dict"
  su_netFP :: string
  su_uplinkDown :: bool

section \<open>Members\<close>

definition sub_named :: "db \<Rightarrow> string \<Rightarrow> subscription option" where
  "sub_named d name = (case GetSubscriptionByName d name of Ok s \<Rightarrow> Some s | _ \<Rightarrow> None)"

definition entry_named :: "xray_entry list \<Rightarrow> string \<Rightarrow> xray_entry option" where
  "entry_named entries name = map_of (rev (map (\<lambda>e. (e_Name e, e)) entries)) name"

text \<open>What one reference adds, before members are deduplicated by key.\<close>

definition ref_members :: "db \<Rightarrow> xray_entry list \<Rightarrow> dialer_ref \<Rightarrow> slot_member list" where
  "ref_members d entries r =
     (if r_Kind r = RefXray then
        (case entry_named entries (r_Name r) of
           Some m \<Rightarrow> if e_Enabled m \<and> CheckMemberOutbound (e_Outbound m) = None
                     then [\<lparr>m_Key = ''xray-'' @ r_Name r, m_Outbound = e_Outbound m\<rparr>] else []
         | None \<Rightarrow> [])
      else if r_Kind r = RefXraySub then
        (case sub_named d (r_Name r) of
           Some s \<Rightarrow> map (\<lambda>n. \<lparr>m_Key = nd_Fingerprint n, m_Outbound = nd_Outbound n\<rparr>)
                       (filter (\<lambda>n. CheckMemberOutbound (nd_Outbound n) = None) (ActiveNodes d (sub_ID s)))
         | None \<Rightarrow> [])
      else [])"

definition resolveDialerMembers :: "db \<Rightarrow> xray_entry list \<Rightarrow> dialer_ref list \<Rightarrow> slot_member list" where
  "resolveDialerMembers d entries refs =
     keep_first m_Key [] (filter (\<lambda>m. m_Key m \<noteq> [] \<and> m_Outbound m \<noteq> None) (concat (map (ref_members d entries) refs)))"

definition withoutRejected :: "(string, rejection) dict \<Rightarrow> slot_member list \<Rightarrow> slot_member list" where
  "withoutRejected rej members =
     filter (\<lambda>m. case map_of rej (m_Key m) of Some r \<Rightarrow> rj_outbound r \<noteq> m_Outbound m | None \<Rightarrow> True) members"

definition RejectedMembers :: "(string, rejection) dict \<Rightarrow> (string, string) dict" where
  "RejectedMembers rej = map (\<lambda>(k, r). (k, rj_reason r)) rej"

definition reject :: "string \<Rightarrow> rejection \<Rightarrow> sup \<Rightarrow> sup" where
  "reject key r s = s\<lparr>su_rejected := dput key r (su_rejected s)\<rparr>"

definition forgetRejectedExcept :: "string list \<Rightarrow> (string, rejection) dict \<Rightarrow> (string, rejection) dict" where
  "forgetRejectedExcept present rej = filter (\<lambda>p. fst p \<in> set present) rej"

section \<open>Strategy and pins\<close>

definition ref_strategies :: "db \<Rightarrow> dialer_ref list \<Rightarrow> string list" where
  "ref_strategies d refs =
     List.map_filter (\<lambda>r. if r_Kind r = RefXraySub then map_option EffectiveStrategy (sub_named d (r_Name r)) else None) refs"

definition poolStrategy :: "db \<Rightarrow> classifier \<Rightarrow> string \<Rightarrow> dialer_ref list \<Rightarrow> string \<times> bool" where
  "poolStrategy d cls key refs =
     (let sts = ref_strategies d refs; subs = length (filter (\<lambda>r. r_Kind r = RefXraySub) refs)
      in if StrategyManual \<in> set sts then (StrategyManual, False)
         else if StrategyAgile \<in> set sts then (StrategyAgile, False)
         else if StrategyAuto \<notin> set sts \<and> subs > 0 then (StrategyStable, False)
         else if cls_agile cls key then (StrategyAgile, True)
         else (StrategyStable, True))"

definition ref_pins :: "db \<Rightarrow> dialer_ref \<Rightarrow> string list" where
  "ref_pins d r =
     (if r_Kind r \<noteq> RefXraySub then []
      else (case sub_named d (r_Name r) of
              Some s \<Rightarrow> if EffectiveStrategy s = StrategyManual then PinnedFingerprints d (sub_ID s) else []
            | None \<Rightarrow> []))"

definition poolPins :: "db \<Rightarrow> dialer_ref list \<Rightarrow> slot_member list \<Rightarrow> string list" where
  "poolPins d refs members =
     keep_first id [] (filter (\<lambda>k. k \<in> set (map m_Key members)) (concat (map (ref_pins d) refs)))"

definition orStable :: "string \<Rightarrow> string" where
  "orStable s = (if s = [] then StrategyStable else s)"

section \<open>Slot indices\<close>

text \<open>A pool without an index yet is paired with \<^term>\<open>None\<close>, the code's -1. The first pass gives each
  pool the index it had.\<close>

fun keep_indices :: "(string, nat) dict \<Rightarrow> nat list \<Rightarrow> slot list \<Rightarrow> (slot \<times> nat option) list \<times> nat list" where
  "keep_indices had used [] = ([], used)"
| "keep_indices had used (sl # sls) =
     (case map_of had (s_Key sl) of
        Some i \<Rightarrow> if i < SlotCount \<and> i \<notin> set used then apfst (Cons (sl, Some i)) (keep_indices had (i # used) sls)
                  else apfst (Cons (sl, None)) (keep_indices had used sls)
      | None \<Rightarrow> apfst (Cons (sl, None)) (keep_indices had used sls))"

text \<open>The second pass gives the others the lowest free index, and drops a pool when there is none. The
  code's cursor never moves back, and no index below it is freed.\<close>

definition next_slot :: "nat \<Rightarrow> nat list \<Rightarrow> nat option" where
  "next_slot nxt used = scan_free nxt SlotCount (\<lambda>i. i \<in> set used)"

fun fill_indices :: "nat \<Rightarrow> nat list \<Rightarrow> (slot \<times> nat option) list \<Rightarrow> slot list" where
  "fill_indices nxt used [] = []"
| "fill_indices nxt used ((sl, Some i) # sls) = sl\<lparr>s_Index := i\<rparr> # fill_indices nxt used sls"
| "fill_indices nxt used ((sl, None) # sls) =
     (case next_slot nxt used of
        Some i \<Rightarrow> sl\<lparr>s_Index := i\<rparr> # fill_indices i (i # used) sls
      | None \<Rightarrow> fill_indices SlotCount used sls)"

definition index_pools :: "(string, nat) dict \<Rightarrow> slot list \<Rightarrow> slot list" where
  "index_pools had slots = (case keep_indices had [] slots of (marked, used) \<Rightarrow> fill_indices 0 used marked)"

definition assignSlotIndices :: "(string, nat) dict \<Rightarrow> slot list \<Rightarrow> slot list \<times> (string, nat) dict" where
  "assignSlotIndices had slots =
     (let out = index_pools had slots
      in (go_sort (\<lambda>a b. s_Index a < s_Index b) out, dict_of (map (\<lambda>sl. (s_Key sl, s_Index sl)) out)))"

section \<open>Resolution\<close>

definition master_key :: "xray_entry \<Rightarrow> dialer_ref list \<times> string" where
  "master_key e =
     (case ParseDialer (e_Dialer e) of
        Inl _ \<Rightarrow> ([], ''invalid:'' @ e_Name e)
      | Inr refs \<Rightarrow> (refs, DialerGroupKey refs))"

text \<open>A new pool of one master: its strategy, its pins, and the members left of the resolved ones.\<close>

definition pool_of :: "db \<Rightarrow> sup \<Rightarrow> (string, time) dict \<Rightarrow> xray_entry \<Rightarrow> string \<Rightarrow> dialer_ref list \<Rightarrow> slot_member list \<Rightarrow> slot" where
  "pool_of d s pk e key refs resolved =
     (let (strategy0, auto) = poolStrategy d (su_auto s) key refs;
          members = withoutRejected (su_rejected s) resolved;
          pinned = (if strategy0 = StrategyManual then poolPins d refs members else []);
          strategy = (if strategy0 = StrategyManual \<and> pinned = [] then StrategyStable else strategy0)
      in \<lparr>s_Master = e_Name e, s_Aliases = [], s_Key = key, s_Index = 0,
          s_Members = (if strategy = StrategyAgile \<or> strategy = StrategyManual then members else withoutParked members pk),
          s_Picked = [], s_Active = 0, s_MasterPicks = [], s_Strategy = strategy, s_Auto = auto, s_Pinned = pinned\<rparr>)"

record resolving =
  rs_slots :: "slot list"
  rs_present :: "string list"
  rs_parks :: parks

definition resolve_master ::
    "db \<Rightarrow> sup \<Rightarrow> xray_entry list \<Rightarrow> time \<Rightarrow> (string, time) dict \<Rightarrow> xray_entry \<Rightarrow> resolving \<Rightarrow> resolving" where
  "resolve_master d s entries now pk e r =
     (let (refs, key) = master_key e
      in if key \<in> s_Key ` set (rs_slots r)
         then r\<lparr>rs_slots := map (\<lambda>sl. if s_Key sl = key then sl\<lparr>s_Aliases := s_Aliases sl @ [e_Name e]\<rparr> else sl) (rs_slots r)\<rparr>
         else (let resolved = resolveDialerMembers d entries refs; sl = pool_of d s pk e key refs resolved
               in \<lparr>rs_slots = rs_slots r @ [sl], rs_present = rs_present r @ map m_Key resolved,
                   rs_parks = (if NeverParks sl then fst (unpark now (member_keys sl) (rs_parks r)) else rs_parks r)\<rparr>))"

definition enabled_masters :: "xray_entry list \<Rightarrow> xray_entry list" where
  "enabled_masters entries =
     go_sort (\<lambda>a b. e_Name a < e_Name b) (filter (\<lambda>e. e_Enabled e \<and> IsMaster e) entries)"

definition resolve_pools :: "db \<Rightarrow> sup \<Rightarrow> xray_entry list \<Rightarrow> time \<Rightarrow> resolving" where
  "resolve_pools d s entries now =
     fold (resolve_master d s entries now (parked now (su_parks s))) (enabled_masters entries)
       \<lparr>rs_slots = [], rs_present = [], rs_parks = su_parks s\<rparr>"

definition resolveDialerSlots :: "db \<Rightarrow> sup \<Rightarrow> xray_entry list \<Rightarrow> time \<Rightarrow> slot list \<times> sup" where
  "resolveDialerSlots d s entries now =
     (let r = resolve_pools d s entries now;
          (slots, idx) = assignSlotIndices (su_slotIdx s) (rs_slots r)
      in (pickSlots (su_scores s) (su_chain s) now slots (su_loaded s),
          s\<lparr>su_slotIdx := idx, su_parks := rs_parks r, su_rejected := forgetRejectedExcept (rs_present r) (su_rejected s)\<rparr>))"

section \<open>Serving\<close>

definition routable :: "inbound list \<Rightarrow> bool" where
  "routable inbounds = list_ex (\<lambda>i. in_Enabled i \<and> (in_Port i \<noteq> 0 \<or> IsUnixInbound i)) inbounds"

definition memberForTag :: "slot list \<Rightarrow> string \<Rightarrow> slot_member option" where
  "memberForTag slots tag =
     map_option snd (List.find (\<lambda>(i, m). SlotMemberTag i (m_Key m) = tag)
       (concat (map (\<lambda>sl. map (Pair (s_Index sl)) (s_Members sl)) slots)))"

definition user_allowed :: "db \<Rightarrow> inbound_user \<Rightarrow> bool" where
  "user_allowed d u \<longleftrightarrow> u_Enabled u \<and>
     \<not> (u_ByteCap u > 0 \<and> (let (up, down) = TrafficTotalFor d ''user'' (u_Email u) in up + down \<ge> u_ByteCap u))"

definition activeUsers :: "db \<Rightarrow> nat \<Rightarrow> inbound_user list" where
  "activeUsers d inboundID = filter (user_allowed d) (InboundUsers d inboundID)"

end
