(* ===== verification/Pool_Props.thy ===== *)
theory Pool_Props
  imports Pools
begin

text \<open>
  What resolving the pools promises: every enabled master is on exactly one slot, slots have distinct
  indices that stay with their pool, and every slot holds distinct tunnelling members and well-formed
  picks.
\<close>

section \<open>Slot indices\<close>

interpretation slot_index: lowest_free nxt SlotCount "scan_free nxt SlotCount" for nxt
  by (rule scan_free_lowest)

definition marked_indices :: "(slot \<times> nat option) list \<Rightarrow> nat list" where
  "marked_indices ms = List.map_filter snd ms"

lemma marked_indices_simps [simp]:
  "marked_indices [] = []" "marked_indices ((sl, Some i) # ms) = i # marked_indices ms"
  "marked_indices ((sl, None) # ms) = marked_indices ms"
  by (simp_all add: marked_indices_def map_filter_simps)

lemma fill_indices_sound:
  assumes "distinct (marked_indices ms)" "set (marked_indices ms) \<subseteq> set used" "set used \<subseteq> {..<SlotCount}"
  shows "distinct (map s_Index (fill_indices nxt used ms)) \<and>
    s_Index ` set (fill_indices nxt used ms) \<subseteq> set (marked_indices ms) \<union> ({..<SlotCount} - set used)"
  using assms
proof (induction nxt used ms rule: fill_indices.induct)
  case (2 nxt used sl i sls)
  then have ih: "distinct (map s_Index (fill_indices nxt used sls))"
    "s_Index ` set (fill_indices nxt used sls) \<subseteq> set (marked_indices sls) \<union> ({..<SlotCount} - set used)" by auto
  have "i \<notin> s_Index ` set (fill_indices nxt used sls)" using ih(2) 2(2,3) by auto
  with ih show ?case by auto
next
  case (3 nxt used sl sls)
  show ?case
  proof (cases "next_slot nxt used")
    case None
    with 3 show ?thesis by auto
  next
    case (Some i)
    then have i: "i < SlotCount" "i \<notin> set used"
      using slot_index.nxt_Some [of nxt "\<lambda>i. i \<in> set used" i] by (auto simp: next_slot_def)
    have ih: "distinct (map s_Index (fill_indices i (i # used) sls))"
      "s_Index ` set (fill_indices i (i # used) sls) \<subseteq> set (marked_indices sls) \<union> ({..<SlotCount} - set (i # used))"
      using 3(2) [OF Some] 3(3-5) i by auto
    have "i \<notin> s_Index ` set (fill_indices i (i # used) sls)" using ih(2) 3(4) i by auto
    with ih Some i show ?thesis by auto
  qed
qed simp

lemma fill_indices_kept: "(sl, Some i) \<in> set ms \<Longrightarrow> sl\<lparr>s_Index := i\<rparr> \<in> set (fill_indices nxt used ms)"
  by (induction nxt used ms rule: fill_indices.induct) (auto split: option.splits)

definition unindex :: "slot \<Rightarrow> slot" where
  "unindex sl = sl\<lparr>s_Index := 0\<rparr>"

lemma fill_indices_all:
  assumes "card (set used) + length (filter (\<lambda>m. snd m = None) ms) \<le> SlotCount" "{..<nxt} \<subseteq> set used" "set used \<subseteq> {..<SlotCount}"
  shows "map unindex (fill_indices nxt used ms) = map (unindex \<circ> fst) ms"
  using assms
proof (induction nxt used ms rule: fill_indices.induct)
  case (3 nxt used sl sls)
  show ?case
  proof (cases "next_slot nxt used")
    case None
    then have "\<And>i. nxt \<le> i \<Longrightarrow> i < SlotCount \<Longrightarrow> i \<in> set used"
      using slot_index.nxt_None [of nxt "\<lambda>i. i \<in> set used"] by (auto simp: next_slot_def)
    then have "{..<SlotCount} \<subseteq> set used" using 3(4) by (meson lessThan_iff not_le subset_iff)
    then have "SlotCount \<le> card (set used)" using card_mono [of "set used" "{..<SlotCount}"] by simp
    with 3(3) show ?thesis by simp
  next
    case (Some i)
    then have i: "nxt \<le> i" "i < SlotCount" "i \<notin> set used" "\<And>j. nxt \<le> j \<Longrightarrow> j < i \<Longrightarrow> j \<in> set used"
      using slot_index.nxt_Some [of nxt "\<lambda>i. i \<in> set used" i] by (auto simp: next_slot_def)
    have "{..<i} \<subseteq> set (i # used)" using i(4) 3(4) by (metis lessThan_iff list.set_intros(2) not_le subset_iff)
    with 3(2) [OF Some] 3(3,5) i Some show ?thesis by (simp add: unindex_def)
  qed
qed (auto simp: unindex_def)

lemma keep_indices_facts:
  assumes "keep_indices had used sls = (ms, used')" "distinct used" "set used \<subseteq> {..<SlotCount}"
  shows "map fst ms = sls \<and> distinct used' \<and> set used' \<subseteq> {..<SlotCount} \<and> set used' = set used \<union> set (marked_indices ms) \<and>
    distinct (marked_indices ms) \<and> set (marked_indices ms) \<inter> set used = {} \<and>
    length (marked_indices ms) + length (filter (\<lambda>m. snd m = None) ms) = length sls"
  using assms
proof (induction had used sls arbitrary: ms used' rule: keep_indices.induct)
  case (2 had used sl sls)
  show ?case
  proof (cases "\<exists>i. map_of had (s_Key sl) = Some i \<and> i < SlotCount \<and> i \<notin> set used")
    case True
    then obtain i where i: "map_of had (s_Key sl) = Some i" "i < SlotCount" "i \<notin> set used" by auto
    obtain ms' u' where r: "keep_indices had (i # used) sls = (ms', u')" by fastforce
    from 2(2) [OF i(1) _ r] 2(5,6) i 2(4) r show ?thesis by auto
  next
    case False
    obtain ms' u' where r: "keep_indices had used sls = (ms', u')" by fastforce
    have "map fst ms' = sls \<and> distinct u' \<and> set u' \<subseteq> {..<SlotCount} \<and> set u' = set used \<union> set (marked_indices ms') \<and>
      distinct (marked_indices ms') \<and> set (marked_indices ms') \<inter> set used = {} \<and>
      length (marked_indices ms') + length (filter (\<lambda>m. snd m = None) ms') = length sls"
    proof (cases "map_of had (s_Key sl)")
      case None
      show ?thesis by (rule 2(1) [OF None r 2(5,6)])
    next
      case (Some i)
      with False have ni: "\<not> (i < SlotCount \<and> i \<notin> set used)" by auto
      show ?thesis by (rule 2(3) [OF Some ni r 2(5,6)])
    qed
    moreover from this have "set (marked_indices ms') \<subseteq> {..<SlotCount}" by (elim conjE) blast
    moreover have "ms = (sl, None) # ms'" "used' = u'" using 2(4) r False by (auto split: option.splits if_splits)
    ultimately show ?thesis using 2(6) by simp
  qed
qed simp

lemma fill_indices_from: "sl \<in> set (fill_indices nxt used ms) \<Longrightarrow> \<exists>i. \<exists>sl0 \<in> fst ` set ms. sl = sl0\<lparr>s_Index := i\<rparr>"
  by (induction nxt used ms rule: fill_indices.induct) (auto split: option.splits)

lemma fill_indices_key: "k \<notin> s_Key ` fst ` set ms \<Longrightarrow> k \<notin> s_Key ` set (fill_indices nxt used ms)"
  by (auto dest!: fill_indices_from simp: image_image) (metis fst_conv image_eqI)

lemma fill_indices_keys: "distinct (map s_Key (map fst ms)) \<Longrightarrow> distinct (map s_Key (fill_indices nxt used ms))"
proof (induction nxt used ms rule: fill_indices.induct)
  case (2 nxt used sl i sls)
  then show ?case using fill_indices_key [of "s_Key sl" sls nxt used] by (auto simp: image_image)
next
  case (3 nxt used sl sls)
  then show ?case using fill_indices_key [of "s_Key sl" sls] by (auto simp: image_image split: option.splits)
qed simp

lemma index_pools_facts:
  shows "distinct (map s_Index (index_pools had slots))" and "s_Index ` set (index_pools had slots) \<subseteq> {..<SlotCount}"
    and "distinct (map s_Key slots) \<Longrightarrow> distinct (map s_Key (index_pools had slots))"
    and "sl \<in> set (index_pools had slots) \<Longrightarrow> \<exists>i. \<exists>sl0 \<in> set slots. sl = sl0\<lparr>s_Index := i\<rparr>"
    and "length slots \<le> SlotCount \<Longrightarrow> map unindex (index_pools had slots) = map unindex slots"
proof -
  obtain ms used where k: "keep_indices had [] slots = (ms, used)" by fastforce
  note f = keep_indices_facts [OF k]
  have out: "index_pools had slots = fill_indices 0 used ms" by (simp add: index_pools_def k)
  have mi: "set used = set (marked_indices ms)" "distinct (marked_indices ms)" "set used \<subseteq> {..<SlotCount}" "map fst ms = slots" using f by auto
  show "distinct (map s_Index (index_pools had slots))" "s_Index ` set (index_pools had slots) \<subseteq> {..<SlotCount}"
    using fill_indices_sound [of ms used 0] mi by (auto simp: out)
  show "distinct (map s_Key slots) \<Longrightarrow> distinct (map s_Key (index_pools had slots))"
    using fill_indices_keys [of ms 0 used] by (simp only: out mi(4))
  show "sl \<in> set (index_pools had slots) \<Longrightarrow> \<exists>i. \<exists>sl0 \<in> set slots. sl = sl0\<lparr>s_Index := i\<rparr>"
    using fill_indices_from [of sl 0 used ms] by (simp only: out set_map [symmetric] mi(4))
  assume "length slots \<le> SlotCount"
  then have "card (set used) + length (filter (\<lambda>m. snd m = None) ms) \<le> SlotCount"
    using f distinct_card [of "marked_indices ms"] by auto
  then have "map unindex (fill_indices 0 used ms) = map (unindex \<circ> fst) ms"
    using mi(3) by (intro fill_indices_all) auto
  then show "map unindex (index_pools had slots) = map unindex slots"
    using mi(4) by (simp add: out flip: map_map)
qed

text \<open>A pool that had an index keeps it, when no two pools had the same one.\<close>

lemma keep_indices_marks:
  assumes "keep_indices had used sls = (ms, used')" "distinct (map s_Key sls)" "sl \<in> set sls"
    and "map_of had (s_Key sl) = Some i" "i < SlotCount"
    and "\<And>k k' j. map_of had k = Some j \<Longrightarrow> map_of had k' = Some j \<Longrightarrow> k = k'"
    and "\<And>j. j \<in> set used \<Longrightarrow> \<exists>k. k \<notin> s_Key ` set sls \<and> map_of had k = Some j"
  shows "(sl, Some i) \<in> set ms"
  using assms
proof (induction had used sls arbitrary: ms used' rule: keep_indices.induct)
  case (2 had used s0 sls)
  note inj = 2(9)
  have fresh: "i \<notin> set used" using 2(10) [of i] inj 2(6,7) by fastforce
  consider j where "map_of had (s_Key s0) = Some j" "j < SlotCount" "j \<notin> set used"
    | "\<not> (\<exists>j. map_of had (s_Key s0) = Some j \<and> j < SlotCount \<and> j \<notin> set used)" by blast
  then show ?case
  proof cases
    case 1
    obtain ms' u' where r: "keep_indices had (j # used) sls = (ms', u')" by fastforce
    have ms: "ms = (s0, Some j) # ms'" using 2(4) 1 r by simp
    show ?thesis
    proof (cases "sl = s0")
      case True
      with 1 2(7) ms show ?thesis by simp
    next
      case False
      have "(sl, Some i) \<in> set ms'"
      proof (rule 2(2) [OF 1(1) _ r])
        show "\<exists>k. k \<notin> s_Key ` set sls \<and> map_of had k = Some j'" if "j' \<in> set (j # used)" for j'
          using that 2(10) [of j'] 1(1) 2(5) by auto
      qed (use 1 2(5-8) inj False in auto)
      with ms show ?thesis by simp
    qed
  next
    case 2
    have ne: "sl \<noteq> s0" using 2 \<open>map_of had (s_Key sl) = Some i\<close> \<open>i < SlotCount\<close> fresh by auto
    obtain ms' u' where r: "keep_indices had used sls = (ms', u')" by fastforce
    have ms: "ms = (s0, None) # ms'" using \<open>keep_indices had used (s0 # sls) = (ms, used')\<close> r 2 by (auto split: option.splits if_splits)
    have rest: "sl \<in> set sls" "distinct (map s_Key sls)" using \<open>sl \<in> set (s0 # sls)\<close> ne \<open>distinct (map s_Key (s0 # sls))\<close> by auto
    have us: "\<exists>k. k \<notin> s_Key ` set sls \<and> map_of had k = Some j" if "j \<in> set used" for j
      using "2.prems"(7) [OF that] by auto
    have "(sl, Some i) \<in> set ms'"
    proof (cases "map_of had (s_Key s0)")
      case None
      show ?thesis by (rule "2.IH"(1) [OF None r rest(2,1) "2.prems"(4,5) inj us]) auto
    next
      case (Some j)
      with 2 have nj: "\<not> (j < SlotCount \<and> j \<notin> set used)" by auto
      show ?thesis by (rule "2.IH"(3) [OF Some nj r rest(2,1) "2.prems"(4,5) inj us]) auto
    qed
    with ms show ?thesis by simp
  qed
qed simp

section \<open>Resolved pools\<close>

definition tunnels :: "slot_member \<Rightarrow> bool" where
  "tunnels m \<longleftrightarrow> CheckMemberOutbound (m_Outbound m) = None"

lemma ref_members_tunnel:
  assumes "m \<in> set (ref_members d entries r)"
  shows "tunnels m"
proof (cases "r_Kind r = RefXray")
  case True
  show ?thesis
  proof (cases "entry_named entries (r_Name r)")
    case None
    with assms True show ?thesis by (simp add: ref_members_def)
  next
    case (Some e)
    show ?thesis
    proof (cases "e_Enabled e \<and> CheckMemberOutbound (e_Outbound e) = None")
      case t: True
      with assms True Some have "m = \<lparr>m_Key = ''xray-'' @ r_Name r, m_Outbound = e_Outbound e\<rparr>" by (simp add: ref_members_def)
      with t show ?thesis by (simp add: tunnels_def)
    next
      case False
      with assms True Some show ?thesis by (simp add: ref_members_def)
    qed
  qed
next
  case False
  show ?thesis
  proof (cases "r_Kind r = RefXraySub \<and> sub_named d (r_Name r) \<noteq> None")
    case True
    then obtain s where "sub_named d (r_Name r) = Some s" by auto
    with True False assms have "m \<in> (\<lambda>n. \<lparr>m_Key = nd_Fingerprint n, m_Outbound = nd_Outbound n\<rparr>) `
        {n \<in> set (ActiveNodes d (sub_ID s)). CheckMemberOutbound (nd_Outbound n) = None}"
      by (simp add: ref_members_def)
    then show ?thesis by (elim imageE) (simp add: tunnels_def)
  next
    case none: False
    then have "r_Kind r \<noteq> RefXraySub \<or> sub_named d (r_Name r) = None" by simp
    with False have "ref_members d entries r = []" by (elim disjE) (simp_all add: ref_members_def)
    with assms show ?thesis by simp
  qed
qed

lemma resolved_distinct: "distinct (map m_Key (resolveDialerMembers d entries refs))"
  by (simp add: resolveDialerMembers_def keep_first_distinct)

lemma resolved_tunnel: "list_all tunnels (resolveDialerMembers d entries refs)"
  unfolding list_all_iff resolveDialerMembers_def
  by (auto dest!: subsetD [OF keep_first_subset] intro: ref_members_tunnel)

lemma withoutParked_sub: "set (withoutParked ms pk) \<subseteq> set ms"
  by (auto simp: withoutParked_def Let_def)

lemma withoutParked_distinct: "distinct (map m_Key ms) \<Longrightarrow> distinct (map m_Key (withoutParked ms pk))"
  by (auto simp: withoutParked_def Let_def distinct_map_filter)

lemma pool_of_ok:
  assumes "distinct (map m_Key resolved)" "list_all tunnels resolved"
  shows "pool_ok (pool_of d s pk e key refs resolved) \<and> list_all tunnels (s_Members (pool_of d s pk e key refs resolved)) \<and>
    s_Key (pool_of d s pk e key refs resolved) = key \<and> SlotMasters (pool_of d s pk e key refs resolved) = [e_Name e]"
proof -
  let ?ms = "withoutRejected (su_rejected s) resolved"
  have ms: "distinct (map m_Key ?ms)" "list_all tunnels ?ms"
    using assms by (auto simp: withoutRejected_def distinct_map_filter list_all_iff)
  have pins: "distinct (poolPins d refs ?ms)" "set (poolPins d refs ?ms) \<subseteq> m_Key ` set ?ms"
    using keep_first_distinct [of id "[]"] keep_first_subset [of id "[]"] by (fastforce simp: poolPins_def)+
  have tn: "list_all tunnels (withoutParked ?ms pk)"
    using ms(2) withoutParked_sub [of ?ms pk] by (auto simp: list_all_iff)
  obtain st auto where st: "poolStrategy d (su_auto s) key refs = (st, auto)" by fastforce
  show ?thesis
    using ms pins tn withoutParked_distinct [OF ms(1), of pk]
    by (simp add: pool_of_def st Let_def pool_ok_def member_keys_def SlotMasters_def)
qed

definition resolving_ok :: "xray_entry list \<Rightarrow> resolving \<Rightarrow> bool" where
  "resolving_ok es r \<longleftrightarrow> distinct (map s_Key (rs_slots r)) \<and> list_all (\<lambda>sl. pool_ok sl \<and> list_all tunnels (s_Members sl)) (rs_slots r) \<and>
     mset (concat (map SlotMasters (rs_slots r))) = mset (map e_Name es)"

lemma alias_masters:
  assumes "distinct (map s_Key slots)" "key \<in> s_Key ` set slots"
  shows "mset (concat (map SlotMasters (map (\<lambda>sl. if s_Key sl = key then sl\<lparr>s_Aliases := s_Aliases sl @ [n]\<rparr> else sl) slots))) =
    add_mset n (mset (concat (map SlotMasters slots)))"
  using assms
proof (induction slots)
  case (Cons sl slots)
  have other: "map (\<lambda>sl. if s_Key sl = key then sl\<lparr>s_Aliases := s_Aliases sl @ [n]\<rparr> else sl) slots = slots" if "s_Key sl = key"
    using Cons.prems(1) that by (intro map_idI) (metis distinct.simps(2) image_eqI list.simps(9) list.set_map)
  show ?case
  proof (cases "s_Key sl = key")
    case True
    with other show ?thesis by (simp add: SlotMasters_def)
  next
    case False
    with Cons show ?thesis by simp
  qed
qed simp

lemma resolve_master_ok:
  assumes "resolving_ok es r"
  shows "resolving_ok (es @ [e]) (resolve_master d s entries now pk e r)"
proof -
  obtain refs key where k: "master_key e = (refs, key)" by fastforce
  show ?thesis
  proof (cases "key \<in> s_Key ` set (rs_slots r)")
    case True
    have keys: "map s_Key (map (\<lambda>sl. if s_Key sl = key then sl\<lparr>s_Aliases := s_Aliases sl @ [e_Name e]\<rparr> else sl) (rs_slots r)) =
        map s_Key (rs_slots r)" by simp
    have ok: "pool_ok (sl\<lparr>s_Aliases := as\<rparr>) = pool_ok sl" for sl as by (rule pool_ok_cong) simp_all
    show ?thesis
      using assms alias_masters [OF _ True, of "e_Name e"] keys
      by (auto simp: resolve_master_def k True resolving_ok_def list_all_iff ok simp del: map_map)
  next
    case False
    note ok = pool_of_ok [OF resolved_distinct resolved_tunnel, of d s pk e key refs d entries refs]
    from False assms ok show ?thesis
      by (simp add: resolve_master_def k Let_def resolving_ok_def)
  qed
qed

lemma resolve_pools_ok: "resolving_ok (enabled_masters entries) (resolve_pools d s entries now)"
proof -
  have "resolving_ok es (fold (resolve_master d s entries now pk) es \<lparr>rs_slots = [], rs_present = [], rs_parks = ps\<rparr>)" for es pk ps
    by (induction es rule: rev_induct) (simp_all add: resolving_ok_def [of "[]"] resolve_master_ok)
  then show ?thesis by (simp add: resolve_pools_def)
qed

text \<open>What is the same before and after the slots are ranked.\<close>

lemma resolved_slots:
  obtains out where "out = index_pools (su_slotIdx s) (rs_slots (resolve_pools d s entries now))"
    and "fst (resolveDialerSlots d s entries now) =
      pickSlots (su_scores s) (su_chain s) now (go_sort (\<lambda>a b. s_Index a < s_Index b) out) (su_loaded s)"
    and "su_slotIdx (snd (resolveDialerSlots d s entries now)) = dict_of (map (\<lambda>sl. (s_Key sl, s_Index sl)) out)"
  by (simp add: resolveDialerSlots_def Let_def assignSlotIndices_def)

lemma mset_concat_sum: "mset (concat (map f xs)) = sum_mset (image_mset (mset \<circ> f) (mset xs))"
  by (induction xs) simp_all

lemma mset_concat_map: "mset xs = mset ys \<Longrightarrow> mset (concat (map f xs)) = mset (concat (map f ys))"
  by (simp only: mset_concat_sum)

lemma dict_of_Some: "distinct (map fst kvs) \<Longrightarrow> map_of (dict_of kvs) k = Some v \<longleftrightarrow> (k, v) \<in> set kvs"
  using map_of_eq_Some_iff [of "rev kvs" k v] by (simp add: map_of_dict_of rev_map [symmetric])

section \<open>A concrete pool\<close>

definition pool_demo_db :: db where
  "pool_demo_db = \<lparr>db_next = 3, db_subs = [], db_nodes = [], db_overrides = [],
     db_entries = [], db_inbounds = [], db_users = [], db_buckets = [], db_totals = [], db_settings = []\<rparr>"

definition pool_demo_entries :: "xray_entry list" where
  "pool_demo_entries =
     [\<lparr>e_ID = 1, e_Name = ''m'', e_Outbound = Some (jobj [(''protocol'', JStr ''vless'')]), e_Enabled = True, e_Dialer = ''xray:a'', e_Mux = False\<rparr>,
      \<lparr>e_ID = 2, e_Name = ''a'', e_Outbound = Some (jobj [(''protocol'', JStr ''vless'')]), e_Enabled = True, e_Dialer = [], e_Mux = False\<rparr>]"

definition pool_demo_sup :: sup where
  "pool_demo_sup = \<lparr>su_slotIdx = [], su_loaded = [], su_parks = [], su_scores = [], su_chain = [], su_history = [], su_auto = [],
     su_rejected = [], su_netFP = [], su_uplinkDown = False\<rparr>"

section \<open>Properties\<close>

text \<open>C10. Every slot of a resolution is well formed: its members are distinct and tunnel, each of its masters has
  a pick of distinct members of it, and the slots have distinct keys and distinct indices below 32, in
  the order of the indices.\<close>

theorem resolved_slots_ok:
  "let slots = fst (resolveDialerSlots d s entries now)
   in list_all (\<lambda>sl. slot_ok sl \<and> list_all tunnels (s_Members sl) \<and> s_Index sl < SlotCount) slots \<and>
      distinct (map s_Key slots) \<and> sorted_wrt (<) (map s_Index slots)"
proof -
  let ?r = "resolve_pools d s entries now"
  obtain out where out: "out = index_pools (su_slotIdx s) (rs_slots ?r)"
    "fst (resolveDialerSlots d s entries now) =
      pickSlots (su_scores s) (su_chain s) now (go_sort (\<lambda>a b. s_Index a < s_Index b) out) (su_loaded s)"
    by (rule resolved_slots)
  let ?srt = "go_sort (\<lambda>a b. s_Index a < s_Index b) out"
  have ok: "resolving_ok (enabled_masters entries) ?r" by (rule resolve_pools_ok)
  note f = index_pools_facts [where had = "su_slotIdx s" and slots = "rs_slots ?r", folded out(1)]
  have from_pool: "pool_ok sl \<and> list_all tunnels (s_Members sl)" if sl: "sl \<in> set out" for sl
  proof -
    from f(4) [OF sl] obtain i sl0 where "sl0 \<in> set (rs_slots ?r)" "sl = sl0\<lparr>s_Index := i\<rparr>" by blast
    with ok show ?thesis using pool_ok_cong [of sl sl0] by (auto simp: resolving_ok_def list_all_iff)
  qed
  have members: "list_all (\<lambda>sl. slot_ok sl \<and> list_all tunnels (s_Members sl) \<and> s_Index sl < SlotCount)
      (fst (resolveDialerSlots d s entries now))"
    using from_pool f(2) by (auto simp: out(2) pickSlots_def list_all_iff intro: pickSlot_ok)
  have keys: "map s_Key (pickSlots sc ch now ?srt prev) = map s_Key ?srt" "map s_Index (pickSlots sc ch now ?srt prev) = map s_Index ?srt"
    for sc ch prev by (simp_all add: pickSlots_def)
  have "distinct (map s_Key out)" using f(3) ok by (simp add: resolving_ok_def)
  moreover have "sorted (map s_Index ?srt)" using go_sort_key [of s_Index out] by simp
  then have "sorted_wrt (<) (map s_Index ?srt)" using f(1) by (simp add: strict_sorted_iff)
  ultimately show ?thesis using members by (simp add: out(2) keys)
qed

text \<open>C11. When the pools fit into the 32 slots, every enabled master is on exactly one slot, so each is wired to a
  balancer; none is dropped, even one whose dialer resolves to nothing or does not parse.\<close>

theorem every_master_has_one_slot:
  assumes "length (rs_slots (resolve_pools d s entries now)) \<le> SlotCount"
  shows "mset (concat (map SlotMasters (fst (resolveDialerSlots d s entries now)))) = mset (map e_Name (enabled_masters entries))"
proof -
  let ?r = "resolve_pools d s entries now"
  obtain out where out: "out = index_pools (su_slotIdx s) (rs_slots ?r)"
    "fst (resolveDialerSlots d s entries now) =
      pickSlots (su_scores s) (su_chain s) now (go_sort (\<lambda>a b. s_Index a < s_Index b) out) (su_loaded s)"
    by (rule resolved_slots)
  have masters: "map SlotMasters (map unindex xs) = map SlotMasters xs" for xs by (simp add: unindex_def SlotMasters_def)
  have "map SlotMasters out = map SlotMasters (rs_slots ?r)"
    using index_pools_facts(5) [OF assms, of "su_slotIdx s"] masters [of out] masters [of "rs_slots ?r"] by (simp only: out(1))
  then have "mset (concat (map SlotMasters (go_sort (\<lambda>a b. s_Index a < s_Index b) out))) = mset (concat (map SlotMasters (rs_slots ?r)))"
    using mset_concat_map [of "go_sort (\<lambda>a b. s_Index a < s_Index b) out" out SlotMasters] by simp
  moreover have "map SlotMasters (pickSlots sc ch now xs prev) = map SlotMasters xs" for sc ch xs prev by (simp add: pickSlots_def)
  ultimately show ?thesis using resolve_pools_ok [of entries d s now] by (simp add: out(2) resolving_ok_def)
qed

lemma every_master_has_one_slot_witness:
  "mset (concat (map SlotMasters (fst (resolveDialerSlots pool_demo_db pool_demo_sup pool_demo_entries 0)))) = {#''m''#}"
proof -
  have "length (rs_slots (resolve_pools pool_demo_db pool_demo_sup pool_demo_entries 0)) = 1" by code_simp
  moreover have "map e_Name (enabled_masters pool_demo_entries) = [''m'']" by code_simp
  ultimately show ?thesis
    using every_master_has_one_slot [of pool_demo_db pool_demo_sup pool_demo_entries 0] by (simp add: SlotCount_def)
qed

text \<open>C12. A pool that is resolved again keeps its slot index, whatever changed in between, as long as the
  supervisor's index map is the one the first resolution left.\<close>

theorem slot_index_stable:
  assumes "su_slotIdx s2 = su_slotIdx (snd (resolveDialerSlots d1 s1 entries1 now1))"
    and "sl1 \<in> set (fst (resolveDialerSlots d1 s1 entries1 now1))" and "sl2 \<in> set (fst (resolveDialerSlots d2 s2 entries2 now2))"
    and "s_Key sl1 = s_Key sl2"
  shows "s_Index sl1 = s_Index sl2"
proof -
  let ?r1 = "resolve_pools d1 s1 entries1 now1" and ?r2 = "resolve_pools d2 s2 entries2 now2"
  obtain out1 where out1: "out1 = index_pools (su_slotIdx s1) (rs_slots ?r1)"
    "fst (resolveDialerSlots d1 s1 entries1 now1) =
      pickSlots (su_scores s1) (su_chain s1) now1 (go_sort (\<lambda>a b. s_Index a < s_Index b) out1) (su_loaded s1)"
    "su_slotIdx (snd (resolveDialerSlots d1 s1 entries1 now1)) = dict_of (map (\<lambda>sl. (s_Key sl, s_Index sl)) out1)"
    by (rule resolved_slots)
  obtain out2 where out2: "out2 = index_pools (su_slotIdx s2) (rs_slots ?r2)"
    "fst (resolveDialerSlots d2 s2 entries2 now2) =
      pickSlots (su_scores s2) (su_chain s2) now2 (go_sort (\<lambda>a b. s_Index a < s_Index b) out2) (su_loaded s2)"
    by (rule resolved_slots)
  note f1 = index_pools_facts [where had = "su_slotIdx s1" and slots = "rs_slots ?r1", folded out1(1)]
  note f2 = index_pools_facts [where had = "su_slotIdx s2" and slots = "rs_slots ?r2", folded out2(1)]
  have k1: "distinct (map s_Key out1)" and k2: "distinct (map s_Key out2)" "distinct (map s_Key (rs_slots ?r2))"
    using f1(3) f2(3) resolve_pools_ok [of entries1 d1 s1 now1] resolve_pools_ok [of entries2 d2 s2 now2] by (simp_all add: resolving_ok_def)
  define had where "had = su_slotIdx s2"
  have had: "map_of had k = Some i \<longleftrightarrow> (\<exists>sl \<in> set out1. s_Key sl = k \<and> s_Index sl = i)" for k i
    using k1 dict_of_Some [of "map (\<lambda>sl. (s_Key sl, s_Index sl)) out1" k i] by (auto simp: had_def assms(1) out1(3) o_def)
  have inj: "k = k'" if "map_of had k = Some j" "map_of had k' = Some j" for k k' j
    using that f1(1) by (auto simp: had distinct_map inj_on_def)
  obtain a where a: "a \<in> set out1" "s_Key a = s_Key sl1" "s_Index a = s_Index sl1"
    using assms(2) by (auto simp: out1(2) pickSlots_def)
  obtain b where b: "b \<in> set out2" "s_Key b = s_Key sl2" "s_Index b = s_Index sl2"
    using assms(3) by (auto simp: out2(2) pickSlots_def)
  obtain i0 b0 where b0: "b0 \<in> set (rs_slots ?r2)" "b = b0\<lparr>s_Index := i0\<rparr>" using f2(4) [OF b(1)] by blast
  obtain ms used where ki: "keep_indices had [] (rs_slots ?r2) = (ms, used)" by fastforce
  have "(b0, Some (s_Index sl1)) \<in> set ms"
  proof (rule keep_indices_marks [OF ki k2(2) b0(1)])
    have "s_Key b0 = s_Key sl1" using b0(2) b(2) assms(4) by simp
    then show "map_of had (s_Key b0) = Some (s_Index sl1)" using a by (auto simp: had)
    show "s_Index sl1 < SlotCount" using a f1(2) by auto
  qed (auto intro: inj)
  then have "b0\<lparr>s_Index := s_Index sl1\<rparr> \<in> set out2"
    unfolding out2(1) had_def [symmetric] index_pools_def ki prod.case by (rule fill_indices_kept)
  with b(1) b0(2) k2(1) have "b0\<lparr>s_Index := s_Index sl1\<rparr> = b" by (auto simp: distinct_map inj_on_def)
  then have "s_Index b = s_Index sl1" by (metis slot.select_convs(4) slot.surjective slot.update_convs(4))
  then show ?thesis using b(3) by simp
qed

lemma slot_index_stable_witness:
  "let s2 = snd (resolveDialerSlots pool_demo_db pool_demo_sup pool_demo_entries 0);
       sl1 = hd (fst (resolveDialerSlots pool_demo_db pool_demo_sup pool_demo_entries 0));
       sl2 = hd (fst (resolveDialerSlots pool_demo_db s2 (rev pool_demo_entries) 5))
   in s_Key sl1 = s_Key sl2 \<and> s_Index sl1 = s_Index sl2"
proof -
  let ?s2 = "snd (resolveDialerSlots pool_demo_db pool_demo_sup pool_demo_entries 0)"
  let ?r1 = "fst (resolveDialerSlots pool_demo_db pool_demo_sup pool_demo_entries 0)"
  let ?r2 = "fst (resolveDialerSlots pool_demo_db ?s2 (rev pool_demo_entries) 5)"
  have ne: "?r1 \<noteq> []" "?r2 \<noteq> []" by code_simp+
  have key: "s_Key (hd ?r1) = s_Key (hd ?r2)" by code_simp
  from slot_index_stable [OF refl hd_in_set [OF ne(1)] hd_in_set [OF ne(2)] key] key show ?thesis by (simp add: Let_def)
qed

end
