(* ===== verification/Live_Apply.thy ===== *)
theory Live_Apply
  imports Pool_Props
begin

text \<open>
  \<^verbatim>\<open>daemon/xray_live.go\<close>: a generated config taken apart into the objects xray's api can
  replace, the plan that turns one config into another, and the requests the plan sends. The running
  xray is not part of the repository: a process is a value of any type, and the api is a parameter that
  takes a request and a process. The command line sends one request per tag and per object, so a plan
  is a list of requests.
\<close>

section \<open>Decoding\<close>

text \<open>Struct fields that hold an object or an array: a missing or null field is the zero value, any other
  type fails the decoding (\<open>None\<close>).\<close>

definition struct_obj :: "object \<Rightarrow> string \<Rightarrow> object option" where
  "struct_obj d k = (case struct_key d k of None \<Rightarrow> Some [] | Some JNull \<Rightarrow> Some [] | Some (JObj d') \<Rightarrow> Some d' | Some _ \<Rightarrow> None)"

definition struct_arr :: "object \<Rightarrow> string \<Rightarrow> json list option" where
  "struct_arr d k = (case struct_key d k of None \<Rightarrow> Some [] | Some JNull \<Rightarrow> Some [] | Some (JArr xs) \<Rightarrow> Some xs | Some _ \<Rightarrow> None)"

definition struct_of :: "json \<Rightarrow> object option" where
  "struct_of v = (case v of JNull \<Rightarrow> Some [] | JObj d \<Rightarrow> Some d | _ \<Rightarrow> None)"

definition struct_tag :: "json \<Rightarrow> string option" where
  "struct_tag it = Option.bind (struct_of it) (\<lambda>d. struct_str d ''tag'')"

definition struct_via :: "json \<Rightarrow> string option" where
  "struct_via it =
     Option.bind (struct_of it) (\<lambda>d. Option.bind (struct_obj d ''streamSettings'') (\<lambda>ss.
       Option.bind (struct_obj ss ''sockopt'') (\<lambda>so. struct_str so ''dialerProxy'')))"

datatype live_error = BadConfig | Untagged | DuplicateTag string | InSection string live_error

record tagged_objs =
  tg_objects :: "(string, json) dict"
  tg_dialers :: "(string, string) dict"
  tg_order :: "string list"

fun tag_items :: "json list \<Rightarrow> tagged_objs \<Rightarrow> live_error + tagged_objs" where
  "tag_items [] acc = Inr acc"
| "tag_items (it # its) acc =
     (case (struct_tag it, struct_via it) of
        (Some t, Some via) \<Rightarrow>
          if t = [] then Inl Untagged
          else if map_of (tg_objects acc) t \<noteq> None then Inl (DuplicateTag t)
          else tag_items its \<lparr>tg_objects = dput t it (tg_objects acc), tg_dialers = dput t via (tg_dialers acc), tg_order = tg_order acc @ [t]\<rparr>
      | _ \<Rightarrow> Inl BadConfig)"

definition no_tagged :: tagged_objs where
  "no_tagged = \<lparr>tg_objects = [], tg_dialers = [], tg_order = []\<rparr>"

definition taggedObjects :: "json option \<Rightarrow> live_error + tagged_objs" where
  "taggedObjects raw =
     (case raw of
        None \<Rightarrow> Inr no_tagged
      | Some JNull \<Rightarrow> Inr no_tagged
      | Some (JArr items) \<Rightarrow> tag_items items no_tagged
      | Some _ \<Rightarrow> Inl BadConfig)"

text \<open>The tag of a slot's own inbound, \<^verbatim>\<open>^slot[0-9]+-in$\<close>.\<close>

definition slot_in_tag :: "string \<Rightarrow> bool" where
  "slot_in_tag t \<longleftrightarrow> take 4 t = ''slot'' \<and> takeWhile is_digit (drop 4 t) \<noteq> [] \<and> dropWhile is_digit (drop 4 t) = ''-in''"

fun opt_all :: "('a \<Rightarrow> 'b option) \<Rightarrow> 'a list \<Rightarrow> 'b list option" where
  "opt_all f [] = Some []"
| "opt_all f (x # xs) = Option.bind (f x) (\<lambda>y. map_option (Cons y) (opt_all f xs))"

definition client_cred :: "json \<Rightarrow> string option" where
  "client_cred c =
     Option.bind (struct_of c) (\<lambda>d. Option.bind (struct_str d ''id'') (\<lambda>i. Option.bind (struct_str d ''password'') (\<lambda>pw.
       map_option (\<lambda>au. ''id:'' @ i @ ''|pw:'' @ pw @ ''|auth:'' @ au) (struct_str d ''auth''))))"

definition account_cred :: "json \<Rightarrow> string option" where
  "account_cred a =
     Option.bind (struct_of a) (\<lambda>d. Option.bind (struct_str d ''user'') (\<lambda>u.
       map_option (\<lambda>pw. ''socks:'' @ u @ '':'' @ pw) (struct_str d ''pass'')))"

definition inboundCredentials :: "json \<Rightarrow> string list" where
  "inboundCredentials ob =
     (case Option.bind (struct_of ob) (\<lambda>d. Option.bind (struct_obj d ''settings'') (\<lambda>st.
        Option.bind (Option.bind (struct_arr st ''clients'') (opt_all client_cred)) (\<lambda>cs.
          map_option (\<lambda>as. cs @ as) (Option.bind (struct_arr st ''accounts'') (opt_all account_cred))))) of
        Some cs \<Rightarrow> cs
      | None \<Rightarrow> [])"

record live_config =
  lc_fixed :: object
  lc_inbounds :: "(string, json) dict"
  lc_outbounds :: "(string, json) dict"
  lc_dialerOf :: "(string, string) dict"
  lc_creds :: "(string, string list) dict"
  lc_firstOut :: string
  lc_routing :: "json option"

definition live_sections :: "string list" where
  "live_sections = [''inbounds'', ''outbounds'', ''routing'']"

definition creds_of :: "(string, json) dict \<Rightarrow> (string, string list) dict" where
  "creds_of ins = map (\<lambda>(t, ob). (t, inboundCredentials ob)) (filter (\<lambda>p. \<not> slot_in_tag (fst p)) ins)"

definition parseLiveConfig :: "json \<Rightarrow> live_error + live_config" where
  "parseLiveConfig raw =
     (case struct_of raw of
        None \<Rightarrow> Inl BadConfig
      | Some cf \<Rightarrow>
          (case taggedObjects (map_of cf ''inbounds'') of
             Inl e \<Rightarrow> Inl (InSection ''inbounds'' e)
           | Inr ti \<Rightarrow>
               (case taggedObjects (map_of cf ''outbounds'') of
                  Inl e \<Rightarrow> Inl (InSection ''outbounds'' e)
                | Inr tout \<Rightarrow>
                    Inr \<lparr>lc_fixed = filter (\<lambda>p. fst p \<notin> set live_sections) cf,
                         lc_inbounds = tg_objects ti, lc_outbounds = tg_objects tout, lc_dialerOf = tg_dialers tout,
                         lc_creds = creds_of (tg_objects ti),
                         lc_firstOut = (case tg_order tout of [] \<Rightarrow> [] | t # _ \<Rightarrow> t),
                         lc_routing = map_of cf ''routing''\<rparr>)))"

section \<open>The plan\<close>

record live_plan =
  lp_restart :: bool
  lp_why :: string
  lp_rmOut :: "string list"
  lp_addOut :: "string list"
  lp_rmIn :: "string list"
  lp_addIn :: "string list"
  lp_routing :: bool
  lp_dialerOf :: "(string, string) dict"

definition restart_plan :: "string \<Rightarrow> live_plan" where
  "restart_plan why = \<lparr>lp_restart = True, lp_why = why, lp_rmOut = [], lp_addOut = [], lp_rmIn = [], lp_addIn = [],
     lp_routing = False, lp_dialerOf = []\<rparr>"

definition plan_empty :: "live_plan \<Rightarrow> bool" where
  "plan_empty p \<longleftrightarrow> \<not> lp_restart p \<and> \<not> lp_routing p \<and>
     length (lp_rmOut p) + length (lp_addOut p) + length (lp_rmIn p) + length (lp_addIn p) = 0"

definition diffTagged :: "(string, json) dict \<Rightarrow> (string, json) dict \<Rightarrow> string list \<times> string list" where
  "diffTagged old want =
     (sort (map fst (filter (\<lambda>(t, ob). map_of want t \<noteq> Some ob) old)),
      sort (map fst (filter (\<lambda>(t, ob). map_of old t \<noteq> Some ob) want)))"

text \<open>The tags of the inbounds of which a client credential is revoked.\<close>

definition revoked_tags :: "live_config \<Rightarrow> live_config \<Rightarrow> string list" where
  "revoked_tags old want =
     map fst (filter (\<lambda>(t, cs). list_ex (\<lambda>c. c \<notin> set (dget_or [] (lc_creds want) t)) cs) (lc_creds old))"

definition merged_dialers :: "live_config \<Rightarrow> live_config \<Rightarrow> (string, string) dict" where
  "merged_dialers old want =
     fold (\<lambda>(t, d) m. if d \<noteq> [] then dput t d m else m) (lc_dialerOf want) (lc_dialerOf old)"

text \<open>The masters of the new config whose dialer outbound is replaced or removed while they stay.\<close>

definition swapped_masters :: "live_config \<Rightarrow> live_config \<Rightarrow> string list \<Rightarrow> string list" where
  "swapped_masters old want rm =
     map fst (filter (\<lambda>(t, d). d \<noteq> [] \<and> d \<in> set rm \<and> t \<notin> set rm \<and> map_of (lc_outbounds old) t \<noteq> None) (lc_dialerOf want))"

definition planLive :: "live_config \<Rightarrow> live_config \<Rightarrow> live_plan" where
  "planLive old want =
     (if lc_fixed old \<noteq> lc_fixed want then
        restart_plan ''a section the api can't change (log, api, stats, policy, observatory, metrics) differs''
      else if lc_firstOut old \<noteq> lc_firstOut want then restart_plan ''the first (default) outbound changed''
      else
        (case revoked_tags old want of
           t # _ \<Rightarrow> restart_plan (''a client credential of '' @ t @ '' was revoked (live sessions only end on restart)'')
         | [] \<Rightarrow>
             (let (rm, add) = diffTagged (lc_outbounds old) (lc_outbounds want);
                  swapped = swapped_masters old want rm;
                  (rmIn, addIn) = diffTagged (lc_inbounds old) (lc_inbounds want)
              in \<lparr>lp_restart = False, lp_why = [], lp_rmOut = sort (rm @ swapped), lp_addOut = sort (add @ swapped),
                  lp_rmIn = rmIn, lp_addIn = addIn, lp_routing = (lc_routing old \<noteq> lc_routing want),
                  lp_dialerOf = merged_dialers old want\<rparr>)))"

definition depends :: "live_plan \<Rightarrow> string \<Rightarrow> bool" where
  "depends p t \<longleftrightarrow> dget_or [] (lp_dialerOf p) t \<noteq> []"

definition dependentsFirst :: "live_plan \<Rightarrow> string list \<Rightarrow> string list" where
  "dependentsFirst p tags = go_sort (\<lambda>a b. depends p a \<and> \<not> depends p b) tags"

section \<open>The requests\<close>

datatype api_req = Rmo string | Ado json | Rmi string | Adi json | Adrules json

text \<open>The objects of the new config with the given tags.\<close>

definition by_tag :: "json list \<Rightarrow> (string, json) dict" where
  "by_tag items = dict_of (List.map_filter (\<lambda>it. map_option (\<lambda>t. (t, it)) (struct_tag it)) items)"

definition pick_objects :: "json list \<Rightarrow> string list \<Rightarrow> json list" where
  "pick_objects items tags = List.map_filter (map_of (by_tag items)) tags"

definition intersect :: "string list \<Rightarrow> string list \<Rightarrow> string list" where
  "intersect xs S = filter (\<lambda>x. x \<in> set S) xs"

definition minus_set :: "string list \<Rightarrow> string list \<Rightarrow> string list" where
  "minus_set xs S = filter (\<lambda>x. x \<notin> set S) xs"

definition live_reqs :: "live_plan \<Rightarrow> json list \<Rightarrow> json list \<Rightarrow> json \<Rightarrow> api_req list" where
  "live_reqs p ins outs routing =
     map Rmo (dependentsFirst p (intersect (lp_rmOut p) (lp_addOut p))) @
     concat (map (\<lambda>t. map Ado (pick_objects outs [t])) (rev (dependentsFirst p (lp_addOut p)))) @
     map Rmi (intersect (lp_rmIn p) (lp_addIn p)) @
     map Adi (pick_objects ins (lp_addIn p)) @
     (if lp_routing p then [Adrules routing] else []) @
     map Rmi (minus_set (lp_rmIn p) (lp_addIn p)) @
     map Rmo (dependentsFirst p (minus_set (lp_rmOut p) (lp_addOut p)))"

text \<open>A list of requests is sent until one fails: the processes after each request that was answered, and
  whether all were.\<close>

fun send_reqs :: "(api_req \<Rightarrow> 'p \<Rightarrow> 'p option) \<Rightarrow> api_req list \<Rightarrow> 'p \<Rightarrow> 'p list \<times> bool" where
  "send_reqs api [] p = ([], True)"
| "send_reqs api (r # rs) p = (case api r p of None \<Rightarrow> ([], False) | Some q \<Rightarrow> apfst (Cons q) (send_reqs api rs q))"

definition routing_of :: "object \<Rightarrow> json" where
  "routing_of cf = (case struct_key cf ''routing'' of Some r \<Rightarrow> r | None \<Rightarrow> JNull)"

definition applyLiveLocked :: "(api_req \<Rightarrow> 'p \<Rightarrow> 'p option) \<Rightarrow> live_plan \<Rightarrow> json \<Rightarrow> 'p \<Rightarrow> 'p list \<times> bool" where
  "applyLiveLocked api p want proc =
     (case struct_of want of
        None \<Rightarrow> ([], False)
      | Some cf \<Rightarrow>
          (case (struct_arr cf ''inbounds'', struct_arr cf ''outbounds'') of
             (Some ins, Some outs) \<Rightarrow> send_reqs api (live_reqs p ins outs (routing_of cf)) proc
           | _ \<Rightarrow> ([], False)))"

text \<open>Bringing a process from the running config to the new one: the processes on the way, and whether it
  was done; when it was not, the caller restarts xray.\<close>

definition applyLive :: "(api_req \<Rightarrow> 'p \<Rightarrow> 'p option) \<Rightarrow> ('p \<Rightarrow> bool) \<Rightarrow> json \<Rightarrow> json \<Rightarrow> 'p \<Rightarrow> 'p list \<times> bool" where
  "applyLive api ready running cfg proc =
     (case (parseLiveConfig running, parseLiveConfig cfg) of
        (Inr old, Inr new) \<Rightarrow>
          (let p = planLive old new
           in if lp_restart p then ([], False)
              else if plan_empty p then ([], True)
              else if \<not> ready proc then ([], False)
              else applyLiveLocked api p cfg proc)
      | _ \<Rightarrow> ([], False))"

end
