(* ===== verification/Live_Props.thy ===== *)
theory Live_Props
  imports Live_Apply
begin

text \<open>
  What a live apply promises of the running xray: when every request is answered the process runs the
  new config; on the way no outbound is present while the outbound it dials through is missing; no
  request names what it should not; a revoked credential is never applied live. The locale
  \<open>xray_api\<close> states what the code relies on of xray's api.
\<close>

section \<open>Parsed configs\<close>

definition live_ok :: "live_config \<Rightarrow> bool" where
  "live_ok lc \<longleftrightarrow> dict_ok (lc_inbounds lc) \<and> dict_ok (lc_outbounds lc) \<and> dict_ok (lc_dialerOf lc) \<and>
     (\<forall>t ob. map_of (lc_outbounds lc) t = Some ob \<longrightarrow> struct_tag ob = Some t \<and> struct_via ob = map_of (lc_dialerOf lc) t) \<and>
     (\<forall>t. (map_of (lc_outbounds lc) t = None) = (map_of (lc_dialerOf lc) t = None)) \<and>
     lc_creds lc = creds_of (lc_inbounds lc)"

definition tagged_ok :: "json list \<Rightarrow> tagged_objs \<Rightarrow> bool" where
  "tagged_ok items tg \<longleftrightarrow> dict_ok (tg_objects tg) \<and> dict_ok (tg_dialers tg) \<and>
     (\<forall>t ob. map_of (tg_objects tg) t = Some ob \<longrightarrow> ob \<in> set items \<and> struct_tag ob = Some t \<and> struct_via ob = map_of (tg_dialers tg) t) \<and>
     (\<forall>t. (map_of (tg_objects tg) t = None) = (map_of (tg_dialers tg) t = None)) \<and>
     (\<forall>it \<in> set items. \<exists>t. struct_tag it = Some t \<and> map_of (tg_objects tg) t = Some it)"

lemma tag_items_ok:
  "tag_items its acc = Inr tg \<Longrightarrow> tagged_ok seen acc \<Longrightarrow> tagged_ok (seen @ its) tg"
proof (induction its acc arbitrary: seen rule: tag_items.induct)
  case (2 it its acc)
  from 2(2) obtain t via where tv: "struct_tag it = Some t" "struct_via it = Some via"
    by (auto split: option.splits)
  with 2(2) have t: "t \<noteq> []" "map_of (tg_objects acc) t = None" by (auto split: if_splits)
  let ?acc = "\<lparr>tg_objects = dput t it (tg_objects acc), tg_dialers = dput t via (tg_dialers acc), tg_order = tg_order acc @ [t]\<rparr>"
  have run: "tag_items its ?acc = Inr tg" using 2(2) tv t by simp
  have nt: "map_of (tg_dialers acc) t = None" using 2(3) t by (auto simp: tagged_ok_def)
  have ne: "u \<in> set seen \<Longrightarrow> struct_tag u \<noteq> Some t" for u using 2(3) t by (force simp: tagged_ok_def)
  have ok: "tagged_ok (seen @ [it]) ?acc"
    using 2(3) tv t nt ne unfolding tagged_ok_def by (auto split: if_splits) (metis option.inject)
  show ?case using 2(1) [where seen = "seen @ [it]"] run ok tv t by simp
qed simp

lemma no_tagged_ok: "tagged_ok [] no_tagged"
  by (simp add: tagged_ok_def no_tagged_def)

definition section_items :: "json option \<Rightarrow> json list" where
  "section_items raw = (case raw of Some (JArr items) \<Rightarrow> items | _ \<Rightarrow> [])"

lemma taggedObjects_ok: "taggedObjects raw = Inr tg \<Longrightarrow> tagged_ok (section_items raw) tg"
  using tag_items_ok [OF _ no_tagged_ok] no_tagged_ok
  by (auto simp: taggedObjects_def section_items_def split: option.splits json.splits)

lemma parseLiveConfig_ok:
  assumes "parseLiveConfig raw = Inr lc"
  obtains cf ti to' where "struct_of raw = Some cf" "tagged_ok (section_items (map_of cf ''inbounds'')) ti"
    "tagged_ok (section_items (map_of cf ''outbounds'')) to'" "lc_inbounds lc = tg_objects ti"
    "lc_outbounds lc = tg_objects to'" "lc_dialerOf lc = tg_dialers to'" "lc_routing lc = map_of cf ''routing''"
    "taggedObjects (map_of cf ''inbounds'') = Inr ti" "taggedObjects (map_of cf ''outbounds'') = Inr to'"
    "lc_creds lc = creds_of (lc_inbounds lc)"
  using assms taggedObjects_ok by (fastforce simp: parseLiveConfig_def split: option.splits sum.splits)

lemma parsed_live_ok: "parseLiveConfig raw = Inr lc \<Longrightarrow> live_ok lc"
  by (erule parseLiveConfig_ok) (simp add: live_ok_def tagged_ok_def)

text \<open>A parsed section is an array, a null or missing.\<close>

lemma parsed_arr: "taggedObjects (map_of cf k) = Inr tg \<Longrightarrow> map_of cf k \<noteq> None \<Longrightarrow> struct_arr cf k = Some (section_items (map_of cf k))"
  by (auto simp: taggedObjects_def struct_arr_def struct_key_def section_items_def split: option.splits json.splits)

lemma tagged_picks:
  assumes "tagged_ok items tg" "map_of (tg_objects tg) t = Some ob"
  shows "map_of (by_tag items) t = Some ob"
proof -
  let ?kv = "List.map_filter (\<lambda>it. map_option (\<lambda>t. (t, it)) (struct_tag it)) items"
  have kv: "(u, it) \<in> set ?kv \<longleftrightarrow> it \<in> set items \<and> struct_tag it = Some u" for u it
    unfolding map_filter_set by auto
  have all: "it \<in> set items \<Longrightarrow> struct_tag it = Some u \<Longrightarrow> map_of (tg_objects tg) u = Some it" for u it
    using assms(1) unfolding tagged_ok_def by (metis option.inject)
  have ob: "ob \<in> set items" "struct_tag ob = Some t" using assms unfolding tagged_ok_def by blast+
  then have "t \<in> fst ` set (rev ?kv)" using kv [of t ob] by (metis fst_conv image_eqI set_rev)
  then obtain it where it: "map_of (by_tag items) t = Some it"
    unfolding by_tag_def map_of_dict_of using map_of_eq_None_iff [of "rev ?kv" t] by blast
  then have "(t, it) \<in> set (rev ?kv)" unfolding by_tag_def map_of_dict_of by (rule map_of_SomeD)
  then have "map_of (tg_objects tg) t = Some it" using kv [of t it] all by simp
  with assms(2) it show ?thesis by simp
qed

section \<open>What the code relies on of the api\<close>

text \<open>The running process as the api changes it: its outbounds and inbounds by tag, and its routing
  section.\<close>

type_synonym view = "(string \<Rightarrow> json option) \<times> (string \<Rightarrow> json option) \<times> json option"

fun effect :: "api_req \<Rightarrow> view \<Rightarrow> view" where
  "effect (Rmo t) (os, is, r) = (os(t := None), is, r)"
| "effect (Ado ob) (os, is, r) = (case struct_tag ob of Some t \<Rightarrow> (os(t \<mapsto> ob), is, r) | None \<Rightarrow> (os, is, r))"
| "effect (Rmi t) (os, is, r) = (os, is(t := None), r)"
| "effect (Adi ob) (os, is, r) = (case struct_tag ob of Some t \<Rightarrow> (os, is(t \<mapsto> ob), r) | None \<Rightarrow> (os, is, r))"
| "effect (Adrules v) (os, is, r) = (os, is, Some v)"

text \<open>A request that xray has no reason to refuse: what is removed is there, what is added is not.\<close>

fun posed :: "api_req \<Rightarrow> view \<Rightarrow> bool" where
  "posed (Rmo t) (os, is, r) \<longleftrightarrow> os t \<noteq> None"
| "posed (Ado ob) (os, is, r) \<longleftrightarrow> (case struct_tag ob of Some t \<Rightarrow> os t = None | None \<Rightarrow> False)"
| "posed (Rmi t) (os, is, r) \<longleftrightarrow> is t \<noteq> None"
| "posed (Adi ob) (os, is, r) \<longleftrightarrow> (case struct_tag ob of Some t \<Rightarrow> is t = None | None \<Rightarrow> False)"
| "posed (Adrules v) (os, is, r) \<longleftrightarrow> True"

text \<open>The contract of the api: an answered request has changed the process as documented. A process may
  hold more than the view shows, and a request may fail for reasons of its own.\<close>

primrec always :: "(view \<Rightarrow> bool) \<Rightarrow> api_req list \<Rightarrow> view \<Rightarrow> bool" where
  "always P [] v \<longleftrightarrow> P v"
| "always P (r # rs) v \<longleftrightarrow> P v \<and> always P rs (effect r v)"

primrec all_posed :: "api_req list \<Rightarrow> view \<Rightarrow> bool" where
  "all_posed [] v \<longleftrightarrow> True"
| "all_posed (r # rs) v \<longleftrightarrow> posed r v \<and> all_posed rs (effect r v)"

locale xray_api =
  fixes view_of :: "'p \<Rightarrow> view"
    and api :: "api_req \<Rightarrow> 'p \<Rightarrow> 'p option"
  assumes answered: "api r p = Some q \<Longrightarrow> view_of q = effect r (view_of p)"
begin

lemma sent_Cons:
  assumes "send_reqs api (r # rs) p = (qs, ok)"
  obtains "api r p = None" "qs = []" "\<not> ok"
  | q qs' where "api r p = Some q" "send_reqs api rs q = (qs', ok)" "qs = q # qs'"
  using assms by (cases "api r p"; cases "send_reqs api rs (the (api r p))") auto

lemma sent_final: "send_reqs api rs p = (qs, True) \<Longrightarrow> view_of (last (p # qs)) = fold effect rs (view_of p)"
proof (induction rs arbitrary: p qs)
  case (Cons r rs)
  from Cons.prems show ?case
  proof (cases rule: sent_Cons)
    case (2 q qs')
    with Cons.IH [OF 2(2)] answered [OF 2(1)] show ?thesis by simp
  qed simp
qed simp

lemma sent_always: "send_reqs api rs p = (qs, ok) \<Longrightarrow> always P rs (view_of p) \<Longrightarrow> q \<in> set (p # qs) \<Longrightarrow> P (view_of q)"
proof (induction rs arbitrary: p qs)
  case (Cons r rs)
  from Cons.prems(1) show ?case
  proof (cases rule: sent_Cons)
    case 1
    with Cons.prems(2,3) show ?thesis by simp
  next
    case (2 q' qs')
    show ?thesis
    proof (cases "q = p")
      case False
      then have "q \<in> set (q' # qs')" using Cons.prems(3) 2(3) by simp
      moreover have "always P rs (view_of q')" using Cons.prems(2) answered [OF 2(1)] by simp
      ultimately show ?thesis using Cons.IH [OF 2(2)] by blast
    qed (use Cons.prems(2) in simp)
  qed
qed simp

end

text \<open>An api that answers whatever it has no reason to refuse.\<close>

locale responsive_api = xray_api +
  assumes answers: "posed r (view_of p) \<Longrightarrow> api r p \<noteq> None"
begin

lemma sent_all: "all_posed rs (view_of p) \<Longrightarrow> \<exists>qs. send_reqs api rs p = (qs, True)"
proof (induction rs arbitrary: p)
  case (Cons r rs)
  then obtain q where q: "api r p = Some q" using answers by fastforce
  with Cons.prems answered have "all_posed rs (view_of q)" by simp
  with Cons.IH q show ?case by fastforce
qed simp

end

text \<open>A process that is no more than its view, with an api that refuses only what is ill posed.\<close>

record xproc =
  xp_outs :: "(string, json) dict"
  xp_ins :: "(string, json) dict"
  xp_rules :: "json option"

definition xproc_view :: "xproc \<Rightarrow> view" where
  "xproc_view p = (map_of (xp_outs p), map_of (xp_ins p), xp_rules p)"

fun xproc_api :: "api_req \<Rightarrow> xproc \<Rightarrow> xproc option" where
  "xproc_api (Rmo t) p = (if map_of (xp_outs p) t = None then None else Some (p\<lparr>xp_outs := ddel t (xp_outs p)\<rparr>))"
| "xproc_api (Ado ob) p =
     (case struct_tag ob of
        Some t \<Rightarrow> if map_of (xp_outs p) t = None then Some (p\<lparr>xp_outs := dput t ob (xp_outs p)\<rparr>) else None
      | None \<Rightarrow> None)"
| "xproc_api (Rmi t) p = (if map_of (xp_ins p) t = None then None else Some (p\<lparr>xp_ins := ddel t (xp_ins p)\<rparr>))"
| "xproc_api (Adi ob) p =
     (case struct_tag ob of
        Some t \<Rightarrow> if map_of (xp_ins p) t = None then Some (p\<lparr>xp_ins := dput t ob (xp_ins p)\<rparr>) else None
      | None \<Rightarrow> None)"
| "xproc_api (Adrules v) p = Some (p\<lparr>xp_rules := Some v\<rparr>)"

lemma xproc_answered: "xproc_api r p = Some q \<Longrightarrow> xproc_view q = effect r (xproc_view p)"
  by (cases r) (auto simp: xproc_view_def fun_eq_iff split: if_splits option.splits)

lemma xproc_answers: "posed r (xproc_view p) \<Longrightarrow> xproc_api r p \<noteq> None"
  by (cases r) (auto simp: xproc_view_def split: option.splits)

interpretation xproc: responsive_api xproc_view xproc_api
  by unfold_locales (fact xproc_answered, fact xproc_answers)

section \<open>The states on the way\<close>

lemma always_append: "always P (xs @ ys) v \<longleftrightarrow> always P xs v \<and> always P ys (fold effect xs v)"
proof (induction xs arbitrary: v)
  case Nil
  show ?case by (cases ys) auto
qed auto

lemma all_posed_append: "all_posed (xs @ ys) v \<longleftrightarrow> all_posed xs v \<and> all_posed ys (fold effect xs v)"
  by (induction xs arbitrary: v) auto

definition rem_all :: "string list \<Rightarrow> (string \<Rightarrow> json option) \<Rightarrow> string \<Rightarrow> json option" where
  "rem_all ts os = (\<lambda>t. if t \<in> set ts then None else os t)"

lemma rem_all_Cons: "rem_all ts (os(t := None)) = rem_all (t # ts) os"
  by (auto simp: rem_all_def fun_eq_iff)

lemma rem_all_Nil [simp]: "rem_all [] os = os"
  by (simp add: rem_all_def)

lemma Rmo_fold: "fold effect (map Rmo ts) (os, is, r) = (rem_all ts os, is, r)"
  by (induction ts arbitrary: os) (simp_all add: rem_all_Cons)

lemma Rmi_fold: "fold effect (map Rmi ts) (os, is, r) = (os, rem_all ts is, r)"
  by (induction ts arbitrary: "is") (simp_all add: rem_all_Cons)

lemma Rmo_always: "(\<And>k. P (rem_all (take k ts) os, is, r)) \<Longrightarrow> always P (map Rmo ts) (os, is, r)"
proof (induction ts arbitrary: os)
  case Nil
  from Nil [of 0] show ?case by simp
next
  case (Cons t ts)
  have "P (rem_all (take k ts) (os(t := None)), is, r)" for k
    using Cons.prems [of "Suc k"] by (simp add: rem_all_Cons)
  with Cons.IH have "always P (map Rmo ts) (os(t := None), is, r)" by blast
  with Cons.prems [of 0] show ?case by simp
qed

lemma Rmo_posed: "distinct ts \<Longrightarrow> (\<And>t. t \<in> set ts \<Longrightarrow> os t \<noteq> None) \<Longrightarrow> all_posed (map Rmo ts) (os, is, r)"
proof (induction ts arbitrary: os)
  case (Cons t ts)
  have "all_posed (map Rmo ts) (os(t := None), is, r)" using Cons.prems by (intro Cons.IH) auto
  with Cons.prems(2) [of t] show ?case by simp
qed simp

lemma Rmi_posed: "distinct ts \<Longrightarrow> (\<And>t. t \<in> set ts \<Longrightarrow> is t \<noteq> None) \<Longrightarrow> all_posed (map Rmi ts) (os, is, r)"
proof (induction ts arbitrary: "is")
  case (Cons t ts)
  have "all_posed (map Rmi ts) (os, is(t := None), r)" using Cons.prems by (intro Cons.IH) auto
  with Cons.prems(2) [of t] show ?case by simp
qed simp

text \<open>Adding the objects of a config in the order of some tags.\<close>

definition put_all :: "(string \<Rightarrow> json option) \<Rightarrow> string list \<Rightarrow> (string \<Rightarrow> json option) \<Rightarrow> string \<Rightarrow> json option" where
  "put_all W ts os = (\<lambda>t. if t \<in> set ts then W t else os t)"

definition objs_of :: "(string \<Rightarrow> json option) \<Rightarrow> string list \<Rightarrow> json list" where
  "objs_of W ts = List.map_filter W ts"

definition well_tagged :: "(string \<Rightarrow> json option) \<Rightarrow> string list \<Rightarrow> bool" where
  "well_tagged W ts \<longleftrightarrow> (\<forall>t \<in> set ts. \<exists>ob. W t = Some ob \<and> struct_tag ob = Some t)"

lemma objs_of_Cons: "well_tagged W (t # ts) \<Longrightarrow> \<exists>ob. W t = Some ob \<and> struct_tag ob = Some t \<and> objs_of W (t # ts) = ob # objs_of W ts \<and> well_tagged W ts"
  by (auto simp: well_tagged_def objs_of_def map_filter_simps)

lemma put_all_Cons: "W t = Some ob \<Longrightarrow> put_all W ts (os(t \<mapsto> ob)) = put_all W (t # ts) os"
  by (auto simp: put_all_def fun_eq_iff)

lemma Ado_fold: "well_tagged W ts \<Longrightarrow> fold effect (map Ado (objs_of W ts)) (os, is, r) = (put_all W ts os, is, r)"
proof (induction ts arbitrary: os)
  case Nil
  show ?case by (simp add: objs_of_def put_all_def map_filter_simps)
next
  case (Cons t ts)
  from objs_of_Cons [OF Cons.prems] obtain ob where ob: "W t = Some ob" "struct_tag ob = Some t"
    "objs_of W (t # ts) = ob # objs_of W ts" "well_tagged W ts" by blast
  with Cons.IH put_all_Cons [of W t ob] show ?case by simp
qed

lemma Adi_fold: "well_tagged W ts \<Longrightarrow> fold effect (map Adi (objs_of W ts)) (os, is, r) = (os, put_all W ts is, r)"
proof (induction ts arbitrary: "is")
  case Nil
  show ?case by (simp add: objs_of_def put_all_def map_filter_simps)
next
  case (Cons t ts)
  from objs_of_Cons [OF Cons.prems] obtain ob where ob: "W t = Some ob" "struct_tag ob = Some t"
    "objs_of W (t # ts) = ob # objs_of W ts" "well_tagged W ts" by blast
  with Cons.IH put_all_Cons [of W t ob] show ?case by simp
qed

lemma Ado_always:
  "well_tagged W ts \<Longrightarrow> (\<And>k. P (put_all W (take k ts) os, is, r)) \<Longrightarrow> always P (map Ado (objs_of W ts)) (os, is, r)"
proof (induction ts arbitrary: os)
  case Nil
  from Nil(2) [of 0] show ?case by (simp add: objs_of_def put_all_def map_filter_simps)
next
  case (Cons t ts)
  from objs_of_Cons [OF Cons.prems(1)] obtain ob where ob: "W t = Some ob" "struct_tag ob = Some t"
    "objs_of W (t # ts) = ob # objs_of W ts" "well_tagged W ts" by blast
  have "P (put_all W (take k ts) (os(t \<mapsto> ob)), is, r)" for k
    using Cons.prems(2) [of "Suc k"] put_all_Cons [of W t ob "take k ts" os] ob(1) by simp
  with Cons.IH ob(4) have "always P (map Ado (objs_of W ts)) (os(t \<mapsto> ob), is, r)" by blast
  with Cons.prems(2) [of 0] ob show ?case by (simp add: put_all_def)
qed

lemma Ado_posed: "well_tagged W ts \<Longrightarrow> distinct ts \<Longrightarrow> (\<And>t. t \<in> set ts \<Longrightarrow> os t = None) \<Longrightarrow> all_posed (map Ado (objs_of W ts)) (os, is, r)"
proof (induction ts arbitrary: os)
  case (Cons t ts)
  from objs_of_Cons [OF Cons.prems(1)] obtain ob where ob: "struct_tag ob = Some t"
    "objs_of W (t # ts) = ob # objs_of W ts" "well_tagged W ts" by blast
  have "all_posed (map Ado (objs_of W ts)) (os(t \<mapsto> ob), is, r)" using Cons.prems ob(3) by (intro Cons.IH) auto
  with Cons.prems(3) ob show ?case by simp
qed (simp add: objs_of_def map_filter_simps)

lemma Adi_posed: "well_tagged W ts \<Longrightarrow> distinct ts \<Longrightarrow> (\<And>t. t \<in> set ts \<Longrightarrow> is t = None) \<Longrightarrow> all_posed (map Adi (objs_of W ts)) (os, is, r)"
proof (induction ts arbitrary: "is")
  case (Cons t ts)
  from objs_of_Cons [OF Cons.prems(1)] obtain ob where ob: "struct_tag ob = Some t"
    "objs_of W (t # ts) = ob # objs_of W ts" "well_tagged W ts" by blast
  have "all_posed (map Adi (objs_of W ts)) (os, is(t \<mapsto> ob), r)" using Cons.prems ob(3) by (intro Cons.IH) auto
  with Cons.prems(3) ob show ?case by simp
qed (simp add: objs_of_def map_filter_simps)

lemma other_always:
  "list_all (\<lambda>q. case q of Rmo _ \<Rightarrow> False | Ado _ \<Rightarrow> False | _ \<Rightarrow> True) rs \<Longrightarrow> P os \<Longrightarrow> always (\<lambda>v. P (fst v)) rs (os, is, r)"
proof (induction rs arbitrary: "is" r)
  case (Cons q rs)
  have "\<exists>is' r'. effect q (os, is, r) = (os, is', r')" using Cons.prems(1) by (cases q) (auto split: option.split)
  with Cons show ?case by auto
qed simp

section \<open>Dependents first\<close>

interpretation dependents: strict_weak "\<lambda>a b. depends p a \<and> \<not> depends p b" for p
  by unfold_locales auto

lemma dependentsFirst_set [simp]: "set (dependentsFirst p ts) = set ts" "distinct (dependentsFirst p ts) = distinct ts"
  by (simp_all add: dependentsFirst_def)

text \<open>Removed in this order, an outbound goes before the plain one it dials through; added in the reverse
  order, it comes after it.\<close>

lemma dependent_removed_first:
  assumes "d \<in> set (take k (dependentsFirst p ts))" "\<not> depends p d" "depends p t" "t \<in> set ts"
  shows "t \<in> set (take k (dependentsFirst p ts))"
proof (rule ccontr)
  assume "t \<notin> set (take k (dependentsFirst p ts))"
  then have "t \<in> set (drop k (dependentsFirst p ts))"
    using assms(4) by (metis Un_iff append_take_drop_id dependentsFirst_set(1) set_append)
  with assms(1-3) show False using dependents.take_go_sort_best [of d k p ts t] by (simp add: dependentsFirst_def)
qed

lemma dependent_added_last:
  assumes "t \<in> set (take k (rev (dependentsFirst p ts)))" "\<not> depends p d" "depends p t" "d \<in> set ts"
  shows "d \<in> set (take k (rev (dependentsFirst p ts)))"
proof (rule ccontr)
  let ?n = "length (dependentsFirst p ts) - k"
  assume "d \<notin> set (take k (rev (dependentsFirst p ts)))"
  then have "d \<notin> set (drop ?n (dependentsFirst p ts))" by (simp add: take_rev)
  then have "d \<in> set (take ?n (dependentsFirst p ts))"
    using assms(4) by (metis Un_iff append_take_drop_id dependentsFirst_set(1) set_append)
  moreover have "t \<in> set (drop ?n (dependentsFirst p ts))" using assms(1) by (simp add: take_rev)
  ultimately show False using assms(2,3) dependents.take_go_sort_best [of d ?n p ts t] by (simp add: dependentsFirst_def)
qed

section \<open>What a plan holds\<close>

definition changed_of :: "('a \<Rightarrow> 'b option) \<Rightarrow> ('a \<Rightarrow> 'b option) \<Rightarrow> 'a set" where
  "changed_of A B = {t. A t \<noteq> None \<and> A t \<noteq> B t}"

lemma diff_keys: "dict_ok old \<Longrightarrow> fst ` {x \<in> set old. case x of (t, ob) \<Rightarrow> map_of want t \<noteq> Some ob} = changed_of (map_of old) (map_of want)"
  using dict_ok_distinct [of old] by (force simp: changed_of_def image_iff)

lemma diffTagged_sets:
  assumes "dict_ok old" "dict_ok want" "diffTagged old want = (rm, add)"
  shows "set rm = changed_of (map_of old) (map_of want) \<and> set add = changed_of (map_of want) (map_of old) \<and>
    distinct rm \<and> distinct add"
proof -
  have d: "distinct (map fst (filter P d))" if "dict_ok d" for d :: "(string, json) dict" and P
    using dict_ok_distinct [OF that] by (rule distinct_map_filter)
  show ?thesis using assms(3) d [OF assms(1)] d [OF assms(2)]
    by (auto simp: diffTagged_def diff_keys [OF assms(1)] diff_keys [OF assms(2)])
qed

definition via_of :: "live_config \<Rightarrow> string \<Rightarrow> string" where
  "via_of lc t = dget_or [] (lc_dialerOf lc) t"

lemma merged_fold:
  "distinct (map fst kvs) \<Longrightarrow> map_of (fold (\<lambda>(t, d) m. if d \<noteq> [] then dput t d m else m) kvs m) t =
     (case map_of kvs t of Some d \<Rightarrow> if d \<noteq> [] then Some d else map_of m t | None \<Rightarrow> map_of m t)"
proof (induction kvs arbitrary: m)
  case (Cons kv kvs)
  obtain k d where kv: "kv = (k, d)" by fastforce
  have none: "map_of kvs k = None" using Cons.prems by (simp add: kv map_of_eq_None_iff)
  show ?case
  proof (cases "t = k")
    case True
    with Cons none show ?thesis by (simp add: kv)
  next
    case False
    with Cons show ?thesis by (simp add: kv split: option.split)
  qed
qed simp

lemma merged_of:
  assumes "live_ok want"
  shows "dget_or [] (merged_dialers old want) t = (if via_of want t \<noteq> [] then via_of want t else via_of old t)"
  using merged_fold [OF dict_ok_distinct, of "lc_dialerOf want" "lc_dialerOf old" t] assms
  by (auto simp: merged_dialers_def via_of_def dget_or_def live_ok_def split: option.split)

lemma fst_filter: "t \<in> set (map fst (filter P kvs)) \<longleftrightarrow> (\<exists>d. (t, d) \<in> set kvs \<and> P (t, d))"
  by (induction kvs) auto

definition swapped_set :: "live_config \<Rightarrow> live_config \<Rightarrow> string set" where
  "swapped_set old want =
     (let R = changed_of (map_of (lc_outbounds old)) (map_of (lc_outbounds want))
      in {t. via_of want t \<noteq> [] \<and> via_of want t \<in> R \<and> t \<notin> R \<and> map_of (lc_outbounds old) t \<noteq> None})"

lemma live_plan_cases:
  assumes "live_ok old" "live_ok want" "\<not> lp_restart (planLive old want)"
  defines "p \<equiv> planLive old want"
    and "A \<equiv> map_of (lc_outbounds old)" and "B \<equiv> map_of (lc_outbounds want)"
    and "I \<equiv> map_of (lc_inbounds old)" and "J \<equiv> map_of (lc_inbounds want)"
  shows "set (lp_rmOut p) = changed_of A B \<union> swapped_set old want"
    and "set (lp_addOut p) = changed_of B A \<union> swapped_set old want"
    and "distinct (lp_rmOut p)" and "distinct (lp_addOut p)"
    and "set (lp_rmIn p) = changed_of I J" and "set (lp_addIn p) = changed_of J I"
    and "distinct (lp_rmIn p)" and "distinct (lp_addIn p)"
    and "lp_routing p = (lc_routing old \<noteq> lc_routing want)"
    and "depends p t \<longleftrightarrow> via_of want t \<noteq> [] \<or> via_of old t \<noteq> []"
    and "revoked_tags old want = []"
proof -
  obtain rm add where o: "diffTagged (lc_outbounds old) (lc_outbounds want) = (rm, add)" by fastforce
  obtain rmi addi where i: "diffTagged (lc_inbounds old) (lc_inbounds want) = (rmi, addi)" by fastforce
  have ok: "dict_ok (lc_outbounds old)" "dict_ok (lc_outbounds want)" "dict_ok (lc_inbounds old)" "dict_ok (lc_inbounds want)"
    "dict_ok (lc_dialerOf want)" using assms(1,2) by (simp_all add: live_ok_def)
  note os = diffTagged_sets [OF ok(1,2) o, folded A_def B_def] and ins = diffTagged_sets [OF ok(3,4) i]
  let ?sw = "swapped_masters old want rm"
  have sw: "set ?sw = swapped_set old want" "distinct ?sw"
  proof -
    show "distinct ?sw" unfolding swapped_masters_def by (rule distinct_map_filter [OF dict_ok_distinct [OF ok(5)]])
    have via: "via_of want t = d \<and> d \<noteq> [] \<longleftrightarrow> (t, d) \<in> set (lc_dialerOf want) \<and> d \<noteq> []" for t d
      using map_of_eq_Some_iff [OF dict_ok_distinct [OF ok(5)], of t d] by (auto simp: via_of_def dget_or_def split: option.split)
    have "t \<in> set ?sw \<longleftrightarrow> (\<exists>d. (t, d) \<in> set (lc_dialerOf want) \<and> d \<noteq> [] \<and> d \<in> set rm \<and> t \<notin> set rm \<and> A t \<noteq> None)" for t
      unfolding swapped_masters_def fst_filter A_def by simp
    also have "\<dots> t \<longleftrightarrow> t \<in> swapped_set old want" for t
      unfolding swapped_set_def Let_def mem_Collect_eq A_def [symmetric] B_def [symmetric] os [THEN conjunct1] using via [of t] by metis
    finally show "set ?sw = swapped_set old want" by blast
  qed
  have fresh: "swapped_set old want \<inter> set rm = {}" "swapped_set old want \<inter> set add = {}"
    using os unfolding swapped_set_def Let_def A_def [symmetric] B_def [symmetric] by (auto simp: changed_of_def)
  have nr: "lc_fixed old = lc_fixed want" "lc_firstOut old = lc_firstOut want" "revoked_tags old want = []"
    using assms(3) by (auto simp: planLive_def restart_plan_def split: if_splits list.splits)
  have p: "p = \<lparr>lp_restart = False, lp_why = [], lp_rmOut = sort (rm @ ?sw), lp_addOut = sort (add @ ?sw),
      lp_rmIn = rmi, lp_addIn = addi, lp_routing = (lc_routing old \<noteq> lc_routing want), lp_dialerOf = merged_dialers old want\<rparr>"
    by (simp add: p_def planLive_def nr o i Let_def)
  show "set (lp_rmOut p) = changed_of A B \<union> swapped_set old want" "set (lp_addOut p) = changed_of B A \<union> swapped_set old want"
    "distinct (lp_rmOut p)" "distinct (lp_addOut p)" "set (lp_rmIn p) = changed_of I J" "set (lp_addIn p) = changed_of J I"
    "distinct (lp_rmIn p)" "distinct (lp_addIn p)" "lp_routing p = (lc_routing old \<noteq> lc_routing want)" "revoked_tags old want = []"
    using os ins sw fresh nr by (auto simp: p A_def B_def I_def J_def)
  show "depends p t \<longleftrightarrow> via_of want t \<noteq> [] \<or> via_of old t \<noteq> []"
    using merged_of [OF assms(2), of old t] by (simp add: depends_def p)
qed

section \<open>No outbound without the one it dials through\<close>

definition no_dangling :: "(string \<Rightarrow> json option) \<Rightarrow> bool" where
  "no_dangling os \<longleftrightarrow> (\<forall>t ob d. os t = Some ob \<longrightarrow> struct_via ob = Some d \<longrightarrow> d \<noteq> [] \<longrightarrow> os d \<noteq> None)"

text \<open>The configs the plan is made for: every outbound dials through one that is there, what it dials
  through dials through nothing itself (in neither config), and what an outbound that goes away dials
  through goes away with it or stays as it is.\<close>

definition closed_config :: "live_config \<Rightarrow> bool" where
  "closed_config lc \<longleftrightarrow> list_all (\<lambda>(t, d). d = [] \<or> map_of (lc_outbounds lc) d \<noteq> None) (lc_dialerOf lc)"

definition one_hop :: "live_config \<Rightarrow> live_config \<Rightarrow> bool" where
  "one_hop old want \<longleftrightarrow> list_all (\<lambda>(t, d). d = [] \<or> (via_of old d = [] \<and> via_of want d = [])) (lc_dialerOf old @ lc_dialerOf want)"

definition goes_together :: "live_config \<Rightarrow> live_config \<Rightarrow> bool" where
  "goes_together old want \<longleftrightarrow> list_all (\<lambda>(t, d). d = [] \<or> map_of (lc_outbounds want) t \<noteq> None \<or>
     map_of (lc_outbounds want) d = None \<or> map_of (lc_outbounds want) d = map_of (lc_outbounds old) d) (lc_dialerOf old)"

lemma via_at: "live_ok lc \<Longrightarrow> map_of (lc_outbounds lc) t = Some ob \<Longrightarrow> struct_via ob = Some d \<Longrightarrow> via_of lc t = d \<and> (t, d) \<in> set (lc_dialerOf lc)"
  by (metis dget_or_def live_ok_def map_of_SomeD option.simps(5) via_of_def)

lemma live_facts:
  assumes "live_ok old" "live_ok want" "closed_config old" "closed_config want" "one_hop old want" "goes_together old want"
  defines "A \<equiv> map_of (lc_outbounds old)" and "B \<equiv> map_of (lc_outbounds want)"
  shows "A t = Some ob \<Longrightarrow> struct_via ob = Some d \<Longrightarrow> d \<noteq> [] \<Longrightarrow>
      A d \<noteq> None \<and> via_of old d = [] \<and> via_of want d = [] \<and> via_of old t = d \<and> (B t = None \<longrightarrow> B d = None \<or> B d = A d)"
    and "B t = Some ob \<Longrightarrow> struct_via ob = Some d \<Longrightarrow> d \<noteq> [] \<Longrightarrow>
      B d \<noteq> None \<and> via_of old d = [] \<and> via_of want d = [] \<and> via_of want t = d"
proof -
  assume "A t = Some ob" "struct_via ob = Some d" and d: "d \<noteq> []"
  then have v: "via_of old t = d" "(t, d) \<in> set (lc_dialerOf old)" using via_at [OF assms(1)] by (simp_all add: A_def)
  from v(2) have "(t, d) \<in> set (lc_dialerOf old @ lc_dialerOf want)" by simp
  with v d assms(3,5,6) show "A d \<noteq> None \<and> via_of old d = [] \<and> via_of want d = [] \<and> via_of old t = d \<and> (B t = None \<longrightarrow> B d = None \<or> B d = A d)"
    unfolding closed_config_def one_hop_def goes_together_def list_all_iff A_def B_def by fastforce
next
  assume "B t = Some ob" "struct_via ob = Some d" and d: "d \<noteq> []"
  then have v: "via_of want t = d" "(t, d) \<in> set (lc_dialerOf want)" using via_at [OF assms(2)] by (simp_all add: B_def)
  from v(2) have "(t, d) \<in> set (lc_dialerOf old @ lc_dialerOf want)" by simp
  with v d assms(4,5) show "B d \<noteq> None \<and> via_of old d = [] \<and> via_of want d = [] \<and> via_of want t = d"
    unfolding closed_config_def one_hop_def list_all_iff A_def B_def by fastforce
qed

section \<open>The stages of a live apply\<close>

text \<open>A plan for configs that meet these conditions; \<open>swap_tags\<close> are replaced, \<open>gone_tags\<close> removed at the
  end.\<close>

definition live_pair :: "live_config \<Rightarrow> live_config \<Rightarrow> bool" where
  "live_pair old want \<longleftrightarrow> live_ok old \<and> live_ok want \<and> \<not> lp_restart (planLive old want)"

definition swap_tags :: "live_plan \<Rightarrow> string list" where
  "swap_tags p = intersect (lp_rmOut p) (lp_addOut p)"

definition gone_tags :: "live_plan \<Rightarrow> string list" where
  "gone_tags p = minus_set (lp_rmOut p) (lp_addOut p)"

definition swapped_in :: "live_config \<Rightarrow> live_config \<Rightarrow> string \<Rightarrow> json option" where
  "swapped_in old want = put_all (map_of (lc_outbounds want)) (rev (dependentsFirst (planLive old want) (lp_addOut (planLive old want))))
     (rem_all (dependentsFirst (planLive old want) (swap_tags (planLive old want))) (map_of (lc_outbounds old)))"

lemma plan_tags:
  assumes "live_pair old want"
  defines "p \<equiv> planLive old want" and "A \<equiv> map_of (lc_outbounds old)" and "B \<equiv> map_of (lc_outbounds want)"
  shows "t \<in> set (swap_tags p) \<longleftrightarrow> A t \<noteq> None \<and> B t \<noteq> None \<and> A t \<noteq> B t \<or> t \<in> swapped_set old want"
    and "t \<in> set (gone_tags p) \<longleftrightarrow> A t \<noteq> None \<and> B t = None"
    and "t \<in> set (lp_addOut p) \<longleftrightarrow> B t \<noteq> None \<and> A t \<noteq> B t \<or> t \<in> swapped_set old want"
    and "t \<in> swapped_set old want \<Longrightarrow> A t \<noteq> None \<and> B t = A t \<and> via_of want t \<noteq> []"
    and "distinct (swap_tags p)" and "distinct (gone_tags p)" and "distinct (lp_addOut p)"
proof -
  note c = live_plan_cases [of old want, folded p_def A_def B_def]
  have ok: "live_ok old" "live_ok want" "\<not> lp_restart p" using assms(1) by (simp_all add: live_pair_def p_def)
  note c = c [OF ok]
  have sw: "t \<in> swapped_set old want \<longleftrightarrow> via_of want t \<noteq> [] \<and> via_of want t \<in> changed_of A B \<and> t \<notin> changed_of A B \<and> A t \<noteq> None" for t
    by (simp add: swapped_set_def Let_def A_def B_def)
  show "t \<in> swapped_set old want \<Longrightarrow> A t \<noteq> None \<and> B t = A t \<and> via_of want t \<noteq> []"
    unfolding sw by (auto simp: changed_of_def)
  show "t \<in> set (lp_addOut p) \<longleftrightarrow> B t \<noteq> None \<and> A t \<noteq> B t \<or> t \<in> swapped_set old want"
    unfolding c(2) by (auto simp: changed_of_def)
  have nsw: "t \<in> swapped_set old want \<Longrightarrow> t \<notin> changed_of A B" for t unfolding sw by blast
  show "t \<in> set (swap_tags p) \<longleftrightarrow> A t \<noteq> None \<and> B t \<noteq> None \<and> A t \<noteq> B t \<or> t \<in> swapped_set old want"
    unfolding swap_tags_def intersect_def set_filter mem_Collect_eq c(1,2) Un_iff by (auto simp: changed_of_def)
  show "t \<in> set (gone_tags p) \<longleftrightarrow> A t \<noteq> None \<and> B t = None"
    unfolding gone_tags_def minus_set_def set_filter mem_Collect_eq c(1,2) Un_iff using nsw [of t] by (auto simp: changed_of_def)
  show "distinct (swap_tags p)" "distinct (gone_tags p)" "distinct (lp_addOut p)"
    using c(3,4) by (simp_all add: swap_tags_def gone_tags_def intersect_def minus_set_def)
qed

definition dangling_ok :: "live_config \<Rightarrow> live_config \<Rightarrow> bool" where
  "dangling_ok old want \<longleftrightarrow> live_pair old want \<and> closed_config old \<and> closed_config want \<and> one_hop old want \<and> goes_together old want"

lemma dangling_facts:
  assumes "dangling_ok old want"
  defines "p \<equiv> planLive old want" and "A \<equiv> map_of (lc_outbounds old)" and "B \<equiv> map_of (lc_outbounds want)"
  shows "A t = Some ob \<Longrightarrow> struct_via ob = Some d \<Longrightarrow> d \<noteq> [] \<Longrightarrow>
      A d \<noteq> None \<and> via_of old t = d \<and> depends p t \<and> \<not> depends p d \<and> (B t = None \<longrightarrow> B d = None \<or> B d = A d)"
    and "B t = Some ob \<Longrightarrow> struct_via ob = Some d \<Longrightarrow> d \<noteq> [] \<Longrightarrow> B d \<noteq> None \<and> via_of want t = d \<and> depends p t \<and> \<not> depends p d"
proof -
  have ok: "live_ok old" "live_ok want" "\<not> lp_restart (planLive old want)" "closed_config old" "closed_config want"
    "one_hop old want" "goes_together old want" using assms(1) by (simp_all add: dangling_ok_def live_pair_def)
  note dep = live_plan_cases(10) [OF ok(1-3), folded p_def]
  show "A t = Some ob \<Longrightarrow> struct_via ob = Some d \<Longrightarrow> d \<noteq> [] \<Longrightarrow>
      A d \<noteq> None \<and> via_of old t = d \<and> depends p t \<and> \<not> depends p d \<and> (B t = None \<longrightarrow> B d = None \<or> B d = A d)"
    using live_facts(1) [OF ok(1,2,4-7), folded A_def B_def, of t ob d] dep by simp
  show "B t = Some ob \<Longrightarrow> struct_via ob = Some d \<Longrightarrow> d \<noteq> [] \<Longrightarrow> B d \<noteq> None \<and> via_of want t = d \<and> depends p t \<and> \<not> depends p d"
    using live_facts(2) [OF ok(1,2,4-7), folded A_def B_def, of t ob d] dep by simp
qed

text \<open>What stays in place keeps what it dials through.\<close>

lemma stay_in_place:
  assumes dok: "dangling_ok old want"
  defines "p \<equiv> planLive old want" and "A \<equiv> map_of (lc_outbounds old)"
  assumes t: "A t = Some ob" "struct_via ob = Some d" "d \<noteq> []" "t \<notin> set (swap_tags p)"
  shows "d \<notin> set (swap_tags p)"
proof
  let ?B = "map_of (lc_outbounds want)"
  have pair: "live_pair old want" using dok by (simp add: dangling_ok_def)
  note tags = plan_tags [OF pair, folded p_def A_def]
  assume d: "d \<in> set (swap_tags p)"
  note f = dangling_facts(1) [OF dok, folded p_def A_def, OF t(1-3)]
  have ok: "live_ok old" "live_ok want" "\<not> lp_restart (planLive old want)" using pair by (simp_all add: live_pair_def)
  have "d \<notin> swapped_set old want" using tags(4) [of d] f live_plan_cases(10) [OF ok, folded p_def, of d] by blast
  with d have dch: "A d \<noteq> None" "?B d \<noteq> None" "A d \<noteq> ?B d" using tags(1) [of d] by auto
  from f dch have "?B t \<noteq> None" by auto
  with t tags(1) [of t] have same: "?B t = A t" by auto
  with t(1) have "via_of want t = d" using dangling_facts(2) [OF dok, folded p_def, of t ob d] t(2,3) by simp
  with dch same t(1,3) have "t \<in> swapped_set old want" by (simp add: swapped_set_def Let_def changed_of_def A_def [symmetric])
  with t(4) tags(1) show False by blast
qed

lemma stage_remove:
  assumes dok: "dangling_ok old want"
  defines "p \<equiv> planLive old want" and "A \<equiv> map_of (lc_outbounds old)"
  shows "no_dangling (rem_all (take k (dependentsFirst p (swap_tags p))) A)"
  unfolding no_dangling_def
proof (intro allI impI)
  fix t ob d
  let ?T = "set (take k (dependentsFirst p (swap_tags p)))"
  assume o: "rem_all (take k (dependentsFirst p (swap_tags p))) A t = Some ob" "struct_via ob = Some d" "d \<noteq> []"
  then have t: "t \<notin> ?T" "A t = Some ob" by (auto simp: rem_all_def split: if_splits)
  note f = dangling_facts(1) [OF dok, folded p_def A_def, OF t(2) o(2,3)]
  have "d \<notin> ?T"
  proof
    assume d: "d \<in> ?T"
    then have "d \<in> set (swap_tags p)" using in_set_takeD by fastforce
    then have "t \<in> set (swap_tags p)" using stay_in_place [OF dok, folded p_def A_def, OF t(2) o(2,3)] by blast
    then have "t \<in> ?T" using dependent_removed_first [OF d] f by blast
    with t(1) show False by blast
  qed
  with f show "rem_all (take k (dependentsFirst p (swap_tags p))) A d \<noteq> None" by (simp add: rem_all_def)
qed

lemma stage_add:
  assumes dok: "dangling_ok old want"
  defines "p \<equiv> planLive old want" and "A \<equiv> map_of (lc_outbounds old)" and "B \<equiv> map_of (lc_outbounds want)"
  shows "no_dangling (put_all B (take k (rev (dependentsFirst p (lp_addOut p)))) (rem_all (dependentsFirst p (swap_tags p)) A))"
  unfolding no_dangling_def
proof (intro allI impI)
  fix t ob d
  let ?os = "put_all B (take k (rev (dependentsFirst p (lp_addOut p)))) (rem_all (dependentsFirst p (swap_tags p)) A)"
  let ?T = "set (take k (rev (dependentsFirst p (lp_addOut p))))"
  have "live_pair old want" using dok by (simp add: dangling_ok_def)
  note tags = plan_tags [OF this, folded p_def A_def B_def]
  assume o: "?os t = Some ob" "struct_via ob = Some d" "d \<noteq> []"
  have sub: "x \<in> ?T \<Longrightarrow> x \<in> set (lp_addOut p)" for x by (metis dependentsFirst_set(1) in_set_takeD set_rev)
  have there: "x \<in> ?T \<Longrightarrow> B x \<noteq> None" for x using tags(3,4) [of x] sub [of x] by auto
  show "?os d \<noteq> None"
  proof (cases "t \<in> ?T")
    case True
    then have f: "B d \<noteq> None \<and> via_of want t = d \<and> depends p t \<and> \<not> depends p d"
      using o dangling_facts(2) [OF dok, folded p_def B_def, of t ob d] by (simp add: put_all_def)
    show ?thesis
    proof (cases "d \<in> set (lp_addOut p)")
      case add: True
      have "d \<in> ?T" using dependent_added_last [OF True _ _ add] f by blast
      with f show ?thesis by (simp add: put_all_def)
    next
      case False
      then have "A d = B d" "d \<notin> set (swap_tags p)" using f tags(1,3) [of d] by auto
      then show ?thesis using f by (simp add: put_all_def rem_all_def)
    qed
  next
    case False
    then have t: "A t = Some ob" "t \<notin> set (swap_tags p)" using o(1) by (auto simp: put_all_def rem_all_def split: if_splits)
    then have "d \<notin> set (swap_tags p)" "A d \<noteq> None"
      using stay_in_place [OF dok, folded p_def A_def, OF t(1) o(2,3) t(2)] dangling_facts(1) [OF dok, folded p_def A_def, OF t(1) o(2,3)] by blast+
    with there show ?thesis by (auto simp: put_all_def rem_all_def)
  qed
qed

lemma swapped_no_dangling: "dangling_ok old want \<Longrightarrow> no_dangling (swapped_in old want)"
  using stage_add [of old want "length (lp_addOut (planLive old want))"]
  by (simp add: swapped_in_def dependentsFirst_def)

lemma stage_gone:
  assumes dok: "dangling_ok old want"
  defines "p \<equiv> planLive old want"
  shows "no_dangling (rem_all (take k (dependentsFirst p (gone_tags p))) (swapped_in old want))"
  unfolding no_dangling_def
proof (intro allI impI)
  fix t ob d
  let ?T = "set (take k (dependentsFirst p (gone_tags p)))" and ?A = "map_of (lc_outbounds old)" and ?B = "map_of (lc_outbounds want)"
  have "live_pair old want" using dok by (simp add: dangling_ok_def)
  note tags = plan_tags [OF this, folded p_def]
  note fb = dangling_facts(2) [OF dok, of t ob d]
  assume o: "rem_all (take k (dependentsFirst p (gone_tags p))) (swapped_in old want) t = Some ob" "struct_via ob = Some d" "d \<noteq> []"
  then have t: "t \<notin> ?T" "swapped_in old want t = Some ob" by (auto simp: rem_all_def split: if_splits)
  have dh: "swapped_in old want d \<noteq> None" using swapped_no_dangling [OF dok] t(2) o(2,3) unfolding no_dangling_def by blast
  have "d \<notin> ?T"
  proof
    assume d: "d \<in> ?T"
    then have "d \<in> set (gone_tags p)" using in_set_takeD by fastforce
    then have bd: "?B d = None" using tags(2) by blast
    have "?B t = Some ob \<or> ?A t = Some ob \<and> t \<notin> set (lp_addOut p)"
      using t(2) by (auto simp: swapped_in_def put_all_def rem_all_def p_def split: if_splits)
    then have at: "?A t = Some ob" "t \<notin> set (lp_addOut p)" using fb o(2,3) bd by auto
    then have "t \<in> set (gone_tags p)" using tags(2,3) [of t] fb o(2,3) bd by auto
    then have "t \<in> ?T" using dependent_removed_first [OF d] dangling_facts(1) [OF dok, folded p_def, OF at(1) o(2,3)] by blast
    with t(1) show False by blast
  qed
  with dh show "rem_all (take k (dependentsFirst p (gone_tags p))) (swapped_in old want) d \<noteq> None" by (simp add: rem_all_def)
qed

section \<open>The whole run\<close>

definition sections_present :: "json \<Rightarrow> bool" where
  "sections_present cfg = (case cfg of JObj d \<Rightarrow> list_all (\<lambda>k. map_of d k \<noteq> None) live_sections | _ \<Rightarrow> False)"

definition config_view :: "live_config \<Rightarrow> view" where
  "config_view lc = (map_of (lc_outbounds lc), map_of (lc_inbounds lc), lc_routing lc)"

lemma objs_of_cong: "(\<And>t. t \<in> set ts \<Longrightarrow> W t = W' t) \<Longrightarrow> objs_of W ts = objs_of W' ts"
  unfolding objs_of_def by (induction ts) (auto simp: map_filter_simps split: option.split)

lemma Ado_singly: "concat (map (\<lambda>t. map Ado (pick_objects items [t])) ts) = map Ado (objs_of (map_of (by_tag items)) ts)"
  by (induction ts) (auto simp: pick_objects_def objs_of_def map_filter_simps split: option.split)

text \<open>The requests, with the objects they add read off the parsed config.\<close>

definition run_reqs :: "live_config \<Rightarrow> live_config \<Rightarrow> api_req list" where
  "run_reqs old want =
     (let p = planLive old want
      in map Rmo (dependentsFirst p (swap_tags p)) @
         map Ado (objs_of (map_of (lc_outbounds want)) (rev (dependentsFirst p (lp_addOut p)))) @
         map Rmi (intersect (lp_rmIn p) (lp_addIn p)) @
         map Adi (objs_of (map_of (lc_inbounds want)) (lp_addIn p)) @
         (if lp_routing p then [Adrules (case lc_routing want of Some r \<Rightarrow> r | None \<Rightarrow> JNull)] else []) @
         map Rmi (minus_set (lp_rmIn p) (lp_addIn p)) @
         map Rmo (dependentsFirst p (gone_tags p)))"

lemma applyLiveLocked_run:
  assumes "parseLiveConfig cfg = Inr want" "sections_present cfg" "live_pair old want"
  shows "applyLiveLocked api (planLive old want) cfg proc = send_reqs api (run_reqs old want) proc"
proof -
  obtain cf where cfg: "cfg = JObj cf" using assms(2) by (cases cfg) (auto simp: sections_present_def)
  have here: "map_of cf ''inbounds'' \<noteq> None" "map_of cf ''outbounds'' \<noteq> None" "map_of cf ''routing'' \<noteq> None"
    using assms(2) by (simp_all add: cfg sections_present_def live_sections_def)
  from assms(1) show ?thesis
  proof (rule parseLiveConfig_ok)
    fix cf' ti tout
    assume cf': "struct_of cfg = Some cf'"
      and ti: "tagged_ok (section_items (map_of cf' ''inbounds'')) ti" and tout: "tagged_ok (section_items (map_of cf' ''outbounds'')) tout"
      and lc: "lc_inbounds want = tg_objects ti" "lc_outbounds want = tg_objects tout" "lc_routing want = map_of cf' ''routing''"
      and parsed: "taggedObjects (map_of cf' ''inbounds'') = Inr ti" "taggedObjects (map_of cf' ''outbounds'') = Inr tout"
    have cf: "cf' = cf" using cf' by (simp add: cfg struct_of_def)
    let ?p = "planLive old want"
    note arr = parsed_arr [OF parsed(1) here(1) [folded cf], unfolded cf] parsed_arr [OF parsed(2) here(2) [folded cf], unfolded cf]
    have rt: "routing_of cf = (case lc_routing want of Some r \<Rightarrow> r | None \<Rightarrow> JNull)"
      using here(3) by (auto simp: routing_of_def struct_key_def lc(3) cf)
    have ok: "live_ok old" "live_ok want" "\<not> lp_restart ?p" using assms(3) by (simp_all add: live_pair_def)
    have outs: "objs_of (map_of (by_tag (section_items (map_of cf ''outbounds'')))) ts = objs_of (map_of (lc_outbounds want)) ts"
      if ts: "set ts = set (lp_addOut ?p)" for ts
    proof (rule objs_of_cong)
      fix t assume "t \<in> set ts"
      then obtain ob where "map_of (lc_outbounds want) t = Some ob" using plan_tags(3,4) [OF assms(3), of t] ts by auto
      with tagged_picks [OF tout [unfolded cf]] lc(2) show "map_of (by_tag (section_items (map_of cf ''outbounds''))) t = map_of (lc_outbounds want) t" by simp
    qed
    have inn: "pick_objects (section_items (map_of cf ''inbounds'')) (lp_addIn ?p) = objs_of (map_of (lc_inbounds want)) (lp_addIn ?p)"
      unfolding pick_objects_def objs_of_def [symmetric]
    proof (rule objs_of_cong)
      fix t assume "t \<in> set (lp_addIn ?p)"
      then obtain ob where "map_of (lc_inbounds want) t = Some ob" using live_plan_cases(6) [OF ok] by (auto simp: changed_of_def)
      with tagged_picks [OF ti [unfolded cf]] lc(1) show "map_of (by_tag (section_items (map_of cf ''inbounds''))) t = map_of (lc_inbounds want) t" by simp
    qed
    show ?thesis
      by (simp add: applyLiveLocked_def cf' cf arr live_reqs_def Ado_singly outs inn
          run_reqs_def Let_def rt swap_tags_def gone_tags_def)
  qed
qed

lemma plan_in_tags:
  assumes "live_pair old want"
  defines "p \<equiv> planLive old want" and "I \<equiv> map_of (lc_inbounds old)" and "J \<equiv> map_of (lc_inbounds want)"
  shows "t \<in> set (intersect (lp_rmIn p) (lp_addIn p)) \<longleftrightarrow> I t \<noteq> None \<and> J t \<noteq> None \<and> I t \<noteq> J t"
    and "t \<in> set (minus_set (lp_rmIn p) (lp_addIn p)) \<longleftrightarrow> I t \<noteq> None \<and> J t = None"
    and "t \<in> set (lp_addIn p) \<longleftrightarrow> J t \<noteq> None \<and> I t \<noteq> J t"
    and "distinct (lp_rmIn p)" and "distinct (lp_addIn p)"
proof -
  have ok: "live_ok old" "live_ok want" "\<not> lp_restart p" using assms(1) by (simp_all add: live_pair_def p_def)
  note c = live_plan_cases(5-8) [of old want, folded p_def I_def J_def, OF ok]
  show "distinct (lp_rmIn p)" "distinct (lp_addIn p)" using c by simp_all
  show "t \<in> set (intersect (lp_rmIn p) (lp_addIn p)) \<longleftrightarrow> I t \<noteq> None \<and> J t \<noteq> None \<and> I t \<noteq> J t"
    unfolding intersect_def set_filter mem_Collect_eq c by (auto simp: changed_of_def)
  show "t \<in> set (minus_set (lp_rmIn p) (lp_addIn p)) \<longleftrightarrow> I t \<noteq> None \<and> J t = None"
    unfolding minus_set_def set_filter mem_Collect_eq c by (auto simp: changed_of_def)
  show "t \<in> set (lp_addIn p) \<longleftrightarrow> J t \<noteq> None \<and> I t \<noteq> J t"
    unfolding c by (auto simp: changed_of_def)
qed

text \<open>The inbounds after the swap.\<close>

definition swapped_ins :: "live_config \<Rightarrow> live_config \<Rightarrow> string \<Rightarrow> json option" where
  "swapped_ins old want =
     (let p = planLive old want
      in put_all (map_of (lc_inbounds want)) (lp_addIn p) (rem_all (intersect (lp_rmIn p) (lp_addIn p)) (map_of (lc_inbounds old))))"

definition in_tagged :: "live_config \<Rightarrow> bool" where
  "in_tagged lc \<longleftrightarrow> (\<forall>t ob. map_of (lc_inbounds lc) t = Some ob \<longrightarrow> struct_tag ob = Some t)"

lemma parsed_in_tagged: "parseLiveConfig raw = Inr lc \<Longrightarrow> in_tagged lc"
  by (erule parseLiveConfig_ok) (simp add: in_tagged_def tagged_ok_def)

lemma swaps_end:
  assumes "live_pair old want"
  defines "p \<equiv> planLive old want"
  shows "rem_all (dependentsFirst p (gone_tags p)) (swapped_in old want) = map_of (lc_outbounds want)"
    and "rem_all (minus_set (lp_rmIn p) (lp_addIn p)) (swapped_ins old want) = map_of (lc_inbounds want)"
proof -
  show "rem_all (dependentsFirst p (gone_tags p)) (swapped_in old want) = map_of (lc_outbounds want)"
  proof
    fix t
    show "rem_all (dependentsFirst p (gone_tags p)) (swapped_in old want) t = map_of (lc_outbounds want) t"
      using plan_tags(1-4) [OF assms(1), of t] by (auto simp: rem_all_def put_all_def swapped_in_def p_def)
  qed
  show "rem_all (minus_set (lp_rmIn p) (lp_addIn p)) (swapped_ins old want) = map_of (lc_inbounds want)"
  proof
    fix t
    show "rem_all (minus_set (lp_rmIn p) (lp_addIn p)) (swapped_ins old want) t = map_of (lc_inbounds want) t"
      using plan_in_tags(1-3) [OF assms(1), of t] by (auto simp: rem_all_def put_all_def swapped_ins_def Let_def p_def)
  qed
qed

lemma plan_well_tagged:
  assumes "live_pair old want" "in_tagged want"
  defines "p \<equiv> planLive old want"
  shows "well_tagged (map_of (lc_outbounds want)) (rev (dependentsFirst p (lp_addOut p)))"
    and "well_tagged (map_of (lc_inbounds want)) (lp_addIn p)"
proof -
  have ok: "live_ok want" using assms(1) by (simp add: live_pair_def)
  have "\<exists>ob. map_of (lc_outbounds want) t = Some ob \<and> struct_tag ob = Some t" if t: "t \<in> set (lp_addOut p)" for t
  proof -
    obtain ob where "map_of (lc_outbounds want) t = Some ob" using t plan_tags(3,4) [OF assms(1), of t] by (auto simp: p_def)
    with ok show ?thesis by (auto simp: live_ok_def)
  qed
  then show "well_tagged (map_of (lc_outbounds want)) (rev (dependentsFirst p (lp_addOut p)))" by (simp add: well_tagged_def)
  have "\<exists>ob. map_of (lc_inbounds want) t = Some ob \<and> struct_tag ob = Some t" if t: "t \<in> set (lp_addIn p)" for t
  proof -
    obtain ob where "map_of (lc_inbounds want) t = Some ob" using t plan_in_tags(3) [OF assms(1), of t] by (auto simp: p_def)
    with assms(2) show ?thesis by (auto simp: in_tagged_def)
  qed
  then show "well_tagged (map_of (lc_inbounds want)) (lp_addIn p)" by (simp add: well_tagged_def)
qed

lemma run_reqs_final:
  assumes "live_pair old want" "in_tagged want" "lc_routing want \<noteq> None"
  shows "fold effect (run_reqs old want) (config_view old) = config_view want"
proof -
  let ?p = "planLive old want"
  have ok: "live_ok old" "live_ok want" "\<not> lp_restart ?p" using assms(1) by (simp_all add: live_pair_def)
  note wt = plan_well_tagged [OF assms(1,2)]
  note fin = swaps_end [OF assms(1), unfolded swapped_in_def swapped_ins_def Let_def]
  show ?thesis
    using assms(3) live_plan_cases(9) [OF ok]
    by (auto simp: run_reqs_def Let_def config_view_def Rmo_fold Ado_fold [OF wt(1)] Rmi_fold Adi_fold [OF wt(2)] fin split: option.split)
qed

lemma run_reqs_always:
  assumes "dangling_ok old want" "in_tagged want"
  shows "always (\<lambda>v. no_dangling (fst v)) (run_reqs old want) (config_view old)"
proof -
  let ?p = "planLive old want"
  have pair: "live_pair old want" using assms(1) by (simp add: dangling_ok_def)
  note wt = plan_well_tagged [OF pair assms(2)]
  have mid: "no_dangling (swapped_in old want)" by (rule swapped_no_dangling [OF assms(1)])
  have one: "always (\<lambda>v. no_dangling (fst v)) (map Rmo (dependentsFirst ?p (swap_tags ?p))) (map_of (lc_outbounds old), is, r)" for "is" r
    using stage_remove [OF assms(1)] by (intro Rmo_always) simp
  have two: "always (\<lambda>v. no_dangling (fst v)) (map Ado (objs_of (map_of (lc_outbounds want)) (rev (dependentsFirst ?p (lp_addOut ?p)))))
      (rem_all (dependentsFirst ?p (swap_tags ?p)) (map_of (lc_outbounds old)), is, r)" for "is" r
    using stage_add [OF assms(1)] by (intro Ado_always [OF wt(1)]) simp
  have three: "always (\<lambda>v. no_dangling (fst v)) rs (swapped_in old want, is, r)"
    if "list_all (\<lambda>q. case q of Rmo _ \<Rightarrow> False | Ado _ \<Rightarrow> False | _ \<Rightarrow> True) rs" for rs "is" r
    using that mid by (rule other_always)
  have four: "always (\<lambda>v. no_dangling (fst v)) (map Rmo (dependentsFirst ?p (gone_tags ?p))) (swapped_in old want, is, r)" for "is" r
    using stage_gone [OF assms(1)] by (intro Rmo_always) simp
  have eq: "put_all (map_of (lc_outbounds want)) (rev (dependentsFirst ?p (lp_addOut ?p))) (rem_all (dependentsFirst ?p (swap_tags ?p)) (map_of (lc_outbounds old))) = swapped_in old want"
    by (simp add: swapped_in_def)
  show ?thesis
    unfolding run_reqs_def Let_def config_view_def always_append Rmo_fold Ado_fold [OF wt(1)] Rmi_fold Adi_fold [OF wt(2)] eq
    using one two three four by (auto simp: list_all_iff Rmi_fold)
qed

lemma run_reqs_posed:
  assumes "live_pair old want" "in_tagged want"
  shows "all_posed (run_reqs old want) (config_view old)"
proof -
  let ?p = "planLive old want"
  note wt = plan_well_tagged [OF assms]
  note t = plan_tags [OF assms(1)] and i = plan_in_tags [OF assms(1)]
  have one: "all_posed (map Rmo (dependentsFirst ?p (swap_tags ?p))) (map_of (lc_outbounds old), is, r)" for "is" r
    using t(1,4,5) by (intro Rmo_posed) auto
  have two: "all_posed (map Ado (objs_of (map_of (lc_outbounds want)) (rev (dependentsFirst ?p (lp_addOut ?p)))))
      (rem_all (dependentsFirst ?p (swap_tags ?p)) (map_of (lc_outbounds old)), is, r)" for "is" r
  proof (rule Ado_posed [OF wt(1)])
    show "distinct (rev (dependentsFirst ?p (lp_addOut ?p)))" using t(7) by simp
    fix u assume "u \<in> set (rev (dependentsFirst ?p (lp_addOut ?p)))"
    then show "rem_all (dependentsFirst ?p (swap_tags ?p)) (map_of (lc_outbounds old)) u = None"
      using t(1,3) [of u] by (auto simp: rem_all_def)
  qed
  have three: "all_posed (map Rmi (intersect (lp_rmIn ?p) (lp_addIn ?p))) (os, map_of (lc_inbounds old), r)" for os r
    using i(1,4) by (intro Rmi_posed) (auto simp: intersect_def)
  have four: "all_posed (map Adi (objs_of (map_of (lc_inbounds want)) (lp_addIn ?p)))
      (os, rem_all (intersect (lp_rmIn ?p) (lp_addIn ?p)) (map_of (lc_inbounds old)), r)" for os r
  proof (rule Adi_posed [OF wt(2) i(5)])
    fix u assume "u \<in> set (lp_addIn ?p)"
    then show "rem_all (intersect (lp_rmIn ?p) (lp_addIn ?p)) (map_of (lc_inbounds old)) u = None"
      using i(1,3) [of u] by (auto simp: rem_all_def)
  qed
  have five: "all_posed (map Rmi (minus_set (lp_rmIn ?p) (lp_addIn ?p))) (os, swapped_ins old want, r)" for os r
  proof (rule Rmi_posed)
    show "distinct (minus_set (lp_rmIn ?p) (lp_addIn ?p))" using i(4) by (simp add: minus_set_def)
    fix u assume "u \<in> set (minus_set (lp_rmIn ?p) (lp_addIn ?p))"
    then show "swapped_ins old want u \<noteq> None" using i(1-3) [of u] by (auto simp: swapped_ins_def Let_def put_all_def rem_all_def)
  qed
  have six: "all_posed (map Rmo (dependentsFirst ?p (gone_tags ?p))) (swapped_in old want, is, r)" for "is" r
  proof (rule Rmo_posed)
    show "distinct (dependentsFirst ?p (gone_tags ?p))" using t(6) by simp
    fix u assume "u \<in> set (dependentsFirst ?p (gone_tags ?p))"
    then show "swapped_in old want u \<noteq> None" using t(1-4) [of u] by (auto simp: swapped_in_def put_all_def rem_all_def)
  qed
  have eq: "put_all (map_of (lc_outbounds want)) (rev (dependentsFirst ?p (lp_addOut ?p))) (rem_all (dependentsFirst ?p (swap_tags ?p)) (map_of (lc_outbounds old))) = swapped_in old want"
    "put_all (map_of (lc_inbounds want)) (lp_addIn ?p) (rem_all (intersect (lp_rmIn ?p) (lp_addIn ?p)) (map_of (lc_inbounds old))) = swapped_ins old want"
    by (simp_all add: swapped_in_def swapped_ins_def Let_def)
  show ?thesis
    unfolding run_reqs_def Let_def config_view_def all_posed_append Rmo_fold Ado_fold [OF wt(1)] Rmi_fold Adi_fold [OF wt(2)] eq
    using one two three four five six by (simp add: Rmi_fold)
qed

text \<open>An apply that is not a restart sends the requests of its plan, none when the plan is empty.\<close>

lemma applyLive_sends:
  assumes "parseLiveConfig running = Inr old" "parseLiveConfig cfg = Inr want" "sections_present cfg" "\<not> lp_restart (planLive old want)"
  shows "live_pair old want" and "lc_routing want \<noteq> None" and "in_tagged want"
    and "ready proc \<or> plan_empty (planLive old want) \<Longrightarrow> applyLive api ready running cfg proc = send_reqs api (run_reqs old want) proc"
    and "\<not> ready proc \<Longrightarrow> \<not> plan_empty (planLive old want) \<Longrightarrow> applyLive api ready running cfg proc = ([], False)"
proof -
  show pair: "live_pair old want" using assms(4) parsed_live_ok assms(1,2) by (simp add: live_pair_def)
  show "lc_routing want \<noteq> None"
    using assms(2,3) by (auto elim!: parseLiveConfig_ok simp: sections_present_def struct_of_def live_sections_def split: json.splits)
  show "in_tagged want" using assms(2) by (rule parsed_in_tagged)
  have none: "run_reqs old want = []" if "plan_empty (planLive old want)"
    using that by (simp add: run_reqs_def Let_def plan_empty_def swap_tags_def gone_tags_def intersect_def minus_set_def dependentsFirst_def objs_of_def map_filter_simps)
  note run = applyLiveLocked_run [OF assms(2,3) pair, of api proc]
  show "ready proc \<or> plan_empty (planLive old want) \<Longrightarrow> applyLive api ready running cfg proc = send_reqs api (run_reqs old want) proc"
    using none by (cases "plan_empty (planLive old want)") (auto simp: applyLive_def assms run Let_def)
  show "\<not> ready proc \<Longrightarrow> \<not> plan_empty (planLive old want) \<Longrightarrow> applyLive api ready running cfg proc = ([], False)"
    by (simp add: applyLive_def assms)
qed

lemma applyLive_restart: "parseLiveConfig running = Inr old \<Longrightarrow> parseLiveConfig cfg = Inr want \<Longrightarrow> lp_restart (planLive old want) \<Longrightarrow>
    applyLive api ready running cfg proc = ([], False)"
  by (simp add: applyLive_def)

lemma live_apply_final:
  assumes "xray_api view_of api" and "parseLiveConfig running = Inr old" and "parseLiveConfig cfg = Inr want"
    and "sections_present cfg" and "view_of proc = config_view old" and "applyLive api ready running cfg proc = (qs, True)"
  shows "view_of (last (proc # qs)) = config_view want"
proof -
  have nr: "\<not> lp_restart (planLive old want)" using applyLive_restart [OF assms(2,3), of api ready proc] assms(6) by auto
  note a = applyLive_sends [OF assms(2-4) nr]
  have "send_reqs api (run_reqs old want) proc = (qs, True)"
    using a(4,5) [of ready proc api] assms(6) by (cases "ready proc \<or> plan_empty (planLive old want)") simp_all
  then show ?thesis using xray_api.sent_final [OF assms(1)] run_reqs_final [OF a(1,3,2)] assms(5) by simp
qed

section \<open>A concrete live apply\<close>

text \<open>A master whose dialer moves while another goes away.\<close>

definition live_out :: "string \<Rightarrow> string \<Rightarrow> int \<Rightarrow> json" where
  "live_out t via n =
     jobj [(''tag'', JStr t), (''port'', JNum n), (''streamSettings'', jobj [(''sockopt'', jobj [(''dialerProxy'', JStr via)])])]"

definition live_in :: "string \<Rightarrow> string list \<Rightarrow> json" where
  "live_in t users =
     jobj [(''tag'', JStr t), (''settings'', jobj [(''clients'', JArr (map (\<lambda>u. jobj [(''id'', JStr u)]) users))])]"

definition live_demo_old :: json where
  "live_demo_old =
     jobj [(''log'', jobj []), (''inbounds'', JArr [live_in ''in-a'' [''u1'']]),
       (''outbounds'', JArr [live_out ''block'' [] 0, live_out ''m'' ''dialer-m'' 1, live_out ''dialer-m'' [] 1,
          live_out ''n'' ''dialer-n'' 2, live_out ''dialer-n'' [] 2]),
       (''routing'', jobj [(''rules'', JArr [])])]"

definition live_demo_new :: json where
  "live_demo_new =
     jobj [(''log'', jobj []), (''inbounds'', JArr [live_in ''in-a'' [''u1'', ''u2''], live_in ''in-b'' []]),
       (''outbounds'', JArr [live_out ''block'' [] 0, live_out ''m'' ''dialer-m'' 1, live_out ''dialer-m'' [] 7]),
       (''routing'', jobj [(''rules'', JArr [JNull])])]"

definition live_demo_proc :: xproc where
  "live_demo_proc =
     (case parseLiveConfig live_demo_old of
        Inr lc \<Rightarrow> \<lparr>xp_outs = lc_outbounds lc, xp_ins = lc_inbounds lc, xp_rules = lc_routing lc\<rparr>
      | Inl _ \<Rightarrow> \<lparr>xp_outs = [], xp_ins = [], xp_rules = None\<rparr>)"

abbreviation live_demo_from :: live_config where "live_demo_from \<equiv> projr (parseLiveConfig live_demo_old)"
abbreviation live_demo_to :: live_config where "live_demo_to \<equiv> projr (parseLiveConfig live_demo_new)"

definition live_demo_run :: "xproc list \<times> bool" where
  "live_demo_run = applyLive xproc_api (\<lambda>_. True) live_demo_old live_demo_new live_demo_proc"

lemma live_demo_parses: "parseLiveConfig live_demo_old = Inr live_demo_from" "parseLiveConfig live_demo_new = Inr live_demo_to"
  by code_simp+

lemma live_demo_ok: "sections_present live_demo_new" "\<not> lp_restart (planLive live_demo_from live_demo_to)"
  by code_simp+

lemma live_demo_view: "xproc_view live_demo_proc = config_view live_demo_from"
  by (subst live_demo_proc_def, subst live_demo_parses(1)) (simp add: xproc_view_def config_view_def)

text \<open>For configs of that kind no outbound is ever present while the one it dials through is missing: not after
  any answered request, whether or not the apply gets to the end.\<close>

lemma live_apply_no_dangling:
  assumes "xray_api view_of api" and "parseLiveConfig running = Inr old" and "parseLiveConfig cfg = Inr want"
    and "sections_present cfg" and "view_of proc = config_view old"
    and "closed_config old" and "closed_config want" and "one_hop old want" and "goes_together old want"
    and "applyLive api ready running cfg proc = (qs, ok)" and "q \<in> set qs"
  shows "no_dangling (fst (view_of q))"
proof -
  have nr: "\<not> lp_restart (planLive old want)" using applyLive_restart [OF assms(2,3), of api ready proc] assms(10,11) by auto
  note a = applyLive_sends [OF assms(2-4) nr]
  have dok: "dangling_ok old want" using a(1) assms(6-9) by (simp add: dangling_ok_def)
  have "send_reqs api (run_reqs old want) proc = (qs, ok)"
    using a(4,5) [of ready proc api] assms(10,11) by (cases "ready proc \<or> plan_empty (planLive old want)") auto
  from xray_api.sent_always [OF assms(1) this, of "\<lambda>v. no_dangling (fst v)" q] run_reqs_always [OF dok a(3)] assms(5,11)
  show ?thesis by simp
qed

section \<open>Properties\<close>

text \<open>C14. When every request of a live apply is answered, the process that ran the old config runs the new
  one: the same outbounds, the same inbounds, the same routing section.\<close>

theorem live_apply_reaches_config:
  assumes "xray_api view_of api" and "parseLiveConfig running = Inr old" and "parseLiveConfig cfg = Inr want"
    and "sections_present cfg" and "view_of proc = config_view old" and "applyLive api ready running cfg proc = (qs, True)"
  shows "view_of (last (proc # qs)) = config_view want"
  using assms by (rule live_apply_final)

lemma live_apply_reaches_config_witness:
  "xproc_view (last (live_demo_proc # fst live_demo_run)) = config_view live_demo_to"
proof -
  have "snd live_demo_run" by code_simp
  then have "applyLive xproc_api (\<lambda>_. True) live_demo_old live_demo_new live_demo_proc = (fst live_demo_run, True)"
    by (simp add: live_demo_run_def prod_eq_iff)
  then show ?thesis
    by (rule live_apply_reaches_config [OF xproc.xray_api_axioms live_demo_parses live_demo_ok(1) live_demo_view])
qed

text \<open>C15. A live apply never asks for what xray would have to refuse: it removes only what is there and adds only
  what is not. So with an api that answers such requests, every plan that is not a restart is applied to
  the end.\<close>

theorem live_apply_succeeds:
  assumes "responsive_api view_of api" and "parseLiveConfig running = Inr old" and "parseLiveConfig cfg = Inr want"
    and "sections_present cfg" and "view_of proc = config_view old" and "ready proc" and "\<not> lp_restart (planLive old want)"
  shows "snd (applyLive api ready running cfg proc)"
proof -
  note a = applyLive_sends [OF assms(2-4,7)]
  obtain qs where "send_reqs api (run_reqs old want) proc = (qs, True)"
    using responsive_api.sent_all [OF assms(1), of "run_reqs old want" proc] run_reqs_posed [OF a(1,3)] assms(5) by auto
  then show ?thesis using a(4) [of ready proc api] assms(6) by simp
qed

lemma live_apply_succeeds_witness: "snd (applyLive xproc_api (\<lambda>_. True) live_demo_old live_demo_new live_demo_proc)"
  by (rule live_apply_succeeds [OF xproc.responsive_api_axioms live_demo_parses live_demo_ok(1) live_demo_view TrueI live_demo_ok(2)])

text \<open>A change that revokes a credential is never applied live: whatever a client of an inbound (a slot's own
  inbound apart) could log in with before a live plan, it can still log in with after it.\<close>

theorem live_plan_revokes_nothing:
  assumes "parseLiveConfig running = Inr old" and "parseLiveConfig cfg = Inr want" and "\<not> lp_restart (planLive old want)"
    and "map_of (lc_inbounds old) t = Some ob" and "\<not> slot_in_tag t" and "c \<in> set (inboundCredentials ob)"
  shows "\<exists>ob'. map_of (lc_inbounds want) t = Some ob' \<and> c \<in> set (inboundCredentials ob')"
proof -
  have ok: "live_ok old" "live_ok want" using assms(1,2) parsed_live_ok by blast+
  note rv = live_plan_cases(11) [OF ok assms(3)]
  have cr: "map_of (lc_creds lc) t = (if slot_in_tag t then None else map_option inboundCredentials (map_of (lc_inbounds lc) t))"
    if "live_ok lc" for lc t
    using that map_of_dfilter [of "lc_inbounds lc" "\<lambda>p. \<not> slot_in_tag (fst p)" t]
    by (auto simp: live_ok_def creds_of_def map_of_map split: option.splits)
  have "(t, inboundCredentials ob) \<in> set (lc_creds old)" using cr [OF ok(1), of t] assms(4,5) by (simp add: map_of_SomeD)
  with rv assms(6) have "c \<in> set (dget_or [] (lc_creds want) t)" by (force simp: revoked_tags_def filter_empty_conv list_ex_iff)
  with cr [OF ok(2), of t] assms(5) show ?thesis by (cases "map_of (lc_inbounds want) t") (auto simp: dget_or_def)
qed

lemma live_plan_revokes_nothing_witness:
  "\<exists>ob'. map_of (lc_inbounds live_demo_to) ''in-a'' = Some ob' \<and> ''id:u1|pw:|auth:'' \<in> set (inboundCredentials ob')"
proof -
  have i: "map_of (lc_inbounds live_demo_from) ''in-a'' = Some (live_in ''in-a'' [''u1''])" by code_simp
  have s: "\<not> slot_in_tag ''in-a''" and c: "''id:u1|pw:|auth:'' \<in> set (inboundCredentials (live_in ''in-a'' [''u1'']))" by code_simp+
  show ?thesis by (rule live_plan_revokes_nothing [OF live_demo_parses live_demo_ok(2) i s c])
qed

end
