(* ===== verification/Live_Generated.thy ===== *)
theory Live_Generated
  imports Config_Props Pool_Props Live_Props
begin

text \<open>
  The live apply on configs that \<^verbatim>\<open>Generate\<close> makes: who dials through whom in a generated config, and
  that moving xray from one to the next leaves no outbound without the one it dials through. A stored outbound
  can carry a \<^verbatim>\<open>sockopt.dialerProxy\<close> of its own, which \<^verbatim>\<open>Generate\<close> keeps unless the entry is a master; it
  can name anything, so such entries are excluded (\<open>no_own_dialers\<close>) and what one does is shown at the end.
\<close>

section \<open>Who dials through whom\<close>

definition dials_directly :: "(gen_error, object) outcome \<Rightarrow> bool" where
  "dials_directly r = (case r of Ok ob \<Rightarrow> struct_via (JObj ob) = Some [] | _ \<Rightarrow> True)"

text \<open>No stored outbound but a master's, as it is emitted, has a \<^verbatim>\<open>dialerProxy\<close> of its own.\<close>

definition no_own_dialers :: "xray_entry list \<Rightarrow> slot list \<Rightarrow> bool" where
  "no_own_dialers entries slots \<longleftrightarrow>
     list_all (\<lambda>e. e_Enabled e \<and> \<not> IsMaster e \<longrightarrow> dials_directly (gen_entry [] e)) entries \<and>
     list_all (\<lambda>s. list_all (\<lambda>m. dials_directly (gen_member s m)) (loaded_members s)) slots"

definition slots_serve :: "xray_entry list \<Rightarrow> slot list \<Rightarrow> bool" where
  "slots_serve entries slots \<longleftrightarrow>
     list_all (\<lambda>s. list_all (\<lambda>m. list_ex (\<lambda>e. e_Enabled e \<and> e_Name e = m) entries) (SlotMasters s)) slots"

lemma via_at_key:
  "struct_via (JObj (dput ''streamSettings'' (JObj (dput ''sockopt'' (JObj (dput ''dialerProxy'' (JStr t) so)) ss)) ob)) = Some t"
  by (simp add: struct_via_def struct_of_def struct_obj_def struct_str_def struct_key_def)

lemma via_set: "struct_via (JObj (setDialerProxy ob t)) = Some t"
  by (simp add: setDialerProxy_def with_sockopt_def Let_def via_at_key)

lemma no_stream_via:
  assumes "list_all (\<lambda>k. to_lower k \<noteq> to_lower ''streamSettings'') (map fst kvs)"
  shows "struct_via (JObj (dict_of kvs)) = Some []"
proof -
  have "to_lower k \<noteq> to_lower ''streamSettings''" if "k \<in> fst ` set (dict_of kvs)" for k
    using that assms by (auto simp: dict_of_keys list_all_iff)
  then have "struct_key (dict_of kvs) ''streamSettings'' = None"
    by (force simp: struct_key_def find_None_iff map_of_eq_None_iff split: option.split)
  moreover have "struct_key [] k = None" for k by (simp add: struct_key_def)
  ultimately show ?thesis by (simp add: struct_via_def struct_of_def struct_obj_def struct_str_def)
qed

lemma plain_vias [simp]:
  "struct_via (JObj (blackhole t)) = Some []" "struct_via (JObj (dialer_outbound opts i m)) = Some []"
  "struct_via (JObj (iface_outbound n)) = Some []" "ob \<in> set base_outbounds \<Longrightarrow> struct_via (JObj ob) = Some []"
proof -
  have k: "list_all (\<lambda>k. to_lower k \<noteq> to_lower ''streamSettings'') [''tag'', ''protocol'', ''settings'', ''sendThrough'']" by code_simp
  show b: "struct_via (JObj (blackhole t)) = Some []" for t unfolding blackhole_def by (rule no_stream_via) (use k in simp)
  show "struct_via (JObj (dialer_outbound opts i m)) = Some []" unfolding dialer_outbound_def by (rule no_stream_via) (use k in simp)
  have "struct_via (JObj (dict_of [(''tag'', JStr ''direct''), (''protocol'', JStr ''freedom'')])) = Some []"
    by (rule no_stream_via) (use k in simp)
  then show "ob \<in> set base_outbounds \<Longrightarrow> struct_via (JObj ob) = Some []" using b by (auto simp: base_outbounds_def)
  have "to_lower ''interface'' \<noteq> to_lower ''dialerProxy''" by code_simp
  then show "struct_via (JObj (iface_outbound n)) = Some []"
    by (simp add: iface_outbound_def struct_via_def struct_of_def struct_obj_def struct_str_def struct_key_def map_of_dict_of)
       (simp add: dict_of_def)
qed

lemma gen_entry_via:
  assumes "gen_entry idx e = Ok ob" and "IsMaster e \<or> dials_directly (gen_entry [] e)" and "struct_via (JObj ob) = Some d" "d \<noteq> []"
  shows "d = ''block'' \<or> d = DialerTag (e_Name e) \<and> map_of idx (e_Name e) \<noteq> None"
proof -
  from assms(1) obtain ob0 where ob0: "entryOutbound (e_Outbound e) (OutboundTag (e_Name e)) = Ok ob0"
    "ob = entry_wired idx e (if e_Mux e then applyMux ob0 else ob0)" by (auto simp: gen_entry_def)
  let ?ob = "if e_Mux e then applyMux ob0 else ob0"
  have "struct_via (JObj ?ob) = Some []" if "\<not> IsMaster e"
    using assms(2) that ob0(1) by (simp add: dials_directly_def gen_entry_def entry_wired_def lift_fail_def)
  then show ?thesis using assms(3,4) by (auto simp: ob0(2) entry_wired_def via_set split: if_split_asm)
qed

lemma generated_via:
  assumes "build_config ents ins sl opts = Ok c" and "no_own_dialers ents sl" and "ob \<in> set (c_outbounds c)"
    and "struct_via (JObj ob) = Some d" and "d \<noteq> []"
  obtains e where "e \<in> set ents" "e_Enabled e" "ob_tag ob = OutboundTag (e_Name e)"
    "d = ''block'' \<or> d = DialerTag (e_Name e) \<and> DialerTag (e_Name e) \<in> out_tags c"
proof -
  from assms(1) obtain eobs irs sobs ifaces haveOut where c:
    "omap (gen_entry (SlotIndexByName sl)) (filter e_Enabled ents) = Ok eobs"
    "omap (gen_slot opts) sl = Ok sobs"
    "c_outbounds c = base_outbounds @ eobs @ map iface_outbound ifaces @ concat sobs"
    by (rule build_config_Ok)
  have "ob \<notin> set (concat sobs)"
  proof
    assume "ob \<in> set (concat sobs)"
    then obtain obs where obs: "obs \<in> set sobs" "ob \<in> set obs" by auto
    obtain s where s: "s \<in> set sl" "gen_slot opts s = Ok obs" using omap_Ok_set [OF c(2) obs(1)] by blast
    then obtain ms where ms: "omap (gen_member s) (loaded_members s) = Ok ms"
      "obs = map (dialer_outbound opts (s_Index s)) (SlotMasters s) @ ms" by (auto simp: gen_slot_def)
    then consider m where "ob = dialer_outbound opts (s_Index s) m" | "ob \<in> set ms" using obs(2) by auto
    then show False
    proof cases
      case 2
      then obtain m where m: "m \<in> set (loaded_members s)" "gen_member s m = Ok ob" using omap_Ok_set [OF ms(1)] by blast
      have "dials_directly (gen_member s m)" using assms(2) s(1) m(1) by (simp add: no_own_dialers_def list_all_iff)
      with m(2) assms(4,5) show False by (simp add: dials_directly_def)
    qed (use assms(4,5) in simp)
  qed
  then have "ob \<in> set eobs" using assms(3-5) c(3) by auto
  from omap_Ok_set [OF c(1) this] obtain e where e: "e \<in> set ents" "e_Enabled e" "gen_entry (SlotIndexByName sl) e = Ok ob" by auto
  have "IsMaster e \<or> dials_directly (gen_entry [] e)" using assms(2) e(1,2) by (auto simp: no_own_dialers_def list_all_iff)
  from gen_entry_via [OF e(3) this assms(4,5)] dialer_tag_present [OF assms(1), of "e_Name e"] show ?thesis
    using that [OF e(1,2) gen_entry_tag [OF e(3)]] by blast
qed

section \<open>A generated config, parsed\<close>

lemma generated_tag:
  assumes "build_config ents ins sl opts = Ok c" "ob \<in> set (c_outbounds c)"
  shows "struct_tag (JObj ob) = Some (ob_tag ob)"
proof -
  have "ob_tag ob \<in> out_tags c" using assms(2) by (simp add: out_tags_def)
  then have "ob_tag ob \<noteq> []" unfolding build_config_tags [OF assms(1)] by (auto simp: tag_defs entry_tags_def)
  then have "map_of ob ''tag'' = Some (JStr (ob_tag ob))"
    by (cases "map_of ob ''tag''") (auto simp: ob_tag_def str_at_def as_str_def split: json.splits)
  then show ?thesis by (simp add: struct_tag_def struct_of_def struct_str_def struct_key_def)
qed

lemma config_sections:
  "map_of (config_json c) ''outbounds'' = Some (JArr (map JObj (c_outbounds c)))" "sections_present (JObj (config_json c))"
  by (simp_all add: config_json_def map_of_dict_of sections_present_def live_sections_def)

text \<open>The parsed config holds the generated outbounds by their tags, each with what it dials through.\<close>

lemma generated_live:
  assumes "build_config ents ins sl opts = Ok c" "parseLiveConfig (JObj (config_json c)) = Inr lc"
  shows "map_of (lc_outbounds lc) t = Some v \<longleftrightarrow> (\<exists>ob \<in> set (c_outbounds c). v = JObj ob \<and> ob_tag ob = t)"
    and "map_of (lc_dialerOf lc) t = Some d \<longleftrightarrow> (\<exists>ob \<in> set (c_outbounds c). ob_tag ob = t \<and> struct_via (JObj ob) = Some d)"
proof -
  obtain tg where tg: "tagged_ok (map JObj (c_outbounds c)) tg" "lc_outbounds lc = tg_objects tg" "lc_dialerOf lc = tg_dialers tg"
  proof -
    obtain cf tg where cf: "struct_of (JObj (config_json c)) = Some cf" and tg: "tagged_ok (section_items (map_of cf ''outbounds'')) tg"
        "lc_outbounds lc = tg_objects tg" "lc_dialerOf lc = tg_dialers tg"
      using assms(2) by (rule parseLiveConfig_ok)
    have "cf = config_json c" using cf by (simp add: struct_of_def)
    with tg that show ?thesis by (simp add: config_sections section_items_def)
  qed
  have tag: "struct_tag (JObj ob) = Some (ob_tag ob)" if "ob \<in> set (c_outbounds c)" for ob using generated_tag [OF assms(1) that] .
  have fwd: "\<exists>ob \<in> set (c_outbounds c). v = JObj ob \<and> ob_tag ob = t \<and> struct_via v = map_of (tg_dialers tg) t"
    if "map_of (tg_objects tg) t = Some v" for t v
  proof -
    have "v \<in> JObj ` set (c_outbounds c)" "struct_tag v = Some t" "struct_via v = map_of (tg_dialers tg) t"
      using tg(1) that by (auto simp: tagged_ok_def)
    then show ?thesis using tag by auto
  qed
  have bwd: "map_of (tg_objects tg) (ob_tag ob) = Some (JObj ob)" if "ob \<in> set (c_outbounds c)" for ob
    using tg(1) tag [OF that] that unfolding tagged_ok_def by (metis image_eqI list.set_map option.inject)
  show "map_of (lc_outbounds lc) t = Some v \<longleftrightarrow> (\<exists>ob \<in> set (c_outbounds c). v = JObj ob \<and> ob_tag ob = t)"
    using fwd bwd by (auto simp: tg(2))
  have none: "(map_of (tg_objects tg) t = None) = (map_of (tg_dialers tg) t = None)" for t using tg(1) by (simp add: tagged_ok_def)
  show "map_of (lc_dialerOf lc) t = Some d \<longleftrightarrow> (\<exists>ob \<in> set (c_outbounds c). ob_tag ob = t \<and> struct_via (JObj ob) = Some d)"
  proof
    assume "map_of (lc_dialerOf lc) t = Some d"
    then obtain v where "map_of (tg_objects tg) t = Some v" "map_of (tg_dialers tg) t = Some d" using none [of t] tg(3) by (cases "map_of (tg_objects tg) t") auto
    with fwd show "\<exists>ob \<in> set (c_outbounds c). ob_tag ob = t \<and> struct_via (JObj ob) = Some d" by force
  next
    assume "\<exists>ob \<in> set (c_outbounds c). ob_tag ob = t \<and> struct_via (JObj ob) = Some d"
    then obtain ob where "ob \<in> set (c_outbounds c)" "ob_tag ob = t" "struct_via (JObj ob) = Some d" by blast
    then show "map_of (lc_dialerOf lc) t = Some d" using fwd [OF bwd [of ob]] by (auto simp: tg(3))
  qed
qed

text \<open>One generated config, parsed: what its outbounds dial through.\<close>

definition generated_pair :: "xray_entry list \<Rightarrow> slot list \<Rightarrow> config \<Rightarrow> live_config \<Rightarrow> bool" where
  "generated_pair ents sl c lc \<longleftrightarrow>
     (\<exists>ins opts. build_config ents ins sl opts = Ok c) \<and> no_own_dialers ents sl \<and> parseLiveConfig (JObj (config_json c)) = Inr lc"

lemma via_is_entry:
  assumes "generated_pair ents sl c lc" "map_of (lc_dialerOf lc) t = Some d" "d \<noteq> []"
  obtains e where "e \<in> set ents" "e_Enabled e" "t = OutboundTag (e_Name e)"
    "d = ''block'' \<or> d = DialerTag (e_Name e)" "d \<in> out_tags c"
proof -
  obtain ins opts where b: "build_config ents ins sl opts = Ok c" and nd: "no_own_dialers ents sl" and p: "parseLiveConfig (JObj (config_json c)) = Inr lc"
    using assms(1) by (auto simp: generated_pair_def)
  obtain ob where ob: "ob \<in> set (c_outbounds c)" "ob_tag ob = t" "struct_via (JObj ob) = Some d"
    using assms(2) generated_live(2) [OF b p] by blast
  have "''block'' \<in> out_tags c" unfolding build_config_tags [OF b] by simp
  from generated_via [OF b nd ob(1,3) assms(3)] obtain e where e: "e \<in> set ents" "e_Enabled e" "ob_tag ob = OutboundTag (e_Name e)"
    "d = ''block'' \<or> d = DialerTag (e_Name e) \<and> DialerTag (e_Name e) \<in> out_tags c" by blast
  show ?thesis
    by (rule that [OF e(1,2)]) (use e(3,4) ob(2) \<open>''block'' \<in> out_tags c\<close> in auto)
qed

lemma dials_nothing:
  assumes "generated_pair ents sl c lc" "d = ''block'' \<or> d = DialerTag n"
  shows "via_of lc d = []"
proof (rule ccontr)
  assume "via_of lc d \<noteq> []"
  then obtain x where x: "map_of (lc_dialerOf lc) d = Some x" "x \<noteq> []" by (auto simp: via_of_def dget_or_def split: option.splits)
  obtain m where m: "d = OutboundTag m" using via_is_entry [OF assms(1) x] by blast
  have "OutboundTag m \<noteq> ''block''" "OutboundTag m \<noteq> DialerTag n" by (rule tag_kinds)+
  then show False using assms(2) unfolding m by blast
qed

lemma generated_present: "generated_pair ents sl c lc \<Longrightarrow> d \<in> out_tags c \<longleftrightarrow> (\<exists>v. map_of (lc_outbounds lc) d = Some v)"
  by (auto simp: generated_pair_def out_tags_def generated_live(1)) blast

lemma dialer_pairs:
  assumes "generated_pair ents sl c lc" "(t, d) \<in> set (lc_dialerOf lc)"
  shows "map_of (lc_dialerOf lc) t = Some d"
proof -
  have "dict_ok (lc_dialerOf lc)" using assms(1) parsed_live_ok by (auto simp: generated_pair_def live_ok_def)
  then show ?thesis using assms(2) by (simp add: dict_ok_distinct)
qed

lemma generated_closed:
  assumes "generated_pair ents sl c lc"
  shows "closed_config lc"
proof -
  have "map_of (lc_outbounds lc) d \<noteq> None" if td: "(t, d) \<in> set (lc_dialerOf lc)" "d \<noteq> []" for t d
    using via_is_entry [OF assms dialer_pairs [OF assms td(1)] td(2)] generated_present [OF assms, of d] by fastforce
  then show ?thesis by (auto simp: closed_config_def list_all_iff)
qed

lemma generated_one_hop:
  assumes "generated_pair es sl c old" "generated_pair es' sl' c' want"
  shows "one_hop old want"
proof -
  have "via_of old d = [] \<and> via_of want d = []" if "generated_pair x y z lc" "(t, d) \<in> set (lc_dialerOf lc)" "d \<noteq> []" for x y z lc t d
  proof -
    note g = \<open>generated_pair x y z lc\<close>
    obtain n where "d = ''block'' \<or> d = DialerTag n" using via_is_entry [OF g dialer_pairs [OF g \<open>(t, d) \<in> set (lc_dialerOf lc)\<close>] \<open>d \<noteq> []\<close>] by blast
    then show ?thesis using dials_nothing [OF assms(1)] dials_nothing [OF assms(2)] by blast
  qed
  from this [OF assms(1)] this [OF assms(2)] show ?thesis by (auto simp: one_hop_def list_all_iff)
qed

text \<open>The blackhole is the same in every generated config.\<close>

lemma generated_block: "generated_pair ents sl c lc \<Longrightarrow> map_of (lc_outbounds lc) ''block'' = Some (JObj (blackhole ''block''))"
proof -
  assume g: "generated_pair ents sl c lc"
  then obtain ins opts where b: "build_config ents ins sl opts = Ok c" and p: "parseLiveConfig (JObj (config_json c)) = Inr lc"
    by (auto simp: generated_pair_def)
  have "blackhole ''block'' \<in> set (c_outbounds c)" using b by (rule build_config_Ok) (simp add: base_outbounds_def)
  moreover have "ob_tag (blackhole ''block'') = ''block''" by (simp add: ob_tag_eq)
  ultimately show ?thesis using generated_live(1) [OF b p] by blast
qed

lemma slots_serve_tag:
  assumes "generated_pair es sl c lc" "slots_serve es sl" "DialerTag n \<in> out_tags c"
  shows "OutboundTag n \<in> out_tags c"
proof -
  obtain ins opts where b: "build_config es ins sl opts = Ok c" using assms(1) by (auto simp: generated_pair_def)
  note tags = build_config_tags [OF b]
  have dia: "take 3 (DialerTag x) = ''dia''" "take 3 (SlotMemberTag i k) \<noteq> ''dia''" for x i k by (simp_all add: tag_defs)
  have "take 3 x \<noteq> ''dia''" if "x \<in> {''block'', ''direct''} \<union> set (entry_tags es) \<union> IfaceTag ` set (iface_targets ins)" for x
    using that by (auto simp: tag_defs entry_tags_def)
  then have "DialerTag n \<in> (\<Union>s \<in> set sl. DialerTag ` set (SlotMasters s) \<union> (\<lambda>m. SlotMemberTag (s_Index s) (m_Key m)) ` set (loaded_members s))"
    using assms(3) dia(1) [of n] unfolding tags by blast
  then obtain s m where s: "s \<in> set sl" "m \<in> set (SlotMasters s)" "DialerTag n = DialerTag m"
    using dia(1) [of n] dia(2) by (metis (no_types, lifting) UN_E UnE imageE)
  then obtain e where "e \<in> set es" "e_Enabled e" "e_Name e = m" using assms(2) by (auto simp: slots_serve_def list_all_iff list_ex_iff)
  moreover have "OutboundTag n = OutboundTag m" using s(3) by (simp add: DialerTag_def OutboundTag_def)
  ultimately show ?thesis unfolding tags by (force simp: entry_tags_def)
qed

lemma generated_together:
  assumes "generated_pair es sl c old" "generated_pair es' sl' c' want" "slots_serve es' sl'"
  shows "goes_together old want"
proof -
  have "map_of (lc_outbounds want) t \<noteq> None \<or> map_of (lc_outbounds want) d = None \<or> map_of (lc_outbounds want) d = map_of (lc_outbounds old) d"
    if td: "(t, d) \<in> set (lc_dialerOf old)" "d \<noteq> []" for t d
  proof -
    obtain e where "e \<in> set es" "e_Enabled e" and e: "t = OutboundTag (e_Name e)" "d = ''block'' \<or> d = DialerTag (e_Name e)"
        and "d \<in> out_tags c"
      by (rule via_is_entry [OF assms(1) dialer_pairs [OF assms(1) td(1)] td(2)])
    show ?thesis
    proof (cases "d = ''block''")
      case True
      then show ?thesis using generated_block [OF assms(1)] generated_block [OF assms(2)] by simp
    next
      case False
      then have "d = DialerTag (e_Name e)" using e(2) by blast
      then show ?thesis
        using slots_serve_tag [OF assms(2,3), of "e_Name e"] generated_present [OF assms(2), of d] generated_present [OF assms(2), of t]
        unfolding e(1) by blast
    qed
  qed
  then show ?thesis by (auto simp: goes_together_def list_all_iff)
qed

lemma no_own_dialers_cong: "set es = set es' \<Longrightarrow> set sl = set sl' \<Longrightarrow> no_own_dialers es sl = no_own_dialers es' sl'"
  by (simp add: no_own_dialers_def list_all_iff)

lemma slots_serve_cong: "set es = set es' \<Longrightarrow> set sl = set sl' \<Longrightarrow> slots_serve es sl = slots_serve es' sl'"
  by (simp add: slots_serve_def list_all_iff list_ex_iff)

text \<open>What \<^verbatim>\<open>Generate\<close> makes, parsed, from its inputs in the order in which it takes them.\<close>

lemma generated_parsed:
  assumes "Generate es ins sl opts = Ok cf" "no_own_dialers es sl" "parseLiveConfig (JObj cf) = Inr lc"
  obtains es' sl' c where "generated_pair es' sl' c lc" "cf = config_json c" "set es' = set es" "set sl' = set sl"
proof -
  obtain c where c: "gen_config es ins sl opts = Ok c" "cf = config_json c" using assms(1) by (auto simp: Generate_def)
  from c(1) obtain es' ins' sl' where b: "build_config es' ins' sl' opts = Ok c" "set es' = set es" "set sl' = set sl"
    by (rule gen_config_build)
  have "generated_pair es' sl' c lc"
    using b assms(2,3) c(2) no_own_dialers_cong [OF b(2,3)] by (auto simp: generated_pair_def)
  then show ?thesis using that c(2) b(2,3) by blast
qed

section \<open>Resolved slots serve enabled entries\<close>

lemma resolved_slots_serve: "slots_serve entries (fst (resolveDialerSlots d s entries now))"
proof -
  let ?r = "resolve_pools d s entries now"
  obtain out where out: "out = index_pools (su_slotIdx s) (rs_slots ?r)"
    "fst (resolveDialerSlots d s entries now) =
      pickSlots (su_scores s) (su_chain s) now (go_sort (\<lambda>a b. s_Index a < s_Index b) out) (su_loaded s)"
    by (rule resolved_slots)
  note f = index_pools_facts [where had = "su_slotIdx s" and slots = "rs_slots ?r", folded out(1)]
  have m: "mset (concat (map SlotMasters (rs_slots ?r))) = mset (map e_Name (enabled_masters entries))"
    using resolve_pools_ok [of entries d s now] by (simp add: resolving_ok_def)
  have served: "\<exists>e \<in> set entries. e_Enabled e \<and> e_Name e = n" if sl: "sl \<in> set out" "n \<in> set (SlotMasters sl)" for sl n
  proof -
    from f(4) [OF sl(1)] obtain i sl0 where "sl0 \<in> set (rs_slots ?r)" "sl = sl0\<lparr>s_Index := i\<rparr>" by blast
    then have "n \<in> set (concat (map SlotMasters (rs_slots ?r)))" using sl(2) by (auto simp: SlotMasters_def)
    then have "n \<in> set (map e_Name (enabled_masters entries))" using m by (metis set_mset_mset)
    then show ?thesis by (auto simp: enabled_masters_def)
  qed
  have masters: "map SlotMasters (pickSlots sc ch now xs prev) = map SlotMasters xs" for sc ch xs prev by (simp add: pickSlots_def)
  have "SlotMasters ` set (fst (resolveDialerSlots d s entries now)) = SlotMasters ` set out"
    unfolding out(2) set_map [symmetric] masters by simp
  then have from_out: "\<exists>sl' \<in> set out. SlotMasters sl' = SlotMasters sl" if "sl \<in> set (fst (resolveDialerSlots d s entries now))" for sl
  proof -
    have "SlotMasters sl \<in> SlotMasters ` set out" using imageI [OF that, of SlotMasters] \<open>_ = SlotMasters ` set out\<close> by simp
    then show ?thesis by force
  qed
  have "\<exists>e \<in> set entries. e_Enabled e \<and> e_Name e = n"
    if sl: "sl \<in> set (fst (resolveDialerSlots d s entries now))" "n \<in> set (SlotMasters sl)" for sl n
  proof -
    obtain sl' where "sl' \<in> set out" "SlotMasters sl' = SlotMasters sl" using from_out [OF sl(1)] by blast
    then show ?thesis using served [of sl' n] sl(2) by simp
  qed
  then show ?thesis by (auto simp: slots_serve_def list_all_iff list_ex_iff)
qed

section \<open>Properties\<close>

text \<open>C13. Xray is moved live from one generated config to the next, made from other entries, inbounds and the slots that
  their dialers resolve to, where no stored outbound but a master's has a \<^verbatim>\<open>sockopt.dialerProxy\<close> of its own. Then after
  every answered request, and whether or not the apply gets to the end, no outbound is present while the outbound it
  dials through is missing; so no master can dial around its dialer.\<close>

theorem live_apply_never_dangles:
  assumes "xray_api view_of api"
    and "Generate es ins sl opts = Ok running" and "no_own_dialers es sl"
    and "Generate es' ins' (fst (resolveDialerSlots d s es' now)) opts' = Ok cfg" and "no_own_dialers es' (fst (resolveDialerSlots d s es' now))"
    and "parseLiveConfig (JObj running) = Inr old" and "view_of proc = config_view old"
    and "applyLive api ready (JObj running) (JObj cfg) proc = (qs, ok)" and "q \<in> set qs"
  shows "no_dangling (fst (view_of q))"
proof -
  let ?sl' = "fst (resolveDialerSlots d s es' now)"
  obtain es1 sl1 c where c: "generated_pair es1 sl1 c old" and "running = config_json c" "set es1 = set es" "set sl1 = set sl"
    by (rule generated_parsed [OF assms(2,3,6)])
  obtain want where w: "parseLiveConfig (JObj cfg) = Inr want"
    using assms(6,8,9) by (auto simp: applyLive_def split: sum.splits)
  obtain es2 sl2 c' where c': "generated_pair es2 sl2 c' want" "cfg = config_json c'" "set es2 = set es'" "set sl2 = set ?sl'"
    by (rule generated_parsed [OF assms(4,5) w])
  have "slots_serve es2 sl2" using resolved_slots_serve [of es' d s now] slots_serve_cong [OF c'(3,4)] by simp
  then have "goes_together old want" by (rule generated_together [OF c c'(1)])
  then show ?thesis
    using live_apply_no_dangling [OF assms(1,6) w _ assms(7) generated_closed [OF c] generated_closed [OF c'(1)] generated_one_hop [OF c c'(1)]
        _ assms(8,9)] config_sections(2) [of c'] by (simp add: c'(2))
qed

definition live_gen_old :: object where
  "live_gen_old = (case Generate [Config_Props.demo_member, demo_master] [] [] demo_opts of Ok cf \<Rightarrow> cf | _ \<Rightarrow> [])"

definition live_gen_new :: object where
  "live_gen_new = (case Generate [Config_Props.demo_member] [] [] demo_opts of Ok cf \<Rightarrow> cf | _ \<Rightarrow> [])"

definition live_gen_from :: live_config where
  "live_gen_from = (case parseLiveConfig (JObj live_gen_old) of Inr lc \<Rightarrow> lc
     | Inl _ \<Rightarrow> \<lparr>lc_fixed = [], lc_inbounds = [], lc_outbounds = [], lc_dialerOf = [], lc_creds = [], lc_firstOut = [], lc_routing = None\<rparr>)"

definition live_gen_to :: live_config where
  "live_gen_to = (case parseLiveConfig (JObj live_gen_new) of Inr lc \<Rightarrow> lc | Inl _ \<Rightarrow> live_gen_from)"

definition live_gen_proc :: xproc where
  "live_gen_proc = \<lparr>xp_outs = lc_outbounds live_gen_from, xp_ins = lc_inbounds live_gen_from, xp_rules = lc_routing live_gen_from\<rparr>"

text \<open>A master that dials through the blackhole is taken away.\<close>

definition live_gen_run :: "xproc list \<times> bool" where
  "live_gen_run = applyLive xproc_api (\<lambda>_. True) (JObj live_gen_old) (JObj live_gen_new) live_gen_proc"

lemma port_texts [code_unfold]: "int ApiPort = 11932" "nat_str MetricsPort = ''11933''"
proof -
  show "int ApiPort = 11932" by (simp add: ApiPort_def)
  have "digit 1 = CHR ''1''" "digit 9 = CHR ''9''" "digit 3 = CHR ''3''" by code_simp+
  then show "nat_str MetricsPort = ''11933''" by (simp add: MetricsPort_def nat_str.simps)
qed

lemma live_gen_made:
  "Generate [Config_Props.demo_member, demo_master] [] [] demo_opts = Ok live_gen_old"
  "Generate [Config_Props.demo_member] [] (fst (resolveDialerSlots pool_demo_db pool_demo_sup [Config_Props.demo_member] 0)) demo_opts = Ok live_gen_new"
  "parseLiveConfig (JObj live_gen_old) = Inr live_gen_from" "parseLiveConfig (JObj live_gen_new) = Inr live_gen_to"
  by code_simp+

lemma live_gen_plan:
  "planLive live_gen_from live_gen_to = \<lparr>lp_restart = False, lp_why = [], lp_rmOut = [''out-m''], lp_addOut = [], lp_rmIn = [], lp_addIn = [],
     lp_routing = False, lp_dialerOf = [(''block'', []), (''direct'', []), (''out-a'', []), (''out-m'', ''block'')]\<rparr>"
  by code_simp

lemma live_gen_reqs:
  "length (fst (applyLiveLocked xproc_api \<lparr>lp_restart = False, lp_why = [], lp_rmOut = [''out-m''], lp_addOut = [], lp_rmIn = [], lp_addIn = [],
     lp_routing = False, lp_dialerOf = [(''block'', []), (''direct'', []), (''out-a'', []), (''out-m'', ''block'')]\<rparr> (JObj live_gen_new) live_gen_proc)) = 1"
  by code_simp

lemma live_apply_never_dangles_witness:
  "list_all (\<lambda>q. no_dangling (map_of (xp_outs q))) (fst live_gen_run) \<and> length (fst live_gen_run) = 1"
proof -
  let ?sl = "fst (resolveDialerSlots pool_demo_db pool_demo_sup [Config_Props.demo_member] 0)"
  have nd: "no_own_dialers [Config_Props.demo_member, demo_master] []" "no_own_dialers [Config_Props.demo_member] ?sl" by code_simp+
  have v: "xproc_view live_gen_proc = config_view live_gen_from" by (simp add: live_gen_proc_def xproc_view_def config_view_def)
  have r: "applyLive xproc_api (\<lambda>_. True) (JObj live_gen_old) (JObj live_gen_new) live_gen_proc = (fst live_gen_run, snd live_gen_run)"
    by (simp add: live_gen_run_def)
  have "length (fst live_gen_run) = 1"
    using live_gen_reqs by (simp add: live_gen_run_def applyLive_def live_gen_made live_gen_plan plan_empty_def)
  then show ?thesis
    using live_apply_never_dangles [OF xproc.xray_api_axioms live_gen_made(1) nd(1) live_gen_made(2) nd(2) live_gen_made(3) v r]
    by (simp add: list_all_iff xproc_view_def)
qed

text \<open>An entry that is no master keeps the \<^verbatim>\<open>dialerProxy\<close> it was stored with, which can name an outbound that no
  config has.\<close>

definition own_dialer_entry :: xray_entry where
  "own_dialer_entry = Config_Props.demo_member\<lparr>e_Outbound := Some (jobj [(''protocol'', JStr ''vless''),
     (''streamSettings'', jobj [(''sockopt'', jobj [(''dialerProxy'', JStr ''nowhere'')])])])\<rparr>"

definition own_dialer_config :: live_config where
  "own_dialer_config = (case Generate [own_dialer_entry] [] [] demo_opts of
     Ok cf \<Rightarrow> (case parseLiveConfig (JObj cf) of Inr lc \<Rightarrow> lc | Inl _ \<Rightarrow> live_gen_from) | _ \<Rightarrow> live_gen_from)"

lemma own_dialer_dangles: "\<not> no_dangling (map_of (lc_outbounds own_dialer_config))"
proof -
  have "map_option struct_via (map_of (lc_outbounds own_dialer_config) ''out-a'') = Some (Some ''nowhere'')"
    "map_of (lc_outbounds own_dialer_config) ''nowhere'' = None" by code_simp+
  then show ?thesis unfolding no_dangling_def by auto
qed

end
