(* ===== verification/Reconcile.thy ===== *)
theory Reconcile
  imports Live_Props Config_Gen
begin

text \<open>
  The supervisor of \<^verbatim>\<open>daemon/xray.go\<close> with the validation of
  \<^verbatim>\<open>daemon/validate.go\<close>: from the stored rows to the running xray. Outside the
  repository are the processes (a type of its own), what starting one from a config gives, its api, and
  the verdict of \<^verbatim>\<open>xray run -test\<close>; these are parameters. The watchdog is seen through
  whether its loop is started and whether a child is up; a child that ended comes back by a step of its
  own. Rendering a generator error as text is a parameter, logging and closing sockets are left out.
\<close>

section \<open>Validation\<close>

text \<open>\<^verbatim>\<open>xray run -test\<close> accepts the config, prints why not, or gives no verdict (no binary, a
  time-out), which counts as accepted.\<close>

datatype test_run = TestPassed | TestFailed string | TestUnknown

text \<open>The last line of the output, from behind the name of the tested file when it names it.\<close>

definition xrayReason :: "string \<Rightarrow> string \<Rightarrow> string" where
  "xrayReason out file =
     (let line = trim_space (last (split_on (CHR 0x0A) (trim_space out)))
      in case cut (file @ ''] > '') line of Some (_, rest) \<Rightarrow> rest | None \<Rightarrow> line)"

definition testConfig :: "(json \<Rightarrow> test_run) \<Rightarrow> string \<Rightarrow> json \<Rightarrow> string option" where
  "testConfig run file cfg = (case run cfg of TestFailed out \<Rightarrow> Some (xrayReason out file) | _ \<Rightarrow> None)"

text \<open>The first \<^verbatim>\<open>(?:inbound|outbound) config with tag (\S+)\<close> in xray's error.\<close>

definition re_space :: "char \<Rightarrow> bool" where
  "re_space c \<longleftrightarrow> c \<in> {CHR 0x09, CHR 0x0A, CHR 0x0C, CHR 0x0D, CHR '' ''}"

definition word_after :: "string \<Rightarrow> string \<Rightarrow> string option" where
  "word_after w s =
     (let t = takeWhile (\<lambda>c. \<not> re_space c) (drop (length w) s)
      in if take (length w) s = w \<and> t \<noteq> [] then Some t else None)"

definition bad_object_at :: "string \<Rightarrow> string option" where
  "bad_object_at s =
     (case word_after ''inbound config with tag '' s of
        Some t \<Rightarrow> Some t
      | None \<Rightarrow> word_after ''outbound config with tag '' s)"

fun find_bad_object :: "string \<Rightarrow> string option" where
  "find_bad_object [] = None"
| "find_bad_object (c # s) = (case bad_object_at (c # s) of Some t \<Rightarrow> Some t | None \<Rightarrow> find_bad_object s)"

definition rejectedTag :: "string \<Rightarrow> string" where
  "rejectedTag err = (case find_bad_object err of Some t \<Rightarrow> t | None \<Rightarrow> [])"

section \<open>The supervisor and what it drives\<close>

record 'p box =
  bx_db :: db
  bx_sup :: sup
  bx_running :: "json option"
  bx_file :: "json option"
  bx_started :: bool
  bx_proc :: "'p option"
  bx_cfgErr :: string
  bx_restarts :: nat
  bx_liveApplies :: nat
  bx_healthChecked :: bool
  bx_healthOK :: bool
  bx_healthFailures :: nat
  bx_healthRestarts :: nat

text \<open>What stays the same: the verdict on a config, the process a config starts, the paths and flags of the
  generated config, the text of a generator error.\<close>

record 'p world =
  w_test :: "json \<Rightarrow> test_run"
  w_testFile :: string
  w_spawn :: "json \<Rightarrow> 'p"
  w_AccessLog :: string
  w_ErrorLog :: string
  w_ProbeURL :: string
  w_sockCut :: bool
  w_genText :: "gen_error \<Rightarrow> string"

text \<open>What may differ from one reconcile to the next: the time, whether writing the config file works, and how
  the api answers.\<close>

record 'p turn =
  tn_now :: time
  tn_writes :: bool
  tn_api :: "api_req \<Rightarrow> 'p \<Rightarrow> 'p option"
  tn_ready :: "'p \<Rightarrow> bool"

datatype recon_result = Applied | Refused string | Panicked

section \<open>The watchdog, seen from the supervisor\<close>

definition wd_start :: "'p box \<Rightarrow> 'p box" where
  "wd_start b = (if bx_started b then b else b\<lparr>bx_started := True, bx_proc := None\<rparr>)"

definition wd_stop :: "'p box \<Rightarrow> 'p box" where
  "wd_stop b = b\<lparr>bx_started := False, bx_proc := None\<rparr>"

definition wd_restart :: "'p box \<Rightarrow> 'p box" where
  "wd_restart b = b\<lparr>bx_proc := None\<rparr>"

text \<open>The loop (re)starts the child from the config file; without one it tries again later.\<close>

definition wd_respawn :: "'p world \<Rightarrow> 'p box \<Rightarrow> 'p box" where
  "wd_respawn w b =
     (if bx_started b \<and> bx_proc b = None then b\<lparr>bx_proc := map_option (w_spawn w) (bx_file b)\<rparr> else b)"

section \<open>Applying a config\<close>

definition apply_live :: "'p turn \<Rightarrow> json \<Rightarrow> json \<Rightarrow> 'p box \<Rightarrow> ('p box \<times> bool)" where
  "apply_live tn running cfg b =
     (case bx_proc b of
        Some p \<Rightarrow>
          (case applyLive (tn_api tn) (tn_ready tn) running cfg p of
             (qs, ok) \<Rightarrow> (b\<lparr>bx_proc := Some (last (p # qs)), bx_liveApplies := bx_liveApplies b + (if ok \<and> qs \<noteq> [] then 1 else 0)\<rparr>, ok))
      | None \<Rightarrow>
          (case (parseLiveConfig running, parseLiveConfig cfg) of
             (Inr old, Inr new) \<Rightarrow> (b, plan_empty (planLive old new))
           | _ \<Rightarrow> (b, False)))"

definition applyLocked :: "'p turn \<Rightarrow> inbound list \<Rightarrow> slot list \<Rightarrow> json \<Rightarrow> 'p box \<Rightarrow> recon_result \<times> 'p box" where
  "applyLocked tn inbounds slots cfg b =
     (let loaded = (\<lambda>sls c b. b\<lparr>bx_running := c, bx_sup := (bx_sup b)\<lparr>su_loaded := sls\<rparr>\<rparr>)
      in if \<not> routable inbounds then (Applied, loaded [] None (if bx_started b then wd_stop b else b))
         else if bx_started b \<and> bx_running b = Some cfg then (Applied, loaded slots (Some cfg) b)
         else if \<not> tn_writes tn then (Refused ''write config'', b)
         else
           (let b1 = b\<lparr>bx_file := Some cfg\<rparr>
            in if \<not> bx_started b1 then (Applied, loaded slots (Some cfg) (wd_start b1))
               else
                 (let (b2, ok) = (case bx_running b1 of Some r \<Rightarrow> apply_live tn r cfg b1 | None \<Rightarrow> (b1, False))
                  in if ok then (Applied, loaded slots (Some cfg) b2)
                     else (Applied, loaded slots (Some cfg) (wd_restart (b2\<lparr>bx_restarts := Suc (bx_restarts b2)\<rparr>))))))"

section \<open>Reconciling\<close>

definition ListInbounds :: "db \<Rightarrow> inbound list" where
  "ListInbounds d = sort_key in_Name (db_inbounds d)"

definition UpdateInbound :: "inbound \<Rightarrow> db \<Rightarrow> db" where
  "UpdateInbound i d = d\<lparr>db_inbounds := update_where (\<lambda>x. in_ID x = in_ID i) (\<lambda>_. i) (db_inbounds d)\<rparr>"

definition opts_of :: "'p world \<Rightarrow> db \<Rightarrow> gen_options" where
  "opts_of w d = \<lparr>o_AccessLog = w_AccessLog w, o_ErrorLog = w_ErrorLog w, o_LogLevel = LogLevel d,
     o_ProbeInterval = itoa (ProbeIntervalSec d) @ ''s'', o_ProbeURL = w_ProbeURL w, o_DialerSource = w_sockCut w\<rparr>"

definition sup_of :: "'p box \<Rightarrow> sup \<Rightarrow> 'p box" where
  "sup_of b s = b\<lparr>bx_sup := s\<rparr>"

text \<open>Generate, have xray check the config, leave a refused pool member out and try again; \<open>n\<close> rejections are
  left.\<close>

fun reconcile_loop :: "'p world \<Rightarrow> 'p turn \<Rightarrow> xray_entry list \<Rightarrow> inbound list \<Rightarrow> nat \<Rightarrow> 'p box \<Rightarrow> recon_result \<times> 'p box" where
  "reconcile_loop w tn entries inbounds n b =
     (let (slots, s) = resolveDialerSlots (bx_db b) (bx_sup b) entries (tn_now tn); b1 = sup_of b s
      in case Generate entries inbounds slots (opts_of w (bx_db b)) of
           Panic \<Rightarrow> (Panicked, b1)
         | Fail e \<Rightarrow> (Refused (w_genText w e), b1\<lparr>bx_cfgErr := w_genText w e\<rparr>)
         | Ok cf \<Rightarrow>
             if bx_running b1 = Some (JObj cf) then applyLocked tn inbounds slots (JObj cf) b1
             else
               (case testConfig (w_test w) (w_testFile w) (JObj cf) of
                  None \<Rightarrow> applyLocked tn inbounds slots (JObj cf) (b1\<lparr>bx_cfgErr := []\<rparr>)
                | Some verr \<Rightarrow>
                    (case (memberForTag slots (rejectedTag verr), n) of
                       (Some m, Suc k) \<Rightarrow>
                         reconcile_loop w tn entries inbounds k
                           (sup_of b1 (reject (m_Key m) \<lparr>rj_outbound = m_Outbound m, rj_reason = verr\<rparr> (bx_sup b1)))
                     | _ \<Rightarrow>
                         (let msg = ''xray rejects the new config, keeping the running one: '' @ verr
                          in (Refused msg, b1\<lparr>bx_cfgErr := msg\<rparr>)))))"

declare reconcile_loop.simps [simp del]

definition maxRejects :: nat where "maxRejects = 16"

definition with_ports :: "'p box \<Rightarrow> inbound list \<times> 'p box" where
  "with_ports b =
     (case AssignInboundPorts (ListInbounds (bx_db b)) of (ins, changed) \<Rightarrow>
        (ins, b\<lparr>bx_db := fold (\<lambda>i. UpdateInbound (ins ! i)) changed (bx_db b)\<rparr>))"

definition with_users :: "db \<Rightarrow> inbound list \<Rightarrow> inbound list" where
  "with_users d ins = map (\<lambda>i. i\<lparr>in_Users := activeUsers d (in_ID i)\<rparr>) ins"

definition reconcileOnceLocked :: "'p world \<Rightarrow> 'p turn \<Rightarrow> 'p box \<Rightarrow> recon_result \<times> 'p box" where
  "reconcileOnceLocked w tn b =
     (let entries = ListEntries (bx_db b); (ins, b1) = with_ports b
      in reconcile_loop w tn entries (with_users (bx_db b1) ins) maxRejects b1)"

definition startLastGoodLocked :: "'p box \<Rightarrow> 'p box" where
  "startLastGoodLocked b =
     (if bx_started b \<or> \<not> routable (ListInbounds (bx_db b)) then b
      else (case bx_file b of
              None \<Rightarrow> b
            | Some c \<Rightarrow> (wd_start b)\<lparr>bx_running := Some c, bx_sup := (bx_sup b)\<lparr>su_loaded := []\<rparr>\<rparr>))"

definition Reconcile :: "'p world \<Rightarrow> 'p turn \<Rightarrow> 'p box \<Rightarrow> recon_result \<times> 'p box" where
  "Reconcile w tn b =
     (case reconcileOnceLocked w tn b of
        (Refused e, b') \<Rightarrow> (Refused e, startLastGoodLocked b')
      | r \<Rightarrow> r)"

section \<open>Restarts and health\<close>

definition RestartXray :: "'p world \<Rightarrow> 'p turn \<Rightarrow> 'p box \<Rightarrow> recon_result \<times> 'p box" where
  "RestartXray w tn b =
     Reconcile w tn ((wd_stop b)\<lparr>bx_healthChecked := False, bx_healthOK := False, bx_healthFailures := 0,
       bx_running := None, bx_sup := (bx_sup b)\<lparr>su_loaded := []\<rparr>\<rparr>)"

definition xrayHealthFailureLimit :: nat where "xrayHealthFailureLimit = 3"

definition recordHealthResult :: "bool \<Rightarrow> 'p box \<Rightarrow> 'p box \<times> bool" where
  "recordHealthResult ok b =
     (if ok then (b\<lparr>bx_healthChecked := True, bx_healthOK := True, bx_healthFailures := 0\<rparr>, False)
      else (b\<lparr>bx_healthChecked := True, bx_healthOK := False, bx_healthFailures := Suc (bx_healthFailures b)\<rparr>,
            Suc (bx_healthFailures b) \<ge> xrayHealthFailureLimit))"

definition checkXrayHealth :: "'p world \<Rightarrow> 'p turn \<Rightarrow> bool \<Rightarrow> 'p box \<Rightarrow> 'p box" where
  "checkXrayHealth w tn answers b =
     (if bx_proc b = None then (if bx_started b then b else snd (Reconcile w tn b))
      else (case recordHealthResult answers b of
              (b1, reached) \<Rightarrow>
                if \<not> reached then b1
                else (case RestartXray w tn b1 of
                        (r, b2) \<Rightarrow> b2\<lparr>bx_healthFailures := 0, bx_healthRestarts := Suc (bx_healthRestarts b2),
                          bx_healthOK := False, bx_healthChecked := (if r = Applied then False else bx_healthChecked b2)\<rparr>)))"

definition DownReason :: "string \<Rightarrow> 'p box \<Rightarrow> string" where
  "DownReason lastErr b =
     (if bx_started b then (if lastErr = [] then ''starting'' else ''restarting after: '' @ lastErr)
      else if bx_cfgErr b \<noteq> [] then bx_cfgErr b @ '' (retrying every 30s)''
      else if lastErr \<noteq> [] then lastErr
      else ''no enabled inbound with a port (add or enable one)'')"

text \<open>What can happen to a box: a row or the supervisor's knowledge changes, a reconcile, a forced restart, a
  health check, the child ends, the watchdog starts it again.\<close>

datatype 'p event =
    EvChange db sup
  | EvReconcile "'p turn"
  | EvRestart "'p turn"
  | EvHealth "'p turn" bool
  | EvExit
  | EvRespawn

fun box_step :: "'p world \<Rightarrow> 'p event \<Rightarrow> 'p box \<Rightarrow> 'p box" where
  "box_step w (EvChange d s) b = b\<lparr>bx_db := d, bx_sup := s\<rparr>"
| "box_step w (EvReconcile tn) b = snd (Reconcile w tn b)"
| "box_step w (EvRestart tn) b = snd (RestartXray w tn b)"
| "box_step w (EvHealth tn answers) b = checkXrayHealth w tn answers b"
| "box_step w EvExit b = b\<lparr>bx_proc := None\<rparr>"
| "box_step w EvRespawn b = wd_respawn w b"

end
