(* ===== verification/Reconcile_Props.thy ===== *)
theory Reconcile_Props
  imports Reconcile
begin

text \<open>
  What the supervisor promises: the config it believes to be running is the one in the config file, xray
  accepted it, and the running process is as that config describes, whatever sequence of changes,
  reconciles, restarts, health checks and exits of the child led there; and a refused config leaves the
  running xray alone.
\<close>

section \<open>The invariant of a box\<close>

definition valid_for :: "'p world \<Rightarrow> json \<Rightarrow> bool" where
  "valid_for w c \<longleftrightarrow> testConfig (w_test w) (w_testFile w) c = None"

definition runs_as :: "('p \<Rightarrow> view) \<Rightarrow> 'p \<Rightarrow> json \<Rightarrow> bool" where
  "runs_as view_of p c \<longleftrightarrow> (\<forall>lc. parseLiveConfig c = Inr lc \<longrightarrow> view_of p = config_view lc)"

definition box_ok :: "'p world \<Rightarrow> ('p \<Rightarrow> view) \<Rightarrow> 'p box \<Rightarrow> bool" where
  "box_ok w view_of b \<longleftrightarrow>
     pred_option (valid_for w) (bx_file b) \<and>
     pred_option (\<lambda>c. bx_file b = Some c) (bx_running b) \<and>
     (bx_started b \<longrightarrow> bx_running b \<noteq> None) \<and>
     pred_option (\<lambda>p. bx_started b \<and> pred_option (runs_as view_of p) (bx_running b)) (bx_proc b)"

text \<open>The two things the supervisor relies on: a child is started as its config describes, and the api does
  what it answers.\<close>

definition spawns_as :: "'p world \<Rightarrow> ('p \<Rightarrow> view) \<Rightarrow> bool" where
  "spawns_as w view_of \<longleftrightarrow> (\<forall>c. runs_as view_of (w_spawn w c) c)"

fun event_ok :: "('p \<Rightarrow> view) \<Rightarrow> 'p event \<Rightarrow> bool" where
  "event_ok view_of (EvReconcile tn) = xray_api view_of (tn_api tn)"
| "event_ok view_of (EvRestart tn) = xray_api view_of (tn_api tn)"
| "event_ok view_of (EvHealth tn answers) = xray_api view_of (tn_api tn)"
| "event_ok view_of _ = True"

lemma box_ok_ext:
  assumes "box_ok w v b" "bx_file b' = bx_file b" "bx_running b' = bx_running b" "bx_started b' = bx_started b" "bx_proc b' = bx_proc b"
  shows "box_ok w v b'"
  using assms by (simp add: box_ok_def)

lemma Generate_sections: "Generate es ins sls opts = Ok cf \<Longrightarrow> sections_present (JObj cf)"
  by (auto simp: Generate_def config_json_def sections_present_def live_sections_def map_of_dict_of)

lemma apply_live_ok:
  assumes "xray_api v (tn_api tn)" "sections_present cfg" "apply_live tn r cfg b = (b', ok)" "bx_proc b = Some p" "runs_as v p r" "ok"
  shows "\<exists>q. bx_proc b' = Some q \<and> runs_as v q cfg"
proof -
  obtain qs where qs: "applyLive (tn_api tn) (tn_ready tn) r cfg p = (qs, True)" "bx_proc b' = Some (last (p # qs))"
    using assms(3,4,6) by (auto simp: apply_live_def split: prod.splits)
  obtain old want where pr: "parseLiveConfig r = Inr old" "parseLiveConfig cfg = Inr want"
    using qs(1) by (auto simp: applyLive_def split: sum.splits)
  have "v (last (p # qs)) = config_view want"
    using live_apply_final [OF assms(1) pr assms(2) _ qs(1)] assms(5) pr(1) by (simp add: runs_as_def)
  with qs(2) pr(2) show ?thesis by (simp add: runs_as_def)
qed

lemma apply_live_frame:
  "apply_live tn r cfg b = (b', ok) \<Longrightarrow>
     bx_file b' = bx_file b \<and> bx_running b' = bx_running b \<and> bx_started b' = bx_started b \<and> (bx_proc b = None \<longrightarrow> bx_proc b' = None)"
  by (auto simp: apply_live_def split: option.splits prod.splits sum.splits)

lemma applyLocked_ok:
  assumes b: "box_ok w v b" and api: "xray_api v (tn_api tn)" and cfg: "sections_present cfg" "valid_for w cfg"
  shows "box_ok w v (snd (applyLocked tn ins sls cfg b))"
proof -
  consider "\<not> routable ins" | "routable ins" "bx_started b" "bx_running b = Some cfg" | "routable ins" "\<not> (bx_started b \<and> bx_running b = Some cfg)" "\<not> tn_writes tn"
    | "routable ins" "\<not> (bx_started b \<and> bx_running b = Some cfg)" "tn_writes tn" "\<not> bx_started b"
    | "routable ins" "\<not> (bx_started b \<and> bx_running b = Some cfg)" "tn_writes tn" "bx_started b" by blast
  then show ?thesis
  proof cases
    case 5
    let ?b1 = "b\<lparr>bx_file := Some cfg\<rparr>"
    obtain r where r: "bx_running b = Some r" using b 5(4) by (auto simp: box_ok_def)
    obtain b2 ok where al: "apply_live tn r cfg ?b1 = (b2, ok)" by fastforce
    note fr = apply_live_frame [OF al]
    show ?thesis
    proof (cases ok)
      case True
      have "pred_option (\<lambda>p. runs_as v p cfg) (bx_proc b2)"
      proof (cases "bx_proc b")
        case None
        with fr show ?thesis by simp
      next
        case (Some p)
        then have "runs_as v p r" using b r by (simp add: box_ok_def)
        with apply_live_ok [OF api cfg(1) al _ _ True, of p] Some show ?thesis by auto
      qed
      moreover have "applyLocked tn ins sls cfg b = (Applied, b2\<lparr>bx_running := Some cfg, bx_sup := (bx_sup b2)\<lparr>su_loaded := sls\<rparr>\<rparr>)"
        using 5 r al True by (auto simp: applyLocked_def Let_def)
      ultimately show ?thesis using fr 5(4) cfg(2) by (cases "bx_proc b2") (simp_all add: box_ok_def)
    next
      case False
      then have "applyLocked tn ins sls cfg b = (Applied, (wd_restart (b2\<lparr>bx_restarts := Suc (bx_restarts b2)\<rparr>))\<lparr>bx_running := Some cfg,
          bx_sup := (bx_sup (wd_restart (b2\<lparr>bx_restarts := Suc (bx_restarts b2)\<rparr>)))\<lparr>su_loaded := sls\<rparr>\<rparr>)"
        using 5 r al by (auto simp: applyLocked_def Let_def)
      then show ?thesis using fr cfg(2) by (simp add: box_ok_def wd_restart_def)
    qed
  qed (use b cfg(2) in \<open>auto simp: applyLocked_def Let_def box_ok_def wd_stop_def wd_start_def\<close>)
qed

text \<open>What holds of every state the loop goes through holds where it ends.\<close>

lemma reconcile_loop_rule:
  assumes upd: "\<And>b s. I b \<Longrightarrow> I (sup_of b s)" "\<And>b m. I b \<Longrightarrow> I (b\<lparr>bx_cfgErr := m\<rparr>)"
    and fin: "\<And>b. I b \<Longrightarrow> Q (Panicked, b)" "\<And>b e. I b \<Longrightarrow> Q (Refused e, b)"
    and app: "\<And>b sls opts cf. I b \<Longrightarrow> Generate entries ins sls opts = Ok cf \<Longrightarrow> bx_running b = Some (JObj cf) \<or> valid_for w (JObj cf) \<Longrightarrow>
      Q (applyLocked tn ins sls (JObj cf) b)"
    and "I b"
  shows "Q (reconcile_loop w tn entries ins n b)"
  using assms(6)
proof (induction n arbitrary: b rule: less_induct)
  case (less n)
  obtain sls s where r: "resolveDialerSlots (bx_db b) (bx_sup b) entries (tn_now tn) = (sls, s)" by fastforce
  let ?b1 = "sup_of b s" and ?g = "Generate entries ins sls (opts_of w (bx_db b))"
  have i1: "I ?b1" using less.prems by (rule upd(1))
  note unf = reconcile_loop.simps [of w tn entries ins n b, unfolded r prod.case Let_def]
  show ?case
  proof (cases ?g)
    case (Fail e)
    then show ?thesis using fin(2) [OF upd(2) [OF i1]] by (simp add: unf)
  next
    case Panic
    then show ?thesis using fin(1) [OF i1] by (simp add: unf)
  next
    case (Ok cf)
    show ?thesis
    proof (cases "bx_running ?b1 = Some (JObj cf)")
      case True
      then show ?thesis using app [OF i1 Ok] Ok by (simp add: unf)
    next
      case run: False
      show ?thesis
      proof (cases "testConfig (w_test w) (w_testFile w) (JObj cf)")
        case None
        then have "valid_for w (JObj cf)" by (simp add: valid_for_def)
        with run None show ?thesis using app [OF upd(2) [OF i1] Ok] Ok by (simp add: unf)
      next
        case (Some verr)
        show ?thesis
        proof (cases "memberForTag sls (rejectedTag verr) = None \<or> n = 0")
          case True
          then show ?thesis unfolding unf using fin(2) [OF upd(2) [OF i1]] run Some Ok
            by (cases "memberForTag sls (rejectedTag verr)"; cases n) auto
        next
          case False
          then obtain m k where mk: "memberForTag sls (rejectedTag verr) = Some m" "n = Suc k" by (cases n) auto
          let ?b2 = "sup_of ?b1 (reject (m_Key m) \<lparr>rj_outbound = m_Outbound m, rj_reason = verr\<rparr> (bx_sup ?b1))"
          have "I ?b2" using i1 by (rule upd(1))
          then have "Q (reconcile_loop w tn entries ins k ?b2)" using mk(2) by (intro less.IH) simp_all
          then show ?thesis unfolding unf using run Some Ok mk by simp
        qed
      qed
    qed
  qed
qed

lemma reconcile_loop_ok:
  assumes "box_ok w v b" "xray_api v (tn_api tn)"
  shows "box_ok w v (snd (reconcile_loop w tn entries ins n b))"
proof (rule reconcile_loop_rule [where I = "box_ok w v" and Q = "\<lambda>r. box_ok w v (snd r)"])
  fix b :: "'a box" and sls opts cf
  assume b: "box_ok w v b" and g: "Generate entries ins sls opts = Ok cf" and ok: "bx_running b = Some (JObj cf) \<or> valid_for w (JObj cf)"
  from ok b have "valid_for w (JObj cf)" by (auto simp: box_ok_def)
  then show "box_ok w v (snd (applyLocked tn ins sls (JObj cf) b))" using applyLocked_ok [OF b assms(2) Generate_sections [OF g]] by blast
qed (use assms in \<open>auto simp: sup_of_def intro: box_ok_ext\<close>)

lemma reconcileOnce_ok: "box_ok w v b \<Longrightarrow> xray_api v (tn_api tn) \<Longrightarrow> box_ok w v (snd (reconcileOnceLocked w tn b))"
  by (auto simp: reconcileOnceLocked_def with_ports_def Let_def split: prod.splits intro!: reconcile_loop_ok intro: box_ok_ext)

lemma startLastGood_ok: "box_ok w v b \<Longrightarrow> box_ok w v (startLastGoodLocked b)"
  by (auto simp: startLastGoodLocked_def box_ok_def wd_start_def split: option.splits)

lemma Reconcile_ok: "box_ok w v b \<Longrightarrow> xray_api v (tn_api tn) \<Longrightarrow> box_ok w v (snd (Reconcile w tn b))"
  using reconcileOnce_ok [of w v b tn] by (auto simp: Reconcile_def split: prod.splits recon_result.splits intro: startLastGood_ok)

lemma RestartXray_ok: "box_ok w v b \<Longrightarrow> xray_api v (tn_api tn) \<Longrightarrow> box_ok w v (snd (RestartXray w tn b))"
  unfolding RestartXray_def by (rule Reconcile_ok) (simp_all add: box_ok_def wd_stop_def)

lemma checkXrayHealth_ok:
  assumes "box_ok w v b" "xray_api v (tn_api tn)"
  shows "box_ok w v (checkXrayHealth w tn answers b)"
proof -
  obtain b1 reached where r: "recordHealthResult answers b = (b1, reached)" by fastforce
  then have "box_ok w v b1" using assms(1) by (auto simp: recordHealthResult_def split: if_splits intro: box_ok_ext)
  moreover from this have "box_ok w v (snd (RestartXray w tn b1))" using assms(2) by (rule RestartXray_ok)
  ultimately show ?thesis
    using Reconcile_ok [OF assms] assms(1) r by (auto simp: checkXrayHealth_def split: prod.split intro: box_ok_ext)
qed

lemma box_step_ok:
  assumes "box_ok w v b" "spawns_as w v" "event_ok v e"
  shows "box_ok w v (box_step w e b)"
proof (cases e)
  case (EvChange d s)
  then show ?thesis using box_ok_ext [OF assms(1)] by simp
next
  case EvExit
  then show ?thesis using assms(1) by (simp add: box_ok_def)
next
  case EvRespawn
  then show ?thesis using assms(1,2)
    by (cases "bx_file b"; cases "bx_running b") (auto simp: wd_respawn_def box_ok_def spawns_as_def)
qed (use assms in \<open>auto intro: Reconcile_ok RestartXray_ok checkXrayHealth_ok\<close>)

lemma box_run_ok: "box_ok w v b \<Longrightarrow> spawns_as w v \<Longrightarrow> list_all (event_ok v) es \<Longrightarrow> box_ok w v (fold (box_step w) es b)"
  by (induction es arbitrary: b) (auto intro: box_step_ok)

section \<open>A refused config\<close>

text \<open>What the running xray and the config file are.\<close>

definition served :: "'p box \<Rightarrow> json option \<times> json option \<times> bool \<times> 'p option" where
  "served b = (bx_running b, bx_file b, bx_started b, bx_proc b)"

lemma applyLocked_refuses: "applyLocked tn ins sls cfg b = (Refused e, b') \<Longrightarrow> b' = b"
  by (auto simp: applyLocked_def Let_def split: if_splits option.splits prod.splits)

lemma applyLocked_panics: "fst (applyLocked tn ins sls cfg b) \<noteq> Panicked"
  by (auto simp: applyLocked_def Let_def split: option.splits prod.splits)

lemma reconcileOnce_served:
  assumes "reconcileOnceLocked w tn b = (res, b')" "res \<noteq> Applied"
  shows "served b' = served b"
proof -
  obtain ins b1 where p: "with_ports b = (ins, b1)" by fastforce
  then have b1: "served b1 = served b" by (auto simp: with_ports_def served_def split: prod.splits)
  have "fst (reconcile_loop w tn (ListEntries (bx_db b)) (with_users (bx_db b1) ins) maxRejects b1) \<noteq> Applied \<longrightarrow>
      served (snd (reconcile_loop w tn (ListEntries (bx_db b)) (with_users (bx_db b1) ins) maxRejects b1)) = served b"
  proof (rule reconcile_loop_rule [where I = "\<lambda>b'. served b' = served b" and Q = "\<lambda>r. fst r \<noteq> Applied \<longrightarrow> served (snd r) = served b"])
    fix b2 :: "'a box" and sls opts cf
    assume s: "served b2 = served b"
    obtain r b3 where a: "applyLocked tn (with_users (bx_db b1) ins) sls (JObj cf) b2 = (r, b3)" by fastforce
    then show "fst (applyLocked tn (with_users (bx_db b1) ins) sls (JObj cf) b2) \<noteq> Applied \<longrightarrow>
        served (snd (applyLocked tn (with_users (bx_db b1) ins) sls (JObj cf) b2)) = served b"
      using s applyLocked_refuses [of tn _ sls "JObj cf" b2 _ b3] applyLocked_panics [of tn "with_users (bx_db b1) ins" sls "JObj cf" b2]
      by (cases r) auto
  qed (use b1 in \<open>simp_all add: served_def sup_of_def\<close>)
  with assms show ?thesis by (simp add: reconcileOnceLocked_def p Let_def)
qed

section \<open>A concrete box\<close>

text \<open>A box that serves an empty config; the only entry is not a JSON text, so nothing can be generated.\<close>

definition served_demo :: json where
  "served_demo = jobj [(''inbounds'', JArr []), (''outbounds'', JArr []), (''routing'', JNull)]"

definition demo_box :: "xproc box" where
  "demo_box = \<lparr>bx_db = pool_demo_db\<lparr>db_entries := [\<lparr>e_ID = 1, e_Name = ''x'', e_Outbound = None, e_Enabled = True, e_Dialer = [], e_Mux = False\<rparr>]\<rparr>,
     bx_sup = pool_demo_sup, bx_running = Some served_demo, bx_file = Some served_demo, bx_started = True,
     bx_proc = Some \<lparr>xp_outs = [], xp_ins = [], xp_rules = Some JNull\<rparr>, bx_cfgErr = [], bx_restarts = 0, bx_liveApplies = 0, bx_healthChecked = False,
     bx_healthOK = False, bx_healthFailures = 0, bx_healthRestarts = 0\<rparr>"

definition demo_spawn :: "json \<Rightarrow> xproc" where
  "demo_spawn c = (case parseLiveConfig c of
     Inr lc \<Rightarrow> \<lparr>xp_outs = lc_outbounds lc, xp_ins = lc_inbounds lc, xp_rules = lc_routing lc\<rparr>
   | Inl _ \<Rightarrow> \<lparr>xp_outs = [], xp_ins = [], xp_rules = None\<rparr>)"

definition demo_world :: "xproc world" where
  "demo_world = \<lparr>w_test = (\<lambda>_. TestPassed), w_testFile = ''f'', w_spawn = demo_spawn,
     w_AccessLog = [], w_ErrorLog = [], w_ProbeURL = [], w_sockCut = False, w_genText = (\<lambda>_. ''generator'')\<rparr>"

definition demo_turn :: "xproc turn" where
  "demo_turn = \<lparr>tn_now = 0, tn_writes = True, tn_api = xproc_api, tn_ready = (\<lambda>_. True)\<rparr>"

lemma demo_spawns: "spawns_as demo_world xproc_view"
  by (simp add: spawns_as_def runs_as_def demo_world_def demo_spawn_def xproc_view_def config_view_def)

lemma demo_box_ok: "box_ok demo_world xproc_view demo_box"
proof -
  have "parseLiveConfig served_demo = Inr \<lparr>lc_fixed = [], lc_inbounds = [], lc_outbounds = [], lc_dialerOf = [], lc_creds = [],
      lc_firstOut = [], lc_routing = Some JNull\<rparr>" by code_simp
  then show ?thesis
    by (simp add: box_ok_def demo_box_def valid_for_def testConfig_def demo_world_def runs_as_def xproc_view_def config_view_def)
qed

lemma demo_reconcile: "Reconcile demo_world demo_turn demo_box = (Refused ''generator'', demo_box\<lparr>bx_cfgErr := ''generator''\<rparr>)"
proof -
  let ?es = "db_entries (bx_db demo_box)"
  have ports: "with_ports demo_box = ([], demo_box)"
    by (simp add: with_ports_def ListInbounds_def demo_box_def pool_demo_db_def AssignInboundPorts_def)
  have es: "ListEntries (bx_db demo_box) = ?es" by (simp add: ListEntries_def demo_box_def pool_demo_db_def)
  have slots: "resolveDialerSlots (bx_db demo_box) (bx_sup demo_box) ?es (tn_now demo_turn) = ([], bx_sup demo_box)" by code_simp
  have gen: "\<exists>e. Generate ?es [] [] opts = Fail e" for opts
    by (simp add: Generate_def gen_config_def build_config_def gen_entry_def entryOutbound_def tagged_def lift_fail_def go_sort_def Let_def
        demo_box_def pool_demo_db_def)
  obtain e where e: "Generate ?es [] [] (opts_of demo_world (bx_db demo_box)) = Fail e" using gen by blast
  have "reconcile_loop demo_world demo_turn ?es [] maxRejects demo_box = (Refused ''generator'', demo_box\<lparr>bx_cfgErr := ''generator''\<rparr>)"
    by (subst reconcile_loop.simps) (simp add: slots e sup_of_def, simp add: demo_world_def)
  then show ?thesis
    by (simp add: Reconcile_def reconcileOnceLocked_def ports es with_users_def startLastGoodLocked_def) (simp add: demo_box_def)
qed

text \<open>The same box before its first start, with an inbound to serve.\<close>

definition idle_inbound :: inbound where
  "idle_inbound = blank_inbound\<lparr>in_Name := ''s'', in_Protocol := ''socks'', in_Port := 1080, in_Enabled := True\<rparr>"

definition idle_box :: "xproc box" where
  "idle_box = demo_box\<lparr>bx_db := (bx_db demo_box)\<lparr>db_inbounds := [idle_inbound]\<rparr>, bx_started := False, bx_running := None, bx_proc := None\<rparr>"

lemma idle_routable: "routable (ListInbounds (bx_db idle_box))"
  by code_simp

lemma idle_reconcile: "Reconcile demo_world demo_turn idle_box = (Refused ''generator'', startLastGoodLocked (idle_box\<lparr>bx_cfgErr := ''generator''\<rparr>))"
proof -
  let ?es = "db_entries (bx_db idle_box)"
  have ports: "with_ports idle_box = ([idle_inbound], idle_box)"
    by (simp add: with_ports_def ListInbounds_def idle_box_def demo_box_def pool_demo_db_def AssignInboundPorts_def idle_inbound_def)
  have es: "ListEntries (bx_db idle_box) = ?es" by (simp add: ListEntries_def idle_box_def demo_box_def pool_demo_db_def)
  have slots: "resolveDialerSlots (bx_db idle_box) (bx_sup idle_box) ?es (tn_now demo_turn) = ([], bx_sup idle_box)" by code_simp
  have gen: "\<exists>e. Generate ?es ins [] opts = Fail e" for ins opts
    by (simp add: Generate_def gen_config_def build_config_def gen_entry_def entryOutbound_def tagged_def lift_fail_def go_sort_def Let_def
        idle_box_def demo_box_def pool_demo_db_def)
  let ?ins = "with_users (bx_db idle_box) [idle_inbound]"
  obtain e where e: "Generate ?es ?ins [] (opts_of demo_world (bx_db idle_box)) = Fail e" using gen by blast
  have "reconcile_loop demo_world demo_turn ?es ?ins maxRejects idle_box = (Refused ''generator'', idle_box\<lparr>bx_cfgErr := ''generator''\<rparr>)"
    by (subst reconcile_loop.simps) (simp add: slots e sup_of_def, simp add: demo_world_def)
  then show ?thesis by (simp add: Reconcile_def reconcileOnceLocked_def ports es)
qed

section \<open>Properties\<close>

text \<open>C16. Whatever sequence of changes of the rows, reconciles, forced restarts, health checks, exits of the child and
  respawns runs: a running child serves exactly the config the supervisor has recorded; that config is the
  one in the config file, and xray's own test accepted it.\<close>

theorem child_serves_validated_config:
  assumes "box_ok w view_of b" and "spawns_as w view_of" and "list_all (event_ok view_of) es"
    and "bx_proc (fold (box_step w) es b) = Some p"
  shows "\<exists>c. bx_running (fold (box_step w) es b) = Some c \<and> bx_file (fold (box_step w) es b) = Some c \<and>
    testConfig (w_test w) (w_testFile w) c = None \<and> (\<forall>lc. parseLiveConfig c = Inr lc \<longrightarrow> view_of p = config_view lc)"
proof -
  have ok: "box_ok w view_of (fold (box_step w) es b)" using box_run_ok [OF assms(1-3)] .
  then obtain c where c: "bx_running (fold (box_step w) es b) = Some c" using assms(4) by (auto simp: box_ok_def)
  with ok assms(4) show ?thesis by (auto simp: box_ok_def valid_for_def runs_as_def)
qed

lemma child_serves_validated_config_witness:
  "let b = fold (box_step demo_world) [EvReconcile demo_turn, EvHealth demo_turn True, EvExit, EvRespawn] demo_box
   in bx_proc b \<noteq> None \<and> (\<exists>c. bx_running b = Some c \<and> bx_file b = Some c)"
proof -
  let ?es = "[EvReconcile demo_turn, EvHealth demo_turn True, EvExit, EvRespawn]"
  have e: "list_all (event_ok xproc_view) ?es" using xproc.xray_api_axioms by (simp add: demo_turn_def)
  have "bx_proc (fold (box_step demo_world) ?es demo_box) \<noteq> None"
    by (simp add: demo_reconcile checkXrayHealth_def recordHealthResult_def wd_respawn_def) (simp add: demo_box_def)
  then obtain p where p: "bx_proc (fold (box_step demo_world) ?es demo_box) = Some p" by blast
  from child_serves_validated_config [OF demo_box_ok demo_spawns e p] p show ?thesis unfolding Let_def by blast
qed

text \<open>C17. A reconcile that is refused (by the generator, by xray's test, or because the config file cannot be
  written) leaves the config file as it is, and a started xray with it: the same child, the same recorded
  config. When none was started, and there are inbounds to serve and a config file, that file's config is
  started and recorded, its child still to be spawned; otherwise nothing is started and nothing recorded.\<close>

theorem refused_reconcile_keeps_running:
  assumes "Reconcile w tn b = (Refused e, b')"
  shows "bx_file b' = bx_file b \<and>
    bx_started b' = (bx_started b \<or> routable (ListInbounds (bx_db b')) \<and> bx_file b \<noteq> None) \<and>
    (if bx_started b = bx_started b' then bx_running b' = bx_running b \<and> bx_proc b' = bx_proc b
     else bx_running b' = bx_file b \<and> bx_proc b' = None)"
proof -
  obtain b1 where b1: "reconcileOnceLocked w tn b = (Refused e, b1)" "b' = startLastGoodLocked b1"
    using assms by (auto simp: Reconcile_def split: prod.splits recon_result.splits)
  from reconcileOnce_served [OF b1(1)] have "served b1 = served b" by simp
  then show ?thesis
    by (auto simp: b1(2) served_def startLastGoodLocked_def wd_start_def split: option.splits)
qed

lemma refused_reconcile_keeps_running_witness:
  "bx_proc (snd (Reconcile demo_world demo_turn demo_box)) = bx_proc demo_box \<and>
   bx_started (snd (Reconcile demo_world demo_turn idle_box)) \<and>
   bx_running (snd (Reconcile demo_world demo_turn idle_box)) = Some served_demo"
proof -
  let ?b = "startLastGoodLocked (idle_box\<lparr>bx_cfgErr := ''generator''\<rparr>)"
  have i: "routable (ListInbounds (bx_db ?b))" "\<not> bx_started idle_box" "bx_file idle_box = Some served_demo"
    using idle_routable by (simp_all add: startLastGoodLocked_def wd_start_def idle_box_def demo_box_def split: option.split)
  show ?thesis
    using refused_reconcile_keeps_running [OF demo_reconcile] refused_reconcile_keeps_running [OF idle_reconcile] i
    by (simp add: demo_reconcile idle_reconcile)
qed

section \<open>A reconcile keeps the rows it does not give ports\<close>

lemma applyLocked_db [simp]: "bx_db (snd (applyLocked tn ins sls cfg b)) = bx_db b"
proof -
  have al: "apply_live tn r cfg b = (b', ok) \<Longrightarrow> bx_db b' = bx_db b" for r b b' ok
    by (auto simp: apply_live_def split: option.splits prod.splits sum.splits)
  show ?thesis
    by (auto simp: applyLocked_def Let_def wd_stop_def wd_start_def wd_restart_def split: prod.splits option.splits dest: al)
qed

lemma reconcile_loop_db [simp]: "bx_db (snd (reconcile_loop w tn entries ins n b)) = bx_db b"
proof -
  have "(\<lambda>r. bx_db (snd r) = bx_db b) (reconcile_loop w tn entries ins n b)"
    by (rule reconcile_loop_rule [where I = "\<lambda>x. bx_db x = bx_db b"]) (auto simp: sup_of_def)
  then show ?thesis .
qed

lemma Reconcile_db: "bx_db (snd (Reconcile w tn b)) = bx_db (snd (with_ports b))"
proof -
  have "bx_db (startLastGoodLocked x) = bx_db x" for x :: "'a box"
    by (auto simp: startLastGoodLocked_def wd_start_def split: option.splits)
  moreover obtain ins b1 where p: "with_ports b = (ins, b1)" by fastforce
  obtain r b2 where o: "reconcileOnceLocked w tn b = (r, b2)" by fastforce
  have "reconcile_loop w tn (ListEntries (bx_db b)) (with_users (bx_db b1) ins) maxRejects b1 = (r, b2)"
    using o p by (simp add: reconcileOnceLocked_def)
  then have "bx_db b2 = bx_db b1" using reconcile_loop_db [of w tn "ListEntries (bx_db b)" "with_users (bx_db b1) ins" maxRejects b1] by simp
  ultimately show ?thesis using o p by (cases r) (simp_all add: Reconcile_def)
qed

end
