(* ===== verification/Watchdog.thy ===== *)
theory Watchdog
  imports Models "HOL-Library.Word"
begin

text \<open>
  \<^verbatim>\<open>daemon/watchdog.go\<close>: the loop that supervises the xray child, as a step relation. The loop
  runs beside its callers, so each step is one that the code takes under the watchdog's lock or between
  two of its waits; the child process, the command factory and the clock are the environment, which
  labels the steps. Every child has a number of its own, its pid.
\<close>

section \<open>State\<close>

definition backoffMin :: time where "backoffMin = 500000000"
definition backoffMax :: time where "backoffMax = seconds 30"
definition stableRun :: time where "stableRun = seconds 60"

lemmas backoff_defs = backoffMin_def backoffMax_def stableRun_def duration_defs

text \<open>Where the loop is: not running; about to look at the stop channel; building and starting a child, after
  having looked; asleep for a backoff; waiting for the child it started at some time to exit. The backoff is
  the loop's local variable.\<close>

datatype phase = Off | Top time | Building time | Asleep time | Up time time

record watchdog =
  wg_phase :: phase
  wg_stopping :: bool
  wg_cmd :: "nat option"
  wg_running :: bool
  wg_restarts :: "32 word"
  wg_lastErr :: string
  wg_signalled :: "nat list"

definition new_watchdog :: watchdog where
  "new_watchdog = \<lparr>wg_phase = Off, wg_stopping = False, wg_cmd = None, wg_running = False, wg_restarts = 0, wg_lastErr = [],
     wg_signalled = []\<rparr>"

definition nextBackoff :: "time \<Rightarrow> time" where
  "nextBackoff cur = (if cur * 2 > backoffMax then backoffMax else cur * 2)"

definition IsStarted :: "watchdog \<Rightarrow> bool" where
  "IsStarted w \<longleftrightarrow> wg_phase w \<noteq> Off \<and> \<not> wg_stopping w"

definition State :: "watchdog \<Rightarrow> bool \<times> nat \<times> 32 word \<times> string" where
  "State w = (wg_running w, (case wg_cmd w of Some pid \<Rightarrow> if wg_running w then pid else 0 | None \<Rightarrow> 0), wg_restarts w, wg_lastErr w)"

section \<open>Steps\<close>

datatype wd_label =
    WStart | WStop | WRestart
  | WCheck | WFail string | WSpawn nat time | WExit "string option" time | WWake | WInterrupted

text \<open>The loop ends: the channel is dropped, so a later start makes a new one.\<close>

definition loop_ends :: "watchdog \<Rightarrow> watchdog" where
  "loop_ends w = w\<lparr>wg_phase := Off, wg_running := False\<rparr>"

definition after_exit :: "time \<Rightarrow> time \<Rightarrow> time \<Rightarrow> time" where
  "after_exit backoff startedAt now = (if now - startedAt > stableRun then backoffMin else backoff)"

inductive wd_step :: "watchdog \<Rightarrow> wd_label \<Rightarrow> watchdog \<Rightarrow> bool" where
  start: "wg_phase w = Off \<Longrightarrow> wd_step w WStart (w\<lparr>wg_phase := Top backoffMin, wg_stopping := False\<rparr>)"
| start_again: "wg_phase w \<noteq> Off \<Longrightarrow> wd_step w WStart w"
| stop: "wg_phase w \<noteq> Off \<Longrightarrow>
    wd_step w WStop (w\<lparr>wg_stopping := True, wg_signalled := (case wg_cmd w of Some pid \<Rightarrow> pid # wg_signalled w | None \<Rightarrow> wg_signalled w)\<rparr>)"
| stop_off: "wg_phase w = Off \<Longrightarrow> wd_step w WStop w"
| restart: "wd_step w WRestart (if wg_running w \<and> wg_cmd w \<noteq> None then w\<lparr>wg_signalled := the (wg_cmd w) # wg_signalled w\<rparr> else w)"
| check_stop: "wg_phase w = Top b \<Longrightarrow> wg_stopping w \<Longrightarrow> wd_step w WCheck (loop_ends w)"
| check_go: "wg_phase w = Top b \<Longrightarrow> \<not> wg_stopping w \<Longrightarrow> wd_step w WCheck (w\<lparr>wg_phase := Building b\<rparr>)"
| fail: "wg_phase w = Building b \<Longrightarrow> wd_step w (WFail msg) (w\<lparr>wg_phase := Asleep b, wg_lastErr := msg\<rparr>)"
| spawn: "wg_phase w = Building b \<Longrightarrow>
    wd_step w (WSpawn pid now) (w\<lparr>wg_phase := Up b now, wg_cmd := Some pid, wg_running := True, wg_lastErr := []\<rparr>)"
| exit_stop: "wg_phase w = Up b t \<Longrightarrow> wg_stopping w \<Longrightarrow> wd_step w (WExit err now) (loop_ends w)"
| exit_again: "wg_phase w = Up b t \<Longrightarrow> \<not> wg_stopping w \<Longrightarrow>
    wd_step w (WExit err now) (w\<lparr>wg_phase := Asleep (after_exit b t now), wg_running := False, wg_restarts := wg_restarts w + 1,
      wg_lastErr := (case err of Some e \<Rightarrow> e | None \<Rightarrow> wg_lastErr w)\<rparr>)"
| wake: "wg_phase w = Asleep b \<Longrightarrow> wd_step w WWake (w\<lparr>wg_phase := Top (nextBackoff b)\<rparr>)"
| interrupted: "wg_phase w = Asleep b \<Longrightarrow> wg_stopping w \<Longrightarrow> wd_step w WInterrupted (loop_ends w)"

inductive wd_run :: "watchdog \<Rightarrow> wd_label list \<Rightarrow> watchdog \<Rightarrow> bool" where
  none: "wd_run w [] w"
| more: "wd_step w l w' \<Longrightarrow> wd_run w' ls w'' \<Longrightarrow> wd_run w (l # ls) w''"

inductive_cases wd_stepE: "wd_step w l w'"
inductive_cases wd_stopE: "wd_step w WStop w'"
inductive_simps wd_run_Nil: "wd_run w [] w'"
inductive_simps wd_run_Cons: "wd_run w (l # ls) w'"

lemma wd_run_append: "wd_run w (xs @ ys) w' \<longleftrightarrow> (\<exists>v. wd_run w xs v \<and> wd_run v ys w')"
  by (induction xs arbitrary: w) (auto simp: wd_run_Nil wd_run_Cons)

section \<open>The invariant\<close>

definition phase_backoff :: "phase \<Rightarrow> time option" where
  "phase_backoff p = (case p of Off \<Rightarrow> None | Top b \<Rightarrow> Some b | Building b \<Rightarrow> Some b | Asleep b \<Rightarrow> Some b | Up b _ \<Rightarrow> Some b)"

text \<open>The backoff is between half a second and half a minute; a child is reported as running exactly while
  the loop waits for it.\<close>

definition watchdog_ok :: "watchdog \<Rightarrow> bool" where
  "watchdog_ok w \<longleftrightarrow> pred_option (\<lambda>b. backoffMin \<le> b \<and> b \<le> backoffMax) (phase_backoff (wg_phase w)) \<and>
     wg_running w = (case wg_phase w of Up _ _ \<Rightarrow> True | _ \<Rightarrow> False) \<and> (wg_running w \<longrightarrow> wg_cmd w \<noteq> None)"

lemma nextBackoff_range: "backoffMin \<le> b \<Longrightarrow> backoffMin \<le> nextBackoff b \<and> nextBackoff b \<le> backoffMax"
  by (auto simp: nextBackoff_def backoff_defs)

lemma wd_step_ok: "wd_step w l w' \<Longrightarrow> watchdog_ok w \<Longrightarrow> watchdog_ok w'"
proof (induction rule: wd_step.induct)
  case (wake w b)
  then show ?case using nextBackoff_range [of b] by (simp add: watchdog_ok_def phase_backoff_def)
next
  case (start w)
  then show ?case by (simp add: watchdog_ok_def phase_backoff_def backoff_defs)
next
  case (exit_again w b t err now)
  then show ?case by (simp add: watchdog_ok_def phase_backoff_def after_exit_def backoff_defs)
next
  case (restart w)
  moreover have "watchdog_ok (w\<lparr>wg_signalled := pids\<rparr>) = watchdog_ok w" for pids by (simp add: watchdog_ok_def)
  ultimately show ?case by simp
qed (simp_all add: watchdog_ok_def phase_backoff_def loop_ends_def)

lemma wd_run_ok: "wd_run w ls w' \<Longrightarrow> watchdog_ok w \<Longrightarrow> watchdog_ok w'"
  by (induction rule: wd_run.induct) (auto intro: wd_step_ok)

lemma new_watchdog_ok: "watchdog_ok new_watchdog"
  by (simp add: watchdog_ok_def new_watchdog_def phase_backoff_def)

section \<open>Stopping\<close>

text \<open>The loop is about to end: it was told to stop and is not building a child; a child that is up was
  signalled.\<close>

definition ending :: "watchdog \<Rightarrow> bool" where
  "ending w \<longleftrightarrow> wg_stopping w \<and>
     (case wg_phase w of Off \<Rightarrow> False | Building _ \<Rightarrow> False
      | Up _ _ \<Rightarrow> wg_cmd w \<noteq> None \<and> the (wg_cmd w) \<in> set (wg_signalled w) | _ \<Rightarrow> True)"

text \<open>The steps of the loop itself.\<close>

definition loop_label :: "wd_label \<Rightarrow> bool" where
  "loop_label l = (case l of WStart \<Rightarrow> False | WStop \<Rightarrow> False | WRestart \<Rightarrow> False | _ \<Rightarrow> True)"

lemma ending_step: "wd_step w l w' \<Longrightarrow> ending w \<Longrightarrow> wg_phase w' = Off \<or> ending w'"
  by (induction rule: wd_step.induct) (auto simp: ending_def loop_ends_def split: phase.splits option.splits)

text \<open>How many steps of its own the loop takes at most before it ends.\<close>

definition steps_left :: "watchdog \<Rightarrow> nat" where
  "steps_left w = (case wg_phase w of Off \<Rightarrow> 0 | Asleep _ \<Rightarrow> 2 | _ \<Rightarrow> 1)"

lemma ending_measure: "wd_step w l w' \<Longrightarrow> ending w \<Longrightarrow>
    (if loop_label l then steps_left w' < steps_left w else steps_left w' \<le> steps_left w)"
  by (induction rule: wd_step.induct) (auto simp: ending_def loop_label_def steps_left_def loop_ends_def split: phase.splits)

lemma off_stays: "wd_step w l w' \<Longrightarrow> wg_phase w = Off \<Longrightarrow> l \<noteq> WStart \<Longrightarrow> wg_phase w' = Off \<and> \<not> loop_label l"
  by (induction rule: wd_step.induct) (auto simp: loop_ends_def loop_label_def)

definition spawns :: "wd_label \<Rightarrow> bool" where
  "spawns l = (case l of WSpawn _ _ \<Rightarrow> True | _ \<Rightarrow> False)"

lemma ending_no_spawn: "wd_step w l w' \<Longrightarrow> ending w \<Longrightarrow> \<not> spawns l"
  by (induction rule: wd_step.induct) (auto simp: ending_def spawns_def)

lemma ending_run:
  assumes "wd_run w ls w'" "ending w \<or> wg_phase w = Off" "list_all (\<lambda>l. l \<noteq> WStart) ls"
  shows "(ending w' \<or> wg_phase w' = Off) \<and> length (filter loop_label ls) + steps_left w' \<le> steps_left w \<and> \<not> list_ex spawns ls"
  using assms
proof (induction rule: wd_run.induct)
  case (more w l w' ls w'')
  have rest: "list_all (\<lambda>l. l \<noteq> WStart) ls" "l \<noteq> WStart" using more.prems(2) by simp_all
  show ?case
  proof (cases "wg_phase w = Off")
    case True
    with off_stays [OF more.hyps(1)] rest have "wg_phase w' = Off" "\<not> loop_label l" by blast+
    with more.IH rest(1) True show ?thesis by (auto simp: steps_left_def loop_label_def spawns_def split: wd_label.splits)
  next
    case False
    then have e: "ending w" using more.prems(1) by blast
    have ih: "(ending w'' \<or> wg_phase w'' = Off) \<and> length (filter loop_label ls) + steps_left w'' \<le> steps_left w' \<and> \<not> list_ex spawns ls"
      using more.IH ending_step [OF more.hyps(1) e] rest(1) by blast
    with ending_measure [OF more.hyps(1) e] ending_no_spawn [OF more.hyps(1) e] show ?thesis by (auto split: if_splits)
  qed
qed simp

lemma ending_progress: "ending w \<Longrightarrow> \<exists>l w'. loop_label l \<and> wd_step w l w'"
proof (cases "wg_phase w")
  case (Top b)
  then show "ending w \<Longrightarrow> \<exists>l w'. loop_label l \<and> wd_step w l w'"
    using check_stop [of w b] by (auto simp: ending_def loop_label_def intro!: exI [of _ WCheck])
next
  case (Asleep b)
  then show ?thesis using wake [of w b] by (auto simp: loop_label_def intro!: exI [of _ WWake])
next
  case (Up b t)
  then show "ending w \<Longrightarrow> \<exists>l w'. loop_label l \<and> wd_step w l w'"
    using exit_stop [of w b t None 0] by (auto simp: ending_def loop_label_def intro!: exI [of _ "WExit None 0"])
qed (simp_all add: ending_def)

text \<open>A stop that arrives while the loop builds a child misses it: it signals the child before.\<close>

definition missed :: "watchdog \<Rightarrow> bool" where
  "missed w \<longleftrightarrow> wg_stopping w \<and> wg_running w \<and> (case wg_cmd w of Some pid \<Rightarrow> pid \<notin> set (wg_signalled w) | None \<Rightarrow> False)"

section \<open>Properties\<close>

text \<open>C18. Once a stop has been asked for while the loop is not building a child, no child is started any more, the
  loop takes at most two more steps of its own, until it has ended one of them is possible, and a child
  that is still up was signalled; whatever else is called meanwhile except a start.\<close>

theorem stop_ends_the_loop:
  assumes "wd_run new_watchdog ls w" and "wg_phase w \<noteq> Off" and "\<forall>b. wg_phase w \<noteq> Building b"
    and "wd_step w WStop w1" and "wd_run w1 ls' w2" and "list_all (\<lambda>l. l \<noteq> WStart) ls'"
  shows "\<not> list_ex spawns ls' \<and> length (filter loop_label ls') \<le> 2 \<and>
    (wg_phase w2 = Off \<or> (\<exists>l w3. loop_label l \<and> wd_step w2 l w3) \<and> \<not> missed w2)"
proof -
  have ok: "watchdog_ok w" by (rule wd_run_ok [OF assms(1) new_watchdog_ok])
  have w1: "w1 = w\<lparr>wg_stopping := True, wg_signalled := (case wg_cmd w of Some pid \<Rightarrow> pid # wg_signalled w | None \<Rightarrow> wg_signalled w)\<rparr>"
    using assms(2,4) by (auto elim: wd_stopE)
  have e: "ending w1" using assms(2,3) ok by (auto simp: w1 ending_def watchdog_ok_def split: phase.splits option.splits)
  have "watchdog_ok w2" using wd_run_ok [OF assms(5)] wd_step_ok [OF assms(4) ok] by blast
  then have nm: "ending w2 \<Longrightarrow> \<not> missed w2" by (auto simp: missed_def ending_def watchdog_ok_def split: phase.splits option.splits)
  have "steps_left w1 \<le> 2" by (simp add: steps_left_def split: phase.splits)
  with ending_run [OF assms(5) _ assms(6)] e ending_progress [of w2] nm show ?thesis by auto
qed

lemma stop_ends_the_loop_witness:
  "\<not> missed (new_watchdog\<lparr>wg_phase := Up backoffMin 0, wg_cmd := Some 7, wg_running := True, wg_stopping := True, wg_signalled := [7]\<rparr>)"
proof -
  let ?w = "new_watchdog\<lparr>wg_phase := Up backoffMin 0, wg_cmd := Some 7, wg_running := True\<rparr>"
  let ?w1 = "?w\<lparr>wg_stopping := True, wg_signalled := [7]\<rparr>"
  have "wd_run new_watchdog [WStart, WCheck, WSpawn 7 0] ?w"
    using start [of new_watchdog] check_go [of "new_watchdog\<lparr>wg_phase := Top backoffMin\<rparr>" backoffMin]
      spawn [of "new_watchdog\<lparr>wg_phase := Building backoffMin\<rparr>" backoffMin 7 0]
    by (auto simp: wd_run_Cons wd_run_Nil new_watchdog_def)
  moreover have "wd_step ?w WStop ?w1" using stop [of ?w] by (simp add: new_watchdog_def)
  ultimately show ?thesis using stop_ends_the_loop [of "[WStart, WCheck, WSpawn 7 0]" ?w ?w1 "[]" ?w1] by (simp add: wd_run_Nil)
qed


text \<open>In every state the watchdog can reach, the backoff is between half a second and half a minute, and a
  child is reported as running exactly while the loop waits for one, which then has a pid.\<close>

theorem watchdog_backoff_in_range:
  assumes "wd_run new_watchdog ls w"
  shows "pred_option (\<lambda>b. backoffMin \<le> b \<and> b \<le> backoffMax) (phase_backoff (wg_phase w)) \<and>
    (wg_running w \<longleftrightarrow> (\<exists>b t. wg_phase w = Up b t)) \<and> (wg_running w \<longrightarrow> wg_cmd w \<noteq> None)"
  using wd_run_ok [OF assms new_watchdog_ok] by (auto simp: watchdog_ok_def split: phase.splits)

lemma watchdog_backoff_in_range_witness:
  "wg_running (new_watchdog\<lparr>wg_phase := Top backoffMin\<rparr>) \<longleftrightarrow> (\<exists>b t. Top backoffMin = Up b t)"
proof -
  have "wd_run new_watchdog [WStart] (new_watchdog\<lparr>wg_phase := Top backoffMin\<rparr>)"
    using start [of new_watchdog] by (simp add: wd_run_Cons wd_run_Nil new_watchdog_def)
  from watchdog_backoff_in_range [OF this] show ?thesis by simp
qed

end
