(* ===== verification/Traffic.thy ===== *)
theory Traffic
  imports Reconcile_Props
begin

text \<open>
  Traffic: the counters of xray as \<^verbatim>\<open>core/xray/traffic.go\<close> reads them, the sampler of
  \<^verbatim>\<open>daemon/traffic.go\<close> that turns them into hourly buckets and lifetime totals and denies users
  over their cap, and the report of the \<^verbatim>\<open>Traffic\<close> request. The answer of xray's api is an argument
  (nothing when it does not answer). A byte count read as a JSON number is exact.
\<close>

section \<open>Counters\<close>

text \<open>\<^verbatim>\<open>strings.Split\<close> by a separator that is not empty.\<close>

function split_str :: "string \<Rightarrow> string \<Rightarrow> string list" where
  "split_str sep s =
     (if sep = [] then [s] else (case cut sep s of None \<Rightarrow> [s] | Some (a, b) \<Rightarrow> a # split_str sep b))"
  by pat_completeness auto

lemma cut_shorter: "cut sep s = Some (a, b) \<Longrightarrow> length s = length a + length sep + length b"
proof (induction s arbitrary: a)
  case (Cons x s)
  show ?case
  proof (cases "prefix sep (x # s)")
    case True
    with Cons.prems have "a = []" "b = drop (length sep) (x # s)" by auto
    with prefix_length_le [OF True] show ?thesis by simp
  next
    case False
    with Cons show ?thesis by auto
  qed
qed (auto split: if_splits)

termination split_str
  by (relation "measure (length \<circ> snd)") (auto dest: cut_shorter)

declare split_str.simps [simp del]

record stat_counter =
  sc_Kind :: string
  sc_Tag :: string
  sc_Down :: bool
  sc_Bytes :: int

definition KindInbound :: string where "KindInbound = ''inbound''"
definition KindOutbound :: string where "KindOutbound = ''outbound''"
definition KindUser :: string where "KindUser = ''user''"

lemmas traffic_kinds = KindInbound_def KindOutbound_def KindUser_def

definition ParseStatName :: "string \<Rightarrow> int \<Rightarrow> stat_counter option" where
  "ParseStatName name v =
     (case split_str ''>>>'' name of
        [kind, tag, word, dir] \<Rightarrow>
          if word \<noteq> ''traffic'' \<or> kind \<notin> {KindInbound, KindOutbound, KindUser} then None
          else if dir = ''downlink'' then Some \<lparr>sc_Kind = kind, sc_Tag = tag, sc_Down = True, sc_Bytes = v\<rparr>
          else if dir = ''uplink'' then Some \<lparr>sc_Kind = kind, sc_Tag = tag, sc_Down = False, sc_Bytes = v\<rparr>
          else None
      | _ \<Rightarrow> None)"

text \<open>\<^verbatim>\<open>n, _ := strconv.ParseInt(s, 10, 64)\<close>: zero for what is not a number, the nearest bound for one out of
  range.\<close>

definition parse_int_lenient :: "string \<Rightarrow> int" where
  "parse_int_lenient s =
     (let (neg, ds) = (case s of [] \<Rightarrow> (False, [])
            | c # t \<Rightarrow> if c = CHR ''-'' then (True, t) else if c = CHR ''+'' then (False, t) else (False, s))
      in if ds = [] \<or> \<not> list_all is_digit ds then 0
         else let v = (if neg then - int (digits_val ds) else int (digits_val ds))
              in max (- (2 ^ 63)) (min (2 ^ 63 - 1) v))"

definition StatValueToInt :: "json option \<Rightarrow> int" where
  "StatValueToInt v =
     (case v of
        Some (JNum n) \<Rightarrow> n
      | Some (JDec m e) \<Rightarrow> sgn m * (\<bar>m\<bar> div 10 ^ nat (- e))
      | Some (JStr s) \<Rightarrow> parse_int_lenient (trim_space s)
      | _ \<Rightarrow> 0)"

text \<open>The answer to \<^verbatim>\<open>xray api statsquery\<close>; no result when it cannot be decoded.\<close>

definition stat_entry :: "json \<Rightarrow> (string \<times> json option) option" where
  "stat_entry v =
     (case v of
        JObj d \<Rightarrow> map_option (\<lambda>n. (n, struct_key d ''value'')) (struct_str d ''name'')
      | JNull \<Rightarrow> Some ([], None)
      | _ \<Rightarrow> None)"

definition StatsQuery :: "raw_json \<Rightarrow> stat_counter list option" where
  "StatsQuery out =
     (case out of
        Some JNull \<Rightarrow> Some []
      | Some (JObj d) \<Rightarrow>
          (case struct_key d ''stat'' of
             None \<Rightarrow> Some []
           | Some JNull \<Rightarrow> Some []
           | Some (JArr xs) \<Rightarrow>
               (if list_ex (\<lambda>x. stat_entry x = None) xs then None
                else Some (List.map_filter (\<lambda>(n, v). ParseStatName n (StatValueToInt v)) (List.map_filter stat_entry xs)))
           | Some _ \<Rightarrow> None)
      | _ \<Rightarrow> None)"

definition HourFloor :: "time \<Rightarrow> int" where
  "HourFloor t = t div hours 1 * 3600"

section \<open>Names of the tags\<close>

record tag_index =
  ti_in :: "(string, string) dict"
  ti_out :: "(string, string) dict"
  ti_user :: "(string, string) dict"

definition index_inbound :: "db \<Rightarrow> inbound \<Rightarrow> tag_index \<Rightarrow> tag_index" where
  "index_inbound d i idx =
     (let email = (if in_ClientEmail i = [] then PrimaryUserEmail (in_Name i) else in_ClientEmail i)
      in idx\<lparr>ti_in := dput (InboundTag (in_Name i)) (in_Name i) (ti_in idx),
             ti_user := fold (\<lambda>u. dput (u_Email u) (in_Name i @ ''/'' @ u_Name u)) (InboundUsers d (in_ID i))
                          (dput email (in_Name i) (ti_user idx))\<rparr>)"

definition buildTagIndex :: "db \<Rightarrow> tag_index" where
  "buildTagIndex d =
     (let idx = fold (index_inbound d) (ListInbounds d) \<lparr>ti_in = [], ti_out = dput ''direct'' ''direct'' [], ti_user = []\<rparr>
      in idx\<lparr>ti_out := fold (\<lambda>e. dput (OutboundTag (e_Name e)) (e_Name e)) (ListEntries d) (ti_out idx)\<rparr>)"

definition lookup_tag :: "tag_index \<Rightarrow> string \<Rightarrow> string \<Rightarrow> string option" where
  "lookup_tag idx kind tag =
     (if kind = KindInbound then map_of (ti_in idx) tag
      else if kind = KindUser then map_of (ti_user idx) tag
      else map_of (ti_out idx) tag)"

section \<open>The sampler\<close>

record sampler =
  sm_last :: "(string, int) dict"
  sm_overCap :: "(string, bool) dict"
  sm_lastPrune :: int

definition NewTrafficSampler :: sampler where
  "NewTrafficSampler = \<lparr>sm_last = [], sm_overCap = [], sm_lastPrune = 0\<rparr>"

record agg =
  ag_up :: int
  ag_down :: int
  ag_name :: string

definition dirKey :: "bool \<Rightarrow> string" where
  "dirKey down = (if down then ''d'' else ''u'')"

definition tag_key :: "string \<Rightarrow> string \<Rightarrow> string" where
  "tag_key kind tag = kind @ ''|'' @ tag"

definition cursor_key :: "stat_counter \<Rightarrow> string" where
  "cursor_key c = sc_Kind c @ ''|'' @ sc_Tag c @ ''|'' @ dirKey (sc_Down c)"

definition splitKey :: "string \<Rightarrow> string \<times> string" where
  "splitKey key = (case cut ''|'' key of Some p \<Rightarrow> p | None \<Rightarrow> (key, []))"

text \<open>What a counter adds to what it showed last: a counter that went backwards started again.\<close>

definition stat_delta :: "int \<Rightarrow> int \<Rightarrow> int" where
  "stat_delta prev v = (if v - prev < 0 then v else v - prev)"

definition add_agg :: "stat_counter \<Rightarrow> int \<Rightarrow> agg \<Rightarrow> agg" where
  "add_agg c delta a = (if sc_Down c then a\<lparr>ag_down := ag_down a + delta\<rparr> else a\<lparr>ag_up := ag_up a + delta\<rparr>)"

type_synonym sampling = "(string, int) dict \<times> (string, agg) dict"

definition sample_counter :: "tag_index \<Rightarrow> stat_counter \<Rightarrow> sampling \<Rightarrow> sampling" where
  "sample_counter idx c st =
     (case st of (last_seen, byTag) \<Rightarrow>
        let delta = stat_delta (dget_or 0 last_seen (cursor_key c)) (sc_Bytes c);
            last' = dput (cursor_key c) (sc_Bytes c) last_seen
        in case lookup_tag idx (sc_Kind c) (sc_Tag c) of
             None \<Rightarrow> (last', byTag)
           | Some name \<Rightarrow>
               let key = tag_key (sc_Kind c) (sc_Tag c);
                   a = dget_or \<lparr>ag_up = 0, ag_down = 0, ag_name = name\<rparr> byTag key
               in (last', dput key (add_agg c delta a) byTag))"

definition store_agg :: "int \<Rightarrow> string \<times> agg \<Rightarrow> db \<Rightarrow> db" where
  "store_agg hour ka d =
     (case ka of (key, a) \<Rightarrow>
        if ag_up a = 0 \<and> ag_down a = 0 then d
        else case splitKey key of (kind, tag) \<Rightarrow> AddTraffic kind tag (ag_name a) hour (ag_up a) (ag_down a) d)"

text \<open>Users over their cap; a change in either direction asks for a reconcile.\<close>

definition over_cap :: "db \<Rightarrow> inbound_user \<Rightarrow> bool" where
  "over_cap d u = (case TrafficTotalFor d KindUser (u_Email u) of (up, down) \<Rightarrow> up + down \<ge> u_ByteCap u)"

definition cap_user :: "db \<Rightarrow> inbound_user \<Rightarrow> (string, bool) dict \<times> bool \<Rightarrow> (string, bool) dict \<times> bool" where
  "cap_user d u st =
     (case st of (ov, trigger) \<Rightarrow>
        if \<not> u_Enabled u \<or> u_ByteCap u \<le> 0 then st
        else if over_cap d u \<and> \<not> dget_or False ov (u_Email u) then (dput (u_Email u) True ov, True)
        else if \<not> over_cap d u \<and> dget_or False ov (u_Email u) then (ddel (u_Email u) ov, True)
        else st)"

definition enforceCaps :: "db \<Rightarrow> (string, bool) dict \<Rightarrow> (string, bool) dict \<times> bool" where
  "enforceCaps d ov = fold (\<lambda>i. fold (cap_user d) (InboundUsers d (in_ID i))) (ListInbounds d) (ov, False)"

text \<open>A duration is a 64-bit number of nanoseconds, and a product of two wraps around.\<close>

definition wrap64 :: "int \<Rightarrow> int" where
  "wrap64 n = (n + 2 ^ 63) mod 2 ^ 64 - 2 ^ 63"

definition retention :: "db \<Rightarrow> time" where
  "retention d = wrap64 (TrafficDays d * hours 24)"

definition prune_stale :: "time \<Rightarrow> db \<Rightarrow> db" where
  "prune_stale now d = PruneTrafficBefore d (HourFloor (now + wrap64 (- retention d)))"

definition poll_traffic :: "'p world \<Rightarrow> 'p turn \<Rightarrow> stat_counter list option \<Rightarrow> sampler \<times> 'p box \<Rightarrow> sampler \<times> 'p box" where
  "poll_traffic w tn counters sb =
     (case (sb, counters) of
        (_, None) \<Rightarrow> sb
      | ((s, b), Some cs) \<Rightarrow>
          let hour = HourFloor (tn_now tn);
              (last', byTag) = fold (sample_counter (buildTagIndex (bx_db b))) cs (sm_last s, []);
              d1 = fold (store_agg hour) byTag (bx_db b);
              (ov, trigger) = enforceCaps d1 (sm_overCap s);
              b1 = b\<lparr>bx_db := d1\<rparr>;
              b2 = (if trigger then snd (Reconcile w tn b1) else b1);
              s1 = s\<lparr>sm_last := last', sm_overCap := ov\<rparr>
          in if hour = sm_lastPrune s then (s1, b2)
             else (s1\<lparr>sm_lastPrune := hour\<rparr>, b2\<lparr>bx_db := prune_stale (tn_now tn) (bx_db b2)\<rparr>))"

section \<open>The report\<close>

record traffic_item =
  tr_Kind :: string
  tr_Name :: string
  tr_TotalUp :: int
  tr_TotalDown :: int
  tr_WindowUp :: int
  tr_WindowDown :: int
  tr_HourlyUp :: "int list"
  tr_HourlyDown :: "int list"

definition report_window :: "db \<Rightarrow> int \<Rightarrow> time" where
  "report_window d sec =
     (let w0 = wrap64 (seconds sec); w1 = (if w0 \<le> 0 then hours 24 else w0)
      in if w1 > retention d then retention d else w1)"

text \<open>Go's division of integers truncates toward zero.\<close>

definition report_buckets :: "time \<Rightarrow> nat" where
  "report_buckets window = (if window < hours 1 then 1 else nat (window div hours 1))"

definition add_hour :: "int \<Rightarrow> traffic_bucket \<Rightarrow> traffic_item \<Rightarrow> traffic_item" where
  "add_hour since b it =
     (let i = nat ((tb_Hour b - since) div 3600)
      in if tb_Hour b < since \<or> length (tr_HourlyUp it) \<le> i then it
         else it\<lparr>tr_HourlyUp := (tr_HourlyUp it)[i := tr_HourlyUp it ! i + tb_Up b],
                tr_HourlyDown := (tr_HourlyDown it)[i := tr_HourlyDown it ! i + tb_Down b],
                tr_WindowUp := tr_WindowUp it + tb_Up b, tr_WindowDown := tr_WindowDown it + tb_Down b\<rparr>)"

definition traffic_row :: "db \<Rightarrow> int \<Rightarrow> nat \<Rightarrow> traffic_total \<Rightarrow> traffic_item" where
  "traffic_row d since buckets t =
     fold (add_hour since) (TrafficBucketsSince d (tt_Kind t) (tt_Tag t) since)
       \<lparr>tr_Kind = tt_Kind t, tr_Name = tt_Name t, tr_TotalUp = tt_Up t, tr_TotalDown = tt_Down t, tr_WindowUp = 0, tr_WindowDown = 0,
        tr_HourlyUp = replicate buckets 0, tr_HourlyDown = replicate buckets 0\<rparr>"

definition sortTrafficDesc :: "traffic_item list \<Rightarrow> traffic_item list" where
  "sortTrafficDesc = go_sort (\<lambda>a b. tr_TotalDown a + tr_TotalUp a > tr_TotalDown b + tr_TotalUp b)"

definition since_hour :: "time \<Rightarrow> nat \<Rightarrow> int" where
  "since_hour now buckets = HourFloor now - (int buckets - 1) * 3600"

definition TrafficReport :: "db \<Rightarrow> time \<Rightarrow> int \<Rightarrow> traffic_item list \<times> traffic_item list \<times> nat" where
  "TrafficReport d now sec =
     (let n = report_buckets (report_window d sec);
          rows = map (traffic_row d (since_hour now n) n) (TrafficTotals d)
      in (sortTrafficDesc (filter (\<lambda>r. tr_Kind r = KindInbound) rows),
          sortTrafficDesc (filter (\<lambda>r. tr_Kind r \<noteq> KindInbound) rows), n))"

record live_item =
  li_Kind :: string
  li_Name :: string
  li_Up :: int
  li_Down :: int

definition live_counter :: "tag_index \<Rightarrow> stat_counter \<Rightarrow> (string, live_item) dict \<Rightarrow> (string, live_item) dict" where
  "live_counter idx c byKey =
     (case lookup_tag idx (sc_Kind c) (sc_Tag c) of
        None \<Rightarrow> byKey
      | Some name \<Rightarrow>
          let key = tag_key (sc_Kind c) (sc_Tag c);
              li = dget_or \<lparr>li_Kind = sc_Kind c, li_Name = name, li_Up = 0, li_Down = 0\<rparr> byKey key
          in dput key (if sc_Down c then li\<lparr>li_Down := sc_Bytes c\<rparr> else li\<lparr>li_Up := sc_Bytes c\<rparr>) byKey)"

definition TrafficLive :: "db \<Rightarrow> stat_counter list \<Rightarrow> live_item list" where
  "TrafficLive d counters =
     go_sort (\<lambda>a b. if li_Kind a \<noteq> li_Kind b then li_Kind a < li_Kind b else li_Name a < li_Name b)
       (map snd (fold (live_counter (buildTagIndex d)) counters []))"

end
