(* ===== verification/Traffic_Props.thy ===== *)
theory Traffic_Props
  imports Traffic Store_Props
begin

text \<open>
  What the sampler promises: the lifetime total of a tag is what xray counted, across restarts of xray; a
  user over the cap is noticed and reconciled out; the report's hours add up. And where the retention of
  buckets overflows.
\<close>

section \<open>Totals\<close>

lemma find_upsert_total:
  "List.find (\<lambda>x. tt_Kind x = k \<and> tt_Tag x = g) (upsert_total t ts) =
     (if tt_Kind t = k \<and> tt_Tag t = g
      then Some (case List.find (\<lambda>x. tt_Kind x = k \<and> tt_Tag x = g) ts of
             Some x \<Rightarrow> x\<lparr>tt_Up := tt_Up x + tt_Up t, tt_Down := tt_Down x + tt_Down t, tt_Name := tt_Name t\<rparr> | None \<Rightarrow> t)
      else List.find (\<lambda>x. tt_Kind x = k \<and> tt_Tag x = g) ts)"
  by (induction t ts rule: upsert_total.induct) auto

definition add2 :: "int \<times> int \<Rightarrow> int \<times> int \<Rightarrow> int \<times> int" where
  "add2 p q = (fst p + fst q, snd p + snd q)"

lemma add2_simps [simp]: "add2 p (0, 0) = p" "fst (add2 p q) = fst p + fst q" "snd (add2 p q) = snd p + snd q"
  by (simp_all add: add2_def)

lemma TrafficTotalFor_AddTraffic:
  "TrafficTotalFor (AddTraffic k g n h up down d) k' g' =
     (if k' = k \<and> g' = g then add2 (TrafficTotalFor d k g) (up, down) else TrafficTotalFor d k' g')"
  by (auto simp: TrafficTotalFor_def AddTraffic_def find_upsert_total add2_def split: option.splits)

definition agg_bytes :: "(string, agg) dict \<Rightarrow> string \<Rightarrow> int \<times> int" where
  "agg_bytes byTag key = (case map_of byTag key of Some a \<Rightarrow> (ag_up a, ag_down a) | None \<Rightarrow> (0, 0))"

lemma agg_bytes_Nil: "agg_bytes [] key = (0, 0)"
  by (simp add: agg_bytes_def)

text \<open>The kinds of counters have no separator in them, so that a key names one tag.\<close>

definition kind_ok :: "string \<Rightarrow> bool" where
  "kind_ok k \<longleftrightarrow> k \<in> {KindInbound, KindOutbound, KindUser}"

lemma kind_ok_bar: "kind_ok k \<Longrightarrow> CHR ''|'' \<notin> set k"
  by (auto simp: kind_ok_def traffic_kinds)

lemma splitKey_tag_key [simp]: "kind_ok k \<Longrightarrow> splitKey (tag_key k g) = (k, g)"
  using kind_ok_bar [of k] by (simp add: splitKey_def tag_key_def)

lemma bar_inj: "CHR ''|'' \<notin> set k \<Longrightarrow> CHR ''|'' \<notin> set k' \<Longrightarrow> k @ CHR ''|'' # x = k' @ CHR ''|'' # y \<longleftrightarrow> k = k' \<and> x = y"
proof -
  assume k: "CHR ''|'' \<notin> set k" "CHR ''|'' \<notin> set k'"
  show ?thesis
  proof
    assume eq: "k @ CHR ''|'' # x = k' @ CHR ''|'' # y"
    have "Some (k, x) = cut ''|'' (k @ CHR ''|'' # x)" by (rule cut_char_append [OF k(1), symmetric])
    also have "\<dots> = Some (k', y)" unfolding eq by (rule cut_char_append [OF k(2)])
    finally show "k = k' \<and> x = y" by simp
  qed simp
qed

lemma tag_key_inj: "kind_ok k \<Longrightarrow> kind_ok k' \<Longrightarrow> tag_key k g = tag_key k' g' \<longleftrightarrow> k = k' \<and> g = g'"
  using bar_inj [OF kind_ok_bar kind_ok_bar, of k k' g g'] by (simp add: tag_key_def)

definition cursor :: "string \<Rightarrow> string \<Rightarrow> bool \<Rightarrow> string" where
  "cursor k g down = k @ ''|'' @ g @ ''|'' @ dirKey down"

lemma dirKey_inj [simp]: "g @ CHR ''|'' # dirKey x = g' @ CHR ''|'' # dirKey y \<longleftrightarrow> g = g' \<and> x = y"
  by (auto simp: dirKey_def)

lemma cursor_key_eq: "kind_ok (sc_Kind c) \<Longrightarrow> kind_ok k \<Longrightarrow> cursor_key c = cursor k g down \<longleftrightarrow> sc_Kind c = k \<and> sc_Tag c = g \<and> sc_Down c = down"
  using bar_inj [OF kind_ok_bar kind_ok_bar, of "sc_Kind c" k "sc_Tag c @ ''|'' @ dirKey (sc_Down c)" "g @ ''|'' @ dirKey down"]
  by (simp add: cursor_key_def cursor_def)

lemma StatsQuery_kinds: "StatsQuery out = Some cs \<Longrightarrow> c \<in> set cs \<Longrightarrow> kind_ok (sc_Kind c)"
proof -
  assume q: "StatsQuery out = Some cs" "c \<in> set cs"
  have p: "ParseStatName n v = Some c \<Longrightarrow> kind_ok (sc_Kind c)" for n v
    by (auto simp: ParseStatName_def kind_ok_def split: list.splits if_splits)
  from q obtain n v where "ParseStatName n v = Some c"
    by (force simp: StatsQuery_def map_filter_def split: option.splits json.splits if_splits)
  then show ?thesis by (rule p)
qed

lemma TrafficTotalFor_store_agg:
  assumes "kind_ok k" and "kind_ok k'"
  shows "TrafficTotalFor (store_agg h (tag_key k g, a) d) k' g' =
    (if k' = k \<and> g' = g then add2 (TrafficTotalFor d k g) (ag_up a, ag_down a) else TrafficTotalFor d k' g')"
  using assms by (auto simp: store_agg_def TrafficTotalFor_AddTraffic)

definition keys_ok :: "(string, agg) dict \<Rightarrow> bool" where
  "keys_ok byTag \<longleftrightarrow> dict_ok byTag \<and> (\<forall>key \<in> fst ` set byTag. \<exists>k g. kind_ok k \<and> key = tag_key k g)"

lemma TrafficTotalFor_store_all:
  "keys_ok byTag \<Longrightarrow> kind_ok k \<Longrightarrow>
     TrafficTotalFor (fold (store_agg h) byTag d) k g = add2 (TrafficTotalFor d k g) (agg_bytes byTag (tag_key k g))"
proof (induction byTag arbitrary: d)
  case (Cons p byTag)
  obtain k0 g0 a where p: "p = (tag_key k0 g0, a)" "kind_ok k0"
    using Cons.prems(1) by (cases p) (auto simp: keys_ok_def)
  have fresh: "map_of byTag (tag_key k0 g0) = None"
    using Cons.prems(1) p by (auto simp: keys_ok_def dict_ok_Cons map_of_eq_None_iff)
  have "keys_ok byTag" using Cons.prems(1) by (simp add: keys_ok_def dict_ok_Cons)
  with Cons.IH [of "store_agg h p d"] Cons.prems(2)
  have ih: "TrafficTotalFor (fold (store_agg h) (p # byTag) d) k g = add2 (TrafficTotalFor (store_agg h p d) k g) (agg_bytes byTag (tag_key k g))"
    by simp
  show ?case
    using ih fresh Cons.prems(2) p
    by (auto simp: TrafficTotalFor_store_agg tag_key_inj agg_bytes_def add2_def split: option.splits)
qed (simp add: agg_bytes_def)

section \<open>Sampling\<close>

text \<open>What a sequence of readings of one counter credits.\<close>

fun credit :: "int \<Rightarrow> int list \<Rightarrow> int" where
  "credit prev [] = 0"
| "credit prev (v # vs) = stat_delta prev v + credit v vs"

lemma credit_append: "credit prev (xs @ ys) = credit prev xs + credit (last (prev # xs)) ys"
  by (induction prev xs rule: credit.induct) auto

definition readings :: "string \<Rightarrow> stat_counter list \<Rightarrow> int list" where
  "readings cur cs = map sc_Bytes (filter (\<lambda>c. cursor_key c = cur) cs)"

lemma readings_append: "readings cur (xs @ ys) = readings cur xs @ readings cur ys"
  by (simp add: readings_def)

lemma dget_or_dput [simp]: "dget_or z (dput k v d) k' = (if k' = k then v else dget_or z d k')"
  by (simp add: dget_or_def)

lemma sample_last:
  "dget_or 0 (fst (fold (sample_counter idx) cs (last_seen, byTag))) cur = last (dget_or 0 last_seen cur # readings cur cs)"
proof (induction cs arbitrary: last_seen byTag)
  case (Cons c cs)
  obtain byTag' where s: "sample_counter idx c (last_seen, byTag) = (dput (cursor_key c) (sc_Bytes c) last_seen, byTag')"
    by (cases "lookup_tag idx (sc_Kind c) (sc_Tag c)") (auto simp: sample_counter_def Let_def)
  show ?case using Cons.IH [of "dput (cursor_key c) (sc_Bytes c) last_seen" byTag'] by (simp add: s readings_def)
qed (simp add: readings_def)

definition pick_dir :: "bool \<Rightarrow> int \<times> int \<Rightarrow> int" where
  "pick_dir down p = (if down then snd p else fst p)"

lemma pick_dir_0 [simp]: "pick_dir down (0, 0) = 0"
  by (simp add: pick_dir_def)

lemma pick_dir_add2 [simp]: "pick_dir down (add2 p q) = pick_dir down p + pick_dir down q"
  by (simp add: pick_dir_def)

lemma keys_ok_sample:
  assumes "keys_ok byTag" "kind_ok (sc_Kind c)"
  shows "keys_ok (snd (sample_counter idx c (last_seen, byTag)))"
proof (cases "lookup_tag idx (sc_Kind c) (sc_Tag c)")
  case None
  with assms(1) show ?thesis by (simp add: sample_counter_def Let_def)
next
  case (Some name)
  have "\<exists>k g. kind_ok k \<and> key = tag_key k g" if "key \<in> fst ` set (dput (tag_key (sc_Kind c) (sc_Tag c)) a byTag)" for key a
    using that assms unfolding keys_dput keys_ok_def by blast
  then show ?thesis using Some assms(1) by (simp add: sample_counter_def Let_def keys_ok_def)
qed

lemma sample_keys_ok:
  "keys_ok byTag \<Longrightarrow> \<forall>c \<in> set cs. kind_ok (sc_Kind c) \<Longrightarrow> keys_ok (snd (fold (sample_counter idx) cs (last_seen, byTag)))"
proof (induction cs arbitrary: last_seen byTag)
  case (Cons c cs)
  obtain l' b' where s: "sample_counter idx c (last_seen, byTag) = (l', b')" by fastforce
  have "keys_ok b'" using keys_ok_sample [of byTag c idx last_seen] Cons.prems s by simp
  with Cons s show ?case by simp
qed simp

text \<open>One counter adds its growth to the bytes of its own tag and direction.\<close>

lemma sample_one:
  assumes "kind_ok (sc_Kind c)" "kind_ok k" "lookup_tag idx k g \<noteq> None"
  shows "pick_dir down (agg_bytes (snd (sample_counter idx c (last_seen, byTag))) (tag_key k g)) =
    pick_dir down (agg_bytes byTag (tag_key k g)) +
      (if cursor_key c = cursor k g down then stat_delta (dget_or 0 last_seen (cursor_key c)) (sc_Bytes c) else 0)"
proof (cases "sc_Kind c = k \<and> sc_Tag c = g")
  case True
  then obtain name where n: "lookup_tag idx (sc_Kind c) (sc_Tag c) = Some name" using assms(3) by auto
  show ?thesis
    using True n assms(1,2)
    by (auto simp: sample_counter_def Let_def cursor_key_eq agg_bytes_def add_agg_def dget_or_def pick_dir_def split: option.splits)
next
  case False
  then have "tag_key k g \<noteq> tag_key (sc_Kind c) (sc_Tag c)" "cursor_key c \<noteq> cursor k g down"
    using assms(1,2) by (auto simp: tag_key_inj cursor_key_eq)
  then show ?thesis by (auto simp: sample_counter_def Let_def agg_bytes_def split: option.splits)
qed

lemma sample_credit:
  assumes "\<forall>c \<in> set cs. kind_ok (sc_Kind c)" "kind_ok k" "lookup_tag idx k g \<noteq> None"
  shows "pick_dir down (agg_bytes (snd (fold (sample_counter idx) cs (last_seen, byTag))) (tag_key k g)) =
    pick_dir down (agg_bytes byTag (tag_key k g)) + credit (dget_or 0 last_seen (cursor k g down)) (readings (cursor k g down) cs)"
  using assms(1)
proof (induction cs arbitrary: last_seen byTag)
  case (Cons c cs)
  obtain l' b' where s: "sample_counter idx c (last_seen, byTag) = (l', b')" by fastforce
  have l': "l' = dput (cursor_key c) (sc_Bytes c) last_seen"
    using s by (auto simp: sample_counter_def Let_def split: option.splits)
  have one: "pick_dir down (agg_bytes b' (tag_key k g)) = pick_dir down (agg_bytes byTag (tag_key k g)) +
      (if cursor_key c = cursor k g down then stat_delta (dget_or 0 last_seen (cursor_key c)) (sc_Bytes c) else 0)"
    using sample_one [OF _ assms(2,3), of c down last_seen byTag] Cons.prems s by simp
  have "pick_dir down (agg_bytes (snd (fold (sample_counter idx) cs (l', b'))) (tag_key k g)) =
      pick_dir down (agg_bytes b' (tag_key k g)) + credit (dget_or 0 l' (cursor k g down)) (readings (cursor k g down) cs)"
    by (rule Cons.IH) (use Cons.prems in simp)
  then show ?case using s one by (auto simp: readings_def l')
qed (simp add: readings_def)

section \<open>What a reconcile keeps\<close>

lemma Reconcile_totals: "db_totals (bx_db (snd (Reconcile w tn b))) = db_totals (bx_db b)"
proof -
  have "db_totals (fold (\<lambda>i. UpdateInbound (ins ! i)) js d) = db_totals d" for ins js d
    by (induction js arbitrary: d) (simp_all add: UpdateInbound_def)
  then show ?thesis by (simp add: Reconcile_db with_ports_def split: prod.splits)
qed

lemma TrafficTotalFor_totals: "db_totals d' = db_totals d \<Longrightarrow> TrafficTotalFor d' k g = TrafficTotalFor d k g"
  by (simp add: TrafficTotalFor_def)

section \<open>A run of the sampler\<close>

lemma poll_traffic_silent [simp]: "poll_traffic w tn None sb = sb"
  by (cases sb) (simp add: poll_traffic_def)

lemma poll_traffic_step:
  assumes "poll_traffic w tn (Some cs) (s, b) = (s', b')" "\<forall>c \<in> set cs. kind_ok (sc_Kind c)" "kind_ok k"
    "lookup_tag (buildTagIndex (bx_db b)) k g \<noteq> None"
  shows "dget_or 0 (sm_last s') cur = last (dget_or 0 (sm_last s) cur # readings cur cs)"
    and "pick_dir down (TrafficTotalFor (bx_db b') k g) = pick_dir down (TrafficTotalFor (bx_db b) k g) +
      credit (dget_or 0 (sm_last s) (cursor k g down)) (readings (cursor k g down) cs)"
proof -
  let ?idx = "buildTagIndex (bx_db b)"
  obtain l' byTag where f: "fold (sample_counter ?idx) cs (sm_last s, []) = (l', byTag)" by fastforce
  let ?d1 = "fold (store_agg (HourFloor (tn_now tn))) byTag (bx_db b)"
  obtain ov tr where e: "enforceCaps ?d1 (sm_overCap s) = (ov, tr)" by fastforce
  have l: "sm_last s' = l'" using assms(1) f e by (auto simp: poll_traffic_def Let_def split: if_splits)
  show "dget_or 0 (sm_last s') cur = last (dget_or 0 (sm_last s) cur # readings cur cs)"
    using sample_last [of ?idx cs "sm_last s" "[]" cur] f l by simp
  have tot: "db_totals (bx_db b') = db_totals ?d1"
    using assms(1) f e by (auto simp: poll_traffic_def Let_def prune_stale_def PruneTrafficBefore_def Reconcile_totals split: if_splits)
  have "keys_ok byTag" using sample_keys_ok [of "[]" cs ?idx "sm_last s"] assms(2) f by (simp add: keys_ok_def)
  then have "TrafficTotalFor (bx_db b') k g = add2 (TrafficTotalFor (bx_db b) k g) (agg_bytes byTag (tag_key k g))"
    using TrafficTotalFor_store_all assms(3) TrafficTotalFor_totals [OF tot] by simp
  then show "pick_dir down (TrafficTotalFor (bx_db b') k g) = pick_dir down (TrafficTotalFor (bx_db b) k g) +
      credit (dget_or 0 (sm_last s) (cursor k g down)) (readings (cursor k g down) cs)"
    using sample_credit [OF assms(2,3,4), of down "sm_last s" "[]"] f agg_bytes_Nil [of "tag_key k g"] by simp
qed

text \<open>The sampler polls again and again, xray answers or not, and anything else may happen to the daemon in
  between that keeps the tag's name and leaves its total alone.\<close>

inductive sampled :: "'p world \<Rightarrow> string \<Rightarrow> string \<Rightarrow> sampler \<times> 'p box \<Rightarrow> stat_counter list \<Rightarrow> sampler \<times> 'p box \<Rightarrow> bool"
  for w k g where
  nothing: "sampled w k g sb [] sb"
| poll: "StatsQuery out = Some cs \<Longrightarrow> lookup_tag (buildTagIndex (bx_db (snd sb))) k g \<noteq> None \<Longrightarrow>
    sampled w k g (poll_traffic w tn (Some cs) sb) cs' sb' \<Longrightarrow> sampled w k g sb (cs @ cs') sb'"
| silence: "sampled w k g (poll_traffic w tn None sb) cs' sb' \<Longrightarrow> sampled w k g sb cs' sb'"
| meanwhile: "TrafficTotalFor (bx_db b') k g = TrafficTotalFor (bx_db b) k g \<Longrightarrow> sampled w k g (s, b') cs' sb' \<Longrightarrow>
    sampled w k g (s, b) cs' sb'"

lemma sampled_credit:
  assumes "sampled w k g sb cs sb'" "kind_ok k"
  shows "pick_dir down (TrafficTotalFor (bx_db (snd sb')) k g) = pick_dir down (TrafficTotalFor (bx_db (snd sb)) k g) +
    credit (dget_or 0 (sm_last (fst sb)) (cursor k g down)) (readings (cursor k g down) cs)"
  using assms(1)
proof (induction rule: sampled.induct)
  case (poll out cs sb tn cs' sb')
  obtain s b where sb: "sb = (s, b)" by (cases sb)
  obtain s1 b1 where p: "poll_traffic w tn (Some cs) (s, b) = (s1, b1)" by fastforce
  have k: "\<forall>c \<in> set cs. kind_ok (sc_Kind c)" using StatsQuery_kinds [OF poll.hyps(1)] by blast
  note st = poll_traffic_step [OF p k assms(2)]
  show ?case using poll.IH poll.hyps(2) st by (simp add: sb p readings_append credit_append)
qed (simp_all add: readings_def)

section \<open>Restarts of xray\<close>

text \<open>Within one life of xray a counter only grows, from zero.\<close>

definition epoch :: "int list \<Rightarrow> bool" where
  "epoch vs \<longleftrightarrow> vs \<noteq> [] \<and> sorted (0 # vs)"

lemma credit_sorted: "sorted (prev # vs) \<Longrightarrow> credit prev vs = last (prev # vs) - prev"
  by (induction prev vs rule: credit.induct) (auto simp: stat_delta_def)

lemma credit_epoch: "epoch vs \<Longrightarrow> credit prev vs = last vs - (if hd vs < prev then 0 else prev)"
  by (cases vs) (auto simp: epoch_def stat_delta_def credit_sorted)

lemma last_epoch_nonneg: "epoch vs \<Longrightarrow> 0 \<le> last vs"
  by (auto simp: epoch_def)

fun restarts_seen :: "int \<Rightarrow> int list list \<Rightarrow> bool" where
  "restarts_seen prev [] = True"
| "restarts_seen prev (vs # es) = ((prev = 0 \<or> hd vs < prev) \<and> restarts_seen (last vs) es)"

lemma credit_epochs_le: "list_all epoch es \<Longrightarrow> 0 \<le> prev \<Longrightarrow> credit prev (concat es) \<le> sum_list (map last es)"
proof (induction es arbitrary: prev)
  case (Cons vs es)
  have "credit prev vs \<le> last vs" using Cons.prems by (simp add: credit_epoch)
  moreover have "credit (last vs) (concat es) \<le> sum_list (map last es)"
    using Cons by (simp add: last_epoch_nonneg)
  ultimately show ?case using Cons.prems by (simp add: credit_append epoch_def)
qed simp

lemma credit_epochs: "list_all epoch es \<Longrightarrow> restarts_seen prev es \<Longrightarrow> credit prev (concat es) = sum_list (map last es)"
proof (induction es arbitrary: prev)
  case (Cons vs es)
  have "credit prev vs = last vs" using Cons.prems by (auto simp: credit_epoch)
  with Cons show ?case by (simp add: credit_append epoch_def)
qed simp


section \<open>Caps\<close>

definition listed_users :: "db \<Rightarrow> inbound_user list" where
  "listed_users d = concat (map (\<lambda>i. InboundUsers d (in_ID i)) (ListInbounds d))"

definition capped_users :: "db \<Rightarrow> inbound_user list" where
  "capped_users d = filter (\<lambda>u. u_Enabled u \<and> 0 < u_ByteCap u) (listed_users d)"

lemma fold_concat_map: "fold (\<lambda>x. fold f (g x)) xs = fold f (concat (map g xs))"
  by (induction xs) (auto simp: fun_eq_iff)

lemma enforceCaps_fold: "enforceCaps d ov = fold (cap_user d) (capped_users d) (ov, False)"
proof -
  have skip: "fold (cap_user d) us st = fold (cap_user d) (filter (\<lambda>u. u_Enabled u \<and> 0 < u_ByteCap u) us) st" for us st
    by (induction us arbitrary: st) (auto simp: cap_user_def split: prod.splits)
  show ?thesis by (simp add: enforceCaps_def fold_concat_map capped_users_def listed_users_def skip [of "concat _"])
qed

lemma dget_or_ddel [simp]: "dget_or z (ddel k d) k' = (if k' = k then z else dget_or z d k')"
  by (simp add: dget_or_def)

lemma cap_user_one:
  assumes "u_Enabled u" "0 < u_ByteCap u" "cap_user d u (ov, tr) = (ov', tr')"
  shows "dget_or False ov' e = (if e = u_Email u then over_cap d u else dget_or False ov e)"
    and "tr' \<longleftrightarrow> tr \<or> over_cap d u \<noteq> dget_or False ov (u_Email u)"
  using assms by (auto simp: cap_user_def split: if_splits)

lemma cap_users:
  assumes "\<forall>u \<in> set us. u_Enabled u \<and> 0 < u_ByteCap u" "distinct (map u_Email us)" "fold (cap_user d) us (ov, tr) = (ov', tr')"
  shows "(\<forall>u \<in> set us. dget_or False ov' (u_Email u) = over_cap d u) \<and>
    (\<forall>e. e \<notin> u_Email ` set us \<longrightarrow> dget_or False ov' e = dget_or False ov e) \<and>
    (tr' \<longleftrightarrow> tr \<or> (\<exists>u \<in> set us. over_cap d u \<noteq> dget_or False ov (u_Email u)))"
  using assms
proof (induction us arbitrary: ov tr)
  case (Cons u us)
  obtain ov1 tr1 where one: "cap_user d u (ov, tr) = (ov1, tr1)" by fastforce
  note st = cap_user_one [OF _ _ one]
  have ih: "(\<forall>x \<in> set us. dget_or False ov' (u_Email x) = over_cap d x) \<and>
    (\<forall>e. e \<notin> u_Email ` set us \<longrightarrow> dget_or False ov' e = dget_or False ov1 e) \<and>
    (tr' \<longleftrightarrow> tr1 \<or> (\<exists>x \<in> set us. over_cap d x \<noteq> dget_or False ov1 (u_Email x)))"
    by (rule Cons.IH) (use Cons.prems one in simp_all)
  have u: "u_Enabled u" "0 < u_ByteCap u" "u_Email u \<notin> u_Email ` set us" using Cons.prems by auto
  have same: "dget_or False ov1 (u_Email x) = dget_or False ov (u_Email x)" if "x \<in> set us" for x
  proof -
    have "u_Email x \<noteq> u_Email u" using u(3) that by (metis image_eqI)
    then show ?thesis using st(1) [OF u(1,2)] by simp
  qed
  show ?case using ih st(1) [OF u(1,2)] st(2) [OF u(1,2)] u(3) same by auto
qed simp

lemma enforceCaps_spec:
  assumes "distinct (map u_Email (capped_users d))" "enforceCaps d ov = (ov', tr)"
  shows "\<forall>u \<in> set (capped_users d). dget_or False ov' (u_Email u) = over_cap d u"
    and "tr \<longleftrightarrow> (\<exists>u \<in> set (capped_users d). over_cap d u \<noteq> dget_or False ov (u_Email u))"
proof -
  have "\<forall>u \<in> set (capped_users d). u_Enabled u \<and> 0 < u_ByteCap u" by (auto simp: capped_users_def)
  from cap_users [OF this assms(1), of d ov False ov' tr] assms(2)
  show "\<forall>u \<in> set (capped_users d). dget_or False ov' (u_Email u) = over_cap d u"
    and "tr \<longleftrightarrow> (\<exists>u \<in> set (capped_users d). over_cap d u \<noteq> dget_or False ov (u_Email u))"
    by (simp_all add: enforceCaps_fold)
qed

lemma store_all_frame:
  "db_users (fold (store_agg h) byTag d) = db_users d \<and> db_inbounds (fold (store_agg h) byTag d) = db_inbounds d"
  by (induction byTag arbitrary: d) (auto simp: store_agg_def AddTraffic_def split: prod.splits)

lemma capped_users_cong: "db_users d' = db_users d \<Longrightarrow> db_inbounds d' = db_inbounds d \<Longrightarrow> capped_users d' = capped_users d"
  by (simp add: capped_users_def listed_users_def InboundUsers_def ListInbounds_def)

lemma over_cap_denied: "over_cap d u \<Longrightarrow> 0 < u_ByteCap u \<Longrightarrow> u \<notin> set (activeUsers d i)"
  by (auto simp: activeUsers_def user_allowed_def over_cap_def KindUser_def split: prod.splits)

section \<open>The report\<close>

lemma sum_list_add_at: "i < length xs \<Longrightarrow> sum_list (xs[i := xs ! i + (y::int)]) = sum_list xs + y"
proof (induction xs arbitrary: i)
  case (Cons x xs)
  then show ?case by (cases i) auto
qed simp

definition in_window :: "int \<Rightarrow> nat \<Rightarrow> traffic_bucket \<Rightarrow> bool" where
  "in_window since n b \<longleftrightarrow> since \<le> tb_Hour b \<and> tb_Hour b < since + 3600 * int n"

lemma window_index: "since \<le> h \<Longrightarrow> nat ((h - since) div 3600) < n \<longleftrightarrow> h < since + 3600 * int n"
proof -
  assume h: "since \<le> h"
  have "x div 3600 < m \<longleftrightarrow> x < 3600 * m" for x m :: int
    using div_mult_mod_eq [of x 3600] pos_mod_bound [of 3600 x] pos_mod_sign [of 3600 x] by linarith
  from this [of "h - since" "int n"] show ?thesis using h by (simp add: nat_less_iff pos_imp_zdiv_nonneg_iff) linarith
qed

lemma add_hour_one:
  assumes "length (tr_HourlyUp it) = n" "length (tr_HourlyDown it) = n"
  shows "length (tr_HourlyUp (add_hour since b it)) = n \<and> length (tr_HourlyDown (add_hour since b it)) = n \<and>
    sum_list (tr_HourlyUp (add_hour since b it)) = sum_list (tr_HourlyUp it) + (if in_window since n b then tb_Up b else 0) \<and>
    sum_list (tr_HourlyDown (add_hour since b it)) = sum_list (tr_HourlyDown it) + (if in_window since n b then tb_Down b else 0) \<and>
    tr_WindowUp (add_hour since b it) = tr_WindowUp it + (if in_window since n b then tb_Up b else 0) \<and>
    tr_WindowDown (add_hour since b it) = tr_WindowDown it + (if in_window since n b then tb_Down b else 0)"
proof (cases "in_window since n b")
  case True
  then have "nat ((tb_Hour b - since) div 3600) < n" "\<not> tb_Hour b < since"
    by (auto simp: in_window_def window_index)
  with assms True show ?thesis by (simp add: add_hour_def Let_def sum_list_add_at)
next
  case False
  then have "tb_Hour b < since \<or> n \<le> nat ((tb_Hour b - since) div 3600)"
    using window_index [of since "tb_Hour b" n] by (auto simp: in_window_def not_less)
  with assms False show ?thesis by (simp add: add_hour_def Let_def)
qed

lemma add_hours:
  assumes "length (tr_HourlyUp it) = n" "length (tr_HourlyDown it) = n"
  shows "length (tr_HourlyUp (fold (add_hour since) bs it)) = n \<and> length (tr_HourlyDown (fold (add_hour since) bs it)) = n \<and>
    sum_list (tr_HourlyUp (fold (add_hour since) bs it)) = sum_list (tr_HourlyUp it) + sum_list (map tb_Up (filter (in_window since n) bs)) \<and>
    sum_list (tr_HourlyDown (fold (add_hour since) bs it)) = sum_list (tr_HourlyDown it) + sum_list (map tb_Down (filter (in_window since n) bs)) \<and>
    tr_WindowUp (fold (add_hour since) bs it) = tr_WindowUp it + sum_list (map tb_Up (filter (in_window since n) bs)) \<and>
    tr_WindowDown (fold (add_hour since) bs it) = tr_WindowDown it + sum_list (map tb_Down (filter (in_window since n) bs))"
  using assms
proof (induction bs arbitrary: it)
  case (Cons b bs)
  note one = add_hour_one [OF Cons.prems, of since b]
  show ?case using Cons.IH [of "add_hour since b it"] one by simp
qed simp

lemma sum_list_sort_key: "sum_list (map f (filter P (sort_key k xs))) = (sum_list (map f (filter P xs)) :: int)"
proof -
  have "mset (map f (filter P (sort_key k xs))) = mset (map f (filter P xs))" by (simp add: mset_filter)
  then show ?thesis by (metis sum_mset_sum_list)
qed

definition tag_window :: "db \<Rightarrow> traffic_total \<Rightarrow> int \<Rightarrow> nat \<Rightarrow> traffic_bucket list" where
  "tag_window d t since n = filter (\<lambda>b. tb_Kind b = tt_Kind t \<and> tb_Tag b = tt_Tag t \<and> in_window since n b) (db_buckets d)"

lemma filter_window: "filter (in_window since n) (filter (\<lambda>b. tb_Kind b = k \<and> tb_Tag b = g \<and> since \<le> tb_Hour b) bs) =
    filter (\<lambda>b. tb_Kind b = k \<and> tb_Tag b = g \<and> in_window since n b) bs"
  by (auto simp: in_window_def intro: filter_cong)

section \<open>Retention\<close>

lemma TrafficDays_pos: "1 \<le> TrafficDays d"
  by (auto simp: TrafficDays_def int_setting_def split: option.splits)

lemma wrap64_id: "- (2 ^ 63) \<le> n \<Longrightarrow> n < 2 ^ 63 \<Longrightarrow> wrap64 n = n"
  by (simp add: wrap64_def)

lemma hours_val: "hours n = n * 3600000000000"
  by (simp add: duration_defs)

lemma retention_fits: "TrafficDays d \<le> 106751 \<Longrightarrow> retention d = TrafficDays d * hours 24 \<and> wrap64 (- retention d) = - retention d \<and> 0 < retention d"
  using TrafficDays_pos [of d] by (simp add: retention_def hours_val wrap64_id)

lemma retention_wraps: "TrafficDays d = 106752 \<Longrightarrow> retention d = - 9223371273709551616 \<and> wrap64 (- retention d) = 9223371273709551616"
  by (simp add: retention_def hours_val wrap64_def)

section \<open>Properties\<close>

text \<open>C22. However often xray restarts, the sampler never counts a byte twice, and when every restart shows
  (the counter is lower than it was) the lifetime total of a tag grows by exactly what each life of xray
  had counted last.\<close>

theorem total_counts_every_life:
  assumes "sampled w k g (NewTrafficSampler, b) cs (s', b')" and "kind_ok k"
    and "readings (cursor k g down) cs = concat lives" and "list_all epoch lives"
  shows "pick_dir down (TrafficTotalFor (bx_db b') k g) \<le> pick_dir down (TrafficTotalFor (bx_db b) k g) + sum_list (map last lives) \<and>
    (restarts_seen 0 lives \<longrightarrow>
      pick_dir down (TrafficTotalFor (bx_db b') k g) = pick_dir down (TrafficTotalFor (bx_db b) k g) + sum_list (map last lives))"
  using sampled_credit [OF assms(1,2), of down] credit_epochs_le [OF assms(4), of 0] credit_epochs [OF assms(4), of 0]
  by (simp add: assms(3) NewTrafficSampler_def dget_or_def)

lemma direct_known: "lookup_tag (buildTagIndex d) KindOutbound ''direct'' \<noteq> None"
proof -
  have keep: "''direct'' \<in> fst ` set m \<Longrightarrow> ''direct'' \<in> fst ` set (fold (\<lambda>e. dput (OutboundTag (e_Name e)) (e_Name e)) es m)" for es :: "xray_entry list" and m :: "(string, string) dict"
    by (induction es arbitrary: m) auto
  have "ti_out (fold (index_inbound d) ins idx) = ti_out idx" for ins idx
    by (induction ins arbitrary: idx) (simp_all add: index_inbound_def Let_def)
  with keep [of "dput ''direct'' ''direct'' []" "ListEntries d"] show ?thesis
    by (simp add: buildTagIndex_def Let_def lookup_tag_def traffic_kinds map_of_eq_None_iff)
qed

definition demo_stats :: "string \<Rightarrow> raw_json" where
  "demo_stats v = Some (jobj [(''stat'', JArr [jobj [(''name'', JStr ''outbound>>>direct>>>traffic>>>uplink''), (''value'', JStr v)]])])"

lemma demo_stats_parsed:
  "StatsQuery (demo_stats ''700'') = Some [\<lparr>sc_Kind = KindOutbound, sc_Tag = ''direct'', sc_Down = False, sc_Bytes = 700\<rparr>]"
  "StatsQuery (demo_stats ''50'') = Some [\<lparr>sc_Kind = KindOutbound, sc_Tag = ''direct'', sc_Down = False, sc_Bytes = 50\<rparr>]"
  by code_simp+

lemma total_counts_every_life_witness:
  "\<exists>sb :: sampler \<times> xproc box. fst (TrafficTotalFor (bx_db (snd sb)) KindOutbound ''direct'') =
     fst (TrafficTotalFor (bx_db demo_box) KindOutbound ''direct'') + 750"
proof -
  let ?c = "\<lambda>v. \<lparr>sc_Kind = KindOutbound, sc_Tag = ''direct'', sc_Down = False, sc_Bytes = v\<rparr>"
  let ?p = "poll_traffic demo_world demo_turn"
  let ?sb = "?p (Some [?c 50]) (?p (Some [?c 700]) (NewTrafficSampler, demo_box))"
  have run: "sampled demo_world KindOutbound ''direct'' (NewTrafficSampler, demo_box) ([?c 700] @ [?c 50] @ []) (fst ?sb, snd ?sb)"
    by (rule sampled.poll [OF demo_stats_parsed(1) direct_known sampled.poll [OF demo_stats_parsed(2) direct_known]])
      (simp, rule sampled.nothing)
  have r: "readings (cursor KindOutbound ''direct'' False) ([?c 700] @ [?c 50] @ []) = concat [[700], [50]]"
    by (simp add: readings_def cursor_key_def cursor_def)
  have "fst (TrafficTotalFor (bx_db (snd ?sb)) KindOutbound ''direct'') = fst (TrafficTotalFor (bx_db demo_box) KindOutbound ''direct'') + 750"
  proof -
    have "kind_ok KindOutbound" "list_all epoch [[700], [50]]" "restarts_seen 0 [[700], [50]]" by (simp_all add: kind_ok_def epoch_def)
    note t = total_counts_every_life [OF run this(1) r this(2), THEN conjunct2, THEN mp, OF this(3)]
    have "sum_list (map last [[700], [50]]) = (750 :: int)" by simp
    then show ?thesis using t by (simp only: pick_dir_def if_False)
  qed
  then show ?thesis by (intro exI [of _ ?sb])
qed

text \<open>After every poll the sampler knows which capped users are over their cap, and it reconciles exactly when
  that changed for one of them, on a database in which no user over the cap is let in.\<close>

theorem poll_reconciles_iff_caps_change:
  assumes "poll_traffic w tn (Some cs) (s, b) = (s', b')" and "distinct (map u_Email (capped_users (bx_db b)))"
  shows "\<exists>d1. capped_users d1 = capped_users (bx_db b) \<and> db_totals d1 = db_totals (bx_db b') \<and>
    (\<forall>u \<in> set (capped_users d1). dget_or False (sm_overCap s') (u_Email u) = over_cap d1 u \<and> (over_cap d1 u \<longrightarrow> (\<forall>i. u \<notin> set (activeUsers d1 i)))) \<and>
    b' = (if \<exists>u \<in> set (capped_users d1). over_cap d1 u \<noteq> dget_or False (sm_overCap s) (u_Email u)
          then snd (Reconcile w tn (b\<lparr>bx_db := d1\<rparr>)) else b)\<lparr>bx_db := bx_db b'\<rparr>"
proof -
  let ?h = "HourFloor (tn_now tn)"
  obtain l' byTag where f: "fold (sample_counter (buildTagIndex (bx_db b))) cs (sm_last s, []) = (l', byTag)" by fastforce
  let ?d1 = "fold (store_agg ?h) byTag (bx_db b)"
  obtain ov tr where e: "enforceCaps ?d1 (sm_overCap s) = (ov, tr)" by fastforce
  have cu: "capped_users ?d1 = capped_users (bx_db b)"
    using store_all_frame [of ?h byTag "bx_db b"] by (intro capped_users_cong) simp_all
  note es = enforceCaps_spec [OF _ e, unfolded cu, OF assms(2)]
  let ?b2 = "if tr then snd (Reconcile w tn (b\<lparr>bx_db := ?d1\<rparr>)) else b\<lparr>bx_db := ?d1\<rparr>"
  have p: "sm_overCap s' = ov" "b' = ?b2\<lparr>bx_db := (if ?h = sm_lastPrune s then bx_db ?b2 else prune_stale (tn_now tn) (bx_db ?b2))\<rparr>"
    using assms(1) f e by (auto simp: poll_traffic_def Let_def split: if_splits)
  have tot: "db_totals ?d1 = db_totals (bx_db b')"
    by (simp add: p(2) prune_stale_def PruneTrafficBefore_def Reconcile_totals)
  have den: "\<forall>u \<in> set (capped_users (bx_db b)). over_cap ?d1 u \<longrightarrow> (\<forall>i. u \<notin> set (activeUsers ?d1 i))"
    using over_cap_denied [of ?d1] by (auto simp: capped_users_def)
  have "b' = (if tr then snd (Reconcile w tn (b\<lparr>bx_db := ?d1\<rparr>)) else b)\<lparr>bx_db := bx_db b'\<rparr>"
    by (simp add: p(2))
  with cu tot den es p(1) show ?thesis by (intro exI [of _ ?d1]) simp
qed

definition cap_demo_user :: inbound_user where
  "cap_demo_user = \<lparr>u_ID = 1, u_InboundID = 0, u_Name = ''u'', u_UUID = [], u_Password = [], u_Auth = [], u_Email = ''i.u'', u_ByteCap = 10, u_Enabled = True\<rparr>"

definition cap_demo_db :: db where
  "cap_demo_db = demo_db\<lparr>db_inbounds := [blank_inbound], db_users := [cap_demo_user],
     db_totals := [\<lparr>tt_Kind = KindUser, tt_Tag = ''i.u'', tt_Name = ''i/u'', tt_Up = 7, tt_Down = 5\<rparr>]\<rparr>"

lemma poll_reconciles_iff_caps_change_witness:
  "dget_or False (sm_overCap (fst (poll_traffic demo_world demo_turn (Some []) (NewTrafficSampler, demo_box\<lparr>bx_db := cap_demo_db\<rparr>)))) ''i.u''"
proof -
  have cu: "capped_users cap_demo_db = [cap_demo_user]"
    by (simp add: capped_users_def listed_users_def ListInbounds_def InboundUsers_def cap_demo_db_def blank_inbound_def cap_demo_user_def)
  have oc: "over_cap d1 cap_demo_user" if "db_totals d1 = db_totals cap_demo_db" for d1
    using that by (simp add: over_cap_def TrafficTotalFor_def cap_demo_db_def cap_demo_user_def)
  let ?sb = "poll_traffic demo_world demo_turn (Some []) (NewTrafficSampler, demo_box\<lparr>bx_db := cap_demo_db\<rparr>)"
  have tot: "db_totals (bx_db (snd ?sb)) = db_totals cap_demo_db"
    by (simp add: poll_traffic_def Let_def prune_stale_def PruneTrafficBefore_def Reconcile_totals split: prod.split)
  from poll_reconciles_iff_caps_change [of demo_world demo_turn "[]" NewTrafficSampler "demo_box\<lparr>bx_db := cap_demo_db\<rparr>" "fst ?sb" "snd ?sb"]
  obtain d1 where "capped_users d1 = [cap_demo_user]" "db_totals d1 = db_totals cap_demo_db"
    "\<forall>u \<in> set (capped_users d1). dget_or False (sm_overCap (fst ?sb)) (u_Email u) = over_cap d1 u"
    by (auto simp: cu tot)
  with oc show ?thesis by (simp add: cap_demo_user_def)
qed

text \<open>In every row of the report the hours add up to the window's totals, which are those of the tag's stored
  buckets within the window, each counted once.\<close>

theorem report_rows_add_up:
  "let r = traffic_row d since n t
   in length (tr_HourlyUp r) = n \<and> length (tr_HourlyDown r) = n \<and>
      sum_list (tr_HourlyUp r) = tr_WindowUp r \<and> sum_list (tr_HourlyDown r) = tr_WindowDown r \<and>
      tr_WindowUp r = sum_list (map tb_Up (tag_window d t since n)) \<and> tr_WindowDown r = sum_list (map tb_Down (tag_window d t since n))"
proof -
  let ?it = "\<lparr>tr_Kind = tt_Kind t, tr_Name = tt_Name t, tr_TotalUp = tt_Up t, tr_TotalDown = tt_Down t, tr_WindowUp = 0, tr_WindowDown = 0,
    tr_HourlyUp = replicate n 0, tr_HourlyDown = replicate n 0\<rparr>"
  have zero: "sum_list (replicate n (0::int)) = 0" by (induction n) auto
  show ?thesis
    using add_hours [of ?it n since "TrafficBucketsSince d (tt_Kind t) (tt_Tag t) since"]
    by (simp add: traffic_row_def Let_def TrafficBucketsSince_def sum_list_sort_key filter_window tag_window_def zero del: filter_filter)
qed

text \<open>A retention of at most 106751 days keeps exactly the buckets of those days; the setting accepts more, and at
  106752 days the duration wraps around to a negative one, so that every bucket up to now and for centuries after is
  deleted.\<close>

theorem retention_wraps_around:
  "(TrafficDays d \<le> 106751 \<longrightarrow>
      db_buckets (prune_stale now d) = filter (\<lambda>b. HourFloor (now - TrafficDays d * hours 24) \<le> tb_Hour b) (db_buckets d)) \<and>
   (TrafficDays d = 106752 \<longrightarrow> list_all (\<lambda>b. tb_Hour b \<le> HourFloor now) (db_buckets d) \<longrightarrow> db_buckets (prune_stale now d) = [])"
proof (intro conjI impI)
  assume "TrafficDays d \<le> 106751"
  from retention_fits [OF this] have r: "wrap64 (- retention d) = - (TrafficDays d * hours 24)" by metis
  show "db_buckets (prune_stale now d) = filter (\<lambda>b. HourFloor (now - TrafficDays d * hours 24) \<le> tb_Hour b) (db_buckets d)"
    by (simp add: prune_stale_def PruneTrafficBefore_def delete_where_def not_less r)
next
  assume d: "TrafficDays d = 106752" and b: "list_all (\<lambda>b. tb_Hour b \<le> HourFloor now) (db_buckets d)"
  have "now div hours 1 < (now + hours 1) div hours 1" by (simp add: hours_val)
  also have "\<dots> \<le> (now + 9223371273709551616) div hours 1" by (intro zdiv_mono1) (simp_all add: hours_val)
  finally have "HourFloor now < HourFloor (now + 9223371273709551616)" by (simp add: HourFloor_def)
  then have "\<forall>x \<in> set (db_buckets d). tb_Hour x < HourFloor (now + 9223371273709551616)" using b by (fastforce simp: list_all_iff)
  then show "db_buckets (prune_stale now d) = []"
    by (simp add: prune_stale_def PruneTrafficBefore_def delete_where_def retention_wraps [OF d, THEN conjunct2] filter_empty_conv)
qed

definition prune_demo_db :: db where
  "prune_demo_db = demo_db\<lparr>db_settings := [(''traffic_days'', ''106752'')],
     db_buckets := [\<lparr>tb_Kind = KindOutbound, tb_Tag = ''direct'', tb_Hour = 0, tb_Up = 1, tb_Down = 1\<rparr>]\<rparr>"

lemma retention_wraps_around_witness: "db_buckets (prune_stale 0 prune_demo_db) = []"
proof -
  have "parse_int ''106752'' = Some 106752" by (simp add: parse_int_def digits_val_def is_digit_def byte_def)
  then have "TrafficDays prune_demo_db = 106752" by (simp add: TrafficDays_def int_setting_def GetSetting_def prune_demo_db_def)
  note w = retention_wraps_around [of prune_demo_db 0, THEN conjunct2, THEN mp, OF this]
  have "HourFloor 0 = 0" by (simp add: HourFloor_def)
  then have "list_all (\<lambda>b. tb_Hour b \<le> HourFloor 0) (db_buckets prune_demo_db)" by (simp add: prune_demo_db_def)
  then show ?thesis by (rule mp [OF w])
qed

end
