(* ===== verification/Url.thy ===== *)
theory Url
  imports Json_Print Base64
begin

text \<open>
  The parts of Go's \<^verbatim>\<open>net/url\<close> and \<^verbatim>\<open>net\<close> that share links need: percent-escapes, queries, and a URL with
  user, host, query and fragment, printed and parsed. Parsing is that of Go 1.26 on a text that has its
  scheme in front of \<^verbatim>\<open>://\<close>, the only texts the program parses: at most one colon outside brackets, and an
  IPv6 address inside them. What is printed is parsed back to the same parts.
\<close>

section \<open>Percent-escapes\<close>

datatype url_part = InPath | InUser | InHost | InZone | InQuery | InFragment

definition host_chars :: string where
  "host_chars = ''!$&()*+,;=:[]<>'' @ [CHR 0x27, CHR 0x22]"

definition mark_chars :: string where "mark_chars = ''-_.~''"
definition reserved_chars :: string where "reserved_chars = ''$&+,/:;=?@''"
definition user_delims :: string where "user_delims = ''@/?:''"
definition fragment_chars :: string where "fragment_chars = ''!()*''"

lemmas url_chars = host_chars_def mark_chars_def reserved_chars_def user_delims_def fragment_chars_def

definition shouldEscape :: "url_part \<Rightarrow> char \<Rightarrow> bool" where
  "shouldEscape p c =
     (if is_alnum c then False
      else if p \<in> {InHost, InZone} \<and> c \<in> set host_chars then False
      else if c \<in> set mark_chars then False
      else if c \<in> set reserved_chars then
        (case p of InPath \<Rightarrow> c = CHR ''?'' | InUser \<Rightarrow> c \<in> set user_delims | InQuery \<Rightarrow> True | InFragment \<Rightarrow> False | _ \<Rightarrow> True)
      else if p = InFragment \<and> c \<in> set fragment_chars then False
      else True)"

definition upper_hex :: "nat \<Rightarrow> char" where
  "upper_hex n = ''0123456789ABCDEF'' ! n"

fun url_escape :: "url_part \<Rightarrow> string \<Rightarrow> string" where
  "url_escape p [] = []"
| "url_escape p (c # s) =
     (if shouldEscape p c
      then if c = CHR '' '' \<and> p = InQuery then CHR ''+'' # url_escape p s
           else CHR ''%'' # upper_hex (byte c div 16) # upper_hex (byte c mod 16) # url_escape p s
      else c # url_escape p s)"

text \<open>An escape in a host must be of a percent sign or of a byte that is not ASCII.\<close>

definition escape_ok :: "url_part \<Rightarrow> nat \<Rightarrow> bool" where
  "escape_ok p v \<longleftrightarrow>
     (p = InHost \<longrightarrow> 128 \<le> v \<or> v = 37) \<and>
     (p = InZone \<longrightarrow> v = 37 \<or> v = 32 \<or> \<not> shouldEscape InHost (char_of v))"

fun url_unescape :: "url_part \<Rightarrow> string \<Rightarrow> string option" where
  "url_unescape p [] = Some []"
| "url_unescape p (c # s) =
     (if c = CHR ''%'' then
        (case s of
           a # b # r \<Rightarrow>
             (case (hex_val a, hex_val b) of
                (Some x, Some y) \<Rightarrow> if escape_ok p (x * 16 + y) then map_option (Cons (char_of (x * 16 + y))) (url_unescape p r) else None
              | _ \<Rightarrow> None)
         | _ \<Rightarrow> None)
      else if p \<in> {InHost, InZone} \<and> byte c < 128 \<and> shouldEscape p c then None
      else map_option (Cons (if c = CHR ''+'' \<and> p = InQuery then CHR '' '' else c)) (url_unescape p s))"

section \<open>Queries\<close>

text \<open>\<^verbatim>\<open>url.Values\<close> with the first value of each key, all that \<^verbatim>\<open>Get\<close> looks at. The program only sets keys,
  one value each.\<close>

type_synonym url_values = "(string, string) dict"

definition q_get :: "url_values \<Rightarrow> string \<Rightarrow> string" where
  "q_get q k = dget_or [] q k"

definition parse_pair :: "string \<Rightarrow> url_values \<Rightarrow> url_values" where
  "parse_pair kv q =
     (if kv = [] \<or> CHR '';'' \<in> set kv then q
      else let (k, v) = (case cut ''='' kv of Some p \<Rightarrow> p | None \<Rightarrow> (kv, []))
           in case (url_unescape InQuery k, url_unescape InQuery v) of
                (Some k', Some v') \<Rightarrow> if map_of q k' = None then dput k' v' q else q
              | _ \<Rightarrow> q)"

definition ParseQuery :: "string \<Rightarrow> url_values" where
  "ParseQuery s = fold parse_pair (split_on (CHR ''&'') s) []"

definition query_pair :: "string \<times> string \<Rightarrow> string" where
  "query_pair kv = url_escape InQuery (fst kv) @ ''='' @ url_escape InQuery (snd kv)"

definition EncodeQuery :: "url_values \<Rightarrow> string" where
  "EncodeQuery q = join ''&'' (map query_pair q)"

definition QueryEscape :: "string \<Rightarrow> string" where
  "QueryEscape = url_escape InQuery"

section \<open>IPv6 addresses\<close>

definition dec_octet :: "string \<Rightarrow> bool" where
  "dec_octet s \<longleftrightarrow> s \<noteq> [] \<and> list_all is_digit s \<and> length s \<le> 3 \<and> (hd s = CHR ''0'' \<longrightarrow> length s = 1) \<and> digits_val s \<le> 255"

definition is_ipv4 :: "string \<Rightarrow> bool" where
  "is_ipv4 s \<longleftrightarrow> (let ps = split_on (CHR ''.'') s in length ps = 4 \<and> list_all dec_octet ps)"

definition hex_group :: "string \<Rightarrow> bool" where
  "hex_group s \<longleftrightarrow> s \<noteq> [] \<and> length s \<le> 4 \<and> list_all (\<lambda>c. hex_val c \<noteq> None) s"

text \<open>How many of the eight groups a list of fields stands for; the last one may be an IPv4 address when it
  ends the address.\<close>

fun v6_groups :: "bool \<Rightarrow> string list \<Rightarrow> nat option" where
  "v6_groups tail [] = Some 0"
| "v6_groups tail [s] = (if hex_group s then Some 1 else if tail \<and> is_ipv4 s then Some 2 else None)"
| "v6_groups tail (s # t # r) = (if hex_group s then map_option Suc (v6_groups tail (t # r)) else None)"

definition v6_fields :: "string \<Rightarrow> string list" where
  "v6_fields s = (if s = [] then [] else split_on (CHR '':'') s)"

definition is_ipv6 :: "string \<Rightarrow> bool" where
  "is_ipv6 s0 \<longleftrightarrow>
     (let (s, zone_ok) = (case cut ''%'' s0 of Some (a, z) \<Rightarrow> (a, z \<noteq> []) | None \<Rightarrow> (s0, True))
      in zone_ok \<and>
         (case cut ''::'' s of
            None \<Rightarrow> v6_groups True (v6_fields s) = Some 8
          | Some (a, b) \<Rightarrow>
              (case (v6_groups False (v6_fields a), v6_groups True (v6_fields b)) of
                 (Some m, Some n) \<Rightarrow> m + n \<le> 7
               | _ \<Rightarrow> False)))"

section \<open>URLs\<close>

record url =
  ur_User :: "(string \<times> string option) option"
  ur_Host :: string
  ur_RawQuery :: string
  ur_Fragment :: string

definition validOptionalPort :: "string \<Rightarrow> bool" where
  "validOptionalPort p = (case p of [] \<Rightarrow> True | c # ds \<Rightarrow> c = CHR '':'' \<and> list_all is_digit ds)"

definition user_char :: "char \<Rightarrow> bool" where
  "user_char c \<longleftrightarrow> is_alnum c \<or> c \<in> set (''-._:~!$&()*+,;=%@'' @ [CHR 0x27])"

definition parse_userinfo :: "string \<Rightarrow> (string \<times> string option) option" where
  "parse_userinfo s =
     (if \<not> list_all user_char s then None
      else case cut '':'' s of
             None \<Rightarrow> map_option (\<lambda>n. (n, None)) (url_unescape InUser s)
           | Some (n, p) \<Rightarrow>
               (case (url_unescape InUser n, url_unescape InUser p) of
                  (Some n', Some p') \<Rightarrow> Some (n', Some p') | _ \<Rightarrow> None))"

text \<open>The text around the last occurrence of a character.\<close>

definition cut_last :: "char \<Rightarrow> string \<Rightarrow> (string \<times> string) option" where
  "cut_last c s = map_option (\<lambda>(b, a). (rev a, rev b)) (cut [c] (rev s))"

definition parse_bracketed :: "string \<Rightarrow> string option" where
  "parse_bracketed s =
     (case cut_last (CHR '']'') s of
        None \<Rightarrow> None
      | Some (inner, port) \<Rightarrow>
          if \<not> validOptionalPort port then None
          else case (case cut ''%25'' inner of
                       None \<Rightarrow> url_unescape InHost inner
                     | Some (a, z) \<Rightarrow> (case (url_unescape InHost a, url_unescape InZone (''%25'' @ z)) of
                           (Some x, Some y) \<Rightarrow> Some (x @ y) | _ \<Rightarrow> None)) of
                 None \<Rightarrow> None
               | Some h \<Rightarrow> if is_ipv6 h then Some (''['' @ h @ '']'' @ port) else None)"

definition parseHost :: "string \<Rightarrow> string option" where
  "parseHost s =
     (if CHR ''['' \<in> set s then (if hd s = CHR ''['' then parse_bracketed (tl s) else None)
      else case cut '':'' s of
             None \<Rightarrow> url_unescape InHost s
           | Some (a, ds) \<Rightarrow> if list_all is_digit ds then url_unescape InHost s else None)"

definition parseAuthority :: "string \<Rightarrow> ((string \<times> string option) option \<times> string) option" where
  "parseAuthority s =
     (case cut_last (CHR ''@'') s of
        None \<Rightarrow> map_option (Pair None) (parseHost s)
      | Some (ui, h) \<Rightarrow>
          (case (parseHost h, parse_userinfo ui) of
             (Some h', Some u) \<Rightarrow> Some (Some u, h') | _ \<Rightarrow> None))"

definition ctl_char :: "char \<Rightarrow> bool" where
  "ctl_char c \<longleftrightarrow> byte c < 32 \<or> byte c = 127"

definition split_at :: "string \<Rightarrow> string \<Rightarrow> string \<times> string" where
  "split_at sep s = (case cut sep s of Some p \<Rightarrow> p | None \<Rightarrow> (s, []))"

text \<open>\<open>url_parse\<close> is given what follows \<^verbatim>\<open>://\<close>.\<close>

definition url_parse :: "string \<Rightarrow> url option" where
  "url_parse s =
     (let (body, frag) = split_at ''#'' s; (hier, query) = split_at ''?'' body; (auth, path) = split_at ''/'' hier
      in if list_ex ctl_char body then None
         else case (parseAuthority auth, url_unescape InPath path, url_unescape InFragment frag) of
                (Some (u, h), Some _, Some f) \<Rightarrow> Some \<lparr>ur_User = u, ur_Host = h, ur_RawQuery = query, ur_Fragment = f\<rparr>
              | _ \<Rightarrow> None)"

definition split_host :: "string \<Rightarrow> string \<times> string" where
  "split_host s =
     (let (h, p) = (case cut_last (CHR '':'') s of
            Some (a, b) \<Rightarrow> if list_all is_digit b then (a, b) else (s, [])
          | None \<Rightarrow> (s, []))
      in (if take 1 h = ''['' \<and> h \<noteq> [] \<and> last h = CHR '']'' then butlast (tl h) else h, p))"

definition Hostname :: "url \<Rightarrow> string" where "Hostname u = fst (split_host (ur_Host u))"
definition Port :: "url \<Rightarrow> string" where "Port u = snd (split_host (ur_Host u))"

definition Username :: "url \<Rightarrow> string" where
  "Username u = (case ur_User u of Some (n, _) \<Rightarrow> n | None \<Rightarrow> [])"

definition Userinfo_string :: "string \<times> string option \<Rightarrow> string" where
  "Userinfo_string u = url_escape InUser (fst u) @ (case snd u of Some p \<Rightarrow> '':'' @ url_escape InUser p | None \<Rightarrow> [])"

definition JoinHostPort :: "string \<Rightarrow> string \<Rightarrow> string" where
  "JoinHostPort h p = (if CHR '':'' \<in> set h \<or> CHR ''%'' \<in> set h then ''['' @ h @ '']:'' @ p else h @ '':'' @ p)"

section \<open>Escaping and unescaping\<close>

lemma upper_hex_facts: "list_all (\<lambda>n. hex_val (upper_hex n) = Some n \<and> is_alnum (upper_hex n)) [0..<16]"
  by code_simp

lemma hex_val_upper [simp]: "n < 16 \<Longrightarrow> hex_val (upper_hex n) = Some n"
  using upper_hex_facts by (simp add: list_all_iff)

lemma upper_hex_alnum: "n < 16 \<Longrightarrow> is_alnum (upper_hex n)"
  using upper_hex_facts by (simp add: list_all_iff)

lemma byte_split: "byte c div 16 < 16 \<and> byte c mod 16 < 16 \<and> byte c div 16 * 16 + byte c mod 16 = byte c"
  using byte_lt [of c] by simp

lemma escape_simps:
  "p \<noteq> InHost \<Longrightarrow> p \<noteq> InZone \<Longrightarrow> shouldEscape p (CHR ''%'')" "shouldEscape InQuery (CHR ''+'')" "shouldEscape InHost (CHR ''%'')"
  by (simp_all add: shouldEscape_def is_alnum_def is_digit_def byte_def url_chars)

text \<open>What can be escaped in a part: anything but in a host, where only bytes beyond ASCII can.\<close>

definition escapable :: "url_part \<Rightarrow> string \<Rightarrow> bool" where
  "escapable p s \<longleftrightarrow> (p = InHost \<longrightarrow> (\<forall>c \<in> set s. c \<noteq> CHR ''%'' \<and> (128 \<le> byte c \<or> \<not> shouldEscape InHost c)))"

lemma escapable_Cons: "escapable p (c # s) \<longleftrightarrow> escapable p s \<and> (p = InHost \<longrightarrow> c \<noteq> CHR ''%'' \<and> (128 \<le> byte c \<or> \<not> shouldEscape InHost c))"
  by (auto simp: escapable_def)

lemma escapable_append: "escapable p (s @ t) \<longleftrightarrow> escapable p s \<and> escapable p t"
  by (auto simp: escapable_def)

lemma unescape_escape:
  assumes "p \<noteq> InZone" and "escapable p s"
  shows "url_unescape p (url_escape p s) = Some s"
  using assms(2)
proof (induction s)
  case (Cons c s)
  then have ih: "url_unescape p (url_escape p s) = Some s" by (simp add: escapable_Cons)
  consider "shouldEscape p c" "c = CHR '' ''" "p = InQuery" | "shouldEscape p c" "\<not> (c = CHR '' '' \<and> p = InQuery)" | "\<not> shouldEscape p c" by blast
  then show ?case
  proof cases
    case 1
    then show ?thesis using ih by simp
  next
    case 2
    have "escape_ok p (byte c)" using Cons.prems 2 assms(1) by (auto simp: escape_ok_def escapable_Cons)
    then have "url_unescape p (CHR ''%'' # upper_hex (byte c div 16) # upper_hex (byte c mod 16) # url_escape p s) = Some (c # s)"
      using ih byte_split [of c] by simp
    then show ?thesis using 2 by auto
  next
    case 3
    have "c \<noteq> CHR ''%''" using 3 escape_simps(1,3) assms(1) by (cases "p = InHost") auto
    moreover have "\<not> (c = CHR ''+'' \<and> p = InQuery)" using 3 escape_simps(2) by auto
    ultimately show ?thesis using 3 ih assms(1) by simp
  qed
qed simp

text \<open>The characters of an escaped text.\<close>

lemma escaped_chars:
  "x \<in> set (url_escape p s) \<Longrightarrow> is_alnum x \<or> x = CHR ''%'' \<or> (x = CHR ''+'' \<and> p = InQuery) \<or> (x \<in> set s \<and> \<not> shouldEscape p x)"
proof (induction s)
  case (Cons c s)
  have h: "is_alnum (upper_hex (byte c div 16))" "is_alnum (upper_hex (byte c mod 16))"
    using byte_split [of c] by (auto intro: upper_hex_alnum)
  from Cons show ?case using h by (auto split: if_splits)
qed simp

lemma alnum_unescaped: "is_alnum x \<Longrightarrow> \<not> shouldEscape p x"
  by (simp add: shouldEscape_def)

lemma alnum_ascii: "is_alnum x \<Longrightarrow> byte x < 128 \<and> \<not> ctl_char x \<and> \<not> ascii_space x"
  by (auto simp: is_alnum_def is_digit_def ctl_char_def ascii_space_def)

lemma unescaped_cases:
  "\<not> shouldEscape p x \<Longrightarrow>
     is_alnum x \<or> x \<in> set mark_chars \<or> (p \<in> {InHost, InZone} \<and> x \<in> set host_chars) \<or>
     (x \<in> set reserved_chars \<and> (p = InPath \<or> p = InFragment \<or> (p = InUser \<and> x \<notin> set user_delims))) \<or> (p = InFragment \<and> x \<in> set fragment_chars)"
  unfolding shouldEscape_def by (cases p) (simp_all split: if_split_asm)

lemma unescaped_ascii: "\<not> shouldEscape p x \<Longrightarrow> byte x < 128 \<and> \<not> ctl_char x \<and> \<not> ascii_space x"
proof -
  assume "\<not> shouldEscape p x"
  then have "is_alnum x \<or> x \<in> set (mark_chars @ host_chars @ reserved_chars @ fragment_chars)"
    using unescaped_cases [of p x] by auto
  moreover have "list_all (\<lambda>x. byte x < 128 \<and> \<not> ctl_char x \<and> \<not> ascii_space x) (mark_chars @ host_chars @ reserved_chars @ fragment_chars)"
    by code_simp
  ultimately show ?thesis using alnum_ascii unfolding list_all_iff by blast
qed

lemma sign_ascii: "x = CHR ''%'' \<or> x = CHR ''+'' \<Longrightarrow> byte x < 128 \<and> \<not> ctl_char x \<and> \<not> ascii_space x"
  by (auto simp: byte_def ctl_char_def ascii_space_def)

lemma escaped_plain: "x \<in> set (url_escape p s) \<Longrightarrow> byte x < 128 \<and> \<not> ctl_char x \<and> \<not> ascii_space x"
  using escaped_chars [of x p s] alnum_ascii [of x] unescaped_ascii [of p x] sign_ascii [of x] by blast

text \<open>What separates the parts of a URL is escaped inside them.\<close>

lemma user_special: "x \<in> set ''#?/@:['' \<Longrightarrow> shouldEscape InUser x"
proof -
  have "list_all (shouldEscape InUser) ''#?/@:[''" by code_simp
  then show "x \<in> set ''#?/@:['' \<Longrightarrow> shouldEscape InUser x" unfolding list_all_iff by blast
qed

lemma user_chars: "\<not> shouldEscape InUser x \<Longrightarrow> user_char x"
proof -
  have "list_all (\<lambda>x. x \<in> set user_delims \<or> user_char x) (mark_chars @ reserved_chars)" by code_simp
  then have "x \<in> set mark_chars \<or> x \<in> set reserved_chars \<Longrightarrow> x \<notin> set user_delims \<Longrightarrow> user_char x"
    unfolding list_all_iff set_append by blast
  moreover have "x \<in> set mark_chars \<Longrightarrow> x \<notin> set user_delims" by (auto simp: url_chars)
  moreover have "is_alnum x \<Longrightarrow> user_char x" by (simp add: user_char_def)
  ultimately show "\<not> shouldEscape InUser x \<Longrightarrow> user_char x" using unescaped_cases [of InUser x] by blast
qed

lemma escaped_user: "x \<in> set (url_escape InUser s) \<Longrightarrow> x \<notin> set ''#?/@:['' \<and> user_char x"
proof -
  assume x: "x \<in> set (url_escape InUser s)"
  then consider "is_alnum x" | "x = CHR ''%''" | "\<not> shouldEscape InUser x" using escaped_chars [OF x] by blast
  then show ?thesis
  proof cases
    case 1
    then show ?thesis using user_special alnum_unescaped user_chars by blast
  next
    case 3
    then show ?thesis using user_special user_chars by blast
  qed (simp add: user_char_def)
qed

lemma host_special: "x \<in> set ''#?/@'' \<Longrightarrow> shouldEscape InHost x"
proof -
  have "list_all (shouldEscape InHost) ''#?/@''" by code_simp
  then show "x \<in> set ''#?/@'' \<Longrightarrow> shouldEscape InHost x" unfolding list_all_iff by blast
qed

lemma host_brackets: "x \<in> set '':[]'' \<Longrightarrow> \<not> is_alnum x"
  by (auto simp: is_alnum_def is_digit_def byte_def)

lemma escaped_host: "x \<in> set (url_escape InHost s) \<Longrightarrow> x \<notin> set ''#?/@'' \<and> (x \<in> set '':[]'' \<longrightarrow> x \<in> set s)"
proof -
  assume x: "x \<in> set (url_escape InHost s)"
  then consider "is_alnum x" | "x = CHR ''%''" | "x \<in> set s" "\<not> shouldEscape InHost x" using escaped_chars [OF x] by blast
  then show ?thesis
  proof cases
    case 1
    then show ?thesis using host_special host_brackets alnum_unescaped by blast
  next
    case 3
    then show ?thesis using host_special by blast
  qed simp
qed

lemma query_special: "x \<in> set ''#?/@:&=;'' \<Longrightarrow> shouldEscape InQuery x"
proof -
  have "list_all (shouldEscape InQuery) ''#?/@:&=;''" by code_simp
  then show "x \<in> set ''#?/@:&=;'' \<Longrightarrow> shouldEscape InQuery x" unfolding list_all_iff by blast
qed

lemma escaped_query: "x \<in> set (url_escape InQuery s) \<Longrightarrow> x \<notin> set ''#?/@:&=;''"
proof -
  assume x: "x \<in> set (url_escape InQuery s)"
  then consider "is_alnum x" | "x = CHR ''%''" | "x = CHR ''+''" | "\<not> shouldEscape InQuery x" using escaped_chars [OF x] by blast
  then show ?thesis
  proof cases
    case 1
    then show ?thesis using query_special alnum_unescaped by blast
  next
    case 4
    then show ?thesis using query_special by blast
  qed simp_all
qed

section \<open>Queries read back\<close>

lemma parse_pair_escaped: "map_of q k = None \<Longrightarrow> parse_pair (query_pair (k, v)) q = dput k v q"
proof -
  assume k: "map_of q k = None"
  let ?k = "url_escape InQuery k" and ?v = "url_escape InQuery v"
  have "CHR ''='' \<notin> set ?k" using escaped_query [of "CHR ''=''" k] by auto
  then have c: "cut ''='' (?k @ CHR ''='' # ?v) = Some (?k, ?v)" by (rule cut_char_append)
  have "CHR '';'' \<notin> set ?k" "CHR '';'' \<notin> set ?v" using escaped_query [of "CHR '';''"] by auto
  then show ?thesis using c k by (simp add: parse_pair_def query_pair_def unescape_escape escapable_def)
qed

lemma ParseQuery_Encode: "dict_ok q \<Longrightarrow> ParseQuery (EncodeQuery q) = q"
proof (cases "q = []")
  case True
  then show ?thesis by (simp add: ParseQuery_def EncodeQuery_def parse_pair_def)
next
  case False
  assume ok: "dict_ok q"
  have amp: "CHR ''&'' \<notin> set (query_pair kv)" for kv
    using escaped_query [of "CHR ''&''"] by (auto simp: query_pair_def)
  have sp: "split_on (CHR ''&'') (EncodeQuery q) = map query_pair q"
    unfolding EncodeQuery_def using False amp by (intro split_on_join) auto
  have fold: "fold parse_pair (map query_pair r) q0 = fold (\<lambda>(k, v). dput k v) r q0"
    if "distinct (map fst r)" "\<forall>k \<in> fst ` set r. map_of q0 k = None" for r and q0 :: url_values
    using that
  proof (induction r arbitrary: q0)
    case (Cons kv r)
    obtain k v where kv: "kv = (k, v)" by (cases kv)
    have "parse_pair (query_pair kv) q0 = dput k v q0" unfolding kv using Cons.prems(2) kv by (intro parse_pair_escaped) simp
    moreover have "\<forall>x \<in> fst ` set r. map_of (dput k v q0) x = None" using Cons.prems kv by auto
    ultimately show ?case using Cons.IH [of "dput k v q0"] Cons.prems(1) kv by simp
  qed simp
  have d: "distinct (map fst q)" using dict_ok_distinct [OF ok] .
  have "ParseQuery (EncodeQuery q) = dict_of q"
    unfolding ParseQuery_def sp dict_of_def using fold [OF d, of "[]"] by simp
  also have "dict_of q = q" using ok by (rule dict_of_id)
  finally show ?thesis .
qed

section \<open>URLs read back\<close>

lemma cut_last_append: "c \<notin> set b \<Longrightarrow> cut_last c (a @ c # b) = Some (a, b)"
  using cut_char_append [of c "rev b" "rev a"] by (simp add: cut_last_def)

lemma cut_last_None: "c \<notin> set s \<Longrightarrow> cut_last c s = None"
  using cut_char_None [of c "rev s"] by (simp add: cut_last_def)

text \<open>A host that a link can name: not empty, and a name without colon, opening bracket, percent sign or a
  character that would have to be escaped, or an IPv6 address without a zone.\<close>

definition host_ok :: "string \<Rightarrow> bool" where
  "host_ok h \<longleftrightarrow> h \<noteq> [] \<and> escapable InHost h \<and> (CHR '':'' \<notin> set h \<and> CHR ''['' \<notin> set h \<or> is_ipv6 h)"

lemma url_escape_append: "url_escape p (a @ b) = url_escape p a @ url_escape p b"
  by (induction p a rule: url_escape.induct) auto

lemma url_escape_id: "\<forall>c \<in> set s. \<not> shouldEscape p c \<Longrightarrow> url_escape p s = s"
  by (induction s) auto

lemma digit_unescaped: "is_digit c \<Longrightarrow> \<not> shouldEscape p c"
  by (simp add: shouldEscape_def is_alnum_def)

lemma digits_unescaped: "list_all is_digit ds \<Longrightarrow> url_escape p ds = ds"
  by (rule url_escape_id) (auto simp: list_all_iff digit_unescaped)

lemma host_punct: "x \<in> set '':[].'' \<Longrightarrow> \<not> shouldEscape InHost x"
proof -
  have "list_all (\<lambda>x. \<not> shouldEscape InHost x) '':[].''" by code_simp
  then show "x \<in> set '':[].'' \<Longrightarrow> \<not> shouldEscape InHost x" unfolding list_all_iff by blast
qed

lemma digit_no_sep: "is_digit c \<Longrightarrow> c \<noteq> CHR '':'' \<and> c \<noteq> CHR '']'' \<and> c \<noteq> CHR ''['' \<and> c \<noteq> CHR ''@'' \<and> c \<noteq> CHR ''%''"
  by (auto simp: is_digit_def byte_def)

lemma digits_no_sep: "list_all is_digit ds \<Longrightarrow> CHR '':'' \<notin> set ds \<and> CHR '']'' \<notin> set ds \<and> CHR ''['' \<notin> set ds \<and> CHR ''@'' \<notin> set ds"
  using digit_no_sep by (auto simp: list_all_iff)

text \<open>The characters of an IPv6 address.\<close>

definition v6_char :: "char \<Rightarrow> bool" where
  "v6_char c \<longleftrightarrow> is_alnum c \<or> c = CHR '':'' \<or> c = CHR ''.''"

lemma set_split_cover: "c \<in> set s \<Longrightarrow> c = x \<or> (\<exists>w \<in> set (split_on x s). c \<in> set w)"
  by (induction s) (auto split: list.splits)

lemma hex_val_alnum: "hex_val c \<noteq> None \<Longrightarrow> is_alnum c"
  by (auto simp: hex_val_def is_alnum_def is_digit_def split: if_splits)

lemma is_ipv4_chars: "is_ipv4 s \<Longrightarrow> c \<in> set s \<Longrightarrow> v6_char c"
  using set_split_cover [of c s "CHR ''.''"]
  by (auto simp: is_ipv4_def Let_def list_all_iff dec_octet_def v6_char_def is_alnum_def)

lemma v6_groups_chars: "v6_groups tail fs = Some n \<Longrightarrow> f \<in> set fs \<Longrightarrow> c \<in> set f \<Longrightarrow> v6_char c"
proof (induction tail fs arbitrary: n rule: v6_groups.induct)
  case (2 tail s)
  then show ?case
    using is_ipv4_chars hex_val_alnum by (auto simp: hex_group_def list_all_iff v6_char_def split: if_splits)
next
  case (3 tail s t r)
  then show ?case using hex_val_alnum by (auto simp: hex_group_def list_all_iff v6_char_def split: if_splits)
qed simp

lemma v6_fields_chars: "v6_groups tail (v6_fields s) = Some n \<Longrightarrow> c \<in> set s \<Longrightarrow> v6_char c"
  using set_split_cover [of c s "CHR '':''"] v6_groups_chars [of tail "v6_fields s" n _ c]
  by (auto simp: v6_fields_def v6_char_def split: if_splits)

lemma cut_set: "cut sep s = Some (a, b) \<Longrightarrow> s = a @ sep @ b"
proof (induction s arbitrary: a)
  case (Cons x s)
  then show ?case by (cases "prefix sep (x # s)") (auto simp: prefix_def)
qed (simp split: if_splits)

lemma is_ipv6_chars: "is_ipv6 h \<Longrightarrow> CHR ''%'' \<notin> set h \<Longrightarrow> c \<in> set h \<Longrightarrow> v6_char c"
  using cut_set [of "''::''" h] v6_fields_chars [of _ _ _ c] cut_char_None [of "CHR ''%''" h]
  by (fastforce simp: is_ipv6_def v6_char_def split: option.splits prod.splits)

lemma v6_char_facts: "v6_char c \<Longrightarrow> \<not> shouldEscape InHost c \<and> c \<noteq> CHR ''['' \<and> c \<noteq> CHR '']'' \<and> c \<noteq> CHR ''%''"
  using alnum_unescaped [of c InHost] host_punct [of c] host_brackets [of c] escape_simps(3) by (auto simp: v6_char_def)

lemma is_ipv6_colon: "is_ipv6 h \<Longrightarrow> CHR '':'' \<in> set h"
proof (rule ccontr)
  assume v6: "is_ipv6 h" and no: "CHR '':'' \<notin> set h"
  obtain s where s: "(cut ''%'' h = None \<and> s = h) \<or> (\<exists>z. cut ''%'' h = Some (s, z))" by (cases "cut ''%'' h") auto
  then have nos: "CHR '':'' \<notin> set s" using no cut_set [of "''%''" h s] by auto
  then have "cut ''::'' s = None" using cut_set [of "''::''" s] by (cases "cut ''::'' s") auto
  moreover have "v6_groups True (v6_fields s) \<noteq> Some 8"
    using nos by (auto simp: v6_fields_def split_on_absent split: if_splits)
  ultimately show False using v6 s by (auto simp: is_ipv6_def)
qed

lemma cut_absent: "c \<notin> set s \<Longrightarrow> cut (c # sep) s = None"
  by (induction s) (auto simp: prefix_def)

lemma unescape_plain:
  "\<forall>c \<in> set s. \<not> shouldEscape InHost c \<Longrightarrow> url_unescape InHost s = Some s"
proof -
  assume a: "\<forall>c \<in> set s. \<not> shouldEscape InHost c"
  then have "escapable InHost s" using escape_simps(3) by (auto simp: escapable_def)
  with unescape_escape [of InHost s] url_escape_id [OF a] show ?thesis by simp
qed

definition port_ok :: "string \<Rightarrow> bool" where
  "port_ok p \<longleftrightarrow> list_all is_digit p"

lemma host_cases:
  assumes "host_ok h"
  obtains (name) "CHR '':'' \<notin> set h" "CHR ''['' \<notin> set h" "h \<noteq> []" "escapable InHost h" "CHR ''%'' \<notin> set h"
  | (v6) "is_ipv6 h" "\<And>c. c \<in> set h \<Longrightarrow> v6_char c" "CHR '':'' \<in> set h"
proof -
  have "CHR ''%'' \<notin> set h" using assms by (auto simp: host_ok_def escapable_def)
  with assms that is_ipv6_chars is_ipv6_colon show ?thesis by (auto simp: host_ok_def)
qed

lemma parseHost_join:
  assumes "host_ok h" "port_ok p"
  shows "parseHost (url_escape InHost (JoinHostPort h p)) = Some (JoinHostPort h p)"
  using assms(1)
proof (cases rule: host_cases)
  case name
  have ds: "list_all is_digit p" using assms(2) by (simp add: port_ok_def)
  have esc: "url_escape InHost (JoinHostPort h p) = url_escape InHost h @ CHR '':'' # p"
    using name digits_unescaped [OF ds, of InHost] host_punct by (simp add: JoinHostPort_def url_escape_append)
  have c: "CHR '':'' \<notin> set (url_escape InHost h)" "CHR ''['' \<notin> set (url_escape InHost h)"
    using escaped_host [of _ h] name(1,2) by auto
  then have "cut '':'' (url_escape InHost h @ CHR '':'' # p) = Some (url_escape InHost h, p)" by (intro cut_char_append)
  moreover have "CHR ''['' \<notin> set (url_escape InHost h @ CHR '':'' # p)" using c(2) digits_no_sep [OF ds] by simp
  moreover have "escapable InHost (JoinHostPort h p)"
    using name ds digit_unescaped digit_no_sep host_punct [of "CHR '':''"]
    by (simp add: JoinHostPort_def escapable_append) (auto simp: escapable_def list_all_iff)
  from unescape_escape [OF _ this] have "url_unescape InHost (url_escape InHost (JoinHostPort h p)) = Some (JoinHostPort h p)" by simp
  ultimately show ?thesis using ds by (simp add: parseHost_def esc)
next
  case v6
  have ds: "list_all is_digit p" using assms(2) by (simp add: port_ok_def)
  have nb: "CHR '']'' \<notin> set h" "CHR ''%'' \<notin> set h" using v6(2) v6_char_facts by blast+
  have j: "JoinHostPort h p = CHR ''['' # h @ CHR '']'' # CHR '':'' # p" using v6(3) by (simp add: JoinHostPort_def)
  have un: "\<forall>c \<in> set h. \<not> shouldEscape InHost c" using v6(2) v6_char_facts by blast
  have esc: "url_escape InHost (JoinHostPort h p) = JoinHostPort h p"
    unfolding j using un ds digit_unescaped host_punct by (intro url_escape_id) (auto simp: list_all_iff)
  have cl: "cut_last (CHR '']'') (h @ CHR '']'' # CHR '':'' # p) = Some (h, CHR '':'' # p)"
    using digits_no_sep [OF ds] by (intro cut_last_append) simp
  have "cut ''%25'' h = None" using cut_absent [OF nb(2)] by simp
  then have "parse_bracketed (h @ CHR '']'' # CHR '':'' # p) = Some (JoinHostPort h p)"
    using cl ds unescape_plain [OF un] v6(1) by (simp add: parse_bracketed_def validOptionalPort_def j)
  then show ?thesis unfolding esc by (simp add: parseHost_def j)
qed

lemma split_host_join:
  assumes "host_ok h" "port_ok p"
  shows "split_host (JoinHostPort h p) = (h, p)"
  using assms(1)
proof (cases rule: host_cases)
  case name
  have "cut_last (CHR '':'') (h @ CHR '':'' # p) = Some (h, p)"
    using digits_no_sep assms(2) by (intro cut_last_append) (auto simp: port_ok_def)
  moreover have "take 1 h \<noteq> ''[''" using name(2) by (cases h) auto
  ultimately show ?thesis using name assms(2) by (simp add: split_host_def JoinHostPort_def port_ok_def)
next
  case v6
  have "cut_last (CHR '':'') ((CHR ''['' # h @ '']'') @ CHR '':'' # p) = Some (CHR ''['' # h @ '']'', p)"
    using digits_no_sep assms(2) by (intro cut_last_append) (auto simp: port_ok_def)
  then show ?thesis using v6(3) assms(2) by (simp add: split_host_def JoinHostPort_def port_ok_def)
qed

section \<open>Printed links\<close>

definition url_text :: "string \<Rightarrow> string \<Rightarrow> string \<Rightarrow> string \<Rightarrow> string" where
  "url_text user hostport path query =
     url_escape InUser user @ ''@'' @ url_escape InHost hostport @ path @ (if query = [] then [] else ''?'' @ query)"

lemma split_at_append: "c \<notin> set a \<Longrightarrow> split_at [c] (a @ c # b) = (a, b)"
  by (simp add: split_at_def cut_char_append)

lemma split_at_absent: "c \<notin> set a \<Longrightarrow> split_at [c] a = (a, [])"
  by (simp add: split_at_def cut_absent)

lemma fragment_read:
  "url_unescape InFragment (QueryEscape name) = Some (map (\<lambda>c. if c = CHR '' '' then CHR ''+'' else c) name)"
proof (induction name)
  case (Cons c name)
  let ?m = "map (\<lambda>c. if c = CHR '' '' then CHR ''+'' else c)"
  have ih: "url_unescape InFragment (url_escape InQuery name) = Some (?m name)" using Cons by (simp add: QueryEscape_def)
  show ?case
  proof (cases "shouldEscape InQuery c")
    case True
    then show ?thesis using ih byte_split [of c] by (simp add: QueryEscape_def escape_ok_def)
  next
    case False
    then have "c \<noteq> CHR ''%''" "c \<noteq> CHR '' ''" using escape_simps(1) [of InQuery] unescaped_ascii [OF False] by (auto simp: ascii_space_def byte_def)
    then show ?thesis using False ih by (simp add: QueryEscape_def)
  qed
qed (simp add: QueryEscape_def)

lemma query_chars:
  assumes "c \<in> set (EncodeQuery q)"
  shows "c = CHR ''&'' \<or> c = CHR ''='' \<or> (\<exists>s. c \<in> set (url_escape InQuery s))"
proof -
  have "c \<in> set ''&'' \<union> (\<Union>w \<in> set (map query_pair q). set w)"
    using assms set_join unfolding EncodeQuery_def by blast
  then show ?thesis by (auto simp: query_pair_def split: if_splits)
qed

lemma url_parse_text:
  assumes "host_ok h" "port_ok p" "path \<in> {[], ''/''}" "dict_ok q"
  shows "url_parse (url_text user (JoinHostPort h p) path (EncodeQuery q) @ ''#'' @ QueryEscape name) =
    Some \<lparr>ur_User = Some (user, None), ur_Host = JoinHostPort h p, ur_RawQuery = EncodeQuery q,
      ur_Fragment = map (\<lambda>c. if c = CHR '' '' then CHR ''+'' else c) name\<rparr>"
proof -
  let ?u = "url_escape InUser user" and ?h = "url_escape InHost (JoinHostPort h p)" and ?q = "EncodeQuery q"
  have u: "CHR ''#'' \<notin> set ?u" "CHR ''?'' \<notin> set ?u" "CHR ''/'' \<notin> set ?u" "CHR '':'' \<notin> set ?u" "list_all user_char ?u"
    using escaped_user [of _ user] by (auto simp: list_all_iff)
  have hh: "CHR ''#'' \<notin> set ?h" "CHR ''?'' \<notin> set ?h" "CHR ''/'' \<notin> set ?h" "CHR ''@'' \<notin> set ?h"
    using escaped_host [of _ "JoinHostPort h p"] by auto
  have qs: "CHR ''#'' \<notin> set ?q" "list_all (\<lambda>c. \<not> ctl_char c) ?q"
    using query_chars [of _ q] escaped_query escaped_plain by (fastforce simp: list_all_iff ctl_char_def byte_def)+
  let ?auth = "?u @ ''@'' @ ?h" and ?tail = "if ?q = [] then [] else ''?'' @ ?q"
  have body: "split_at ''#'' (url_text user (JoinHostPort h p) path ?q @ ''#'' @ QueryEscape name) = (?auth @ path @ ?tail, QueryEscape name)"
    using split_at_append [of "CHR ''#''" "?auth @ path @ ?tail" "QueryEscape name"] u(1) hh(1) qs(1) assms(3) by (auto simp: url_text_def)
  have hier: "split_at ''?'' (?auth @ path @ ?tail) = (?auth @ path, ?q)"
    using split_at_append [of "CHR ''?''" "?auth @ path" ?q] split_at_absent [of "CHR ''?''" "?auth @ path"] u(2) hh(2) assms(3) by auto
  have auth: "split_at ''/'' (?auth @ path) = (?auth, [])"
    using split_at_append [of "CHR ''/''" ?auth "[]"] split_at_absent [of "CHR ''/''" ?auth] u(3) hh(3) assms(3) by auto
  have noctl: "\<not> list_ex ctl_char (?auth @ path @ ?tail)"
    using escaped_plain [of _ InUser user] escaped_plain [of _ InHost "JoinHostPort h p"] qs(2) assms(3)
    by (auto simp: list_ex_iff list_all_iff ctl_char_def byte_def)
  have "cut_last (CHR ''@'') ?auth = Some (?u, ?h)" using cut_last_append [OF hh(4), of ?u] by simp
  moreover have "parse_userinfo ?u = Some (user, None)"
    using u(4,5) unescape_escape [of InUser user] cut_absent [of "CHR '':''" ?u "[]"] by (simp add: parse_userinfo_def escapable_def)
  ultimately have "parseAuthority ?auth = Some (Some (user, None), JoinHostPort h p)"
    using parseHost_join [OF assms(1,2)] by (simp add: parseAuthority_def)
  then show ?thesis using body hier auth noctl fragment_read [of name] by (simp add: url_parse_def)
qed

end
