(* ===== verification/Links.thy ===== *)
theory Links
  imports Url Inbounds
begin

text \<open>
  Share links (\<^verbatim>\<open>core/xray/link.go\<close>): a vless, vmess, trojan, ss or hysteria2 link parsed into the outbound it
  describes. Errors carry what their text carries; an outbound is the object that the program marshals.
\<close>

section \<open>Small helpers\<close>

definition ellipsis :: string where
  "ellipsis = [char_of (0xE2 :: nat), char_of (0x80 :: nat), char_of (0xA6 :: nat)]"

definition trunc :: "string \<Rightarrow> string" where
  "trunc s = (if length s > 40 then take 40 s @ ellipsis else s)"

text \<open>The number \<^verbatim>\<open>strconv.Atoi\<close> returns when its error is ignored: zero on bad syntax, the nearest
  64-bit number out of range.\<close>

definition atoi_lax :: "string \<Rightarrow> int" where
  "atoi_lax s =
     (case parse_int s of Some n \<Rightarrow> n
      | None \<Rightarrow>
          let neg = (take 1 s = ''-''); ds = (if take 1 s \<in> {''-'', ''+''} then drop 1 s else s)
          in if ds = [] \<or> \<not> list_all is_digit ds then 0 else if neg then - (2 ^ 63) else 2 ^ 63 - 1)"

definition toInt :: "json option \<Rightarrow> int" where
  "toInt v = (case v of
       Some (JNum n) \<Rightarrow> n
     | Some (JDec m e) \<Rightarrow> (if m < 0 then - ((- m) div 10 ^ nat (- e)) else m div 10 ^ nat (- e))
     | Some (JStr s) \<Rightarrow> atoi_lax (trim_space s)
     | _ \<Rightarrow> 0)"

definition splitMethodPass :: "string \<Rightarrow> (string \<times> string) option" where
  "splitMethodPass s = (case cut '':'' s of None \<Rightarrow> None | Some (m, p) \<Rightarrow> if m = [] then None else Some (m, p))"

definition comma_parts :: "string \<Rightarrow> string list" where
  "comma_parts s = filter (\<lambda>p. p \<noteq> []) (map trim_space (split_on (CHR '','') s))"

definition splitComma :: "string \<Rightarrow> json" where
  "splitComma s = JArr (map JStr (comma_parts s))"

definition decodeFragment :: "string \<Rightarrow> string" where
  "decodeFragment f = (case url_unescape InQuery f of Some d \<Rightarrow> d | None \<Rightarrow> f)"

definition fragmentName :: "url \<Rightarrow> string \<Rightarrow> string" where
  "fragmentName u fallback = (if ur_Fragment u \<noteq> [] then decodeFragment (ur_Fragment u) else fallback)"

definition NormalizeCertPin :: "string \<Rightarrow> string" where
  "NormalizeCertPin s =
     join '','' (filter (\<lambda>p. p \<noteq> []) (map (\<lambda>p. to_lower (filter (\<lambda>c. c \<notin> set '': '') p)) (split_on (CHR '','') s)))"

section \<open>Stream settings\<close>

definition opt_field :: "string \<Rightarrow> string \<Rightarrow> (string \<times> json) list" where
  "opt_field k v = (if v = [] then [] else [(k, JStr v)])"

definition normNetwork :: "string \<Rightarrow> string" where
  "normNetwork t0 =
     (let t = to_lower (trim_space t0)
      in if t \<in> {'''', ''tcp'', ''raw''} then ''tcp''
         else if t \<in> {''ws'', ''websocket''} then ''ws''
         else if t \<in> {''grpc'', ''gun''} then ''grpc''
         else if t \<in> {''h2'', ''http''} then ''http''
         else if t \<in> {''xhttp'', ''splithttp''} then ''xhttp''
         else if t = ''httpupgrade'' then ''httpupgrade''
         else if t \<in> {''kcp'', ''mkcp''} then ''kcp''
         else if t = ''quic'' then ''quic''
         else ''tcp'')"

definition applyCertPin :: "url_values \<Rightarrow> (string \<times> json) list" where
  "applyCertPin q =
     opt_field ''pinnedPeerCertSha256'' (NormalizeCertPin (orDefault (q_get q ''pcs'') (q_get q ''pinSHA256''))) @
     opt_field ''verifyPeerCertByName'' (q_get q ''vcn'')"

definition link_sni :: "url_values \<Rightarrow> string" where
  "link_sni q = orDefault (q_get q ''sni'') (q_get q ''peer'')"

definition applyTLS :: "url_values \<Rightarrow> string \<Rightarrow> json" where
  "applyTLS q fallbackSNI =
     jobj (opt_field ''serverName'' (if link_sni q = [] then fallbackSNI else link_sni q) @
           opt_field ''fingerprint'' (q_get q ''fp'') @
           (if q_get q ''alpn'' = [] then [] else [(''alpn'', splitComma (q_get q ''alpn''))]) @
           applyCertPin q)"

definition realitySettings :: "url_values \<Rightarrow> json" where
  "realitySettings q =
     jobj (opt_field ''serverName'' (link_sni q) @ opt_field ''fingerprint'' (q_get q ''fp'') @
           opt_field ''publicKey'' (q_get q ''pbk'') @ opt_field ''shortId'' (q_get q ''sid'') @
           opt_field ''spiderX'' (q_get q ''spx''))"

definition security_part :: "url_values \<Rightarrow> (string \<times> json) list" where
  "security_part q =
     (let s = to_lower (q_get q ''security'')
      in if s = ''reality'' then [(''security'', JStr ''reality''), (''realitySettings'', realitySettings q)]
         else if s = [] \<or> s = ''none'' then []
         else [(''security'', JStr ''tls''), (''tlsSettings'', applyTLS q [])])"

definition transport_part :: "url_values \<Rightarrow> string \<Rightarrow> (string \<times> json) list" where
  "transport_part q network =
     (let host = q_get q ''host''; path = orDefault (q_get q ''path'') ''/''
      in if network = ''ws'' then
           [(''wsSettings'', jobj ([(''path'', JStr path)] @
              (if host = [] then [] else [(''headers'', jobj [(''Host'', JStr host)])])))]
         else if network = ''httpupgrade'' then
           [(''httpupgradeSettings'', jobj ([(''path'', JStr path)] @ opt_field ''host'' host))]
         else if network = ''grpc'' then
           [(''grpcSettings'', jobj ([(''serviceName'', JStr (q_get q ''serviceName''))] @
              (if q_get q ''mode'' = ''multi'' then [(''multiMode'', JBool True)] else [])))]
         else if network = ''http'' then
           [(''httpSettings'', jobj ([(''path'', JStr path)] @ (if host = [] then [] else [(''host'', JArr [JStr host])])))]
         else if network = ''xhttp'' then
           [(''xhttpSettings'', jobj ([(''path'', JStr path), (''mode'', JStr (orDefault (q_get q ''mode'') ''auto''))] @ opt_field ''host'' host))]
         else if network = ''tcp'' \<and> equal_fold (q_get q ''headerType'') ''http'' then
           [(''tcpSettings'', jobj [(''header'', jobj ([(''type'', JStr ''http'')] @
              (if host = [] then [] else [(''request'', jobj [(''headers'', jobj [(''Host'', JArr [JStr host])])])])))])]
         else [])"

definition buildStream :: "url_values \<Rightarrow> object" where
  "buildStream q =
     (let network = normNetwork (q_get q ''type'')
      in dict_of ([(''network'', JStr network)] @ security_part q @ transport_part q network))"

section \<open>Parsing a link\<close>

datatype link_error =
    NotALink string
  | UnsupportedScheme string
  | BadUrl
  | MissingHost
  | BadPort
  | MissingUuid
  | MissingPassword
  | MissingAuth
  | VmessBase64
  | VmessJson
  | VmessIncomplete
  | SsBase64
  | SsMalformed
  | SsNoCredentials
  | SsNoPort
  | SsIncomplete

record parsed_link =
  pl_Name :: string
  pl_Outbound :: object

type_synonym link_result = "(link_error, parsed_link) outcome"

definition outbound :: "string \<Rightarrow> json \<Rightarrow> object \<Rightarrow> object" where
  "outbound protocol settings stream =
     dict_of ([(''protocol'', JStr protocol), (''settings'', settings)] @
              (if stream = [] then [] else [(''streamSettings'', JObj stream)]))"

definition parse_link_url :: "string \<Rightarrow> (link_error, url) outcome" where
  "parse_link_url link =
     (case Option.bind (map_option snd (cut ''://'' link)) url_parse of None \<Rightarrow> Fail BadUrl | Some u \<Rightarrow> Ok u)"

definition link_hostPort :: "url \<Rightarrow> (link_error, string \<times> int) outcome" where
  "link_hostPort u =
     (if Hostname u = [] then Fail MissingHost
      else case parse_int (Port u) of
             None \<Rightarrow> Fail BadPort
           | Some p \<Rightarrow> if p = 0 then Fail BadPort else Ok (Hostname u, p))"

definition endpoint_fields :: "string \<Rightarrow> int \<Rightarrow> (string \<times> json) list" where
  "endpoint_fields host port = [(''address'', JStr host), (''port'', JNum port)]"

definition vnext_settings :: "string \<Rightarrow> int \<Rightarrow> json \<Rightarrow> json" where
  "vnext_settings host port user =
     jobj [(''vnext'', JArr [jobj (endpoint_fields host port @ [(''users'', JArr [user])])])]"

definition server_settings :: "string \<Rightarrow> int \<Rightarrow> (string \<times> json) list \<Rightarrow> json" where
  "server_settings host port creds = jobj [(''servers'', JArr [jobj (endpoint_fields host port @ creds)])]"

definition vless_user :: "string \<Rightarrow> url_values \<Rightarrow> json" where
  "vless_user uid q =
     jobj ([(''id'', JStr uid), (''encryption'', JStr (orDefault (q_get q ''encryption'') ''none''))] @
           opt_field ''flow'' (q_get q ''flow''))"

definition parseVLESS :: "string \<Rightarrow> link_result" where
  "parseVLESS link =
     obind (parse_link_url link) (\<lambda>u.
     obind (link_hostPort u) (\<lambda>(host, port).
       if Username u = [] then Fail MissingUuid
       else let q = ParseQuery (ur_RawQuery u)
            in Ok \<lparr>pl_Name = fragmentName u host,
                   pl_Outbound = outbound ''vless'' (vnext_settings host port (vless_user (Username u) q)) (buildStream q)\<rparr>))"

text \<open>A trojan link is TLS when no security was read from it, a \<^verbatim>\<open>security=none\<close> included.\<close>

definition trojan_stream :: "url_values \<Rightarrow> string \<Rightarrow> object" where
  "trojan_stream q host =
     (let stream = buildStream q
      in if map_of stream ''security'' = None
         then dput ''tlsSettings'' (applyTLS q host) (dput ''security'' (JStr ''tls'') stream)
         else stream)"

definition parseTrojan :: "string \<Rightarrow> link_result" where
  "parseTrojan link =
     obind (parse_link_url link) (\<lambda>u.
     obind (link_hostPort u) (\<lambda>(host, port).
       if Username u = [] then Fail MissingPassword
       else Ok \<lparr>pl_Name = fragmentName u host,
                pl_Outbound = outbound ''trojan'' (server_settings host port [(''password'', JStr (Username u))])
                  (trojan_stream (ParseQuery (ur_RawQuery u)) host)\<rparr>))"

definition hysteria_auth :: "url \<Rightarrow> string" where
  "hysteria_auth u =
     (case ur_User u of
        Some (n, Some pw) \<Rightarrow> if pw = [] then n else n @ '':'' @ pw
      | Some (n, None) \<Rightarrow> n
      | None \<Rightarrow> [])"

definition hysteria_stream :: "url_values \<Rightarrow> string \<Rightarrow> object" where
  "hysteria_stream q auth =
     dict_of [(''network'', JStr ''hysteria''), (''security'', JStr ''tls''),
              (''tlsSettings'', jobj (opt_field ''serverName'' (q_get q ''sni'') @ applyCertPin q)),
              (''hysteriaSettings'', jobj [(''version'', JNum 2), (''auth'', JStr auth)])]"

definition parseHysteria2 :: "string \<Rightarrow> link_result" where
  "parseHysteria2 link =
     obind (parse_link_url link) (\<lambda>u.
     obind (link_hostPort u) (\<lambda>(host, port).
       if hysteria_auth u = [] then Fail MissingAuth
       else Ok \<lparr>pl_Name = fragmentName u host,
                pl_Outbound = outbound ''hysteria'' (jobj ((''version'', JNum 2) # endpoint_fields host port))
                  (hysteria_stream (ParseQuery (ur_RawQuery u)) (hysteria_auth u))\<rparr>))"

subsection \<open>vmess\<close>

record vmess_json =
  vm_PS :: string
  vm_Add :: string
  vm_Port :: "json option"
  vm_ID :: string
  vm_Aid :: "json option"
  vm_Scy :: string
  vm_Net :: string
  vm_Type :: string
  vm_Host :: string
  vm_Path :: string
  vm_TLS :: string
  vm_SNI :: string
  vm_ALPN :: string
  vm_FP :: string
  vm_PCS :: string
  vm_VCN :: string

definition vmess_strings :: "string list" where
  "vmess_strings = [''ps'', ''add'', ''id'', ''scy'', ''net'', ''type'', ''host'', ''path'', ''tls'', ''sni'', ''alpn'', ''fp'', ''pcs'', ''vcn'']"

definition read_vmess :: "(string \<Rightarrow> string) \<Rightarrow> (string \<Rightarrow> json option) \<Rightarrow> vmess_json" where
  "read_vmess s v =
     \<lparr>vm_PS = s ''ps'', vm_Add = s ''add'', vm_Port = v ''port'', vm_ID = s ''id'', vm_Aid = v ''aid'', vm_Scy = s ''scy'',
      vm_Net = s ''net'', vm_Type = s ''type'', vm_Host = s ''host'', vm_Path = s ''path'', vm_TLS = s ''tls'',
      vm_SNI = s ''sni'', vm_ALPN = s ''alpn'', vm_FP = s ''fp'', vm_PCS = s ''pcs'', vm_VCN = s ''vcn''\<rparr>"

definition decode_vmess :: "raw_json \<Rightarrow> vmess_json option" where
  "decode_vmess r =
     (case r of
        Some JNull \<Rightarrow> Some (read_vmess (\<lambda>_. []) (\<lambda>_. None))
      | Some (JObj d) \<Rightarrow>
          if list_all (\<lambda>k. struct_str d k \<noteq> None) vmess_strings
          then Some (read_vmess (\<lambda>k. case struct_str d k of Some s \<Rightarrow> s | None \<Rightarrow> []) (struct_key d)) else None
      | _ \<Rightarrow> None)"

definition vmess_query :: "vmess_json \<Rightarrow> url_values" where
  "vmess_query v = dict_of
     [(''type'', vm_Net v), (''security'', vm_TLS v), (''host'', vm_Host v), (''path'', vm_Path v), (''sni'', vm_SNI v),
      (''fp'', vm_FP v), (''alpn'', vm_ALPN v), (''pcs'', vm_PCS v), (''vcn'', vm_VCN v), (''headerType'', vm_Type v),
      (''serviceName'', vm_Path v)]"

definition vmess_user :: "vmess_json \<Rightarrow> json" where
  "vmess_user v = jobj [(''id'', JStr (vm_ID v)), (''alterId'', JNum (toInt (vm_Aid v))),
     (''security'', JStr (orDefault (vm_Scy v) ''auto''))]"

definition parseVMess :: "string \<Rightarrow> link_result" where
  "parseVMess link =
     (case decodeB64 (trim_prefix ''vmess://'' link) of
        None \<Rightarrow> Fail VmessBase64
      | Some dec \<Rightarrow>
          (case decode_vmess (parse_json dec) of
             None \<Rightarrow> Fail VmessJson
           | Some v \<Rightarrow>
               if vm_Add v = [] \<or> toInt (vm_Port v) = 0 \<or> vm_ID v = [] then Fail VmessIncomplete
               else Ok \<lparr>pl_Name = (if vm_PS v = [] then vm_Add v else vm_PS v),
                        pl_Outbound = outbound ''vmess'' (vnext_settings (vm_Add v) (toInt (vm_Port v)) (vmess_user v))
                          (buildStream (vmess_query v))\<rparr>))"

subsection \<open>shadowsocks\<close>

text \<open>Method and password of a userinfo, as they are or base64-encoded.\<close>

definition ss_credentials :: "string \<Rightarrow> string \<times> string" where
  "ss_credentials userinfo =
     (case splitMethodPass userinfo of
        Some mp \<Rightarrow> mp
      | None \<Rightarrow> (case Option.bind (decodeB64 userinfo) splitMethodPass of Some mp \<Rightarrow> mp | None \<Rightarrow> ([], [])))"

definition ss_legacy :: "string \<Rightarrow> (link_error, string \<times> string \<times> string \<times> int) outcome" where
  "ss_legacy link =
     (let raw = fst (split_at ''#'' (trim_prefix ''ss://'' link))
      in case decodeB64 raw of
           None \<Rightarrow> Fail SsBase64
         | Some b \<Rightarrow>
             (case cut_last (CHR ''@'') b of
                None \<Rightarrow> Fail SsMalformed
              | Some (mp, hp) \<Rightarrow>
                  (case splitMethodPass mp of
                     None \<Rightarrow> Fail SsNoCredentials
                   | Some (m, p) \<Rightarrow>
                       (case cut '':'' hp of
                          None \<Rightarrow> Fail SsNoPort
                        | Some (h, ps) \<Rightarrow> Ok (m, p, h, atoi_lax ps)))))"

definition ss_parts :: "string \<Rightarrow> url \<Rightarrow> (link_error, string \<times> string \<times> string \<times> int) outcome" where
  "ss_parts link u =
     (case ur_User u of
        Some ui \<Rightarrow>
          if ur_Host u \<noteq> [] then
            obind (link_hostPort u) (\<lambda>(host, port).
              let (m, p) = ss_credentials (Userinfo_string ui) in Ok (m, p, host, port))
          else ss_legacy link
      | None \<Rightarrow> ss_legacy link)"

definition parseSS :: "string \<Rightarrow> link_result" where
  "parseSS link =
     obind (parse_link_url link) (\<lambda>u.
     let name = (if ur_Fragment u \<noteq> [] then decodeFragment (ur_Fragment u) else [])
     in obind (ss_parts link u) (\<lambda>(method, password, host, port).
          if method = [] \<or> host = [] \<or> port = 0 then Fail SsIncomplete
          else Ok \<lparr>pl_Name = (if name = [] then host else name),
                   pl_Outbound = outbound ''shadowsocks''
                     (server_settings host port [(''method'', JStr method), (''password'', JStr password)]) []\<rparr>))"

definition ParseLink :: "string \<Rightarrow> link_result" where
  "ParseLink link0 =
     (let link = trim_space link0
      in case cut ''://'' link of
           None \<Rightarrow> Fail (NotALink (trunc link))
         | Some (scheme, _) \<Rightarrow>
             let s = to_lower scheme
             in if s = ''vless'' then parseVLESS link
                else if s = ''vmess'' then parseVMess link
                else if s = ''trojan'' then parseTrojan link
                else if s = ''ss'' then parseSS link
                else if s = ''hysteria2'' \<or> s = ''hy2'' then parseHysteria2 link
                else Fail (UnsupportedScheme scheme))"

section \<open>Rebuilding a link\<close>

text \<open>\<^verbatim>\<open>core/xray/entrylink.go\<close>.\<close>

definition as_map :: "json option \<Rightarrow> object" where
  "as_map v = (case v of Some (JObj d) \<Rightarrow> d | _ \<Rightarrow> [])"

definition str :: "json option \<Rightarrow> string" where
  "str v = (case v of Some (JStr s) \<Rightarrow> s | Some (JNum n) \<Rightarrow> itoa n | Some (JDec m e) \<Rightarrow> dec_plain m e | _ \<Rightarrow> [])"

definition strs :: "json option \<Rightarrow> string list" where
  "strs v = (case v of
       Some (JStr s) \<Rightarrow> comma_parts s
     | Some (JArr xs) \<Rightarrow> filter (\<lambda>s. s \<noteq> []) (map (\<lambda>x. str (Some x)) xs)
     | _ \<Rightarrow> [])"

definition setIf :: "string \<Rightarrow> string \<Rightarrow> (string \<times> string) list" where
  "setIf k v = (if v = [] then [] else [(k, v)])"

definition first_host :: "string list \<Rightarrow> (string \<times> string) list" where
  "first_host hs = (case hs of [] \<Rightarrow> [] | h # _ \<Rightarrow> [(''host'', h)])"

definition security_query :: "object \<Rightarrow> (string \<times> string) list" where
  "security_query stream =
     (if str (map_of stream ''security'') = ''reality'' then
        let r = as_map (map_of stream ''realitySettings'')
        in [(''security'', ''reality'')] @ setIf ''sni'' (str (map_of r ''serverName'')) @ setIf ''fp'' (str (map_of r ''fingerprint'')) @
           setIf ''pbk'' (str (map_of r ''publicKey'')) @ setIf ''sid'' (str (map_of r ''shortId'')) @ setIf ''spx'' (str (map_of r ''spiderX''))
      else if str (map_of stream ''security'') = ''tls'' then
        let t = as_map (map_of stream ''tlsSettings'')
        in [(''security'', ''tls'')] @ setIf ''sni'' (str (map_of t ''serverName'')) @ setIf ''fp'' (str (map_of t ''fingerprint'')) @
           setIf ''alpn'' (join '','' (strs (map_of t ''alpn''))) @ setIf ''pcs'' (str (map_of t ''pinnedPeerCertSha256'')) @
           setIf ''vcn'' (str (map_of t ''verifyPeerCertByName''))
      else [])"

definition transport_query :: "object \<Rightarrow> string \<Rightarrow> (string \<times> string) list" where
  "transport_query stream network =
     (if network = ''ws'' then
        let ws = as_map (map_of stream ''wsSettings'')
        in setIf ''path'' (str (map_of ws ''path'')) @
           setIf ''host'' (orDefault (str (map_of ws ''host'')) (str (map_of (as_map (map_of ws ''headers'')) ''Host'')))
      else if network = ''httpupgrade'' then
        let hu = as_map (map_of stream ''httpupgradeSettings'')
        in setIf ''path'' (str (map_of hu ''path'')) @ setIf ''host'' (str (map_of hu ''host''))
      else if network = ''grpc'' then
        let g = as_map (map_of stream ''grpcSettings'')
        in setIf ''serviceName'' (str (map_of g ''serviceName'')) @
           (if map_of g ''multiMode'' = Some (JBool True) then [(''mode'', ''multi'')] else [])
      else if network = ''http'' then
        let h = as_map (map_of stream ''httpSettings'')
        in setIf ''path'' (str (map_of h ''path'')) @ first_host (strs (map_of h ''host''))
      else if network = ''xhttp'' then
        let x = as_map (map_of stream ''xhttpSettings'')
        in setIf ''path'' (str (map_of x ''path'')) @ setIf ''host'' (str (map_of x ''host'')) @ setIf ''mode'' (str (map_of x ''mode''))
      else if network = ''tcp'' then
        let hdr = as_map (map_of (as_map (map_of stream ''tcpSettings'')) ''header'')
        in if str (map_of hdr ''type'') = ''http''
           then (''headerType'', ''http'') #
             first_host (strs (map_of (as_map (map_of (as_map (map_of hdr ''request'')) ''headers'')) ''Host''))
           else []
      else [])"

definition streamQuery :: "object \<Rightarrow> url_values" where
  "streamQuery stream =
     (let network = normNetwork (str (map_of stream ''network''))
      in dict_of ([(''type'', network)] @ security_query stream @ transport_query stream network))"

datatype rebuild_error =
    BadOutboundText
  | NoProtocol
  | NoLinkForm string
  | NoEndpoint string
  | NoCredential string

type_synonym rebuilt = "(rebuild_error, string) outcome"

text \<open>The first server under a list, and its first user; without a list, the settings stand in for both.\<close>

definition list_head :: "json option \<Rightarrow> json option" where
  "list_head v = (case v of Some (JArr (x # _)) \<Rightarrow> Some x | _ \<Rightarrow> None)"

definition serverAndUser :: "object \<Rightarrow> string \<Rightarrow> object \<times> object" where
  "serverAndUser settings listKey =
     (let srv = (case list_head (map_of settings listKey) of Some x \<Rightarrow> as_map (Some x) | None \<Rightarrow> settings)
      in (srv, case list_head (map_of srv ''users'') of Some x \<Rightarrow> as_map (Some x) | None \<Rightarrow> srv))"

definition linkEndpoint :: "string \<Rightarrow> object \<Rightarrow> (rebuild_error, string \<times> int) outcome" where
  "linkEndpoint proto srv =
     (let host = str (map_of srv ''address''); port = toInt (map_of srv ''port'')
      in if host = [] \<or> port = 0 then Fail (NoEndpoint proto) else Ok (host, port))"

definition buildURL :: "string \<Rightarrow> string \<Rightarrow> string \<Rightarrow> int \<Rightarrow> string \<Rightarrow> url_values \<Rightarrow> string \<Rightarrow> string" where
  "buildURL scheme user host port path q name =
     scheme @ ''://'' @ url_text user (JoinHostPort host (itoa port)) path (EncodeQuery q) @ ''#'' @ QueryEscape name"

definition vless_link_query :: "object \<Rightarrow> object \<Rightarrow> url_values" where
  "vless_link_query user stream =
     (let q = dput ''encryption'' (orDefault (str (map_of user ''encryption'')) ''none'') (streamQuery stream);
          flow = str (map_of user ''flow'')
      in if flow = [] then q else dput ''flow'' flow q)"

definition vlessLink :: "object \<Rightarrow> object \<Rightarrow> string \<Rightarrow> rebuilt" where
  "vlessLink settings stream name =
     (let (srv, user) = serverAndUser settings ''vnext'' in
      obind (linkEndpoint ''vless'' srv) (\<lambda>(host, port).
        let uid = str (map_of user ''id'')
        in if uid = [] then Fail (NoCredential ''vless'')
           else Ok (buildURL ''vless'' uid host port [] (vless_link_query user stream) name)))"

definition trojan_link_query :: "object \<Rightarrow> url_values" where
  "trojan_link_query stream =
     (let q = streamQuery stream in if q_get q ''security'' = [] then dput ''security'' ''none'' q else q)"

definition trojanLink :: "object \<Rightarrow> object \<Rightarrow> string \<Rightarrow> rebuilt" where
  "trojanLink settings stream name =
     (let (srv, _) = serverAndUser settings ''servers'' in
      obind (linkEndpoint ''trojan'' srv) (\<lambda>(host, port).
        let password = str (map_of srv ''password'')
        in if password = [] then Fail (NoCredential ''trojan'')
           else Ok (buildURL ''trojan'' password host port [] (trojan_link_query stream) name)))"

definition ssLink :: "object \<Rightarrow> string \<Rightarrow> rebuilt" where
  "ssLink settings name =
     (let (srv, _) = serverAndUser settings ''servers'' in
      obind (linkEndpoint ''ss'' srv) (\<lambda>(host, port).
        let method = str (map_of srv ''method'')
        in if method = [] then Fail (NoCredential ''ss'')
           else Ok (buildURL ''ss'' (b64_encode True False (method @ '':'' @ str (map_of srv ''password''))) host port [] [] name)))"

definition hysteria_link_query :: "object \<Rightarrow> url_values" where
  "hysteria_link_query stream =
     (let tls = as_map (map_of stream ''tlsSettings'')
      in dict_of (setIf ''sni'' (str (map_of tls ''serverName'')) @
                  setIf ''pinSHA256'' (str (map_of tls ''pinnedPeerCertSha256''))))"

definition hysteria2Link :: "object \<Rightarrow> object \<Rightarrow> string \<Rightarrow> rebuilt" where
  "hysteria2Link settings stream name =
     obind (linkEndpoint ''hysteria2'' settings) (\<lambda>(host, port).
       let auth = str (map_of (as_map (map_of stream ''hysteriaSettings'')) ''auth'')
       in if auth = [] then Fail (NoCredential ''hysteria2'')
          else Ok (buildURL ''hysteria2'' auth host port ''/'' (hysteria_link_query stream) name))"

definition vmess_link_fields :: "object \<Rightarrow> string \<Rightarrow> int \<Rightarrow> string \<Rightarrow> url_values \<Rightarrow> (string \<times> string) list" where
  "vmess_link_fields user host port name q =
     [(''v'', ''2''), (''ps'', name), (''add'', host), (''port'', itoa port), (''id'', str (map_of user ''id'')),
      (''aid'', itoa (toInt (map_of user ''alterId''))), (''scy'', orDefault (str (map_of user ''security'')) ''auto''),
      (''net'', q_get q ''type''), (''type'', orDefault (q_get q ''headerType'') ''none''), (''host'', q_get q ''host''),
      (''path'', if q_get q ''type'' = ''grpc'' then q_get q ''serviceName'' else q_get q ''path''), (''tls'', q_get q ''security'')] @
     filter (\<lambda>kv. snd kv \<noteq> []) (map (\<lambda>k. (k, q_get q k)) [''sni'', ''alpn'', ''fp'', ''pcs'', ''vcn''])"

definition vmessLink :: "object \<Rightarrow> object \<Rightarrow> string \<Rightarrow> rebuilt" where
  "vmessLink settings stream name =
     (let (srv, user) = serverAndUser settings ''vnext'' in
      obind (linkEndpoint ''vmess'' srv) (\<lambda>(host, port).
        if str (map_of user ''id'') = [] then Fail (NoCredential ''vmess'')
        else Ok (''vmess://'' @ b64_encode False True
               (json_text (jobj (map (\<lambda>(k, v). (k, JStr v)) (vmess_link_fields user host port name (streamQuery stream))))))))"

text \<open>The decoded outbound: its protocol, settings and stream settings; \<open>None\<close> when a field has the wrong type.\<close>

definition struct_map :: "object \<Rightarrow> string \<Rightarrow> object option" where
  "struct_map d k = (case struct_key d k of None \<Rightarrow> Some [] | Some JNull \<Rightarrow> Some [] | Some (JObj m) \<Rightarrow> Some m | Some _ \<Rightarrow> None)"

definition decode_outbound :: "raw_json \<Rightarrow> (string \<times> object \<times> object) option" where
  "decode_outbound r =
     (case r of
        Some JNull \<Rightarrow> Some ([], [], [])
      | Some (JObj d) \<Rightarrow>
          (case (struct_str d ''protocol'', struct_map d ''settings'', struct_map d ''streamSettings'') of
             (Some p, Some s, Some st) \<Rightarrow> Some (p, s, st) | _ \<Rightarrow> None)
      | _ \<Rightarrow> None)"

definition OutboundLink :: "raw_json \<Rightarrow> string \<Rightarrow> rebuilt" where
  "OutboundLink r name =
     (case decode_outbound r of
        None \<Rightarrow> Fail BadOutboundText
      | Some (p, settings, stream) \<Rightarrow>
          if p = ''vless'' then vlessLink settings stream name
          else if p = ''vmess'' then vmessLink settings stream name
          else if p = ''trojan'' then trojanLink settings stream name
          else if p = ''shadowsocks'' then ssLink settings name
          else if p = ''hysteria'' then hysteria2Link settings stream name
          else if p = [] then Fail NoProtocol
          else Fail (NoLinkForm p))"

end
