(* ===== verification/Link_Props.thy ===== *)
theory Link_Props
  imports Links
begin

text \<open>
  A link and the outbound it describes carry the same thing: the stream settings that a query gives are given
  again by the query printed from them, and the outbound of a parsed link is printed as a link that parses to
  the same outbound under the label it was printed with. Where that fails in the code, it is stated as such.
\<close>

section \<open>Canonical texts\<close>

lemma normNetwork_cases:
  "normNetwork t \<in> {''tcp'', ''ws'', ''grpc'', ''http'', ''xhttp'', ''httpupgrade'', ''kcp'', ''quic''}"
  by (simp add: normNetwork_def Let_def)

lemma normNetwork_names:
  "list_all (\<lambda>n. normNetwork n = n) [''tcp'', ''ws'', ''grpc'', ''http'', ''xhttp'', ''httpupgrade'', ''kcp'', ''quic'']"
  by code_simp

lemma normNetwork_idem [simp]: "normNetwork (normNetwork t) = normNetwork t"
  using normNetwork_cases [of t] normNetwork_names unfolding list_all_iff by auto

lemma split_join_parts:
  assumes "\<And>p. p \<in> set ps \<Longrightarrow> p \<noteq> [] \<and> c \<notin> set p \<and> f p = p"
  shows "filter (\<lambda>p. p \<noteq> []) (map f (split_on c (join [c] ps))) = (if ps = [] then filter (\<lambda>p. p \<noteq> []) [f []] else ps)"
proof (cases "ps = []")
  case False
  then have "split_on c (join [c] ps) = ps" using assms by (intro split_on_join) auto
  moreover have "map f ps = ps" using assms by (auto intro: map_idI)
  moreover have "filter (\<lambda>p. p \<noteq> []) ps = ps" using assms by (auto simp: filter_id_conv)
  ultimately show ?thesis using False by simp
qed simp

lemma comma_parts_join [simp]: "comma_parts (join '','' (comma_parts s)) = comma_parts s"
proof -
  have "p \<noteq> [] \<and> CHR '','' \<notin> set p \<and> trim_space p = p" if "p \<in> set (comma_parts s)" for p
    using that set_trim_space set_split_on [of _ "CHR '',''" s] by (fastforce simp: comma_parts_def)
  then have "filter (\<lambda>p. p \<noteq> []) (map trim_space (split_on (CHR '','') (join '','' (comma_parts s)))) =
      (if comma_parts s = [] then filter (\<lambda>p. p \<noteq> []) [trim_space []] else comma_parts s)"
    by (rule split_join_parts)
  moreover have "trim_space [] = []" by code_simp
  ultimately show ?thesis by (auto simp: comma_parts_def [of "join _ _"])
qed

definition pin_part :: "string \<Rightarrow> string" where
  "pin_part p = to_lower (filter (\<lambda>c. c \<notin> set '': '') p)"

lemma NormalizeCertPin_parts:
  "NormalizeCertPin s = join '','' (filter (\<lambda>p. p \<noteq> []) (map pin_part (split_on (CHR '','') s)))"
  by (simp only: NormalizeCertPin_def pin_part_def [abs_def])

lemma lower_char_not: "c \<in> set '',: '' \<Longrightarrow> lower_char x = c \<longleftrightarrow> x = c"
proof -
  assume c: "c \<in> set '',: ''"
  show ?thesis
  proof (cases "65 \<le> byte x \<and> byte x \<le> 90")
    case True
    then have "byte (lower_char x) = byte x + 32" by (simp add: lower_char_def byte_def)
    moreover have "byte c \<le> 58" using c by (auto simp: byte_def)
    ultimately show ?thesis using True by auto
  qed (auto simp: lower_char_def)
qed

lemma to_lower_idem [simp]: "to_lower (to_lower s) = to_lower s"
  by (auto simp: to_lower_def lower_char_def byte_def)

lemma pin_part_idem: "pin_part (pin_part p) = pin_part p"
proof -
  have "filter (\<lambda>c. c \<notin> set '': '') (to_lower t) = to_lower (filter (\<lambda>c. c \<notin> set '': '') t)" for t
    using lower_char_not by (induction t) (auto simp: to_lower_def)
  then show ?thesis by (simp add: pin_part_def)
qed

lemma NormalizeCertPin_idem [simp]: "NormalizeCertPin (NormalizeCertPin s) = NormalizeCertPin s"
proof -
  let ?ps = "filter (\<lambda>p. p \<noteq> []) (map pin_part (split_on (CHR '','') s))"
  have "p \<noteq> [] \<and> CHR '','' \<notin> set p \<and> pin_part p = p" if p: "p \<in> set ?ps" for p
  proof -
    obtain w where w: "w \<in> set (split_on (CHR '','') s)" "p = pin_part w" "p \<noteq> []" using p by auto
    moreover have "CHR '','' \<notin> set w" using set_split_on [OF w(1)] by auto
    moreover have "CHR '','' \<notin> set (pin_part w)"
    proof
      assume "CHR '','' \<in> set (pin_part w)"
      then obtain x where "x \<in> set w" "lower_char x = CHR '',''" by (fastforce simp: pin_part_def to_lower_def)
      then show False using lower_char_not [of "CHR '',''" x] calculation(4) by simp
    qed
    ultimately show ?thesis using pin_part_idem by simp
  qed
  then have "filter (\<lambda>p. p \<noteq> []) (map pin_part (split_on (CHR '','') (join '','' ?ps))) =
      (if ?ps = [] then filter (\<lambda>p. p \<noteq> []) [pin_part []] else ?ps)"
    by (rule split_join_parts)
  moreover have "pin_part [] = []" by (simp add: pin_part_def to_lower_def)
  ultimately show ?thesis by (simp add: NormalizeCertPin_parts)
qed

section \<open>Fields written and read\<close>

named_theorems field_reads \<open>a field read from the settings or the query it was written to\<close>

lemma map_of_opt_field [field_reads]: "map_of (opt_field k v) k' = (if k' = k \<and> v \<noteq> [] then Some (JStr v) else None)"
  by (simp add: opt_field_def)

lemma rev_opt_field [field_reads]: "rev (opt_field k v) = opt_field k v"
  by (simp add: opt_field_def)

lemma map_of_setIf [field_reads]: "map_of (setIf k v) k' = (if k' = k \<and> v \<noteq> [] then Some v else None)"
  by (simp add: setIf_def)

lemma rev_setIf [field_reads]: "rev (setIf k v) = setIf k v"
  by (simp add: setIf_def)

lemma str_field [field_reads]: "str (if v \<noteq> [] then Some (JStr v) else None) = v" "str (Some (JStr v)) = v" "str None = []"
  by (simp_all add: str_def)

lemma value_field [field_reads]: "(case (if v \<noteq> [] then Some v else None) of None \<Rightarrow> [] | Some x \<Rightarrow> x) = v"
  by simp

lemma as_map_JObj [simp]: "as_map (Some (JObj d)) = d" "as_map None = []"
  by (simp_all add: as_map_def)

declare map_add_def [field_reads] map_of_dict_of [field_reads]

definition not_blank :: "string \<Rightarrow> bool" where
  "not_blank s \<longleftrightarrow> s = [] \<or> trim_space s \<noteq> []"

lemma orDefault_Nil [simp]: "orDefault [] d = d"
proof -
  have "trim_space [] = []" by code_simp
  then show ?thesis by (simp add: orDefault_def)
qed

lemma orDefault_id: "not_blank s \<Longrightarrow> orDefault s [] = s"
  by (auto simp: orDefault_def not_blank_def)

section \<open>Stream settings\<close>

definition stream_keys :: "string list" where
  "stream_keys = [''type'', ''security'', ''sni'', ''peer'', ''fp'', ''alpn'', ''pcs'', ''pinSHA256'', ''vcn'', ''pbk'', ''sid'',
     ''spx'', ''path'', ''host'', ''serviceName'', ''mode'', ''headerType'']"

lemma buildStream_parts:
  "buildStream q = dict_of ((''network'', JStr (normNetwork (q_get q ''type''))) # security_part q @
     transport_part q (normNetwork (q_get q ''type'')))"
  by (simp add: buildStream_def Let_def)

lemma buildStream_cong:
  assumes "list_all (\<lambda>k. q_get a k = q_get b k) stream_keys"
  shows "buildStream a = buildStream b"
  using assms by (simp add: stream_keys_def buildStream_parts security_part_def transport_part_def applyTLS_def
      realitySettings_def applyCertPin_def link_sni_def cong del: if_weak_cong)

lemma security_keys: "fst ` set (security_part q) \<subseteq> {''security'', ''realitySettings'', ''tlsSettings''}"
  by (auto simp: security_part_def Let_def)

definition transport_keys :: "string set" where
  "transport_keys = {''wsSettings'', ''httpupgradeSettings'', ''grpcSettings'', ''httpSettings'', ''xhttpSettings'', ''tcpSettings''}"

lemma transport_part_keys: "fst ` set (transport_part q n) \<subseteq> transport_keys"
  by (auto simp: transport_part_def transport_keys_def Let_def)

lemma map_of_outside: "k \<notin> fst ` set kvs \<Longrightarrow> map_of (rev kvs) k = None"
  by (simp add: map_of_eq_None_iff)

lemma stream_network [simp]: "map_of (buildStream q) ''network'' = Some (JStr (normNetwork (q_get q ''type'')))"
proof -
  have "map_of (rev (security_part q)) ''network'' = None" "map_of (rev (transport_part q n)) ''network'' = None" for n
    using security_keys [of q] transport_part_keys [of q n] by (auto intro!: map_of_outside simp: transport_keys_def)
  then show ?thesis by (simp add: buildStream_parts map_of_dict_of map_add_def)
qed

lemma stream_security:
  "k \<in> {''security'', ''realitySettings'', ''tlsSettings''} \<Longrightarrow> map_of (buildStream q) k = map_of (rev (security_part q)) k"
proof -
  assume k: "k \<in> {''security'', ''realitySettings'', ''tlsSettings''}"
  have "map_of (rev (transport_part q n)) k = None" for n
    using k transport_part_keys [of q n] by (intro map_of_outside) (auto simp: transport_keys_def)
  then show ?thesis using k by (auto simp: buildStream_parts map_of_dict_of map_add_def split: option.splits)
qed

lemma stream_transport:
  "k \<in> transport_keys \<Longrightarrow> map_of (buildStream q) k = map_of (rev (transport_part q (normNetwork (q_get q ''type'')))) k"
proof -
  assume k: "k \<in> transport_keys"
  have "map_of (rev (security_part q)) k = None"
    using k security_keys [of q] by (intro map_of_outside) (auto simp: transport_keys_def)
  then show ?thesis using k by (auto simp: buildStream_parts map_of_dict_of map_add_def transport_keys_def split: option.splits)
qed

text \<open>What a stream must not hold for its query to give it back: a server name or a pin of nothing but space,
  which a link cannot set, and an empty list of protocols.\<close>

definition tidy_stream :: "object \<Rightarrow> bool" where
  "tidy_stream st =
     (let tls = as_map (map_of st ''tlsSettings''); r = as_map (map_of st ''realitySettings'')
      in not_blank (str (map_of tls ''serverName'')) \<and> not_blank (str (map_of r ''serverName'')) \<and>
         not_blank (str (map_of tls ''pinnedPeerCertSha256'')) \<and> map_of tls ''alpn'' \<noteq> Some (JArr []))"

lemma strs_parts [field_reads]: "strs (Some (JArr (map JStr (comma_parts s)))) = comma_parts s"
proof -
  have "map (\<lambda>x. str (Some x)) (map JStr (comma_parts s)) = comma_parts s" by (simp add: str_def comp_def)
  then show ?thesis by (simp add: strs_def comma_parts_def)
qed

abbreviation security_class :: "url_values \<Rightarrow> string" where
  "security_class q \<equiv> to_lower (q_get q ''security'')"

definition cert_pin :: "url_values \<Rightarrow> string" where
  "cert_pin q = NormalizeCertPin (orDefault (q_get q ''pcs'') (q_get q ''pinSHA256''))"

definition sec_query :: "url_values \<Rightarrow> (string \<times> string) list" where
  "sec_query q =
     (if security_class q = ''reality'' then
        [(''security'', ''reality'')] @ setIf ''sni'' (link_sni q) @ setIf ''fp'' (q_get q ''fp'') @ setIf ''pbk'' (q_get q ''pbk'') @
        setIf ''sid'' (q_get q ''sid'') @ setIf ''spx'' (q_get q ''spx'')
      else if security_class q = [] \<or> security_class q = ''none'' then []
      else [(''security'', ''tls'')] @ setIf ''sni'' (link_sni q) @ setIf ''fp'' (q_get q ''fp'') @
        setIf ''alpn'' (if q_get q ''alpn'' = [] then [] else join '','' (comma_parts (q_get q ''alpn''))) @
        setIf ''pcs'' (cert_pin q) @ setIf ''vcn'' (q_get q ''vcn''))"

lemma strs_None [field_reads]: "strs None = []"
  by (simp add: strs_def)

lemma map_of_alpn [field_reads]:
  "map_of (if v = [] then [] else [(k, f v)]) k' = (if k' = k \<and> v \<noteq> [] then Some (f v) else None)"
  "rev (if v = [] then [] else [(k, f v)]) = (if v = [] then [] else [(k, f v)])"
  by simp_all

lemma security_query_stream: "security_query (buildStream q) = sec_query q"
proof -
  consider "security_class q = ''reality''" | "security_class q \<in> {[], ''none''}"
    | "security_class q \<notin> {''reality'', [], ''none''}" by blast
  then show ?thesis
  proof cases
    case 1
    then show ?thesis
      by (simp add: security_query_def sec_query_def stream_security security_part_def field_reads realitySettings_def)
  next
    case 2
    then show ?thesis
      by (auto simp: security_query_def sec_query_def stream_security security_part_def field_reads)
  next
    case 3
    then show ?thesis
      by (simp add: security_query_def sec_query_def stream_security security_part_def field_reads
          applyTLS_def applyCertPin_def cert_pin_def splitComma_def)
  qed
qed

definition first_path :: "url_values \<Rightarrow> string" where
  "first_path q = orDefault (q_get q ''path'') ''/''"

definition tr_query :: "url_values \<Rightarrow> string \<Rightarrow> (string \<times> string) list" where
  "tr_query q n =
     (let host = setIf ''host'' (q_get q ''host''); path = setIf ''path'' (first_path q)
      in if n = ''ws'' \<or> n = ''httpupgrade'' \<or> n = ''http'' then path @ host
         else if n = ''grpc'' then setIf ''serviceName'' (q_get q ''serviceName'') @ (if q_get q ''mode'' = ''multi'' then [(''mode'', ''multi'')] else [])
         else if n = ''xhttp'' then path @ host @ setIf ''mode'' (orDefault (q_get q ''mode'') ''auto'')
         else if n = ''tcp'' \<and> equal_fold (q_get q ''headerType'') ''http'' then (''headerType'', ''http'') # host
         else [])"

lemma first_host_one [field_reads]:
  "first_host (strs (if h = [] then None else Some (JArr [JStr h]))) = setIf ''host'' h"
  "first_host [] = []" "strs (Some (JArr [JStr h])) = (if h = [] then [] else [h])"
  by (simp_all add: first_host_def strs_def str_def setIf_def)

lemma transport_query_stream:
  assumes n: "n = normNetwork (q_get q ''type'')"
  shows "transport_query (buildStream q) n = tr_query q n"
proof -
  note reads = transport_query_def tr_query_def stream_transport transport_keys_def transport_part_def field_reads
    n [symmetric] first_path_def Let_def first_host_def setIf_def opt_field_def
  consider "n = ''tcp''" | "n = ''ws''" | "n = ''grpc''" | "n = ''http''" | "n = ''xhttp''" | "n = ''httpupgrade''" | "n = ''kcp'' \<or> n = ''quic''"
    using normNetwork_cases [of "q_get q ''type''"] n by blast
  then show ?thesis
    by cases (cases "q_get q ''host'' = []"; auto simp: reads)+
qed

definition printed_query :: "url_values \<Rightarrow> url_values" where
  "printed_query q =
     (let n = normNetwork (q_get q ''type'') in dict_of ((''type'', n) # sec_query q @ tr_query q n))"

lemma streamQuery_stream: "streamQuery (buildStream q) = printed_query q"
proof -
  have "normNetwork (str (map_of (buildStream q) ''network'')) = normNetwork (q_get q ''type'')" by (simp add: field_reads)
  then show ?thesis
    by (simp only: streamQuery_def printed_query_def Let_def security_query_stream transport_query_stream [OF refl] append_Cons append_Nil)
qed

lemma setIf_key: "k \<in> S \<Longrightarrow> fst ` set (setIf k v) \<subseteq> S"
  by (simp add: setIf_def)

lemma sec_query_keys: "fst ` set (sec_query q) \<subseteq> {''security'', ''sni'', ''fp'', ''alpn'', ''pcs'', ''vcn'', ''pbk'', ''sid'', ''spx''}"
  by (simp add: sec_query_def setIf_key image_Un)

lemma tr_query_keys: "fst ` set (tr_query q n) \<subseteq> {''path'', ''host'', ''serviceName'', ''mode'', ''headerType''}"
proof -
  consider "n = ''grpc''" | "n = ''tcp''" | "n \<noteq> ''grpc''" "n \<noteq> ''tcp''" by blast
  then show ?thesis
    by cases (cases "q_get q ''mode'' = ''multi''"; cases "equal_fold (q_get q ''headerType'') ''http''";
      simp add: tr_query_def Let_def setIf_key image_Un)+
qed

definition at_key :: "(string \<times> string) list \<Rightarrow> string \<Rightarrow> string" where
  "at_key kvs k = (case map_of (rev kvs) k of None \<Rightarrow> [] | Some v \<Rightarrow> v)"

lemma printed_security:
  "k \<in> {''security'', ''sni'', ''fp'', ''alpn'', ''pcs'', ''vcn'', ''pbk'', ''sid'', ''spx''} \<Longrightarrow> q_get (printed_query q) k = at_key (sec_query q) k"
proof -
  assume k: "k \<in> {''security'', ''sni'', ''fp'', ''alpn'', ''pcs'', ''vcn'', ''pbk'', ''sid'', ''spx''}"
  have "map_of (rev (tr_query q n)) k = None" for n
    using k tr_query_keys [of q n] by (intro map_of_outside) auto
  then show ?thesis using k
    by (auto simp: q_get_def dget_or_def printed_query_def at_key_def map_of_dict_of map_add_def Let_def split: option.splits)
qed

lemma printed_transport:
  "k \<in> {''path'', ''host'', ''serviceName'', ''mode'', ''headerType''} \<Longrightarrow>
     q_get (printed_query q) k = at_key (tr_query q (normNetwork (q_get q ''type''))) k"
proof -
  assume k: "k \<in> {''path'', ''host'', ''serviceName'', ''mode'', ''headerType''}"
  have "map_of (rev (sec_query q)) k = None"
    using k sec_query_keys [of q] by (intro map_of_outside) auto
  then show ?thesis using k
    by (auto simp: q_get_def dget_or_def printed_query_def at_key_def map_of_dict_of map_add_def Let_def split: option.splits)
qed

lemma printed_other:
  "q_get (printed_query q) ''peer'' = []" "q_get (printed_query q) ''pinSHA256'' = []"
  "q_get (printed_query q) ''encryption'' = []" "q_get (printed_query q) ''flow'' = []"
proof -
  have none: "map_of (rev (tr_query q n)) k = None" "map_of (rev (sec_query q)) k = None"
    if "k \<in> {''peer'', ''pinSHA256'', ''encryption'', ''flow''}" for n k
    using that sec_query_keys [of q] tr_query_keys [of q n] by (auto intro!: map_of_outside)
  show "q_get (printed_query q) ''peer'' = []" "q_get (printed_query q) ''pinSHA256'' = []"
    "q_get (printed_query q) ''encryption'' = []" "q_get (printed_query q) ''flow'' = []"
    by (simp_all add: q_get_def dget_or_def printed_query_def map_of_dict_of map_add_def Let_def none)
qed

lemma printed_type: "q_get (printed_query q) ''type'' = normNetwork (q_get q ''type'')"
proof -
  have "map_of (rev (tr_query q n)) ''type'' = None" "map_of (rev (sec_query q)) ''type'' = None" for n
    using sec_query_keys [of q] tr_query_keys [of q n] by (auto intro!: map_of_outside)
  then show ?thesis by (simp add: q_get_def dget_or_def printed_query_def map_of_dict_of map_add_def Let_def)
qed

section \<open>The stream round trip\<close>

lemma at_key_append: "at_key (xs @ ys) k = (if k \<in> fst ` set ys then at_key ys k else at_key xs k)"
proof (cases "k \<in> fst ` set ys")
  case True
  then obtain v where "map_of (rev ys) k = Some v" by (cases "map_of (rev ys) k") (auto simp: map_of_eq_None_iff)
  then show ?thesis using True by (simp add: at_key_def map_add_def)
next
  case False
  then show ?thesis by (simp add: at_key_def map_add_def map_of_outside)
qed

lemma at_key_simps [simp]:
  "at_key [] k = []" "at_key ((k', v) # kvs) k = (if k \<in> fst ` set kvs then at_key kvs k else if k = k' then v else [])"
  using at_key_append [of "[(k', v)]" kvs k] by (simp_all add: at_key_def)

lemma at_key_setIf [simp]: "at_key (setIf k v) k' = (if k' = k then v else [])"
  by (simp add: at_key_def field_reads)

lemma set_setIf [simp]: "fst ` set (setIf k v) = (if v = [] then {} else {k})"
  by (simp add: setIf_def)

lemma sec_values:
  assumes "security_class q \<notin> {''reality'', [], ''none''}"
  shows "at_key (sec_query q) ''security'' = ''tls''" "at_key (sec_query q) ''sni'' = link_sni q"
    "at_key (sec_query q) ''fp'' = q_get q ''fp''" "at_key (sec_query q) ''pcs'' = cert_pin q"
    "at_key (sec_query q) ''vcn'' = q_get q ''vcn''"
    "at_key (sec_query q) ''alpn'' = (if q_get q ''alpn'' = [] then [] else join '','' (comma_parts (q_get q ''alpn'')))"
  using assms by (simp_all add: sec_query_def at_key_append image_Un)

lemma sec_values_reality:
  assumes "security_class q = ''reality''"
  shows "at_key (sec_query q) ''security'' = ''reality''" "at_key (sec_query q) ''sni'' = link_sni q"
    "at_key (sec_query q) ''fp'' = q_get q ''fp''" "at_key (sec_query q) ''pbk'' = q_get q ''pbk''"
    "at_key (sec_query q) ''sid'' = q_get q ''sid''" "at_key (sec_query q) ''spx'' = q_get q ''spx''"
  using assms by (simp_all add: sec_query_def at_key_append image_Un)

lemma lower_literals: "to_lower ''reality'' = ''reality''" "to_lower ''tls'' = ''tls''" "to_lower [] = []"
  by code_simp+

lemma none_lower: "to_lower ''none'' = ''none''"
  by code_simp

lemma splitComma_join:
  "comma_parts s \<noteq> [] \<Longrightarrow> join '','' (comma_parts s) \<noteq> [] \<and> splitComma (join '','' (comma_parts s)) = splitComma s"
proof -
  assume ne: "comma_parts s \<noteq> []"
  then have "hd (comma_parts s) \<noteq> []" using hd_in_set [OF ne] by (auto simp: comma_parts_def)
  then have "join '','' (comma_parts s) \<noteq> []" using ne by (cases "comma_parts s") (auto simp: join_Cons)
  then show ?thesis by (simp add: splitComma_def)
qed

text \<open>The conditions on a query that its stream settings carry.\<close>

definition tidy_query :: "url_values \<Rightarrow> bool" where
  "tidy_query q \<longleftrightarrow>
     (security_class q \<in> {[], ''none''} \<or> not_blank (link_sni q)) \<and>
     (security_class q \<in> {[], ''none'', ''reality''} \<or>
        not_blank (cert_pin q) \<and> (q_get q ''alpn'' \<noteq> [] \<longrightarrow> comma_parts (q_get q ''alpn'') \<noteq> []))"

lemma security_part_printed:
  assumes "tidy_query q"
  shows "security_part (printed_query q) = security_part q"
proof -
  note v = printed_security printed_other
  consider "security_class q = ''reality''" | "security_class q \<in> {[], ''none''}"
    | "security_class q \<notin> {''reality'', [], ''none''}" by blast
  then show ?thesis
  proof cases
    case 1
    then have "not_blank (link_sni q)" using assms by (simp add: tidy_query_def)
    then have "link_sni (printed_query q) = link_sni q"
      by (simp add: link_sni_def [of "printed_query q"] v sec_values_reality [OF 1] orDefault_id)
    then show ?thesis using 1 by (simp add: security_part_def realitySettings_def v sec_values_reality [OF 1] lower_literals)
  next
    case 2
    then have "sec_query q = []" by (auto simp: sec_query_def)
    then have "q_get (printed_query q) ''security'' = []" by (simp add: v)
    then show ?thesis using 2 by (auto simp: security_part_def lower_literals)
  next
    case 3
    then have t: "not_blank (link_sni q)" "not_blank (cert_pin q)" "q_get q ''alpn'' \<noteq> [] \<longrightarrow> comma_parts (q_get q ''alpn'') \<noteq> []"
      using assms by (auto simp: tidy_query_def)
    have sni: "link_sni (printed_query q) = link_sni q"
      using t by (simp add: link_sni_def [of "printed_query q"] v sec_values [OF 3] orDefault_id)
    have pin: "applyCertPin (printed_query q) = applyCertPin q"
      using t by (simp add: applyCertPin_def v sec_values [OF 3] orDefault_id cert_pin_def)
    have alpn: "q_get (printed_query q) ''alpn'' = (if q_get q ''alpn'' = [] then [] else join '','' (comma_parts (q_get q ''alpn'')))"
      by (simp add: v sec_values [OF 3])
    have "applyTLS (printed_query q) [] = applyTLS q []"
      using t splitComma_join [of "q_get q ''alpn''"]
      by (simp add: applyTLS_def sni pin alpn v sec_values [OF 3])
    then show ?thesis using 3 by (simp add: security_part_def v sec_values [OF 3] lower_literals)
  qed
qed

lemma orDefault_twice: "orDefault (orDefault s d) d = orDefault s d"
  by (simp add: orDefault_def)

lemma orDefault_ne: "d \<noteq> [] \<Longrightarrow> orDefault s d \<noteq> []"
proof -
  have "trim_space [] = []" by code_simp
  then show "d \<noteq> [] \<Longrightarrow> orDefault s d \<noteq> []" by (auto simp: orDefault_def)
qed

lemma path_ne: "first_path q \<noteq> []"
  by (simp add: first_path_def orDefault_ne)

lemma equal_fold_http: "equal_fold ''http'' ''http'' = True" "equal_fold [] ''http'' = False"
  by code_simp+

lemma transport_part_printed:
  assumes n: "n = normNetwork (q_get q ''type'')"
  shows "transport_part (printed_query q) n = transport_part q n"
proof -
  have v: "k \<in> {''path'', ''host'', ''serviceName'', ''mode'', ''headerType''} \<Longrightarrow> q_get (printed_query q) k = at_key (tr_query q n) k" for k
    using printed_transport n by simp
  note reads = v tr_query_def transport_part_def Let_def at_key_append image_Un path_ne equal_fold_http
  have path: "orDefault (first_path q) ''/'' = orDefault (q_get q ''path'') ''/''"
    by (simp add: first_path_def orDefault_twice)
  consider "n = ''tcp''" | "n = ''ws''" | "n = ''grpc''" | "n = ''http''" | "n = ''xhttp''" | "n = ''httpupgrade''" | "n = ''kcp'' \<or> n = ''quic''"
    using normNetwork_cases [of "q_get q ''type''"] n by blast
  then show ?thesis
  proof cases
    case 1
    then show ?thesis by (cases "equal_fold (q_get q ''headerType'') ''http''") (simp_all add: reads)
  next
    case 5
    have "orDefault (orDefault (q_get q ''mode'') ''auto'') ''auto'' = orDefault (q_get q ''mode'') ''auto''"
      by (rule orDefault_twice)
    moreover have "orDefault (q_get q ''mode'') ''auto'' \<noteq> []" using orDefault_ne by simp
    ultimately show ?thesis using 5 path by (simp add: reads)
  qed (use path in \<open>auto simp: reads\<close>)
qed

text \<open>Parsing the printed query gives the stream settings it was printed from.\<close>

lemma buildStream_streamQuery:
  assumes "tidy_query q"
  shows "buildStream (streamQuery (buildStream q)) = buildStream q"
proof -
  have n: "normNetwork (q_get (printed_query q) ''type'') = normNetwork (q_get q ''type'')"
    by (simp add: printed_type)
  have "buildStream (printed_query q) = buildStream q"
    using security_part_printed [OF assms] transport_part_printed [OF refl, of q] by (simp add: buildStream_parts n)
  then show ?thesis by (simp only: streamQuery_stream)
qed

section \<open>Reading a printed link\<close>

definition label_ok :: "string \<Rightarrow> bool" where
  "label_ok n \<longleftrightarrow> n \<noteq> [] \<and> CHR ''%'' \<notin> set n \<and> CHR ''+'' \<notin> set n"

lemma cut_sep: "sep \<noteq> [] \<Longrightarrow> hd sep \<notin> set a \<Longrightarrow> cut sep (a @ sep @ b) = Some (a, b)"
  by (induction a) (cases sep; auto simp: prefix_def)+

lemma decodeFragment_spaces:
  assumes "CHR ''%'' \<notin> set n" "CHR ''+'' \<notin> set n"
  shows "decodeFragment (map (\<lambda>c. if c = CHR '' '' then CHR ''+'' else c) n) = n"
proof -
  have "url_unescape InQuery (map (\<lambda>c. if c = CHR '' '' then CHR ''+'' else c) n) = Some n"
    using assms by (induction n) auto
  then show ?thesis by (simp add: decodeFragment_def)
qed

lemma plain_append: "plain (a @ b) \<longleftrightarrow> plain a \<and> plain b"
  by (auto simp: plain_def)

lemma plain_escape: "plain (url_escape p s)"
  using escaped_plain [of _ p s] by (auto simp: plain_def)

lemma plain_query: "plain (EncodeQuery q)"
proof -
  have "\<not> ascii_space c \<and> byte c < 128" if "c \<in> set (EncodeQuery q)" for c
    using query_chars [OF that] escaped_plain [of c InQuery] by (auto simp: ascii_space_def byte_def)
  then show ?thesis by (simp add: plain_def)
qed

lemma plain_marks: "plain ''://''" "plain ''@''" "plain ''?''" "plain ''#''" "plain []" "plain ''/''"
  by (simp_all add: plain_def ascii_space_def byte_def)

lemma plain_link: "plain scheme \<Longrightarrow> path \<in> {[], ''/''} \<Longrightarrow> plain (buildURL scheme user h p path q n)"
  by (auto simp: buildURL_def url_text_def plain_append plain_escape plain_query plain_marks QueryEscape_def simp del: append_Cons)

definition reads_as :: "string \<Rightarrow> string \<Rightarrow> string \<Rightarrow> int \<Rightarrow> url_values \<Rightarrow> string \<Rightarrow> bool" where
  "reads_as link user h p q n \<longleftrightarrow>
     (\<exists>u. parse_link_url link = Ok u \<and> link_hostPort u = Ok (h, p) \<and> ur_User u = Some (user, None) \<and> ur_Host u \<noteq> [] \<and>
          ParseQuery (ur_RawQuery u) = q \<and> ur_Fragment u \<noteq> [] \<and> decodeFragment (ur_Fragment u) = n)"

lemma reads_as_url:
  assumes "host_ok h" "0 < p" "p < 2 ^ 63" "path \<in> {[], ''/''}" "dict_ok q" "label_ok n" "CHR '':'' \<notin> set scheme"
  shows "reads_as (buildURL scheme user h p path q n) user h p q n"
proof -
  have port: "port_ok (itoa p)" "parse_int (itoa p) = Some p"
    using assms(2,3) parse_int_itoa [of p] by (simp_all add: port_ok_def itoa_nat nat_str_digits)
  define f where "f = map (\<lambda>c. if c = CHR '' '' then CHR ''+'' else c) n"
  let ?u = "\<lparr>ur_User = Some (user, None), ur_Host = JoinHostPort h (itoa p), ur_RawQuery = EncodeQuery q, ur_Fragment = f\<rparr>"
  have "cut ''://'' (buildURL scheme user h p path q n) =
      Some (scheme, url_text user (JoinHostPort h (itoa p)) path (EncodeQuery q) @ ''#'' @ QueryEscape n)"
    unfolding buildURL_def using assms(7) by (intro cut_sep) simp_all
  then have "parse_link_url (buildURL scheme user h p path q n) = Ok ?u"
    using url_parse_text [OF assms(1) port(1) assms(4,5), of user n] by (simp add: parse_link_url_def f_def)
  moreover have "h \<noteq> []" using assms(1) by (simp add: host_ok_def)
  then have "link_hostPort ?u = Ok (h, p)" "ur_Host ?u \<noteq> []"
    using split_host_join [OF assms(1) port(1)] port(2) assms(2)
    by (simp_all add: link_hostPort_def Hostname_def Port_def JoinHostPort_def)
  moreover have "ur_Fragment ?u \<noteq> []" "decodeFragment (ur_Fragment ?u) = n"
    using assms(6) decodeFragment_spaces [of n] by (simp_all add: f_def label_ok_def)
  ultimately show ?thesis unfolding reads_as_def using ParseQuery_Encode [OF assms(5)] by (intro exI [of _ ?u]) simp
qed

lemma ParseLink_scheme:
  assumes "plain scheme" "path \<in> {[], ''/''}" "CHR '':'' \<notin> set scheme"
  shows "\<exists>r. cut ''://'' (buildURL scheme user h p path q n) = Some (scheme, r)"
    "trim_space (buildURL scheme user h p path q n) = buildURL scheme user h p path q n"
proof -
  show "\<exists>r. cut ''://'' (buildURL scheme user h p path q n) = Some (scheme, r)"
    unfolding buildURL_def using cut_sep [of "''://''" scheme] assms(3) by auto
  show "trim_space (buildURL scheme user h p path q n) = buildURL scheme user h p path q n"
    using trimmed_plain [OF plain_link [OF assms(1,2)]] by (simp add: trimmed_iff)
qed

section \<open>Outbounds of links printed and parsed\<close>

text \<open>A struct field finds its key as it is written when no key of the object differs from it in case only.\<close>

lemma struct_key_exact: "\<forall>x \<in> fst ` set d. to_lower x = to_lower k \<longrightarrow> x = k \<Longrightarrow> struct_key d k = map_of d k"
proof -
  assume a: "\<forall>x \<in> fst ` set d. to_lower x = to_lower k \<longrightarrow> x = k"
  show ?thesis
  proof (cases "map_of d k")
    case None
    then have "k \<notin> fst ` set d" by (simp add: map_of_eq_None_iff)
    then have "List.find (\<lambda>p. to_lower (fst p) = to_lower k) (rev d) = None" using a by (force simp: find_None_iff)
    then show ?thesis using None by (simp add: struct_key_def)
  qed (simp add: struct_key_def)
qed

lemma outbound_keys_lower:
  "list_all (\<lambda>k. list_all (\<lambda>x. to_lower x = to_lower k \<longrightarrow> x = k) [''protocol'', ''settings'', ''streamSettings''])
     [''protocol'', ''settings'', ''streamSettings'']"
  by code_simp

lemma decode_outbound_of: "decode_outbound (Some (JObj (outbound P (JObj s) st))) = Some (P, s, st)"
proof -
  have keys: "fst ` set (outbound P (JObj s) st) \<subseteq> set [''protocol'', ''settings'', ''streamSettings'']"
    by (auto simp: outbound_def dict_of_keys)
  have "struct_key (outbound P (JObj s) st) k = map_of (outbound P (JObj s) st) k" if "k \<in> set [''protocol'', ''settings'', ''streamSettings'']" for k
    using outbound_keys_lower that keys unfolding list_all_iff by (intro struct_key_exact) blast
  then show ?thesis
    by (cases "st = []") (simp_all add: decode_outbound_def struct_str_def struct_map_def outbound_def field_reads)
qed

lemma vnext_read:
  "serverAndUser (dict_of [(''vnext'', JArr [JObj (dict_of (endpoint_fields h p @ [(''users'', JArr [JObj u])]))])]) ''vnext'' =
     (dict_of (endpoint_fields h p @ [(''users'', JArr [JObj u])]), u)"
  by (simp add: serverAndUser_def list_head_def field_reads endpoint_fields_def)

lemma servers_read:
  assumes "''users'' \<notin> fst ` set creds"
  shows "serverAndUser (dict_of [(''servers'', JArr [JObj (dict_of (endpoint_fields h p @ creds))])]) ''servers'' =
     (dict_of (endpoint_fields h p @ creds), dict_of (endpoint_fields h p @ creds))"
  using assms by (simp add: serverAndUser_def list_head_def field_reads endpoint_fields_def map_of_outside Let_def)

lemma endpoint_read:
  assumes "''address'' \<notin> fst ` set r" "''port'' \<notin> fst ` set r" "h \<noteq> []" "p \<noteq> 0"
  shows "linkEndpoint proto (dict_of (endpoint_fields h p @ r)) = Ok (h, p)"
  using assms by (simp add: linkEndpoint_def field_reads endpoint_fields_def map_of_outside toInt_def)

lemma ParseLink_build:
  assumes "path \<in> {[], ''/''}"
  shows "ParseLink (buildURL ''vless'' user h p path q n) = parseVLESS (buildURL ''vless'' user h p path q n)"
    "ParseLink (buildURL ''trojan'' user h p path q n) = parseTrojan (buildURL ''trojan'' user h p path q n)"
    "ParseLink (buildURL ''ss'' user h p path q n) = parseSS (buildURL ''ss'' user h p path q n)"
    "ParseLink (buildURL ''hysteria2'' user h p path q n) = parseHysteria2 (buildURL ''hysteria2'' user h p path q n)"
proof -
  have s: "list_all (\<lambda>s. plain s \<and> CHR '':'' \<notin> set s \<and> to_lower s = s) [''vless'', ''trojan'', ''ss'', ''hysteria2'']"
    by (simp add: plain_def ascii_space_def byte_def to_lower_def lower_char_def)
  note P = ParseLink_scheme [OF _ assms]
  show "ParseLink (buildURL ''vless'' user h p path q n) = parseVLESS (buildURL ''vless'' user h p path q n)"
    using P [of "''vless''" user h p q n] s by (auto simp: ParseLink_def)
  show "ParseLink (buildURL ''trojan'' user h p path q n) = parseTrojan (buildURL ''trojan'' user h p path q n)"
    using P [of "''trojan''" user h p q n] s by (auto simp: ParseLink_def)
  show "ParseLink (buildURL ''ss'' user h p path q n) = parseSS (buildURL ''ss'' user h p path q n)"
    using P [of "''ss''" user h p q n] s by (auto simp: ParseLink_def)
  show "ParseLink (buildURL ''hysteria2'' user h p path q n) = parseHysteria2 (buildURL ''hysteria2'' user h p path q n)"
    using P [of "''hysteria2''" user h p q n] s by (auto simp: ParseLink_def)
qed

text \<open>What the link of an outbound has to give back.\<close>

definition link_back :: "object \<Rightarrow> string \<Rightarrow> bool" where
  "link_back ob n \<longleftrightarrow>
     (\<exists>l. OutboundLink (Some (JObj ob)) n = Ok l \<and> ParseLink l = Ok \<lparr>pl_Name = n, pl_Outbound = ob\<rparr>)"

lemma printed_ok [simp]: "dict_ok (printed_query q)"
  by (simp add: printed_query_def Let_def)

lemma q_get_dput: "q_get (dput k v q) k' = (if k' = k then v else q_get q k')"
  by (simp add: q_get_def dget_or_def dict_simps)

lemma buildStream_printed: "tidy_query q \<Longrightarrow> buildStream (printed_query q) = buildStream q"
  using buildStream_streamQuery [of q] by (simp only: streamQuery_stream)

lemma reads_asE:
  assumes "reads_as link user h p q n"
  obtains u where "parse_link_url link = Ok u" "link_hostPort u = Ok (h, p)" "ur_User u = Some (user, None)" "ur_Host u \<noteq> []"
    "ParseQuery (ur_RawQuery u) = q" "ur_Fragment u \<noteq> []" "decodeFragment (ur_Fragment u) = n"
  using assms by (auto simp: reads_as_def)

lemma vless_back:
  assumes "uid \<noteq> []" "host_ok h" "0 < p" "p < 2 ^ 63" "label_ok n" "tidy_query q"
  shows "link_back (outbound ''vless'' (vnext_settings h p (vless_user uid q)) (buildStream q)) n"
proof -
  define U where "U = dict_of ([(''id'', JStr uid), (''encryption'', JStr (orDefault (q_get q ''encryption'') ''none''))] @ opt_field ''flow'' (q_get q ''flow''))"
  have user: "vless_user uid q = JObj U" by (simp add: vless_user_def U_def)
  have uid: "str (map_of U ''id'') = uid" by (simp add: U_def field_reads)
  define Q where "Q = vless_link_query U (buildStream q)"
  have h: "h \<noteq> []" using assms(2) by (simp add: host_ok_def)
  have Q: "Q = (let r = dput ''encryption'' (orDefault (q_get q ''encryption'') ''none'') (printed_query q)
      in if q_get q ''flow'' = [] then r else dput ''flow'' (q_get q ''flow'') r)"
    by (simp add: Q_def vless_link_query_def streamQuery_stream U_def field_reads orDefault_twice)
  have okQ: "dict_ok Q" by (simp add: Q Let_def ok_intros)
  have "list_all (\<lambda>k. q_get Q k = q_get (printed_query q) k) stream_keys"
    by (simp add: stream_keys_def Q q_get_dput Let_def)
  then have stream: "buildStream Q = buildStream q" using buildStream_cong buildStream_printed [OF assms(6)] by metis
  have userQ: "vless_user uid Q = vless_user uid q"
    by (simp add: vless_user_def Q q_get_dput printed_other orDefault_twice Let_def)
  let ?l = "buildURL ''vless'' uid h p [] Q n"
  have "OutboundLink (Some (JObj (outbound ''vless'' (vnext_settings h p (vless_user uid q)) (buildStream q)))) n = Ok ?l"
    using h assms(1,3) endpoint_read [of "[(''users'', JArr [JObj U])]" h p "''vless''"] uid
    by (simp add: OutboundLink_def decode_outbound_of vnext_settings_def user vlessLink_def vnext_read Q_def [symmetric])
  moreover have "reads_as ?l uid h p Q n" using assms okQ by (intro reads_as_url) simp_all
  then have "ParseLink ?l = Ok \<lparr>pl_Name = n, pl_Outbound = outbound ''vless'' (vnext_settings h p (vless_user uid q)) (buildStream q)\<rparr>"
    by (rule reads_asE) (use assms(1) stream userQ in \<open>simp add: ParseLink_build parseVLESS_def Username_def fragmentName_def Let_def\<close>)
  ultimately show ?thesis by (auto simp: link_back_def)
qed

lemma trojan_stream_plain:
  assumes "security_class q \<in> {[], ''none''}"
  shows "map_of (buildStream q) ''security'' = None" "map_of (buildStream q) ''tlsSettings'' = None"
  using assms by (auto simp: stream_security security_part_def)

lemma trojan_stream_secured: "security_class q \<notin> {[], ''none''} \<Longrightarrow> map_of (buildStream q) ''security'' \<noteq> None"
  by (simp add: stream_security security_part_def Let_def)

text \<open>The stream of a trojan link is that of the query with its TLS made explicit.\<close>

definition explicit_tls :: "url_values \<Rightarrow> string \<Rightarrow> url_values" where
  "explicit_tls q host =
     (if security_class q \<in> {[], ''none''}
      then dput ''security'' ''tls'' (if link_sni q = [] then dput ''sni'' host q else q) else q)"

lemma transport_part_cong:
  assumes "list_all (\<lambda>k. q_get a k = q_get b k) [''path'', ''host'', ''serviceName'', ''mode'', ''headerType'']"
  shows "transport_part a n = transport_part b n"
  using assms by (simp add: transport_part_def cong del: if_weak_cong)

lemma trojan_stream_explicit:
  assumes "not_blank host" "host \<noteq> []"
  shows "trojan_stream q host = buildStream (explicit_tls q host)"
proof (cases "security_class q \<in> {[], ''none''}")
  case False
  then show ?thesis using trojan_stream_secured [OF False] by (auto simp: trojan_stream_def explicit_tls_def)
next
  case True
  let ?r = "explicit_tls q host" and ?n = "normNetwork (q_get q ''type'')"
  have r: "?r = dput ''security'' ''tls'' (if link_sni q = [] then dput ''sni'' host q else q)"
    using True by (simp only: explicit_tls_def if_True)
  have sni: "link_sni ?r = (if link_sni q = [] then host else link_sni q)"
    using assms by (simp add: r link_sni_def q_get_dput) (simp add: orDefault_def not_blank_def)
  have tls: "applyTLS ?r [] = applyTLS q host"
    using sni assms(2) by (simp add: applyTLS_def applyCertPin_def) (simp add: r q_get_dput)
  have sec: "security_part ?r = [(''security'', JStr ''tls''), (''tlsSettings'', applyTLS q host)]"
    using tls by (simp add: security_part_def) (simp add: r q_get_dput lower_literals)
  have tr: "transport_part ?r ?n = transport_part q ?n"
    by (rule transport_part_cong) (simp add: r q_get_dput)
  have sec0: "security_part q = []" using True by (auto simp: security_part_def)
  have ty: "q_get ?r ''type'' = q_get q ''type''" by (simp add: r q_get_dput)
  have "map_of (rev (transport_part q ?n)) k = None" if "k \<notin> transport_keys" for k
    using that transport_part_keys [of q ?n] by (intro map_of_outside) auto
  then have none: "map_of (rev (transport_part q ?n)) ''security'' = None" "map_of (rev (transport_part q ?n)) ''tlsSettings'' = None"
    by (simp_all add: transport_keys_def)
  have "map_of (trojan_stream q host) k = map_of (buildStream ?r) k" for k
    using trojan_stream_plain [OF True] none
    by (auto simp: trojan_stream_def Let_def buildStream_parts [of ?r] ty sec tr dict_simps map_add_def)
      (auto simp: buildStream_parts sec0 dict_simps map_add_def split: option.splits)
  then show ?thesis
    by (intro dict_ext) (simp_all add: trojan_stream_def buildStream_parts Let_def ok_intros)
qed

lemma explicit_tls_secured: "security_class (explicit_tls q host) \<notin> {[], ''none''}"
  by (auto simp: explicit_tls_def q_get_dput lower_literals)

lemma printed_secured:
  assumes "security_class q \<notin> {[], ''none''}"
  shows "q_get (printed_query q) ''security'' \<noteq> []" "security_class (printed_query q) \<notin> {[], ''none''}"
proof -
  have "q_get (printed_query q) ''security'' \<in> {''tls'', ''reality''}"
    using assms sec_values(1) [of q] sec_values_reality(1) [of q] by (cases "security_class q = ''reality''") (auto simp: printed_security)
  then show "q_get (printed_query q) ''security'' \<noteq> []" "security_class (printed_query q) \<notin> {[], ''none''}"
    by (auto simp: lower_literals)
qed

lemma trojan_back:
  assumes "pw \<noteq> []" "host_ok h" "0 < p" "p < 2 ^ 63" "label_ok n" "not_blank h" "tidy_query (explicit_tls q h)"
  shows "link_back (outbound ''trojan'' (server_settings h p [(''password'', JStr pw)]) (trojan_stream q h)) n"
proof -
  have h: "h \<noteq> []" using assms(2) by (simp add: host_ok_def)
  define r where "r = explicit_tls q h"
  have st: "trojan_stream q h = buildStream r" using trojan_stream_explicit [OF assms(6) h] by (simp add: r_def)
  have sec: "security_class r \<notin> {[], ''none''}" unfolding r_def by (rule explicit_tls_secured)
  define Q where "Q = printed_query r"
  have q: "trojan_link_query (buildStream r) = Q"
    using printed_secured(1) [OF sec] by (simp add: trojan_link_query_def streamQuery_stream Q_def Let_def)
  have rt: "trojan_stream Q h = buildStream r"
    using trojan_stream_explicit [OF assms(6) h, of Q] printed_secured(2) [OF sec] assms(7) buildStream_printed [of r]
    by (auto simp: explicit_tls_def Q_def r_def)
  let ?l = "buildURL ''trojan'' pw h p [] Q n"
  let ?ob = "outbound ''trojan'' (server_settings h p [(''password'', JStr pw)]) (buildStream r)"
  let ?srv = "dict_of (endpoint_fields h p @ [(''password'', JStr pw)])"
  have "str (map_of ?srv ''password'') = pw" by (simp add: field_reads endpoint_fields_def)
  then have "OutboundLink (Some (JObj ?ob)) n = Ok ?l"
    using h assms(1,3) endpoint_read [of "[(''password'', JStr pw)]" h p "''trojan''"] servers_read [of "[(''password'', JStr pw)]" h p]
    by (simp add: OutboundLink_def decode_outbound_of server_settings_def trojanLink_def q)
  moreover have "reads_as ?l pw h p Q n" using assms by (intro reads_as_url) (simp_all add: Q_def)
  then have "ParseLink ?l = Ok \<lparr>pl_Name = n, pl_Outbound = ?ob\<rparr>"
    by (rule reads_asE) (use assms(1) rt in \<open>simp add: ParseLink_build parseTrojan_def Username_def fragmentName_def\<close>)
  ultimately show ?thesis unfolding st by (auto simp: link_back_def)
qed

lemma hysteria_back:
  assumes "auth \<noteq> []" "host_ok h" "0 < p" "p < 2 ^ 63" "label_ok n" "q_get q ''vcn'' = []"
  shows "link_back (outbound ''hysteria'' (jobj ((''version'', JNum 2) # endpoint_fields h p)) (hysteria_stream q auth)) n"
proof -
  have h: "h \<noteq> []" using assms(2) by (simp add: host_ok_def)
  define Q where "Q = dict_of (setIf ''sni'' (q_get q ''sni'') @ setIf ''pinSHA256'' (cert_pin q))"
  have reads: "q_get Q ''sni'' = q_get q ''sni''" "q_get Q ''pinSHA256'' = cert_pin q" "q_get Q ''pcs'' = []" "q_get Q ''vcn'' = []"
    by (simp_all add: Q_def q_get_def dget_or_def field_reads)
  have tls: "as_map (map_of (hysteria_stream q auth) ''tlsSettings'') = dict_of (opt_field ''serverName'' (q_get q ''sni'') @ opt_field ''pinnedPeerCertSha256'' (cert_pin q))"
    using assms(6) by (simp add: hysteria_stream_def field_reads applyCertPin_def cert_pin_def opt_field_def)
  have q: "hysteria_link_query (hysteria_stream q auth) = Q"
    by (simp add: hysteria_link_query_def tls Q_def field_reads)
  have "applyCertPin Q = applyCertPin q"
    using assms(6) by (simp add: applyCertPin_def reads) (simp add: cert_pin_def)
  then have rt: "hysteria_stream Q auth = hysteria_stream q auth" by (simp add: hysteria_stream_def reads)
  let ?l = "buildURL ''hysteria2'' auth h p ''/'' Q n"
  let ?ob = "outbound ''hysteria'' (jobj ((''version'', JNum 2) # endpoint_fields h p)) (hysteria_stream q auth)"
  have "str (map_of (as_map (map_of (hysteria_stream q auth) ''hysteriaSettings'')) ''auth'') = auth"
    by (simp add: hysteria_stream_def field_reads)
  then have "OutboundLink (Some (JObj ?ob)) n = Ok ?l"
    using h assms(1,3)
    by (simp add: OutboundLink_def decode_outbound_of hysteria2Link_def q linkEndpoint_def endpoint_fields_def field_reads toInt_def)
  moreover have "reads_as ?l auth h p Q n" using assms by (intro reads_as_url) (simp_all add: Q_def)
  then have "ParseLink ?l = Ok \<lparr>pl_Name = n, pl_Outbound = ?ob\<rparr>"
    by (rule reads_asE) (use assms(1) rt in \<open>simp add: ParseLink_build parseHysteria2_def hysteria_auth_def fragmentName_def\<close>)
  ultimately show ?thesis by (auto simp: link_back_def)
qed

subsection \<open>shadowsocks\<close>

lemma b64_url_chars: "c \<in> set (b64_encode True False s) \<Longrightarrow> c \<in> b64_char True ` {..<64}"
proof (induction True False s rule: b64_encode.induct)
  case (1 a b d r)
  then show ?case using sextets(1,2,3) [OF byte_lt [of a] byte_lt [of b] byte_lt [of d]] by auto
next
  case (2 a b)
  then show ?case using sextets(1,2,5) [OF byte_lt [of a] byte_lt [of b] byte_lt [of b]] by auto
next
  case (3 a)
  then show ?case using sextets(1,4) [OF byte_lt [of a] byte_lt [of a] byte_lt [of a]] by auto
qed simp

lemma b64_url_alphabet: "n < 64 \<Longrightarrow> is_alnum (b64_char True n) \<or> b64_char True n \<in> set ''-_''"
  by (auto simp: b64_char_def is_alnum_def is_digit_def byte_def)

lemma b64_marks: "list_all (\<lambda>c. \<not> shouldEscape InUser c \<and> c \<noteq> CHR '':'') ''-_''"
  by code_simp

lemma alnum_no_colon: "is_alnum c \<Longrightarrow> c \<noteq> CHR '':''"
  by (auto simp: is_alnum_def is_digit_def byte_def)

lemma ss_creds:
  assumes "m \<noteq> []" "CHR '':'' \<notin> set m"
  shows "ss_credentials (Userinfo_string (b64_encode True False (m @ '':'' @ pw), None)) = (m, pw)"
proof -
  let ?c = "b64_encode True False (m @ '':'' @ pw)"
  have chars: "\<not> shouldEscape InUser x \<and> x \<noteq> CHR '':''" if "x \<in> set ?c" for x
  proof -
    have "x \<in> b64_char True ` {..<64}" by (rule b64_url_chars [OF that])
    then obtain k where k: "k < 64" "x = b64_char True k" by auto
    then consider "is_alnum x" | "x \<in> set ''-_''" using b64_url_alphabet [OF k(1)] by blast
    then show ?thesis
    proof cases
      case 1
      then show ?thesis using alnum_unescaped alnum_no_colon by blast
    next
      case 2
      then show ?thesis using b64_marks unfolding list_all_iff by blast
    qed
  qed
  then have "url_escape InUser ?c = ?c" by (intro url_escape_id) blast
  moreover have nc: "CHR '':'' \<notin> set ?c" using chars [of "CHR '':''"] by blast
  ultimately have c: "url_escape InUser ?c = ?c" "cut '':'' ?c = None" using cut_absent [OF nc] by simp_all
  have "decodeB64 ?c = Some (m @ '':'' @ pw)" by (rule decodeB64_encode) simp
  moreover have "cut '':'' (m @ '':'' @ pw) = Some (m, pw)" using cut_char_append [OF assms(2), of pw] by simp
  then have "splitMethodPass (m @ '':'' @ pw) = Some (m, pw)" using assms(1) by (simp add: splitMethodPass_def)
  moreover have "splitMethodPass ?c = None" using c(2) by (simp add: splitMethodPass_def)
  ultimately show ?thesis using c(1) by (simp add: ss_credentials_def Userinfo_string_def)
qed

lemma ss_back:
  assumes "m \<noteq> []" "CHR '':'' \<notin> set m" "host_ok h" "0 < p" "p < 2 ^ 63" "label_ok n"
  shows "link_back (outbound ''shadowsocks'' (server_settings h p [(''method'', JStr m), (''password'', JStr pw)]) []) n"
proof -
  have h: "h \<noteq> []" using assms(3) by (simp add: host_ok_def)
  let ?creds = "[(''method'', JStr m), (''password'', JStr pw)]"
  let ?ob = "outbound ''shadowsocks'' (server_settings h p ?creds) []"
  let ?l = "buildURL ''ss'' (b64_encode True False (m @ '':'' @ pw)) h p [] [] n"
  have "str (map_of (dict_of (endpoint_fields h p @ ?creds)) ''method'') = m"
    "str (map_of (dict_of (endpoint_fields h p @ ?creds)) ''password'') = pw"
    by (simp_all add: field_reads endpoint_fields_def)
  then have "OutboundLink (Some (JObj ?ob)) n = Ok ?l"
    using h assms(1,4) endpoint_read [of ?creds h p "''ss''"] servers_read [of ?creds h p]
    by (simp add: OutboundLink_def decode_outbound_of server_settings_def ssLink_def)
  moreover have "reads_as ?l (b64_encode True False (m @ '':'' @ pw)) h p [] n"
    using assms by (intro reads_as_url) (simp_all add: dict_ok_def)
  then have "ParseLink ?l = Ok \<lparr>pl_Name = n, pl_Outbound = ?ob\<rparr>"
  proof (rule reads_asE)
    fix u
    assume u: "parse_link_url ?l = Ok u" "link_hostPort u = Ok (h, p)" "ur_User u = Some (b64_encode True False (m @ '':'' @ pw), None)"
      "ur_Host u \<noteq> []" "ur_Fragment u \<noteq> []" "decodeFragment (ur_Fragment u) = n"
    then have "ss_parts ?l u = Ok (m, pw, h, p)" using ss_creds [OF assms(1,2), of pw] by (simp add: ss_parts_def)
    then show ?thesis using u assms(1,4,6) h by (simp add: ParseLink_build parseSS_def label_ok_def)
  qed
  ultimately show ?thesis by (auto simp: link_back_def)
qed

subsection \<open>vmess\<close>

lemma atoi_itoa: "- (2 ^ 63) \<le> i \<Longrightarrow> i < 2 ^ 63 \<Longrightarrow> toInt (Some (JStr (itoa i))) = i"
proof -
  assume r: "- (2 ^ 63) \<le> i" "i < 2 ^ 63"
  have "plain (nat_str m)" for m
    using nat_str_digits [of m] unfolding plain_def list_all_iff is_digit_def ascii_space_def by force
  moreover have "plain ''-''" by (simp add: plain_def ascii_space_def byte_def)
  ultimately have "plain (itoa i)" using plain_append [of "''-''"] by (simp add: itoa_def)
  then have "trim_space (itoa i) = itoa i" using trimmed_plain trimmed_iff by blast
  then show ?thesis using parse_int_itoa [OF r] by (simp add: toInt_def atoi_lax_def)
qed

lemma set_dict_of: "(k, v) \<in> set (dict_of kvs) \<Longrightarrow> (k, v) \<in> set kvs"
proof -
  assume "(k, v) \<in> set (dict_of kvs)"
  then have "map_of (dict_of kvs) k = Some v" by (intro map_of_is_SomeI dict_ok_distinct) simp_all
  then show ?thesis by (metis map_of_SomeD map_of_dict_of set_rev)
qed

lemma fields_ok_iff: "fields_ok d \<longleftrightarrow> (\<forall>kv \<in> set d. json_ok (snd kv))"
  by (induction d) auto

abbreviation string_fields :: "(string \<times> string) list \<Rightarrow> (string \<times> json) list" where
  "string_fields \<equiv> map (\<lambda>(k, v). (k, JStr v))"

lemma json_ok_strings: "json_ok (JObj (dict_of (string_fields kvs)))"
proof -
  have "json_ok (snd kv)" if "kv \<in> set (dict_of (string_fields kvs))" for kv
    using set_dict_of [of "fst kv" "snd kv" "string_fields kvs"] that by auto
  then show ?thesis by (simp add: fields_ok_iff)
qed

lemma map_of_strings: "map_of (rev (string_fields kvs)) k = map_option JStr (map_of (rev kvs) k)"
  by (simp add: rev_map map_of_map)

definition vmess_keys :: "string list" where
  "vmess_keys = [''v'', ''ps'', ''add'', ''port'', ''id'', ''aid'', ''scy'', ''net'', ''type'', ''host'', ''path'', ''tls'', ''sni'', ''alpn'', ''fp'', ''pcs'', ''vcn'']"

lemma vmess_lower: "list_all (\<lambda>k. to_lower k = k) vmess_keys"
  by code_simp

lemma lower_key: "k \<in> set vmess_keys \<Longrightarrow> to_lower k = k"
  using vmess_lower by (simp add: list_all_iff)

lemma vmess_lookup:
  assumes "fst ` set kvs \<subseteq> set vmess_keys" "k \<in> set vmess_keys"
  shows "struct_key (dict_of (string_fields kvs)) k = map_option JStr (map_of (rev kvs) k)"
    "struct_str (dict_of (string_fields kvs)) k = Some (at_key kvs k)"
proof -
  have keys: "fst ` set (dict_of (string_fields kvs)) \<subseteq> set vmess_keys" using assms(1) by (auto simp: dict_of_keys)
  have "x = k" if "x \<in> fst ` set (dict_of (string_fields kvs))" "to_lower x = to_lower k" for x
  proof -
    have "x \<in> set vmess_keys" using that(1) keys by blast
    then show ?thesis using that(2) lower_key [of x] lower_key [OF assms(2)] by simp
  qed
  then have "struct_key (dict_of (string_fields kvs)) k = map_of (dict_of (string_fields kvs)) k" by (intro struct_key_exact) blast
  then show s: "struct_key (dict_of (string_fields kvs)) k = map_option JStr (map_of (rev kvs) k)"
    by (simp add: map_of_dict_of map_of_strings)
  show "struct_str (dict_of (string_fields kvs)) k = Some (at_key kvs k)"
    by (simp add: struct_str_def s at_key_def split: option.splits)
qed

lemma vmess_optional:
  "filter (\<lambda>kv. snd kv \<noteq> []) (map (\<lambda>k. (k, q_get q k)) [''sni'', ''alpn'', ''fp'', ''pcs'', ''vcn'']) =
     setIf ''sni'' (q_get q ''sni'') @ setIf ''alpn'' (q_get q ''alpn'') @ setIf ''fp'' (q_get q ''fp'') @
     setIf ''pcs'' (q_get q ''pcs'') @ setIf ''vcn'' (q_get q ''vcn'')"
  by (simp add: setIf_def)

lemma vmess_field_keys: "fst ` set (vmess_link_fields user h p n q) \<subseteq> set vmess_keys"
  unfolding vmess_link_fields_def vmess_optional by (simp add: vmess_keys_def image_Un setIf_key)

lemma at_key_distinct: "distinct (map fst kvs) \<Longrightarrow> at_key kvs k = (case map_of kvs k of None \<Rightarrow> [] | Some v \<Rightarrow> v)"
proof -
  assume "distinct (map fst kvs)"
  then have "map_of (rev kvs) = map_of kvs"
    by (intro map_of_inject_set [THEN iffD2]) (simp_all add: rev_map [symmetric])
  then show ?thesis by (simp add: at_key_def)
qed

lemma at_key_Some: "at_key kvs k = v \<Longrightarrow> v \<noteq> [] \<Longrightarrow> map_of (rev kvs) k = Some v"
  by (auto simp: at_key_def split: option.splits)

definition vmess_fixed :: "object \<Rightarrow> string \<Rightarrow> int \<Rightarrow> string \<Rightarrow> url_values \<Rightarrow> (string \<times> string) list" where
  "vmess_fixed user h p n q =
     [(''v'', ''2''), (''ps'', n), (''add'', h), (''port'', itoa p), (''id'', str (map_of user ''id'')),
      (''aid'', itoa (toInt (map_of user ''alterId''))), (''scy'', orDefault (str (map_of user ''security'')) ''auto''),
      (''net'', q_get q ''type''), (''type'', orDefault (q_get q ''headerType'') ''none''), (''host'', q_get q ''host''),
      (''path'', if q_get q ''type'' = ''grpc'' then q_get q ''serviceName'' else q_get q ''path''), (''tls'', q_get q ''security'')]"

definition vmess_extra :: "url_values \<Rightarrow> (string \<times> string) list" where
  "vmess_extra q = setIf ''sni'' (q_get q ''sni'') @ setIf ''alpn'' (q_get q ''alpn'') @ setIf ''fp'' (q_get q ''fp'') @
     setIf ''pcs'' (q_get q ''pcs'') @ setIf ''vcn'' (q_get q ''vcn'')"

lemma vmess_fields_split: "vmess_link_fields user h p n q = vmess_fixed user h p n q @ vmess_extra q"
  unfolding vmess_link_fields_def vmess_optional vmess_fixed_def vmess_extra_def by simp

lemma vmess_extra_keys: "fst ` set (vmess_extra q) \<subseteq> {''sni'', ''alpn'', ''fp'', ''pcs'', ''vcn''}"
  by (simp add: vmess_extra_def image_Un setIf_key)

lemma fixed_value:
  assumes "k \<notin> {''sni'', ''alpn'', ''fp'', ''pcs'', ''vcn''}" "map_of (vmess_fixed user h p n q) k = Some v"
  shows "at_key (vmess_link_fields user h p n q) k = v"
proof -
  have "distinct (map fst (vmess_fixed user h p n q))" by (simp add: vmess_fixed_def)
  then have "at_key (vmess_fixed user h p n q) k = v" using assms(2) by (simp add: at_key_distinct)
  then show ?thesis using assms(1) vmess_extra_keys [of q] by (auto simp: vmess_fields_split at_key_append)
qed

lemma vmess_extra_values:
  "at_key (vmess_extra q) ''sni'' = q_get q ''sni''" "at_key (vmess_extra q) ''alpn'' = q_get q ''alpn''"
  "at_key (vmess_extra q) ''fp'' = q_get q ''fp''" "at_key (vmess_extra q) ''pcs'' = q_get q ''pcs''"
  "at_key (vmess_extra q) ''vcn'' = q_get q ''vcn''"
  by (simp_all add: vmess_extra_def at_key_append image_Un)

lemma extra_value:
  assumes "k \<in> {''sni'', ''alpn'', ''fp'', ''pcs'', ''vcn''}"
  shows "at_key (vmess_link_fields user h p n q) k = q_get q k"
proof -
  have "map_of (rev (vmess_fixed user h p n q)) k = None"
    using assms by (intro map_of_outside) (auto simp: vmess_fixed_def)
  then have "at_key (vmess_fixed user h p n q) k = []" by (simp add: at_key_def)
  moreover have "at_key (vmess_extra q) k = q_get q k"
    using assms vmess_extra_values [of q] by blast
  moreover have "at_key (vmess_extra q) k = []" if "k \<notin> fst ` set (vmess_extra q)"
    using map_of_outside [OF that] by (simp add: at_key_def)
  ultimately show ?thesis by (auto simp: vmess_fields_split at_key_append)
qed

lemma vmess_values:
  fixes user h p n q
  defines "F \<equiv> vmess_link_fields user h p n q"
  shows "at_key F ''ps'' = n" "at_key F ''add'' = h" "at_key F ''id'' = str (map_of user ''id'')"
    "at_key F ''scy'' = orDefault (str (map_of user ''security'')) ''auto''" "at_key F ''net'' = q_get q ''type''"
    "at_key F ''type'' = orDefault (q_get q ''headerType'') ''none''" "at_key F ''host'' = q_get q ''host''"
    "at_key F ''path'' = (if q_get q ''type'' = ''grpc'' then q_get q ''serviceName'' else q_get q ''path'')"
    "at_key F ''tls'' = q_get q ''security''"
    "at_key F ''port'' = itoa p" "at_key F ''aid'' = itoa (toInt (map_of user ''alterId''))"
  unfolding F_def by (rule fixed_value; simp add: vmess_fixed_def)+

lemma q_get_vmess_query:
  "q_get (vmess_query v) ''type'' = vm_Net v" "q_get (vmess_query v) ''security'' = vm_TLS v" "q_get (vmess_query v) ''host'' = vm_Host v"
  "q_get (vmess_query v) ''path'' = vm_Path v" "q_get (vmess_query v) ''sni'' = vm_SNI v" "q_get (vmess_query v) ''fp'' = vm_FP v"
  "q_get (vmess_query v) ''alpn'' = vm_ALPN v" "q_get (vmess_query v) ''pcs'' = vm_PCS v" "q_get (vmess_query v) ''vcn'' = vm_VCN v"
  "q_get (vmess_query v) ''headerType'' = vm_Type v" "q_get (vmess_query v) ''serviceName'' = vm_Path v"
  "q_get (vmess_query v) ''peer'' = []" "q_get (vmess_query v) ''pinSHA256'' = []" "q_get (vmess_query v) ''pbk'' = []"
  "q_get (vmess_query v) ''sid'' = []" "q_get (vmess_query v) ''spx'' = []" "q_get (vmess_query v) ''mode'' = []"
  by (simp_all add: q_get_def dget_or_def vmess_query_def map_of_dict_of)

lemma security_part_cong:
  assumes "list_all (\<lambda>k. q_get a k = q_get b k)
    [''security'', ''sni'', ''peer'', ''fp'', ''alpn'', ''pcs'', ''pinSHA256'', ''vcn'', ''pbk'', ''sid'', ''spx'']"
  shows "security_part a = security_part b"
  using assms by (simp add: security_part_def applyTLS_def realitySettings_def applyCertPin_def link_sni_def cong del: if_weak_cong)

text \<open>The fields that a vmess link is rebuilt with give the same stream.\<close>

definition vmess_again :: "vmess_json \<Rightarrow> url_values \<Rightarrow> vmess_json \<Rightarrow> bool" where
  "vmess_again v P w \<longleftrightarrow>
     vm_Net w = q_get P ''type'' \<and> vm_TLS w = q_get P ''security'' \<and> vm_Host w = q_get P ''host'' \<and>
     vm_Path w = (if q_get P ''type'' = ''grpc'' then q_get P ''serviceName'' else q_get P ''path'') \<and>
     vm_SNI w = q_get P ''sni'' \<and> vm_FP w = q_get P ''fp'' \<and> vm_ALPN w = q_get P ''alpn'' \<and> vm_PCS w = q_get P ''pcs'' \<and>
     vm_VCN w = q_get P ''vcn'' \<and> vm_Type w = orDefault (q_get P ''headerType'') ''none''"

lemma vmess_no_reality_keys:
  assumes "k \<in> {''pbk'', ''sid'', ''spx''}" shows "q_get (printed_query (vmess_query v)) k = []"
proof (cases "security_class (vmess_query v) = ''reality''")
  case True
  then show ?thesis using assms sec_values_reality [OF True] by (auto simp: printed_security q_get_vmess_query)
next
  case False
  then have "fst ` set (sec_query (vmess_query v)) \<subseteq> {''security'', ''sni'', ''fp'', ''alpn'', ''pcs'', ''vcn''}"
    by (simp add: sec_query_def setIf_key image_Un)
  then have "map_of (rev (sec_query (vmess_query v))) k = None" using assms by (intro map_of_outside) auto
  then have "at_key (sec_query (vmess_query v)) k = []" by (simp add: at_key_def)
  then show ?thesis using assms printed_security [of k] by auto
qed

lemma not_http: "equal_fold ''none'' ''http'' = False"
  by code_simp

lemma none_default: "orDefault ''http'' ''none'' = ''http''"
  by code_simp

lemma vmess_again_stream:
  assumes "vmess_again v (printed_query (vmess_query v)) w" "tidy_query (vmess_query v)"
  shows "buildStream (vmess_query w) = buildStream (vmess_query v)"
proof -
  let ?q = "vmess_query v" and ?w = "vmess_query w"
  let ?P = "printed_query ?q" and ?n = "normNetwork (q_get (vmess_query v) ''type'')"
  have "security_part ?w = security_part ?P"
    by (rule security_part_cong)
      (use assms(1) in \<open>simp add: vmess_again_def q_get_vmess_query vmess_no_reality_keys printed_other\<close>)
  then have sec: "security_part ?w = security_part ?q" using security_part_printed [OF assms(2)] by simp
  have ty: "normNetwork (q_get ?w ''type'') = ?n" using assms(1) by (simp add: vmess_again_def q_get_vmess_query printed_type)
  have w: "vm_Host w = at_key (tr_query ?q ?n) ''host''"
    "vm_Path w = (if ?n = ''grpc'' then at_key (tr_query ?q ?n) ''serviceName'' else at_key (tr_query ?q ?n) ''path'')"
    "vm_Type w = orDefault (at_key (tr_query ?q ?n) ''headerType'') ''none''"
    using assms(1) by (simp_all add: vmess_again_def printed_transport printed_type)
  have path: "orDefault (first_path ?q) ''/'' = orDefault (vm_Path v) ''/''"
    by (simp add: first_path_def orDefault_twice q_get_vmess_query)
  note reads = transport_part_def q_get_vmess_query w tr_query_def at_key_append image_Un path_ne equal_fold_http not_http none_default
  consider "?n = ''tcp''" | "?n = ''ws''" | "?n = ''grpc''" | "?n = ''http''" | "?n = ''xhttp''" | "?n = ''httpupgrade''" | "?n = ''kcp'' \<or> ?n = ''quic''"
    using normNetwork_cases [of "q_get ?q ''type''"] by blast
  then have "transport_part ?w ?n = transport_part ?q ?n"
  proof cases
    case 1
    then show ?thesis by (cases "equal_fold (vm_Type v) ''http''") (simp_all add: reads)
  next
    case 3
    then show ?thesis by (simp add: reads)
  next
    case 5
    moreover have "orDefault [] ''auto'' \<noteq> []" by simp
    ultimately show ?thesis using path by (simp add: reads)
  qed (use path in \<open>auto simp: reads\<close>)
  then show ?thesis by (simp only: buildStream_parts sec ty)
qed

lemma read_vmess_cong: "list_all (\<lambda>k. f k = g k) vmess_strings \<Longrightarrow> read_vmess f h = read_vmess g h"
  by (simp add: vmess_strings_def read_vmess_def)

lemma vmess_strings_keys: "set vmess_strings \<subseteq> set vmess_keys"
  by (simp add: vmess_strings_def vmess_keys_def)

lemma vmess_decode:
  assumes "fst ` set F \<subseteq> set vmess_keys"
  shows "decode_vmess (Some (JObj (dict_of (string_fields F)))) =
    Some (read_vmess (at_key F) (struct_key (dict_of (string_fields F))))"
proof -
  have s: "struct_str (dict_of (string_fields F)) k = Some (at_key F k)" if "k \<in> set vmess_strings" for k
    using vmess_lookup(2) [OF assms, of k] that vmess_strings_keys by blast
  then have "list_all (\<lambda>k. struct_str (dict_of (string_fields F)) k \<noteq> None) vmess_strings" by (simp add: list_all_iff)
  moreover have "read_vmess (\<lambda>k. case struct_str (dict_of (string_fields F)) k of Some s \<Rightarrow> s | None \<Rightarrow> []) g = read_vmess (at_key F) g" for g
    by (rule read_vmess_cong) (simp add: list_all_iff s)
  ultimately show ?thesis by (simp add: decode_vmess_def)
qed

lemma vmess_link_reads:
  assumes "t \<noteq> []"
  shows "ParseLink (''vmess://'' @ b64_encode False True t) = parseVMess (''vmess://'' @ b64_encode False True t)"
    "decodeB64 (trim_prefix ''vmess://'' (''vmess://'' @ b64_encode False True t)) = Some t"
proof -
  let ?l = "''vmess://'' @ b64_encode False True t"
  have "plain ''vmess://''" by (simp add: plain_def ascii_space_def byte_def)
  then have "plain ?l" using b64_encode_plain plain_append by blast
  then have "trim_space ?l = ?l" using trimmed_plain trimmed_iff by blast
  moreover have "cut ''://'' ?l = Some (''vmess'', b64_encode False True t)"
    using cut_sep [of "''://''" "''vmess''" "b64_encode False True t"] by simp
  moreover have "to_lower ''vmess'' = ''vmess''" by code_simp
  ultimately show "ParseLink ?l = parseVMess ?l" by (simp add: ParseLink_def)
  have "trim_prefix ''vmess://'' ?l = b64_encode False True t" by (simp add: trim_prefix_def prefix_def)
  then show "decodeB64 (trim_prefix ''vmess://'' ?l) = Some t" using decodeB64_encode [OF assms] by simp
qed

lemma vmess_back:
  assumes "vm_Add v \<noteq> []" "vm_ID v \<noteq> []" "n \<noteq> []" "tidy_query (vmess_query v)"
    and p: "p = toInt (vm_Port v)" "0 < p" "p < 2 ^ 63"
    and a: "- (2 ^ 63) \<le> toInt (vm_Aid v)" "toInt (vm_Aid v) < 2 ^ 63"
  shows "link_back (outbound ''vmess'' (vnext_settings (vm_Add v) p (vmess_user v)) (buildStream (vmess_query v))) n"
proof -
  define U where "U = dict_of [(''id'', JStr (vm_ID v)), (''alterId'', JNum (toInt (vm_Aid v))), (''security'', JStr (orDefault (vm_Scy v) ''auto''))]"
  have user: "vmess_user v = JObj U" by (simp add: vmess_user_def U_def)
  have U: "str (map_of U ''id'') = vm_ID v" "str (map_of U ''security'') = orDefault (vm_Scy v) ''auto''"
    "toInt (map_of U ''alterId'') = toInt (vm_Aid v)" by (simp_all add: U_def field_reads) (simp add: toInt_def)
  define P where "P = printed_query (vmess_query v)"
  define F where "F = vmess_link_fields U (vm_Add v) p n P"
  define T where "T = json_text (JObj (dict_of (string_fields F)))"
  define w where "w = read_vmess (at_key F) (struct_key (dict_of (string_fields F)))"
  note keys = vmess_field_keys [of U "vm_Add v" p n P, folded F_def]
  note vals = vmess_values [of U "vm_Add v" p n P, folded F_def]
  have T: "T \<noteq> []" "parse_json T = Some (JObj (dict_of (string_fields F)))"
    using parse_json_text [OF json_ok_strings] by (simp_all add: T_def)
  have num: "struct_key (dict_of (string_fields F)) ''port'' = Some (JStr (itoa p))"
    "struct_key (dict_of (string_fields F)) ''aid'' = Some (JStr (itoa (toInt (vm_Aid v))))"
  proof -
    have "itoa i \<noteq> []" for i by (simp add: itoa_def)
    then have "map_of (rev F) ''port'' = Some (itoa p)" "map_of (rev F) ''aid'' = Some (itoa (toInt (vm_Aid v)))"
      using at_key_Some [OF vals(10)] at_key_Some [OF vals(11)] U(3) by simp_all
    then show "struct_key (dict_of (string_fields F)) ''port'' = Some (JStr (itoa p))"
      "struct_key (dict_of (string_fields F)) ''aid'' = Some (JStr (itoa (toInt (vm_Aid v))))"
      using vmess_lookup(1) [OF keys] by (simp_all add: vmess_keys_def)
  qed
  have w: "vm_Add w = vm_Add v" "vm_ID w = vm_ID v" "vm_PS w = n" "toInt (vm_Port w) = p" "toInt (vm_Aid w) = toInt (vm_Aid v)"
    "vm_Scy w = orDefault (vm_Scy v) ''auto''"
    using vals U num atoi_itoa [of p] atoi_itoa [OF a] p by (simp_all add: w_def read_vmess_def orDefault_twice)
  note ext = extra_value [of _ U "vm_Add v" p n P, folded F_def]
  have "vmess_again v P w" using vals ext by (simp add: vmess_again_def w_def read_vmess_def)
  then have stream: "buildStream (vmess_query w) = buildStream (vmess_query v)"
    using vmess_again_stream assms(4) unfolding P_def by blast
  have user': "vmess_user w = vmess_user v" by (simp add: vmess_user_def w orDefault_twice)
  let ?ob = "outbound ''vmess'' (vnext_settings (vm_Add v) p (vmess_user v)) (buildStream (vmess_query v))"
  have "OutboundLink (Some (JObj ?ob)) n = Ok (''vmess://'' @ b64_encode False True T)"
    using assms(1,2) p(2,3) endpoint_read [of "[(''users'', JArr [JObj U])]" "vm_Add v" p "''vmess''"] U(1)
    by (simp add: OutboundLink_def decode_outbound_of vnext_settings_def user vmessLink_def vnext_read streamQuery_stream
        P_def [symmetric] F_def [symmetric] T_def)
  moreover have "ParseLink (''vmess://'' @ b64_encode False True T) = Ok \<lparr>pl_Name = n, pl_Outbound = ?ob\<rparr>"
    using vmess_link_reads [OF T(1)] vmess_decode [OF keys] T(2) assms(1-3) p(2) w stream user'
    by (simp add: parseVMess_def w_def [symmetric])
  ultimately show ?thesis by (auto simp: link_back_def)
qed

section \<open>Links and outbounds correspond\<close>

lemma tls_reads:
  assumes "security_class q \<notin> {''reality'', [], ''none''}"
  shows "str (map_of (as_map (map_of (buildStream q) ''tlsSettings'')) ''serverName'') = link_sni q"
    "str (map_of (as_map (map_of (buildStream q) ''tlsSettings'')) ''pinnedPeerCertSha256'') = cert_pin q"
    "map_of (as_map (map_of (buildStream q) ''tlsSettings'')) ''alpn'' =
       (if q_get q ''alpn'' = [] then None else Some (splitComma (q_get q ''alpn'')))"
  using assms by (simp_all add: stream_security security_part_def applyTLS_def applyCertPin_def cert_pin_def field_reads)

lemma tidy_stream_query: "tidy_stream (buildStream q) \<Longrightarrow> tidy_query q"
proof -
  assume t: "tidy_stream (buildStream q)"
  consider "security_class q = ''reality''" | "security_class q \<in> {[], ''none''}"
    | "security_class q \<notin> {''reality'', [], ''none''}" by blast
  then show ?thesis
  proof cases
    case 1
    have "not_blank (link_sni q)"
      using t 1 by (simp add: tidy_stream_def stream_security security_part_def realitySettings_def field_reads Let_def)
    then show ?thesis using 1 by (simp add: tidy_query_def)
  next
    case 2
    then show ?thesis by (auto simp: tidy_query_def)
  next
    case 3
    have "not_blank (link_sni q)" "not_blank (cert_pin q)" using t by (simp_all add: tidy_stream_def tls_reads [OF 3] Let_def)
    moreover have "comma_parts (q_get q ''alpn'') \<noteq> []" if "q_get q ''alpn'' \<noteq> []"
      using t that by (simp add: tidy_stream_def tls_reads [OF 3] Let_def splitComma_def)
    ultimately show ?thesis by (simp add: tidy_query_def)
  qed
qed

text \<open>What an outbound must be for a link to carry all of it: tidy stream settings, a host name or IPv6 address
  that a URL can hold and a port; a hysteria outbound must not verify its peer by name, which its link leaves out.\<close>

definition link_server :: "string \<Rightarrow> object \<Rightarrow> object" where
  "link_server P s =
     (if P = ''hysteria'' then s
      else fst (serverAndUser s (if P \<in> {''vless'', ''vmess''} then ''vnext'' else ''servers'')))"

definition alter_ok :: "object \<Rightarrow> bool" where
  "alter_ok s = (let a = toInt (map_of (snd (serverAndUser s ''vnext'')) ''alterId'') in - (2 ^ 63) \<le> a \<and> a < 2 ^ 63)"

definition shareable :: "object \<Rightarrow> bool" where
  "shareable ob =
     (case decode_outbound (Some (JObj ob)) of
        None \<Rightarrow> False
      | Some (P, s, st) \<Rightarrow>
          let srv = link_server P s; host = str (map_of srv ''address''); port = toInt (map_of srv ''port'')
          in tidy_stream st \<and> host_ok host \<and> not_blank host \<and> 0 < port \<and> port < 2 ^ 63 \<and>
             (P = ''vmess'' \<longrightarrow> alter_ok s) \<and>
             (P = ''hysteria'' \<longrightarrow> map_of (as_map (map_of st ''tlsSettings'')) ''verifyPeerCertByName'' = None))"

lemma endpoint_fields_read:
  assumes "''address'' \<notin> fst ` set r" "''port'' \<notin> fst ` set r"
  shows "str (map_of (dict_of (endpoint_fields h p @ r)) ''address'') = h" "toInt (map_of (dict_of (endpoint_fields h p @ r)) ''port'') = p"
  using assms by (simp_all add: field_reads endpoint_fields_def map_of_outside) (simp add: toInt_def)

lemma shareable_vnext:
  assumes "P \<in> {''vless'', ''vmess''}" "shareable (outbound P (vnext_settings h p (JObj u)) st)"
  shows "tidy_stream st" "host_ok h" "0 < p" "p < 2 ^ 63"
    "P = ''vmess'' \<Longrightarrow> - (2 ^ 63) \<le> toInt (map_of u ''alterId'') \<and> toInt (map_of u ''alterId'') < 2 ^ 63"
proof -
  let ?s = "dict_of [(''vnext'', JArr [JObj (dict_of (endpoint_fields h p @ [(''users'', JArr [JObj u])]))])]"
  have ls: "link_server P ?s = dict_of (endpoint_fields h p @ [(''users'', JArr [JObj u])])"
    using assms(1) vnext_read [of h p u] by (auto simp: link_server_def)
  note r = endpoint_fields_read [of "[(''users'', JArr [JObj u])]" h p]
  have "tidy_stream st \<and> host_ok h \<and> 0 < p \<and> p < 2 ^ 63 \<and> (P = ''vmess'' \<longrightarrow> alter_ok ?s)"
    using assms(2) r unfolding shareable_def vnext_settings_def jobj_eq_JObj decode_outbound_of option.case prod.case Let_def ls
    by simp
  then show "tidy_stream st" "host_ok h" "0 < p" "p < 2 ^ 63"
    "P = ''vmess'' \<Longrightarrow> - (2 ^ 63) \<le> toInt (map_of u ''alterId'') \<and> toInt (map_of u ''alterId'') < 2 ^ 63"
    using vnext_read [of h p u] by (auto simp: alter_ok_def Let_def)
qed

lemma shareable_servers:
  assumes "P \<in> {''trojan'', ''shadowsocks''}" "shareable (outbound P (server_settings h p creds) st)"
    "fst ` set creds \<subseteq> {''method'', ''password''}"
  shows "tidy_stream st" "host_ok h" "not_blank h" "0 < p" "p < 2 ^ 63"
proof -
  have k: "''users'' \<notin> fst ` set creds" "''address'' \<notin> fst ` set creds" "''port'' \<notin> fst ` set creds" using assms(3) by auto
  let ?s = "dict_of [(''servers'', JArr [JObj (dict_of (endpoint_fields h p @ creds))])]"
  have ls: "link_server P ?s = dict_of (endpoint_fields h p @ creds)"
    using assms(1) servers_read [OF k(1), of h p] by (auto simp: link_server_def)
  have "tidy_stream st \<and> host_ok h \<and> not_blank h \<and> 0 < p \<and> p < 2 ^ 63"
    using assms(2) endpoint_fields_read [OF k(2,3), of h p]
    unfolding shareable_def server_settings_def jobj_eq_JObj decode_outbound_of option.case prod.case Let_def ls by simp
  then show "tidy_stream st" "host_ok h" "not_blank h" "0 < p" "p < 2 ^ 63" by blast+
qed

lemma shareable_hysteria:
  assumes "shareable (outbound ''hysteria'' (jobj ((''version'', JNum 2) # endpoint_fields h p)) (hysteria_stream q auth))"
  shows "host_ok h" "0 < p" "p < 2 ^ 63" "q_get q ''vcn'' = []"
proof -
  let ?s = "dict_of ((''version'', JNum 2) # endpoint_fields h p)"
  have r: "str (map_of ?s ''address'') = h" "toInt (map_of ?s ''port'') = p"
    by (simp_all add: endpoint_fields_def field_reads) (simp add: toInt_def)
  have v: "map_of (as_map (map_of (hysteria_stream q auth) ''tlsSettings'')) ''verifyPeerCertByName'' =
      (if q_get q ''vcn'' = [] then None else Some (JStr (q_get q ''vcn'')))"
    by (simp add: hysteria_stream_def applyCertPin_def field_reads)
  have ls: "link_server ''hysteria'' ?s = ?s" by (simp add: link_server_def)
  have "host_ok h \<and> 0 < p \<and> p < 2 ^ 63 \<and> (if q_get q ''vcn'' = [] then None else Some (JStr (q_get q ''vcn''))) = None"
    using assms unfolding shareable_def jobj_eq_JObj decode_outbound_of option.case prod.case Let_def ls r v by blast
  then show "host_ok h" "0 < p" "p < 2 ^ 63" "q_get q ''vcn'' = []" by (auto split: if_splits)
qed

text \<open>A parser that succeeds built its outbound from an endpoint, credentials and a query.\<close>

lemma link_partsE:
  assumes "obind (parse_link_url link) (\<lambda>u. obind (link_hostPort u) (\<lambda>(host, port). g u host port)) = Ok p"
  obtains u h port where "g u h port = Ok p"
  using assms by (cases "parse_link_url link"; cases "link_hostPort (case parse_link_url link of Ok u \<Rightarrow> u)") auto

lemma parseVLESS_shape:
  assumes "parseVLESS link = Ok p"
  obtains uid h port q where "uid \<noteq> []" "pl_Outbound p = outbound ''vless'' (vnext_settings h port (vless_user uid q)) (buildStream q)"
proof -
  from assms show ?thesis unfolding parseVLESS_def
    by (rule link_partsE) (auto simp: Let_def split: if_splits intro: that)
qed

lemma parseTrojan_shape:
  assumes "parseTrojan link = Ok p"
  obtains pw h port q where "pw \<noteq> []" "pl_Outbound p = outbound ''trojan'' (server_settings h port [(''password'', JStr pw)]) (trojan_stream q h)"
  using assms unfolding parseTrojan_def by (rule link_partsE) (auto split: if_splits intro: that)

lemma parseHysteria2_shape:
  assumes "parseHysteria2 link = Ok p"
  obtains auth h port q where "auth \<noteq> []"
    "pl_Outbound p = outbound ''hysteria'' (jobj ((''version'', JNum 2) # endpoint_fields h port)) (hysteria_stream q auth)"
  using assms unfolding parseHysteria2_def by (rule link_partsE) (auto split: if_splits intro: that)

lemma cut_char_fst: "cut [c] s = Some (a, b) \<Longrightarrow> c \<notin> set a"
  by (induction s arbitrary: a) (auto simp: prefix_def split: if_splits)

lemma splitMethodPass_shape: "splitMethodPass s = Some (m, p) \<Longrightarrow> m \<noteq> [] \<and> CHR '':'' \<notin> set m"
  using cut_char_fst by (fastforce simp: splitMethodPass_def split: option.splits if_splits)

lemma ss_credentials_method: "ss_credentials s = (m, p) \<Longrightarrow> m \<noteq> [] \<Longrightarrow> CHR '':'' \<notin> set m"
  using splitMethodPass_shape by (fastforce simp: ss_credentials_def bind_eq_Some_conv split: option.splits)

lemma ss_legacy_method: "ss_legacy link = Ok (m, p, h, port) \<Longrightarrow> CHR '':'' \<notin> set m"
  using splitMethodPass_shape by (fastforce simp: ss_legacy_def Let_def split: option.splits prod.splits)

lemma ss_parts_method:
  assumes "ss_parts link u = Ok (m, p, h, port)" "m \<noteq> []"
  shows "CHR '':'' \<notin> set m"
proof (cases "ur_User u = None \<or> ur_Host u = []")
  case True
  then have "ss_legacy link = Ok (m, p, h, port)" using assms(1) by (auto simp: ss_parts_def split: option.splits)
  then show ?thesis by (rule ss_legacy_method)
next
  case False
  then show ?thesis using assms ss_credentials_method
    by (cases "link_hostPort u") (fastforce simp: ss_parts_def split: option.splits prod.splits)+
qed

lemma parseSS_shape:
  assumes "parseSS link = Ok pl"
  obtains m pw h port where "m \<noteq> []" "CHR '':'' \<notin> set m"
    "pl_Outbound pl = outbound ''shadowsocks'' (server_settings h port [(''method'', JStr m), (''password'', JStr pw)]) []"
proof -
  obtain u where "parse_link_url link = Ok u" using assms by (cases "parse_link_url link") (auto simp: parseSS_def)
  moreover obtain m pw h port where parts: "ss_parts link u = Ok (m, pw, h, port)"
    using assms calculation by (cases "ss_parts link u") (auto simp: parseSS_def)
  ultimately have "m \<noteq> []"
    "pl_Outbound pl = outbound ''shadowsocks'' (server_settings h port [(''method'', JStr m), (''password'', JStr pw)]) []"
    using assms by (auto simp: parseSS_def Let_def split: if_splits)
  then show ?thesis using ss_parts_method [OF parts] that by blast
qed

lemma parseVMess_shape:
  assumes "parseVMess link = Ok pl"
  obtains v where "vm_Add v \<noteq> []" "vm_ID v \<noteq> []"
    "pl_Outbound pl = outbound ''vmess'' (vnext_settings (vm_Add v) (toInt (vm_Port v)) (vmess_user v)) (buildStream (vmess_query v))"
  using assms that by (auto simp: parseVMess_def split: option.splits if_splits)

lemma ParseLink_cases:
  assumes "ParseLink link = Ok p"
  obtains "parseVLESS (trim_space link) = Ok p" | "parseVMess (trim_space link) = Ok p" | "parseTrojan (trim_space link) = Ok p"
    | "parseSS (trim_space link) = Ok p" | "parseHysteria2 (trim_space link) = Ok p"
  using assms by (auto simp: ParseLink_def Let_def split: option.splits if_splits)

text \<open>C23. A share link of any protocol can be rebuilt from the outbound it was parsed into: if the outbound is one
  whose link can carry it, \<^verbatim>\<open>OutboundLink\<close> prints a link, and that link parses to the same outbound under the name it
  was printed with. (The name must not hold a percent or plus sign, which are decoded twice.)\<close>

theorem link_roundtrip:
  assumes "ParseLink link = Ok p" "shareable (pl_Outbound p)" "label_ok n"
  shows "\<exists>l. OutboundLink (Some (JObj (pl_Outbound p))) n = Ok l \<and> ParseLink l = Ok \<lparr>pl_Name = n, pl_Outbound = pl_Outbound p\<rparr>"
proof -
  have "link_back (pl_Outbound p) n"
    using assms(1)
  proof (cases rule: ParseLink_cases)
    case 1
    obtain uid h port q where s: "uid \<noteq> []" "pl_Outbound p = outbound ''vless'' (vnext_settings h port (vless_user uid q)) (buildStream q)"
      by (rule parseVLESS_shape [OF 1])
    obtain U where "vless_user uid q = JObj U" by (simp add: vless_user_def)
    then have "host_ok h" "0 < port" "port < 2 ^ 63" "tidy_query q"
      using s(2) assms(2) shareable_vnext [of "''vless''" h port U "buildStream q"] tidy_stream_query [of q] by simp_all
    then show ?thesis unfolding s(2) using s(1) assms(3) by (intro vless_back)
  next
    case 2
    obtain v where s: "vm_Add v \<noteq> []" "vm_ID v \<noteq> []"
      "pl_Outbound p = outbound ''vmess'' (vnext_settings (vm_Add v) (toInt (vm_Port v)) (vmess_user v)) (buildStream (vmess_query v))"
      by (rule parseVMess_shape [OF 2])
    obtain U where U: "vmess_user v = JObj U" "toInt (map_of U ''alterId'') = toInt (vm_Aid v)"
      by (simp add: vmess_user_def field_reads) (simp add: toInt_def)
    then have "0 < toInt (vm_Port v)" "toInt (vm_Port v) < 2 ^ 63" "tidy_query (vmess_query v)"
      "- (2 ^ 63) \<le> toInt (vm_Aid v)" "toInt (vm_Aid v) < 2 ^ 63"
      using s(3) assms(2) shareable_vnext [of "''vmess''" "vm_Add v" "toInt (vm_Port v)" U "buildStream (vmess_query v)"]
        tidy_stream_query [of "vmess_query v"] by simp_all
    moreover have "n \<noteq> []" using assms(3) by (simp add: label_ok_def)
    ultimately show ?thesis unfolding s(3) using s(1,2) by (intro vmess_back) simp_all
  next
    case 3
    obtain pw h port q where s: "pw \<noteq> []"
      "pl_Outbound p = outbound ''trojan'' (server_settings h port [(''password'', JStr pw)]) (trojan_stream q h)"
      by (rule parseTrojan_shape [OF 3])
    have sh: "host_ok h" "not_blank h" "0 < port" "port < 2 ^ 63" "tidy_stream (trojan_stream q h)"
      using shareable_servers [of "''trojan''" h port "[(''password'', JStr pw)]" "trojan_stream q h"] s(2) assms(2) by simp_all
    have "h \<noteq> []" using sh(1) by (simp add: host_ok_def)
    then have "tidy_query (explicit_tls q h)" using sh trojan_stream_explicit tidy_stream_query by metis
    then show ?thesis unfolding s(2) using s(1) sh assms(3) by (intro trojan_back)
  next
    case 4
    obtain m pw h port where s: "m \<noteq> []" "CHR '':'' \<notin> set m"
      "pl_Outbound p = outbound ''shadowsocks'' (server_settings h port [(''method'', JStr m), (''password'', JStr pw)]) []"
      by (rule parseSS_shape [OF 4])
    then show ?thesis using assms(2,3) shareable_servers [of "''shadowsocks''" h port "[(''method'', JStr m), (''password'', JStr pw)]" "[]"]
      by (simp add: ss_back)
  next
    case 5
    obtain auth h port q where s: "auth \<noteq> []"
      "pl_Outbound p = outbound ''hysteria'' (jobj ((''version'', JNum 2) # endpoint_fields h port)) (hysteria_stream q auth)"
      by (rule parseHysteria2_shape [OF 5])
    have "host_ok h" "0 < port" "port < 2 ^ 63" "q_get q ''vcn'' = []" using shareable_hysteria assms(2) s(2) by metis+
    then show ?thesis unfolding s(2) using s(1) assms(3) by (intro hysteria_back)
  qed
  then show ?thesis by (simp add: link_back_def)
qed

definition demo_link :: string where
  "demo_link = ''vless://u@h:8?security=tls#x''"

lemma demo_link_shareable: "(case ParseLink demo_link of Ok p \<Rightarrow> shareable (pl_Outbound p) | _ \<Rightarrow> False) = True"
  by code_simp

lemma link_roundtrip_witness:
  "case ParseLink demo_link of
     Ok p \<Rightarrow> \<exists>l. OutboundLink (Some (JObj (pl_Outbound p))) ''a b'' = Ok l \<and> ParseLink l = Ok \<lparr>pl_Name = ''a b'', pl_Outbound = pl_Outbound p\<rparr>
   | _ \<Rightarrow> False"
proof (cases "ParseLink demo_link")
  case (Ok p)
  moreover have "shareable (pl_Outbound p)" using demo_link_shareable Ok by simp
  moreover have "label_ok ''a b''" by (simp add: label_ok_def)
  ultimately show ?thesis using link_roundtrip [OF Ok, of "''a b''"] by simp
qed (use demo_link_shareable in simp_all)

section \<open>A plain trojan outbound\<close>

text \<open>A trojan outbound without TLS does not survive: its link says \<^verbatim>\<open>security=none\<close>, as the code intends, and
  the parser, which takes TLS for the default whenever it read no security, turns that into TLS to the host.\<close>

theorem trojan_plain_becomes_tls:
  assumes "pw \<noteq> []" "host_ok h" "not_blank h" "0 < p" "p < 2 ^ 63" "label_ok n" "security_class q \<in> {[], ''none''}"
  shows "map_of (buildStream q) ''security'' = None \<and>
    (\<exists>l pl st. OutboundLink (Some (JObj (outbound ''trojan'' (server_settings h p [(''password'', JStr pw)]) (buildStream q)))) n = Ok l \<and>
      ParseLink l = Ok pl \<and> pl_Outbound pl = outbound ''trojan'' (server_settings h p [(''password'', JStr pw)]) st \<and>
      map_of st ''security'' = Some (JStr ''tls''))"
proof (rule conjI)
  show "map_of (buildStream q) ''security'' = None" by (rule trojan_stream_plain(1) [OF assms(7)])
next
  have h: "h \<noteq> []" using assms(2) by (simp add: host_ok_def)
  define Q where "Q = dput ''security'' ''none'' (printed_query q)"
  have "sec_query q = []" using assms(7) by (auto simp: sec_query_def)
  then have q: "trojan_link_query (buildStream q) = Q"
    by (simp add: trojan_link_query_def streamQuery_stream Q_def Let_def printed_security)
  have "security_class Q \<in> {[], ''none''}" using none_lower by (simp add: Q_def q_get_dput)
  then have "security_class (explicit_tls Q h) = ''tls''" by (simp only: explicit_tls_def if_True q_get_dput lower_literals refl)
  then have tls: "map_of (trojan_stream Q h) ''security'' = Some (JStr ''tls'')"
    using trojan_stream_explicit [OF assms(3) h, of Q] by (simp add: stream_security security_part_def)
  let ?l = "buildURL ''trojan'' pw h p [] Q n" and ?S = "server_settings h p [(''password'', JStr pw)]"
  have "str (map_of (dict_of (endpoint_fields h p @ [(''password'', JStr pw)])) ''password'') = pw" by (simp add: field_reads endpoint_fields_def)
  then have "OutboundLink (Some (JObj (outbound ''trojan'' ?S (buildStream q)))) n = Ok ?l"
    using h assms(1,4) endpoint_read [of "[(''password'', JStr pw)]" h p "''trojan''"] servers_read [of "[(''password'', JStr pw)]" h p]
    by (simp add: OutboundLink_def decode_outbound_of server_settings_def trojanLink_def q)
  moreover have "reads_as ?l pw h p Q n" using assms by (intro reads_as_url) (simp_all add: Q_def ok_intros)
  then have "ParseLink ?l = Ok \<lparr>pl_Name = n, pl_Outbound = outbound ''trojan'' ?S (trojan_stream Q h)\<rparr>"
    by (rule reads_asE) (use assms(1) in \<open>simp add: ParseLink_build parseTrojan_def Username_def fragmentName_def\<close>)
  ultimately show "\<exists>l pl st. OutboundLink (Some (JObj (outbound ''trojan'' ?S (buildStream q)))) n = Ok l \<and>
      ParseLink l = Ok pl \<and> pl_Outbound pl = outbound ''trojan'' ?S st \<and> map_of st ''security'' = Some (JStr ''tls'')"
    using tls by (intro exI [of _ ?l] exI [of _ "\<lparr>pl_Name = n, pl_Outbound = outbound ''trojan'' ?S (trojan_stream Q h)\<rparr>"]
        exI [of _ "trojan_stream Q h"]) simp
qed

lemma trojan_plain_becomes_tls_witness:
  "\<exists>l pl st. OutboundLink (Some (JObj (outbound ''trojan'' (server_settings ''h'' 8 [(''password'', JStr ''s'')]) (buildStream [])))) ''a b'' = Ok l \<and>
     ParseLink l = Ok pl \<and> pl_Outbound pl = outbound ''trojan'' (server_settings ''h'' 8 [(''password'', JStr ''s'')]) st \<and>
     map_of st ''security'' = Some (JStr ''tls'')"
proof -
  have h: "host_ok ''h''" "not_blank ''h''" by code_simp+
  have "security_class [] \<in> {[], ''none''}" "label_ok ''a b''"
    by (simp_all add: q_get_def dget_or_def to_lower_def label_ok_def)
  then show ?thesis using trojan_plain_becomes_tls [OF _ h, of "''s''" 8 "''a b''" "[]"] by simp
qed

end
