(* ===== verification/Share_Links.thy ===== *)
theory Share_Links
  imports Link_Props
begin

text \<open>
  The links that clients are given (\<^verbatim>\<open>core/xray/sharelink.go\<close>): for an inbound and for each of its users. The
  fingerprint of a certificate (\<^verbatim>\<open>CertSHA256\<close>, which reads PEM) is the argument \<open>pin\<close>.
\<close>

definition setTransportQuery :: "inbound \<Rightarrow> url_values \<Rightarrow> url_values" where
  "setTransportQuery i q =
     (let n = in_Network i
      in if n \<in> {''ws'', ''httpupgrade'', ''xhttp''} then
           (let q1 = dput ''path'' (orDefault (in_Path i) ''/'') q;
                q2 = (if n = ''xhttp'' then dput ''mode'' (orDefault (in_XHTTPMode i) ''auto'') q1 else q1)
            in if in_Host i \<noteq> [] then dput ''host'' (in_Host i) q2 else q2)
         else if n = ''grpc'' then dput ''serviceName'' (in_Path i) q
         else q)"

definition setSelfSignedPin :: "(string \<Rightarrow> string) \<Rightarrow> inbound \<Rightarrow> url_values \<Rightarrow> url_values" where
  "setSelfSignedPin pin i q =
     dput ''allowInsecure'' ''1'' (if pin (in_TLSCert i) \<noteq> [] then dput ''pcs'' (pin (in_TLSCert i)) q else q)"

definition share_host :: "inbound \<Rightarrow> string \<Rightarrow> string" where
  "share_host i host = (if host \<noteq> [] then host else if in_PublicHost i \<noteq> [] then in_PublicHost i else ''SERVER_IP'')"

definition share_port :: "inbound \<Rightarrow> string" where
  "share_port i = (if IsCaddyXHTTP i then ''443'' else itoa (int (in_Port i)))"

text \<open>The TLS part that vless and trojan share.\<close>

definition set_tls :: "(string \<Rightarrow> string) \<Rightarrow> inbound \<Rightarrow> url_values \<Rightarrow> url_values" where
  "set_tls pin i q =
     (let q1 = dput ''fp'' ''chrome'' (dput ''security'' ''tls'' q)
      in setSelfSignedPin pin i (if in_TLSSNI i \<noteq> [] then dput ''sni'' (in_TLSSNI i) q1 else q1))"

definition vless_share_query :: "(string \<Rightarrow> string) \<Rightarrow> inbound \<Rightarrow> string \<Rightarrow> url_values" where
  "vless_share_query pin i host =
     (let q0 = dput ''type'' (orDefault (in_Network i) ''tcp'') (dput ''encryption'' ''none'' []);
          q1 = (if in_Flow i \<noteq> [] then dput ''flow'' (in_Flow i) q0 else q0);
          q2 = (if in_Security i = ''reality'' then
                  dput ''sid'' (in_RealityShortID i) (dput ''pbk'' (in_RealityPublicKey i) (dput ''fp'' ''chrome''
                    (dput ''sni'' (in_RealitySNI i) (dput ''security'' ''reality'' q1))))
                else if in_Security i = ''tls'' then set_tls pin i q1 else q1);
          q3 = (if IsCaddyXHTTP i then
                  dput ''host'' host (dput ''fp'' ''chrome'' (dput ''sni'' host (dput ''security'' ''tls'' q2))) else q2)
      in setTransportQuery i q3)"

definition trojan_share_query :: "(string \<Rightarrow> string) \<Rightarrow> inbound \<Rightarrow> url_values" where
  "trojan_share_query pin i =
     setTransportQuery i (dput ''type'' (orDefault (in_Network i) ''tcp'') (if in_Security i = ''tls'' then set_tls pin i [] else []))"

definition hysteria_share_query :: "(string \<Rightarrow> string) \<Rightarrow> inbound \<Rightarrow> url_values" where
  "hysteria_share_query pin i =
     (let q1 = dput ''insecure'' ''1'' [];
          q2 = (if pin (in_TLSCert i) \<noteq> [] then dput ''pinSHA256'' (pin (in_TLSCert i)) q1 else q1)
      in if in_TLSSNI i \<noteq> [] then dput ''sni'' (in_TLSSNI i) q2 else q2)"

definition vmess_share_fields :: "(string \<Rightarrow> string) \<Rightarrow> inbound \<Rightarrow> string \<Rightarrow> (string \<times> json) list" where
  "vmess_share_fields pin i host =
     [(''v'', JStr ''2''), (''ps'', JStr (in_Name i)), (''add'', JStr host), (''port'', JStr (share_port i)), (''id'', JStr (in_UUID i)),
      (''aid'', JStr ''0''), (''scy'', JStr ''auto''), (''net'', JStr (orDefault (in_Network i) ''tcp'')), (''type'', JStr ''none''),
      (''host'', JStr (in_Host i)), (''path'', JStr (orDefault (in_Path i) [])),
      (''tls'', JStr (if in_Security i = ''tls'' then ''tls'' else []))] @
     (if in_Security i = ''tls''
      then (if in_TLSSNI i \<noteq> [] then [(''sni'', JStr (in_TLSSNI i))] else []) @
           (if pin (in_TLSCert i) \<noteq> [] then [(''pcs'', JStr (pin (in_TLSCert i)))] else []) @ [(''allowInsecure'', JBool True)]
      else [])"

text \<open>The parts of a link are put together as they are; only the query and the name are escaped.\<close>

definition raw_link :: "string \<Rightarrow> string \<Rightarrow> string \<Rightarrow> string \<Rightarrow> string \<Rightarrow> string \<Rightarrow> string" where
  "raw_link scheme user host port rest name = scheme @ ''://'' @ user @ ''@'' @ host @ '':'' @ port @ rest @ ''#'' @ QueryEscape name"

definition ShareLink :: "(string \<Rightarrow> string) \<Rightarrow> inbound \<Rightarrow> string \<Rightarrow> string" where
  "ShareLink pin i host0 =
     (let host = share_host i host0; port = share_port i; name = in_Name i
      in if in_Protocol i = ''vless'' then
           raw_link ''vless'' (in_UUID i) host port (''?'' @ EncodeQuery (vless_share_query pin i host)) name
         else if in_Protocol i = ''vmess'' then
           ''vmess://'' @ b64_encode False True (json_text (jobj (vmess_share_fields pin i host)))
         else if in_Protocol i = ''trojan'' then
           raw_link ''trojan'' (in_Password i) host port (''?'' @ EncodeQuery (trojan_share_query pin i)) name
         else if in_Protocol i = ''hysteria'' then
           raw_link ''hysteria2'' (in_HysteriaAuth i) host port (''/?'' @ EncodeQuery (hysteria_share_query pin i)) name
         else if in_Protocol i = ''socks'' then
           (if in_SocksUser i \<noteq> []
            then raw_link ''socks'' (b64_encode False True (in_SocksUser i @ '':'' @ in_Password i)) host port [] name
            else ''socks://'' @ host @ '':'' @ port @ ''#'' @ QueryEscape name)
         else [])"

definition ShareLinkForUser :: "(string \<Rightarrow> string) \<Rightarrow> inbound \<Rightarrow> string \<Rightarrow> inbound_user \<Rightarrow> string" where
  "ShareLinkForUser pin i host u =
     ShareLink pin (i\<lparr>in_UUID := u_UUID u, in_Password := u_Password u, in_HysteriaAuth := u_Auth u,
                      in_Name := in_Name i @ ''-'' @ u_Name u\<rparr>) host"

definition TelegramSocksLink :: "inbound \<Rightarrow> string \<Rightarrow> string" where
  "TelegramSocksLink i host =
     (if in_Protocol i \<noteq> ''socks'' then []
      else let q = dput ''port'' (itoa (int (in_Port i))) (dput ''server'' (share_host i host) []);
               q' = (if in_SocksUser i \<noteq> [] then dput ''pass'' (in_Password i) (dput ''user'' (in_SocksUser i) q) else q)
           in ''tg://socks?'' @ EncodeQuery q')"

section \<open>A client that imports its link matches the inbound\<close>

definition unreserved :: "string \<Rightarrow> bool" where
  "unreserved s \<longleftrightarrow> s \<noteq> [] \<and> list_all (\<lambda>c. is_alnum c \<or> c \<in> set mark_chars) s"

lemma mark_unescaped: "list_all (\<lambda>c. list_all (\<lambda>p. \<not> shouldEscape p c) [InUser, InHost] \<and> c \<notin> set '':[%'') mark_chars"
  by code_simp

lemma alnum_marks: "is_alnum c \<Longrightarrow> c \<notin> set '':[%''"
  by (auto simp: is_alnum_def is_digit_def byte_def)

lemma unreserved_chars:
  assumes "unreserved s" "c \<in> set s"
  shows "\<not> shouldEscape InUser c" "\<not> shouldEscape InHost c" "c \<noteq> CHR '':''" "c \<noteq> CHR ''[''" "c \<noteq> CHR ''%''"
proof -
  consider "is_alnum c" | "c \<in> set mark_chars" using assms by (auto simp: unreserved_def list_all_iff)
  then have "\<not> shouldEscape InUser c \<and> \<not> shouldEscape InHost c \<and> c \<notin> set '':[%''"
  proof cases
    case 1
    then show ?thesis using alnum_unescaped alnum_marks by blast
  next
    case 2
    then show ?thesis using mark_unescaped unfolding list_all_iff by auto
  qed
  then show "\<not> shouldEscape InUser c" "\<not> shouldEscape InHost c" "c \<noteq> CHR '':''" "c \<noteq> CHR ''[''" "c \<noteq> CHR ''%''" by auto
qed

lemma unreserved_host: "unreserved h \<Longrightarrow> host_ok h"
  using unreserved_chars [of h] by (auto simp: host_ok_def escapable_def unreserved_def)

lemma raw_link_url:
  assumes "unreserved user" "unreserved h" "0 \<le> p" "q \<noteq> []"
  shows "raw_link scheme user h (itoa p) (''?'' @ EncodeQuery q) name = buildURL scheme user h p [] q name"
proof -
  have ds: "list_all is_digit (itoa p)" using assms(3) by (simp add: itoa_nat nat_str_digits)
  have u: "url_escape InUser user = user" using unreserved_chars(1) [OF assms(1)] by (intro url_escape_id) blast
  have h: "url_escape InHost h = h" using unreserved_chars(2) [OF assms(2)] by (intro url_escape_id) blast
  have j: "JoinHostPort h (itoa p) = h @ '':'' @ itoa p"
    using unreserved_chars(3,5) [OF assms(2)] by (auto simp: JoinHostPort_def)
  have "url_escape InHost '':'' = '':''" by code_simp
  then have "url_escape InHost (h @ '':'' @ itoa p) = h @ '':'' @ itoa p"
    using h digits_unescaped [OF ds] by (simp add: url_escape_append del: append_Cons append_Nil)
  moreover have "EncodeQuery q \<noteq> []" using assms(4) by (cases q) (simp_all add: EncodeQuery_def join_Cons query_pair_def)
  ultimately show ?thesis by (simp add: raw_link_def buildURL_def url_text_def u j)
qed

definition client_user :: "inbound \<Rightarrow> json" where
  "client_user i = jobj ([(''id'', JStr (in_UUID i)), (''encryption'', JStr ''none'')] @ opt_field ''flow'' (in_Flow i))"

lemma setTransportQuery_ok [ok_intros]: "dict_ok q \<Longrightarrow> dict_ok (setTransportQuery i q)"
  by (simp add: setTransportQuery_def Let_def ok_intros)

lemma set_tls_ok [ok_intros]: "dict_ok q \<Longrightarrow> dict_ok (set_tls pin i q)"
  by (simp add: set_tls_def setSelfSignedPin_def Let_def ok_intros)

lemma vless_share_ok: "dict_ok (vless_share_query pin i host)"
  unfolding vless_share_query_def Let_def by (intro ok_intros) (simp add: ok_intros dict_ok_Nil del: dput.simps)

lemma q_get_Cons: "q_get ((k, v) # q) k' = (if k' = k then v else q_get q k')"
  by (simp add: q_get_def dget_or_def)

lemma vless_share_reads:
  fixes pin i host
  assumes "in_Security i = ''reality''" "in_Network i \<noteq> []" "trim_space (in_Network i) \<noteq> []"
  defines "q \<equiv> vless_share_query pin i host"
  shows "q_get q ''type'' = in_Network i" "q_get q ''security'' = ''reality''" "q_get q ''sni'' = in_RealitySNI i" "q_get q ''peer'' = []"
    "q_get q ''fp'' = ''chrome''" "q_get q ''pbk'' = in_RealityPublicKey i" "q_get q ''sid'' = in_RealityShortID i" "q_get q ''spx'' = []"
    "q_get q ''encryption'' = ''none''" "q_get q ''flow'' = in_Flow i" "q_get q ''headerType'' = []"
    "q_get q ''path'' = (if in_Network i \<in> {''ws'', ''httpupgrade'', ''xhttp''} then orDefault (in_Path i) ''/'' else [])"
    "q_get q ''host'' = (if in_Network i \<in> {''ws'', ''httpupgrade'', ''xhttp''} then in_Host i else [])"
    "q_get q ''mode'' = (if in_Network i = ''xhttp'' then orDefault (in_XHTTPMode i) ''auto'' else [])"
    "q_get q ''serviceName'' = (if in_Network i = ''grpc'' then in_Path i else [])"
proof -
  have e: "q_get [] k = []" for k by (simp add: q_get_def dget_or_def)
  have d: "orDefault (in_Network i) ''tcp'' = in_Network i" using assms(3) by (simp add: orDefault_def)
  show "q_get q ''type'' = in_Network i" "q_get q ''security'' = ''reality''" "q_get q ''sni'' = in_RealitySNI i" "q_get q ''peer'' = []"
    "q_get q ''fp'' = ''chrome''" "q_get q ''pbk'' = in_RealityPublicKey i" "q_get q ''sid'' = in_RealityShortID i" "q_get q ''spx'' = []"
    "q_get q ''encryption'' = ''none''" "q_get q ''flow'' = in_Flow i" "q_get q ''headerType'' = []"
    "q_get q ''path'' = (if in_Network i \<in> {''ws'', ''httpupgrade'', ''xhttp''} then orDefault (in_Path i) ''/'' else [])"
    "q_get q ''host'' = (if in_Network i \<in> {''ws'', ''httpupgrade'', ''xhttp''} then in_Host i else [])"
    "q_get q ''mode'' = (if in_Network i = ''xhttp'' then orDefault (in_XHTTPMode i) ''auto'' else [])"
    "q_get q ''serviceName'' = (if in_Network i = ''grpc'' then in_Path i else [])"
    using assms(1) d by (simp_all add: q_def vless_share_query_def setTransportQuery_def IsCaddyXHTTP_def Let_def q_get_Cons q_get_dput e)
qed

lemma network_names:
  assumes "n \<in> {''tcp'', ''ws'', ''httpupgrade'', ''xhttp'', ''grpc''}"
  shows "normNetwork n = n" "trim_space n = n"
proof -
  have "list_all (\<lambda>n. normNetwork n = n \<and> trim_space n = n) [''tcp'', ''ws'', ''httpupgrade'', ''xhttp'', ''grpc'']" by code_simp
  then show "normNetwork n = n" "trim_space n = n" using assms unfolding list_all_iff by auto
qed

lemma share_transport:
  assumes "in_Security i = ''reality''" "in_Network i \<in> {''tcp'', ''ws'', ''httpupgrade'', ''xhttp'', ''grpc''}"
  shows "transport_part (vless_share_query pin i host) (in_Network i) = stream_transport i (in_Network i)"
proof -
  have n: "in_Network i \<noteq> []" "trim_space (in_Network i) \<noteq> []" using assms(2) network_names(2) [OF assms(2)] by auto
  note reads = vless_share_reads [OF assms(1) n, of pin host]
  consider "in_Network i = ''tcp''" | "in_Network i = ''ws''" | "in_Network i = ''httpupgrade''" | "in_Network i = ''xhttp''" | "in_Network i = ''grpc''"
    using assms(2) by blast
  then show ?thesis
    by cases (simp_all add: transport_part_def stream_transport_def reads equal_fold_http orDefault_twice opt_field_def)
qed

lemma reality_server_stream:
  assumes "in_Security i = ''reality''" "in_RealityPrivateKey i \<noteq> []" "trim_space (in_Network i) \<noteq> []" "trim_space (in_RealitySNI i) \<noteq> []"
  obtains rs where "buildInboundStream i = Ok (JObj (dict_of ([(''network'', JStr (in_Network i)), (''security'', JStr ''reality''),
      (''realitySettings'', JObj rs)] @ stream_transport i (in_Network i))))"
    "map_of rs ''privateKey'' = Some (JStr (in_RealityPrivateKey i))"
    "map_of rs ''serverNames'' = Some (JArr [JStr (in_RealitySNI i)])" "map_of rs ''shortIds'' = Some (JArr [JStr (in_RealityShortID i)])"
proof -
  define rs where "rs = dict_of
                    [(''show'', JBool False), (''dest'', JStr (orDefault (in_RealityDest i) ms_dest)), (''xver'', JNum 0),
                     (''serverNames'', JArr [JStr (in_RealitySNI i)]),
                     (''privateKey'', JStr (in_RealityPrivateKey i)), (''shortIds'', JArr [JStr (in_RealityShortID i)])]"
  have "trim_space [] = []" by code_simp
  then have d: "in_Network i \<noteq> []" "orDefault (in_RealitySNI i) ms_sni = in_RealitySNI i"
    using assms(3,4) by (auto simp: orDefault_def)
  show ?thesis
    by (rule that [of rs]) (use assms(1,2) d in \<open>simp_all add: buildInboundStream_def stream_security_def rs_def field_reads Let_def\<close>)
qed

lemma stream_fields:
  assumes "fst ` set T \<subseteq> transport_keys"
  shows "map_of (dict_of ([(''network'', n), (''security'', s), (''realitySettings'', r)] @ T)) ''realitySettings'' = Some r"
    and "k \<in> {''network'', ''security''} \<union> transport_keys \<Longrightarrow>
      map_of (dict_of ([(''network'', n), (''security'', s), (''realitySettings'', r)] @ T)) k =
      map_of (dict_of ([(''network'', n), (''security'', s), (''realitySettings'', r')] @ T)) k"
proof -
  have "map_of (rev T) ''realitySettings'' = None" using assms by (intro map_of_outside) (auto simp: transport_keys_def)
  then show "map_of (dict_of ([(''network'', n), (''security'', s), (''realitySettings'', r)] @ T)) ''realitySettings'' = Some r"
    by (simp add: field_reads)
  show "map_of (dict_of ([(''network'', n), (''security'', s), (''realitySettings'', r)] @ T)) k =
      map_of (dict_of ([(''network'', n), (''security'', s), (''realitySettings'', r')] @ T)) k"
    if "k \<in> {''network'', ''security''} \<union> transport_keys"
  proof -
    have "k \<noteq> ''realitySettings''" using that by (auto simp: transport_keys_def)
    then show ?thesis by (auto simp: field_reads split: option.split)
  qed
qed

text \<open>What the link puts into a URL as it is: every name the program accepts is read back from the fragment, and a
  host or user id of letters, digits and \<open>- _ . ~\<close> is read back from the authority.\<close>

lemma ValidName_label_ok: "ValidName s = Inr n \<Longrightarrow> label_ok n"
proof -
  have "\<not> name_char (CHR ''%'')" "\<not> name_char (CHR ''+'')" by code_simp+
  then show "ValidName s = Inr n \<Longrightarrow> label_ok n" by (auto simp: label_ok_def list_all_iff dest!: ValidName_Inr)
qed

text \<open>C24. The link of a vless inbound with REALITY that has its keys, user id and a server name, made for a host that is
  a domain or an IPv4 address (letters, digits and \<open>- _ . ~\<close>), with a user id of such characters, a network among tcp,
  ws, httpupgrade, xhttp and grpc, a port from 1 to 65535 and a name without percent and plus signs, imported by a
  client, gives the client an outbound that matches the inbound the server runs: the host and port of the link, the
  user's id and flow, the same network, the same transport settings field by field, and REALITY parameters (server
  name, short id, public key) out of those the server accepts. The links of IPv6 hosts, which the code does not
  bracket, are not claimed.\<close>

theorem share_link_matches_inbound:
  assumes "in_Protocol i = ''vless''" "inbound_complete i" "in_Security i = ''reality''" "trim_space (in_RealitySNI i) \<noteq> []"
    and "in_Network i \<in> {''tcp'', ''ws'', ''httpupgrade'', ''xhttp'', ''grpc''}"
    and "unreserved (in_UUID i)" "unreserved host" "0 < in_Port i" "in_Port i < 65536" "label_ok (in_Name i)"
  shows "\<exists>C S rc rs. ParseLink (ShareLink pin i host) = Ok \<lparr>pl_Name = in_Name i,
      pl_Outbound = outbound ''vless'' (vnext_settings host (int (in_Port i)) (client_user i)) C\<rparr> \<and>
    buildInboundStream i = Ok (JObj S) \<and>
    (\<forall>k \<in> {''network'', ''security''} \<union> transport_keys. map_of C k = map_of S k) \<and>
    map_of C ''realitySettings'' = Some (JObj rc) \<and> map_of S ''realitySettings'' = Some (JObj rs) \<and>
    map_of rc ''publicKey'' = (if in_RealityPublicKey i = [] then None else Some (JStr (in_RealityPublicKey i))) \<and>
    map_of rs ''privateKey'' = Some (JStr (in_RealityPrivateKey i)) \<and>
    (\<exists>x. map_of rc ''serverName'' = Some x \<and> map_of rs ''serverNames'' = Some (JArr [x])) \<and>
    (\<exists>x. map_of rc ''shortId'' = Some x \<and> map_of rs ''shortIds'' = Some (JArr [x]))"
proof -
  let ?n = "in_Network i" and ?T = "stream_transport i (in_Network i)"
  define q where "q = vless_share_query pin i host"
  have n: "?n \<noteq> []" "trim_space ?n \<noteq> []" "normNetwork ?n = ?n" using assms(5) network_names [OF assms(5)] by auto
  note reads = vless_share_reads [OF assms(3) n(1,2), of pin host, folded q_def]
  have h: "host \<noteq> []" using assms(7) by (simp add: unreserved_def)
  have uid: "in_UUID i \<noteq> []" using assms(6) by (simp add: unreserved_def)
  have ok: "dict_ok q" unfolding q_def by (rule vless_share_ok)
  have "q \<noteq> []" using reads(2) by (auto simp: q_get_def dget_or_def)
  then have link: "ShareLink pin i host = buildURL ''vless'' (in_UUID i) host (int (in_Port i)) [] q (in_Name i)"
    using raw_link_url [OF assms(6,7), of "int (in_Port i)" q] assms(1,3) h
    by (simp add: ShareLink_def share_host_def share_port_def IsCaddyXHTTP_def q_def)
  have T: "transport_part q ?n = ?T" unfolding q_def by (rule share_transport [OF assms(3,5)])
  then have keys: "fst ` set ?T \<subseteq> transport_keys" using transport_part_keys [of q ?n] by simp
  obtain rc where rc: "realitySettings q = JObj rc" "map_of rc ''serverName'' = Some (JStr (in_RealitySNI i))"
    "map_of rc ''shortId'' = Some (JStr (in_RealityShortID i))"
    "map_of rc ''publicKey'' = (if in_RealityPublicKey i = [] then None else Some (JStr (in_RealityPublicKey i)))"
  proof -
    have "link_sni q = in_RealitySNI i" "in_RealitySNI i \<noteq> []" "in_RealityShortID i \<noteq> []"
      using assms(2,3,4) reads by (auto simp: link_sni_def orDefault_def inbound_complete_def reality_ok_def)
    then show ?thesis using that by (simp add: realitySettings_def reads field_reads)
  qed
  have C: "buildStream q = dict_of ([(''network'', JStr ?n), (''security'', JStr ''reality''), (''realitySettings'', JObj rc)] @ ?T)"
    using T n(3) rc(1) by (simp add: buildStream_parts reads security_part_def lower_literals)
  have "in_RealityPrivateKey i \<noteq> []" using assms(2,3) by (simp add: inbound_complete_def reality_ok_def)
  then obtain rs where S: "buildInboundStream i = Ok (JObj (dict_of ([(''network'', JStr ?n), (''security'', JStr ''reality''), (''realitySettings'', JObj rs)] @ ?T)))"
    "map_of rs ''privateKey'' = Some (JStr (in_RealityPrivateKey i))"
    "map_of rs ''serverNames'' = Some (JArr [JStr (in_RealitySNI i)])" "map_of rs ''shortIds'' = Some (JArr [JStr (in_RealityShortID i)])"
    using reality_server_stream [OF assms(3) _ n(2) assms(4)] by blast
  have "orDefault ''none'' ''none'' = ''none''" by (simp add: orDefault_def)
  then have user: "vless_user (in_UUID i) q = client_user i"
    by (simp add: vless_user_def client_user_def reads)
  have "reads_as (ShareLink pin i host) (in_UUID i) host (int (in_Port i)) q (in_Name i)"
    unfolding link using assms unreserved_host ok by (intro reads_as_url) simp_all
  then have P: "ParseLink (ShareLink pin i host) = Ok \<lparr>pl_Name = in_Name i,
      pl_Outbound = outbound ''vless'' (vnext_settings host (int (in_Port i)) (client_user i)) (buildStream q)\<rparr>"
    unfolding link by (rule reads_asE) (use uid user in \<open>simp add: ParseLink_build parseVLESS_def Username_def fragmentName_def Let_def\<close>)
  show ?thesis
    using P S rc(2-4) stream_fields [OF keys]
    by (intro exI [of _ "buildStream q"] exI [of _ "dict_of ([(''network'', JStr ?n), (''security'', JStr ''reality''), (''realitySettings'', JObj rs)] @ ?T)"]
        exI [of _ rc] exI [of _ rs] conjI) (simp_all only: C, simp_all)
qed

definition demo_reality :: inbound where
  "demo_reality = blank_inbound\<lparr>in_Name := ''n'', in_Protocol := ''vless'', in_Listen := ''::'', in_Port := 443, in_UUID := ''u-1'',
     in_Network := ''ws'', in_Security := ''reality'', in_RealityPrivateKey := ''k'', in_RealityPublicKey := ''K'',
     in_RealityShortID := ''ab'', in_RealityDest := ''s:1'', in_RealitySNI := ''s''\<rparr>"

lemma share_link_matches_inbound_witness:
  "\<exists>C. ParseLink (ShareLink (\<lambda>_. []) demo_reality ''h.x'') = Ok \<lparr>pl_Name = ''n'',
     pl_Outbound = outbound ''vless'' (vnext_settings ''h.x'' 443 (client_user demo_reality)) C\<rparr>"
proof -
  have f: "in_Protocol demo_reality = ''vless''" "in_Security demo_reality = ''reality''" "in_Name demo_reality = ''n''" "in_Port demo_reality = 443"
    "in_Network demo_reality = ''ws''" "in_RealitySNI demo_reality = ''s''" "in_UUID demo_reality = ''u-1''"
    by (simp_all add: demo_reality_def)
  have "inbound_complete demo_reality"
    by (simp add: inbound_complete_def transport_ok_def credentials_ok_def reality_ok_def tls_ok_def IsCaddyXHTTP_def demo_reality_def)
  moreover have "trim_space ''s'' \<noteq> []" "unreserved ''u-1''" "unreserved ''h.x''" by code_simp+
  moreover have "label_ok ''n''" by (simp add: label_ok_def)
  ultimately show ?thesis
    using share_link_matches_inbound [of demo_reality "''h.x''" "\<lambda>_. []"] f by (simp only: f) auto
qed

end
