(* ===== verification/Subscriptions.thy ===== *)
theory Subscriptions
  imports Links Store Sha256
begin

text \<open>
  Subscriptions: the body that a provider serves becomes nodes (\<^verbatim>\<open>core/xray/fetch.go\<close>,
  \<^verbatim>\<open>core/xray/fingerprint.go\<close>), and the fetcher decides when to refresh one, replaces its nodes and records the
  outcome (\<^verbatim>\<open>daemon/subscriptions.go\<close>). What the provider answers, and what else happens to the database while a
  fetch is under way, are arguments.
\<close>

section \<open>Fingerprints\<close>

definition Fingerprint :: "raw_json \<Rightarrow> string option" where
  "Fingerprint r =
     (case r of
        Some (JObj d) \<Rightarrow> Some (take 16 (hex (sha256 (bytes_of (json_text (JObj (ddel ''tag'' d)))))))
      | Some JNull \<Rightarrow> Some (take 16 (hex (sha256 (bytes_of (json_text JNull)))))
      | _ \<Rightarrow> None)"

section \<open>Fetching\<close>

record quota =
  qt_Upload :: int
  qt_Download :: int
  qt_Total :: int
  qt_Expire :: int
  qt_HasData :: bool

definition no_quota :: quota where
  "no_quota = \<lparr>qt_Upload = 0, qt_Download = 0, qt_Total = 0, qt_Expire = 0, qt_HasData = False\<rparr>"

text \<open>One part of the header, \<^verbatim>\<open>key=number\<close>.\<close>

definition quota_part :: "quota \<Rightarrow> string \<Rightarrow> quota" where
  "quota_part q part =
     (case cut ''='' (trim_space part) of
        None \<Rightarrow> q
      | Some (k, v) \<Rightarrow>
          (case parse_int (trim_space v) of
             None \<Rightarrow> q
           | Some n \<Rightarrow>
               let key = to_lower (trim_space k)
               in if key = ''upload'' then q\<lparr>qt_Upload := n, qt_HasData := True\<rparr>
                  else if key = ''download'' then q\<lparr>qt_Download := n, qt_HasData := True\<rparr>
                  else if key = ''total'' then q\<lparr>qt_Total := n, qt_HasData := True\<rparr>
                  else if key = ''expire'' then q\<lparr>qt_Expire := n, qt_HasData := True\<rparr>
                  else q))"

definition ParseUserinfo :: "string \<Rightarrow> quota" where
  "ParseUserinfo header0 =
     (let header = trim_space header0
      in if header = [] then no_quota else foldl quota_part no_quota (split_on (CHR '';'') header))"

text \<open>What the HTTP client gives for a URL and a user agent: an error, an error while reading the body, or a reply
  with its status line, body and quota header.\<close>

datatype http_result = HttpError string | BodyError string | HttpReply int string string string

definition MaxSubBytes :: nat where "MaxSubBytes = 8 * 2 ^ 20"

text \<open>A status out of range is an error before the body is read.\<close>

definition FetchSubscriptionBody :: "http_result \<Rightarrow> (string, string \<times> quota) outcome" where
  "FetchSubscriptionBody r =
     (case r of
        HttpError e \<Rightarrow> Fail e
      | BodyError e \<Rightarrow> Fail e
      | HttpReply code status body header \<Rightarrow>
          if code < 200 \<or> 300 \<le> code then Fail (''subscription fetch: status '' @ status)
          else if MaxSubBytes < length (take (MaxSubBytes + 1) body)
          then Fail (''subscription body exceeds '' @ itoa (int MaxSubBytes) @ '' bytes'')
          else Ok (body, ParseUserinfo header))"

section \<open>Bodies\<close>

definition is_link :: "string \<Rightarrow> bool" where
  "is_link s \<longleftrightarrow> cut ''://'' s \<noteq> None"

definition text_lines :: "string \<Rightarrow> string list" where
  "text_lines s = filter (\<lambda>l. l \<noteq> []) (split_on (char_of (10 :: nat)) (map (\<lambda>c. if byte c = 13 then char_of (10 :: nat) else c) s))"

definition DecodeSubscription :: "string \<Rightarrow> string list" where
  "DecodeSubscription body =
     (let t = trim_space body;
          text = (case decodeB64 t of Some dec \<Rightarrow> if is_link dec then dec else t | None \<Rightarrow> t)
      in filter (\<lambda>l. l \<noteq> [] \<and> is_link l) (map trim_space (text_lines text)))"

definition new_node :: "string \<Rightarrow> parsed_link \<Rightarrow> string \<Rightarrow> sub_node" where
  "new_node subName pl fp =
     \<lparr>nd_ID = 0, nd_SubID = 0, nd_Name = (if subName \<noteq> [] then subName @ '' / '' @ pl_Name pl else pl_Name pl),
      nd_Fingerprint = fp, nd_Outbound = Some (JObj (pl_Outbound pl)), nd_Active = False, nd_LastLatencyMs = 0\<rparr>"

fun parse_nodes :: "string \<Rightarrow> string list \<Rightarrow> string list \<Rightarrow> sub_node list" where
  "parse_nodes subName seen [] = []"
| "parse_nodes subName seen (link # links) =
     (case ParseLink link of
        Ok pl \<Rightarrow>
          (case Fingerprint (Some (JObj (pl_Outbound pl))) of
             Some fp \<Rightarrow> if fp \<in> set seen then parse_nodes subName seen links
                        else new_node subName pl fp # parse_nodes subName (fp # seen) links
           | None \<Rightarrow> parse_nodes subName seen links)
      | _ \<Rightarrow> parse_nodes subName seen links)"

definition ParseSubscriptionBody :: "string \<Rightarrow> string \<Rightarrow> sub_node list" where
  "ParseSubscriptionBody subName body = parse_nodes subName [] (DecodeSubscription body)"

section \<open>When to refresh\<close>

definition SubErrorRetry :: time where "SubErrorRetry = seconds 300"

definition IsDue :: "subscription \<Rightarrow> time \<Rightarrow> bool" where
  "IsDue sub now =
     (if \<not> sub_Enabled sub then False
      else case sub_LastFetched sub of
             None \<Rightarrow> True
           | Some t \<Rightarrow> if sub_LastError sub \<noteq> [] then t + SubErrorRetry < now else t + EffectiveInterval sub < now)"

section \<open>The fetcher\<close>

text \<open>Recording an outcome saves the row the fetcher holds, which it read before the fetch. An error of the save is only
  logged.\<close>

definition record_row :: "time \<Rightarrow> subscription \<Rightarrow> quota \<Rightarrow> string \<Rightarrow> subscription" where
  "record_row now sub quota err =
     (let sub1 = sub\<lparr>sub_LastFetched := Some now, sub_LastError := err\<rparr>
      in if qt_HasData quota
         then sub1\<lparr>sub_Upload := qt_Upload quota, sub_Download := qt_Download quota, sub_Total := qt_Total quota, sub_Expire := qt_Expire quota\<rparr>
         else sub1)"

definition record_fetch :: "(bool \<Rightarrow> bool) \<Rightarrow> time \<Rightarrow> db \<Rightarrow> subscription \<Rightarrow> db" where
  "record_fetch orm now d row = (case UpdateSubscription orm d row of Ok d' \<Rightarrow> d' | _ \<Rightarrow> d)"

record refresh_result =
  rr_Nodes :: nat
  rr_Added :: nat
  rr_Removed :: nat

definition Changed :: "refresh_result \<Rightarrow> bool" where
  "Changed r \<longleftrightarrow> 0 < rr_Added r \<or> 0 < rr_Removed r"

definition sub_fingerprints :: "db \<Rightarrow> nat \<Rightarrow> string list" where
  "sub_fingerprints d subID = remdups (map nd_Fingerprint (sub_nodes d subID))"

definition refresh_diff :: "db \<Rightarrow> nat \<Rightarrow> sub_node list \<Rightarrow> refresh_result" where
  "refresh_diff d subID nodes =
     (let before = sub_fingerprints d subID; after = remdups (map nd_Fingerprint nodes)
      in \<lparr>rr_Nodes = length nodes,
          rr_Added = length (filter (\<lambda>fp. fp \<notin> set before) after),
          rr_Removed = length (filter (\<lambda>fp. fp \<notin> set after) before)\<rparr>)"

text \<open>A refresh of the row \<open>sub\<close>, with the database as it is when the fetch has returned; \<open>txt\<close> is the text of an error of
  the store.\<close>

definition refresh :: "(bool \<Rightarrow> bool) \<Rightarrow> (store_error \<Rightarrow> string) \<Rightarrow> http_result \<Rightarrow> time \<Rightarrow> db \<Rightarrow> subscription \<Rightarrow>
    db \<times> (string, refresh_result) outcome" where
  "refresh orm txt reply now d sub =
     (case FetchSubscriptionBody reply of
        Ok (body, quota) \<Rightarrow>
          let nodes = ParseSubscriptionBody (sub_Name sub) body; res = refresh_diff d (sub_ID sub) nodes
          in (case ReplaceNodes d (sub_ID sub) nodes of
                Ok d' \<Rightarrow> (record_fetch orm now d' (record_row now sub quota []), Ok res)
              | Fail e \<Rightarrow> (record_fetch orm now d (record_row now sub quota (txt e)), Fail (txt e))
              | Panic \<Rightarrow> (d, Panic))
      | Fail e \<Rightarrow> (record_fetch orm now d (record_row now sub no_quota e), Fail e)
      | Panic \<Rightarrow> (d, Panic))"

text \<open>What happens around the refresh of one subscription in a pass: other changes to the database while it is fetched, the
  answer, and the time it is recorded at.\<close>

record fetch_event =
  fe_meanwhile :: "db \<Rightarrow> db"
  fe_reply :: http_result
  fe_now :: time

fun refresh_pass :: "(bool \<Rightarrow> bool) \<Rightarrow> (store_error \<Rightarrow> string) \<Rightarrow> (subscription \<Rightarrow> bool) \<Rightarrow> (nat \<Rightarrow> fetch_event) \<Rightarrow>
    subscription list \<Rightarrow> db \<Rightarrow> db \<times> bool" where
  "refresh_pass orm txt wanted ev [] d = (d, False)"
| "refresh_pass orm txt wanted ev (sub # subs) d =
     (if wanted sub then
        (let e = ev (sub_ID sub); (d', r) = refresh orm txt (fe_reply e) (fe_now e) (fe_meanwhile e d) sub;
             (d'', changed) = refresh_pass orm txt wanted ev subs d'
         in (d'', (case r of Ok _ \<Rightarrow> True | _ \<Rightarrow> changed)))
      else refresh_pass orm txt wanted ev subs d)"

definition ListSubscriptions :: "db \<Rightarrow> subscription list" where
  "ListSubscriptions d = sort_key sub_Name (db_subs d)"

definition GetSubscription :: "db \<Rightarrow> nat \<Rightarrow> (store_error, subscription) outcome" where
  "GetSubscription d i = find_row (\<lambda>s. sub_ID s = i) (db_subs d)"

text \<open>The flag says whether the pool changed, for which the supervisor syncs.\<close>

definition RefreshDue :: "(bool \<Rightarrow> bool) \<Rightarrow> (store_error \<Rightarrow> string) \<Rightarrow> (nat \<Rightarrow> fetch_event) \<Rightarrow> time \<Rightarrow> db \<Rightarrow> db \<times> bool" where
  "RefreshDue orm txt ev now d = refresh_pass orm txt (\<lambda>s. IsDue s now) ev (ListSubscriptions d) d"

definition RefreshAll :: "(bool \<Rightarrow> bool) \<Rightarrow> (store_error \<Rightarrow> string) \<Rightarrow> (nat \<Rightarrow> fetch_event) \<Rightarrow> db \<Rightarrow> db \<times> bool" where
  "RefreshAll orm txt ev d = refresh_pass orm txt sub_Enabled ev (ListSubscriptions d) d"

definition RefreshOne :: "(bool \<Rightarrow> bool) \<Rightarrow> (store_error \<Rightarrow> string) \<Rightarrow> fetch_event \<Rightarrow> db \<Rightarrow> nat \<Rightarrow>
    db \<times> bool \<times> (string, refresh_result) outcome" where
  "RefreshOne orm txt e d i =
     (case GetSubscription d i of
        Ok sub \<Rightarrow>
          let (d', r) = refresh orm txt (fe_reply e) (fe_now e) (fe_meanwhile e d) sub
          in (d', (case r of Ok _ \<Rightarrow> True | _ \<Rightarrow> False), r)
      | Fail er \<Rightarrow> (d, False, Fail (txt er))
      | Panic \<Rightarrow> (d, False, Panic))"

end
