(* ===== verification/Sub_Props.thy ===== *)
theory Sub_Props
  imports Subscriptions Store_Props
begin

text \<open>
  A refresh replaces the nodes of one subscription by those of the body and leaves the rest alone; but it also writes back
  the row it read before the fetch. Nodes are told apart by fingerprints, which do not depend on the tag.
\<close>

section \<open>Fingerprints and bodies\<close>

lemma ddel_dput: "ddel k (dput k v d) = ddel k d"
  by (induction k v d rule: dput.induct) (auto simp: ddel_def)

lemma Fingerprint_tag: "Fingerprint (Some (JObj (dput ''tag'' v d))) = Fingerprint (Some (JObj d))"
  by (simp add: Fingerprint_def ddel_dput)

lemma parse_nodes_distinct:
  "distinct (map nd_Fingerprint (parse_nodes nm seen links)) \<and> set (map nd_Fingerprint (parse_nodes nm seen links)) \<inter> set seen = {}"
proof (induction nm seen links rule: parse_nodes.induct)
  case (2 nm seen link links)
  then show ?case by (auto simp: new_node_def split: outcome.splits option.splits)
qed simp

lemma body_nodes_distinct: "distinct (map nd_Fingerprint (ParseSubscriptionBody nm body))"
  using parse_nodes_distinct by (simp add: ParseSubscriptionBody_def)

text \<open>A body that is encoded as a whole gives the nodes of the text it encodes.\<close>

lemma DecodeSubscription_base64:
  assumes "is_link body" "\<not> is_link (trim_space body) \<or> decodeB64 (trim_space body) = None"
  shows "DecodeSubscription (b64_encode url pad body) =
    filter (\<lambda>l. l \<noteq> [] \<and> is_link l) (map trim_space (text_lines body))"
proof -
  have "body \<noteq> []" using assms(1) by (auto simp: is_link_def)
  moreover have "trim_space (b64_encode url pad body) = b64_encode url pad body"
    using trimmed_plain [OF b64_encode_plain] by (simp add: trimmed_iff)
  ultimately show ?thesis using decodeB64_encode [of body url pad] assms(1) by (simp add: DecodeSubscription_def Let_def)
qed

section \<open>A refresh replaces the pool\<close>

definition node_content :: "sub_node \<Rightarrow> string \<times> string \<times> raw_json" where
  "node_content n = (nd_Name n, nd_Fingerprint n, nd_Outbound n)"

lemma set_active_content [simp]: "node_content (set_active w n) = node_content n"
  by (simp add: node_content_def set_active_def split: option.splits)

lemma set_active_sub [simp]: "nd_SubID (set_active w n) = nd_SubID n" "nd_ID (set_active w n) = nd_ID n"
  by (simp_all add: set_active_def split: option.splits)

lemma number_nodes_content [simp]: "map node_content (number_nodes i nxt ns) = map node_content ns"
  by (induction i nxt ns rule: number_nodes.induct) (simp_all add: node_content_def)

lemma number_nodes_sub: "n \<in> set (number_nodes i nxt ns) \<Longrightarrow> nd_SubID n = i"
  by (induction i nxt ns rule: number_nodes.induct) auto

definition wants :: "db \<Rightarrow> subscription \<Rightarrow> sub_node list \<Rightarrow> (nat \<times> bool) list" where
  "wants d sub ns = want_active (sub_Enabled sub) (DisabledFingerprints d (sub_ID sub)) (PinnedFingerprints d (sub_ID sub)) (EffectiveCap sub) 0 ns"

lemma find_row_unique:
  assumes "r \<in> set rows" "distinct (map key rows)"
  shows "find_row (\<lambda>x. key x = key r) rows = Ok r"
proof -
  have "List.find (\<lambda>x. key x = key r) rows = Some r"
    using assms by (induction rows) (auto simp: image_iff)
  then show ?thesis by (simp add: find_row_def)
qed

lemma ReplaceNodes_row:
  fixes nodes :: "sub_node list"
  assumes "row \<in> set (db_subs d)" "distinct (map sub_ID (db_subs d))"
  defines "new \<equiv> number_nodes (sub_ID row) (db_next d) nodes"
  shows "ReplaceNodes d (sub_ID row) nodes =
    Ok (d\<lparr>db_nodes := map (set_active (wants d row new)) (delete_where (\<lambda>n. nd_SubID n = sub_ID row) (db_nodes d) @ new),
          db_next := db_next d + length nodes\<rparr>)"
proof -
  have "filter (\<lambda>n. nd_SubID n = sub_ID row) (delete_where (\<lambda>n. nd_SubID n = sub_ID row) (db_nodes d) @ new) = new"
    using number_nodes_sub by (auto simp: new_def delete_where_def filter_empty_conv filter_id_conv)
  then show ?thesis
    using find_row_unique [OF assms(1,2)]
    by (simp add: ReplaceNodes_def recomputeActive_def sub_nodes_def wants_def new_def DisabledFingerprints_def PinnedFingerprints_def)
qed

lemma replaced_nodes:
  assumes "nodes' = map (set_active w) (delete_where (\<lambda>n. nd_SubID n = i) (db_nodes d) @ number_nodes i k ns)"
  shows "map node_content (filter (\<lambda>n. nd_SubID n = i) nodes') = map node_content ns"
proof -
  have "filter (\<lambda>n. nd_SubID n = i) nodes' = map (set_active w) (number_nodes i k ns)"
    using number_nodes_sub unfolding assms by (auto simp: filter_map comp_def delete_where_def filter_empty_conv filter_id_conv)
  then show ?thesis by (simp add: comp_def)
qed

lemma replaced_others:
  assumes "nodes' = map (set_active (want_active en off pin cap 0 (number_nodes i (db_next d) ns)))
      (delete_where (\<lambda>n. nd_SubID n = i) (db_nodes d) @ number_nodes i (db_next d) ns)"
    and "\<forall>n \<in> set (db_nodes d). nd_ID n < db_next d" "j \<noteq> i"
  shows "filter (\<lambda>n. nd_SubID n = j) nodes' = filter (\<lambda>n. nd_SubID n = j) (db_nodes d)"
proof -
  let ?w = "want_active en off pin cap 0 (number_nodes i (db_next d) ns)"
  have "set_active ?w n = n" if "n \<in> set (db_nodes d)" for n
  proof -
    have "nd_ID n \<notin> nd_ID ` set (number_nodes i (db_next d) ns)"
      using assms(2) that number_nodes_ids [of i "db_next d" ns] by (metis atLeastLessThan_iff image_set leD set_upt)
    then show ?thesis by (simp add: set_active_def map_of_want_None)
  qed
  then have "map (set_active ?w) (filter (\<lambda>n. nd_SubID n = j) (db_nodes d)) = filter (\<lambda>n. nd_SubID n = j) (db_nodes d)"
    by (intro map_idI) auto
  moreover have "filter (\<lambda>n. nd_SubID n = j) (delete_where (\<lambda>n. nd_SubID n = i) (db_nodes d)) = filter (\<lambda>n. nd_SubID n = j) (db_nodes d)"
    using assms(3) by (auto simp: delete_where_def intro: filter_cong)
  moreover have "filter (\<lambda>n. nd_SubID n = j) (number_nodes i (db_next d) ns) = []"
    using number_nodes_sub assms(3) by (fastforce simp: filter_empty_conv)
  ultimately show ?thesis by (simp add: assms(1) filter_map comp_def)
qed

lemma save_existing:
  assumes "row \<in> set rows" "distinct (map key rows)" "key r = key row" "\<forall>x \<in> set rows. name x = name r \<longrightarrow> key x = key r"
  shows "save_row key name f r rows = Ok (update_where (\<lambda>x. key x = key r) (\<lambda>_. r) rows)"
  using assms by (auto simp: save_row_def list_ex_iff)

lemma record_row_keeps [simp]:
  "sub_ID (record_row now sub q e) = sub_ID sub" "sub_Name (record_row now sub q e) = sub_Name sub"
  "sub_Enabled (record_row now sub q e) = sub_Enabled sub" "sub_NodeCap (record_row now sub q e) = sub_NodeCap sub"
  "sub_LastError (record_row now sub q e) = e" "sub_LastFetched (record_row now sub q e) = Some now"
  by (simp_all add: record_row_def Let_def)

lemma record_fetch_nodes [simp]: "db_nodes (record_fetch orm now d row) = db_nodes d" "db_overrides (record_fetch orm now d row) = db_overrides d"
  by (simp_all add: record_fetch_def UpdateSubscription_def save_row_def)

lemma update_where_id: "\<forall>x \<in> set rows. \<not> P x \<Longrightarrow> update_where P f rows = rows"
  by (auto simp: update_where_def intro: map_idI)

lemma filter_not_count: "length (filter P xs) + length (filter (\<lambda>x. \<not> P x) xs) = length xs"
  by (rule sum_length_filter_compl)

lemma record_fetch_subs:
  assumes "row \<in> set (db_subs d)" "distinct (map sub_ID (db_subs d))" "distinct (map sub_Name (db_subs d))"
    and "sub_ID r = sub_ID row" "sub_Name r = sub_Name row"
  shows "record_fetch orm now d r = d\<lparr>db_subs := update_where (\<lambda>s. sub_ID s = sub_ID row) (\<lambda>_. r) (db_subs d)\<rparr>"
proof -
  have "\<forall>x \<in> set (db_subs d). sub_Name x = sub_Name r \<longrightarrow> sub_ID x = sub_ID r"
    using assms by (auto simp: distinct_map inj_on_def)
  then show ?thesis
    using save_existing [OF assms(1,2,4), of sub_Name "sub_Enabled_update orm"] assms(4)
    by (simp add: record_fetch_def UpdateSubscription_def)
qed

lemma inter_count:
  assumes "distinct xs" "distinct ys"
  shows "length (filter (\<lambda>x. x \<in> set ys) xs) = length (filter (\<lambda>x. x \<in> set xs) ys)"
proof -
  have "set (filter (\<lambda>x. x \<in> set ys) xs) = set (filter (\<lambda>x. x \<in> set xs) ys)" by auto
  then show ?thesis using assms distinct_card [OF distinct_filter] by metis
qed

text \<open>C25. A refresh of a subscription whose row has not changed since it was read makes the body the pool: in order, the nodes
  of the parsed body with distinct fingerprints. The nodes of other subscriptions stay as they are, the row keeps
  everything but the outcome of the fetch, and the counts it reports account for the change of the pool.\<close>

theorem refresh_replaces_pool:
  assumes "sub \<in> set (db_subs d)" "distinct (map sub_ID (db_subs d))" "distinct (map sub_Name (db_subs d))"
    and "\<forall>n \<in> set (db_nodes d). nd_ID n < db_next d" "FetchSubscriptionBody reply = Ok (body, quota)"
  shows "\<exists>d' res. refresh orm txt reply now d sub = (d', Ok res) \<and>
    map node_content (sub_nodes d' (sub_ID sub)) = map node_content (ParseSubscriptionBody (sub_Name sub) body) \<and>
    distinct (map nd_Fingerprint (sub_nodes d' (sub_ID sub))) \<and>
    (\<forall>j. j \<noteq> sub_ID sub \<longrightarrow> sub_nodes d' j = sub_nodes d j) \<and>
    db_subs d' = update_where (\<lambda>s. sub_ID s = sub_ID sub) (\<lambda>_. record_row now sub quota []) (db_subs d) \<and>
    rr_Nodes res = length (sub_nodes d' (sub_ID sub)) \<and>
    rr_Nodes res + rr_Removed res = length (remdups (map nd_Fingerprint (sub_nodes d (sub_ID sub)))) + rr_Added res"
proof -
  let ?i = "sub_ID sub"
  define ns where "ns = ParseSubscriptionBody (sub_Name sub) body"
  define new where "new = number_nodes ?i (db_next d) ns"
  define d1 where "d1 = d\<lparr>db_nodes := map (set_active (wants d sub new)) (delete_where (\<lambda>n. nd_SubID n = ?i) (db_nodes d) @ new),
                          db_next := db_next d + length ns\<rparr>"
  define d' where "d' = record_fetch orm now d1 (record_row now sub quota [])"
  define res where "res = refresh_diff d ?i ns"
  have r: "ReplaceNodes d ?i ns = Ok d1"
    unfolding d1_def new_def using assms(1,2) by (rule ReplaceNodes_row)
  have run: "refresh orm txt reply now d sub = (d', Ok res)"
    using r assms(5) by (simp add: refresh_def d'_def res_def ns_def Let_def)
  have nodes: "sub_nodes d' j = filter (\<lambda>n. nd_SubID n = j) (db_nodes d1)" for j by (simp add: sub_nodes_def d'_def)
  have content: "map node_content (sub_nodes d' ?i) = map node_content ns"
    unfolding nodes by (rule replaced_nodes) (simp add: d1_def new_def)
  have fps: "map nd_Fingerprint (sub_nodes d' ?i) = map nd_Fingerprint ns"
  proof -
    have fp: "nd_Fingerprint = (\<lambda>n. fst (snd (node_content n)))" by (simp add: node_content_def)
    have "map (\<lambda>c. fst (snd c)) (map node_content (sub_nodes d' ?i)) = map (\<lambda>c. fst (snd c)) (map node_content ns)"
      unfolding content ..
    then show ?thesis by (simp add: fp comp_def)
  qed
  have dist: "distinct (map nd_Fingerprint ns)" unfolding ns_def by (rule body_nodes_distinct)
  have others: "sub_nodes d' j = sub_nodes d j" if "j \<noteq> ?i" for j
  proof -
    have "filter (\<lambda>n. nd_SubID n = j) (db_nodes d1) = filter (\<lambda>n. nd_SubID n = j) (db_nodes d)"
      using replaced_others [OF refl assms(4) that, of "sub_Enabled sub" "DisabledFingerprints d ?i" "PinnedFingerprints d ?i" "EffectiveCap sub" ns]
      by (simp add: d1_def new_def wants_def)
    then show ?thesis unfolding nodes by (simp add: sub_nodes_def)
  qed
  have subs: "db_subs d' = update_where (\<lambda>s. sub_ID s = ?i) (\<lambda>_. record_row now sub quota []) (db_subs d)"
    unfolding d'_def using assms(1-3) by (subst record_fetch_subs [of sub]) (simp_all add: d1_def)
  have len: "length (sub_nodes d' ?i) = length ns" using content by (metis length_map)
  have "rr_Nodes res + rr_Removed res = length (remdups (map nd_Fingerprint (sub_nodes d ?i))) + rr_Added res"
  proof -
    let ?a = "map nd_Fingerprint ns" and ?b = "remdups (map nd_Fingerprint (sub_nodes d ?i))"
    have "length (filter (\<lambda>x. x \<in> set ?b) ?a) = length (filter (\<lambda>x. x \<in> set ?a) ?b)"
      using dist by (intro inter_count) simp_all
    then show ?thesis
      using filter_not_count [of "\<lambda>x. x \<in> set ?b" ?a] filter_not_count [of "\<lambda>x. x \<in> set ?a" ?b] dist
      by (simp add: res_def refresh_diff_def sub_fingerprints_def Let_def distinct_remdups_id)
  qed
  then show ?thesis
    using run content fps dist others subs len
    by (intro exI [of _ d'] exI [of _ res]) (simp add: ns_def res_def refresh_diff_def Let_def)
qed

section \<open>What a refresh writes back\<close>

lemma want_disabled: "map_of (want_active False off pin cap kept ns) i \<noteq> Some True"
  by (induction "False" off pin cap kept ns rule: want_active.induct) auto

lemma want_disabled_nodes:
  "filter (\<lambda>n. nd_SubID n = i \<and> nd_Active n)
     (map (set_active (want_active False off pin cap 0 (number_nodes i k ns))) (delete_where (\<lambda>n. nd_SubID n = i) nodes @ number_nodes i k ns)) = []"
proof -
  have "\<not> nd_Active (set_active (want_active False off pin cap 0 ms) n)" if "n \<in> set ms" for n ms
  proof -
    have "nd_ID n \<in> fst ` set (want_active False off pin cap 0 ms)"
      using that want_active_ids [of False off pin cap 0 ms] by (metis image_eqI image_set)
    then obtain w where "map_of (want_active False off pin cap 0 ms) (nd_ID n) = Some w" by (metis domD dom_map_of_conv_image_fst)
    then show ?thesis using want_disabled [of off pin cap 0 ms "nd_ID n"] by (cases w) (auto simp: set_active_def)
  qed
  then show ?thesis by (auto simp: filter_empty_conv delete_where_def)
qed

lemma find_updated:
  "r \<in> set rows \<Longrightarrow> key r' = key r \<Longrightarrow> find_row (\<lambda>x. key x = key r) (update_where (\<lambda>x. key x = key r) (\<lambda>_. r') rows) = Ok r'"
  by (induction rows) (auto simp: find_row_def update_where_def split: option.splits)

text \<open>The fetcher saves the row that it read before the fetch: when the subscription is disabled while it is fetched,
  the refresh enables it again, and none of its nodes is active.\<close>

theorem refresh_undoes_disable:
  assumes "sub \<in> set (db_subs d)" "distinct (map sub_ID (db_subs d))" "distinct (map sub_Name (db_subs d))"
    and "sub_Enabled sub" "SetSubEnabled d (sub_ID sub) False = Ok d1" "FetchSubscriptionBody reply = Ok (body, quota)"
  shows "\<exists>d' res row. refresh orm txt reply now d1 sub = (d', Ok res) \<and> GetSubscription d' (sub_ID sub) = Ok row \<and>
    sub_Enabled row \<and> ActiveNodes d' (sub_ID sub) = []"
proof -
  let ?i = "sub_ID sub" and ?off = "sub\<lparr>sub_Enabled := False\<rparr>" and ?r = "record_row now sub quota []"
  define ns where "ns = ParseSubscriptionBody (sub_Name sub) body"
  have subs1: "db_subs d1 = update_where (\<lambda>s. sub_ID s = ?i) (sub_Enabled_update (\<lambda>_. False)) (db_subs d)"
    using assms(5) by (auto simp: SetSubEnabled_def recomputeActive_def split: outcome.splits)
  have row: "?off \<in> set (db_subs d1)" using assms(1) unfolding subs1 by (force simp: update_where_def)
  have dist: "distinct (map sub_ID (db_subs d1))" "distinct (map sub_Name (db_subs d1))"
    using assms(2,3) unfolding subs1 update_where_def map_map comp_def by (simp_all add: if_distrib cong: if_cong)
  let ?new = "number_nodes ?i (db_next d1) ns"
  define d2 where "d2 = d1\<lparr>db_nodes := map (set_active (wants d1 ?off ?new)) (delete_where (\<lambda>n. nd_SubID n = ?i) (db_nodes d1) @ ?new),
      db_next := db_next d1 + length ns\<rparr>"
  have "ReplaceNodes d1 ?i ns = Ok d2" using ReplaceNodes_row [OF row dist(1), of ns] by (simp add: d2_def)
  moreover define d' where "d' = record_fetch orm now d2 ?r"
  ultimately have run: "refresh orm txt reply now d1 sub = (d', Ok (refresh_diff d1 ?i ns))"
    using assms(6) by (simp add: refresh_def ns_def Let_def)
  have d': "d' = d2\<lparr>db_subs := update_where (\<lambda>s. sub_ID s = ?i) (\<lambda>_. ?r) (db_subs d2)\<rparr>"
    unfolding d'_def using row dist by (subst record_fetch_subs [of ?off]) (simp_all add: d2_def)
  have "GetSubscription d' ?i = Ok ?r"
    using find_updated [of ?off "db_subs d1" sub_ID ?r] row by (simp add: GetSubscription_def d' d2_def)
  moreover have "ActiveNodes d' ?i = []"
    using want_disabled_nodes unfolding ActiveNodes_def sub_nodes_def
    by (simp add: d' d2_def wants_def conj_commute del: map_append filter_append filter_map)
  ultimately show ?thesis using run assms(4) by (intro exI [of _ d'] exI) auto
qed

lemma find_snoc: "List.find P xs = None \<Longrightarrow> List.find P (xs @ [r]) = (if P r then Some r else None)"
  by (induction xs) (auto split: if_splits)

text \<open>A subscription that is deleted while it is fetched comes back: the new nodes are refused, because the row is gone,
  but recording that error inserts the row again.\<close>

theorem refresh_revives_deleted:
  assumes "FetchSubscriptionBody reply = Ok (body, quota)" "sub \<in> set (db_subs d)" "distinct (map sub_Name (db_subs d))"
  shows "\<exists>d' e row. refresh orm txt reply now (DeleteSubscription d (sub_ID sub)) sub = (d', Fail e) \<and>
    GetSubscription (DeleteSubscription d (sub_ID sub)) (sub_ID sub) = Fail NotFound \<and>
    GetSubscription d' (sub_ID sub) = Ok row \<and> sub_Name row = sub_Name sub \<and> sub_LastError row = e"
proof -
  let ?d = "DeleteSubscription d (sub_ID sub)" and ?r = "record_row now sub quota (txt NotFound)"
  let ?P = "\<lambda>s. sub_ID s = sub_ID sub"
  have gone: "\<forall>s \<in> set (db_subs ?d). \<not> ?P s" by (auto simp: DeleteSubscription_def delete_where_def)
  then have missing: "List.find ?P (db_subs ?d) = None" by (auto simp: find_None_iff)
  have fresh: "\<forall>s \<in> set (db_subs ?d). sub_Name s \<noteq> sub_Name sub"
    using assms(2,3) by (auto simp: DeleteSubscription_def delete_where_def distinct_map inj_on_def)
  have r: "ReplaceNodes ?d (sub_ID sub) ns = Fail NotFound" for ns
    using missing by (simp add: ReplaceNodes_def recomputeActive_def find_row_def)
  have "record_fetch orm now ?d ?r = ?d\<lparr>db_subs := db_subs ?d @ [?r\<lparr>sub_Enabled := orm (sub_Enabled sub)\<rparr>]\<rparr>"
    using gone fresh by (auto simp: record_fetch_def UpdateSubscription_def save_row_def list_ex_iff record_row_def Let_def)
  moreover have "List.find ?P (db_subs ?d @ [?r\<lparr>sub_Enabled := orm (sub_Enabled sub)\<rparr>]) = Some (?r\<lparr>sub_Enabled := orm (sub_Enabled sub)\<rparr>)"
    using missing by (simp add: find_snoc)
  ultimately show ?thesis
    using assms(1) r missing by (simp add: refresh_def GetSubscription_def find_row_def Let_def)
qed

section \<open>Concrete runs\<close>

lemma FetchSubscriptionBody_ok:
  assumes "200 \<le> code" "code < 300" "length body \<le> MaxSubBytes"
  shows "FetchSubscriptionBody (HttpReply code status body header) = Ok (body, ParseUserinfo header)"
  using assms by (simp add: FetchSubscriptionBody_def)

lemma FetchSubscriptionBody_large:
  assumes "200 \<le> code" "code < 300" "MaxSubBytes < length body"
  shows "FetchSubscriptionBody (HttpReply code status body header) =
    Fail (''subscription body exceeds '' @ itoa (int MaxSubBytes) @ '' bytes'')"
  using assms by (simp add: FetchSubscriptionBody_def)

definition demo_reply :: http_result where
  "demo_reply = HttpReply 200 ''200 OK'' ''vless://u@h:8#x'' ''upload=5; total = 9''"

lemma demo_reply_ok: "FetchSubscriptionBody demo_reply = Ok (''vless://u@h:8#x'', ParseUserinfo ''upload=5; total = 9'')"
  unfolding demo_reply_def by (rule FetchSubscriptionBody_ok) (simp_all add: MaxSubBytes_def)

lemma demo_reply_quota: "ParseUserinfo ''upload=5; total = 9'' = no_quota\<lparr>qt_Upload := 5, qt_Total := 9, qt_HasData := True\<rparr>"
  by code_simp

lemma demo_sub_facts: "demo_sub \<in> set (db_subs demo_db)" "distinct (map sub_ID (db_subs demo_db))"
  "distinct (map sub_Name (db_subs demo_db))" "\<forall>n \<in> set (db_nodes demo_db). nd_ID n < db_next demo_db"
  "sub_ID demo_sub = 1" "sub_Name demo_sub = ''s''" "sub_Enabled demo_sub"
  by (simp_all add: demo_db_def demo_sub_def demo_node_def)

lemma refresh_replaces_pool_witness:
  "\<exists>d' res. refresh (\<lambda>_. True) (\<lambda>_. ''error'') demo_reply 7 demo_db demo_sub = (d', Ok res) \<and>
    map node_content (sub_nodes d' 1) = map node_content (ParseSubscriptionBody ''s'' ''vless://u@h:8#x'') \<and>
    rr_Nodes res + rr_Removed res = 2 + rr_Added res"
  using refresh_replaces_pool [OF demo_sub_facts(1-4) demo_reply_ok, of "\<lambda>_. True" "\<lambda>_. ''error''" 7]
  unfolding demo_sub_facts by (auto simp: demo_db_def sub_nodes_def demo_node_def)

lemma refresh_undoes_disable_witness:
  "\<exists>d1 d' res row. SetSubEnabled demo_db 1 False = Ok d1 \<and>
    refresh (\<lambda>_. True) (\<lambda>_. ''error'') demo_reply 7 d1 demo_sub = (d', Ok res) \<and> GetSubscription d' 1 = Ok row \<and>
    sub_Enabled row \<and> ActiveNodes d' 1 = []"
proof -
  have "find_row (\<lambda>s. sub_ID s = 1) (update_where (\<lambda>s. sub_ID s = 1) (sub_Enabled_update (\<lambda>_. False)) (db_subs demo_db)) =
      Ok (demo_sub\<lparr>sub_Enabled := False\<rparr>)"
    by (simp add: demo_db_def demo_sub_def update_where_def find_row_def)
  then obtain d1 where "SetSubEnabled demo_db (sub_ID demo_sub) False = Ok d1"
    by (simp add: SetSubEnabled_def recomputeActive_def demo_sub_facts)
  then show ?thesis
    using refresh_undoes_disable [OF demo_sub_facts(1-3,7) _ demo_reply_ok, of d1 "\<lambda>_. True" "\<lambda>_. ''error''" 7]
    by (auto simp: demo_sub_facts)
qed

lemma refresh_revives_deleted_witness:
  "\<exists>d' e row. refresh (\<lambda>_. True) (\<lambda>_. ''error'') demo_reply 7 (DeleteSubscription demo_db 1) demo_sub = (d', Fail e) \<and>
    GetSubscription d' 1 = Ok row \<and> sub_Name row = ''s'' \<and> sub_LastError row = e"
  using refresh_revives_deleted [OF demo_reply_ok demo_sub_facts(1,3), of "\<lambda>_. True" "\<lambda>_. ''error''" 7]
  unfolding demo_sub_facts by auto

end
