(* ===== verification/Renames.thy ===== *)
theory Renames
  imports Pool_Props Store_Props
begin

text \<open>
  A rename of an entry or a subscription rewrites the dialers in the store; the supervisor's knowledge of the pools, which
  is keyed by the references of a pool and by the names of its members, is moved along (\<^verbatim>\<open>daemon/rename.go\<close>), so that
  the next reconcile finds the same pools.
\<close>

section \<open>Moving the supervisor's state\<close>

definition rekey :: "string \<Rightarrow> string \<Rightarrow> string \<Rightarrow> string \<Rightarrow> string" where
  "rekey kind old name key =
     (let (nk, changed) = RenameDialerRef key kind old name
      in if \<not> changed then key
         else (case ParseDialer nk of Inl _ \<Rightarrow> key | Inr refs \<Rightarrow> DialerGroupKey refs))"

definition renamedKeys :: "string list \<Rightarrow> string \<Rightarrow> string \<Rightarrow> string list" where
  "renamedKeys keys old key = map (\<lambda>k. if k = old then key else k) keys"

definition move_key :: "'k::linorder \<Rightarrow> 'k \<Rightarrow> ('k, 'v) dict \<Rightarrow> ('k, 'v) dict" where
  "move_key old new d = (case map_of d old of Some v \<Rightarrow> dput new v (ddel old d) | None \<Rightarrow> d)"

text \<open>The member key of an entry; a subscription's members are fingerprints, which do not change.\<close>

definition renamed_member :: "string \<Rightarrow> string \<Rightarrow> string \<Rightarrow> (string \<times> string) option" where
  "renamed_member kind old name = (if kind = RefXray then Some (''xray-'' @ NormalizeName old, ''xray-'' @ name) else None)"

definition renamed_picks :: "(string \<times> string) option \<Rightarrow> string list \<Rightarrow> string list" where
  "renamed_picks mk keys = (case mk of Some (o', n') \<Rightarrow> renamedKeys keys o' n' | None \<Rightarrow> keys)"

definition renamed_slot :: "string \<Rightarrow> string \<Rightarrow> string \<Rightarrow> slot \<Rightarrow> slot" where
  "renamed_slot kind old name sl =
     (let mk = renamed_member kind old name
      in sl\<lparr>s_Key := rekey kind old name (s_Key sl),
            s_Picked := renamed_picks mk (s_Picked sl),
            s_MasterPicks := dict_of (map (\<lambda>(master, p).
               (if kind = RefXray \<and> master = NormalizeName old then name else master,
                p\<lparr>p_Picked := renamed_picks mk (p_Picked p)\<rparr>)) (s_MasterPicks sl))\<rparr>)"

definition renamed_scores :: "string \<Rightarrow> string \<Rightarrow> slot list \<Rightarrow> scores \<Rightarrow> scores" where
  "renamed_scores old new slots sc =
     fold (\<lambda>sl. fold (\<lambda>m. if m_Key m = old
                           then move_key (SlotMemberTag (s_Index sl) old) (SlotMemberTag (s_Index sl) new) else id) (s_Members sl)) slots sc"

definition RenamedRef :: "string \<Rightarrow> string \<Rightarrow> string \<Rightarrow> sup \<Rightarrow> sup" where
  "RenamedRef kind old name s =
     (let rk = rekey kind old name;
          s1 = s\<lparr>su_slotIdx := dict_of (map (\<lambda>(k, v). (rk k, v)) (su_slotIdx s)),
                 su_loaded := map (renamed_slot kind old name) (su_loaded s)\<rparr>;
          s2 = (case renamed_member kind old name of
                  None \<Rightarrow> s1
                | Some (om, nm) \<Rightarrow>
                    s1\<lparr>su_scores := renamed_scores om nm (su_loaded s) (su_scores s),
                       su_parks := move_key om nm (su_parks s),
                       su_chain := renameMaster (NormalizeName old) name (renameMember om nm (su_chain s))\<rparr>);
          (om, nm) = (case renamed_member kind old name of None \<Rightarrow> ([], []) | Some p \<Rightarrow> p)
      in s2\<lparr>su_history := history_rename rk om nm (su_history s), su_auto := classifier_rename rk (su_auto s)\<rparr>)"

section \<open>The moved pool is the pool of the renamed dialer\<close>

lemma parse_ref_key: "ref_ok r \<Longrightarrow> parse_ref (ref_key r) = Inr r"
  using key_facts(2) [of "r_Kind r" "r_Name r"] by (simp add: ref_ok_def ref_key_def)

lemma ref_key_inj:
  assumes "ref_ok r" "ref_ok q" "ref_key r = ref_key q"
  shows "r = q"
proof -
  have "Inr r = (Inr q :: dialer_error + dialer_ref)"
    using parse_ref_key [OF assms(1)] parse_ref_key [OF assms(2)] unfolding assms(3) by (rule trans [OF sym])
  then show ?thesis by simp
qed

lemma mapped_from:
  assumes "\<forall>x \<in> set xs. \<exists>r. r \<in> A \<and> x = f r"
  obtains rs where "xs = map f rs" "set rs \<subseteq> A"
  using assms by (induction xs arbitrary: thesis) (simp, metis insert_subset list.map(2) list.set(2) list.set_intros)

text \<open>A pool key is itself a dialer, with the same references.\<close>

lemma ParseDialer_group_key:
  assumes "ParseDialer dialer = Inr refs"
  obtains rs where "ParseDialer (DialerGroupKey refs) = Inr rs" "set rs = set refs"
proof -
  let ?ks = "sort (keep_first id [] (map ref_key refs))"
  have "set ?ks = ref_key ` set refs" using keep_first_set [of id "[]" "map ref_key refs"] by simp
  then have "\<forall>x \<in> set ?ks. \<exists>r. r \<in> set refs \<and> x = ref_key r" by auto
  then obtain rs where rs: "?ks = map ref_key rs" "set rs \<subseteq> set refs" by (rule mapped_from)
  have ok: "ref_ok r" if "r \<in> set refs" for r using ParseDialer_ok [OF assms that] .
  have "ParseDialer (DialerGroupKey refs) = Inr rs"
    unfolding DialerGroupKey_def rs(1) using rs(2) ok by (intro ParseDialer_join) auto
  moreover have "set refs \<subseteq> set rs"
  proof
    fix r assume r: "r \<in> set refs"
    then have "ref_key r \<in> ref_key ` set rs" using \<open>set ?ks = _\<close> rs(1) by (metis image_eqI list.set_map)
    then show "r \<in> set rs" using ref_key_inj ok r rs(2) by (metis image_iff subsetD)
  qed
  ultimately show ?thesis using that rs(2) by blast
qed

lemma renamed_refs:
  assumes "ValidName s = Inr new" "kind \<in> set ref_kinds" "ParseDialer dialer = Inr refs"
    and "dialer' = (let (nd, changed) = RenameDialerRef dialer kind old new in if changed then nd else dialer)"
  obtains refs' where "ParseDialer dialer' = Inr refs'" "ref_key ` set refs' = ref_key ` ren kind old new ` set refs"
proof (cases "snd (RenameDialerRef dialer kind old new)")
  case True
  then have "dialer' = fst (RenameDialerRef dialer kind old new)" by (simp add: assms(4) case_prod_beta Let_def)
  moreover have "rename_key kind old new ` set (keep_first (rename_key kind old new) [] refs) = rename_key kind old new ` set refs"
    using keep_first_set [of "rename_key kind old new" "[]" refs] by simp
  then have "ref_key ` set (map (ren kind old new) (keep_first (rename_key kind old new) [] refs)) = ref_key ` ren kind old new ` set refs"
    by (simp add: image_image rename_key_ren)
  ultimately show ?thesis using that RenameDialerRef_parse [OF assms(1-3)] by metis
next
  case False
  then have "dialer' = dialer" by (simp add: assms(4) case_prod_beta Let_def)
  moreover have "ren kind old new r = r" if "r \<in> set refs" for r
    using False assms(3) that rename_refs_no_hit [of kind old new "[]" refs] by (auto simp: RenameDialerRef_def ren_def)
  then have "ren kind old new ` set refs = set refs" by force
  ultimately show ?thesis using that assms(3) by metis
qed

lemma rekey_group:
  assumes "ValidName s = Inr new" "kind \<in> set ref_kinds" "ParseDialer dialer = Inr refs"
    and "ref_key ` set refs' = ref_key ` ren kind old new ` set refs"
  shows "rekey kind old new (DialerGroupKey refs) = DialerGroupKey refs'"
proof -
  obtain rs where rs: "ParseDialer (DialerGroupKey refs) = Inr rs" "set rs = set refs"
    using ParseDialer_group_key [OF assms(3)] .
  obtain d' where d': "d' = (let (nd, changed) = RenameDialerRef (DialerGroupKey refs) kind old new in if changed then nd else DialerGroupKey refs)"
    by simp
  obtain rs' where rs': "ParseDialer d' = Inr rs'" "ref_key ` set rs' = ref_key ` ren kind old new ` set rs"
    using renamed_refs [OF assms(1,2) rs(1) d'] .
  have same: "DialerGroupKey rs' = DialerGroupKey refs'" using rs' rs(2) assms(4) by (intro DialerGroupKey_set) simp
  show ?thesis
  proof (cases "snd (RenameDialerRef (DialerGroupKey refs) kind old new)")
    case True
    then show ?thesis using rs'(1) d' same by (simp add: rekey_def case_prod_beta Let_def)
  next
    case False
    then have "d' = DialerGroupKey refs" using d' by (simp add: case_prod_beta Let_def)
    then have "rs' = rs" using rs'(1) rs(1) by simp
    then have "DialerGroupKey rs' = DialerGroupKey refs" using rs(2) by (intro DialerGroupKey_set) simp
    then show ?thesis using False same by (simp add: rekey_def case_prod_beta Let_def)
  qed
qed

lemma redial_dialer:
  "e_Dialer (redial kind old name m) =
    (let (nd, changed) = RenameDialerRef (e_Dialer m) kind old name in if changed then nd else e_Dialer m)"
  by (simp add: redial_def RenameDialerRef_def ParseDialer_def trim_space_def Let_def case_prod_beta)

lemma redial_id [simp]: "e_ID (redial kind old name m) = e_ID m"
  by (simp add: redial_def Let_def case_prod_beta)

lemma map_of_moved:
  assumes "dict_ok d" "map_of d key = Some v" "\<forall>k \<in> fst ` set d. f k = f key \<longrightarrow> k = key"
  shows "map_of (dict_of (map (\<lambda>(k, v). (f k, v)) d)) (f key) = Some v"
proof -
  let ?xs = "rev (map (\<lambda>(k, v). (f k, v)) d)"
  have kv: "(key, v) \<in> set d" using assms(2) by (rule map_of_SomeD)
  have "w = v" if "(f key, w) \<in> set ?xs" for w
  proof -
    obtain k where k: "(k, w) \<in> set d" "f k = f key" using \<open>(f key, w) \<in> set ?xs\<close> by auto
    then have "k = key" using assms(3) by force
    then show ?thesis using k(1) kv dict_ok_distinct [OF assms(1)] by (metis eq_key_imp_eq_value)
  qed
  moreover have "(f key, v) \<in> set ?xs" using kv by force
  then obtain w where "map_of ?xs (f key) = Some w" by (metis weak_map_of_SomeI)
  ultimately show ?thesis unfolding map_of_dict_of by (metis map_of_SomeD)
qed

text \<open>C29. After an entry is renamed, the pool of every master, found by the references of its rewritten dialer, still has
  its slot index, unless another pool came to name the same references.\<close>

theorem rename_keeps_slot_index:
  assumes "RenameEntry d i newName = Ok d'" "GetEntry d i = Ok e" "ValidName newName = Inr name" "e_Name e \<noteq> name"
    and "m \<in> set (db_entries d)" "ParseDialer (e_Dialer m) = Inr refs" "dict_ok (su_slotIdx s)"
    and "map_of (su_slotIdx s) (DialerGroupKey refs) = Some k"
    and "\<forall>k' \<in> fst ` set (su_slotIdx s). rekey RefXray (e_Name e) name k' = rekey RefXray (e_Name e) name (DialerGroupKey refs) \<longrightarrow> k' = DialerGroupKey refs"
  shows "\<exists>m' refs'. m' \<in> set (db_entries d') \<and> e_ID m' = e_ID m \<and> ParseDialer (e_Dialer m') = Inr refs' \<and>
    map_of (su_slotIdx (RenamedRef RefXray (e_Name e) name s)) (DialerGroupKey refs') = Some k"
proof -
  let ?o = "e_Name e"
  define m1 where "m1 = (if e_ID m = i then m\<lparr>e_Name := name\<rparr> else m)"
  let ?m' = "redial RefXray ?o name m1"
  have "db_entries d' = map (redial RefXray ?o name) (update_where (\<lambda>x. e_ID x = i) (e_Name_update (\<lambda>_. name)) (db_entries d))"
    using assms(1-4) by (auto simp: RenameEntry_def GetEntry_def cascadeRename_def renameInboundTargets_def split: if_splits)
  then have mem: "?m' \<in> set (db_entries d')" using assms(5) by (auto simp: update_where_def m1_def)
  have kind: "RefXray \<in> set ref_kinds" by (simp add: ref_kinds_def)
  have same: "e_Dialer m1 = e_Dialer m" by (simp add: m1_def)
  have dial: "e_Dialer ?m' = (let (nd, changed) = RenameDialerRef (e_Dialer m) RefXray ?o name in if changed then nd else e_Dialer m)"
    unfolding redial_dialer same ..
  obtain refs' where refs': "ParseDialer (e_Dialer ?m') = Inr refs'" "ref_key ` set refs' = ref_key ` ren RefXray ?o name ` set refs"
    using renamed_refs [OF assms(3) kind assms(6) dial] .
  have "rekey RefXray ?o name (DialerGroupKey refs) = DialerGroupKey refs'"
    using rekey_group [OF assms(3) kind assms(6) refs'(2)] .
  then have "map_of (su_slotIdx (RenamedRef RefXray ?o name s)) (DialerGroupKey refs') = Some k"
    using map_of_moved [OF assms(7,8,9)] by (simp add: RenamedRef_def renamed_member_def Let_def)
  moreover have "e_ID ?m' = e_ID m" by (simp add: m1_def)
  ultimately show ?thesis using mem refs'(1) by blast
qed

definition rename_demo_sup :: sup where
  "rename_demo_sup = \<lparr>su_slotIdx = [(''xray:old'', 7), (''xraysub:s'', 2)], su_loaded = [], su_parks = [], su_scores = [],
     su_chain = [], su_history = [], su_auto = [], su_rejected = [], su_netFP = [], su_uplinkDown = False\<rparr>"

lemma rename_demo_keys:
  "rekey RefXray ''old'' ''new'' ''xray:old'' = ''xray:new''" "rekey RefXray ''old'' ''new'' ''xraysub:s'' = ''xraysub:s''"
  by code_simp+

lemma rename_demo_dialer: "ParseDialer ''xray:old'' = Inr [\<lparr>r_Kind = ''xray'', r_Name = ''old''\<rparr>]" "DialerGroupKey [\<lparr>r_Kind = ''xray'', r_Name = ''old''\<rparr>] = ''xray:old''"
  "ValidName ''new'' = Inr ''new''"
  by code_simp+

lemma rename_keeps_slot_index_witness:
  "\<exists>d' m' refs'. RenameEntry demo_db 3 ''new'' = Ok d' \<and> m' \<in> set (db_entries d') \<and> e_ID m' = 4 \<and>
    ParseDialer (e_Dialer m') = Inr refs' \<and>
    map_of (su_slotIdx (RenamedRef RefXray ''old'' ''new'' rename_demo_sup)) (DialerGroupKey refs') = Some 7"
proof -
  let ?m = "demo_entry 4 ''mst'' ''xray:old''" and ?e = "demo_entry 3 ''old'' []"
  have g: "GetEntry demo_db 3 = Ok ?e"
    by (simp add: GetEntry_def find_row_def demo_db_def demo_entry_def)
  then obtain d' where d': "RenameEntry demo_db 3 ''new'' = Ok d'"
    using rename_demo_dialer(3) by (auto simp: RenameEntry_def GetEntry_def demo_db_def demo_entry_def)
  have n: "e_Name ?e = ''old''" by (simp add: demo_entry_def)
  have m: "?m \<in> set (db_entries demo_db)" by (simp add: demo_db_def)
  have r: "ParseDialer (e_Dialer ?m) = Inr [\<lparr>r_Kind = ''xray'', r_Name = ''old''\<rparr>]"
    using rename_demo_dialer(1) by (simp add: demo_entry_def)
  have s: "dict_ok (su_slotIdx rename_demo_sup)" "map_of (su_slotIdx rename_demo_sup) ''xray:old'' = Some 7"
    "\<forall>k' \<in> fst ` set (su_slotIdx rename_demo_sup). rekey RefXray ''old'' ''new'' k' = rekey RefXray ''old'' ''new'' ''xray:old'' \<longrightarrow> k' = ''xray:old''"
    using rename_demo_keys by (simp_all add: rename_demo_sup_def dict_ok_Cons)
  show ?thesis
    using rename_keeps_slot_index [OF d' g rename_demo_dialer(3) _ m r s(1), of 7] s(2,3) d'
    unfolding n rename_demo_dialer(2) by (auto simp: demo_entry_def)
qed

end
