(* ===== verification/Sock_Diag.thy ===== *)
theory Sock_Diag
  imports Url Models Sha256
begin

text \<open>
  How the daemon finds and closes sockets of the running process on Linux (\<^verbatim>\<open>daemon/sockcut_linux.go\<close>): netlink
  \<^verbatim>\<open>sock_diag\<close> messages as bytes, with the byte order of the machine as a flag (true is big endian), the dump of the
  kernel's sockets and the requests that destroy them, and the tables under \<^verbatim>\<open>/proc\<close> that serve when the kernel cannot
  destroy sockets. What the kernel answers is a parameter.
\<close>

unbundle bit_operations_syntax

section \<open>Words in memory\<close>

definition word_of :: "bool \<Rightarrow> 8 word list \<Rightarrow> 'a::len word" where
  "word_of big bs = fold (\<lambda>b w. push_bit 8 w OR ucast b) (if big then bs else rev bs) 0"

definition word_bytes :: "nat \<Rightarrow> bool \<Rightarrow> 'a::len word \<Rightarrow> 8 word list" where
  "word_bytes n big w =
     (let bs = map (\<lambda>i. ucast (drop_bit (8 * i) w)) (rev [0..<n]) in if big then bs else rev bs)"

definition Uint16 :: "bool \<Rightarrow> 8 word list \<Rightarrow> 16 word" where "Uint16 big bs = word_of big (take 2 bs)"
definition Uint32 :: "bool \<Rightarrow> 8 word list \<Rightarrow> 32 word" where "Uint32 big bs = word_of big (take 4 bs)"
definition PutUint16 :: "bool \<Rightarrow> 16 word \<Rightarrow> 8 word list" where "PutUint16 big w = word_bytes 2 big w"
definition PutUint32 :: "bool \<Rightarrow> 32 word \<Rightarrow> 8 word list" where "PutUint32 big w = word_bytes 4 big w"

text \<open>A field of fixed width, written and read back at its place in a message.\<close>

locale field_codec =
  fixes put :: "'w \<Rightarrow> 8 word list" and get :: "8 word list \<Rightarrow> 'w" and width :: nat
  assumes length_put: "length (put w) = width"
    and get_put: "get (put w @ rest) = w"
begin

lemma get_at: "length pre = k \<Longrightarrow> get (drop k (pre @ put w @ rest)) = w"
  by (simp add: get_put)

lemma put_inj: "put v = put w \<Longrightarrow> v = w"
  by (metis append_Nil2 get_put)

lemma put_prefix: "put v @ r = put w @ s \<Longrightarrow> v = w \<and> r = s"
  by (metis append_eq_append_conv get_put length_put)

end

lemma bytes_word16: "word_of big (word_bytes 2 big (w :: 16 word)) = w"
  by (rule bit_word_eqI) (auto simp: word_of_def word_bytes_def bit_simps numeral_2_eq_2 Let_def)

lemma bytes_word32: "word_of big (word_bytes 4 big (w :: 32 word)) = w"
proof (rule bit_word_eqI)
  fix n assume "n < LENGTH(32)"
  then consider "n < 8" | "8 \<le> n" "n < 16" | "16 \<le> n" "n < 24" | "24 \<le> n" "n < 32" by force
  then show "bit (word_of big (word_bytes 4 big w) :: 32 word) n \<longleftrightarrow> bit w n"
    by cases (auto simp: word_of_def word_bytes_def bit_simps Let_def upt_rec)
qed

lemma length_word_bytes [simp]: "length (word_bytes n big w) = n"
  by (simp add: word_bytes_def Let_def)

interpretation u16: field_codec "PutUint16 big" "Uint16 big" 2 for big
  by unfold_locales (simp_all add: PutUint16_def Uint16_def bytes_word16)

interpretation u32: field_codec "PutUint32 big" "Uint32 big" 4 for big
  by unfold_locales (simp_all add: PutUint32_def Uint32_def bytes_word32)

section \<open>Requests and replies\<close>

type_synonym endpoint = "8 word list \<times> 16 word"
type_synonym sock_match = "endpoint \<Rightarrow> endpoint \<Rightarrow> bool"

definition AF_INET :: "8 word" where "AF_INET = 2"
definition IPPROTO_TCP :: "8 word" where "IPPROTO_TCP = 6"
definition IPPROTO_UDP :: "8 word" where "IPPROTO_UDP = 17"
definition NLMSG_ERROR :: "16 word" where "NLMSG_ERROR = 2"
definition NLMSG_DONE :: "16 word" where "NLMSG_DONE = 3"
definition SOCK_DIAG_BY_FAMILY :: "16 word" where "SOCK_DIAG_BY_FAMILY = 20"
definition SOCK_DESTROY :: "16 word" where "SOCK_DESTROY = 21"
definition ENOENT :: "32 word" where "ENOENT = 2"
definition EOPNOTSUPP :: "32 word" where "EOPNOTSUPP = 95"

lemmas nl_defs = AF_INET_def IPPROTO_TCP_def IPPROTO_UDP_def NLMSG_ERROR_def NLMSG_DONE_def SOCK_DIAG_BY_FAMILY_def
  SOCK_DESTROY_def ENOENT_def EOPNOTSUPP_def

text \<open>The message: a netlink header, then the request with the id of a socket or zeros.\<close>

definition nl_request :: "bool \<Rightarrow> 32 word \<Rightarrow> 16 word \<Rightarrow> 16 word \<Rightarrow> 8 word \<Rightarrow> 8 word list \<Rightarrow> 8 word list" where
  "nl_request big seq typ flags proto sid =
     PutUint32 big 72 @ PutUint16 big typ @ PutUint16 big flags @ PutUint32 big seq @ replicate 4 0 @
     [AF_INET, proto, 0, 0] @ PutUint32 big 0xffffffff @ take 48 sid @ replicate (48 - length sid) 0"

datatype nl_stop = NlMore | NlDone | NlErrno "32 word" | NlMalformed | NlShort | NlRecv | NlSend

text \<open>One datagram of replies: the data of the messages for \<open>seq\<close>, and why the scan stopped.\<close>

function nl_scan :: "bool \<Rightarrow> 32 word \<Rightarrow> 8 word list \<Rightarrow> 8 word list list \<times> nl_stop" where
  "nl_scan big seq b =
     (if length b < 16 then ([], NlMore)
      else
        (let l = unat (Uint32 big b)
         in if l < 16 \<or> length b < l then ([], NlMalformed)
            else
              (let typ = Uint16 big (drop 4 b); msgSeq = Uint32 big (drop 8 b); body = drop 16 (take l b);
                   next = (l + 3) div 4 * 4; rest = (if next < length b then drop next b else [])
               in if msgSeq \<noteq> seq then nl_scan big seq rest
                  else if typ = NLMSG_DONE then ([], NlDone)
                  else if typ = NLMSG_ERROR then
                    (if length body < 4 then ([], NlShort)
                     else let e = Uint32 big body in ([], if e \<noteq> 0 then NlErrno (- e) else NlDone))
                  else apfst (Cons body) (nl_scan big seq rest))))"
  by auto

termination by (relation "measure (\<lambda>(_, _, b). length b)") (auto simp: Let_def)

declare nl_scan.simps [simp del]

text \<open>What receiving gives: a datagram, or an error (a timeout among them).\<close>

datatype recv_result = Datagram "8 word list" | RecvFails

fun nl_each :: "bool \<Rightarrow> 32 word \<Rightarrow> recv_result list \<Rightarrow> 8 word list list \<times> nl_stop" where
  "nl_each big seq [] = ([], NlRecv)"
| "nl_each big seq (RecvFails # rs) = ([], NlRecv)"
| "nl_each big seq (Datagram b # rs) =
     (case nl_scan big seq b of
        (ms, NlMore) \<Rightarrow> apfst (append ms) (nl_each big seq rs)
      | (ms, why) \<Rightarrow> (ms, why))"

text \<open>The kernel answers a request with a sequence of datagrams, or the request cannot be sent.\<close>

type_synonym 'k kernel = "'k \<Rightarrow> 8 word list \<Rightarrow> 'k \<times> recv_result list option"

record 'k diag_conn =
  dc_kernel :: 'k
  dc_seq :: "32 word"

definition nl_exchange :: "bool \<Rightarrow> 'k kernel \<Rightarrow> 16 word \<Rightarrow> 16 word \<Rightarrow> 8 word \<Rightarrow> 8 word list \<Rightarrow> 'k diag_conn \<Rightarrow>
    'k diag_conn \<times> 8 word list list \<times> nl_stop" where
  "nl_exchange big kern typ flags proto sid c =
     (let seq = dc_seq c + 1; (k, reply) = kern (dc_kernel c) (nl_request big seq typ flags proto sid)
      in (\<lparr>dc_kernel = k, dc_seq = seq\<rparr>, (case reply of None \<Rightarrow> ([], NlSend) | Some rs \<Rightarrow> nl_each big seq rs)))"

section \<open>Finding and destroying sockets\<close>

text \<open>The id of a live socket in a message of a dump, and the endpoints it names.\<close>

definition sock_id :: "8 word \<Rightarrow> 8 word list \<Rightarrow> 8 word list option" where
  "sock_id proto m =
     (if length m < 52 \<or> m ! 0 \<noteq> AF_INET then None
      else if proto = IPPROTO_TCP \<and> m ! 1 \<in> {6, 7, 10} then None
      else Some (take 48 (drop 4 m)))"

definition sock_src :: "8 word list \<Rightarrow> endpoint" where
  "sock_src sid = (take 4 (drop 4 sid), Uint16 True sid)"

definition sock_dst :: "8 word list \<Rightarrow> endpoint" where
  "sock_dst sid = (take 4 (drop 20 sid), Uint16 True (drop 2 sid))"

definition selected_ids :: "sock_match \<Rightarrow> 8 word \<Rightarrow> 8 word list list \<Rightarrow> 8 word list list" where
  "selected_ids sel proto ms = filter (\<lambda>sid. sel (sock_src sid) (sock_dst sid)) (List.map_filter (sock_id proto) ms)"

definition diag_dump :: "bool \<Rightarrow> 'k kernel \<Rightarrow> sock_match \<Rightarrow> 8 word \<Rightarrow> 'k diag_conn \<Rightarrow> 'k diag_conn \<times> 8 word list list \<times> nl_stop" where
  "diag_dump big kern sel proto c =
     (case nl_exchange big kern SOCK_DIAG_BY_FAMILY 0x301 proto [] c of
        (c', ms, why) \<Rightarrow> (c', selected_ids sel proto ms, why))"

definition diag_destroy :: "bool \<Rightarrow> 'k kernel \<Rightarrow> 8 word \<Rightarrow> 8 word list \<Rightarrow> 'k diag_conn \<Rightarrow> 'k diag_conn \<times> nl_stop" where
  "diag_destroy big kern proto sid c =
     (case nl_exchange big kern SOCK_DESTROY 5 proto sid c of (c', _, why) \<Rightarrow> (c', why))"

fun destroy_ids :: "bool \<Rightarrow> 'k kernel \<Rightarrow> 8 word \<Rightarrow> 8 word list list \<Rightarrow> nat \<Rightarrow> 'k diag_conn \<Rightarrow> 'k diag_conn \<times> nat \<times> nl_stop" where
  "destroy_ids big kern proto [] n c = (c, n, NlDone)"
| "destroy_ids big kern proto (sid # sids) n c =
     (case diag_destroy big kern proto sid c of
        (c', why) \<Rightarrow>
          if why = NlDone then destroy_ids big kern proto sids (Suc n) c'
          else if why = NlErrno ENOENT then destroy_ids big kern proto sids n c'
          else (c', n, why))"

fun destroy_protos :: "bool \<Rightarrow> 'k kernel \<Rightarrow> sock_match \<Rightarrow> 8 word list \<Rightarrow> nat \<Rightarrow> 'k diag_conn \<Rightarrow> 'k diag_conn \<times> nat \<times> nl_stop" where
  "destroy_protos big kern sel [] n c = (c, n, NlDone)"
| "destroy_protos big kern sel (proto # protos) n c =
     (case diag_dump big kern sel proto c of
        (c', sids, why) \<Rightarrow>
          if why \<noteq> NlDone then (c', n, why)
          else (case destroy_ids big kern proto sids n c' of
                  (c'', n', why') \<Rightarrow>
                    if why' \<noteq> NlDone then (c'', n', why') else destroy_protos big kern sel protos n' c''))"

definition destroySockets :: "bool \<Rightarrow> 'k kernel \<Rightarrow> sock_match \<Rightarrow> 'k \<Rightarrow> 'k \<times> nat \<times> nl_stop" where
  "destroySockets big kern sel k =
     (case destroy_protos big kern sel [IPPROTO_TCP, IPPROTO_UDP] 0 \<lparr>dc_kernel = k, dc_seq = 0\<rparr> of
        (c, n, why) \<Rightarrow> (dc_kernel c, n, why))"

section \<open>Sockets found under /proc\<close>

definition parse_hex :: "nat \<Rightarrow> string \<Rightarrow> nat option" where
  "parse_hex bits s =
     (if s = [] then None
      else (case those (map hex_val s) of None \<Rightarrow> None
            | Some ds \<Rightarrow> let v = foldl (\<lambda>a d. 16 * a + d) 0 ds in if v < 2 ^ bits then Some v else None))"

definition procNetAddr :: "bool \<Rightarrow> string \<Rightarrow> endpoint option" where
  "procNetAddr big s =
     (case cut '':'' s of None \<Rightarrow> None
      | Some (host, port) \<Rightarrow>
          if length host \<noteq> 8 then None
          else (case (parse_hex 32 host, parse_hex 16 port) of
                  (Some v, Some p) \<Rightarrow> Some (PutUint32 big (of_nat v), of_nat p)
                | _ \<Rightarrow> None))"

definition proc_line_inode :: "bool \<Rightarrow> bool \<Rightarrow> sock_match \<Rightarrow> string \<Rightarrow> string option" where
  "proc_line_inode big tcp sel line =
     (let f = str_fields line
      in if length f < 10 then None
         else if tcp \<and> (case parse_hex 8 (f ! 3) of None \<Rightarrow> True | Some st \<Rightarrow> st \<in> {6, 7, 10}) then None
         else (case (procNetAddr big (f ! 1), procNetAddr big (f ! 2)) of
                 (Some src, Some dst) \<Rightarrow> if sel src dst then Some (f ! 9) else None
               | _ \<Rightarrow> None))"

definition procNetInodes :: "bool \<Rightarrow> string \<Rightarrow> bool \<Rightarrow> sock_match \<Rightarrow> string list" where
  "procNetInodes big table tcp sel =
     List.map_filter (proc_line_inode big tcp sel) (tl (split_on (char_of (10 :: nat)) table))"

text \<open>What the process table shows: the two tables, whether the process can be opened, its descriptors with what they
  link to, and what taking a copy of a descriptor gives; and what shutting the socket behind a descriptor down does to
  the state of the kernel.\<close>

datatype getfd_result = GotFd | BadFd | GetfdFails

record 'k proc_view =
  pv_tcp :: "string option"
  pv_udp :: "string option"
  pv_pidfd :: bool
  pv_fds :: "(string \<times> string option) list option"
  pv_getfd :: "int \<Rightarrow> getfd_result"
  pv_shut :: "int \<Rightarrow> 'k \<Rightarrow> 'k"

definition fd_inode :: "string \<Rightarrow> string option" where
  "fd_inode link =
     (if take 8 link = ''socket:['' then
        (let r = drop 8 link in Some (if r \<noteq> [] \<and> last r = CHR '']'' then butlast r else r))
      else None)"

fun shutdown_fds :: "'k proc_view \<Rightarrow> string list \<Rightarrow> (string \<times> string option) list \<Rightarrow> nat \<Rightarrow> 'k \<Rightarrow> 'k \<times> nat \<times> bool" where
  "shutdown_fds pv inodes [] n k = (k, n, True)"
| "shutdown_fds pv inodes ((name, link) # fds) n k =
     (case Option.bind link fd_inode of
        None \<Rightarrow> shutdown_fds pv inodes fds n k
      | Some ino \<Rightarrow>
          if ino \<notin> set inodes then shutdown_fds pv inodes fds n k
          else (case parse_int name of
                  None \<Rightarrow> shutdown_fds pv inodes fds n k
                | Some target \<Rightarrow>
                    (case pv_getfd pv target of
                       GotFd \<Rightarrow> shutdown_fds pv inodes fds (Suc n) (pv_shut pv target k)
                     | BadFd \<Rightarrow> shutdown_fds pv inodes fds n k
                     | GetfdFails \<Rightarrow> (k, n, False))))"

text \<open>The kernel afterwards, how many sockets were shut down, and whether there was no error.\<close>

definition shutdownProcSockets :: "bool \<Rightarrow> 'k proc_view \<Rightarrow> sock_match \<Rightarrow> 'k \<Rightarrow> 'k \<times> nat \<times> bool" where
  "shutdownProcSockets big pv sel k =
     (case (pv_tcp pv, pv_udp pv) of
        (Some tcp, Some udp) \<Rightarrow>
          let inodes = procNetInodes big tcp True sel @ procNetInodes big udp False sel
          in if inodes = [] then (k, 0, True)
             else if \<not> pv_pidfd pv then (k, 0, False)
             else (case pv_fds pv of None \<Rightarrow> (k, 0, False) | Some fds \<Rightarrow> shutdown_fds pv inodes fds 0 k)
      | _ \<Rightarrow> (k, 0, False))"

section \<open>Cutting\<close>

definition cutSockets :: "bool \<Rightarrow> 'k kernel \<Rightarrow> 'k proc_view \<Rightarrow> nat \<Rightarrow> sock_match \<Rightarrow> 'k \<Rightarrow> 'k \<times> nat \<times> bool" where
  "cutSockets big kern pv pid sel k =
     (case destroySockets big kern sel k of
        (k', n, why) \<Rightarrow>
          if why = NlErrno EOPNOTSUPP \<and> 0 < pid then shutdownProcSockets big pv sel k'
          else (k', n, why = NlDone))"

datatype ip = V4 "8 word list" | V6 string

definition v4_addrs :: "ip list \<Rightarrow> 8 word list list" where
  "v4_addrs addrs = List.map_filter (\<lambda>a. case a of V4 o' \<Rightarrow> Some o' | V6 _ \<Rightarrow> None) addrs"

definition cutLoopbackSockets :: "bool \<Rightarrow> 'k kernel \<Rightarrow> 'k proc_view \<Rightarrow> nat \<Rightarrow> ip list \<Rightarrow> 'k \<Rightarrow> 'k \<times> nat \<times> bool" where
  "cutLoopbackSockets big kern pv pid addrs k =
     (let want = v4_addrs addrs
      in if want = [] then (k, 0, True)
         else cutSockets big kern pv pid (\<lambda>src dst. fst src \<in> set want \<or> fst dst \<in> set want) k)"

definition cutRemoteEndpoints :: "bool \<Rightarrow> 'k kernel \<Rightarrow> 'k proc_view \<Rightarrow> nat \<Rightarrow> (ip \<times> 16 word) list \<Rightarrow> 'k \<Rightarrow> 'k \<times> nat \<times> bool" where
  "cutRemoteEndpoints big kern pv pid eps k =
     (let want = List.map_filter (\<lambda>(a, p). case a of V4 o' \<Rightarrow> Some (o', p) | V6 _ \<Rightarrow> None) eps
      in if want = [] then (k, 0, True)
         else cutSockets big kern pv pid (\<lambda>_ dst. dst \<in> set want) k)"

section \<open>Scanning what was framed\<close>

record nl_message =
  nm_type :: "16 word"
  nm_flags :: "16 word"
  nm_seq :: "32 word"
  nm_body :: "8 word list"

definition nl_pad :: "nat \<Rightarrow> nat" where "nl_pad n = (n + 3) div 4 * 4 - n"

definition nl_frame :: "bool \<Rightarrow> nl_message \<Rightarrow> 8 word list" where
  "nl_frame big m =
     PutUint32 big (of_nat (16 + length (nm_body m))) @ PutUint16 big (nm_type m) @ PutUint16 big (nm_flags m) @
     PutUint32 big (nm_seq m) @ replicate 4 0 @ nm_body m @ replicate (nl_pad (length (nm_body m))) 0"

definition message_ok :: "nl_message \<Rightarrow> bool" where
  "message_ok m \<longleftrightarrow> length (nm_body m) + 19 < 2 ^ 32"

lemma nl_frame_fields:
  assumes "message_ok m"
  shows "unat (Uint32 big (nl_frame big m @ r)) = 16 + length (nm_body m)"
    and "Uint16 big (drop 4 (nl_frame big m @ r)) = nm_type m"
    and "Uint32 big (drop 8 (nl_frame big m @ r)) = nm_seq m"
    and "drop 16 (take (16 + length (nm_body m)) (nl_frame big m @ r)) = nm_body m"
    and "length (nl_frame big m) = (16 + length (nm_body m) + 3) div 4 * 4"
proof -
  have "unat (of_nat (16 + length (nm_body m)) :: 32 word) = 16 + length (nm_body m)"
    using assms by (subst unat_of_nat) (simp add: take_bit_nat_eq_self message_ok_def)
  then show "unat (Uint32 big (nl_frame big m @ r)) = 16 + length (nm_body m)"
    by (simp add: nl_frame_def u32.get_put)
  show "Uint16 big (drop 4 (nl_frame big m @ r)) = nm_type m"
    by (simp add: nl_frame_def u32.length_put u16.get_put)
  show "Uint32 big (drop 8 (nl_frame big m @ r)) = nm_seq m"
    by (simp add: nl_frame_def u32.length_put u16.length_put u32.get_put)
  show "drop 16 (take (16 + length (nm_body m)) (nl_frame big m @ r)) = nm_body m"
    by (simp add: nl_frame_def u32.length_put u16.length_put)
  have "n \<le> (n + 3) div 4 * 4" "16 + (n + 3) div 4 * 4 = (16 + n + 3) div 4 * 4" for n :: nat by presburger+
  then show "length (nl_frame big m) = (16 + length (nm_body m) + 3) div 4 * 4"
    by (simp add: nl_frame_def u32.length_put u16.length_put nl_pad_def)
qed

lemma nl_scan_frame:
  assumes "message_ok m"
  shows "nl_scan big seq (nl_frame big m @ r) =
    (if nm_seq m \<noteq> seq then nl_scan big seq r
     else if nm_type m = NLMSG_DONE then ([], NlDone)
     else if nm_type m = NLMSG_ERROR then
       (if length (nm_body m) < 4 then ([], NlShort)
        else ([], if Uint32 big (nm_body m) \<noteq> 0 then NlErrno (- Uint32 big (nm_body m)) else NlDone))
     else apfst (Cons (nm_body m)) (nl_scan big seq r))"
proof -
  let ?b = "nl_frame big m @ r" and ?l = "16 + length (nm_body m)"
  note f = nl_frame_fields [OF assms, of big]
  have le: "?l \<le> (?l + 3) div 4 * 4" by presburger
  then have long: "\<not> length ?b < 16" "\<not> (?l < 16 \<or> length ?b < ?l)" by (simp_all add: f(5))
  have rest: "(if (?l + 3) div 4 * 4 < length ?b then drop ((?l + 3) div 4 * 4) ?b else []) = r"
    using f(5) by simp
  show ?thesis
    by (subst nl_scan.simps) (simp only: long if_False f(1-4) [of r] Let_def rest)
qed

lemma nl_scan_frames:
  assumes "\<forall>m \<in> set ms. message_ok m \<and> (nm_seq m = seq \<longrightarrow> nm_type m \<notin> {NLMSG_DONE, NLMSG_ERROR})"
  shows "nl_scan big seq (concat (map (nl_frame big) ms) @ r) =
    apfst (append (map nm_body (filter (\<lambda>m. nm_seq m = seq) ms))) (nl_scan big seq r)"
  using assms by (induction ms) (auto simp: nl_scan_frame prod.map_comp apfst_def map_prod_def split: prod.splits)

lemma nl_scan_Nil [simp]: "nl_scan big seq [] = ([], NlMore)"
  by (simp add: nl_scan.simps)

text \<open>The replies to a request are read back from the datagrams of the kernel: however the messages are spread over
  datagrams, the scan yields the data of those that carry the sequence number of the request, in order, up to the end of
  the dump.\<close>

theorem nl_each_frames:
  assumes "\<forall>ms \<in> set (mss @ [ms0]). \<forall>m \<in> set ms. message_ok m \<and> (nm_seq m = seq \<longrightarrow> nm_type m \<notin> {NLMSG_DONE, NLMSG_ERROR})"
    and "message_ok dn" "nm_seq dn = seq" "nm_type dn = NLMSG_DONE"
  shows "nl_each big seq (map (\<lambda>ms. Datagram (concat (map (nl_frame big) ms))) mss @
      Datagram (concat (map (nl_frame big) ms0) @ nl_frame big dn @ r) # later) =
    (map nm_body (filter (\<lambda>m. nm_seq m = seq) (concat mss @ ms0)), NlDone)"
  using assms(1)
proof (induction mss)
  case Nil
  have "nl_scan big seq (concat (map (nl_frame big) ms0) @ nl_frame big dn @ r) = (map nm_body (filter (\<lambda>m. nm_seq m = seq) ms0), NlDone)"
    using Nil assms(2-4) by (simp add: nl_scan_frames nl_scan_frame)
  then show ?case by simp
next
  case (Cons ms mss)
  have "nl_scan big seq (concat (map (nl_frame big) ms)) = (map nm_body (filter (\<lambda>m. nm_seq m = seq) ms), NlMore)"
    using Cons.prems nl_scan_frames [of ms seq big "[]"] by simp
  then show ?case using Cons by simp
qed

lemma nl_each_frames_witness:
  "nl_each False 7 [Datagram (nl_frame False \<lparr>nm_type = 20, nm_flags = 2, nm_seq = 7, nm_body = [1, 2, 3]\<rparr>),
      Datagram (nl_frame False \<lparr>nm_type = 3, nm_flags = 2, nm_seq = 7, nm_body = []\<rparr>)] = ([[1, 2, 3]], NlDone)"
  using nl_each_frames [of "[[\<lparr>nm_type = 20, nm_flags = 2, nm_seq = 7, nm_body = [1, 2, 3]\<rparr>]]" "[]" 7
      "\<lparr>nm_type = 3, nm_flags = 2, nm_seq = 7, nm_body = []\<rparr>" False "[]" "[]"]
  by (simp add: message_ok_def nl_defs)

section \<open>What is destroyed\<close>

text \<open>What may be sent: requests for a dump, and to destroy a socket whose endpoints were asked for.\<close>

definition allowed_request :: "bool \<Rightarrow> sock_match \<Rightarrow> 8 word list \<Rightarrow> bool" where
  "allowed_request big sel req \<longleftrightarrow>
     (\<exists>seq proto. req = nl_request big seq SOCK_DIAG_BY_FAMILY 0x301 proto []) \<or>
     (\<exists>seq proto sid. req = nl_request big seq SOCK_DESTROY 5 proto sid \<and> length sid = 48 \<and> sel (sock_src sid) (sock_dst sid))"

lemma selected_ids_match: "sid \<in> set (selected_ids sel proto ms) \<Longrightarrow> length sid = 48 \<and> sel (sock_src sid) (sock_dst sid)"
  by (auto simp: selected_ids_def map_filter_def sock_id_def split: if_splits)

lemma destroy_ids_keeps:
  assumes "\<And>k req. P k \<Longrightarrow> allowed_request big sel req \<Longrightarrow> P (fst (kern k req))"
    and "\<forall>sid \<in> set sids. length sid = 48 \<and> sel (sock_src sid) (sock_dst sid)" "P (dc_kernel c)"
  shows "P (dc_kernel (fst (destroy_ids big kern proto sids n c)))"
  using assms(2,3)
proof (induction sids arbitrary: n c)
  case (Cons sid sids)
  have "allowed_request big sel (nl_request big (dc_seq c + 1) SOCK_DESTROY 5 proto sid)"
    using Cons.prems by (auto simp: allowed_request_def)
  then have "P (dc_kernel (fst (diag_destroy big kern proto sid c)))"
    using assms(1) [OF Cons.prems(2)] by (simp add: diag_destroy_def nl_exchange_def case_prod_beta Let_def)
  then show ?case using Cons by (auto split: prod.splits)
qed simp

lemma destroy_protos_keeps:
  assumes "\<And>k req. P k \<Longrightarrow> allowed_request big sel req \<Longrightarrow> P (fst (kern k req))" "P (dc_kernel c)"
  shows "P (dc_kernel (fst (destroy_protos big kern sel protos n c)))"
  using assms(2)
proof (induction protos arbitrary: n c)
  case (Cons proto protos)
  obtain c' sids why where d: "diag_dump big kern sel proto c = (c', sids, why)" by (metis prod_cases3)
  have "allowed_request big sel (nl_request big (dc_seq c + 1) SOCK_DIAG_BY_FAMILY 0x301 proto [])"
    by (auto simp: allowed_request_def)
  then have "P (dc_kernel c')"
    using assms(1) [OF Cons.prems] d by (auto simp: diag_dump_def nl_exchange_def case_prod_beta Let_def)
  moreover have "\<forall>sid \<in> set sids. length sid = 48 \<and> sel (sock_src sid) (sock_dst sid)"
    using d selected_ids_match by (auto simp: diag_dump_def case_prod_beta)
  ultimately have "P (dc_kernel (fst (destroy_ids big kern proto sids n c')))"
    using destroy_ids_keeps assms(1) by blast
  then show ?case using Cons.IH d \<open>P (dc_kernel c')\<close> by (auto split: prod.splits)
qed simp

text \<open>Whatever the kernel answers, a cut sends it nothing but dumps and requests to destroy sockets whose endpoints
  match: what these requests preserve, a cut preserves.\<close>

theorem destroySockets_only_matching:
  assumes "\<And>k req. P k \<Longrightarrow> allowed_request big sel req \<Longrightarrow> P (fst (kern k req))" "P k"
  shows "P (fst (destroySockets big kern sel k))"
  using destroy_protos_keeps [of P big sel kern, OF assms(1), of "\<lparr>dc_kernel = k, dc_seq = 0\<rparr>"] assms(2)
  by (simp add: destroySockets_def case_prod_beta del: destroy_protos.simps)

text \<open>A kernel that keeps the requests it was sent.\<close>

definition log_kernel :: "8 word list list kernel" where
  "log_kernel k req = (k @ [req], Some [Datagram (nl_frame False \<lparr>nm_type = 3, nm_flags = 0, nm_seq = of_nat (length k) + 1, nm_body = []\<rparr>)])"

lemma destroySockets_only_matching_witness:
  "\<forall>req \<in> set (fst (destroySockets False log_kernel (\<lambda>src dst. False) [])).
     allowed_request False (\<lambda>src dst. False) req"
  by (rule destroySockets_only_matching [where P = "\<lambda>k. \<forall>req \<in> set k. allowed_request False (\<lambda>src dst. False) req"])
    (auto simp: log_kernel_def)

text \<open>What may be shut down: a descriptor of the process that links to a socket which one of the two tables lists
  between endpoints that were asked for.\<close>

definition listed_socket :: "bool \<Rightarrow> sock_match \<Rightarrow> string \<Rightarrow> string \<Rightarrow> bool" where
  "listed_socket big sel ino table \<longleftrightarrow>
     list_ex (\<lambda>line. let f = str_fields line
       in 10 \<le> length f \<and> f ! 9 = ino \<and>
          (case (procNetAddr big (f ! 1), procNetAddr big (f ! 2)) of (Some src, Some dst) \<Rightarrow> sel src dst | _ \<Rightarrow> False))
     (split_on (char_of (10 :: nat)) table)"

definition allowed_shutdown :: "bool \<Rightarrow> 'k proc_view \<Rightarrow> sock_match \<Rightarrow> int \<Rightarrow> bool" where
  "allowed_shutdown big pv sel fd \<longleftrightarrow>
     (\<exists>fds name link ino. pv_fds pv = Some fds \<and> (name, Some link) \<in> set fds \<and> parse_int name = Some fd \<and> fd_inode link = Some ino \<and>
        ((\<exists>tcp. pv_tcp pv = Some tcp \<and> listed_socket big sel ino tcp) \<or> (\<exists>udp. pv_udp pv = Some udp \<and> listed_socket big sel ino udp)))"

lemma procNetInodes_listed: "ino \<in> set (procNetInodes big table tcp sel) \<Longrightarrow> listed_socket big sel ino table"
proof -
  assume "ino \<in> set (procNetInodes big table tcp sel)"
  then obtain line where l: "line \<in> set (tl (split_on (char_of (10 :: nat)) table))" "proc_line_inode big tcp sel line = Some ino"
    by (auto simp: procNetInodes_def map_filter_set)
  from l(1) have "line \<in> set (split_on (char_of (10 :: nat)) table)" by (cases "split_on (char_of (10 :: nat)) table") auto
  with l(2) show ?thesis
    unfolding listed_socket_def list_ex_iff by (intro bexI [of _ line]) (auto simp: proc_line_inode_def Let_def split: if_splits option.splits)
qed

lemma shutdown_fds_keeps:
  assumes "\<And>k name link ino fd. P k \<Longrightarrow> (name, Some link) \<in> F \<Longrightarrow> parse_int name = Some fd \<Longrightarrow> fd_inode link = Some ino \<Longrightarrow>
      ino \<in> set inodes \<Longrightarrow> P (pv_shut pv fd k)"
    and "set fds \<subseteq> F" "P k"
  shows "P (fst (shutdown_fds pv inodes fds n k))"
  using assms(2,3)
proof (induction fds arbitrary: n k)
  case (Cons x fds)
  obtain name link where x: "x = (name, link)" by (cases x)
  have "P (pv_shut pv fd k)" if "Option.bind link fd_inode = Some ino" "ino \<in> set inodes" "parse_int name = Some fd" for ino fd
    using that assms(1) [OF Cons.prems(2), of name] Cons.prems(1) x by (auto simp: bind_eq_Some_conv)
  then show ?case using Cons by (auto simp: x split: option.split getfd_result.split)
qed simp

text \<open>So what these shutdowns preserve, the fallback preserves.\<close>

lemma shutdownProcSockets_keeps:
  assumes "\<And>k fd. P k \<Longrightarrow> allowed_shutdown big pv sel fd \<Longrightarrow> P (pv_shut pv fd k)" "P k"
  shows "P (fst (shutdownProcSockets big pv sel k))"
proof -
  have "P (fst (shutdown_fds pv (procNetInodes big tcp True sel @ procNetInodes big udp False sel) fds 0 k))"
    if v: "pv_tcp pv = Some tcp" "pv_udp pv = Some udp" "pv_fds pv = Some fds" for tcp udp fds
  proof (rule shutdown_fds_keeps [where P = P and F = "set fds", OF _ subset_refl assms(2)])
    fix k name link ino fd
    assume a: "P k" "(name, Some link) \<in> set fds" "parse_int name = Some fd" "fd_inode link = Some ino"
      "ino \<in> set (procNetInodes big tcp True sel @ procNetInodes big udp False sel)"
    have "listed_socket big sel ino tcp \<or> listed_socket big sel ino udp" using a(5) procNetInodes_listed by auto
    then have "allowed_shutdown big pv sel fd" using v a(2-4) unfolding allowed_shutdown_def by simp blast
    then show "P (pv_shut pv fd k)" using assms(1) \<open>P k\<close> by blast
  qed
  then show ?thesis using assms(2) by (auto simp: shutdownProcSockets_def Let_def split: option.split)
qed

section \<open>Addresses under /proc\<close>

text \<open>What the kernel prints: the address as it lies in memory, read as a number of the machine, and the port.\<close>

definition print_hex :: "nat \<Rightarrow> nat \<Rightarrow> string" where
  "print_hex n v = map (\<lambda>i. upper_hex (v div 16 ^ i mod 16)) (rev [0..<n])"

definition kernel_addr :: "bool \<Rightarrow> endpoint \<Rightarrow> string" where
  "kernel_addr big e = print_hex 8 (unat (Uint32 big (fst e))) @ '':'' @ print_hex 4 (unat (snd e))"

lemma foldl_hex: "foldl (\<lambda>a d. 16 * a + d) a (map (\<lambda>i. v div 16 ^ i mod 16) (rev [0..<n])) = 16 ^ n * a + (v :: nat) mod 16 ^ n"
proof (induction n arbitrary: a)
  case (Suc n)
  have "v mod 16 ^ Suc n = 16 ^ n * (v div 16 ^ n mod 16) + v mod 16 ^ n"
    using mod_mult2_eq [of v "16 ^ n" 16] by (simp add: mult.commute)
  then have "16 ^ n * (16 * a + v div 16 ^ n mod 16) + v mod 16 ^ n = 16 ^ Suc n * a + v mod 16 ^ Suc n"
    by (simp add: algebra_simps)
  then show ?case by (simp add: Suc)
qed simp

lemma parse_print_hex:
  assumes "v < 2 ^ bits" "2 ^ bits = (16 :: nat) ^ n" "0 < n"
  shows "parse_hex bits (print_hex n v) = Some v"
proof -
  have "those (map hex_val (print_hex n v)) = Some (map (\<lambda>i. v div 16 ^ i mod 16) (rev [0..<n]))"
    by (induction n) (simp_all add: print_hex_def)
  moreover have "print_hex n v \<noteq> []" using assms(3) by (simp add: print_hex_def)
  ultimately show ?thesis using foldl_hex [of 0 v n] assms(1,2) by (simp add: parse_hex_def)
qed

lemma word32_bytes:
  assumes "length bs = 4"
  shows "PutUint32 big (Uint32 big bs) = bs"
proof -
  obtain a b c d where bs: "bs = [a, b, c, d]" using assms by (auto simp: numeral_eq_Suc length_Suc_conv)
  have "\<not> bit x (8 + n)" "\<not> bit x (16 + n)" "\<not> bit x (24 + n)" for x :: "8 word" and n
    by (auto dest: bit_imp_le_length)
  then show ?thesis unfolding bs
    by (auto simp: PutUint32_def Uint32_def word_bytes_def word_of_def Let_def upt_rec bit_simps intro!: bit_word_eqI)
qed

lemma print_hex_colon: "CHR '':'' \<notin> set (print_hex n v)"
proof -
  have "\<not> is_alnum (CHR '':'')" by code_simp
  moreover have "is_alnum (upper_hex (v div 16 ^ i mod 16))" for i by (rule upper_hex_alnum) simp
  ultimately show ?thesis by (auto simp: print_hex_def)
qed

text \<open>The addresses of the process tables are read as the kernel prints them, on machines of either byte order.\<close>

theorem procNetAddr_kernel:
  assumes "length (fst e) = 4"
  shows "procNetAddr big (kernel_addr big e) = Some e"
proof -
  have "parse_hex 32 (print_hex 8 (unat (Uint32 big (fst e)))) = Some (unat (Uint32 big (fst e)))"
    using unsigned_less [of "Uint32 big (fst e)"] by (intro parse_print_hex) simp_all
  moreover have "parse_hex 16 (print_hex 4 (unat (snd e))) = Some (unat (snd e))"
    using unsigned_less [of "snd e"] by (intro parse_print_hex) simp_all
  moreover have "cut '':'' (kernel_addr big e) = Some (print_hex 8 (unat (Uint32 big (fst e))), print_hex 4 (unat (snd e)))"
    by (simp add: kernel_addr_def cut_char_Some print_hex_colon)
  moreover have "length (print_hex 8 v) = 8" for v by (simp add: print_hex_def)
  ultimately show ?thesis using word32_bytes [OF assms] by (simp add: procNetAddr_def)
qed

lemma procNetAddr_kernel_witness:
  "procNetAddr False ''0100007F:1F90'' = Some ([127, 0, 0, 1], 8080)"
proof -
  have "kernel_addr False ([127, 0, 0, 1], 8080) = ''0100007F:1F90''"
    by (simp add: kernel_addr_def print_hex_def Uint32_def word_of_def upper_hex_def upt_rec)
  then show ?thesis using procNetAddr_kernel [of "([127, 0, 0, 1], 8080)" False] by simp
qed

end
