(* ===== verification/Netip.thy ===== *)
theory Netip
  imports Url Sha256
begin

text \<open>
  The parts of Go's \<^verbatim>\<open>net/netip\<close> that the program uses: addresses and prefixes, read from text and printed. An IPv6
  address prints with its longest run of zero groups left out, as RFC 5952 has it; what is printed is read back.
\<close>

section \<open>Reading\<close>

datatype ipaddr = IP4 "8 word list" | IP6 "16 word list"

definition parse_v4 :: "string \<Rightarrow> 8 word list option" where
  "parse_v4 s = (if is_ipv4 s then Some (map (\<lambda>p. of_nat (digits_val p)) (split_on (CHR ''.'') s)) else None)"

definition hex_num :: "string \<Rightarrow> nat" where
  "hex_num s = foldl (\<lambda>n c. 16 * n + (case hex_val c of Some v \<Rightarrow> v | None \<Rightarrow> 0)) 0 s"

text \<open>Two groups from the four bytes of an embedded IPv4 address.\<close>

fun v4_groups :: "8 word list \<Rightarrow> 16 word list" where
  "v4_groups (a # b # r) = of_nat (256 * unat a + unat b) # v4_groups r"
| "v4_groups _ = []"

fun v6_values :: "bool \<Rightarrow> string list \<Rightarrow> 16 word list option" where
  "v6_values tail [] = Some []"
| "v6_values tail [s] =
     (if hex_group s then Some [of_nat (hex_num s)] else if tail then map_option v4_groups (parse_v4 s) else None)"
| "v6_values tail (s # t # r) = (if hex_group s then map_option (Cons (of_nat (hex_num s))) (v6_values tail (t # r)) else None)"

text \<open>Two colons stand for at least one group of zeros.\<close>

definition parse_v6 :: "string \<Rightarrow> 16 word list option" where
  "parse_v6 s =
     (case cut ''::'' s of
        None \<Rightarrow> (case v6_values True (v6_fields s) of Some ws \<Rightarrow> if length ws = 8 then Some ws else None | None \<Rightarrow> None)
      | Some (a, b) \<Rightarrow>
          (case (v6_values False (v6_fields a), v6_values True (v6_fields b)) of
             (Some xs, Some ys) \<Rightarrow>
               if length xs + length ys \<le> 7 then Some (xs @ replicate (8 - length xs - length ys) 0 @ ys) else None
           | _ \<Rightarrow> None))"

text \<open>The address and its zone.\<close>

definition ParseAddr :: "string \<Rightarrow> (ipaddr \<times> string) option" where
  "ParseAddr s0 =
     (case parse_v4 s0 of
        Some os \<Rightarrow> Some (IP4 os, [])
      | None \<Rightarrow>
          let (s, zone, ok) = (case cut ''%'' s0 of Some (a, z) \<Rightarrow> (a, z, z \<noteq> []) | None \<Rightarrow> (s0, [], True))
          in if ok then map_option (\<lambda>ws. (IP6 ws, zone)) (parse_v6 s) else None)"

text \<open>\<^verbatim>\<open>net.ParseIP\<close> takes no zone.\<close>

definition ParseIP :: "string \<Rightarrow> ipaddr option" where
  "ParseIP s = (case ParseAddr s of Some (ip, zone) \<Rightarrow> if zone = [] then Some ip else None | None \<Rightarrow> None)"

definition BitLen :: "ipaddr \<Rightarrow> nat" where
  "BitLen a = (case a of IP4 _ \<Rightarrow> 32 | IP6 _ \<Rightarrow> 128)"

type_synonym prefix_addr = "ipaddr \<times> nat"

definition ParsePrefix :: "string \<Rightarrow> prefix_addr option" where
  "ParsePrefix s =
     (case cut_last (CHR ''/'') s of
        None \<Rightarrow> None
      | Some (a, bits) \<Rightarrow>
          (case (ParseAddr a, parse_int bits) of
             (Some (ip, zone), Some n) \<Rightarrow>
               if zone \<noteq> [] \<or> (length bits > 1 \<and> \<not> (is_digit (hd bits) \<and> hd bits \<noteq> CHR ''0'')) \<or> n < 0 \<or> int (BitLen ip) < n
               then None else Some (ip, nat n)
           | _ \<Rightarrow> None))"

section \<open>Printing\<close>

fun hex_str :: "nat \<Rightarrow> string" where
  "hex_str n = (if n < 16 then [hex_digit n] else hex_str (n div 16) @ [hex_digit (n mod 16)])"

declare hex_str.simps [simp del]

definition v4_text :: "8 word list \<Rightarrow> string" where
  "v4_text os = join ''.'' (map (\<lambda>b. nat_str (unat b)) os)"

definition v6_group :: "16 word \<Rightarrow> string" where
  "v6_group w = hex_str (unat w)"

definition zeros_at :: "16 word list \<Rightarrow> nat \<Rightarrow> nat" where
  "zeros_at ws i = length (takeWhile (\<lambda>w. w = 0) (drop i ws))"

text \<open>The first longest run of at least two zero groups, as its start and its length.\<close>

definition longest_run :: "16 word list \<Rightarrow> nat \<times> nat" where
  "longest_run ws =
     fold (\<lambda>i b. if 2 \<le> zeros_at ws i \<and> snd b < zeros_at ws i then (i, zeros_at ws i) else b) [0..<8] (0, 0)"

definition group_bytes :: "16 word \<Rightarrow> 8 word list" where
  "group_bytes w = [of_nat (unat w div 256), of_nat (unat w mod 256)]"

definition v6_text :: "16 word list \<Rightarrow> string" where
  "v6_text ws =
     (if take 5 ws = replicate 5 0 \<and> ws ! 5 = 0xFFFF then ''::ffff:'' @ v4_text (concat (map group_bytes (drop 6 ws)))
      else (case longest_run ws of
              (s, l) \<Rightarrow> if l = 0 then join '':'' (map v6_group ws)
                       else join '':'' (map v6_group (take s ws)) @ ''::'' @ join '':'' (map v6_group (drop (s + l) ws))))"

definition addr_text :: "ipaddr \<Rightarrow> string" where
  "addr_text a = (case a of IP4 os \<Rightarrow> v4_text os | IP6 ws \<Rightarrow> v6_text ws)"

definition prefix_text :: "prefix_addr \<Rightarrow> string" where
  "prefix_text p = addr_text (fst p) @ ''/'' @ nat_str (snd p)"

section \<open>What is printed is read back\<close>

definition addr_ok :: "ipaddr \<Rightarrow> bool" where
  "addr_ok a = (case a of IP4 os \<Rightarrow> length os = 4 | IP6 ws \<Rightarrow> length ws = 8)"

lemma unat8_le: "unat (w :: 8 word) \<le> 255"
  using unsigned_less [where ?'a = nat and w = w] by simp

lemma unat16_lt: "unat (w :: 16 word) < 65536"
  using unsigned_less [where ?'a = nat and w = w] by simp

lemma nat_str_len: "n < 10 ^ k \<Longrightarrow> 0 < k \<Longrightarrow> length (nat_str n) \<le> k"
proof (induction k arbitrary: n)
  case (Suc k)
  show ?case
  proof (cases "n < 10")
    case False
    then have "0 < k" using Suc.prems by (cases k) auto
    moreover have "n div 10 < 10 ^ k" using Suc.prems(1) by (simp add: less_mult_imp_div_less mult.commute)
    ultimately show ?thesis using Suc.IH [of "n div 10"] False by (subst nat_str.simps) simp
  qed (simp add: nat_str.simps [of n])
qed simp

lemma nat_str_lead: "hd (nat_str n) = CHR ''0'' \<Longrightarrow> length (nat_str n) = 1"
proof (cases "n = 0")
  case False
  assume "hd (nat_str n) = CHR ''0''"
  moreover have "hd (nat_str n) \<noteq> CHR ''0''" using nat_str_no_zero False by simp
  ultimately show ?thesis by simp
qed (simp add: nat_str.simps)

lemma nat_str_nonempty: "nat_str n \<noteq> []"
  by (subst nat_str.simps) simp

lemma dec_octet_nat_str: "n \<le> 255 \<Longrightarrow> dec_octet (nat_str n)"
  using nat_str_len [of n 3] nat_str_lead [of n] nat_str_digits [of n] nat_str_nonempty [of n] by (simp add: dec_octet_def)

lemma digits_no: "\<not> is_digit c \<Longrightarrow> c \<notin> set (nat_str n)"
  using nat_str_digits [of n] by (auto simp: list_all_iff)

lemma dot_free [simp]: "CHR ''.'' \<notin> set (nat_str n)"
  by (rule digits_no) (simp add: is_digit_def byte_def)

lemma v4_split: "length os = 4 \<Longrightarrow> split_on (CHR ''.'') (v4_text os) = map (\<lambda>b. nat_str (unat b)) os"
  unfolding v4_text_def by (rule split_on_join) (auto simp: dot_free)

lemma parse_v4_text: "length os = 4 \<Longrightarrow> parse_v4 (v4_text os) = Some os"
proof -
  assume l: "length os = 4"
  have "map (\<lambda>p. of_nat (digits_val p)) (map (\<lambda>b. nat_str (unat b)) os) = os"
    by (simp add: comp_def)
  moreover have "is_ipv4 (v4_text os)"
    using l by (simp add: is_ipv4_def v4_split list_all_iff dec_octet_nat_str unat8_le)
  ultimately show ?thesis using l by (simp add: parse_v4_def v4_split)
qed

lemma set_v4_text: "c \<in> set (v4_text os) \<Longrightarrow> is_digit c \<or> c = CHR ''.''"
  using set_join [of "''.''" "map (\<lambda>b. nat_str (unat b)) os"] digits_no [of c] by (auto simp: v4_text_def)

lemma hex_digit_facts:
  assumes "n < 16"
  shows "hex_val (hex_digit n) = Some n" "hex_digit n \<noteq> CHR '':''" "hex_digit n \<noteq> CHR ''%''" "hex_digit n \<noteq> CHR ''/''"
proof -
  have all: "list_all (\<lambda>d. hex_val (hex_digit d) = Some d \<and> hex_digit d \<noteq> CHR '':'' \<and> hex_digit d \<noteq> CHR ''%'' \<and>
      hex_digit d \<noteq> CHR ''/'') [0..<16]" by code_simp
  have "n \<in> set [0..<16]" using assms by simp
  from all [unfolded list_all_iff, rule_format, OF this]
  show "hex_val (hex_digit n) = Some n" "hex_digit n \<noteq> CHR '':''" "hex_digit n \<noteq> CHR ''%''" "hex_digit n \<noteq> CHR ''/''"
    by blast+
qed

lemma hex_str_facts:
  "hex_str n \<noteq> [] \<and> (\<forall>c \<in> set (hex_str n). \<exists>d < 16. c = hex_digit d) \<and> hex_num (hex_str n) = n"
proof (induction n rule: hex_str.induct)
  case (1 n)
  show ?case
  proof (cases "n < 16")
    case True
    then have "hex_str n = [hex_digit n]" by (simp add: hex_str.simps [of n])
    then show ?thesis using True by (auto simp: hex_num_def hex_digit_facts)
  next
    case False
    then have IH: "hex_str (n div 16) \<noteq> []" "\<forall>c \<in> set (hex_str (n div 16)). \<exists>d < 16. c = hex_digit d" "hex_num (hex_str (n div 16)) = n div 16"
      using "1.IH" by auto
    have u: "hex_str n = hex_str (n div 16) @ [hex_digit (n mod 16)]" using False by (subst hex_str.simps) simp
    have "hex_num (hex_str n) = n" using IH(3) by (simp add: u hex_num_def hex_digit_facts)
    moreover have "\<exists>d < 16. hex_digit (n mod 16) = hex_digit d" by (intro exI [of _ "n mod 16"]) simp
    ultimately show ?thesis using IH by (auto simp: u)
  qed
qed

lemma hex_str_len: "n < 16 ^ k \<Longrightarrow> 0 < k \<Longrightarrow> length (hex_str n) \<le> k"
proof (induction k arbitrary: n)
  case (Suc k)
  show ?case
  proof (cases "n < 16")
    case False
    then have "0 < k" using Suc.prems by (cases k) auto
    moreover have "n div 16 < 16 ^ k" using Suc.prems(1) by (simp add: less_mult_imp_div_less mult.commute)
    ultimately show ?thesis using Suc.IH [of "n div 16"] False by (subst hex_str.simps) simp
  qed (simp add: hex_str.simps [of n])
qed simp

lemma v6_group_facts:
  "hex_group (v6_group w)" "of_nat (hex_num (v6_group w)) = w" "v6_group w \<noteq> []"
  "CHR '':'' \<notin> set (v6_group w)" "CHR ''%'' \<notin> set (v6_group w)"
proof -
  have c: "c \<in> set (v6_group w) \<Longrightarrow> \<exists>d < 16. c = hex_digit d" for c
    using hex_str_facts [of "unat w"] by (simp add: v6_group_def)
  have "length (v6_group w) \<le> 4" using hex_str_len [of "unat w" 4] unat16_lt [of w] by (simp add: v6_group_def)
  moreover have "list_all (\<lambda>c. hex_val c \<noteq> None) (v6_group w)"
    using c hex_digit_facts(1) by (fastforce simp: list_all_iff)
  ultimately show "hex_group (v6_group w)" using hex_str_facts [of "unat w"] by (simp add: hex_group_def v6_group_def)
  show "of_nat (hex_num (v6_group w)) = w" "v6_group w \<noteq> []" using hex_str_facts [of "unat w"] by (simp_all add: v6_group_def)
  show "CHR '':'' \<notin> set (v6_group w)" "CHR ''%'' \<notin> set (v6_group w)" using c hex_digit_facts(2,3) by (metis)+
qed

lemma v6_values_groups: "v6_values tail (map v6_group ws) = Some ws"
proof (induction ws)
  case (Cons w ws)
  then show ?case by (cases ws) (simp_all add: v6_group_facts)
qed simp

lemma join_groups_ne: "ws \<noteq> [] \<Longrightarrow> join '':'' (map v6_group ws) \<noteq> []"
  by (cases ws; cases "tl ws") (auto simp: v6_group_facts)

lemma v6_fields_groups: "v6_fields (join '':'' (map v6_group ws)) = map v6_group ws"
proof (cases "ws = []")
  case False
  then have "split_on (CHR '':'') (join '':'' (map v6_group ws)) = map v6_group ws"
    by (intro split_on_join) (auto simp: v6_group_facts)
  then show ?thesis using join_groups_ne [OF False] by (simp add: v6_fields_def)
qed (simp add: v6_fields_def)

text \<open>Groups joined by colons have no two colons side by side, and do not end in one.\<close>

lemma cut_colons_word: "CHR '':'' \<notin> set a \<Longrightarrow> a \<noteq> [] \<Longrightarrow> cut ''::'' (a @ CHR '':'' # r) =
    (if take 1 r = '':'' then Some (a, drop 1 r) else map_option (\<lambda>(x, y). (a @ CHR '':'' # x, y)) (cut ''::'' r))"
proof (induction a)
  case (Cons c a)
  show ?case
  proof (cases "a = []")
    case True
    then show ?thesis using Cons.prems by (cases r) (auto simp: prefix_def option.map_comp comp_def case_prod_unfold)
  next
    case False
    then have "cut ''::'' ((c # a) @ CHR '':'' # r) = map_option (\<lambda>(x, y). (c # x, y)) (cut ''::'' (a @ CHR '':'' # r))"
      using Cons.prems by (auto simp: prefix_def)
    also have "\<dots> = (if take 1 r = '':'' then Some (c # a, drop 1 r)
        else map_option (\<lambda>(x, y). (c # a @ CHR '':'' # x, y)) (cut ''::'' r))"
      using Cons False by (auto simp: option.map_comp comp_def case_prod_unfold)
    finally show ?thesis by simp
  qed
qed simp

lemma cut_groups_None: "ws \<noteq> [] \<Longrightarrow> cut ''::'' (join '':'' (map v6_group ws)) = None"
proof (induction ws rule: induct_list012)
  case (2 w)
  then show ?case by (simp add: cut_absent v6_group_facts)
next
  case (3 v w ws)
  have "take 1 (join '':'' (map v6_group (w # ws))) \<noteq> '':''"
    using v6_group_facts(3,4) [of w] by (cases ws; cases "v6_group w") auto
  then show ?case using 3 cut_colons_word [OF v6_group_facts(4,3), of v "join '':'' (map v6_group (w # ws))"] by simp
qed simp

lemma cut_groups_Some: "cut ''::'' (join '':'' (map v6_group ws) @ ''::'' @ r) = Some (join '':'' (map v6_group ws), r)"
proof (induction ws rule: induct_list012)
  case 1
  then show ?case by (simp add: prefix_def)
next
  case (2 w)
  then show ?case using cut_colons_word [OF v6_group_facts(4,3), of w "'':'' @ r"] by simp
next
  case (3 v w ws)
  let ?r = "join '':'' (map v6_group (w # ws)) @ ''::'' @ r"
  have "take 1 ?r \<noteq> '':''" using v6_group_facts(3,4) [of w] by (cases ws; cases "v6_group w") auto
  then show ?case using 3 cut_colons_word [OF v6_group_facts(4,3), of v ?r] by simp
qed

lemma longest_run_facts:
  assumes "longest_run ws = (s, l)" "length ws = 8"
  shows "s + l \<le> 8 \<and> take l (drop s ws) = replicate l 0"
proof -
  have z: "zeros_at ws i + i \<le> 8 \<and> take (zeros_at ws i) (drop i ws) = replicate (zeros_at ws i) 0" if "i \<le> 8" for i
  proof -
    have "zeros_at ws i \<le> 8 - i"
      using length_takeWhile_le [of "\<lambda>w. w = 0" "drop i ws"] assms(2) unfolding zeros_at_def by simp
    moreover have t: "take (zeros_at ws i) (drop i ws) = takeWhile (\<lambda>w. w = 0) (drop i ws)"
      unfolding zeros_at_def by (rule takeWhile_eq_take [symmetric])
    moreover have "takeWhile (\<lambda>w. w = 0) (drop i ws) = replicate (zeros_at ws i) 0"
      by (rule replicate_eqI) (auto simp: zeros_at_def dest: set_takeWhileD)
    ultimately show ?thesis using that by (simp only:) simp
  qed
  have "(\<lambda>b. fst b + snd b \<le> 8 \<and> take (snd b) (drop (fst b) ws) = replicate (snd b) 0)
      (fold (\<lambda>i b. if 2 \<le> zeros_at ws i \<and> snd b < zeros_at ws i then (i, zeros_at ws i) else b) is (0, 0))"
    if "\<forall>i \<in> set is. i \<le> 8" for "is"
    using that by (induction "is" rule: rev_induct) (use z in \<open>auto simp: add.commute\<close>)
  from this [of "[0..<8]"] show ?thesis using assms(1) by (simp add: longest_run_def)
qed

lemma v4_no_colon: "CHR '':'' \<notin> set (v4_text os)"
  using set_v4_text [of "CHR '':''" os] by (auto simp: is_digit_def byte_def)

lemma v4_groups_bytes: "v4_groups (concat (map group_bytes ws)) = ws"
proof (induction ws)
  case (Cons w ws)
  have "unat w div 256 < 256" using unat16_lt [of w] by (simp add: less_mult_imp_div_less)
  then have "of_nat (256 * unat (of_nat (unat w div 256) :: 8 word) + unat (of_nat (unat w mod 256) :: 8 word)) = w"
    by (simp add: unat_of_nat)
  then show ?case using Cons by (simp add: group_bytes_def)
qed simp

lemma length_group_bytes: "length (concat (map group_bytes ws)) = 2 * length ws"
  by (induction ws) (simp_all add: group_bytes_def)

lemma v4_dot:
  assumes "length os = 4"
  shows "\<not> hex_group (v4_text os)"
proof
  assume h: "hex_group (v4_text os)"
  have "CHR ''.'' \<in> set (v4_text os)"
  proof (rule ccontr)
    assume "CHR ''.'' \<notin> set (v4_text os)"
    then show False using v4_split [OF assms] split_on_absent [of "CHR ''.''" "v4_text os"] assms
      by (metis length_map length_Cons list.size(3) numeral_eq_one_iff One_nat_def semiring_norm(83))
  qed
  then have "hex_val (CHR ''.'') \<noteq> None" using h by (simp add: hex_group_def list_all_iff)
  then show False by (simp add: hex_val_def is_digit_def byte_def)
qed

lemma v6_values_mapped:
  assumes "length os = 4"
  shows "v6_values True [''ffff'', v4_text os] = Some (0xFFFF # v4_groups os)"
proof -
  have "hex_group ''ffff''" by (simp add: hex_group_def hex_val_def is_digit_def byte_def)
  moreover have "hex_num ''ffff'' = 65535" by (simp add: hex_num_def hex_val_def is_digit_def byte_def)
  ultimately show ?thesis using v4_dot [OF assms] by (simp add: parse_v4_text [OF assms])
qed

lemma parse_v6_mapped:
  assumes "length ws = 8" "take 5 ws = replicate 5 0" "ws ! 5 = 0xFFFF"
  shows "parse_v6 (''::ffff:'' @ v4_text (concat (map group_bytes (drop 6 ws)))) = Some ws"
proof -
  define os where "os = concat (map group_bytes (drop 6 ws))"
  have os: "length os = 4" using assms by (simp add: os_def length_group_bytes)
  have f: "v6_fields (''ffff:'' @ v4_text os) = [''ffff'', v4_text os]"
    using split_on_append [of "CHR '':''" "''ffff''"] split_on_absent [OF v4_no_colon] by (simp add: v6_fields_def)
  have c: "cut ''::'' (''::ffff:'' @ v4_text os) = Some ([], ''ffff:'' @ v4_text os)" by (simp add: prefix_def)
  have e: "v6_fields [] = []" by (simp add: v6_fields_def)
  have g: "v4_groups os = drop 6 ws" by (simp add: os_def v4_groups_bytes)
  have l: "length (0xFFFF # drop 6 ws) = 3" using assms(1) by simp
  have "parse_v6 (''::ffff:'' @ v4_text os) = Some (replicate 5 0 @ 0xFFFF # drop 6 ws)"
    unfolding parse_v6_def c
    by (simp only: option.case prod.case f e v6_values.simps(1) v6_values_mapped [OF os] g l) simp
  moreover have "replicate 5 0 @ 0xFFFF # drop 6 ws = ws" using assms id_take_nth_drop [of 5 ws] by simp
  ultimately show ?thesis by (simp add: os_def)
qed

lemma parse_v6_text:
  assumes "length ws = 8"
  shows "parse_v6 (v6_text ws) = Some ws"
proof (cases "take 5 ws = replicate 5 0 \<and> ws ! 5 = 0xFFFF")
  case True
  then show ?thesis using parse_v6_mapped [OF assms] by (simp add: v6_text_def)
next
  case False
  obtain s l where r: "longest_run ws = (s, l)" by fastforce
  note f = longest_run_facts [OF r assms]
  show ?thesis
  proof (cases "l = 0")
    case True
    then have "v6_text ws = join '':'' (map v6_group ws)" using False r by (auto simp: v6_text_def)
    moreover have "ws \<noteq> []" using assms by auto
    ultimately show ?thesis using assms by (simp add: parse_v6_def cut_groups_None v6_fields_groups v6_values_groups)
  next
    case l: False
    have eq: "take s ws @ replicate l 0 @ drop (s + l) ws = ws"
      using f by (metis append_take_drop_id drop_drop add.commute)
    have shown: "v6_text ws = join '':'' (map v6_group (take s ws)) @ ''::'' @ join '':'' (map v6_group (drop (s + l) ws))"
      using False r l by (auto simp: v6_text_def)
    have len: "length (take s ws) = s" "length (drop (s + l) ws) = 8 - s - l" "s + (8 - s - l) \<le> 7" "8 - s - (8 - s - l) = l"
      using f assms l by auto
    show ?thesis
      unfolding parse_v6_def shown cut_groups_Some
      by (simp only: option.case prod.case v6_fields_groups v6_values_groups len eq if_True)
  qed
qed

lemma v6_text_chars: "c \<in> set (v6_text ws) \<Longrightarrow> is_digit c \<or> c \<in> set ''.:f'' \<or> (\<exists>w. c \<in> set (v6_group w))"
  using set_join [of "'':''" "map v6_group ws"] set_v4_text [of c]
  by (auto simp: v6_text_def Let_def split: if_splits prod.splits dest!: subsetD [OF set_join])

lemma v6_text_colon: "length ws = 8 \<Longrightarrow> CHR '':'' \<in> set (v6_text ws)"
proof (cases "take 5 ws = replicate 5 0 \<and> ws ! 5 = 0xFFFF")
  case False
  assume l: "length ws = 8"
  then obtain a b r where "ws = a # b # r" by (cases ws; cases "tl ws") auto
  then have "CHR '':'' \<in> set (join '':'' (map v6_group ws))" by simp
  moreover obtain s l' where "longest_run ws = (s, l')" by fastforce
  ultimately show ?thesis using False by (auto simp: v6_text_def)
qed (simp add: v6_text_def)

lemma v4_chars: "is_ipv4 s \<Longrightarrow> c \<in> set s \<Longrightarrow> is_digit c \<or> c = CHR ''.''"
  using set_split_cover [of c s "CHR ''.''"] by (auto simp: is_ipv4_def list_all_iff dec_octet_def Let_def)

lemma ParseAddr_text:
  assumes "addr_ok a"
  shows "ParseAddr (addr_text a) = Some (a, [])"
proof (cases a)
  case (IP4 os)
  then show ?thesis using assms by (simp add: ParseAddr_def addr_text_def addr_ok_def parse_v4_text)
next
  case (IP6 ws)
  then have l: "length ws = 8" using assms by (simp add: addr_ok_def)
  have "parse_v4 (v6_text ws) = None"
    using v4_chars [of "v6_text ws" "CHR '':''"] v6_text_colon [OF l] by (auto simp: parse_v4_def is_digit_def byte_def)
  moreover have "CHR ''%'' \<notin> set (v6_text ws)"
    using v6_text_chars [of "CHR ''%''" ws] v6_group_facts(5) by (auto simp: is_digit_def byte_def)
  then have "cut ''%'' (v6_text ws) = None" by (simp add: cut_char_None)
  ultimately show ?thesis by (simp add: IP6 ParseAddr_def addr_text_def parse_v6_text [OF l])
qed

theorem ParsePrefix_text:
  assumes "addr_ok (fst p)" "snd p \<le> BitLen (fst p)"
  shows "ParsePrefix (prefix_text p) = Some p"
proof -
  have "CHR ''/'' \<notin> set (nat_str (snd p))" by (rule digits_no) (simp add: is_digit_def byte_def)
  then have "cut_last (CHR ''/'') (prefix_text p) = Some (addr_text (fst p), nat_str (snd p))"
    by (simp add: prefix_text_def cut_last_append)
  moreover have "parse_int (nat_str (snd p)) = Some (int (snd p))"
    using parse_int_itoa [of "int (snd p)"] assms(2) by (auto simp: itoa_def BitLen_def split: ipaddr.splits)
  moreover have "length (nat_str (snd p)) > 1 \<longrightarrow> is_digit (hd (nat_str (snd p))) \<and> hd (nat_str (snd p)) \<noteq> CHR ''0''"
    using nat_str_lead [of "snd p"] nat_str_digits [of "snd p"] nat_str_nonempty [of "snd p"] by (cases "nat_str (snd p)") auto
  ultimately show ?thesis using assms ParseAddr_text [OF assms(1)] by (auto simp: ParsePrefix_def)
qed

end
