(* ===== verification/Cuts.thy ===== *)
theory Cuts
  imports Renames Sock_Diag Netip
begin

text \<open>
  Closing connections that traffic should leave: those of a master whose dialer changed (\<^verbatim>\<open>daemon/sockcut.go\<close>), of a node of
  an agile pool that went down and of a node that is no longer pinned (\<^verbatim>\<open>daemon/membercut.go\<close>); and what each master
  routes to now (\<^verbatim>\<open>daemon/winner.go\<close>), read from the text that the api prints (\<^verbatim>\<open>core/xray/observatory.go\<close>).
\<close>

section \<open>Masters that moved\<close>

definition key_of :: "slot list \<Rightarrow> (string, string) dict" where
  "key_of slots = fold (\<lambda>s m. fold (\<lambda>name. dput name (s_Key s)) (SlotMasters s) m) slots []"

definition movedMasters :: "slot list \<Rightarrow> slot list \<Rightarrow> string list" where
  "movedMasters old cur = map fst (filter (\<lambda>(name, key). map_of (key_of cur) name \<noteq> Some key) (key_of old))"

text \<open>What a cut works with: byte order, kernel, process table, process id, and what a host that is not an IPv4 address
  resolves to.\<close>

record 'k cutter =
  ct_big :: bool
  ct_kernel :: "'k kernel"
  ct_proc :: "'k proc_view"
  ct_pid :: nat
  ct_lookup :: "string \<Rightarrow> ip list"

definition cutMovedMasters :: "'k cutter \<Rightarrow> slot list \<Rightarrow> slot list \<Rightarrow> 'k \<Rightarrow> 'k \<times> nat \<times> bool" where
  "cutMovedMasters ct old cur k =
     (let moved = movedMasters old cur
      in if moved = [] then (k, 0, True)
         else cutLoopbackSockets (ct_big ct) (ct_kernel ct) (ct_proc ct) (ct_pid ct)
                (map V4 (List.map_filter (\<lambda>name. parse_v4 (DialerSourceAddr name)) moved)) k)"

section \<open>Members that should be left\<close>

definition resolve_host :: "'k cutter \<Rightarrow> string \<Rightarrow> ip list" where
  "resolve_host ct host = (case parse_v4 host of Some o' \<Rightarrow> [V4 o'] | None \<Rightarrow> ct_lookup ct host)"

definition member_endpoints :: "'k cutter \<Rightarrow> slot_member \<Rightarrow> (ip \<times> 16 word) list" where
  "member_endpoints ct m =
     (case OutboundEndpoint (m_Outbound m) of None \<Rightarrow> []
      | Some (host, port) \<Rightarrow> map (\<lambda>a. (a, of_int port)) (resolve_host ct host))"

definition cut_endpoints :: "'k cutter \<Rightarrow> slot_member list \<Rightarrow> slot_member list \<Rightarrow> (ip \<times> 16 word) list" where
  "cut_endpoints ct gone keep =
     (let live = concat (map (member_endpoints ct) keep)
      in concat (map (\<lambda>m. filter (\<lambda>ep. ep \<notin> set live) (member_endpoints ct m)) gone))"

definition cutMembers :: "'k cutter \<Rightarrow> slot_member list \<Rightarrow> slot_member list \<Rightarrow> 'k \<Rightarrow> 'k \<times> nat \<times> bool" where
  "cutMembers ct gone keep k =
     (if gone = [] \<or> cut_endpoints ct gone keep = [] then (k, 0, True)
      else cutRemoteEndpoints (ct_big ct) (ct_kernel ct) (ct_proc ct) (ct_pid ct) (cut_endpoints ct gone keep) k)"

definition member_alive :: "(string, node_status) dict \<Rightarrow> slot \<Rightarrow> slot_member \<Rightarrow> bool" where
  "member_alive byTag sl m = (case map_of byTag (SlotMemberTag (s_Index sl) (m_Key m)) of Some st \<Rightarrow> st_Alive st | None \<Rightarrow> False)"

definition down_keys :: "scores \<Rightarrow> slot \<Rightarrow> string list" where
  "down_keys sc sl = (if Agile sl then filter (\<lambda>k. k \<in> PickedKeys sl) (wentDown sc sl) else [])"

definition dead_members :: "scores \<Rightarrow> slot list \<Rightarrow> slot_member list" where
  "dead_members sc slots = concat (map (\<lambda>sl. filter (\<lambda>m. m_Key m \<in> set (down_keys sc sl)) (s_Members sl)) slots)"

definition live_members :: "scores \<Rightarrow> (string, node_status) dict \<Rightarrow> slot list \<Rightarrow> slot_member list" where
  "live_members sc byTag slots =
     concat (map (\<lambda>sl. filter (\<lambda>m. m_Key m \<notin> set (down_keys sc sl) \<and> member_alive byTag sl m) (s_Members sl)) slots)"

definition cutDeadMembers :: "'k cutter \<Rightarrow> scores \<Rightarrow> slot list \<Rightarrow> (string, node_status) dict \<Rightarrow> 'k \<Rightarrow> 'k \<times> nat \<times> bool" where
  "cutDeadMembers ct sc slots byTag k = cutMembers ct (dead_members sc slots) (live_members sc byTag slots) k"

text \<open>Pairs of a manual slot and what it was before.\<close>

definition manual_slots :: "slot list \<Rightarrow> slot list \<Rightarrow> (slot \<times> slot) list" where
  "manual_slots old cur =
     (let prev = fold (\<lambda>sl. dput (s_Key sl) sl) old []
      in List.map_filter (\<lambda>sl. if Manual sl then map_option (\<lambda>was. (was, sl)) (map_of prev (s_Key sl)) else None) cur)"

definition unpinned_members :: "slot list \<Rightarrow> slot list \<Rightarrow> slot_member list" where
  "unpinned_members old cur =
     concat (map (\<lambda>(was, sl). filter (\<lambda>m. m_Key m \<in> ActiveKeys was \<and> m_Key m \<notin> set (s_Pinned sl)) (s_Members was)) (manual_slots old cur))"

definition pinned_members :: "slot list \<Rightarrow> slot list \<Rightarrow> slot_member list" where
  "pinned_members old cur =
     concat (map (\<lambda>(was, sl). filter (\<lambda>m. m_Key m \<in> set (s_Pinned sl)) (s_Members sl)) (manual_slots old cur))"

definition cutUnpinned :: "'k cutter \<Rightarrow> slot list \<Rightarrow> slot list \<Rightarrow> 'k \<Rightarrow> 'k \<times> nat \<times> bool" where
  "cutUnpinned ct old cur k = cutMembers ct (unpinned_members old cur) (pinned_members old cur) k"

section \<open>Winners\<close>

text \<open>A member tag at the front of a text: \<^verbatim>\<open>slot\<close>, digits, \<^verbatim>\<open>-out-\<close> and the characters of a key, as many as there are.\<close>

definition tag_prefix :: "string \<Rightarrow> (string \<times> string) option" where
  "tag_prefix s =
     (if take 4 s \<noteq> ''slot'' then None
      else let ds = takeWhile is_digit (drop 4 s); r = dropWhile is_digit (drop 4 s)
           in if ds = [] \<or> take 5 r \<noteq> ''-out-'' then None
              else let key = takeWhile tag_char (drop 5 r)
                   in if key = [] then None else Some (''slot'' @ ds @ ''-out-'' @ key, dropWhile tag_char (drop 5 r)))"

lemma tag_prefix_shorter:
  assumes "tag_prefix s = Some (tag, rest)"
  shows "length rest < length s"
proof -
  have "length rest \<le> length s - 4"
    using assms length_dropWhile_le [of tag_char "drop 5 (dropWhile is_digit (drop 4 s))"] length_dropWhile_le [of is_digit "drop 4 s"]
    by (auto simp: tag_prefix_def Let_def split: if_splits)
  moreover have "s \<noteq> []" using assms by (auto simp: tag_prefix_def)
  ultimately show ?thesis by (cases s) auto
qed

function find_tags :: "string \<Rightarrow> string list" where
  "find_tags [] = []"
| "find_tags (c # s) =
     (case tag_prefix (c # s) of
        Some (tag, rest) \<Rightarrow> tag # find_tags rest
      | None \<Rightarrow> find_tags s)"
  by pat_completeness auto

termination by (relation "measure length") (auto dest: tag_prefix_shorter)

definition ParseBalancerSelected :: "string \<Rightarrow> string list" where
  "ParseBalancerSelected text = keep_first id [] (find_tags text)"

definition memberName :: "db \<Rightarrow> string \<Rightarrow> string" where
  "memberName d key = (if take 5 key = ''xray-'' then drop 5 key else NodeNameByFingerprint d key)"

record winner =
  wn_Master :: string
  wn_Node :: string
  wn_Nodes :: "string list"
  wn_Tag :: string
  wn_Members :: nat
  wn_Alive :: int

definition member_names :: "db \<Rightarrow> slot \<Rightarrow> (string, string) dict" where
  "member_names d sl = fold (\<lambda>m. dput (SlotMemberTag (s_Index sl) (m_Key m)) (memberName d (m_Key m))) (s_Members sl) []"

definition dead_tag :: "(string, node_status) dict option \<Rightarrow> string \<Rightarrow> bool" where
  "dead_tag health tag =
     (case health of None \<Rightarrow> False | Some h \<Rightarrow> (case map_of h tag of Some st \<Rightarrow> status_dead st | None \<Rightarrow> False))"

text \<open>The tags to show for a master: those its balancer selects that are still members, without the dead ones when the
  balancer is ranked; the spare when none is left.\<close>

definition winner_tags :: "(string, string) dict \<Rightarrow> (string, node_status) dict option \<Rightarrow> slot \<Rightarrow> string \<Rightarrow> string list \<Rightarrow> string list" where
  "winner_tags names health sl master selected =
     (let pick = PickOf sl master; ranked = p_Picked pick \<noteq> [];
          tags = filter (\<lambda>tag. map_of names tag \<noteq> None \<and> \<not> (ranked \<and> dead_tag health tag)) selected
      in if ranked \<and> tags = [] \<and> ActiveCount pick < length (p_Picked pick)
         then (let spare = SlotMemberTag (s_Index sl) (p_Picked pick ! ActiveCount pick)
               in if dget_or [] names spare \<noteq> [] then [spare] else [])
         else tags)"

definition winner_alive :: "(string, string) dict \<Rightarrow> (string, node_status) dict option \<Rightarrow> int" where
  "winner_alive names health =
     (case health of None \<Rightarrow> -1
      | Some h \<Rightarrow> int (length (filter (\<lambda>(tag, _). case map_of h tag of Some st \<Rightarrow> st_Alive st | None \<Rightarrow> False) names)))"

definition winner_of :: "db \<Rightarrow> (string, node_status) dict option \<Rightarrow> (string \<Rightarrow> string) \<Rightarrow> slot \<Rightarrow> string \<Rightarrow> winner" where
  "winner_of d health raw sl master =
     (let names = member_names d sl;
          tags = winner_tags names health sl master (ParseBalancerSelected (raw (SlotBalTag (s_Index sl) master)));
          nodes = map (dget_or [] names) tags
      in \<lparr>wn_Master = master, wn_Node = (if tags = [] then [] else hd nodes), wn_Nodes = nodes,
          wn_Tag = (if tags = [] then [] else hd tags), wn_Members = length (s_Members sl), wn_Alive = winner_alive names health\<rparr>)"

text \<open>What the api prints for each balancer, or an error; \<open>None\<close> is the error of the whole query.\<close>

definition Winners :: "db \<Rightarrow> bool \<Rightarrow> slot list \<Rightarrow> (string \<Rightarrow> string option) \<Rightarrow> (string, node_status) dict option \<Rightarrow> winner list option" where
  "Winners d started slots raw health =
     (if \<not> started \<or> slots = [] then Some []
      else if list_ex (\<lambda>sl. list_ex (\<lambda>master. raw (SlotBalTag (s_Index sl) master) = None) (SlotMasters sl)) slots then None
      else Some (sort_key wn_Master
        (concat (map (\<lambda>sl. map (winner_of d health (\<lambda>tag. case raw tag of Some t \<Rightarrow> t | None \<Rightarrow> []) sl) (SlotMasters sl)) slots))))"

section \<open>Only what should be cut is cut\<close>

text \<open>What a cut may do to the kernel's sockets: send it a request for sockets between endpoints that match, or shut
  down such a socket of the process. What these steps preserve is preserved by the whole cut.\<close>

definition cut_steps_keep :: "bool \<Rightarrow> 'k kernel \<Rightarrow> 'k proc_view \<Rightarrow> sock_match \<Rightarrow> ('k \<Rightarrow> bool) \<Rightarrow> bool" where
  "cut_steps_keep big kern pv sel P \<longleftrightarrow>
     (\<forall>k req. P k \<longrightarrow> allowed_request big sel req \<longrightarrow> P (fst (kern k req))) \<and>
     (\<forall>k fd. P k \<longrightarrow> allowed_shutdown big pv sel fd \<longrightarrow> P (pv_shut pv fd k))"

lemma cutSockets_keeps:
  assumes "cut_steps_keep big kern pv sel P" "P k"
  shows "P (fst (cutSockets big kern pv pid sel k))"
proof -
  obtain k' n why where d: "destroySockets big kern sel k = (k', n, why)" by (metis prod_cases3)
  then have "P k'"
    using assms destroy_protos_keeps [of P big sel kern "\<lparr>dc_kernel = k, dc_seq = 0\<rparr>"]
    by (auto simp: cut_steps_keep_def destroySockets_def case_prod_beta simp del: destroy_protos.simps)
  then show ?thesis
    using assms(1) shutdownProcSockets_keeps [of P big pv sel k'] by (simp add: cutSockets_def d cut_steps_keep_def)
qed

lemma allowed_request_mono: "allowed_request big sel req \<Longrightarrow> (\<And>s d. sel s d \<Longrightarrow> sel' s d) \<Longrightarrow> allowed_request big sel' req"
  unfolding allowed_request_def by blast

lemma listed_socket_mono: "listed_socket big sel ino t \<Longrightarrow> (\<And>s d. sel s d \<Longrightarrow> sel' s d) \<Longrightarrow> listed_socket big sel' ino t"
proof -
  assume a: "listed_socket big sel ino t" and m: "\<And>s d. sel s d \<Longrightarrow> sel' s d"
  then obtain line where l: "line \<in> set (split_on (char_of (10 :: nat)) t)" "10 \<le> length (str_fields line)" "str_fields line ! 9 = ino"
    "case (procNetAddr big (str_fields line ! 1), procNetAddr big (str_fields line ! 2)) of (Some src, Some dst) \<Rightarrow> sel src dst | _ \<Rightarrow> False"
    unfolding listed_socket_def list_ex_iff Let_def by blast
  then obtain src dst where "procNetAddr big (str_fields line ! 1) = Some src" "procNetAddr big (str_fields line ! 2) = Some dst" "sel src dst"
    by (auto split: option.splits)
  with l m show ?thesis unfolding listed_socket_def list_ex_iff Let_def by (intro bexI [of _ line]) auto
qed

lemma allowed_shutdown_mono: "allowed_shutdown big pv sel fd \<Longrightarrow> (\<And>s d. sel s d \<Longrightarrow> sel' s d) \<Longrightarrow> allowed_shutdown big pv sel' fd"
proof -
  assume a: "allowed_shutdown big pv sel fd" and m: "\<And>s d. sel s d \<Longrightarrow> sel' s d"
  have l: "listed_socket big sel ino t \<Longrightarrow> listed_socket big sel' ino t" for ino t by (erule listed_socket_mono) (rule m)
  from a show ?thesis unfolding allowed_shutdown_def by (elim exE conjE disjE) (blast dest: l)+
qed

lemma cut_steps_mono:
  "cut_steps_keep big kern pv sel' P \<Longrightarrow> (\<And>s d. sel s d \<Longrightarrow> sel' s d) \<Longrightarrow> cut_steps_keep big kern pv sel P"
proof -
  assume k: "cut_steps_keep big kern pv sel' P" and m: "\<And>s d. sel s d \<Longrightarrow> sel' s d"
  have "allowed_request big sel req \<Longrightarrow> allowed_request big sel' req" for req by (erule allowed_request_mono) (rule m)
  moreover have "allowed_shutdown big pv sel fd \<Longrightarrow> allowed_shutdown big pv sel' fd" for fd by (erule allowed_shutdown_mono) (rule m)
  ultimately show ?thesis using k unfolding cut_steps_keep_def by simp
qed

lemma v4_addrs_V4 [simp]: "v4_addrs (map V4 os) = os"
  by (induction os) (simp_all add: v4_addrs_def map_filter_def)

text \<open>The sockets of a master that moved: one end is the loopback address that its dialer leaves from.\<close>

definition moved_socket :: "slot list \<Rightarrow> slot list \<Rightarrow> sock_match" where
  "moved_socket old cur = (\<lambda>src dst. \<exists>m \<in> set (movedMasters old cur).
     parse_v4 (DialerSourceAddr m) = Some (fst src) \<or> parse_v4 (DialerSourceAddr m) = Some (fst dst))"

text \<open>When dialers change, nothing but sockets of masters that moved is destroyed or shut down: whatever such steps
  preserve of the kernel, the cut preserves.\<close>

theorem cut_only_moved_masters:
  assumes "cut_steps_keep (ct_big ct) (ct_kernel ct) (ct_proc ct) (moved_socket old cur) P" "P k"
  shows "P (fst (cutMovedMasters ct old cur k))"
proof -
  let ?want = "List.map_filter (\<lambda>name. parse_v4 (DialerSourceAddr name)) (movedMasters old cur)"
  have sel: "moved_socket old cur s d" if "fst s \<in> set ?want \<or> fst d \<in> set ?want" for s d
    using that by (auto simp: moved_socket_def map_filter_def)
  have "P (fst (cutSockets (ct_big ct) (ct_kernel ct) (ct_proc ct) (ct_pid ct) (\<lambda>src dst. fst src \<in> set ?want \<or> fst dst \<in> set ?want) k))"
    by (rule cutSockets_keeps [OF cut_steps_mono [OF assms(1)] assms(2)]) (rule sel)
  then show ?thesis using assms(2) by (simp add: cutMovedMasters_def cutLoopbackSockets_def Let_def)
qed

lemma cut_endpoints_iff:
  "ep \<in> set (cut_endpoints ct gone keep) \<longleftrightarrow>
     (\<exists>m \<in> set gone. ep \<in> set (member_endpoints ct m)) \<and> (\<forall>m \<in> set keep. ep \<notin> set (member_endpoints ct m))"
  by (auto simp: cut_endpoints_def Let_def)

text \<open>The sockets to a server of \<open>gone\<close> that no member of \<open>keep\<close> uses.\<close>

definition gone_socket :: "'k cutter \<Rightarrow> slot_member list \<Rightarrow> slot_member list \<Rightarrow> sock_match" where
  "gone_socket ct gone keep = (\<lambda>_ dst. \<exists>m \<in> set gone. (V4 (fst dst), snd dst) \<in> set (member_endpoints ct m) \<and>
     (\<forall>m' \<in> set keep. (V4 (fst dst), snd dst) \<notin> set (member_endpoints ct m')))"

lemma cutMembers_keeps:
  assumes "cut_steps_keep (ct_big ct) (ct_kernel ct) (ct_proc ct) (gone_socket ct gone keep) P" "P k"
  shows "P (fst (cutMembers ct gone keep k))"
proof -
  let ?want = "List.map_filter (\<lambda>(a, p). case a of V4 o' \<Rightarrow> Some (o', p) | V6 _ \<Rightarrow> None) (cut_endpoints ct gone keep)"
  have sel: "gone_socket ct gone keep s d" if "d \<in> set ?want" for s d
    using that unfolding gone_socket_def map_filter_def
    by (auto simp: cut_endpoints_iff split: ip.splits)
  have "P (fst (cutSockets (ct_big ct) (ct_kernel ct) (ct_proc ct) (ct_pid ct) (\<lambda>_ dst. dst \<in> set ?want) k))"
    by (rule cutSockets_keeps [OF cut_steps_mono [OF assms(1)] assms(2)]) (rule sel)
  then show ?thesis using assms(2) by (simp add: cutMembers_def cutRemoteEndpoints_def Let_def)
qed

lemma dead_members_picked:
  "m \<in> set (dead_members sc slots) \<Longrightarrow> \<exists>sl \<in> set slots. Agile sl \<and> m \<in> set (s_Members sl) \<and> m_Key m \<in> PickedKeys sl \<and> m_Key m \<in> set (wentDown sc sl)"
  by (auto simp: dead_members_def down_keys_def split: if_splits)

text \<open>The sockets to the server of a picked member of an agile pool that just went down, unless a live member of some
  pool is reached at the same address and port.\<close>

definition dead_socket :: "'k cutter \<Rightarrow> scores \<Rightarrow> (string, node_status) dict \<Rightarrow> slot list \<Rightarrow> sock_match" where
  "dead_socket ct sc byTag slots = (\<lambda>_ dst.
     list_ex (\<lambda>sl. Agile sl \<and> list_ex (\<lambda>m. m_Key m \<in> PickedKeys sl \<and> m_Key m \<in> set (wentDown sc sl) \<and>
       (V4 (fst dst), snd dst) \<in> set (member_endpoints ct m)) (s_Members sl)) slots \<and>
     list_all (\<lambda>m. (V4 (fst dst), snd dst) \<notin> set (member_endpoints ct m)) (live_members sc byTag slots))"

text \<open>C30. After a poll the only sockets that are destroyed, or on a kernel that cannot destroy them shut down, are
  sockets to the servers of picked members of agile pools that just went down, and never one to a server (address
  and port) that a live member uses too: every state that such steps preserve, the cut preserves.\<close>

theorem cut_spares_live_members:
  assumes "cut_steps_keep (ct_big ct) (ct_kernel ct) (ct_proc ct) (dead_socket ct sc byTag slots) P" and "P k"
  shows "P (fst (cutDeadMembers ct sc slots byTag k))"
  unfolding cutDeadMembers_def
proof (rule cutMembers_keeps [OF cut_steps_mono [OF assms(1)] assms(2)])
  show "dead_socket ct sc byTag slots s d" if "gone_socket ct (dead_members sc slots) (live_members sc byTag slots) s d" for s d
    using that unfolding gone_socket_def dead_socket_def list_ex_iff list_all_iff by (blast dest: dead_members_picked)
qed

section \<open>Tags in the text of the api\<close>

lemma takeWhile_stop: "list_all P xs \<Longrightarrow> ys = [] \<or> \<not> P (hd ys) \<Longrightarrow> takeWhile P (xs @ ys) = xs \<and> dropWhile P (xs @ ys) = ys"
  by (cases ys) (auto simp: list_all_iff takeWhile_append2 dropWhile_append2)

lemma tag_prefix_member:
  assumes "sanitizeKey key \<noteq> []" "r = [] \<or> \<not> tag_char (hd r)"
  shows "tag_prefix (SlotMemberTag i key @ r) = Some (SlotMemberTag i key, r)"
proof -
  have d: "takeWhile is_digit (nat_str i @ ''-out-'' @ sanitizeKey key @ r) = nat_str i"
    "dropWhile is_digit (nat_str i @ ''-out-'' @ sanitizeKey key @ r) = ''-out-'' @ sanitizeKey key @ r"
    using takeWhile_stop [OF nat_str_digits, of "''-out-'' @ sanitizeKey key @ r" i] by (auto simp: is_digit_def byte_def)
  have k: "takeWhile tag_char (sanitizeKey key @ r) = sanitizeKey key" "dropWhile tag_char (sanitizeKey key @ r) = r"
    using takeWhile_stop [OF sanitizeKey_chars assms(2), of key] by auto
  show ?thesis using d k assms(1) by (simp add: tag_prefix_def SlotMemberTag_def SlotOutPrefix_def Let_def)
qed

lemma tag_prefix_needs_s: "tag_prefix s = Some (t, r) \<Longrightarrow> s \<noteq> [] \<and> hd s = CHR ''s''"
  by (cases s) (auto simp: tag_prefix_def split: if_splits)

lemma find_tags_skip: "CHR ''s'' \<notin> set pre \<Longrightarrow> find_tags (pre @ s) = find_tags s"
proof (induction pre)
  case (Cons c pre)
  then have "tag_prefix (c # pre @ s) = None" using tag_prefix_needs_s [of "c # pre @ s"] by (cases "tag_prefix (c # pre @ s)") auto
  then show ?case using Cons by simp
qed simp

lemma find_tags_member:
  assumes "sanitizeKey key \<noteq> []" "r = [] \<or> \<not> tag_char (hd r)"
  shows "find_tags (SlotMemberTag i key @ r) = SlotMemberTag i key # find_tags r"
proof -
  obtain c s where cs: "SlotMemberTag i key @ r = c # s" by (simp add: SlotMemberTag_def SlotOutPrefix_def)
  show ?thesis using tag_prefix_member [OF assms, of i] unfolding cs by simp
qed

text \<open>From the text of a balancer, whatever stands around the tags, the members it selects are read in order and once
  each, provided that what precedes a tag begins with a character that no key has and holds no letter s.\<close>

theorem ParseBalancerSelected_tags:
  assumes "\<forall>(pre, i, key) \<in> set xs. sanitizeKey key \<noteq> [] \<and> pre \<noteq> [] \<and> \<not> tag_char (hd pre) \<and> CHR ''s'' \<notin> set pre"
    and "post = [] \<or> \<not> tag_char (hd post)" "CHR ''s'' \<notin> set post"
  shows "ParseBalancerSelected (concat (map (\<lambda>(pre, i, key). pre @ SlotMemberTag i key) xs) @ post) =
    keep_first id [] (map (\<lambda>(pre, i, key). SlotMemberTag i key) xs)"
proof -
  have "find_tags (concat (map (\<lambda>(pre, i, key). pre @ SlotMemberTag i key) xs) @ post) = map (\<lambda>(pre, i, key). SlotMemberTag i key) xs"
    using assms(1)
  proof (induction xs)
    case Nil
    then show ?case using find_tags_skip [OF assms(3), of "[]"] by simp
  next
    case (Cons x xs)
    obtain pre i key where x: "x = (pre, i, key)" by (cases x)
    let ?r = "concat (map (\<lambda>(pre, i, key). pre @ SlotMemberTag i key) xs) @ post"
    have "?r = [] \<or> \<not> tag_char (hd ?r)" using Cons.prems assms(2) by (cases xs) (auto simp: hd_append)
    then show ?case using Cons find_tags_skip [of pre] find_tags_member [of key ?r i] by (simp add: x)
  qed
  then show ?thesis by (simp add: ParseBalancerSelected_def)
qed

lemma ParseBalancerSelected_tags_witness:
  "ParseBalancerSelected ('' 1 '' @ SlotMemberTag 0 ''a'' @ '' 2 '' @ SlotMemberTag 0 ''b'') = [SlotMemberTag 0 ''a'', SlotMemberTag 0 ''b'']"
proof -
  have "sanitizeKey ''a'' = ''a''" "sanitizeKey ''b'' = ''b''" "\<not> tag_char (CHR '' '')" "SlotMemberTag 0 ''a'' \<noteq> SlotMemberTag 0 ''b''"
    by code_simp+
  then show ?thesis using ParseBalancerSelected_tags [of "[('' 1 '', 0, ''a''), ('' 2 '', 0, ''b'')]" "[]"] by simp
qed

section \<open>A renamed master counts as moved\<close>

lemma key_of_cases:
  "name \<in> fst ` set (key_of slots) \<longleftrightarrow> (\<exists>sl \<in> set slots. name \<in> set (SlotMasters sl))"
proof -
  have inner: "fst ` set (fold (\<lambda>name. dput name k) ms m) = set ms \<union> fst ` set m" for ms k and m :: "(string, string) dict"
    by (induction ms arbitrary: m) simp_all
  have "fst ` set (fold (\<lambda>s. fold (\<lambda>name. dput name (s_Key s)) (SlotMasters s)) slots m) =
      (\<Union>sl \<in> set slots. set (SlotMasters sl)) \<union> fst ` set m" for m
  proof (induction slots arbitrary: m)
    case (Cons sl slots)
    then show ?case by (simp add: inner Un_assoc Un_left_commute)
  qed simp
  then show ?thesis by (auto simp: key_of_def)
qed

text \<open>The rename moves the pools along, but leaves the names of their masters: the reconcile that follows finds no master
  of the old name, and closes its connections.\<close>

theorem renamed_master_is_cut:
  assumes "\<exists>sl \<in> set (su_loaded s). old \<in> set (SlotMasters sl)" "\<forall>sl \<in> set cur. old \<notin> set (SlotMasters sl)"
  shows "old \<in> set (movedMasters (su_loaded (RenamedRef RefXray old name s)) cur)"
proof -
  have loaded: "su_loaded (RenamedRef RefXray old name s) = map (renamed_slot RefXray old name) (su_loaded s)"
    by (simp add: RenamedRef_def renamed_member_def Let_def)
  have "SlotMasters (renamed_slot RefXray old name sl) = SlotMasters sl" for sl
    by (simp add: SlotMasters_def renamed_slot_def Let_def)
  then have "old \<in> fst ` set (key_of (su_loaded (RenamedRef RefXray old name s)))"
    using assms(1) unfolding key_of_cases loaded by simp
  moreover have "map_of (key_of cur) old = None" using assms(2) key_of_cases [of old cur] by (simp add: map_of_eq_None_iff)
  ultimately show ?thesis by (force simp: movedMasters_def)
qed

section \<open>Concrete cuts\<close>

definition cut_demo_slot :: "string \<Rightarrow> slot" where
  "cut_demo_slot key = \<lparr>s_Master = ''old'', s_Aliases = [], s_Key = key, s_Index = 0, s_Members = [], s_Picked = [], s_Active = 0,
     s_MasterPicks = [], s_Strategy = StrategyAgile, s_Auto = False, s_Pinned = []\<rparr>"

text \<open>A process table with a connection to 1.2.3.4 and one to 5.6.7.8, and a kernel that has the same two and keeps a
  record of what is done to it. It destroys the socket that it is asked to, or (\<open>can\<close> is false) answers that it
  cannot.\<close>

datatype cut_step = Asked "8 word list" | Shut int

definition cut_demo_sock :: "8 word list \<Rightarrow> 8 word list" where
  "cut_demo_sock dst = [192, 0, 1, 187] @ [10, 0, 0, 2] @ replicate 12 0 @ dst @ replicate 24 0"

definition cut_demo_reply :: "bool \<Rightarrow> nat \<Rightarrow> nl_message list" where
  "cut_demo_reply can n =
     (let m = \<lambda>typ body. \<lparr>nm_type = typ, nm_flags = 0, nm_seq = of_nat n + 1, nm_body = body\<rparr>
      in if n = 0 then [m SOCK_DIAG_BY_FAMILY ([2, 1, 0, 0] @ cut_demo_sock [1, 2, 3, 4]), m SOCK_DIAG_BY_FAMILY ([2, 1, 0, 0] @ cut_demo_sock [5, 6, 7, 8]),
           m NLMSG_DONE []]
         else if n = 1 then [m NLMSG_ERROR (PutUint32 False (if can then 0 else - EOPNOTSUPP))]
         else [m NLMSG_DONE []])"

definition cut_demo_kernel :: "bool \<Rightarrow> cut_step list kernel" where
  "cut_demo_kernel can k req = (k @ [Asked req], Some [Datagram (concat (map (nl_frame False) (cut_demo_reply can (length k))))])"

definition cut_demo_table :: string where
  "cut_demo_table = ''h'' @ [char_of (10 :: nat)] @
     ''0: 0200000A:C000 04030201:01BB 01 0:0 0:0 0 0 0 100'' @ [char_of (10 :: nat)] @
     ''1: 0200000A:C000 08070605:01BB 01 0:0 0:0 0 0 0 200''"

definition cut_demo_proc :: "cut_step list proc_view" where
  "cut_demo_proc = \<lparr>pv_tcp = Some cut_demo_table, pv_udp = Some ''h'', pv_pidfd = True,
     pv_fds = Some [(''1'', Some ''pipe:[9]''), (''7'', Some ''socket:[100]''), (''8'', Some ''socket:[200]'')],
     pv_getfd = (\<lambda>_. GotFd), pv_shut = (\<lambda>fd k. k @ [Shut fd])\<rparr>"

definition cut_demo_cutter :: "bool \<Rightarrow> cut_step list cutter" where
  "cut_demo_cutter can = \<lparr>ct_big = False, ct_kernel = cut_demo_kernel can, ct_proc = cut_demo_proc, ct_pid = 1, ct_lookup = (\<lambda>_. [])\<rparr>"

text \<open>An agile pool of two picked members; the first, at 1.2.3.4, just went down.\<close>

definition cut_demo_node :: "string \<Rightarrow> string \<Rightarrow> slot_member" where
  "cut_demo_node key host = \<lparr>m_Key = key, m_Outbound = Some (jobj [(''protocol'', JStr ''vless''),
     (''settings'', jobj [(''vnext'', JArr [jobj [(''address'', JStr host), (''port'', JNum 443)]])])])\<rparr>"

definition cut_demo_pool :: slot where
  "cut_demo_pool = (cut_demo_slot ''xray:a'')\<lparr>s_Members := [cut_demo_node ''a'' ''1.2.3.4'', cut_demo_node ''b'' ''5.6.7.8''],
     s_Picked := [''a'', ''b''], s_Active := 2\<rparr>"

definition cut_demo_scores :: scores where
  "cut_demo_scores = [(SlotMemberTag 0 ''a'', \<lparr>sc_ok = 0, sc_rttMs = 0, sc_lastRTT = 0, sc_hasRTT = False, sc_alive = False,
     sc_clean = False, sc_sampled = True, sc_wentDown = True\<rparr>)]"

definition cut_demo_health :: "(string, node_status) dict" where
  "cut_demo_health = [(SlotMemberTag 0 ''b'', \<lparr>st_Alive = True, st_Delay = 9, st_All = 1, st_Fail = 0\<rparr>)]"

definition cut_demo_cut :: "bool \<Rightarrow> cut_step list \<times> nat \<times> bool" where
  "cut_demo_cut can = cutDeadMembers (cut_demo_cutter can) cut_demo_scores [cut_demo_pool] cut_demo_health []"

definition step_allowed :: "cut_step \<Rightarrow> bool" where
  "step_allowed st = (case st of
     Asked req \<Rightarrow> allowed_request False (dead_socket (cut_demo_cutter True) cut_demo_scores cut_demo_health [cut_demo_pool]) req
   | Shut fd \<Rightarrow> allowed_shutdown False cut_demo_proc (dead_socket (cut_demo_cutter True) cut_demo_scores cut_demo_health [cut_demo_pool]) fd)"

text \<open>What the cut does to that kernel, and to one that cannot destroy sockets.\<close>

lemma cut_demo_replies:
  "nl_scan False 1 (concat (map (nl_frame False) (cut_demo_reply can 0))) =
     ([[2, 1, 0, 0] @ cut_demo_sock [1, 2, 3, 4], [2, 1, 0, 0] @ cut_demo_sock [5, 6, 7, 8]], NlDone)"
  "nl_scan False 2 (concat (map (nl_frame False) (cut_demo_reply True (Suc 0)))) = ([], NlDone)"
  "nl_scan False 2 (concat (map (nl_frame False) (cut_demo_reply False (Suc 0)))) = ([], NlErrno EOPNOTSUPP)"
  "nl_scan False 3 (concat (map (nl_frame False) (cut_demo_reply can (Suc (Suc 0))))) = ([], NlDone)"
  using u32.get_put [of False _ "[]"]
  by (simp_all add: cut_demo_reply_def Let_def nl_scan_frame nl_scan_frame [where r = "[]", simplified] message_ok_def u32.length_put
      cut_demo_sock_def nl_defs)

lemma cut_demo_sock_ends:
  "sock_dst (cut_demo_sock [1, 2, 3, 4]) = ([1, 2, 3, 4], 443)" "sock_dst (cut_demo_sock [5, 6, 7, 8]) = ([5, 6, 7, 8], 443)"
  by (simp_all add: sock_dst_def cut_demo_sock_def Uint16_def word_of_def)

lemma cut_demo_ends:
  "cut_endpoints (cut_demo_cutter can) (dead_members cut_demo_scores [cut_demo_pool]) (live_members cut_demo_scores cut_demo_health [cut_demo_pool]) =
     [(V4 [1, 2, 3, 4], 443)]"
  "dead_members cut_demo_scores [cut_demo_pool] \<noteq> []"
  by (cases can) code_simp+

lemma cut_demo_fields [simp]:
  "ct_big (cut_demo_cutter can) = False" "ct_kernel (cut_demo_cutter can) = cut_demo_kernel can" "ct_proc (cut_demo_cutter can) = cut_demo_proc"
  "ct_pid (cut_demo_cutter can) = 1"
  by (simp_all add: cut_demo_cutter_def)

lemmas cut_demo_run = cutDeadMembers_def cutMembers_def cut_demo_ends cutRemoteEndpoints_def cutSockets_def destroySockets_def diag_dump_def
  diag_destroy_def nl_exchange_def cut_demo_kernel_def cut_demo_replies selected_ids_def sock_id_def cut_demo_sock_ends map_filter_simps

lemma cut_demo_sid: "length (cut_demo_sock dst) = 44 + length dst" "take 48 (cut_demo_sock [1, 2, 3, 4]) = cut_demo_sock [1, 2, 3, 4]"
  "take 48 (cut_demo_sock [5, 6, 7, 8]) = cut_demo_sock [5, 6, 7, 8]"
  by (simp_all add: cut_demo_sock_def)

lemma cut_demo_destroys:
  "fst (cutDeadMembers (cut_demo_cutter True) cut_demo_scores [cut_demo_pool] cut_demo_health []) =
     [Asked (nl_request False 1 SOCK_DIAG_BY_FAMILY 0x301 IPPROTO_TCP []),
      Asked (nl_request False 2 SOCK_DESTROY 5 IPPROTO_TCP (cut_demo_sock [1, 2, 3, 4])),
      Asked (nl_request False 3 SOCK_DIAG_BY_FAMILY 0x301 IPPROTO_UDP [])]"
  by (simp add: cut_demo_run cut_demo_sid nl_defs)

lemma cut_demo_addrs:
  "procNetAddr False ''04030201:01BB'' = Some ([1, 2, 3, 4], 443)" "procNetAddr False ''08070605:01BB'' = Some ([5, 6, 7, 8], 443)"
  "procNetAddr False ''0200000A:C000'' = Some ([10, 0, 0, 2], 49152)"
proof -
  note k = kernel_addr_def print_hex_def Uint32_def word_of_def upper_hex_def upt_rec
  show "procNetAddr False ''04030201:01BB'' = Some ([1, 2, 3, 4], 443)"
    using procNetAddr_kernel [of "([1, 2, 3, 4], 443)" False] by (simp add: k)
  show "procNetAddr False ''08070605:01BB'' = Some ([5, 6, 7, 8], 443)"
    using procNetAddr_kernel [of "([5, 6, 7, 8], 443)" False] by (simp add: k)
  show "procNetAddr False ''0200000A:C000'' = Some ([10, 0, 0, 2], 49152)"
    using procNetAddr_kernel [of "([10, 0, 0, 2], 49152)" False] by (simp add: k)
qed

lemma cut_demo_inodes:
  "procNetInodes False cut_demo_table True (\<lambda>_ dst. dst = ([1, 2, 3, 4], 443)) = [''100'']"
  "procNetInodes False ''h'' False sel = []"
proof -
  have "tl (split_on (char_of (10 :: nat)) cut_demo_table) =
      [''0: 0200000A:C000 04030201:01BB 01 0:0 0:0 0 0 0 100'', ''1: 0200000A:C000 08070605:01BB 01 0:0 0:0 0 0 0 200'']" by code_simp
  moreover have "str_fields ''0: 0200000A:C000 04030201:01BB 01 0:0 0:0 0 0 0 100'' =
      [''0:'', ''0200000A:C000'', ''04030201:01BB'', ''01'', ''0:0'', ''0:0'', ''0'', ''0'', ''0'', ''100'']"
    "str_fields ''1: 0200000A:C000 08070605:01BB 01 0:0 0:0 0 0 0 200'' =
      [''1:'', ''0200000A:C000'', ''08070605:01BB'', ''01'', ''0:0'', ''0:0'', ''0'', ''0'', ''0'', ''200'']"
    "parse_hex 8 ''01'' = Some 1" by code_simp+
  ultimately show "procNetInodes False cut_demo_table True (\<lambda>_ dst. dst = ([1, 2, 3, 4], 443)) = [''100'']"
    by (simp add: procNetInodes_def map_filter_simps proc_line_inode_def cut_demo_addrs Let_def)
  have "tl (split_on (char_of (10 :: nat)) ''h'') = []" by code_simp
  then show "procNetInodes False ''h'' False sel = []" by (simp add: procNetInodes_def map_filter_simps)
qed

lemma cut_demo_shuts:
  "fst (cutDeadMembers (cut_demo_cutter False) cut_demo_scores [cut_demo_pool] cut_demo_health []) =
     [Asked (nl_request False 1 SOCK_DIAG_BY_FAMILY 0x301 IPPROTO_TCP []),
      Asked (nl_request False 2 SOCK_DESTROY 5 IPPROTO_TCP (cut_demo_sock [1, 2, 3, 4])), Shut 7]"
proof -
  have "fd_inode ''pipe:[9]'' = None" "fd_inode ''socket:[100]'' = Some ''100''" "fd_inode ''socket:[200]'' = Some ''200''"
    "parse_int ''7'' = Some 7" by code_simp+
  then show ?thesis
    by (simp add: cut_demo_run cut_demo_sid nl_defs shutdownProcSockets_def cut_demo_inodes cut_demo_proc_def)
qed

text \<open>What the theorem says of a record: every step asked for was one it may take.\<close>

definition cut_step_ok :: "bool \<Rightarrow> cut_step \<Rightarrow> bool" where
  "cut_step_ok can st = (case st of
     Asked req \<Rightarrow> allowed_request False (dead_socket (cut_demo_cutter can) cut_demo_scores cut_demo_health [cut_demo_pool]) req
   | Shut fd \<Rightarrow> allowed_shutdown False cut_demo_proc (dead_socket (cut_demo_cutter can) cut_demo_scores cut_demo_health [cut_demo_pool]) fd)"

lemma cut_demo_keeps:
  "cut_steps_keep False (cut_demo_kernel can) cut_demo_proc (dead_socket (cut_demo_cutter can) cut_demo_scores cut_demo_health [cut_demo_pool])
     (list_all (cut_step_ok can))"
  by (simp add: cut_steps_keep_def cut_demo_kernel_def cut_demo_proc_def) (simp add: cut_step_ok_def flip: cut_demo_proc_def)

lemma cut_spares_live_members_witness:
  "list_all (cut_step_ok True) (fst (cutDeadMembers (cut_demo_cutter True) cut_demo_scores [cut_demo_pool] cut_demo_health [])) \<and>
   fst (cutDeadMembers (cut_demo_cutter True) cut_demo_scores [cut_demo_pool] cut_demo_health []) ! 1 =
     Asked (nl_request False 2 SOCK_DESTROY 5 IPPROTO_TCP (cut_demo_sock [1, 2, 3, 4])) \<and>
   list_all (cut_step_ok False) (fst (cutDeadMembers (cut_demo_cutter False) cut_demo_scores [cut_demo_pool] cut_demo_health [])) \<and>
   last (fst (cutDeadMembers (cut_demo_cutter False) cut_demo_scores [cut_demo_pool] cut_demo_health [])) = Shut 7"
proof -
  have "list_all (cut_step_ok can) (fst (cutDeadMembers (cut_demo_cutter can) cut_demo_scores [cut_demo_pool] cut_demo_health []))" for can
    by (rule cut_spares_live_members) (simp_all add: cut_demo_keeps)
  from this [of True] this [of False] show ?thesis by (simp add: cut_demo_destroys cut_demo_shuts)
qed

text \<open>The same record says that the live member's connections are not among these steps.\<close>

lemma cut_demo_spared: "\<not> dead_socket (cut_demo_cutter can) cut_demo_scores cut_demo_health [cut_demo_pool] src ([5, 6, 7, 8], 443)"
proof -
  have "(V4 [5, 6, 7, 8], 443) \<in> set (member_endpoints (cut_demo_cutter can) (cut_demo_node ''b'' ''5.6.7.8''))"
    "cut_demo_node ''b'' ''5.6.7.8'' \<in> set (live_members cut_demo_scores cut_demo_health [cut_demo_pool])"
    by (cases can) code_simp+
  then show ?thesis by (auto simp: dead_socket_def list_all_iff)
qed

lemma cut_only_moved_masters_witness:
  "list_all (\<lambda>st. case st of Asked req \<Rightarrow> allowed_request False (moved_socket [cut_demo_slot ''xray:a''] [cut_demo_slot ''xray:b'']) req
      | Shut fd \<Rightarrow> allowed_shutdown False cut_demo_proc (moved_socket [cut_demo_slot ''xray:a''] [cut_demo_slot ''xray:b'']) fd)
     (fst (cutMovedMasters (cut_demo_cutter True) [cut_demo_slot ''xray:a''] [cut_demo_slot ''xray:b''] []))"
  by (rule cut_only_moved_masters)
    (simp_all add: cut_steps_keep_def cut_demo_kernel_def, simp add: cut_demo_proc_def)

lemma renamed_master_is_cut_witness:
  "''old'' \<in> set (movedMasters (su_loaded (RenamedRef RefXray ''old'' ''new'' (rename_demo_sup\<lparr>su_loaded := [cut_demo_slot ''xray:a'']\<rparr>))) [])"
  by (rule renamed_master_is_cut) (simp_all add: cut_demo_slot_def SlotMasters_def)

end
