(* ===== verification/Server.thy ===== *)
theory Server
  imports Renames Share_Links Subscriptions Reconcile
begin

text \<open>
  The requests that change the daemon's configuration (\<^verbatim>\<open>daemon/server_methods.go\<close>, \<^verbatim>\<open>daemon/server_iface.go\<close>,
  \<^verbatim>\<open>daemon/server_users.go\<close>): a handler checks the request against the rows, changes the store, and has the supervisor
  reconcile. A handler yields the box and either a reply or an error; an error of the reconcile leaves the rows changed.
  Texts of errors are constructors; what a reply shows is kept where it is computed.
\<close>

section \<open>Errors and plumbing\<close>

datatype serve_error =
    StoreErr store_error
  | LinkErr link_error
  | NoOutbound
  | InvalidJson
  | DialerErr dialer_error
  | UnknownEntryRef string
  | UnknownSubRef string
  | BadMember string outbound_error
  | ProxyRefs
  | CycleErr cycle_error
  | OutboundErr outbound_error
  | HasDialer string outbound_error
  | ListedTwice nat
  | EntryIdErr nat store_error
  | OfEntry string serve_error
  | TargetedAsMaster string string
  | MuxErr string mux_note
  | TargetErr target_error
  | NoInterface string
  | NoEntryNamed string
  | NoDialer string
  | InboundErr inbound_error
  | NeedsDomain
  | FetchErr string
  | BadStrategy string
  | BadSetting
  | BackupTooNew
  | ImportErr string string store_error
  | NoSuchNode string nat
  | UnknownTestKind string
  | ExtractErr string
  | ReconcileErr string

text \<open>What all requests see: the world of the supervisor, the defaults that the object mapper puts in place of false, the
  interfaces of the machine, its public address and the hash of a certificate.\<close>

record 'p server =
  sv_world :: "'p world"
  sv_orm :: "bool \<Rightarrow> bool"
  sv_ifaces :: "string list"
  sv_publicIP :: string
  sv_pin :: "string \<Rightarrow> string"

type_synonym ('p, 'r) served = "'p box \<times> (serve_error, 'r) outcome"

definition with_db :: "db \<Rightarrow> 'p box \<Rightarrow> 'p box" where
  "with_db d b = b\<lparr>bx_db := d\<rparr>"

definition reconciled :: "'p server \<Rightarrow> 'p turn \<Rightarrow> 'p box \<Rightarrow> 'r \<Rightarrow> ('p, 'r) served" where
  "reconciled sv tn b r =
     (case Reconcile (sv_world sv) tn b of
        (Applied, b') \<Rightarrow> (b', Ok r)
      | (Refused e, b') \<Rightarrow> (b', Fail (ReconcileErr e))
      | (Panicked, b') \<Rightarrow> (b', Panic))"

text \<open>\<^verbatim>\<open>SyncDialerMembers\<close>: a refusal is only logged.\<close>

definition SyncDialerMembers :: "'p server \<Rightarrow> 'p turn \<Rightarrow> 'p box \<Rightarrow> 'r \<Rightarrow> ('p, 'r) served" where
  "SyncDialerMembers sv tn b r =
     (case Reconcile (sv_world sv) tn b of
        (Panicked, b') \<Rightarrow> (b', Panic)
      | (_, b') \<Rightarrow> (b', Ok r))"

text \<open>The result of a store operation, carried on.\<close>

definition stored :: "'p box \<Rightarrow> (store_error, 'a) outcome \<Rightarrow> ('a \<Rightarrow> ('p, 'r) served) \<Rightarrow> ('p, 'r) served" where
  "stored b res k = (case res of Ok x \<Rightarrow> k x | Fail e \<Rightarrow> (b, Fail (StoreErr e)) | Panic \<Rightarrow> (b, Panic))"

section \<open>Dialers of a request\<close>

definition entry_rows :: "db \<Rightarrow> (string \<times> string) list" where
  "entry_rows d = map (\<lambda>e. (e_Name e, e_Dialer e)) (db_entries d)"

definition ref_error :: "db \<Rightarrow> dialer_ref \<Rightarrow> serve_error option" where
  "ref_error d r =
     (if r_Kind r = RefXray then
        (if NamesExist d [r_Name r] \<noteq> [] then Some (UnknownEntryRef (r_Name r))
         else (case GetEntryByName d (r_Name r) of
                 Ok e \<Rightarrow> map_option (BadMember (r_Name r)) (CheckMemberOutbound (e_Outbound e))
               | _ \<Rightarrow> None))
      else if r_Kind r = RefXraySub then
        (if SubNamesExist d [r_Name r] \<noteq> [] then Some (UnknownSubRef (r_Name r)) else None)
      else if r_Kind r = RefProxy then Some ProxyRefs
      else None)"

fun first_error :: "('a \<Rightarrow> 'e option) \<Rightarrow> 'a list \<Rightarrow> 'e option" where
  "first_error f [] = None"
| "first_error f (x # xs) = (case f x of Some e \<Rightarrow> Some e | None \<Rightarrow> first_error f xs)"

definition validateDialerWith :: "db \<Rightarrow> string \<Rightarrow> string \<Rightarrow> (string, string) dict \<Rightarrow> serve_error option" where
  "validateDialerWith d dialer selfName proposed =
     (case ParseDialer dialer of
        Inl e \<Rightarrow> Some (DialerErr e)
      | Inr refs \<Rightarrow>
          (case first_error (ref_error d) refs of
             Some e \<Rightarrow> Some e
           | None \<Rightarrow> map_option CycleErr (DetectDialerCycle selfName dialer (proposed @ entry_rows d))))"

definition validateDialer :: "db \<Rightarrow> string \<Rightarrow> string \<Rightarrow> serve_error option" where
  "validateDialer d dialer selfName = validateDialerWith d dialer selfName []"

section \<open>Entries\<close>

record entry_info =
  ei_Entry :: xray_entry
  ei_IsMaster :: bool
  ei_MuxNote :: "mux_note option"
  ei_Protocol :: string
  ei_ShareLink :: rebuilt

definition entryInfo :: "xray_entry \<Rightarrow> entry_info" where
  "entryInfo e =
     \<lparr>ei_Entry = e, ei_IsMaster = IsMaster e, ei_MuxNote = MuxSupport (e_Outbound e),
      ei_Protocol = (case decode_protocol (e_Outbound e) of Some p \<Rightarrow> p | None \<Rightarrow> []),
      ei_ShareLink = OutboundLink (e_Outbound e) (e_Name e)\<rparr>"

text \<open>A request with a link or the text of an outbound; no text is no outbound.\<close>

record entry_request =
  eq_Name :: string
  eq_Link :: string
  eq_Outbound :: "raw_json option"
  eq_Dialer :: string
  eq_Mux :: bool

definition entry_source :: "entry_request \<Rightarrow> (serve_error, string \<times> raw_json) outcome" where
  "entry_source rq =
     (if eq_Link rq \<noteq> [] then
        (case ParseLink (eq_Link rq) of
           Ok pl \<Rightarrow> Ok (if eq_Name rq = [] then pl_Name pl else eq_Name rq, Some (JObj (pl_Outbound pl)))
         | Fail e \<Rightarrow> Fail (LinkErr e)
         | Panic \<Rightarrow> Panic)
      else (case eq_Outbound rq of None \<Rightarrow> Fail NoOutbound | Some r \<Rightarrow> Ok (eq_Name rq, r)))"

definition EntryAdd :: "'p server \<Rightarrow> 'p turn \<Rightarrow> entry_request \<Rightarrow> 'p box \<Rightarrow> ('p, entry_info) served" where
  "EntryAdd sv tn rq b =
     (case entry_source rq of
        Fail e \<Rightarrow> (b, Fail e)
      | Panic \<Rightarrow> (b, Panic)
      | Ok (name, ob) \<Rightarrow>
          (case validateDialer (bx_db b) (eq_Dialer rq) name of
             Some e \<Rightarrow> (b, Fail e)
           | None \<Rightarrow>
               (case (if trim_space (eq_Dialer rq) \<noteq> [] then CheckMasterOutbound ob else None) of
                  Some e \<Rightarrow> (b, Fail (OutboundErr e))
                | None \<Rightarrow>
                    stored b (CreateEntry (sv_orm sv) (bx_db b)
                      \<lparr>e_ID = 0, e_Name = name, e_Outbound = ob, e_Enabled = True, e_Dialer = eq_Dialer rq, e_Mux = eq_Mux rq\<rparr>)
                      (\<lambda>(d, e). reconciled sv tn (with_db d b) (entryInfo e)))))"

definition EntryList :: "'p box \<Rightarrow> entry_info list" where
  "EntryList b = map entryInfo (ListEntries (bx_db b))"

definition EntryRemove :: "'p server \<Rightarrow> 'p turn \<Rightarrow> nat \<Rightarrow> 'p box \<Rightarrow> ('p, unit) served" where
  "EntryRemove sv tn i b = reconciled sv tn (with_db (DeleteEntry (bx_db b) i) b) ()"

definition EntryRename :: "'p server \<Rightarrow> 'p turn \<Rightarrow> nat \<Rightarrow> string \<Rightarrow> 'p box \<Rightarrow> ('p, unit) served" where
  "EntryRename sv tn i newName b =
     stored b (GetEntry (bx_db b) i) (\<lambda>e.
       stored b (RenameEntry (bx_db b) i newName) (\<lambda>d.
         reconciled sv tn ((with_db d b)\<lparr>bx_sup := RenamedRef RefXray (e_Name e) (NormalizeName newName) (bx_sup b)\<rparr>) ()))"

definition EntryDuplicate :: "'p server \<Rightarrow> 'p turn \<Rightarrow> nat \<Rightarrow> string \<Rightarrow> 'p box \<Rightarrow> ('p, entry_info) served" where
  "EntryDuplicate sv tn i newName b =
     stored b (DuplicateEntry (sv_orm sv) (bx_db b) i newName) (\<lambda>(d, e). reconciled sv tn (with_db d b) (entryInfo e))"

text \<open>The edited text must be an object, or null, which decodes into a map as well.\<close>

definition EntrySetConfig :: "'p server \<Rightarrow> 'p turn \<Rightarrow> nat \<Rightarrow> raw_json \<Rightarrow> 'p box \<Rightarrow> ('p, entry_info) served" where
  "EntrySetConfig sv tn i r b =
     (case to_map r of
        BadJson \<Rightarrow> (b, Fail InvalidJson)
      | _ \<Rightarrow>
          stored b (GetEntry (bx_db b) i) (\<lambda>e.
            case (if IsMaster e then CheckMasterOutbound r else None) of
              Some er \<Rightarrow> (b, Fail (HasDialer (e_Name e) er))
            | None \<Rightarrow>
                stored b (UpdateEntry (sv_orm sv) (bx_db b) (e\<lparr>e_Outbound := r\<rparr>)) (\<lambda>d.
                  reconciled sv tn (with_db d b) (entryInfo (e\<lparr>e_Outbound := r\<rparr>)))))"

definition EntrySetMux :: "'p server \<Rightarrow> 'p turn \<Rightarrow> nat \<Rightarrow> bool \<Rightarrow> 'p box \<Rightarrow> ('p, entry_info) served" where
  "EntrySetMux sv tn i on b =
     stored b (GetEntry (bx_db b) i) (\<lambda>e.
       case (if on then MuxSupport (e_Outbound e) else None) of
         Some note \<Rightarrow> (b, Fail (MuxErr (e_Name e) note))
       | None \<Rightarrow>
           stored b (UpdateEntry (sv_orm sv) (bx_db b) (e\<lparr>e_Mux := on\<rparr>)) (\<lambda>d.
             reconciled sv tn (with_db d b) (entryInfo (e\<lparr>e_Mux := on\<rparr>))))"

section \<open>The dialers of several entries\<close>

text \<open>The entries of the items with their canonical dialers, in order.\<close>

fun bulk_items :: "db \<Rightarrow> nat list \<Rightarrow> (nat \<times> string) list \<Rightarrow> (serve_error, (xray_entry \<times> string) list) outcome" where
  "bulk_items d seen [] = Ok []"
| "bulk_items d seen ((i, dl) # its) =
     (if i \<in> set seen then Fail (ListedTwice i)
      else (case GetEntry d i of
              Fail e \<Rightarrow> Fail (EntryIdErr i e)
            | Panic \<Rightarrow> Panic
            | Ok e \<Rightarrow>
                (case CanonicalDialer dl of
                   Inl er \<Rightarrow> Fail (OfEntry (e_Name e) (DialerErr er))
                 | Inr c \<Rightarrow> obind (bulk_items d (i # seen) its) (\<lambda>rest. Ok ((e, c) # rest)))))"

definition proposed_of :: "(xray_entry \<times> string) list \<Rightarrow> (string, string) dict" where
  "proposed_of items = fold (\<lambda>(e, c). dput (e_Name e) c) items []"

definition targets_master :: "xray_entry \<Rightarrow> inbound \<Rightarrow> bool" where
  "targets_master e i \<longleftrightarrow>
     (case ParseTarget (in_Target i) of Inr (kind, name) \<Rightarrow> kind = KindMaster \<and> NormalizeName name = e_Name e | Inl _ \<Rightarrow> False)"

definition change_error :: "db \<Rightarrow> (string, string) dict \<Rightarrow> xray_entry \<times> string \<Rightarrow> serve_error option" where
  "change_error d proposed = (\<lambda>(e, c).
     case validateDialerWith d c (e_Name e) proposed of
       Some er \<Rightarrow> Some (OfEntry (e_Name e) er)
     | None \<Rightarrow>
         if c \<noteq> [] then map_option (\<lambda>er. OfEntry (e_Name e) (OutboundErr er)) (CheckMasterOutbound (e_Outbound e))
         else map_option (\<lambda>i. TargetedAsMaster (in_Name i) (e_Name e)) (List.find (targets_master e) (ListInbounds d)))"

definition EntryBulkDialer :: "'p server \<Rightarrow> 'p turn \<Rightarrow> (nat \<times> string) list \<Rightarrow> 'p box \<Rightarrow> ('p, entry_info list) served" where
  "EntryBulkDialer sv tn its b =
     (case bulk_items (bx_db b) [] its of
        Fail e \<Rightarrow> (b, Fail e)
      | Panic \<Rightarrow> (b, Panic)
      | Ok items \<Rightarrow>
          let changes = filter (\<lambda>(e, c). c \<noteq> e_Dialer e) items
          in (case first_error (change_error (bx_db b) (proposed_of items)) changes of
                Some e \<Rightarrow> (b, Fail e)
              | None \<Rightarrow>
                  if changes = [] then (b, Ok [])
                  else reconciled sv tn (with_db (SetEntryDialers (bx_db b) (dict_of (map (\<lambda>(e, c). (e_ID e, c)) changes))) b)
                         (map (\<lambda>(e, c). entryInfo (e\<lparr>e_Dialer := c\<rparr>)) changes)))"

definition EntrySetDialer :: "'p server \<Rightarrow> 'p turn \<Rightarrow> nat \<Rightarrow> string \<Rightarrow> 'p box \<Rightarrow> ('p, entry_info) served" where
  "EntrySetDialer sv tn i dl b =
     (case EntryBulkDialer sv tn [(i, dl)] b of
        (b', Ok (x # xs)) \<Rightarrow> (b', Ok x)
      | (b', Ok []) \<Rightarrow> stored b' (GetEntry (bx_db b') i) (\<lambda>e. (b', Ok (entryInfo e)))
      | (b', Fail e) \<Rightarrow> (b', Fail e)
      | (b', Panic) \<Rightarrow> (b', Panic))"

section \<open>Inbounds\<close>

definition checkTarget :: "'p server \<Rightarrow> db \<Rightarrow> string \<Rightarrow> (serve_error, string) outcome" where
  "checkTarget sv d target =
     (case CanonicalTarget target of
        Inl e \<Rightarrow> Fail (TargetErr e)
      | Inr canon \<Rightarrow>
          (case ParseTarget canon of
             Inl _ \<Rightarrow> Ok canon
           | Inr (kind, name) \<Rightarrow>
               if kind = KindIface then (if name \<in> set (sv_ifaces sv) then Ok canon else Fail (NoInterface name))
               else if kind = KindMaster \<or> kind = KindXray then
                 (case GetEntryByName d name of
                    Ok e \<Rightarrow> if kind = KindMaster \<and> \<not> IsMaster e then Fail (NoDialer name) else Ok canon
                  | _ \<Rightarrow> Fail (NoEntryNamed name))
               else Ok canon))"

definition GetInbound :: "db \<Rightarrow> nat \<Rightarrow> (store_error, inbound) outcome" where
  "GetInbound d i = find_row (\<lambda>x. in_ID x = i) (db_inbounds d)"

definition GetInboundByName :: "db \<Rightarrow> string \<Rightarrow> (store_error, inbound) outcome" where
  "GetInboundByName d name = find_row (\<lambda>x. in_Name x = NormalizeName name) (db_inbounds d)"

text \<open>The save of any inbound row; the one of the supervisor saves rows that exist under their own names.\<close>

definition SaveInbound :: "(bool \<Rightarrow> bool) \<Rightarrow> db \<Rightarrow> inbound \<Rightarrow> (store_error, db) outcome" where
  "SaveInbound orm d i =
     obind (save_row in_ID in_Name (in_Enabled_update orm) i (db_inbounds d)) (\<lambda>rows. Ok (d\<lparr>db_inbounds := rows\<rparr>))"

record inbound_info =
  ii_Inbound :: inbound
  ii_PublicHost :: string
  ii_ShareLink :: string
  ii_TgLink :: string

definition inboundInfo :: "'p server \<Rightarrow> inbound \<Rightarrow> inbound_info" where
  "inboundInfo sv i =
     (let host = (if in_PublicHost i = [] then sv_publicIP sv else in_PublicHost i)
      in \<lparr>ii_Inbound = i, ii_PublicHost = host, ii_ShareLink = ShareLink (sv_pin sv) i host, ii_TgLink = TelegramSocksLink i host\<rparr>)"

definition InboundSetTarget :: "'p server \<Rightarrow> 'p turn \<Rightarrow> nat \<Rightarrow> string \<Rightarrow> 'p box \<Rightarrow> ('p, inbound_info) served" where
  "InboundSetTarget sv tn i target b =
     stored b (GetInbound (bx_db b) i) (\<lambda>x.
       case checkTarget sv (bx_db b) target of
         Fail e \<Rightarrow> (b, Fail e)
       | Panic \<Rightarrow> (b, Panic)
       | Ok canon \<Rightarrow>
           let x' = x\<lparr>in_Target := canon\<rparr>
           in stored b (SaveInbound (sv_orm sv) (bx_db b) x') (\<lambda>d. reconciled sv tn (with_db d b) (inboundInfo sv x')))"

text \<open>A request for a new inbound; port zero has the store choose one. The keys are drawn by \<open>g\<close> and \<open>pathkey\<close>.\<close>

record inbound_request =
  iq_Name :: string
  iq_Template :: string
  iq_Target :: string
  iq_PublicHost :: string
  iq_Port :: nat
  iq_Path :: string
  iq_Email :: string
  iq_XhttpMode :: string

definition requested_inbound :: "inbound_request \<Rightarrow> inbound \<Rightarrow> inbound" where
  "requested_inbound rq i =
     (let i1 = i\<lparr>in_PublicHost := iq_PublicHost rq\<rparr>;
          i2 = (if iq_Path rq \<noteq> [] then i1\<lparr>in_Path := iq_Path rq\<rparr> else i1);
          i3 = (if iq_Email rq \<noteq> [] then i2\<lparr>in_ClientEmail := iq_Email rq\<rparr> else i2)
      in if iq_XhttpMode rq \<noteq> [] then i3\<lparr>in_XHTTPMode := iq_XhttpMode rq\<rparr> else i3)"

definition InboundAdd :: "'p server \<Rightarrow> 'p turn \<Rightarrow> keygen \<Rightarrow> string option \<Rightarrow> inbound_request \<Rightarrow> 'p box \<Rightarrow> ('p, inbound_info) served" where
  "InboundAdd sv tn g pathkey rq b =
     (case checkTarget sv (bx_db b) (iq_Target rq) of
        Fail e \<Rightarrow> (b, Fail e)
      | Panic \<Rightarrow> (b, Panic)
      | Ok _ \<Rightarrow>
          (case NewInboundFromTemplate g pathkey (iq_Name rq) (iq_Template rq) (iq_Target rq) of
             Fail e \<Rightarrow> (b, Fail (InboundErr e))
           | Panic \<Rightarrow> (b, Panic)
           | Ok i0 \<Rightarrow>
               let i1 = requested_inbound rq i0
               in if IsCaddyXHTTP i1 \<and> in_PublicHost i1 = [] then (b, Fail NeedsDomain)
                  else (case Materialize g i1 of
                          Fail e \<Rightarrow> (b, Fail (InboundErr e))
                        | Panic \<Rightarrow> (b, Panic)
                        | Ok i2 \<Rightarrow>
                            let i3 = (if iq_Port rq \<noteq> 0 then i2\<lparr>in_Port := iq_Port rq\<rparr> else i2)
                            in stored b (CreateInbound (sv_orm sv) (bx_db b) i3) (\<lambda>(d, i4).
                                 reconciled sv tn (with_db d b) (inboundInfo sv i4)))))"

definition InboundList :: "'p server \<Rightarrow> 'p box \<Rightarrow> inbound_info list" where
  "InboundList sv b = map (inboundInfo sv) (ListInbounds (bx_db b))"

definition InboundRemove :: "'p server \<Rightarrow> 'p turn \<Rightarrow> nat \<Rightarrow> 'p box \<Rightarrow> ('p, unit) served" where
  "InboundRemove sv tn i b = reconciled sv tn (with_db (DeleteInbound (bx_db b) i) b) ()"

definition InboundDuplicate :: "'p server \<Rightarrow> 'p turn \<Rightarrow> keygen \<Rightarrow> string option \<Rightarrow> nat \<Rightarrow> string \<Rightarrow> 'p box \<Rightarrow> ('p, inbound_info) served" where
  "InboundDuplicate sv tn g pathkey i newName b =
     stored b (DuplicateInbound (sv_orm sv) g pathkey (bx_db b) i newName) (\<lambda>(d, x).
       reconciled sv tn (with_db d b) (inboundInfo sv x))"

text \<open>The edited inbound, or \<open>None\<close> when its text does not decode. The id stays; blanks are filled in; port zero keeps the
  current one.\<close>

definition InboundSetConfig :: "'p server \<Rightarrow> 'p turn \<Rightarrow> keygen \<Rightarrow> nat \<Rightarrow> inbound option \<Rightarrow> 'p box \<Rightarrow> ('p, inbound_info) served" where
  "InboundSetConfig sv tn g i decoded b =
     stored b (GetInbound (bx_db b) i) (\<lambda>cur.
       case decoded of
         None \<Rightarrow> (b, Fail InvalidJson)
       | Some e0 \<Rightarrow>
           (case checkTarget sv (bx_db b) (in_Target e0) of
              Fail e \<Rightarrow> (b, Fail e)
            | Panic \<Rightarrow> (b, Panic)
            | Ok canon \<Rightarrow>
                (case Materialize g (e0\<lparr>in_ID := in_ID cur, in_Target := canon\<rparr>) of
                   Fail e \<Rightarrow> (b, Fail (InboundErr e))
                 | Panic \<Rightarrow> (b, Panic)
                 | Ok e1 \<Rightarrow>
                     let e2 = (if in_Port e1 = 0 \<and> \<not> IsUnixInbound e1 then e1\<lparr>in_Port := in_Port cur\<rparr> else e1)
                     in stored b (SaveInbound (sv_orm sv) (bx_db b) e2) (\<lambda>d.
                          reconciled sv tn (with_db d b) (inboundInfo sv e2)))))"

section \<open>Users\<close>

record user_info =
  ui_User :: inbound_user
  ui_UsedUp :: int
  ui_UsedDown :: int
  ui_OverCap :: bool
  ui_ShareLink :: string

definition userInfo :: "'p server \<Rightarrow> db \<Rightarrow> inbound \<Rightarrow> inbound_user \<Rightarrow> user_info" where
  "userInfo sv d i u =
     (let host = (if in_PublicHost i = [] then sv_publicIP sv else in_PublicHost i);
          (up, down) = TrafficTotalFor d ''user'' (u_Email u)
      in \<lparr>ui_User = u, ui_UsedUp = up, ui_UsedDown = down, ui_OverCap = (u_ByteCap u > 0 \<and> u_ByteCap u \<le> up + down),
          ui_ShareLink = ShareLinkForUser (sv_pin sv) i host u\<rparr>)"

definition InboundUserAdd :: "'p server \<Rightarrow> 'p turn \<Rightarrow> keygen \<Rightarrow> nat \<Rightarrow> string \<Rightarrow> int \<Rightarrow> 'p box \<Rightarrow> ('p, user_info) served" where
  "InboundUserAdd sv tn g i name byteCap b =
     stored b (GetInbound (bx_db b) i) (\<lambda>x.
       case NewInboundUser g x name byteCap of
         Fail e \<Rightarrow> (b, Fail (InboundErr e))
       | Panic \<Rightarrow> (b, Panic)
       | Ok u \<Rightarrow>
           stored b (CreateInboundUser (sv_orm sv) (bx_db b) u) (\<lambda>d.
             reconciled sv tn (with_db d b) (userInfo sv d x (u\<lparr>u_ID := db_next (bx_db b), u_Enabled := sv_orm sv (u_Enabled u)\<rparr>))))"

definition InboundUserList :: "'p server \<Rightarrow> nat \<Rightarrow> 'p box \<Rightarrow> (store_error, user_info list) outcome" where
  "InboundUserList sv i b =
     obind (GetInbound (bx_db b) i) (\<lambda>x. Ok (map (userInfo sv (bx_db b) x) (InboundUsers (bx_db b) i)))"

definition InboundUserRemove :: "'p server \<Rightarrow> 'p turn \<Rightarrow> nat \<Rightarrow> 'p box \<Rightarrow> ('p, unit) served" where
  "InboundUserRemove sv tn i b = reconciled sv tn (with_db (DeleteInboundUser (bx_db b) i) b) ()"

definition InboundUserSetEnabled :: "'p server \<Rightarrow> 'p turn \<Rightarrow> nat \<Rightarrow> bool \<Rightarrow> 'p box \<Rightarrow> ('p, unit) served" where
  "InboundUserSetEnabled sv tn i on b = reconciled sv tn (with_db (SetInboundUserEnabled (bx_db b) i on) b) ()"

end
