(* ===== verification/Probe.thy ===== *)
theory Probe
  imports Outbounds
begin

text \<open>
  Latency tests (\<^verbatim>\<open>core/xray/probe.go\<close>): items are packed into batches, each batch runs in an xray of its own whose
  config routes one socks port to one item, and a batch whose xray does not come up is halved until the item to blame is
  alone. The world answers: which ports are free, whether an xray comes up, and what each request through a port meets.
  A panic of the program is a value.
\<close>

section \<open>Items, results and options\<close>

record probe_item =
  pi_ID :: nat
  pi_Name :: string
  pi_Fingerprint :: string
  pi_Outbound :: raw_json
  pi_Via :: "raw_json option"

datatype config_error = WrongCount nat nat | OutboundOf string outbound_error | ViaOf string outbound_error

datatype instance_error = NoPorts string | NoConfig config_error | NotReady string

datatype probe_error = NoBinary | BadItem | BadVia | InstanceDown instance_error | RequestFailed string

record item_result =
  ir_ID :: nat
  ir_Name :: string
  ir_Fingerprint :: string
  ir_LatencyMs :: int
  ir_Err :: "probe_error option"
  ir_Passed :: nat

record probe_options =
  po_Bin :: string
  po_Batch :: int
  po_Attempts :: int
  po_MinBytes :: int

definition defaultProbeBatch :: nat where "defaultProbeBatch = 24"

section \<open>Batches\<close>

text \<open>\<^verbatim>\<open>fmt.Sprintf("%v", x)\<close> of a decoded value. A number prints as the shortest decimal, in
  scientific form below \<^verbatim>\<open>1e-4\<close> and from \<^verbatim>\<open>1e21\<close> on.\<close>

definition exp_text :: "int \<Rightarrow> string" where
  "exp_text x = ''e'' @ (if x < 0 then ''-'' else ''+'') @ (if \<bar>x\<bar> < 10 then ''0'' else []) @ itoa \<bar>x\<bar>"

definition sci_text :: "string \<Rightarrow> int \<Rightarrow> string" where
  "sci_text ds x = take 1 ds @ (if drop 1 ds = [] then [] else ''.'' @ drop 1 ds) @ exp_text x"

definition go_number :: "int \<Rightarrow> int \<Rightarrow> string" where
  "go_number m e =
     (let ds = nat_str (nat \<bar>m\<bar>); p = int (length ds) + e
      in (if m < 0 then ''-'' else []) @
         (if p - 1 < - 4 then sci_text ds (p - 1)
          else if p \<le> 0 then ''0.'' @ replicate (nat (- p)) (CHR ''0'') @ ds
          else take (nat p) ds @ ''.'' @ drop (nat p) ds))"

definition go_integer :: "int \<Rightarrow> string" where
  "go_integer n =
     (let ds = itoa \<bar>n\<bar>; sig = rev (dropWhile (\<lambda>c. c = CHR ''0'') (rev ds))
      in if length ds \<le> 21 then itoa n else (if n < 0 then ''-'' else []) @ sci_text sig (int (length ds) - 1))"

fun go_v :: "json \<Rightarrow> string" where
  "go_v JNull = ''<nil>''"
| "go_v (JBool b) = (if b then ''true'' else ''false'')"
| "go_v (JNum n) = go_integer n"
| "go_v (JDec m e) = go_number m e"
| "go_v (JStr s) = s"
| "go_v (JArr xs) = ''['' @ join '' '' (map go_v xs) @ '']''"
| "go_v (JObj d) = ''map['' @ join '' '' (map (\<lambda>kv. fst kv @ '':'' @ go_v (snd kv)) d) @ '']''"

text \<open>The endpoint of a hysteria outbound, nothing for another one: decoding fails on a field of another type.\<close>

definition hysteria_settings :: "object \<Rightarrow> (string \<times> string) option" where
  "hysteria_settings ob =
     (case struct_key ob ''settings'' of
        None \<Rightarrow> Some ([], go_v JNull)
      | Some JNull \<Rightarrow> Some ([], go_v JNull)
      | Some (JObj st) \<Rightarrow>
          map_option (\<lambda>a. (a, go_v (case struct_key st ''port'' of None \<Rightarrow> JNull | Some v \<Rightarrow> v))) (struct_str st ''address'')
      | Some _ \<Rightarrow> None)"

definition hysteriaEndpoint :: "raw_json \<Rightarrow> string" where
  "hysteriaEndpoint r =
     (case r of
        Some (JObj ob) \<Rightarrow>
          (case (struct_str ob ''protocol'', hysteria_settings ob) of
             (Some p, Some (a, port)) \<Rightarrow> if equal_fold p ''hysteria'' then to_lower a @ '':'' @ port else []
           | _ \<Rightarrow> [])
      | _ \<Rightarrow> [])"

definition probeHysteriaEndpoint :: "probe_item \<Rightarrow> string" where
  "probeHysteriaEndpoint it = hysteriaEndpoint (case pi_Via it of Some v \<Rightarrow> v | None \<Rightarrow> pi_Outbound it)"

text \<open>A batch under construction: its items, and the hysteria endpoints among them. An item goes to the first batch
  with room that does not have its endpoint.\<close>

type_synonym batch = "nat list \<times> string list"

fun place :: "nat \<Rightarrow> string \<Rightarrow> nat \<Rightarrow> batch list \<Rightarrow> batch list" where
  "place room ep i [] = [([i], if ep = [] then [] else [ep])]"
| "place room ep i (b # bs) =
     (if length (fst b) < room \<and> (ep = [] \<or> ep \<notin> set (snd b))
      then (fst b @ [i], if ep = [] then snd b else ep # snd b) # bs
      else b # place room ep i bs)"

definition planProbeBatches :: "probe_item list \<Rightarrow> nat list \<Rightarrow> nat \<Rightarrow> nat list list" where
  "planProbeBatches items idx room =
     map fst (fold (\<lambda>i. place room (probeHysteriaEndpoint (items ! i)) i) idx [])"

section \<open>The config of a batch\<close>

definition probe_in :: "nat \<Rightarrow> string" where "probe_in i = ''probe-in-'' @ nat_str i"
definition probe_out :: "nat \<Rightarrow> string" where "probe_out i = ''probe-out-'' @ nat_str i"
definition probe_via :: "nat \<Rightarrow> string" where "probe_via i = ''probe-via-'' @ nat_str i"

definition probe_block :: object where
  "probe_block = dict_of [(''tag'', JStr ''block''), (''protocol'', JStr ''blackhole'')]"

definition probe_inbound :: "nat \<Rightarrow> nat \<Rightarrow> json" where
  "probe_inbound i port = jobj
     [(''tag'', JStr (probe_in i)), (''listen'', JStr ''127.0.0.1''), (''port'', JNum (int port)),
      (''protocol'', JStr ''socks''), (''settings'', jobj [(''udp'', JBool False), (''auth'', JStr ''noauth'')])]"

definition probe_rule :: "nat \<Rightarrow> json" where
  "probe_rule i = jobj
     [(''type'', JStr ''field''), (''inboundTag'', JArr [JStr (probe_in i)]), (''outboundTag'', JStr (probe_out i))]"

definition fail_as :: "('e \<Rightarrow> 'f) \<Rightarrow> ('e, 'a) outcome \<Rightarrow> ('f, 'a) outcome" where
  "fail_as f r = (case r of Ok x \<Rightarrow> Ok x | Fail e \<Rightarrow> Fail (f e) | Panic \<Rightarrow> Panic)"

text \<open>The outbounds of one item: its own, and the one it is chained through in front of it.\<close>

definition item_outbounds :: "nat \<Rightarrow> probe_item \<Rightarrow> (config_error, object list) outcome" where
  "item_outbounds i it =
     obind (fail_as (OutboundOf (pi_Name it)) (entryOutbound (pi_Outbound it) (probe_out i))) (\<lambda>ob.
       case pi_Via it of
         None \<Rightarrow> Ok [stripDialerProxy ob]
       | Some v \<Rightarrow>
           obind (fail_as (ViaOf (pi_Name it)) (entryOutbound v (probe_via i))) (\<lambda>via.
             Ok [stripDialerProxy via, setDialerProxy (stripDialerProxy ob) (probe_via i)]))"

definition BuildProbeConfig :: "probe_item list \<Rightarrow> nat list \<Rightarrow> (config_error, json) outcome" where
  "BuildProbeConfig items ports =
     (if length items \<noteq> length ports then Fail (WrongCount (length items) (length ports))
      else obind (omap (\<lambda>(i, it). item_outbounds i it) (enumerate 0 items)) (\<lambda>obs.
        Ok (jobj
          [(''log'', jobj [(''loglevel'', JStr ''warning'')]),
           (''inbounds'', JArr (map (\<lambda>(i, p). probe_inbound i p) (enumerate 0 ports))),
           (''outbounds'', JArr (map JObj (probe_block # concat obs))),
           (''routing'', jobj [(''rules'', JArr (map probe_rule [0..<length items]))])])))"

section \<open>One request\<close>

text \<open>What a request meets: an error, or an answer with its status, the time until it came, the bytes of the body
  that could be read, how reading them ended, and the time then.\<close>

datatype exchange = NoAnswer string | Answered int int int "string option" int

definition contains_str :: "string \<Rightarrow> string \<Rightarrow> bool" where
  "contains_str s sub \<longleftrightarrow> cut sub s \<noteq> None"

text \<open>\<^verbatim>\<open>strings.LastIndex(msg, ": ")\<close>: the text before the last occurrence and the text after it.\<close>

definition cut_last_colon :: "string \<Rightarrow> (string \<times> string) option" where
  "cut_last_colon msg = map_option (\<lambda>(a, b). (rev b, rev a)) (cut '' :'' (rev msg))"

definition probeErr :: "string \<Rightarrow> string" where
  "probeErr msg0 =
     (let msg = (case cut_last_colon msg0 of
                   Some (a, b) \<Rightarrow> if a \<noteq> [] \<and> contains_str msg0 ''socks connect'' then b else msg0
                 | None \<Rightarrow> msg0)
      in if contains_str msg ''context deadline exceeded'' then ''timeout'' else msg)"

definition probeThrough :: "int \<Rightarrow> exchange \<Rightarrow> string + int" where
  "probeThrough minBytes x =
     (case x of
        NoAnswer e \<Rightarrow> Inl (probeErr e)
      | Answered status ms n readErr ms2 \<Rightarrow>
          if status \<ge> 400 then Inl (''http '' @ itoa status)
          else if minBytes > 0 then
            (if min n minBytes < minBytes
             then Inl (''stalled after '' @ itoa (min n minBytes div 1024) @ '' KB: '' @
                    probeErr (case readErr of None \<Rightarrow> ''unexpected EOF'' | Some e \<Rightarrow> e))
             else Inr ms2)
          else Inr (if ms = 0 then 1 else ms))"

definition attempt :: "string + int \<Rightarrow> string option \<times> item_result \<Rightarrow> string option \<times> item_result" where
  "attempt x s =
     (case (x, s) of
        (Inl e, (_, r)) \<Rightarrow> (Some e, r)
      | (Inr ms, (le, r)) \<Rightarrow>
          (le, r\<lparr>ir_LatencyMs := (if ir_Passed r = 0 \<or> ms < ir_LatencyMs r then ms else ir_LatencyMs r),
                 ir_Passed := Suc (ir_Passed r)\<rparr>))"

definition attempts_of :: "probe_options \<Rightarrow> nat" where
  "attempts_of op = nat (max (po_Attempts op) 1)"

definition measure_item :: "probe_options \<Rightarrow> exchange list \<Rightarrow> item_result \<Rightarrow> item_result" where
  "measure_item op xs r =
     (case fold attempt (map (probeThrough (po_MinBytes op)) (take (attempts_of op) xs)) (None, r) of
        (le, r') \<Rightarrow> if ir_Passed r' = 0 then r'\<lparr>ir_Err := map_option RequestFailed le\<rparr> else r')"

section \<open>Running batches\<close>

text \<open>The world, at the \<open>k\<close>-th xray of a run: the free ports, whether an xray with this config opens them, what the
  requests through the port of an item meet, and whether the caller has given up by the end of it.\<close>

record probe_world =
  pw_ports :: "nat \<Rightarrow> nat \<Rightarrow> string + nat list"
  pw_start :: "nat \<Rightarrow> json \<Rightarrow> string option"
  pw_meets :: "nat \<Rightarrow> nat \<Rightarrow> exchange list"
  pw_cancelled :: "nat \<Rightarrow> bool"

type_synonym run_state = "nat \<times> item_result list"

definition measure_all :: "probe_world \<Rightarrow> probe_options \<Rightarrow> nat \<Rightarrow> nat list \<Rightarrow> nat list \<Rightarrow> item_result list \<Rightarrow> item_result list" where
  "measure_all w op k ports idx out =
     fold (\<lambda>(p, j) out. out[j := measure_item op (pw_meets w k p) (out ! j)]) (zip ports idx) out"

definition runProbeBatch :: "probe_world \<Rightarrow> probe_options \<Rightarrow> probe_item list \<Rightarrow> nat list \<Rightarrow> run_state \<Rightarrow>
    (instance_error, item_result list) outcome" where
  "runProbeBatch w op items idx s =
     (case s of (k, out) \<Rightarrow>
        (case pw_ports w k (length idx) of
           Inl e \<Rightarrow> Fail (NoPorts e)
         | Inr ports \<Rightarrow>
             obind (fail_as NoConfig (BuildProbeConfig (map ((!) items) idx) ports)) (\<lambda>cfg.
               case pw_start w k cfg of
                 Some e \<Rightarrow> Fail (NotReady e)
               | None \<Rightarrow> Ok (measure_all w op k ports idx out))))"

text \<open>A run of batches yields the state, or nothing when the program panics.\<close>

function probeBatch :: "probe_world \<Rightarrow> probe_options \<Rightarrow> probe_item list \<Rightarrow> nat list \<Rightarrow> run_state \<Rightarrow> run_state option" where
  "probeBatch w op items idx s =
     (if idx = [] then Some s
      else (case runProbeBatch w op items idx s of
              Panic \<Rightarrow> None
            | Ok out \<Rightarrow> Some (Suc (fst s), out)
            | Fail e \<Rightarrow>
                if pw_cancelled w (fst s) then Some (Suc (fst s), snd s)
                else if length idx = 1
                then Some (Suc (fst s), (snd s)[hd idx := (snd s ! hd idx)\<lparr>ir_Err := Some (InstanceDown e)\<rparr>])
                else let half = length idx div 2
                     in Option.bind (probeBatch w op items (take half idx) (Suc (fst s), snd s))
                          (\<lambda>s'. probeBatch w op items (drop half idx) s')))"
  by pat_completeness auto
termination
  by (relation "measure (\<lambda>(w, op, items, idx, s). length idx)") (auto simp: neq_Nil_conv)

declare probeBatch.simps [simp del]

fun probe_batches :: "probe_world \<Rightarrow> probe_options \<Rightarrow> probe_item list \<Rightarrow> nat list list \<Rightarrow> run_state \<Rightarrow> run_state option" where
  "probe_batches w op items [] s = Some s"
| "probe_batches w op items (b # bs) s =
     Option.bind (probeBatch w op items b s) (\<lambda>s'.
       if pw_cancelled w (fst s' - 1) then Some s' else probe_batches w op items bs s')"

definition blank_result :: "probe_item \<Rightarrow> item_result" where
  "blank_result it = \<lparr>ir_ID = pi_ID it, ir_Name = pi_Name it, ir_Fingerprint = pi_Fingerprint it,
     ir_LatencyMs = 0, ir_Err = None, ir_Passed = 0\<rparr>"

text \<open>An item whose JSON does not decode into an object is answered up front; \<^verbatim>\<open>null\<close> does decode.\<close>

definition item_flaw :: "probe_item \<Rightarrow> probe_error option" where
  "item_flaw it =
     (if to_map (pi_Outbound it) = BadJson then Some BadItem
      else case pi_Via it of None \<Rightarrow> None | Some v \<Rightarrow> if to_map v = BadJson then Some BadVia else None)"

definition batch_size :: "probe_options \<Rightarrow> nat" where
  "batch_size op = (if po_Batch op \<le> 0 then defaultProbeBatch else nat (po_Batch op))"

definition ProbeOutbounds :: "probe_world \<Rightarrow> probe_options \<Rightarrow> probe_item list \<Rightarrow> item_result list option" where
  "ProbeOutbounds w op items =
     (if items = [] then Some []
      else if po_Bin op = [] then Some (map (\<lambda>it. (blank_result it)\<lparr>ir_Err := Some NoBinary\<rparr>) items)
      else let out = map (\<lambda>it. (blank_result it)\<lparr>ir_Err := item_flaw it\<rparr>) items;
               idx = filter (\<lambda>i. item_flaw (items ! i) = None) [0..<length items]
           in map_option snd (probe_batches w op items (planProbeBatches items idx (batch_size op)) (0, out)))"

end
