(* ===== verification/Server_Subs.thy ===== *)
theory Server_Subs
  imports Server Probe
begin

text \<open>
  The requests about subscriptions, backups, settings and tests (\<^verbatim>\<open>daemon/server_sub.go\<close>, \<^verbatim>\<open>daemon/server_backup.go\<close>,
  \<^verbatim>\<open>daemon/server_diag.go\<close>, \<^verbatim>\<open>daemon/server_probe.go\<close>).
\<close>

section \<open>Subscriptions\<close>

record sub_info =
  si_Sub :: subscription
  si_NodeCount :: nat
  si_ActiveCount :: nat
  si_Strategy :: string

definition subInfo :: "db \<Rightarrow> subscription \<Rightarrow> sub_info" where
  "subInfo d s =
     \<lparr>si_Sub = s, si_NodeCount = length (sub_nodes d (sub_ID s)), si_ActiveCount = length (ActiveNodes d (sub_ID s)),
      si_Strategy = EffectiveStrategy s\<rparr>"

text \<open>A refresh on request; the pool is synced when it succeeds.\<close>

definition refresh_one :: "'p server \<Rightarrow> (store_error \<Rightarrow> string) \<Rightarrow> 'p turn \<Rightarrow> fetch_event \<Rightarrow> nat \<Rightarrow> 'p box \<Rightarrow> ('p, refresh_result) served" where
  "refresh_one sv txt tn ev i b =
     (case RefreshOne (sv_orm sv) txt ev (bx_db b) i of
        (d, changed, r) \<Rightarrow>
          let b1 = with_db d b
          in (case r of
                Ok res \<Rightarrow> SyncDialerMembers sv tn b1 res
              | Fail e \<Rightarrow> (b1, Fail (FetchErr e))
              | Panic \<Rightarrow> (b1, Panic)))"

record sub_request =
  sq_Name :: string
  sq_Url :: string
  sq_UserAgent :: string
  sq_IntervalSec :: int
  sq_NodeCap :: int

definition requested_sub :: "sub_request \<Rightarrow> subscription" where
  "requested_sub rq =
     \<lparr>sub_ID = 0, sub_Name = sq_Name rq, sub_URL = sq_Url rq, sub_UserAgent = sq_UserAgent rq, sub_IntervalSec = sq_IntervalSec rq,
      sub_NodeCap = sq_NodeCap rq, sub_Enabled = True, sub_Strategy = [], sub_LastFetched = None, sub_LastError = [],
      sub_Upload = 0, sub_Download = 0, sub_Total = 0, sub_Expire = 0\<rparr>"

text \<open>A failed first refresh is not an error of the request.\<close>

definition SubAdd :: "'p server \<Rightarrow> (store_error \<Rightarrow> string) \<Rightarrow> 'p turn \<Rightarrow> fetch_event \<Rightarrow> sub_request \<Rightarrow> 'p box \<Rightarrow> ('p, sub_info) served" where
  "SubAdd sv txt tn ev rq b =
     stored b (CreateSubscription (sv_orm sv) (bx_db b) (requested_sub rq)) (\<lambda>d.
       case refresh_one sv txt tn ev (db_next (bx_db b)) (with_db d b) of
         (b1, Panic) \<Rightarrow> (b1, Panic)
       | (b1, _) \<Rightarrow> stored b1 (GetSubscription (bx_db b1) (db_next (bx_db b))) (\<lambda>s. (b1, Ok (subInfo (bx_db b1) s))))"

definition SubList :: "'p box \<Rightarrow> sub_info list" where
  "SubList b = map (subInfo (bx_db b)) (ListSubscriptions (bx_db b))"

definition SubRemove :: "'p server \<Rightarrow> 'p turn \<Rightarrow> nat \<Rightarrow> 'p box \<Rightarrow> ('p, unit) served" where
  "SubRemove sv tn i b = SyncDialerMembers sv tn (with_db (DeleteSubscription (bx_db b) i) b) ()"

definition SubSetEnabled :: "'p server \<Rightarrow> 'p turn \<Rightarrow> nat \<Rightarrow> bool \<Rightarrow> 'p box \<Rightarrow> ('p, unit) served" where
  "SubSetEnabled sv tn i on b =
     stored b (SetSubEnabled (bx_db b) i on) (\<lambda>d. SyncDialerMembers sv tn (with_db d b) ())"

record sub_options =
  so_IntervalSec :: int
  so_NodeCap :: int
  so_UserAgent :: string
  so_Strategy :: string

definition SubSetOptions :: "'p server \<Rightarrow> 'p turn \<Rightarrow> nat \<Rightarrow> sub_options \<Rightarrow> 'p box \<Rightarrow> ('p, sub_info) served" where
  "SubSetOptions sv tn i rq b =
     stored b (GetSubscription (bx_db b) i) (\<lambda>s0.
       let s1 = s0\<lparr>sub_IntervalSec := so_IntervalSec rq, sub_NodeCap := so_NodeCap rq, sub_UserAgent := so_UserAgent rq\<rparr>
       in case (if so_Strategy rq = [] then Inr (sub_Strategy s1) else ParseStrategy (so_Strategy rq)) of
            Inl e \<Rightarrow> (b, Fail (BadStrategy e))
          | Inr st \<Rightarrow>
              let s2 = s1\<lparr>sub_Strategy := st\<rparr>
              in stored b (UpdateSubscription (sv_orm sv) (bx_db b) s2) (\<lambda>d.
                   case SyncDialerMembers sv tn (with_db d b) () of
                     (b', Ok _) \<Rightarrow> (b', Ok (subInfo (bx_db b') s2))
                   | (b', Fail e) \<Rightarrow> (b', Fail e)
                   | (b', Panic) \<Rightarrow> (b', Panic)))"

record node_info =
  ni_Node :: sub_node
  ni_Disabled :: bool
  ni_Pinned :: bool
  ni_ParkedUntil :: "time option"
  ni_Rejected :: string

text \<open>The parked nodes and the reasons of the rejected ones are those of the supervisor.\<close>

definition SubNodes :: "(string, time) dict \<Rightarrow> (string, string) dict \<Rightarrow> db \<Rightarrow> nat \<Rightarrow> node_info list" where
  "SubNodes parked_nodes rejected d i =
     map (\<lambda>n. \<lparr>ni_Node = n, ni_Disabled = (nd_Fingerprint n \<in> set (DisabledFingerprints d i)),
               ni_Pinned = (nd_Fingerprint n \<in> set (PinnedFingerprints d i)),
               ni_ParkedUntil = map_of parked_nodes (nd_Fingerprint n),
               ni_Rejected = dget_or [] rejected (nd_Fingerprint n)\<rparr>) (sub_nodes d i)"

definition SubSetNodeDisabled :: "'p server \<Rightarrow> 'p turn \<Rightarrow> nat \<Rightarrow> string \<Rightarrow> bool \<Rightarrow> 'p box \<Rightarrow> ('p, unit) served" where
  "SubSetNodeDisabled sv tn i fp off b =
     stored b (SetNodeDisabled (bx_db b) i fp off) (\<lambda>d. SyncDialerMembers sv tn (with_db d b) ())"

definition SubSetNodePinned :: "'p server \<Rightarrow> 'p turn \<Rightarrow> nat \<Rightarrow> string \<Rightarrow> bool \<Rightarrow> bool \<Rightarrow> 'p box \<Rightarrow> ('p, unit) served" where
  "SubSetNodePinned sv tn i fp pin clearAll b =
     stored b (if clearAll then ClearPins (bx_db b) i else SetNodePinned (bx_db b) i fp pin)
       (\<lambda>d. SyncDialerMembers sv tn (with_db d b) ())"

definition SubRename :: "'p server \<Rightarrow> 'p turn \<Rightarrow> nat \<Rightarrow> string \<Rightarrow> 'p box \<Rightarrow> ('p, unit) served" where
  "SubRename sv tn i newName b =
     stored b (GetSubscription (bx_db b) i) (\<lambda>s.
       stored b (RenameSubscription (bx_db b) i newName) (\<lambda>d.
         SyncDialerMembers sv tn
           ((with_db d b)\<lparr>bx_sup := RenamedRef RefXraySub (sub_Name s) (NormalizeName newName) (bx_sup b)\<rparr>) ()))"

section \<open>Backups\<close>

record backup =
  bk_Version :: int
  bk_Inbounds :: "inbound list"
  bk_Entries :: "xray_entry list"
  bk_Subs :: "subscription list"

definition backupVersion :: int where "backupVersion = 1"

definition ExportConfig :: "db \<Rightarrow> backup" where
  "ExportConfig d =
     \<lparr>bk_Version = backupVersion, bk_Inbounds = ListInbounds d, bk_Entries = ListEntries d, bk_Subs = ListSubscriptions d\<rparr>"

text \<open>One kind of rows: a row whose name is taken is skipped in a merge; the first row that the store refuses ends the
  import, with the rows before it stored.\<close>

fun import_rows :: "bool \<Rightarrow> string \<Rightarrow> ('r \<Rightarrow> string) \<Rightarrow> (db \<Rightarrow> string \<Rightarrow> bool) \<Rightarrow> (db \<Rightarrow> 'r \<Rightarrow> (store_error, db) outcome) \<Rightarrow>
    'r list \<Rightarrow> db \<Rightarrow> db \<times> (serve_error, nat \<times> string list) outcome" where
  "import_rows replace what name known create [] d = (d, Ok (0, []))"
| "import_rows replace what name known create (r # rs) d =
     (if \<not> replace \<and> known d (name r) then
        (case import_rows replace what name known create rs d of
           (d', Ok (n, skipped)) \<Rightarrow> (d', Ok (n, (what @ '':'' @ name r) # skipped))
         | res \<Rightarrow> res)
      else (case create d r of
              Fail e \<Rightarrow> (d, Fail (ImportErr what (name r) e))
            | Panic \<Rightarrow> (d, Panic)
            | Ok d1 \<Rightarrow>
                (case import_rows replace what name known create rs d1 of
                   (d', Ok (n, skipped)) \<Rightarrow> (d', Ok (Suc n, skipped))
                 | res \<Rightarrow> res)))"

definition is_ok :: "('e, 'a) outcome \<Rightarrow> bool" where
  "is_ok r = (case r of Ok _ \<Rightarrow> True | _ \<Rightarrow> False)"

definition drop_row :: "('e, 'a \<times> 'b) outcome \<Rightarrow> ('e, 'a) outcome" where
  "drop_row r = obind r (\<lambda>(x, _). Ok x)"

definition import_inbounds :: "(bool \<Rightarrow> bool) \<Rightarrow> bool \<Rightarrow> inbound list \<Rightarrow> db \<Rightarrow> db \<times> (serve_error, nat \<times> string list) outcome" where
  "import_inbounds orm replace =
     import_rows replace ''inbound'' in_Name (\<lambda>d n. is_ok (GetInboundByName d n)) (\<lambda>d i. drop_row (CreateInbound orm d (i\<lparr>in_ID := 0\<rparr>)))"

definition import_entries :: "(bool \<Rightarrow> bool) \<Rightarrow> bool \<Rightarrow> xray_entry list \<Rightarrow> db \<Rightarrow> db \<times> (serve_error, nat \<times> string list) outcome" where
  "import_entries orm replace =
     import_rows replace ''entry'' e_Name (\<lambda>d n. is_ok (GetEntryByName d n)) (\<lambda>d e. drop_row (CreateEntry orm d (e\<lparr>e_ID := 0\<rparr>)))"

definition import_subs :: "(bool \<Rightarrow> bool) \<Rightarrow> bool \<Rightarrow> subscription list \<Rightarrow> db \<Rightarrow> db \<times> (serve_error, nat \<times> string list) outcome" where
  "import_subs orm replace =
     import_rows replace ''sub'' sub_Name (\<lambda>d n. is_ok (GetSubscriptionByName d n)) (\<lambda>d s. CreateSubscription orm d (s\<lparr>sub_ID := 0\<rparr>))"

text \<open>The master of a backup whose outbound cannot have a dialer.\<close>

definition backup_error :: "backup \<Rightarrow> serve_error option" where
  "backup_error bk =
     first_error (\<lambda>e. if IsMaster e then map_option (HasDialer (e_Name e)) (CheckMasterOutbound (e_Outbound e)) else None) (bk_Entries bk)"

record import_reply =
  ir_Inbounds :: nat
  ir_Entries :: nat
  ir_Subs :: nat
  ir_Skipped :: "string list"

definition import_all :: "(bool \<Rightarrow> bool) \<Rightarrow> bool \<Rightarrow> backup \<Rightarrow> db \<Rightarrow> db \<times> (serve_error, import_reply) outcome" where
  "import_all orm replace bk d0 =
     (case import_inbounds orm replace (bk_Inbounds bk) d0 of
        (d1, Fail e) \<Rightarrow> (d1, Fail e)
      | (d1, Panic) \<Rightarrow> (d1, Panic)
      | (d1, Ok (n1, s1)) \<Rightarrow>
          (case import_entries orm replace (bk_Entries bk) d1 of
             (d2, Fail e) \<Rightarrow> (d2, Fail e)
           | (d2, Panic) \<Rightarrow> (d2, Panic)
           | (d2, Ok (n2, s2)) \<Rightarrow>
               (case import_subs orm replace (bk_Subs bk) d2 of
                  (d3, Fail e) \<Rightarrow> (d3, Fail e)
                | (d3, Panic) \<Rightarrow> (d3, Panic)
                | (d3, Ok (n3, s3)) \<Rightarrow>
                    (d3, Ok \<lparr>ir_Inbounds = n1, ir_Entries = n2, ir_Subs = n3, ir_Skipped = s1 @ s2 @ s3\<rparr>))))"

text \<open>A backup that does not decode is \<open>None\<close>. The refresh of the new subscriptions that follows runs on its own.\<close>

definition ImportConfig :: "'p server \<Rightarrow> 'p turn \<Rightarrow> bool \<Rightarrow> backup option \<Rightarrow> 'p box \<Rightarrow> ('p, import_reply) served" where
  "ImportConfig sv tn replace decoded b =
     (case decoded of
        None \<Rightarrow> (b, Fail InvalidJson)
      | Some bk \<Rightarrow>
          if backupVersion < bk_Version bk then (b, Fail BackupTooNew)
          else (case backup_error bk of
                  Some e \<Rightarrow> (b, Fail e)
                | None \<Rightarrow>
                    (case import_all (sv_orm sv) replace bk (if replace then DeleteAllConfig (bx_db b) else bx_db b) of
                       (d, Fail e) \<Rightarrow> (with_db d b, Fail e)
                     | (d, Panic) \<Rightarrow> (with_db d b, Panic)
                     | (d, Ok reply) \<Rightarrow> reconciled sv tn (with_db d b) reply)))"

section \<open>Settings\<close>

text \<open>A handler that stores a setting when the request says so, and reads it back; some settings reconcile.\<close>

definition SetLogLevel :: "'p server \<Rightarrow> 'p turn \<Rightarrow> string \<Rightarrow> 'p box \<Rightarrow> ('p, string) served" where
  "SetLogLevel sv tn level b =
     (if level = [] then (b, Ok (LogLevel (bx_db b)))
      else if \<not> ValidLogLevel level then (b, Fail BadSetting)
      else (case reconciled sv tn (with_db (SetSetting ''loglevel'' level (bx_db b)) b) () of
              (b', Ok _) \<Rightarrow> (b', Ok (LogLevel (bx_db b')))
            | (b', Fail e) \<Rightarrow> (b', Fail e)
            | (b', Panic) \<Rightarrow> (b', Panic)))"

definition LogCap :: "int option \<Rightarrow> 'p box \<Rightarrow> ('p, int) served" where
  "LogCap change b =
     (case change of
        None \<Rightarrow> (b, Ok (LogMaxMB (bx_db b)))
      | Some mb \<Rightarrow>
          if mb < 0 then (b, Fail BadSetting)
          else (let b' = with_db (SetSetting ''log_max_mb'' (itoa mb) (bx_db b)) b in (b', Ok (LogMaxMB (bx_db b')))))"

definition ProbeInterval :: "'p server \<Rightarrow> 'p turn \<Rightarrow> int option \<Rightarrow> 'p box \<Rightarrow> ('p, int) served" where
  "ProbeInterval sv tn change b =
     (case change of
        None \<Rightarrow> (b, Ok (ProbeIntervalSec (bx_db b)))
      | Some n \<Rightarrow>
          if n < 5 \<or> 3600 < n then (b, Fail BadSetting)
          else (case reconciled sv tn (with_db (SetSetting ''probe_interval_sec'' (itoa n) (bx_db b)) b) () of
                  (b', Ok _) \<Rightarrow> (b', Ok (ProbeIntervalSec (bx_db b')))
                | (b', Fail e) \<Rightarrow> (b', Fail e)
                | (b', Panic) \<Rightarrow> (b', Panic)))"

definition TrafficRetention :: "int option \<Rightarrow> 'p box \<Rightarrow> ('p, int) served" where
  "TrafficRetention change b =
     (case change of
        None \<Rightarrow> (b, Ok (TrafficDays (bx_db b)))
      | Some days \<Rightarrow>
          if days < 1 then (b, Fail BadSetting)
          else (let b' = with_db (SetSetting ''traffic_days'' (itoa days) (bx_db b)) b in (b', Ok (TrafficDays (bx_db b')))))"

section \<open>Tests\<close>

definition entry_item :: "xray_entry \<Rightarrow> probe_item" where
  "entry_item e = \<lparr>pi_ID = e_ID e, pi_Name = e_Name e, pi_Fingerprint = [], pi_Outbound = e_Outbound e, pi_Via = None\<rparr>"

definition node_item :: "sub_node \<Rightarrow> probe_item" where
  "node_item n = \<lparr>pi_ID = 0, pi_Name = nd_Name n, pi_Fingerprint = nd_Fingerprint n, pi_Outbound = nd_Outbound n,
     pi_Via = None\<rparr>"

definition testItems :: "db \<Rightarrow> string \<Rightarrow> nat \<Rightarrow> string \<Rightarrow> (serve_error, probe_item list \<times> nat) outcome" where
  "testItems d kind i fp =
     (if kind = ''entry'' then
        (case GetEntry d i of Ok e \<Rightarrow> Ok ([entry_item e], 0) | Fail er \<Rightarrow> Fail (StoreErr er) | Panic \<Rightarrow> Panic)
      else if kind = ''entries'' \<or> kind = [] then Ok (map entry_item (ListEntries d), 0)
      else if kind = ''sub'' then
        (case GetSubscription d i of
           Ok s \<Rightarrow> Ok (map node_item (sub_nodes d (sub_ID s)), sub_ID s) | Fail er \<Rightarrow> Fail (StoreErr er) | Panic \<Rightarrow> Panic)
      else if kind = ''node'' then
        (case List.find (\<lambda>n. nd_Fingerprint n = fp) (sub_nodes d i) of
           Some n \<Rightarrow> Ok ([node_item n], i) | None \<Rightarrow> Fail (NoSuchNode fp i))
      else Fail (UnknownTestKind kind))"

text \<open>The latencies of nodes are kept, a failed probe as none.\<close>

definition store_latencies :: "nat \<Rightarrow> item_result list \<Rightarrow> db \<Rightarrow> db" where
  "store_latencies subID results d =
     fold (\<lambda>r d. if subID \<noteq> 0 \<and> ir_Fingerprint r \<noteq> [] then SetNodeLatency d subID (ir_Fingerprint r) (ir_LatencyMs r) else d)
       results d"

text \<open>The path of the extracted xray binary, or why it could not be extracted, is an argument.\<close>

definition Test :: "probe_world \<Rightarrow> string + string \<Rightarrow> string \<Rightarrow> nat \<Rightarrow> string \<Rightarrow> 'p box \<Rightarrow> ('p, item_result list) served" where
  "Test w bin kind i fp b =
     (case testItems (bx_db b) kind i fp of
        Fail e \<Rightarrow> (b, Fail e)
      | Panic \<Rightarrow> (b, Panic)
      | Ok (items, subID) \<Rightarrow>
          if items = [] then (b, Ok [])
          else (case bin of
                  Inl e \<Rightarrow> (b, Fail (ExtractErr e))
                | Inr path \<Rightarrow>
                    (case ProbeOutbounds w \<lparr>po_Bin = path, po_Batch = 0, po_Attempts = 0, po_MinBytes = 0\<rparr> items of
                       None \<Rightarrow> (b, Panic)
                     | Some rs \<Rightarrow> (with_db (store_latencies subID rs (bx_db b)) b, Ok rs))))"

end
