(* ===== verification/Probe_Props.thy ===== *)
theory Probe_Props
  imports Probe
begin

text \<open>
  What a run of latency tests promises: no batch measures one hysteria endpoint twice, each test goes through the outbound
  of its own item, an item is blamed for an xray that does not come up only when it was alone in it, and a run that is
  not cancelled answers every item after a bounded number of starts.
\<close>

section \<open>Packing\<close>

lemma place_cases:
  "b \<in> set (place room ep i bs) \<Longrightarrow>
     b \<in> set bs \<or> b = ([i], if ep = [] then [] else [ep]) \<or>
     (\<exists>b0 \<in> set bs. length (fst b0) < room \<and> (ep = [] \<or> ep \<notin> set (snd b0)) \<and>
        b = (fst b0 @ [i], if ep = [] then snd b0 else ep # snd b0))"
  by (induction room ep i bs rule: place.induct) (auto split: if_splits)

lemma mset_place: "mset (concat (map fst (place room ep i bs))) = add_mset i (mset (concat (map fst bs)))"
  by (induction room ep i bs rule: place.induct) auto

definition batch_ok :: "(nat \<Rightarrow> string) \<Rightarrow> nat \<Rightarrow> nat list \<Rightarrow> batch \<Rightarrow> bool" where
  "batch_ok f room idx b \<longleftrightarrow>
     length (fst b) \<le> max 1 room \<and> subseq (fst b) idx \<and> distinct (filter (\<lambda>e. e \<noteq> []) (map f (fst b))) \<and>
     set (snd b) = set (filter (\<lambda>e. e \<noteq> []) (map f (fst b)))"

lemma batch_ok_place:
  assumes "\<forall>b \<in> set bs. batch_ok f room idx b" and "b \<in> set (place room (f i) i bs)"
  shows "batch_ok f room (idx @ [i]) b"
  using place_cases [OF assms(2)]
proof (elim disjE)
  assume "b \<in> set bs"
  then show ?thesis using assms(1) by (auto simp: batch_ok_def)
next
  assume "b = ([i], if f i = [] then [] else [f i])"
  then show ?thesis by (simp add: batch_ok_def subseq_singleton_left)
next
  assume "\<exists>b0 \<in> set bs. length (fst b0) < room \<and> (f i = [] \<or> f i \<notin> set (snd b0)) \<and>
    b = (fst b0 @ [i], if f i = [] then snd b0 else f i # snd b0)"
  then obtain b0 where b0: "b0 \<in> set bs" "length (fst b0) < room" "f i = [] \<or> f i \<notin> set (snd b0)"
    "b = (fst b0 @ [i], if f i = [] then snd b0 else f i # snd b0)" by blast
  then have "batch_ok f room idx b0" using assms(1) by blast
  then show ?thesis using b0 by (auto simp: batch_ok_def)
qed

lemma plan_from:
  assumes "\<forall>b \<in> set bs. batch_ok f room pre b" "mset (concat (map fst bs)) = mset pre"
  shows "(\<forall>b \<in> set (fold (\<lambda>i. place room (f i) i) idx bs). batch_ok f room (pre @ idx) b) \<and>
    mset (concat (map fst (fold (\<lambda>i. place room (f i) i) idx bs))) = mset (pre @ idx)"
  using assms
proof (induction idx arbitrary: bs pre)
  case (Cons i idx)
  have "\<forall>b \<in> set (place room (f i) i bs). batch_ok f room (pre @ [i]) b"
    using batch_ok_place [OF Cons.prems(1)] by blast
  moreover have "mset (concat (map fst (place room (f i) i bs))) = mset (pre @ [i])"
    using Cons.prems(2) by (simp add: mset_place)
  ultimately have "(\<forall>b \<in> set (fold (\<lambda>i. place room (f i) i) idx (place room (f i) i bs)).
      batch_ok f room ((pre @ [i]) @ idx) b) \<and>
    mset (concat (map fst (fold (\<lambda>i. place room (f i) i) idx (place room (f i) i bs)))) = mset ((pre @ [i]) @ idx)"
    by (rule Cons.IH)
  then show ?case by simp
qed simp

lemma plan_batch_ok: "b \<in> set (fold (\<lambda>i. place room (f i) i) idx []) \<Longrightarrow> batch_ok f room idx b"
  using plan_from [of "[]" f room "[]" idx] by simp

lemma mset_plan: "mset (concat (planProbeBatches items idx room)) = mset idx"
  using plan_from [of "[]" "\<lambda>i. probeHysteriaEndpoint (items ! i)" room "[]" idx] by (simp add: planProbeBatches_def)

text \<open>The batches of a run hold every item to test exactly once, in the order given, at most as many as there is room
  for, and no two of a batch dial the same hysteria endpoint, whose connection xray would share between them.\<close>

theorem planProbeBatches_ok:
  fixes items :: "probe_item list"
  shows "mset (concat (planProbeBatches items idx room)) = mset idx \<and>
    list_all (\<lambda>b. length b \<le> max 1 room \<and> subseq b idx \<and>
      distinct (filter (\<lambda>e. e \<noteq> []) (map (\<lambda>i. probeHysteriaEndpoint (items ! i)) b))) (planProbeBatches items idx room)"
proof
  show "mset (concat (planProbeBatches items idx room)) = mset idx" by (rule mset_plan)
  show "list_all (\<lambda>b. length b \<le> max 1 room \<and> subseq b idx \<and>
      distinct (filter (\<lambda>e. e \<noteq> []) (map (\<lambda>i. probeHysteriaEndpoint (items ! i)) b))) (planProbeBatches items idx room)"
    using plan_batch_ok [where f = "\<lambda>i. probeHysteriaEndpoint (items ! i)" and room = room and idx = idx]
    by (auto simp: list_all_iff planProbeBatches_def batch_ok_def)
qed

section \<open>The config of a batch\<close>

lemma fail_as_Ok [simp]: "fail_as f r = Ok x \<longleftrightarrow> r = Ok x"
  by (cases r) (simp_all add: fail_as_def)

lemma fail_as_Panic [simp]: "fail_as f r = Panic \<longleftrightarrow> r = Panic"
  by (cases r) (simp_all add: fail_as_def)

lemma probe_tags_inj [simp]:
  "probe_out i = probe_out j \<longleftrightarrow> i = j" "probe_via i = probe_via j \<longleftrightarrow> i = j" "probe_in i = probe_in j \<longleftrightarrow> i = j"
  "probe_out i \<noteq> probe_via j" "probe_via j \<noteq> probe_out i"
  "probe_out i \<noteq> ''block''" "probe_via i \<noteq> ''block''" "''block'' \<noteq> probe_out i" "''block'' \<noteq> probe_via i"
  by (auto simp: probe_out_def probe_via_def probe_in_def nat_str_inj)

definition tag_of_ob :: "object \<Rightarrow> json option" where
  "tag_of_ob ob = map_of ob ''tag''"

lemma item_outbounds_tags:
  "item_outbounds i it = Ok obs \<Longrightarrow>
     map tag_of_ob obs = (if pi_Via it = None then [] else [Some (JStr (probe_via i))]) @ [Some (JStr (probe_out i))]"
  by (auto simp: item_outbounds_def tag_of_ob_def entryOutbound_tag split: option.splits)

lemma item_outbounds_last:
  "item_outbounds i it = Ok obs \<Longrightarrow>
     \<exists>ob \<in> set obs. tag_of_ob ob = Some (JStr (probe_out i)) \<and>
       dialerProxy_of ob = (if pi_Via it = None then None else Some (JStr (probe_via i)))"
  by (auto simp: item_outbounds_def tag_of_ob_def entryOutbound_tag split: option.splits)

definition item_tags :: "nat \<times> probe_item \<Rightarrow> json option list" where
  "item_tags p = (if pi_Via (snd p) = None then [] else [Some (JStr (probe_via (fst p)))]) @ [Some (JStr (probe_out (fst p)))]"

lemma all_item_tags:
  "omap (\<lambda>(i, it). item_outbounds i it) ps = Ok obs \<Longrightarrow> map tag_of_ob (concat obs) = concat (map item_tags ps)"
proof (induction ps arbitrary: obs)
  case (Cons p ps)
  then obtain o1 os where "item_outbounds (fst p) (snd p) = Ok o1" "omap (\<lambda>(i, it). item_outbounds i it) ps = Ok os" "obs = o1 # os"
    by (auto simp: case_prod_unfold)
  then show ?case using Cons.IH [of os] item_outbounds_tags [of "fst p" "snd p" o1] by (simp add: item_tags_def)
qed simp

lemma item_tags_mem:
  "t \<in> set (item_tags p) \<Longrightarrow> t = Some (JStr (probe_out (fst p))) \<or> t = Some (JStr (probe_via (fst p)))"
  by (auto simp: item_tags_def split: if_splits)

lemma item_tags_apart: "fst p \<noteq> fst q \<Longrightarrow> t \<in> set (item_tags p) \<Longrightarrow> t \<notin> set (item_tags q)"
  by (auto dest!: item_tags_mem)

lemma distinct_item_tags: "distinct (map fst ps) \<Longrightarrow> distinct (concat (map item_tags ps))"
proof (induction ps)
  case (Cons p ps)
  have "t \<notin> set (concat (map item_tags ps))" if "t \<in> set (item_tags p)" for t
  proof
    assume "t \<in> set (concat (map item_tags ps))"
    then obtain q where "q \<in> set ps" "t \<in> set (item_tags q)" by auto
    moreover have "fst p \<noteq> fst q" using Cons.prems \<open>q \<in> set ps\<close> by auto
    ultimately show False using item_tags_apart that by blast
  qed
  moreover have "distinct (item_tags p)" by (simp add: item_tags_def)
  ultimately show ?case using Cons by auto
qed simp

lemma omap_nth: "omap f xs = Ok ys \<Longrightarrow> i < length xs \<Longrightarrow> f (xs ! i) = Ok (ys ! i) \<and> i < length ys"
  by (auto simp: omap_Ok list_all2_conv_all_nth)

definition outbounds_of :: "json \<Rightarrow> object list" where
  "outbounds_of cfg = (case cfg of JObj d \<Rightarrow> map obj_or_empty (arr_at d ''outbounds'') | _ \<Rightarrow> [])"

definition rules_of :: "json \<Rightarrow> json list" where
  "rules_of cfg = (case cfg of JObj d \<Rightarrow> arr_at (obj_or_nil d ''routing'') ''rules'' | _ \<Rightarrow> [])"

definition inbounds_of :: "json \<Rightarrow> json list" where
  "inbounds_of cfg = (case cfg of JObj d \<Rightarrow> arr_at d ''inbounds'' | _ \<Rightarrow> [])"

lemma obj_or_empty_JObj [simp]: "obj_or_empty (JObj d) = d"
  by (simp add: obj_or_empty_def)

lemma BuildProbeConfig_parts:
  assumes "BuildProbeConfig items ports = Ok cfg"
  obtains obs where "length items = length ports" "omap (\<lambda>(i, it). item_outbounds i it) (enumerate 0 items) = Ok obs"
    "outbounds_of cfg = probe_block # concat obs" "rules_of cfg = map probe_rule [0..<length items]"
    "inbounds_of cfg = map (\<lambda>(i, p). probe_inbound i p) (enumerate 0 ports)"
proof -
  from assms obtain obs where "length items = length ports"
    and o: "omap (\<lambda>(i, it). item_outbounds i it) (enumerate 0 items) = Ok obs"
    and cfg: "cfg = jobj
          [(''log'', jobj [(''loglevel'', JStr ''warning'')]),
           (''inbounds'', JArr (map (\<lambda>(i, p). probe_inbound i p) (enumerate 0 ports))),
           (''outbounds'', JArr (map JObj (probe_block # concat obs))),
           (''routing'', jobj [(''rules'', JArr (map probe_rule [0..<length items]))])]"
    by (auto simp: BuildProbeConfig_def split: if_splits)
  moreover have "outbounds_of cfg = probe_block # concat obs"
    by (simp add: cfg outbounds_of_def arr_at_def dict_simps comp_def)
  moreover have "rules_of cfg = map probe_rule [0..<length items]"
    by (simp add: cfg rules_of_def arr_at_def obj_or_nil_def obj_at_def dict_simps)
  moreover have "inbounds_of cfg = map (\<lambda>(i, p). probe_inbound i p) (enumerate 0 ports)"
    by (simp add: cfg inbounds_of_def arr_at_def dict_simps)
  ultimately show thesis using that by blast
qed

text \<open>C33. In the config of a batch every socks port leads to the outbound of its own item and nowhere else: the first
  outbound, which takes what no rule matches, is the blackhole, no two outbounds share a tag, the outbound of an item dials
  directly or through the outbound it is chained through, which is there too.\<close>

theorem probe_config_routes:
  assumes "BuildProbeConfig items ports = Ok cfg" and "i < length items"
  shows "hd (outbounds_of cfg) = probe_block \<and> distinct (map tag_of_ob (outbounds_of cfg)) \<and>
    inbounds_of cfg ! i = probe_inbound i (ports ! i) \<and> rules_of cfg ! i = probe_rule i \<and>
    (\<exists>ob \<in> set (outbounds_of cfg). tag_of_ob ob = Some (JStr (probe_out i)) \<and>
       dialerProxy_of ob = (if pi_Via (items ! i) = None then None else Some (JStr (probe_via i)))) \<and>
    (pi_Via (items ! i) \<noteq> None \<longrightarrow> Some (JStr (probe_via i)) \<in> tag_of_ob ` set (outbounds_of cfg))"
proof -
  from BuildProbeConfig_parts [OF assms(1)] obtain obs where parts: "length items = length ports"
    and o: "omap (\<lambda>(i, it). item_outbounds i it) (enumerate 0 items) = Ok obs"
    and ob: "outbounds_of cfg = probe_block # concat obs" and r: "rules_of cfg = map probe_rule [0..<length items]"
    and inb: "inbounds_of cfg = map (\<lambda>(i, p). probe_inbound i p) (enumerate 0 ports)" by blast
  have ith: "item_outbounds i (items ! i) = Ok (obs ! i)" "i < length obs"
    using omap_nth [OF o, of i] assms(2) by (simp_all add: nth_enumerate_eq)
  then have sub: "set (obs ! i) \<subseteq> set (outbounds_of cfg)" by (auto simp: ob)
  have tags: "map tag_of_ob (concat obs) = concat (map item_tags (enumerate 0 items))" by (rule all_item_tags [OF o])
  have "tag_of_ob probe_block = Some (JStr ''block'')" by (simp add: tag_of_ob_def probe_block_def dict_simps)
  then have "distinct (map tag_of_ob (outbounds_of cfg))"
    using distinct_item_tags [of "enumerate 0 items"] by (auto simp: ob tags [simplified] dest!: item_tags_mem)
  moreover have "pi_Via (items ! i) \<noteq> None \<longrightarrow> Some (JStr (probe_via i)) \<in> tag_of_ob ` set (outbounds_of cfg)"
  proof
    assume "pi_Via (items ! i) \<noteq> None"
    then have "Some (JStr (probe_via i)) \<in> set (map tag_of_ob (obs ! i))" using item_outbounds_tags [OF ith(1)] by auto
    then show "Some (JStr (probe_via i)) \<in> tag_of_ob ` set (outbounds_of cfg)" using sub by auto
  qed
  moreover have "\<exists>ob \<in> set (outbounds_of cfg). tag_of_ob ob = Some (JStr (probe_out i)) \<and>
       dialerProxy_of ob = (if pi_Via (items ! i) = None then None else Some (JStr (probe_via i)))"
    using item_outbounds_last [OF ith(1)] sub by blast
  ultimately show ?thesis using assms(2) parts by (simp add: ob r inb nth_enumerate_eq)
qed

section \<open>Blame\<close>

lemma attempt_fold_err: "ir_Err (snd (fold attempt xs s)) = ir_Err (snd s)"
proof (induction xs arbitrary: s)
  case (Cons x xs)
  have "ir_Err (snd (attempt x s)) = ir_Err (snd s)"
    by (cases s) (auto simp: attempt_def split: sum.splits)
  then show ?case using Cons by simp
qed simp

lemma measure_item_err:
  "ir_Err (measure_item op xs r) = Some (InstanceDown e) \<Longrightarrow> ir_Err r = Some (InstanceDown e)"
  using attempt_fold_err [of "map (probeThrough (po_MinBytes op)) (take (attempts_of op) xs)" "(None, r)"]
  by (auto simp: measure_item_def split: prod.splits if_splits)

lemma measure_all_Nil [simp]: "measure_all w op k [] idx out = out" "measure_all w op k ps [] out = out"
  by (simp_all add: measure_all_def)

lemma measure_all_Cons [simp]:
  "measure_all w op k (p # ps) (j # idx) out = measure_all w op k ps idx (out[j := measure_item op (pw_meets w k p) (out ! j)])"
  by (simp add: measure_all_def)

lemma length_measure_all [simp]: "length (measure_all w op k ps idx out) = length out"
  by (induction ps idx arbitrary: out rule: list_induct2') auto

lemma measure_all_err:
  "ir_Err (measure_all w op k ps idx out ! j) = Some (InstanceDown e) \<Longrightarrow> ir_Err (out ! j) = Some (InstanceDown e)"
proof (induction ps idx arbitrary: out rule: list_induct2')
  case (4 p ps i idx)
  then have "ir_Err (out[i := measure_item op (pw_meets w k p) (out ! i)] ! j) = Some (InstanceDown e)" by simp
  then show ?case by (cases "j = i"; cases "i < length out") (auto simp: list_update_beyond dest: measure_item_err)
qed auto

lemma runProbeBatch_Ok:
  assumes "runProbeBatch w op items idx (k, out) = Ok out'"
  obtains ports cfg where "pw_ports w k (length idx) = Inr ports" "length ports = length idx"
    "BuildProbeConfig (map ((!) items) idx) ports = Ok cfg" "out' = measure_all w op k ports idx out"
  using assms by (auto simp: runProbeBatch_def BuildProbeConfig_def split: sum.splits option.splits if_splits)

text \<open>An xray that held the item alone did not come up.\<close>

definition fails_alone :: "probe_world \<Rightarrow> probe_options \<Rightarrow> probe_item list \<Rightarrow> nat \<Rightarrow> instance_error \<Rightarrow> bool" where
  "fails_alone w op items i e \<longleftrightarrow> (\<exists>k out. runProbeBatch w op items [i] (k, out) = Fail e)"

text \<open>A batch comes up, or the run was given up, or its only item is blamed, or its halves are run.\<close>

lemma probeBatch_rule:
  assumes "probeBatch w op items idx s = Some s'"
    and empty: "\<And>s. R [] s s"
    and up: "\<And>idx k out out'. idx \<noteq> [] \<Longrightarrow> runProbeBatch w op items idx (k, out) = Ok out' \<Longrightarrow> R idx (k, out) (Suc k, out')"
    and given_up: "\<And>idx k out. idx \<noteq> [] \<Longrightarrow> pw_cancelled w k \<Longrightarrow> R idx (k, out) (Suc k, out)"
    and blamed: "\<And>i k out e. runProbeBatch w op items [i] (k, out) = Fail e \<Longrightarrow>
      R [i] (k, out) (Suc k, out[i := (out ! i)\<lparr>ir_Err := Some (InstanceDown e)\<rparr>])"
    and halves: "\<And>idx k out s1 s'. 2 \<le> length idx \<Longrightarrow> R (take (length idx div 2) idx) (Suc k, out) s1 \<Longrightarrow>
      R (drop (length idx div 2) idx) s1 s' \<Longrightarrow> R idx (k, out) s'"
  shows "R idx s s'"
  using assms(1)
proof (induction "length idx" arbitrary: idx s s' rule: less_induct)
  case less
  obtain k out where s: "s = (k, out)" by fastforce
  note unfold = less.prems [unfolded s, unfolded probeBatch.simps [of w op items idx]]
  show ?case
  proof (cases "idx = []")
    case True
    then show ?thesis using unfold empty [of s] by (simp add: s)
  next
    case ne: False
    show ?thesis
    proof (cases "runProbeBatch w op items idx s")
      case (Ok out')
      then show ?thesis using unfold ne up [of idx k out out'] by (simp add: s)
    next
      case Panic
      then show ?thesis using unfold ne by (simp add: s)
    next
      case (Fail er)
      consider "pw_cancelled w k" | i where "\<not> pw_cancelled w k" "idx = [i]" | "\<not> pw_cancelled w k" "2 \<le> length idx"
        using ne by (cases idx rule: remdups_adj.cases) auto
      then show ?thesis
      proof cases
        case 1
        then show ?thesis using unfold ne Fail given_up [of idx k out] by (simp add: s)
      next
        case (2 i)
        then show ?thesis using unfold Fail blamed [of i k out er] by (simp add: s)
      next
        case 3
        let ?h = "length idx div 2"
        from 3 unfold ne Fail obtain s1 where h: "probeBatch w op items (take ?h idx) (Suc k, out) = Some s1"
          "probeBatch w op items (drop ?h idx) s1 = Some s'"
          by (auto simp: s Let_def bind_eq_Some_conv)
        have "R (take ?h idx) (Suc k, out) s1" by (rule less.hyps [OF _ h(1)]) (use 3 in auto)
        moreover have "R (drop ?h idx) s1 s'" by (rule less.hyps [OF _ h(2)]) (use 3 in auto)
        ultimately show ?thesis using halves 3 by (simp add: s)
      qed
    qed
  qed
qed

lemma probeBatch_blame:
  assumes "probeBatch w op items idx s = Some s'" "ir_Err (snd s' ! j) = Some (InstanceDown e)"
  shows "ir_Err (snd s ! j) = Some (InstanceDown e) \<or> fails_alone w op items j e"
proof -
  have "ir_Err (snd s' ! j) = Some (InstanceDown e) \<longrightarrow> ir_Err (snd s ! j) = Some (InstanceDown e) \<or> fails_alone w op items j e"
    using assms(1)
  proof (rule probeBatch_rule)
    show "ir_Err (snd (Suc k, out[i := (out ! i)\<lparr>ir_Err := Some (InstanceDown er)\<rparr>]) ! j) = Some (InstanceDown e) \<longrightarrow>
        ir_Err (snd (k, out) ! j) = Some (InstanceDown e) \<or> fails_alone w op items j e"
      if "runProbeBatch w op items [i] (k, out) = Fail er" for i k out er
      using that by (cases "j = i"; cases "i < length out") (auto simp: list_update_beyond fails_alone_def)
  qed (auto elim!: runProbeBatch_Ok dest: measure_all_err)
  then show ?thesis using assms(2) by blast
qed

lemma length_probeBatch: "probeBatch w op items idx s = Some s' \<Longrightarrow> length (snd s') = length (snd s)"
  by (erule probeBatch_rule) (auto elim!: runProbeBatch_Ok)

text \<open>A batch of \<open>n\<close> items costs at most \<open>2 n - 1\<close> starts, and at least one.\<close>

lemma probeBatch_starts:
  assumes "probeBatch w op items idx s = Some s'" "idx \<noteq> []"
  shows "fst s < fst s' \<and> fst s' < fst s + 2 * length idx"
proof -
  have "if idx = [] then s' = s else fst s < fst s' \<and> fst s' < fst s + 2 * length idx"
    using assms(1)
  proof (rule probeBatch_rule)
    fix idx :: "nat list" and k out s1 and s' :: run_state
    let ?h = "length idx div 2"
    assume l: "2 \<le> length idx"
      and 1: "if take ?h idx = [] then s1 = (Suc k, out)
              else fst (Suc k, out) < fst s1 \<and> fst s1 < fst (Suc k, out) + 2 * length (take ?h idx)"
      and 2: "if drop ?h idx = [] then s' = s1 else fst s1 < fst s' \<and> fst s' < fst s1 + 2 * length (drop ?h idx)"
    have "length (take ?h idx) = ?h" "take ?h idx \<noteq> []" "drop ?h idx \<noteq> []" using l by auto
    then have "Suc k < fst s1 \<and> fst s1 < Suc k + 2 * ?h" "fst s1 < fst s' \<and> fst s' < fst s1 + 2 * (length idx - ?h)"
      using 1 2 by simp_all
    then show "if idx = [] then s' = (k, out) else fst (k, out) < fst s' \<and> fst s' < fst (k, out) + 2 * length idx"
      using l by auto
  qed (auto simp: neq_Nil_conv)
  then show ?thesis using assms(2) by simp
qed

section \<open>Answers\<close>

definition answered :: "item_result \<Rightarrow> bool" where
  "answered r \<longleftrightarrow> ir_Err r \<noteq> None \<or> 0 < ir_Passed r"

lemma attempt_progress:
  "fst (attempt x s) \<noteq> None \<or> 0 < ir_Passed (snd (attempt x s))"
  by (cases s) (auto simp: attempt_def split: sum.splits)

lemma attempt_keeps:
  "fst s \<noteq> None \<or> 0 < ir_Passed (snd s) \<Longrightarrow> fst (fold attempt xs s) \<noteq> None \<or> 0 < ir_Passed (snd (fold attempt xs s))"
proof (induction xs arbitrary: s)
  case (Cons x xs)
  show ?case using Cons.IH [OF attempt_progress [of x s]] by simp
qed simp

lemma measure_item_answered: "xs \<noteq> [] \<Longrightarrow> answered (measure_item op xs r)"
proof -
  assume "xs \<noteq> []"
  then obtain y ys where "map (probeThrough (po_MinBytes op)) (take (attempts_of op) xs) = y # ys"
    by (cases xs; cases "attempts_of op") (auto simp: attempts_of_def)
  then show ?thesis
    using attempt_keeps [OF attempt_progress [of y "(None, r)"], of ys]
    by (auto simp: measure_item_def answered_def split: prod.splits)
qed

lemma measure_all_answered:
  assumes "length ps = length idx" "\<forall>p. pw_meets w k p \<noteq> []" "j < length out" "j \<in> set idx \<or> answered (out ! j)"
  shows "answered (measure_all w op k ps idx out ! j)"
  using assms
proof (induction ps idx arbitrary: out rule: list_induct2)
  case (Cons p ps i idx)
  have "j \<in> set idx \<or> answered (out[i := measure_item op (pw_meets w k p) (out ! i)] ! j)"
    using Cons.prems by (cases "j = i") (auto simp: measure_item_answered)
  then show ?case using Cons by simp
qed simp

definition answers_world :: "probe_world \<Rightarrow> bool" where
  "answers_world w \<longleftrightarrow> (\<forall>k. \<not> pw_cancelled w k) \<and> (\<forall>k p. pw_meets w k p \<noteq> [])"

lemma probeBatch_answered:
  assumes "probeBatch w op items idx s = Some s'" "answers_world w" "j < length (snd s)" "j \<in> set idx \<or> answered (snd s ! j)"
  shows "answered (snd s' ! j)"
proof -
  have "length (snd s') = length (snd s) \<and>
      (j < length (snd s) \<longrightarrow> j \<in> set idx \<or> answered (snd s ! j) \<longrightarrow> answered (snd s' ! j))"
    using assms(1)
  proof (rule probeBatch_rule)
    fix idx k out out' assume "runProbeBatch w op items idx (k, out) = Ok out'"
    then show "length (snd (Suc k, out')) = length (snd (k, out)) \<and> (j < length (snd (k, out)) \<longrightarrow>
        j \<in> set idx \<or> answered (snd (k, out) ! j) \<longrightarrow> answered (snd (Suc k, out') ! j))"
      using assms(2) by (auto simp: answers_world_def measure_all_answered elim!: runProbeBatch_Ok)
  next
    fix i k out e
    show "length (snd (Suc k, out[i := (out ! i)\<lparr>ir_Err := Some (InstanceDown e)\<rparr>])) = length (snd (k, out)) \<and>
      (j < length (snd (k, out)) \<longrightarrow> j \<in> set [i] \<or> answered (snd (k, out) ! j) \<longrightarrow>
        answered (snd (Suc k, out[i := (out ! i)\<lparr>ir_Err := Some (InstanceDown e)\<rparr>]) ! j))"
      by (cases "j = i") (auto simp: answered_def)
  next
    fix idx :: "nat list" and k out s1 and s' :: run_state
    let ?h = "length idx div 2"
    have "j \<in> set idx \<longleftrightarrow> j \<in> set (take ?h idx) \<or> j \<in> set (drop ?h idx)"
      by (metis Un_iff append_take_drop_id set_append)
    moreover assume "length (snd s1) = length (snd (Suc k, out)) \<and> (j < length (snd (Suc k, out)) \<longrightarrow>
        j \<in> set (take ?h idx) \<or> answered (snd (Suc k, out) ! j) \<longrightarrow> answered (snd s1 ! j))"
      "length (snd s') = length (snd s1) \<and> (j < length (snd s1) \<longrightarrow>
        j \<in> set (drop ?h idx) \<or> answered (snd s1 ! j) \<longrightarrow> answered (snd s' ! j))"
    ultimately show "length (snd s') = length (snd (k, out)) \<and> (j < length (snd (k, out)) \<longrightarrow>
        j \<in> set idx \<or> answered (snd (k, out) ! j) \<longrightarrow> answered (snd s' ! j))" by auto
  qed (use assms(2) in \<open>auto simp: answers_world_def\<close>)
  then show ?thesis using assms by blast
qed

section \<open>A whole run\<close>

lemma probe_batches_cases:
  assumes "probe_batches w op items (b # bs) s = Some s'"
  obtains s1 where "probeBatch w op items b s = Some s1" "pw_cancelled w (fst s1 - 1)" "s' = s1"
  | s1 where "probeBatch w op items b s = Some s1" "\<not> pw_cancelled w (fst s1 - 1)" "probe_batches w op items bs s1 = Some s'"
  using assms by (auto simp: bind_eq_Some_conv split: if_splits)

lemma probe_batches_blame:
  "probe_batches w op items bs s = Some s' \<Longrightarrow> ir_Err (snd s' ! j) = Some (InstanceDown e) \<Longrightarrow>
     ir_Err (snd s ! j) = Some (InstanceDown e) \<or> fails_alone w op items j e"
proof (induction bs arbitrary: s)
  case (Cons b bs)
  from Cons.prems(1) show ?case
    by (rule probe_batches_cases) (use Cons.IH Cons.prems(2) probeBatch_blame in blast)+
qed simp

lemma length_probe_batches: "probe_batches w op items bs s = Some s' \<Longrightarrow> length (snd s') = length (snd s)"
proof (induction bs arbitrary: s)
  case (Cons b bs)
  from Cons.prems show ?case
    by (rule probe_batches_cases) (use Cons.IH length_probeBatch in \<open>metis\<close>)+
qed simp

lemma probe_batches_answered:
  "probe_batches w op items bs s = Some s' \<Longrightarrow> answers_world w \<Longrightarrow> j < length (snd s) \<Longrightarrow>
     j \<in> set (concat bs) \<or> answered (snd s ! j) \<Longrightarrow> answered (snd s' ! j)"
proof (induction w op items bs s rule: probe_batches.induct)
  case (2 w op items b bs s)
  from "2.prems"(1,2) obtain s1 where b: "probeBatch w op items b s = Some s1" and bs: "probe_batches w op items bs s1 = Some s'"
    by (auto simp: bind_eq_Some_conv answers_world_def)
  have "j \<in> set (concat bs) \<or> answered (snd s1 ! j)"
    using probeBatch_answered [OF b "2.prems"(2,3)] "2.prems"(4) by auto
  then show ?case using "2.IH" [OF b _ bs] "2.prems" length_probeBatch [OF b] by (auto simp: answers_world_def)
qed auto

lemma probe_batches_starts:
  "probe_batches w op items bs s = Some s' \<Longrightarrow> [] \<notin> set bs \<Longrightarrow> fst s' \<le> fst s + 2 * length (concat bs)"
proof (induction bs arbitrary: s)
  case (Cons b bs)
  have start: "fst s1 < fst s + 2 * length b" if "probeBatch w op items b s = Some s1" for s1
    using probeBatch_starts [OF that] Cons.prems(2) by auto
  from Cons.prems(1) show ?case
  proof (rule probe_batches_cases)
    fix s1 assume "probeBatch w op items b s = Some s1" "probe_batches w op items bs s1 = Some s'"
    then show ?thesis using start Cons.IH [of s1] Cons.prems(2) by fastforce
  qed (use start in fastforce)
qed simp

definition test_indices :: "probe_item list \<Rightarrow> nat list" where
  "test_indices items = filter (\<lambda>i. item_flaw (items ! i) = None) [0..<length items]"

definition test_start :: "probe_item list \<Rightarrow> item_result list" where
  "test_start items = map (\<lambda>it. (blank_result it)\<lparr>ir_Err := item_flaw it\<rparr>) items"

lemma ProbeOutbounds_run:
  "items \<noteq> [] \<Longrightarrow> po_Bin op \<noteq> [] \<Longrightarrow> ProbeOutbounds w op items = Some out \<Longrightarrow>
    \<exists>k. probe_batches w op items (planProbeBatches items (test_indices items) (batch_size op)) (0, test_start items) = Some (k, out)"
  by (auto simp: ProbeOutbounds_def Let_def test_indices_def test_start_def)

lemma item_flaw_not_down [simp]: "item_flaw it \<noteq> Some (InstanceDown e)"
  by (auto simp: item_flaw_def split: option.splits)

text \<open>C31. A test blames an item for an xray that does not come up only if an xray that held this item alone did not come up:
  the failure of a batch is never charged to an item that merely shared it.\<close>

theorem blame_only_the_culprit:
  assumes "ProbeOutbounds w op items = Some out" "i < length items" "ir_Err (out ! i) = Some (InstanceDown e)"
  shows "fails_alone w op items i e"
proof -
  have "items \<noteq> []" using assms(2) by auto
  moreover have "po_Bin op \<noteq> []" using assms by (auto simp: ProbeOutbounds_def split: if_splits)
  ultimately obtain k where
    "probe_batches w op items (planProbeBatches items (test_indices items) (batch_size op)) (0, test_start items) = Some (k, out)"
    using ProbeOutbounds_run assms(1) by blast
  from probe_batches_blame [OF this, of i e] show ?thesis using assms(2,3) by (simp add: test_start_def)
qed

lemma in_plan: "i \<in> set (concat (planProbeBatches items idx room)) \<longleftrightarrow> i \<in> set idx"
  using mset_plan [of items idx room] by (metis set_mset_mset)

text \<open>C32. A test that is not cancelled answers every item: it was measured, or it has an error.\<close>

theorem every_item_answered:
  assumes "ProbeOutbounds w op items = Some out" "answers_world w"
  shows "length out = length items \<and> list_all answered out"
proof (cases "items = [] \<or> po_Bin op = []")
  case True
  then have "out = map (\<lambda>it. (blank_result it)\<lparr>ir_Err := Some NoBinary\<rparr>) items"
    using assms(1) by (cases "items = []") (simp_all add: ProbeOutbounds_def)
  then show ?thesis by (simp add: answered_def list_all_iff)
next
  case False
  then obtain k where
    r: "probe_batches w op items (planProbeBatches items (test_indices items) (batch_size op)) (0, test_start items) = Some (k, out)"
    using ProbeOutbounds_run assms(1) by blast
  have l: "length out = length items" using length_probe_batches [OF r] by (simp add: test_start_def)
  have "answered (out ! i)" if "i < length items" for i
  proof -
    have "i \<in> set (test_indices items) \<or> answered (test_start items ! i)"
      using that by (auto simp: test_indices_def test_start_def answered_def)
    then show ?thesis using probe_batches_answered [OF r assms(2), of i] that
      by (simp only: in_plan snd_conv) (simp add: test_start_def)
  qed
  then show ?thesis using l by (simp add: list_all_length)
qed

text \<open>An outbound that is JSON \<^verbatim>\<open>null\<close> decodes, so that it is not refused up front, and writing its tag panics.\<close>

lemma null_item_panics:
  assumes "to_map (pi_Outbound it) = NilMap" "pi_Via it = None" "po_Bin op \<noteq> []" "pw_ports w 0 1 = Inr [p]"
  shows "ProbeOutbounds w op [it] = None"
proof -
  have "item_flaw it = None" using assms by (simp add: item_flaw_def)
  then have "planProbeBatches [it] (filter (\<lambda>i. item_flaw ([it] ! i) = None) [0..<length [it]]) (batch_size op) = [[0]]"
    by (simp add: planProbeBatches_def)
  moreover have "BuildProbeConfig [it] [p] = Panic"
    using assms by (simp add: BuildProbeConfig_def item_outbounds_def entryOutbound_def tagged_def obind_Panic enumerate_Suc_eq)
  ultimately show ?thesis using assms
    by (simp add: ProbeOutbounds_def Let_def probeBatch.simps [of w op "[it]" "[0]"] runProbeBatch_def fail_as_def)
qed

section \<open>Witnesses\<close>

definition demo_outbound :: "string \<Rightarrow> raw_json" where
  "demo_outbound proto = Some (jobj [(''protocol'', JStr proto)])"

definition demo_item :: "string \<Rightarrow> probe_item" where
  "demo_item proto = \<lparr>pi_ID = 1, pi_Name = proto, pi_Fingerprint = [], pi_Outbound = demo_outbound proto, pi_Via = None\<rparr>"

text \<open>A world in which xray refuses an outbound of an unknown protocol.\<close>

definition demo_probe_world :: probe_world where
  "demo_probe_world = \<lparr>pw_ports = (\<lambda>k n. Inr (map (\<lambda>i. i + 7) [0..<n])),
     pw_start = (\<lambda>k cfg. if list_ex (\<lambda>ob. str_at ob ''protocol'' = ''nope'') (outbounds_of cfg) then Some ''exited'' else None),
     pw_meets = (\<lambda>k p. [Answered 204 9 0 None 9]), pw_cancelled = (\<lambda>k. False)\<rparr>"

definition demo_probe_options :: probe_options where
  "demo_probe_options = \<lparr>po_Bin = ''xray'', po_Batch = 0, po_Attempts = 1, po_MinBytes = 0\<rparr>"

lemma demo_probe_run:
  "ProbeOutbounds demo_probe_world demo_probe_options [demo_item ''vless'', demo_item ''nope''] =
     Some [(blank_result (demo_item ''vless''))\<lparr>ir_LatencyMs := 9, ir_Passed := 1\<rparr>,
           (blank_result (demo_item ''nope''))\<lparr>ir_Err := Some (InstanceDown (NotReady ''exited''))\<rparr>]"
  by code_simp

lemma blame_only_the_culprit_witness:
  "fails_alone demo_probe_world demo_probe_options [demo_item ''vless'', demo_item ''nope''] 1 (NotReady ''exited'')"
  by (rule blame_only_the_culprit [OF demo_probe_run]) simp_all

lemma every_item_answered_witness:
  "answered ((blank_result (demo_item ''nope''))\<lparr>ir_Err := Some (InstanceDown (NotReady ''exited''))\<rparr>)"
  using every_item_answered [OF demo_probe_run] by (simp add: answers_world_def demo_probe_world_def)

lemma demo_probe_config: "\<exists>cfg. BuildProbeConfig [demo_item ''vless'', demo_item ''trojan''] [7, 8] = Ok cfg"
  by (simp add: BuildProbeConfig_def item_outbounds_def demo_item_def demo_outbound_def entryOutbound_def)

lemma probe_config_routes_witness:
  "\<exists>cfg. BuildProbeConfig [demo_item ''vless'', demo_item ''trojan''] [7, 8] = Ok cfg \<and>
     hd (outbounds_of cfg) = probe_block \<and> rules_of cfg ! 1 = probe_rule 1"
  using demo_probe_config probe_config_routes [of "[demo_item ''vless'', demo_item ''trojan'']" "[7, 8]" _ 1] by auto

end
