(* ===== verification/Server_Props.thy ===== *)
theory Server_Props
  imports Server_Subs Reconcile_Props Sub_Props Probe_Props
begin

text \<open>
  What the requests keep: the references between entries stay free of cycles under all requests but a rename and a
  duplicate; a change of several dialers is made as a whole or not at all. And what they do not keep: an import that fails
  has lost the old configuration, a smaller cap changes no active node.
\<close>

section \<open>A reconcile keeps the rows\<close>

lemma fold_UpdateInbound:
  "db_entries (fold (\<lambda>i. UpdateInbound (f i)) is d) = db_entries d"
  "db_nodes (fold (\<lambda>i. UpdateInbound (f i)) is d) = db_nodes d"
  "db_subs (fold (\<lambda>i. UpdateInbound (f i)) is d) = db_subs d"
  "db_next (fold (\<lambda>i. UpdateInbound (f i)) is d) = db_next d"
  by (induction "is" arbitrary: d) (simp_all add: UpdateInbound_def)

lemma Reconcile_rows:
  "db_entries (bx_db (snd (Reconcile w tn b))) = db_entries (bx_db b)"
  "db_nodes (bx_db (snd (Reconcile w tn b))) = db_nodes (bx_db b)"
  "db_subs (bx_db (snd (Reconcile w tn b))) = db_subs (bx_db b)"
  "db_next (bx_db (snd (Reconcile w tn b))) = db_next (bx_db b)"
proof -
  have "bx_db (snd (Reconcile w tn b)) = bx_db (snd (with_ports b))" by (rule Reconcile_db)
  moreover have "db_entries (bx_db (snd (with_ports b))) = db_entries (bx_db b)"
    "db_nodes (bx_db (snd (with_ports b))) = db_nodes (bx_db b)"
    "db_subs (bx_db (snd (with_ports b))) = db_subs (bx_db b)"
    "db_next (bx_db (snd (with_ports b))) = db_next (bx_db b)"
    by (simp_all add: with_ports_def fold_UpdateInbound split: prod.splits)
  ultimately show "db_entries (bx_db (snd (Reconcile w tn b))) = db_entries (bx_db b)"
    "db_nodes (bx_db (snd (Reconcile w tn b))) = db_nodes (bx_db b)"
    "db_subs (bx_db (snd (Reconcile w tn b))) = db_subs (bx_db b)"
    "db_next (bx_db (snd (Reconcile w tn b))) = db_next (bx_db b)" by simp_all
qed

lemma reconciled_box: "fst (reconciled sv tn b r) = snd (Reconcile (sv_world sv) tn b)"
  by (auto simp: reconciled_def split: prod.splits recon_result.splits)

lemma SyncDialerMembers_box: "fst (SyncDialerMembers sv tn b r) = snd (Reconcile (sv_world sv) tn b)"
  by (auto simp: SyncDialerMembers_def split: prod.splits recon_result.splits)

lemmas served_rows = reconciled_box SyncDialerMembers_box Reconcile_rows

section \<open>Chains of entries\<close>

text \<open>Which entry dials through which, by normalized names.\<close>

definition row_edges :: "(string \<times> string) list \<Rightarrow> (string \<times> string) set" where
  "row_edges rows =
     {(a, b). \<exists>dl refs r. map_of rows a = Some dl \<and> ParseDialer dl = Inr refs \<and> r \<in> set refs \<and>
        r_Kind r = RefXray \<and> b = NormalizeName (r_Name r)}"

definition dials :: "db \<Rightarrow> (string \<times> string) set" where
  "dials d = row_edges (entry_rows d)"

definition entries_ok :: "db \<Rightarrow> bool" where
  "entries_ok d \<longleftrightarrow> (\<forall>e \<in> set (db_entries d). NormalizeName (e_Name e) = e_Name e \<and> e_ID e < db_next d) \<and>
     distinct (map e_Name (db_entries d)) \<and> distinct (map e_ID (db_entries d))"

definition chains_ok :: "db \<Rightarrow> bool" where
  "chains_ok d \<longleftrightarrow> entries_ok d \<and> acyclic (dials d)"

lemma row_edges_mono: "(\<And>a dl. map_of rows' a = Some dl \<Longrightarrow> map_of rows a = Some dl) \<Longrightarrow> row_edges rows' \<subseteq> row_edges rows"
  by (auto simp: row_edges_def)

text \<open>Edges added at some nodes close no cycle when none of these nodes reaches itself.\<close>

lemma trancl_through:
  assumes "(x, y) \<in> E'\<^sup>+" "\<And>a b. (a, b) \<in> E' \<Longrightarrow> a \<notin> N \<Longrightarrow> (a, b) \<in> E"
  shows "(x, y) \<in> E\<^sup>+ \<or> (\<exists>n \<in> N. (x, n) \<in> E'\<^sup>* \<and> (n, y) \<in> E'\<^sup>+)"
  using assms(1)
proof (induction rule: trancl_induct)
  case (base y)
  then show ?case using assms(2) by (cases "x \<in> N") auto
next
  case (step y z)
  show ?case
  proof (cases "y \<in> N")
    case True
    then show ?thesis using step.hyps by (meson r_into_trancl' trancl_into_rtrancl)
  next
    case False
    then show ?thesis using step assms(2) by (meson trancl.trancl_into_trancl)
  qed
qed

lemma acyclic_extend:
  assumes "acyclic E" "\<And>a b. (a, b) \<in> E' \<Longrightarrow> a \<notin> N \<Longrightarrow> (a, b) \<in> E" "\<And>n. n \<in> N \<Longrightarrow> (n, n) \<notin> E'\<^sup>+"
  shows "acyclic E'"
proof (rule acyclicI, rule allI, rule notI)
  fix x assume x: "(x, x) \<in> E'\<^sup>+"
  from trancl_through [OF x, of N E] assms(2)
  have "(x, x) \<in> E\<^sup>+ \<or> (\<exists>n \<in> N. (x, n) \<in> E'\<^sup>* \<and> (n, x) \<in> E'\<^sup>+)" by blast
  moreover have "(x, x) \<notin> E\<^sup>+" using assms(1) by (simp add: acyclic_def)
  ultimately obtain n where "n \<in> N" "(x, n) \<in> E'\<^sup>*" "(n, x) \<in> E'\<^sup>+" by blast
  then show False using assms(3) by (meson trancl_rtrancl_trancl)
qed

text \<open>What the check of a dialer says about the rows after the change.\<close>

lemma no_cycle_after:
  assumes "validateDialerWith d c n proposed = None" "NormalizeName n = n"
    and "\<And>a dl. map_of rows' a = Some dl \<Longrightarrow> cycle_lookup n c (proposed @ entry_rows d) a = Some dl"
  shows "(n, n) \<notin> (row_edges rows')\<^sup>+"
proof -
  let ?E = "dial_edge n c (proposed @ entry_rows d)"
  have "DetectDialerCycle n c (proposed @ entry_rows d) = None"
    using assms(1) by (auto simp: validateDialerWith_def split: sum.splits option.splits)
  then have "walk n c (proposed @ entry_rows d) {} n = None" by (simp add: DetectDialerCycle_def assms(2))
  from walk_None(1) [OF this] have "(n, n) \<notin> ?E\<^sup>+" using assms(2) by simp
  moreover have "row_edges rows' \<subseteq> ?E"
    using assms(3) unfolding row_edges_def dial_edge_def by blast
  ultimately show ?thesis by (meson trancl_mono)
qed

lemma map_of_entry_rows:
  "distinct (map e_Name (db_entries d)) \<Longrightarrow>
   map_of (entry_rows d) a = Some dl \<longleftrightarrow> (\<exists>e \<in> set (db_entries d). e_Name e = a \<and> e_Dialer e = dl)"
  by (subst map_of_eq_Some_iff) (auto simp: entry_rows_def comp_def image_iff)

lemma entries_ok_same:
  assumes "db_entries d' = db_entries d" "db_next d' = db_next d"
  shows "chains_ok d' = chains_ok d"
  using assms by (simp add: chains_ok_def entries_ok_def dials_def entry_rows_def)

lemma CreateEntry_chains:
  assumes "CreateEntry orm d e = Ok (d', e')" "chains_ok d" "validateDialer d (e_Dialer e) (e_Name e) = None"
  shows "chains_ok d'"
proof -
  from assms(1) obtain n where n: "ValidName (e_Name e) = Inr n" "n \<notin> e_Name ` set (db_entries d)"
    and e': "e' = e\<lparr>e_ID := db_next d, e_Name := n, e_Enabled := orm (e_Enabled e)\<rparr>"
    and d': "d' = d\<lparr>db_entries := db_entries d @ [e'], db_next := Suc (db_next d)\<rparr>"
    by (auto simp: CreateEntry_def Let_def split: sum.splits if_splits)
  have norm: "n = NormalizeName (e_Name e)" "NormalizeName n = n" using ValidName_Inr [OF n(1)] ValidName_normal [OF n(1)] by auto
  have ok: "entries_ok d'"
    using assms(2) n(2) norm(2) by (auto simp: chains_ok_def entries_ok_def d' e' less_Suc_eq)
  have rows: "entry_rows d' = entry_rows d @ [(n, e_Dialer e)]" by (simp add: entry_rows_def d' e')
  have fresh: "map_of (entry_rows d) n = None" using n(2) by (auto simp: entry_rows_def map_of_eq_None_iff image_image)
  have names: "NormalizeName a = a" if "map_of (entry_rows d) a = Some dl" for a dl
    using that assms(2) map_of_entry_rows [of d a dl] by (auto simp: chains_ok_def entries_ok_def)
  have "DetectDialerCycle (e_Name e) (e_Dialer e) (entry_rows d) = None"
    using assms(3) by (auto simp: validateDialer_def validateDialerWith_def split: sum.splits option.splits)
  then have "DetectDialerCycle n (e_Dialer e) (entry_rows d) = None" by (simp add: DetectDialerCycle_def norm)
  moreover have "validateDialerWith d (e_Dialer e) n [] = None"
    using assms(3) calculation by (auto simp: validateDialer_def validateDialerWith_def split: sum.splits option.splits)
  ultimately have self: "(n, n) \<notin> (row_edges (entry_rows d'))\<^sup>+"
    using norm(2) fresh names
    by (intro no_cycle_after [where c = "e_Dialer e" and d = d and proposed = "[]"])
       (auto simp: cycle_lookup_def rows map_add_def split: option.splits if_splits dest: names)
  have "acyclic (row_edges (entry_rows d'))"
  proof (rule acyclic_extend [where E = "dials d" and N = "{n}"])
    show "acyclic (dials d)" using assms(2) by (simp add: chains_ok_def)
    show "(a, b) \<in> dials d" if "(a, b) \<in> row_edges (entry_rows d')" "a \<notin> {n}" for a b
      using that by (auto simp: row_edges_def dials_def rows map_add_def split: option.splits if_splits)
  qed (use self in simp)
  then show ?thesis using ok by (simp add: chains_ok_def dials_def)
qed

lemma DeleteEntry_chains:
  assumes "chains_ok d"
  shows "chains_ok (DeleteEntry d i)"
proof -
  let ?d = "DeleteEntry d i"
  have ok: "entries_ok ?d"
    using assms by (auto simp: chains_ok_def entries_ok_def DeleteEntry_def delete_where_def distinct_map inj_on_def)
  have "map_of (entry_rows ?d) a = Some dl \<Longrightarrow> map_of (entry_rows d) a = Some dl" for a dl
    using ok assms by (auto simp: map_of_entry_rows chains_ok_def entries_ok_def DeleteEntry_def delete_where_def)
  then have "dials ?d \<subseteq> dials d" unfolding dials_def by (rule row_edges_mono)
  then show ?thesis using ok assms acyclic_subset by (auto simp: chains_ok_def)
qed

lemma update_where_same:
  "e \<in> set rows \<Longrightarrow> distinct (map key rows) \<Longrightarrow> key r = key e \<Longrightarrow> f r = f e \<Longrightarrow>
   map f (update_where (\<lambda>x. key x = key r) (\<lambda>_. r) rows) = map f rows"
  by (auto simp: update_where_def distinct_map inj_on_def)

text \<open>Saving an entry that is there with the same name and dialer changes no chain.\<close>

lemma UpdateEntry_chains:
  assumes "UpdateEntry orm d r = Ok d'" "chains_ok d" "e \<in> set (db_entries d)"
    and "e_ID r = e_ID e" "e_Name r = e_Name e" "e_Dialer r = e_Dialer e"
  shows "chains_ok d'"
proof -
  have ids: "distinct (map e_ID (db_entries d))" using assms(2) by (simp add: chains_ok_def entries_ok_def)
  have d': "d' = d\<lparr>db_entries := update_where (\<lambda>x. e_ID x = e_ID r) (\<lambda>_. r) (db_entries d)\<rparr>"
    using assms(1,3,4) by (auto simp: UpdateEntry_def save_row_def list_ex_iff split: if_splits)
  have same: "map f (db_entries d') = map f (db_entries d)" if "f r = f e" for f :: "xray_entry \<Rightarrow> 'x"
    using update_where_same [OF assms(3) ids assms(4) that] by (simp add: d')
  have pairs: "map (\<lambda>e. (e_ID e, e_Name e)) (db_entries d') = map (\<lambda>e. (e_ID e, e_Name e)) (db_entries d)"
    using same [of "\<lambda>e. (e_ID e, e_Name e)"] assms(4,5) by simp
  have rows: "entry_rows d' = entry_rows d" using same [of "\<lambda>e. (e_Name e, e_Dialer e)"] assms(5,6) by (simp add: entry_rows_def)
  have conv: "(\<forall>e \<in> set es. NormalizeName (e_Name e) = e_Name e \<and> e_ID e < k) \<longleftrightarrow>
      (\<forall>(i, n) \<in> set (map (\<lambda>e. (e_ID e, e_Name e)) es). NormalizeName n = n \<and> i < k)" for es k by auto
  have next_id: "db_next d' = db_next d" by (simp add: d')
  have cols: "map e_ID (db_entries d') = map e_ID (db_entries d)" "map e_Name (db_entries d') = map e_Name (db_entries d)"
    using same [of e_ID] same [of e_Name] assms(4,5) by simp_all
  have "entries_ok d' = entries_ok d" unfolding entries_ok_def conv pairs next_id cols ..
  then show ?thesis using assms(2) by (simp add: chains_ok_def dials_def rows)
qed

lemma first_error_None: "first_error f xs = None \<longleftrightarrow> (\<forall>x \<in> set xs. f x = None)"
  by (induction xs) (auto split: option.splits)

lemma find_row_in: "find_row P rows = Ok r \<Longrightarrow> r \<in> set rows \<and> P r"
  by (auto simp: find_row_def find_Some_iff split: option.splits)

lemma bulk_items_entries:
  "bulk_items d seen its = Ok items \<Longrightarrow>
     (\<forall>(e, c) \<in> set items. e \<in> set (db_entries d) \<and> e_ID e \<notin> set seen) \<and> distinct (map (\<lambda>(e, c). e_ID e) items) \<and>
     map (\<lambda>(e, c). (e_ID e, Inr c)) items = map (\<lambda>(i, dl). (i, CanonicalDialer dl)) its"
proof (induction d seen its arbitrary: items rule: bulk_items.induct)
  case (2 d seen i dl its)
  from "2.prems" obtain e c rest where n: "i \<notin> set seen" and e: "GetEntry d i = Ok e" and c: "CanonicalDialer dl = Inr c"
    and r: "bulk_items d (i # seen) its = Ok rest" and it: "items = (e, c) # rest"
    by (auto split: if_splits outcome.splits sum.splits)
  have ee: "e \<in> set (db_entries d)" "e_ID e = i" using find_row_in [OF e [unfolded GetEntry_def]] by simp_all
  show ?case using "2.IH" [OF n e c r] ee n c by (auto simp: it)
qed simp

lemma map_of_proposed:
  "distinct (map (\<lambda>(e, c). e_Name e) items) \<Longrightarrow>
   map_of (proposed_of items) a = map_of (map (\<lambda>(e, c). (e_Name e, c)) items) a"
proof -
  have *: "map_of (fold (\<lambda>(e, c). dput (e_Name e) c) items m) a =
      (case map_of (rev (map (\<lambda>(e, c). (e_Name e, c)) items)) a of Some c \<Rightarrow> Some c | None \<Rightarrow> map_of m a)" for m
    by (induction items arbitrary: m) (auto simp: map_add_def split: option.splits prod.splits)
  assume "distinct (map (\<lambda>(e, c). e_Name e) items)"
  then have "distinct (map fst (map (\<lambda>(e, c). (e_Name e, c)) items))" by (simp add: comp_def case_prod_unfold)
  then have "map_of (rev (map (\<lambda>(e, c). (e_Name e, c)) items)) a = map_of (map (\<lambda>(e, c). (e_Name e, c)) items) a"
    using map_of_inject_set [of "rev (map (\<lambda>(e, c). (e_Name e, c)) items)" "map (\<lambda>(e, c). (e_Name e, c)) items"]
    by (simp add: rev_map [symmetric])
  then show ?thesis using * [of "[]"] by (simp add: proposed_of_def split: option.splits)
qed

text \<open>What the dialer of an entry is after the changes.\<close>

definition new_dialer :: "(xray_entry \<times> string) list \<Rightarrow> xray_entry \<Rightarrow> string" where
  "new_dialer items e = (case map_of (map (\<lambda>(e, c). (e_ID e, c)) items) (e_ID e) of Some c \<Rightarrow> c | None \<Rightarrow> e_Dialer e)"

lemma SetEntryDialers_new:
  assumes "distinct (map (\<lambda>(e, c). e_ID e) items)"
  shows "db_entries (SetEntryDialers d (dict_of (map (\<lambda>(e, c). (e_ID e, c)) items))) =
    map (\<lambda>e. e\<lparr>e_Dialer := new_dialer items e\<rparr>) (db_entries d)"
proof -
  let ?xs = "map (\<lambda>(e, c). (e_ID e, c)) items"
  have "distinct (map fst ?xs)" using assms by (simp add: comp_def case_prod_unfold)
  then have "map_of (rev ?xs) = map_of ?xs" using map_of_inject_set [of "rev ?xs" ?xs] by (simp add: rev_map [symmetric])
  then show ?thesis by (auto simp: SetEntryDialers_def map_of_dict_of new_dialer_def split: option.splits)
qed

lemma new_dialer_item:
  assumes "distinct (map (\<lambda>(e, c). e_ID e) items)" "(e, c) \<in> set items"
  shows "new_dialer items e = c"
proof -
  have "map_of (map (\<lambda>(e, c). (e_ID e, c)) items) (e_ID e) = Some c"
    using assms by (intro map_of_is_SomeI) (auto simp: comp_def case_prod_unfold image_iff intro!: bexI [of _ "(e, c)"])
  then show ?thesis by (simp add: new_dialer_def)
qed

lemma new_dialer_other: "\<forall>(e', c) \<in> set items. e_ID e' \<noteq> e_ID e \<Longrightarrow> new_dialer items e = e_Dialer e"
  by (force simp: new_dialer_def split: option.splits dest: map_of_SomeD)

lemma no_item:
  assumes "\<forall>(e, c) \<in> set items. e \<in> set es" "e \<in> set es" "distinct (map e_ID es)" "\<nexists>c. (e, c) \<in> set items"
  shows "\<forall>(e', c) \<in> set items. e_ID e' \<noteq> e_ID e"
proof clarify
  fix e' c assume i: "(e', c) \<in> set items" "e_ID e' = e_ID e"
  then have "e' \<in> set es" using assms(1) by auto
  then have "e' = e" using i(2) assms(2,3) by (auto simp: distinct_map inj_on_def)
  then show False using i(1) assms(4) by blast
qed

lemma new_dialer_changes:
  assumes "distinct (map (\<lambda>(e, c). e_ID e) items)" "\<forall>(e, c) \<in> set items. e \<in> set es" "e \<in> set es" "distinct (map e_ID es)"
  shows "new_dialer (filter (\<lambda>(e, c). c \<noteq> e_Dialer e) items) e = new_dialer items e"
proof -
  let ?ch = "filter (\<lambda>(e, c). c \<noteq> e_Dialer e) items"
  have dist: "distinct (map (\<lambda>(e, c). e_ID e) ?ch)" using assms(1) by (rule distinct_map_filter)
  show ?thesis
  proof (cases "\<exists>c. (e, c) \<in> set items")
    case True
    then obtain c where c: "(e, c) \<in> set items" by blast
    show ?thesis
    proof (cases "c = e_Dialer e")
      case True
      have "e_ID e' \<noteq> e_ID e" if "(e', c') \<in> set ?ch" for e' c'
      proof
        assume "e_ID e' = e_ID e"
        then have "e' = e" using that assms(2-4) by (auto simp: distinct_map inj_on_def)
        then have "(e, c') \<in> set items" using that by simp
        then have "c' = c" using new_dialer_item [OF assms(1)] c by metis
        then show False using that True \<open>e' = e\<close> by auto
      qed
      then have "new_dialer ?ch e = e_Dialer e" by (intro new_dialer_other) auto
      then show ?thesis using new_dialer_item [OF assms(1) c] True by simp
    next
      case False
      then have "(e, c) \<in> set ?ch" using c by simp
      then show ?thesis using new_dialer_item [OF dist] new_dialer_item [OF assms(1) c] by blast
    qed
  next
    case False
    then have "\<forall>(e', c) \<in> set items. e_ID e' \<noteq> e_ID e" by (rule no_item [OF assms(2-4)])
    then show ?thesis using new_dialer_other [of items e] new_dialer_other [of ?ch e] by auto
  qed
qed

lemma bulk_chains:
  assumes ok: "chains_ok d" and items: "bulk_items d [] its = Ok items"
    and chk: "\<forall>ch \<in> set (filter (\<lambda>(e, c). c \<noteq> e_Dialer e) items). change_error d (proposed_of items) ch = None"
  shows "chains_ok (SetEntryDialers d (dict_of (map (\<lambda>(e, c). (e_ID e, c)) (filter (\<lambda>(e, c). c \<noteq> e_Dialer e) items))))"
    (is "chains_ok ?d")
proof -
  let ?ch = "filter (\<lambda>(e, c). c \<noteq> e_Dialer e) items" and ?N = "{e_Name e |e c. (e, c) \<in> set (filter (\<lambda>(e, c). c \<noteq> e_Dialer e) items)}"
  have it: "\<forall>(e, c) \<in> set items. e \<in> set (db_entries d)" "distinct (map (\<lambda>(e, c). e_ID e) items)"
    using bulk_items_entries [OF items] by auto
  have es: "\<forall>e \<in> set (db_entries d). NormalizeName (e_Name e) = e_Name e" "distinct (map e_Name (db_entries d))" "distinct (map e_ID (db_entries d))"
    using ok by (simp_all add: chains_ok_def entries_ok_def)
  have ents: "db_entries ?d = map (\<lambda>e. e\<lparr>e_Dialer := new_dialer items e\<rparr>) (db_entries d)"
    using SetEntryDialers_new [OF distinct_map_filter [OF it(2)]] new_dialer_changes [OF it(2,1) _ es(3)] by simp
  have ok': "entries_ok ?d"
  proof -
    have "db_next ?d = db_next d" by (simp add: SetEntryDialers_def)
    then show ?thesis using ok unfolding chains_ok_def entries_ok_def ents by (simp add: comp_def)
  qed
  have name: "e = e'" if "e \<in> set (db_entries d)" "e' \<in> set (db_entries d)" "e_Name e = e_Name e'" for e e'
    using that es(2) by (auto simp: distinct_map inj_on_def)
  have "distinct (map (\<lambda>(e, c). e_Name e) items)"
  proof -
    have "inj_on (\<lambda>(e, c). e_ID e) (set items)" "distinct items" using it(2) by (simp_all add: distinct_map)
    moreover have "inj_on (\<lambda>(e, c). e_Name e) (set items)"
    proof (rule inj_onI)
      fix p q assume p: "p \<in> set items" "q \<in> set items" "(case p of (e, c) \<Rightarrow> e_Name e) = (case q of (e, c) \<Rightarrow> e_Name e)"
      obtain e1 c1 e2 c2 where pq: "p = (e1, c1)" "q = (e2, c2)" by (cases p; cases q) auto
      then have "e1 = e2" using p it(1) by (intro name) auto
      then have "(case p of (e, c) \<Rightarrow> e_ID e) = (case q of (e, c) \<Rightarrow> e_ID e)" by (simp add: pq)
      then show "p = q" using p(1,2) by (intro inj_onD [OF \<open>inj_on (\<lambda>(e, c). e_ID e) (set items)\<close>])
    qed
    ultimately show ?thesis by (simp add: distinct_map)
  qed
  note lookup = map_of_proposed [OF this] and names = this
  have look: "map_of (proposed_of items @ entry_rows d) (e_Name e) = Some (new_dialer items e)" if e: "e \<in> set (db_entries d)" for e
  proof (cases "\<exists>c. (e, c) \<in> set items")
    case True
    then obtain c where c: "(e, c) \<in> set items" by blast
    then have "map_of (map (\<lambda>(e, c). (e_Name e, c)) items) (e_Name e) = Some c"
      using names by (intro map_of_is_SomeI) (auto simp: comp_def case_prod_unfold image_iff intro!: bexI [of _ "(e, c)"])
    then show ?thesis using lookup new_dialer_item [OF it(2) c] by (simp add: map_add_def)
  next
    case False
    have "map_of (map (\<lambda>(e, c). (e_Name e, c)) items) (e_Name e) = None"
      using False it(1) name [OF e] by (force simp: map_of_eq_None_iff)
    moreover have "map_of (entry_rows d) (e_Name e) = Some (e_Dialer e)" using e es(2) map_of_entry_rows by blast
    moreover have "\<forall>(e', c) \<in> set items. e_ID e' \<noteq> e_ID e" using False by (rule no_item [OF it(1) e es(3)])
    ultimately show ?thesis using lookup new_dialer_other by (simp add: map_add_def)
  qed
  have rows: "\<exists>e \<in> set (db_entries d). e_Name e = a \<and> new_dialer items e = dl" if "map_of (entry_rows ?d) a = Some dl" for a dl
    using that map_of_entry_rows [of ?d a dl] ok' by (auto simp: entries_ok_def ents)
  have "acyclic (row_edges (entry_rows ?d))"
  proof (rule acyclic_extend [where E = "dials d" and N = ?N])
    show "acyclic (dials d)" using ok by (simp add: chains_ok_def)
    fix a b assume ab: "(a, b) \<in> row_edges (entry_rows ?d)" "a \<notin> ?N"
    then obtain dl refs r where x: "map_of (entry_rows ?d) a = Some dl" "ParseDialer dl = Inr refs" "r \<in> set refs" "r_Kind r = RefXray"
      "b = NormalizeName (r_Name r)" by (auto simp: row_edges_def)
    obtain e where e: "e \<in> set (db_entries d)" "e_Name e = a" "new_dialer items e = dl" using rows [OF x(1)] by blast
    have "\<forall>(e', c) \<in> set ?ch. e_ID e' \<noteq> e_ID e" using ab(2) e(2) it(1) by (intro no_item [OF _ e(1) es(3)]) auto
    then have "e_Dialer e = dl" using e(3) new_dialer_other [of ?ch e] new_dialer_changes [OF it(2,1) e(1) es(3)] by simp
    then have "map_of (entry_rows d) a = Some dl" using e(1,2) es(2) map_of_entry_rows by blast
    then show "(a, b) \<in> dials d" using x by (auto simp: dials_def row_edges_def)
  next
    fix n assume "n \<in> ?N"
    then obtain e c where ec: "(e, c) \<in> set ?ch" "n = e_Name e" by blast
    then have e: "e \<in> set (db_entries d)" using it(1) by auto
    have v: "validateDialerWith d c n (proposed_of items) = None"
      using chk ec by (auto simp: change_error_def split: option.splits)
    show "(n, n) \<notin> (row_edges (entry_rows ?d))\<^sup>+"
    proof (rule no_cycle_after [OF v])
      show "NormalizeName n = n" using e es(1) ec(2) by simp
      fix a dl assume "map_of (entry_rows ?d) a = Some dl"
      then obtain f where f: "f \<in> set (db_entries d)" "e_Name f = a" "new_dialer items f = dl" using rows by blast
      show "cycle_lookup n c (proposed_of items @ entry_rows d) a = Some dl"
      proof (cases "a = n")
        case True
        then have "f = e" using name f e ec(2) by simp
        then have "dl = c" using f(3) new_dialer_item [OF it(2), of e c] ec(1) by simp
        then show ?thesis using True e es(1) ec(2) by (simp add: cycle_lookup_def)
      next
        case False
        moreover have "NormalizeName a = a" using f(1,2) es(1) by auto
        ultimately show ?thesis using look [OF f(1)] f by (simp add: cycle_lookup_def)
      qed
    qed
  qed
  then show ?thesis using ok' by (simp add: chains_ok_def dials_def)
qed

section \<open>Sequences of requests\<close>

text \<open>The requests that edit entries, other than renames and duplicates.\<close>

datatype 'p edit =
    AddEntry "'p turn" entry_request
  | RemoveEntry "'p turn" nat
  | SetEntryConfig "'p turn" nat raw_json
  | SetEntryMux "'p turn" nat bool
  | SetDialers "'p turn" "(nat \<times> string) list"

fun edit_step :: "'p server \<Rightarrow> 'p edit \<Rightarrow> 'p box \<Rightarrow> 'p box" where
  "edit_step sv (AddEntry tn rq) b = fst (EntryAdd sv tn rq b)"
| "edit_step sv (RemoveEntry tn i) b = fst (EntryRemove sv tn i b)"
| "edit_step sv (SetEntryConfig tn i r) b = fst (EntrySetConfig sv tn i r b)"
| "edit_step sv (SetEntryMux tn i on) b = fst (EntrySetMux sv tn i on b)"
| "edit_step sv (SetDialers tn its) b = fst (EntryBulkDialer sv tn its b)"

lemma reconciled_chains: "chains_ok (bx_db (fst (reconciled sv tn b r))) = chains_ok (bx_db b)"
  by (intro entries_ok_same) (simp_all add: served_rows)

lemma with_db_db [simp]: "bx_db (with_db d b) = d"
  by (simp add: with_db_def)

lemma stored_cases:
  "fst (stored b res k) = b \<or> (\<exists>x. res = Ok x \<and> fst (stored b res k) = fst (k x))"
  by (cases res) (simp_all add: stored_def)

lemma EntryAdd_chains: "chains_ok (bx_db b) \<Longrightarrow> chains_ok (bx_db (fst (EntryAdd sv tn rq b)))"
  by (auto simp: EntryAdd_def stored_def reconciled_chains split: outcome.splits option.splits prod.splits
        dest: CreateEntry_chains)

lemma save_entry_chains:
  assumes "chains_ok (bx_db b)" "GetEntry (bx_db b) i = Ok e" "e_ID r = e_ID e" "e_Name r = e_Name e" "e_Dialer r = e_Dialer e"
  shows "chains_ok (bx_db (fst (stored b (UpdateEntry orm (bx_db b) r) (\<lambda>d. reconciled sv tn (with_db d b) x))))"
  using UpdateEntry_chains [OF _ assms(1) _ assms(3-5), of orm] find_row_in [OF assms(2) [unfolded GetEntry_def]] assms(1)
  by (auto simp: stored_def reconciled_chains split: outcome.splits)

lemma edit_step_chains: "chains_ok (bx_db b) \<Longrightarrow> chains_ok (bx_db (edit_step sv ed b))"
proof (cases ed)
  case (AddEntry tn rq)
  then show "chains_ok (bx_db b) \<Longrightarrow> ?thesis" by (simp add: EntryAdd_chains)
next
  case (RemoveEntry tn i)
  then show "chains_ok (bx_db b) \<Longrightarrow> ?thesis" by (simp add: EntryRemove_def reconciled_chains DeleteEntry_chains)
next
  case (SetEntryConfig tn i r)
  assume ok: "chains_ok (bx_db b)"
  show ?thesis
  proof (cases "GetEntry (bx_db b) i")
    case (Ok e)
    then show ?thesis
      using save_entry_chains [OF ok Ok, of "e\<lparr>e_Outbound := r\<rparr>"] ok SetEntryConfig
      by (auto simp: EntrySetConfig_def stored_def [of _ "Ok e"] split: option.splits gomap.splits)
  qed (use ok SetEntryConfig in \<open>auto simp: EntrySetConfig_def stored_def split: option.splits gomap.splits\<close>)
next
  case (SetEntryMux tn i on)
  assume ok: "chains_ok (bx_db b)"
  show ?thesis
  proof (cases "GetEntry (bx_db b) i")
    case (Ok e)
    then show ?thesis
      using save_entry_chains [OF ok Ok, of "e\<lparr>e_Mux := on\<rparr>"] ok SetEntryMux
      by (auto simp: EntrySetMux_def stored_def [of _ "Ok e"] split: option.splits)
  qed (use ok SetEntryMux in \<open>auto simp: EntrySetMux_def stored_def\<close>)
next
  case (SetDialers tn its)
  assume ok: "chains_ok (bx_db b)"
  show ?thesis
    using ok SetDialers
    by (auto simp: EntryBulkDialer_def Let_def reconciled_chains first_error_None intro!: bulk_chains [OF ok] split: outcome.splits option.splits)
qed


definition demo_server :: "xproc server" where
  "demo_server = \<lparr>sv_world = demo_world, sv_orm = (\<lambda>_. True), sv_ifaces = [''eth0''], sv_publicIP = ''192.0.2.1'', sv_pin = (\<lambda>_. [])\<rparr>"

lemma demo_box_chains: "chains_ok (bx_db demo_box)"
proof -
  have "NormalizeName ''x'' = ''x''" by code_simp
  moreover have "ParseDialer [] = Inr []" by (simp add: ParseDialer_def trim_space_def)
  moreover from this have "row_edges [(''x'', [])] = {}" by (auto simp: row_edges_def)
  ultimately show ?thesis
    by (simp add: chains_ok_def entries_ok_def demo_box_def pool_demo_db_def dials_def entry_rows_def acyclic_def)
qed


section \<open>Renaming onto a reference\<close>

text \<open>An entry that others name can be removed, and another one renamed to its name: nothing checks that rename.\<close>

definition ring_db :: db where
  "ring_db = demo_db\<lparr>db_entries := [demo_entry 1 ''b'' [], demo_entry 2 ''a'' ''xray:b'', demo_entry 3 ''c'' ''xray:a'']\<rparr>"

lemma ring_rename:
  assumes "db_entries d = [demo_entry 2 ''a'' ''xray:b'', demo_entry 3 ''c'' ''xray:a'']"
  shows "\<exists>d'. RenameEntry d 3 ''b'' = Ok d' \<and> entry_rows d' = [(''a'', ''xray:b''), (''b'', ''xray:a'')]"
proof -
  have v: "ValidName ''b'' = Inr ''b''" by code_simp
  have r: "RenameDialerRef ''xray:b'' RefXray ''c'' ''b'' = (''xray:b'', False)" "RenameDialerRef ''xray:a'' RefXray ''c'' ''b'' = (''xray:a'', False)"
    by code_simp+
  show ?thesis
    by (simp add: RenameEntry_def v assms find_row_def demo_entry_def update_where_def cascadeRename_def renameInboundTargets_def
        entry_rows_def redial_def r)
qed

lemma ring_cycle: "\<not> acyclic (row_edges [(''a'', ''xray:b''), (''b'', ''xray:a'')])"
proof -
  have "ParseDialer ''xray:b'' = Inr [\<lparr>r_Kind = ''xray'', r_Name = ''b''\<rparr>]" "ParseDialer ''xray:a'' = Inr [\<lparr>r_Kind = ''xray'', r_Name = ''a''\<rparr>]"
    "NormalizeName ''a'' = ''a''" "NormalizeName ''b'' = ''b''" by code_simp+
  then have "(''a'', ''b'') \<in> row_edges [(''a'', ''xray:b''), (''b'', ''xray:a'')]" "(''b'', ''a'') \<in> row_edges [(''a'', ''xray:b''), (''b'', ''xray:a'')]"
    by (auto simp: row_edges_def RefXray_def)
  then have "(''a'', ''a'') \<in> (row_edges [(''a'', ''xray:b''), (''b'', ''xray:a'')])\<^sup>+" by (meson r_into_trancl' trancl_into_trancl)
  then show ?thesis by (auto simp: acyclic_def)
qed



section \<open>All dialers or none\<close>

lemma bulk_items_no_panic: "bulk_items d seen its \<noteq> Panic"
  by (induction d seen its rule: bulk_items.induct)
     (auto simp: GetEntry_def find_row_def obind_Panic split: outcome.splits sum.splits option.splits)

lemma bulk_result:
  assumes "entries_ok d" "bulk_items d [] its = Ok items"
    and "es = map (\<lambda>e. e\<lparr>e_Dialer := new_dialer items e\<rparr>) (db_entries d)"
  shows "\<forall>(i, dl) \<in> set its. \<exists>e \<in> set es. e_ID e = i \<and> CanonicalDialer dl = Inr (e_Dialer e)"
    and "\<forall>e \<in> set (db_entries d). e_ID e \<notin> fst ` set its \<longrightarrow> e \<in> set es"
proof -
  note b = bulk_items_entries [OF assms(2)]
  have ids: "(\<lambda>(e, c). (e_ID e, Inr c)) ` set items = (\<lambda>(i, dl). (i, CanonicalDialer dl)) ` set its"
    using b arg_cong [of _ _ set] by (metis (no_types, lifting) list.set_map)
  show "\<forall>(i, dl) \<in> set its. \<exists>e \<in> set es. e_ID e = i \<and> CanonicalDialer dl = Inr (e_Dialer e)"
  proof clarify
    fix i dl assume "(i, dl) \<in> set its"
    then have "(i, CanonicalDialer dl) \<in> (\<lambda>(e, c). (e_ID e, Inr c)) ` set items" unfolding ids by force
    then obtain e c where e: "(e, c) \<in> set items" "i = e_ID e" "CanonicalDialer dl = Inr c" by auto
    then have "e\<lparr>e_Dialer := c\<rparr> \<in> set es" using b new_dialer_item [of items e c] by (force simp: assms(3))
    then show "\<exists>e \<in> set es. e_ID e = i \<and> CanonicalDialer dl = Inr (e_Dialer e)"
      using e(2,3) by (intro bexI [of _ "e\<lparr>e_Dialer := c\<rparr>"]) simp_all
  qed
  show "\<forall>e \<in> set (db_entries d). e_ID e \<notin> fst ` set its \<longrightarrow> e \<in> set es"
  proof (intro ballI impI)
    fix e assume e: "e \<in> set (db_entries d)" "e_ID e \<notin> fst ` set its"
    have "fst ` (\<lambda>(e, c). (e_ID e, Inr c :: dialer_error + string)) ` set items = fst ` (\<lambda>(i, dl). (i, CanonicalDialer dl)) ` set its"
      using ids by simp
    then have "\<forall>(e', c) \<in> set items. e_ID e' \<noteq> e_ID e" using e(2) by (force simp: image_image case_prod_unfold)
    then have "e\<lparr>e_Dialer := new_dialer items e\<rparr> = e" using new_dialer_other by simp
    then show "e \<in> set es" using e(1) by (force simp: assms(3))
  qed
qed

text \<open>C27. A change of several dialers is refused with nothing changed, or every entry of the request has its dialer in
  canonical form and all other entries are as they were, also when the reconcile that follows fails.\<close>

theorem bulk_dialers_all_or_nothing:
  assumes "entries_ok (bx_db b)" "EntryBulkDialer sv tn its b = (b', r)"
  shows "(b' = b \<and> \<not> is_ok r) \<or>
    (\<forall>(i, dl) \<in> set its. \<exists>e \<in> set (db_entries (bx_db b')). e_ID e = i \<and> CanonicalDialer dl = Inr (e_Dialer e)) \<and>
    (\<forall>e \<in> set (db_entries (bx_db b)). e_ID e \<notin> fst ` set its \<longrightarrow> e \<in> set (db_entries (bx_db b')))"
proof (cases "bulk_items (bx_db b) [] its")
  case (Fail e)
  then show ?thesis using assms(2) by (auto simp: EntryBulkDialer_def is_ok_def)
next
  case Panic
  then show ?thesis using bulk_items_no_panic by metis
next
  case (Ok items)
  let ?d = "bx_db b" and ?ch = "filter (\<lambda>(e, c). c \<noteq> e_Dialer e) items"
  note b = bulk_items_entries [OF Ok]
  have ents: "db_entries (SetEntryDialers ?d (dict_of (map (\<lambda>(e, c). (e_ID e, c)) ?ch))) =
      map (\<lambda>e. e\<lparr>e_Dialer := new_dialer items e\<rparr>) (db_entries ?d)"
    using SetEntryDialers_new [OF distinct_map_filter] b new_dialer_changes [of items "db_entries ?d"] assms(1)
    by (simp add: entries_ok_def)
  show ?thesis
  proof (cases "first_error (change_error ?d (proposed_of items)) ?ch")
    case (Some e)
    then show ?thesis using assms(2) Ok by (auto simp: EntryBulkDialer_def is_ok_def Let_def)
  next
    case None
    have "db_entries (bx_db b') = map (\<lambda>e. e\<lparr>e_Dialer := new_dialer items e\<rparr>) (db_entries ?d)"
    proof (cases "?ch = []")
      case True
      then have "b' = b" using assms(2) Ok by (simp add: EntryBulkDialer_def Let_def)
      moreover have "SetEntryDialers ?d (dict_of []) = ?d" by (simp add: SetEntryDialers_def dict_of_def)
      ultimately show ?thesis using ents True by simp
    next
      case False
      then have "b' = fst (EntryBulkDialer sv tn its b)" using assms(2) by simp
      then show ?thesis using ents False None Ok by (simp add: EntryBulkDialer_def Let_def served_rows)
    qed
    then show ?thesis using bulk_result [OF assms(1) Ok] by blast
  qed
qed

lemma bulk_dialers_all_or_nothing_witness:
  "let (b', r) = EntryBulkDialer demo_server demo_turn [(1, ''xray:gone'')] demo_box in
    (b' = demo_box \<and> \<not> is_ok r) \<or> (\<exists>e \<in> set (db_entries (bx_db b')). e_ID e = 1 \<and> CanonicalDialer ''xray:gone'' = Inr (e_Dialer e))"
  using bulk_dialers_all_or_nothing [of demo_box demo_server demo_turn "[(1, ''xray:gone'')]"] demo_box_chains
  by (cases "EntryBulkDialer demo_server demo_turn [(1, ''xray:gone'')] demo_box") (auto simp: chains_ok_def)

section \<open>Imports\<close>

lemma import_rows_keeps:
  assumes "\<And>d r d'. P d \<Longrightarrow> create d r = Ok d' \<Longrightarrow> P d'" "P d"
  shows "P (fst (import_rows replace what name known create rs d))"
  using assms(2)
proof (induction rs arbitrary: d)
  case (Cons r rs)
  let ?skip = "import_rows replace what name known create rs d"
  have skip: "P (fst ?skip)" using Cons by blast
  have made: "P (fst (import_rows replace what name known create rs d1))" if "create d r = Ok d1" for d1
    using Cons.IH assms(1) [OF Cons.prems that] by blast
  show ?case
    using skip made Cons.prems by (auto split: prod.splits outcome.splits)
qed simp

text \<open>All rows are new: their ids come after \<open>k\<close>.\<close>

definition rows_after :: "nat \<Rightarrow> db \<Rightarrow> bool" where
  "rows_after k d \<longleftrightarrow> k \<le> db_next d \<and> (\<forall>i \<in> set (db_inbounds d). k \<le> in_ID i) \<and> (\<forall>e \<in> set (db_entries d). k \<le> e_ID e) \<and>
     (\<forall>s \<in> set (db_subs d). k \<le> sub_ID s) \<and> db_nodes d = []"

lemma create_rows_after:
  "rows_after k d \<Longrightarrow> drop_row (CreateInbound orm d i) = Ok d' \<Longrightarrow> rows_after k d'"
  "rows_after k d \<Longrightarrow> drop_row (CreateEntry orm d e) = Ok d' \<Longrightarrow> rows_after k d'"
  "rows_after k d \<Longrightarrow> CreateSubscription orm d s = Ok d' \<Longrightarrow> rows_after k d'"
  by (auto simp: rows_after_def drop_row_def CreateInbound_def CreateEntry_def CreateSubscription_def Let_def obind_Ok
      split: sum.splits if_splits)

lemma import_all_after:
  assumes "rows_after k d"
  shows "rows_after k (fst (import_all orm replace bk d))"
proof -
  have i: "rows_after k d \<Longrightarrow> rows_after k (fst (import_inbounds orm replace rs d))" for rs d
    unfolding import_inbounds_def by (rule import_rows_keeps) (use create_rows_after in blast)+
  have e: "rows_after k d \<Longrightarrow> rows_after k (fst (import_entries orm replace rs d))" for rs d
    unfolding import_entries_def by (rule import_rows_keeps) (use create_rows_after in blast)+
  have s: "rows_after k d \<Longrightarrow> rows_after k (fst (import_subs orm replace rs d))" for rs d
    unfolding import_subs_def by (rule import_rows_keeps) (use create_rows_after in blast)+
  show ?thesis
    using i [OF assms, of "bk_Inbounds bk"] e [of _ "bk_Entries bk"] s [of _ "bk_Subs bk"]
    by (auto simp: import_all_def split: prod.splits outcome.splits) (metis fst_conv)+
qed

text \<open>A backup that replaces the configuration is checked only in part before the old one is deleted: when the store
  refuses a row of it, the request fails and nothing of the old configuration is left.\<close>

theorem failed_import_loses_config:
  assumes "ImportConfig sv tn True decoded b = (b', Fail (ImportErr what name e))"
  shows "(\<forall>i \<in> set (db_inbounds (bx_db b')). db_next (bx_db b) \<le> in_ID i) \<and>
    (\<forall>x \<in> set (db_entries (bx_db b')). db_next (bx_db b) \<le> e_ID x) \<and>
    (\<forall>s \<in> set (db_subs (bx_db b')). db_next (bx_db b) \<le> sub_ID s) \<and> db_nodes (bx_db b') = []"
proof -
  let ?k = "db_next (bx_db b)" and ?d0 = "DeleteAllConfig (bx_db b)"
  obtain bk where bk: "decoded = Some bk" using assms by (cases decoded) (auto simp: ImportConfig_def)
  have no: "first_error (\<lambda>e. if IsMaster e then map_option (HasDialer (e_Name e)) (CheckMasterOutbound (e_Outbound e)) else None) es \<noteq>
      Some (ImportErr what name e)" for es
    by (induction es) (auto split: option.splits)
  obtain d r where r: "import_all (sv_orm sv) True bk ?d0 = (d, r)" by fastforce
  have "rows_after ?k ?d0" by (simp add: rows_after_def DeleteAllConfig_def)
  then have d: "rows_after ?k d" using import_all_after [of ?k ?d0 "sv_orm sv" True bk] r by simp
  have "b' = with_db d b"
    using assms no [of "bk_Entries bk"]
    by (auto simp: ImportConfig_def bk r backup_error_def reconciled_def split: if_splits option.splits outcome.splits prod.splits recon_result.splits)
  then show ?thesis using d by (simp add: rows_after_def)
qed

lemma failed_import_loses_config_witness:
  "\<exists>b' e. ImportConfig demo_server demo_turn True
      (Some \<lparr>bk_Version = 1, bk_Inbounds = [], bk_Entries = [demo_entry 0 ''!'' []], bk_Subs = []\<rparr>) demo_box = (b', Fail (ImportErr ''entry'' ''!'' e)) \<and>
    db_nodes (bx_db b') = [] \<and> (\<forall>x \<in> set (db_entries (bx_db b')). db_next (bx_db demo_box) \<le> e_ID x)"
proof -
  let ?bk = "\<lparr>bk_Version = 1, bk_Inbounds = [], bk_Entries = [demo_entry 0 ''!'' []], bk_Subs = []\<rparr>"
  have v: "ValidName ''!'' = Inl (NameBadChars ''!'')" by code_simp
  have m: "\<not> IsMaster (demo_entry 0 ''!'' [])" by code_simp
  obtain b' where b': "ImportConfig demo_server demo_turn True (Some ?bk) demo_box = (b', Fail (ImportErr ''entry'' ''!'' (StoreName (NameBadChars ''!''))))"
    using m by (simp add: ImportConfig_def backupVersion_def backup_error_def import_all_def import_inbounds_def import_entries_def
        drop_row_def CreateEntry_def v) (simp add: demo_entry_def v)
  show ?thesis using failed_import_loses_config [OF b'] b' by blast
qed

section \<open>The cap of a subscription\<close>

text \<open>A change of the options of a subscription, its cap among them, changes no node: which ones are active is only
  decided again by the next refresh or by a change of one of its nodes.\<close>

theorem SubSetOptions_keeps_nodes:
  "db_nodes (bx_db (fst (SubSetOptions sv tn i rq b))) = db_nodes (bx_db b)"
proof -
  have u: "UpdateSubscription orm d s = Ok d' \<Longrightarrow> db_nodes d' = db_nodes d" for orm d s d'
    by (auto simp: UpdateSubscription_def obind_Ok)
  have s: "fst (case SyncDialerMembers sv tn b () of (b', Ok _) \<Rightarrow> (b', Ok (f b')) | (b', Fail e) \<Rightarrow> (b', Fail e) | (b', Panic) \<Rightarrow> (b', Panic)) =
      fst (SyncDialerMembers sv tn b ())" for b and f :: "_ \<Rightarrow> sub_info"
    by (simp split: prod.splits outcome.splits)
  show ?thesis
    by (auto simp: SubSetOptions_def stored_def Let_def s served_rows u split: outcome.splits sum.splits)
qed

section \<open>A cancelled test\<close>

lemma given_up_run:
  assumes "pw_cancelled w 0" "\<And>cfg. pw_start w 0 cfg \<noteq> None" "probe_batches w op items bs (0, out) = Some s'"
  shows "snd s' = out"
proof (cases bs)
  case (Cons b bs')
  have "runProbeBatch w op items b (0, out) \<noteq> Ok out'" for out'
    using assms(2) by (force simp: runProbeBatch_def split: sum.splits option.splits)
  then have "probeBatch w op items b (0, out) = Some s1 \<Longrightarrow> snd s1 = out \<and> pw_cancelled w (fst s1 - 1)" for s1
    using assms(1) by (auto simp: probeBatch.simps [of w op items b] split: if_splits outcome.splits)
  then show ?thesis using assms(3) by (auto simp: Cons bind_eq_Some_conv split: if_splits)
qed (use assms(3) in auto)

lemma store_latencies_none:
  assumes "i \<noteq> 0" "\<forall>r \<in> set rs. ir_LatencyMs r = 0"
  shows "db_nodes (store_latencies i rs d) =
    map (\<lambda>n. if nd_SubID n = i \<and> nd_Fingerprint n \<noteq> [] \<and> nd_Fingerprint n \<in> ir_Fingerprint ` set rs
              then n\<lparr>nd_LastLatencyMs := 0\<rparr> else n) (db_nodes d)"
  using assms(2)
proof (induction rs arbitrary: d)
  case (Cons r rs)
  have "store_latencies i (r # rs) d =
      store_latencies i rs (if ir_Fingerprint r \<noteq> [] then SetNodeLatency d i (ir_Fingerprint r) 0 else d)"
    using assms(1) Cons.prems by (simp add: store_latencies_def)
  then show ?case using Cons by (auto simp: SetNodeLatency_def update_where_def)
qed (simp add: store_latencies_def)

text \<open>C34. A test of a subscription that is cancelled before its first xray is up has measured nothing, and yet the latency
  that is kept of every node of the subscription is cleared.\<close>

theorem cancelled_test_clears_latencies:
  assumes "Test w (Inr path) ''sub'' i fp b = (b', Ok rs)" "path \<noteq> []" "i \<noteq> 0"
    and "pw_cancelled w 0" "\<And>cfg. pw_start w 0 cfg \<noteq> None"
  shows "list_all (\<lambda>n. nd_Fingerprint n = [] \<or> nd_LastLatencyMs n = 0) (sub_nodes (bx_db b') i)"
proof -
  let ?ns = "sub_nodes (bx_db b) i" and ?op = "\<lparr>po_Bin = path, po_Batch = 0, po_Attempts = 0, po_MinBytes = 0\<rparr>"
  obtain s where "GetSubscription (bx_db b) i = Ok s"
    using assms(1) by (auto simp: Test_def testItems_def split: outcome.splits)
  moreover from this have "sub_ID s = i" by (auto simp: GetSubscription_def dest: find_row_Ok)
  ultimately have items: "testItems (bx_db b) ''sub'' i fp = Ok (map node_item ?ns, i)" by (simp add: testItems_def)
  show ?thesis
  proof (cases "?ns = []")
    case True
    then show ?thesis using assms(1) items by (simp add: Test_def)
  next
    case False
    then have run: "ProbeOutbounds w ?op (map node_item ?ns) = Some rs" and b': "b' = with_db (store_latencies i rs (bx_db b)) b"
      using assms(1) items by (simp_all add: Test_def split: option.splits)
    obtain k where "probe_batches w ?op (map node_item ?ns) (planProbeBatches (map node_item ?ns) (test_indices (map node_item ?ns))
        (batch_size ?op)) (0, test_start (map node_item ?ns)) = Some (k, rs)"
      using ProbeOutbounds_run [OF _ _ run] False assms(2) by auto
    from given_up_run [OF assms(4,5) this] have rs: "rs = test_start (map node_item ?ns)" by simp
    have none: "\<forall>r \<in> set rs. ir_LatencyMs r = 0" and fps: "ir_Fingerprint ` set rs = nd_Fingerprint ` set ?ns"
      by (auto simp: rs test_start_def blank_result_def node_item_def image_image)
    have "nd_Fingerprint n = [] \<or> nd_LastLatencyMs n = 0" if n: "n \<in> set (db_nodes (bx_db b'))" "nd_SubID n = i" for n
    proof -
      from n(1) obtain n0 where n0: "n0 \<in> set (db_nodes (bx_db b))"
        "n = (if nd_SubID n0 = i \<and> nd_Fingerprint n0 \<noteq> [] \<and> nd_Fingerprint n0 \<in> nd_Fingerprint ` set ?ns
              then n0\<lparr>nd_LastLatencyMs := 0\<rparr> else n0)"
        by (auto simp: b' with_db_def store_latencies_none [OF assms(3) none] fps)
      moreover have "nd_SubID n0 = i" using n0(2) n(2) by (simp split: if_splits)
      moreover from this n0(1) have "nd_Fingerprint n0 \<in> nd_Fingerprint ` set ?ns" by (simp add: sub_nodes_def)
      ultimately show ?thesis by simp
    qed
    then show ?thesis by (simp add: sub_nodes_def list_all_iff)
  qed
qed

definition timed_node :: sub_node where
  "timed_node = (demo_node 1 ''f1'' True)\<lparr>nd_Outbound := demo_outbound ''vless'', nd_LastLatencyMs := 120\<rparr>"

definition given_up_world :: probe_world where
  "given_up_world = demo_probe_world\<lparr>pw_start := (\<lambda>k cfg. Some ''context canceled''), pw_cancelled := (\<lambda>k. True)\<rparr>"

lemma given_up_test:
  "Test given_up_world (Inr ''xray'') ''sub'' 1 [] (demo_box\<lparr>bx_db := demo_db\<lparr>db_nodes := [timed_node]\<rparr>\<rparr>) =
     (demo_box\<lparr>bx_db := demo_db\<lparr>db_nodes := [timed_node\<lparr>nd_LastLatencyMs := 0\<rparr>]\<rparr>\<rparr>, Ok [blank_result (node_item timed_node)])"
proof -
  have "ProbeOutbounds given_up_world \<lparr>po_Bin = ''xray'', po_Batch = 0, po_Attempts = 0, po_MinBytes = 0\<rparr> [node_item timed_node] =
      Some [blank_result (node_item timed_node)]" by code_simp
  then show ?thesis
    by (simp add: Test_def testItems_def GetSubscription_def find_row_def demo_db_def demo_sub_def sub_nodes_def timed_node_def
        demo_node_def with_db_def store_latencies_def SetNodeLatency_def update_where_def blank_result_def node_item_def)
qed

lemma cancelled_test_clears_latencies_witness:
  "list_all (\<lambda>n. nd_Fingerprint n = [] \<or> nd_LastLatencyMs n = 0)
     (sub_nodes (bx_db (demo_box\<lparr>bx_db := demo_db\<lparr>db_nodes := [timed_node\<lparr>nd_LastLatencyMs := 0\<rparr>]\<rparr>\<rparr>)) 1)"
  by (rule cancelled_test_clears_latencies [OF given_up_test]) (simp_all add: given_up_world_def)

end
