(* ===== verification/Wireguard.thy ===== *)
theory Wireguard
  imports Links Netip
begin

text \<open>
  WireGuard entries (\<^verbatim>\<open>core/xray/wireguard.go\<close>) and the registration of a WARP device, which yields one
  (\<^verbatim>\<open>internal/warp/warp.go\<close>). Random bytes, the scalar multiplication and the replies of the API are arguments.
\<close>

unbundle bit_operations_syntax

section \<open>A tunnel\<close>

record wireguard =
  wg_PrivateKey :: string
  wg_Addresses :: "string list"
  wg_PeerPublicKey :: string
  wg_PresharedKey :: string
  wg_Endpoint :: string
  wg_Reserved :: "int list"
  wg_MTU :: int
  wg_KeepAlive :: int

datatype wg_error =
    BadKey string
  | NoTunnelAddress
  | BadTunnelAddress string
  | BadEndpoint string
  | BadEndpointPort string
  | ReservedCount nat
  | ReservedByte int

definition DefaultWireGuardMTU :: int where "DefaultWireGuardMTU = 1280"

definition clamp_key :: "8 word list \<Rightarrow> 8 word list" where
  "clamp_key k0 =
     (let k1 = k0[0 := k0 ! 0 AND 248]; k2 = k1[31 := k1 ! 31 AND 127] in k2[31 := k2 ! 31 OR 64])"

definition NewWireGuardKey :: "(8 word list \<Rightarrow> 8 word list option) \<Rightarrow> 8 word list \<Rightarrow> (string \<times> string) option" where
  "NewWireGuardKey x25519 k =
     map_option (\<lambda>p. (b64_encode False True (string_of_bytes (clamp_key k)), b64_encode False True (string_of_bytes p)))
       (x25519 (clamp_key k))"

definition checkWGKey :: "string \<Rightarrow> string \<Rightarrow> wg_error option" where
  "checkWGKey what k =
     (case b64_decode False True (trim_space k) of
        Some b \<Rightarrow> if length b = 32 then None else Some (BadKey what)
      | None \<Rightarrow> Some (BadKey what))"

definition wgPrefix :: "string \<Rightarrow> prefix_addr option" where
  "wgPrefix a0 =
     (let a = trim_space a0
      in case ParsePrefix a of
           Some p \<Rightarrow> Some p
         | None \<Rightarrow> map_option (\<lambda>(ip, _). (ip, BitLen ip)) (ParseAddr a))"

definition endpoint_error :: "string \<Rightarrow> wg_error option" where
  "endpoint_error e =
     (case split_host_port e of
        None \<Rightarrow> Some (BadEndpoint e)
      | Some (host, port) \<Rightarrow>
          if host = [] then Some (BadEndpoint e)
          else (case parse_int port of
                  None \<Rightarrow> Some (BadEndpointPort e)
                | Some p \<Rightarrow> if p < 1 \<or> p > 65535 then Some (BadEndpointPort e) else None))"

definition reserved_error :: "int list \<Rightarrow> wg_error option" where
  "reserved_error r =
     (if length r \<noteq> 0 \<and> length r \<noteq> 3 then Some (ReservedCount (length r))
      else map_option ReservedByte (List.find (\<lambda>b. b < 0 \<or> b > 255) r))"

definition Validate :: "wireguard \<Rightarrow> wg_error option" where
  "Validate w = first_some
     [checkWGKey ''private key'' (wg_PrivateKey w),
      checkWGKey ''peer public key'' (wg_PeerPublicKey w),
      (if wg_PresharedKey w \<noteq> [] then checkWGKey ''preshared key'' (wg_PresharedKey w) else None),
      (if wg_Addresses w = [] then Some NoTunnelAddress else None),
      map_option BadTunnelAddress (List.find (\<lambda>a. wgPrefix a = None) (wg_Addresses w)),
      endpoint_error (wg_Endpoint w),
      reserved_error (wg_Reserved w)]"

text \<open>The strategy follows the families of the tunnel's addresses; any address that is not IPv4 counts as IPv6.\<close>

definition is_v4 :: "prefix_addr \<Rightarrow> bool" where
  "is_v4 p = (case fst p of IP4 _ \<Rightarrow> True | IP6 _ \<Rightarrow> False)"

definition tunnel_strategy :: "prefix_addr list \<Rightarrow> string" where
  "tunnel_strategy ps =
     (let v4 = list_ex is_v4 ps; v6 = list_ex (\<lambda>p. \<not> is_v4 p) ps
      in if v4 \<and> \<not> v6 then ''ForceIPv4'' else if v6 \<and> \<not> v4 then ''ForceIPv6'' else ''ForceIPv4v6'')"

definition peer_json :: "wireguard \<Rightarrow> json" where
  "peer_json w = jobj
     ([(''publicKey'', JStr (trim_space (wg_PeerPublicKey w))), (''endpoint'', JStr (wg_Endpoint w)),
       (''allowedIPs'', JArr [JStr ''0.0.0.0/0'', JStr ''::/0''])] @
      (if wg_PresharedKey w \<noteq> [] then [(''preSharedKey'', JStr (trim_space (wg_PresharedKey w)))] else []) @
      (if wg_KeepAlive w > 0 then [(''keepAlive'', JNum (wg_KeepAlive w))] else []))"

definition wg_Outbound :: "wireguard \<Rightarrow> (wg_error, object) outcome" where
  "wg_Outbound w =
     (case Validate w of
        Some e \<Rightarrow> Fail e
      | None \<Rightarrow>
          let ps = List.map_filter wgPrefix (wg_Addresses w)
          in Ok (outbound ''wireguard'' (jobj
               ([(''secretKey'', JStr (trim_space (wg_PrivateKey w))),
                 (''address'', JArr (map (\<lambda>p. JStr (prefix_text p)) ps)),
                 (''peers'', JArr [peer_json w]),
                 (''mtu'', JNum (if wg_MTU w \<le> 0 then DefaultWireGuardMTU else wg_MTU w)),
                 (''noKernelTun'', JBool True),
                 (''domainStrategy'', JStr (tunnel_strategy ps))] @
                (if length (wg_Reserved w) = 3 then [(''reserved'', JArr (map JNum (wg_Reserved w)))] else []))) []))"

section \<open>WARP\<close>

record warp_reply =
  wr_ID :: string
  wr_Token :: string
  wr_AccountType :: string
  wr_ClientID :: string
  wr_Peers :: "(string \<times> string) list"
  wr_V4 :: string
  wr_V6 :: string

record warp_account =
  wa_ID :: string
  wa_Token :: string
  wa_AccountType :: string
  wa_WireGuard :: wireguard

datatype warp_error = NoKey | CallFailed string | IncompleteReply | InvalidTunnel wg_error | LicenseRefused string

definition DefaultEndpoint :: string where "DefaultEndpoint = ''162.159.192.1:2408''"

definition warp_endpoint :: "string \<Rightarrow> string" where
  "warp_endpoint v4 =
     (let host = (case split_host_port v4 of Some (h, _) \<Rightarrow> h | None \<Rightarrow> v4)
      in if ParseIP host = None then DefaultEndpoint else JoinHostPort host ''2408'')"

definition warp_reserved :: "string \<Rightarrow> int list" where
  "warp_reserved clientID =
     (case b64_decode False True clientID of
        Some b \<Rightarrow> if length b = 3 then map (\<lambda>c. int (byte c)) b else []
      | None \<Rightarrow> [])"

definition warp_tunnel :: "string \<Rightarrow> warp_reply \<Rightarrow> wireguard" where
  "warp_tunnel priv r =
     \<lparr>wg_PrivateKey = priv, wg_Addresses = filter (\<lambda>a. a \<noteq> []) [wr_V4 r, wr_V6 r],
      wg_PeerPublicKey = fst (hd (wr_Peers r)), wg_PresharedKey = [], wg_Endpoint = warp_endpoint (snd (hd (wr_Peers r))),
      wg_Reserved = warp_reserved (wr_ClientID r), wg_MTU = DefaultWireGuardMTU, wg_KeepAlive = 0\<rparr>"

text \<open>The reply to the registration, and the account type that applying a license answers with.\<close>

definition Register :: "(string \<times> string) option \<Rightarrow> string + warp_reply \<Rightarrow> (string \<Rightarrow> string + string) \<Rightarrow> string \<Rightarrow>
    (warp_error, warp_account) outcome" where
  "Register key reply apply license0 =
     (case key of
        None \<Rightarrow> Fail NoKey
      | Some (priv, _) \<Rightarrow>
          (case reply of
             Inl e \<Rightarrow> Fail (CallFailed e)
           | Inr r \<Rightarrow>
               if wr_ID r = [] \<or> wr_Token r = [] \<or> wr_Peers r = [] \<or> fst (hd (wr_Peers r)) = [] then Fail IncompleteReply
               else let w = warp_tunnel priv r; license = trim_space license0;
                        acc = \<lparr>wa_ID = wr_ID r, wa_Token = wr_Token r, wa_AccountType = wr_AccountType r, wa_WireGuard = w\<rparr>
                    in (case Validate w of
                          Some e \<Rightarrow> Fail (InvalidTunnel e)
                        | None \<Rightarrow>
                            if license = [] then Ok acc
                            else (case apply license of
                                    Inl e \<Rightarrow> Fail (LicenseRefused e)
                                  | Inr t \<Rightarrow> Ok (acc\<lparr>wa_AccountType := t\<rparr>)))))"

section \<open>Facts\<close>

lemma first_some_None: "first_some xs = None \<longleftrightarrow> list_all (\<lambda>x. x = None) xs"
  by (induction xs) (auto split: option.splits)

lemma parse_v4_len: "parse_v4 s = Some os \<Longrightarrow> length os = 4"
  by (auto simp: parse_v4_def is_ipv4_def Let_def split: if_splits)

lemma parse_v6_len: "parse_v6 s = Some ws \<Longrightarrow> length ws = 8"
  by (auto simp: parse_v6_def split: option.splits prod.splits if_splits)

lemma ParseAddr_ok: "ParseAddr s = Some (a, z) \<Longrightarrow> addr_ok a"
  by (auto simp: ParseAddr_def addr_ok_def Let_def dest: parse_v4_len parse_v6_len split: option.splits prod.splits if_splits)

lemma wgPrefix_ok: "wgPrefix a = Some p \<Longrightarrow> addr_ok (fst p) \<and> snd p \<le> BitLen (fst p)"
  by (auto simp: wgPrefix_def ParsePrefix_def Let_def dest: ParseAddr_ok split: option.splits prod.splits if_splits)

lemma wg_Outbound_Ok:
  assumes "wg_Outbound w = Ok ob"
  obtains ps where "map wgPrefix (wg_Addresses w) = map Some ps" "ps \<noteq> []" "endpoint_error (wg_Endpoint w) = None"
    "obj_or_nil ob ''settings'' = dict_of
       ([(''secretKey'', JStr (trim_space (wg_PrivateKey w))), (''address'', JArr (map (\<lambda>p. JStr (prefix_text p)) ps)),
         (''peers'', JArr [peer_json w]), (''mtu'', JNum (if wg_MTU w \<le> 0 then DefaultWireGuardMTU else wg_MTU w)),
         (''noKernelTun'', JBool True), (''domainStrategy'', JStr (tunnel_strategy ps))] @
        (if length (wg_Reserved w) = 3 then [(''reserved'', JArr (map JNum (wg_Reserved w)))] else []))"
    "map_of ob ''protocol'' = Some (JStr ''wireguard'')" "map_of ob ''settings'' = Some (JObj (obj_or_nil ob ''settings''))"
proof -
  from assms have v: "Validate w = None" by (auto simp: wg_Outbound_def split: option.splits)
  then have "wg_Addresses w \<noteq> []" "\<forall>a \<in> set (wg_Addresses w). wgPrefix a \<noteq> None" "endpoint_error (wg_Endpoint w) = None"
    unfolding Validate_def first_some_None by (auto simp: find_None_iff split: if_splits)
  moreover define ps where "ps = List.map_filter wgPrefix (wg_Addresses w)"
  moreover have "\<forall>a \<in> set as. wgPrefix a \<noteq> None \<Longrightarrow> map wgPrefix as = map Some (List.map_filter wgPrefix as)" for as
    by (induction as) (auto simp: map_filter_def)
  ultimately have "map wgPrefix (wg_Addresses w) = map Some ps" "endpoint_error (wg_Endpoint w) = None" by simp_all
  moreover from this \<open>wg_Addresses w \<noteq> []\<close> have "ps \<noteq> []" by auto
  moreover define st where "st = dict_of
       ([(''secretKey'', JStr (trim_space (wg_PrivateKey w))), (''address'', JArr (map (\<lambda>p. JStr (prefix_text p)) ps)),
         (''peers'', JArr [peer_json w]), (''mtu'', JNum (if wg_MTU w \<le> 0 then DefaultWireGuardMTU else wg_MTU w)),
         (''noKernelTun'', JBool True), (''domainStrategy'', JStr (tunnel_strategy ps))] @
        (if length (wg_Reserved w) = 3 then [(''reserved'', JArr (map JNum (wg_Reserved w)))] else []))"
  then have ob: "ob = outbound ''wireguard'' (JObj st) []"
    using v assms by (auto simp: wg_Outbound_def Let_def ps_def)
  have "map_of ob ''protocol'' = Some (JStr ''wireguard'')" "map_of ob ''settings'' = Some (JObj st)"
    by (simp_all add: ob outbound_def dict_simps)
  moreover from this have "obj_or_nil ob ''settings'' = st" by (simp add: obj_or_nil_def obj_at_def)
  ultimately show thesis using that [of ps] st_def by simp
qed

text \<open>C35. The tunnel addresses of an emitted WireGuard outbound are those of the entry: each is read back as the prefix that
  was meant. Its strategy names exactly the families that the tunnel has an address in.\<close>

theorem wireguard_outbound_families:
  assumes "wg_Outbound w = Ok ob"
  shows "\<exists>ps. map wgPrefix (wg_Addresses w) = map Some ps \<and>
    arr_at (obj_or_nil ob ''settings'') ''address'' = map (\<lambda>p. JStr (prefix_text p)) ps \<and>
    map (\<lambda>p. ParsePrefix (prefix_text p)) ps = map Some ps \<and>
    str_at (obj_or_nil ob ''settings'') ''domainStrategy'' =
      (if list_all is_v4 ps then ''ForceIPv4'' else if list_ex is_v4 ps then ''ForceIPv4v6'' else ''ForceIPv6'')"
proof -
  obtain ps where ps: "map wgPrefix (wg_Addresses w) = map Some ps" "ps \<noteq> []"
    "obj_or_nil ob ''settings'' = dict_of
       ([(''secretKey'', JStr (trim_space (wg_PrivateKey w))), (''address'', JArr (map (\<lambda>p. JStr (prefix_text p)) ps)),
         (''peers'', JArr [peer_json w]), (''mtu'', JNum (if wg_MTU w \<le> 0 then DefaultWireGuardMTU else wg_MTU w)),
         (''noKernelTun'', JBool True), (''domainStrategy'', JStr (tunnel_strategy ps))] @
        (if length (wg_Reserved w) = 3 then [(''reserved'', JArr (map JNum (wg_Reserved w)))] else []))"
    using wg_Outbound_Ok [OF assms] by blast
  have "ParsePrefix (prefix_text p) = Some p" if "p \<in> set ps" for p
  proof -
    have "Some p \<in> set (map wgPrefix (wg_Addresses w))" using that ps(1) by simp
    then obtain a where "wgPrefix a = Some p" by auto
    then show ?thesis using wgPrefix_ok [of a p] ParsePrefix_text [of p] by simp
  qed
  then have "map (\<lambda>p. ParsePrefix (prefix_text p)) ps = map Some ps" by simp
  moreover have "list_ex is_v4 ps" if "list_all is_v4 ps" using that ps(2) by (cases ps) auto
  then have "tunnel_strategy ps =
      (if list_all is_v4 ps then ''ForceIPv4'' else if list_ex is_v4 ps then ''ForceIPv4v6'' else ''ForceIPv6'')"
    by (auto simp: tunnel_strategy_def Let_def list_all_iff list_ex_iff)
  ultimately show ?thesis using ps(1) by (auto simp: ps(3) arr_at_def str_at_def dict_simps)
qed

text \<open>A port that \<^verbatim>\<open>Atoi\<close> accepts as positive is the one that \<^verbatim>\<open>Sscanf\<close> reads.\<close>

lemma scan_int_parse:
  assumes "parse_int s = Some n" "1 \<le> n"
  shows "scan_int s = n"
proof -
  obtain c t where s: "s = c # t" using assms(1) by (cases s) (auto simp: parse_int_def)
  have tw: "list_all is_digit ds \<Longrightarrow> takeWhile is_digit ds = ds" for ds by (simp add: list_all_iff takeWhile_eq_all_conv)
  show ?thesis
  proof (cases "c = CHR ''-''")
    case True
    then show ?thesis using assms by (auto simp: s parse_int_def Let_def split: if_splits)
  next
    case False
    define ds where "ds = (if c = CHR ''+'' then t else s)"
    have ds: "ds \<noteq> []" "list_all is_digit ds" "n = int (digits_val ds)" "n < 2 ^ 63"
      using assms False by (auto simp: s ds_def parse_int_def Let_def split: if_splits)
    obtain d r where d: "ds = d # r" "is_digit d" using ds by (cases ds) auto
    then have nd: "d \<noteq> CHR ''-''" "d \<noteq> CHR ''+''" "\<not> byte d \<in> {32, 9, 11, 12}" by (auto simp: is_digit_def byte_def)
    then have p: "parse_int ds = Some n" using ds d by (simp add: parse_int_def Let_def)
    have "dropWhile (\<lambda>c. byte c \<in> {32, 9, 11, 12}) s = s"
      using nd d(1) by (auto simp: ds_def s byte_def split: if_splits)
    moreover have "takeWhile is_digit r = r" using ds(2) d by (intro tw) simp
    ultimately show ?thesis using p ds(3) nd d False
      by (auto simp: scan_int_def Let_def ds_def s \<open>takeWhile is_digit r = r\<close> split: if_splits)
  qed
qed

text \<open>A WireGuard entry that is accepted may be a member of a pool, and the server that a cut looks for in its outbound
  is the host and the port of its endpoint.\<close>

theorem wireguard_outbound_endpoint:
  assumes "wg_Outbound w = Ok ob"
  shows "CheckMemberOutbound (Some (JObj ob)) = None \<and>
    (\<exists>h port n. split_host_port (wg_Endpoint w) = Some (h, port) \<and> parse_int port = Some n \<and> 1 \<le> n \<and> n \<le> 65535 \<and>
       OutboundEndpoint (Some (JObj ob)) = Some (h, n))"
proof -
  obtain ps where e: "endpoint_error (wg_Endpoint w) = None"
    and st: "obj_or_nil ob ''settings'' = dict_of
       ([(''secretKey'', JStr (trim_space (wg_PrivateKey w))), (''address'', JArr (map (\<lambda>p. JStr (prefix_text p)) ps)),
         (''peers'', JArr [peer_json w]), (''mtu'', JNum (if wg_MTU w \<le> 0 then DefaultWireGuardMTU else wg_MTU w)),
         (''noKernelTun'', JBool True), (''domainStrategy'', JStr (tunnel_strategy ps))] @
        (if length (wg_Reserved w) = 3 then [(''reserved'', JArr (map JNum (wg_Reserved w)))] else []))"
    and pr: "map_of ob ''protocol'' = Some (JStr ''wireguard'')" and so: "map_of ob ''settings'' = Some (JObj (obj_or_nil ob ''settings''))"
    using wg_Outbound_Ok [OF assms] by blast
  obtain h port n where hp: "split_host_port (wg_Endpoint w) = Some (h, port)" "h \<noteq> []" "parse_int port = Some n" "1 \<le> n" "n \<le> 65535"
    using e by (auto simp: endpoint_error_def not_less split: option.splits if_splits)
  have "CheckMemberOutbound (Some (JObj ob)) = None"
    using pr by (simp add: CheckMemberOutbound_def decode_protocol_def struct_str_def struct_key_def tunnelProtocols_def to_lower_def
        lower_char_def byte_def)
  moreover have "OutboundEndpoint (Some (JObj ob)) = Some (h, n)"
  proof -
    let ?st = "obj_or_nil ob ''settings''"
    have "outbound_settings (Some (JObj ob)) = Some ?st" using so by (simp add: outbound_settings_def struct_key_def)
    moreover have "map_of ?st ''vnext'' = None" "map_of ?st ''servers'' = None" "map_of ?st ''peers'' = Some (JArr [peer_json w])"
      by (simp_all add: st dict_simps)
    moreover obtain m where "peer_json w = JObj m" "str_at m ''endpoint'' = wg_Endpoint w"
      by (simp add: peer_json_def str_at_def dict_simps)
    ultimately show ?thesis using hp scan_int_parse [OF hp(3,4)]
      by (simp add: OutboundEndpoint_def first_obj_def arr_at_def Let_def)
  qed
  ultimately show ?thesis using hp by blast
qed

section \<open>The endpoint of a WARP device\<close>

lemma v6_groups_values: "v6_groups tail fs = map_option length (v6_values tail fs)"
proof -
  have v4: "length (v4_groups os) = 2" if "length os = 4" for os
  proof -
    have "\<exists>a b c d. os = [a, b, c, d]" using that by (auto simp: length_Suc_conv numeral_eq_Suc)
    then show ?thesis by auto
  qed
  have "map_option (\<lambda>os. length (v4_groups os)) (parse_v4 s) = (if is_ipv4 s then Some 2 else None)" for s
    using parse_v4_len [of s] v4 by (auto simp: parse_v4_def)
  moreover have "parse_v4 s = None \<longleftrightarrow> \<not> is_ipv4 s" for s by (simp add: parse_v4_def)
  ultimately show ?thesis
    by (induction tail fs rule: v6_groups.induct) (auto simp: option.map_comp comp_def)
qed

lemma parse_v6_is: "parse_v6 s \<noteq> None \<Longrightarrow> CHR ''%'' \<notin> set s \<Longrightarrow> is_ipv6 s"
  by (auto simp: parse_v6_def is_ipv6_def v6_groups_values cut_char_None [symmetric] split: option.splits prod.splits if_splits)

lemma ParseIP_chars:
  assumes "ParseIP s = Some ip"
  shows "s \<noteq> [] \<and> CHR ''['' \<notin> set s \<and> CHR '']'' \<notin> set s"
proof -
  consider "is_ipv4 s" | "CHR ''%'' \<notin> set s" "parse_v6 s \<noteq> None"
    using assms by (auto simp: ParseIP_def ParseAddr_def parse_v4_def Let_def cut_char_None split: option.splits prod.splits if_splits)
  then show ?thesis
  proof cases
    case 1
    then show ?thesis using is_ipv4_chars [of s] v6_char_facts by (fastforce simp: is_ipv4_def dec_octet_def)
  next
    case 2
    then have "is_ipv6 s" by (intro parse_v6_is)
    moreover from this have "s \<noteq> []" using is_ipv6_colon by fastforce
    ultimately show ?thesis using 2 is_ipv6_chars [of s] v6_char_facts by blast
  qed
qed

lemma last_colon_append: "CHR '':'' \<notin> set b \<Longrightarrow> last_colon (a @ CHR '':'' # b) = Some (a, b)"
  using cut_last_append [of "CHR '':''" b a] by (simp add: last_colon_def cut_last_def)

lemma split_join:
  assumes "CHR ''['' \<notin> set h" "CHR '']'' \<notin> set h" "CHR '':'' \<notin> set p" "CHR ''['' \<notin> set p" "CHR '']'' \<notin> set p"
  shows "split_host_port (JoinHostPort h p) = Some (h, p)"
proof (cases "CHR '':'' \<in> set h \<or> CHR ''%'' \<in> set h")
  case True
  have l: "last_colon (''['' @ h @ '']:'' @ p) = Some (''['' @ h @ '']'', p)"
    using last_colon_append [OF assms(3), of "''['' @ h @ '']''"] by simp
  have c: "cut '']'' (''['' @ h @ '']:'' @ p) = Some (''['' @ h, '':'' @ p)"
    using cut_char_append [of "CHR '']''" "''['' @ h" "'':'' @ p"] assms(2) by simp
  show ?thesis using True l c assms by (simp add: JoinHostPort_def split_host_port_def)
next
  case False
  have l: "last_colon (h @ '':'' @ p) = Some (h, p)" using last_colon_append [OF assms(3), of h] by simp
  have "take 1 (h @ '':'' @ p) \<noteq> ''[''" using assms(1) by (cases h) auto
  then show ?thesis using False l assms by (simp add: JoinHostPort_def split_host_port_def)
qed

lemma warp_endpoint_ok: "endpoint_error (warp_endpoint v4) = None"
proof (cases "ParseIP (case split_host_port v4 of Some (h, _) \<Rightarrow> h | None \<Rightarrow> v4)")
  case None
  have "endpoint_error DefaultEndpoint = None" by code_simp
  then show ?thesis using None by (simp add: warp_endpoint_def)
next
  case (Some ip)
  have "parse_int ''2408'' = Some 2408" by (simp add: parse_int_def is_digit_def digits_val_def byte_def)
  then show ?thesis using Some ParseIP_chars [OF Some]
    by (simp add: warp_endpoint_def endpoint_error_def split_join Let_def)
qed

text \<open>A registered device is a tunnel that passes the checks; whatever endpoint the reply names, the device has one that
  passes.\<close>

lemma Register_valid: "Register key reply apply license = Ok acc \<Longrightarrow> Validate (wa_WireGuard acc) = None"
  by (auto simp: Register_def Let_def split: option.splits sum.splits prod.splits if_splits)

text \<open>A device whose license is refused is registered, and nothing of it is kept.\<close>

lemma refused_license_loses_device:
  "Register (Some k) (Inr r) apply license = Ok acc \<Longrightarrow> trim_space l \<noteq> [] \<Longrightarrow> apply (trim_space l) = Inl e \<Longrightarrow>
   Register (Some k) (Inr r) apply l = Fail (LicenseRefused e)"
  by (auto simp: Register_def Let_def split: option.splits sum.splits prod.splits if_splits)

section \<open>Witnesses\<close>

lemma is_parse_v6:
  assumes "is_ipv6 s" "CHR ''%'' \<notin> set s"
  shows "parse_v6 s \<noteq> None"
proof -
  have "cut ''%'' s = None" using assms(2) by (simp add: cut_char_None)
  then show ?thesis using assms(1)
    by (cases "cut ''::'' s") (auto simp: parse_v6_def is_ipv6_def v6_groups_values split: option.splits)
qed

lemma ParseAddr_Some: "is_ipv4 s \<or> is_ipv6 s \<and> CHR ''%'' \<notin> set s \<Longrightarrow> ParseAddr s \<noteq> None"
  using is_parse_v6 [of s] cut_char_None [of "CHR ''%''" s] by (cases "parse_v4 s") (auto simp: ParseAddr_def parse_v4_def)

lemma wgPrefix_addr: "is_ipv4 (trim_space a) \<or> is_ipv6 (trim_space a) \<and> CHR ''%'' \<notin> set (trim_space a) \<Longrightarrow> wgPrefix a \<noteq> None"
  using ParseAddr_Some [of "trim_space a"] by (simp add: wgPrefix_def Let_def split: option.split)

definition demo_wg :: wireguard where
  "demo_wg = \<lparr>wg_PrivateKey = replicate 43 (CHR ''A'') @ ''='', wg_Addresses = ['' 10.0.0.2'', ''fd00::2''],
     wg_PeerPublicKey = replicate 43 (CHR ''A'') @ ''='', wg_PresharedKey = [], wg_Endpoint = ''192.0.2.7:53'',
     wg_Reserved = [1, 2, 3], wg_MTU = 0, wg_KeepAlive = 25\<rparr>"

lemma demo_wg_valid: "Validate demo_wg = None"
proof -
  have "checkWGKey what (replicate 43 (CHR ''A'') @ ''='') = None" for what by code_simp
  moreover have "is_ipv4 (trim_space '' 10.0.0.2'')" "is_ipv6 (trim_space ''fd00::2'')" "CHR ''%'' \<notin> set (trim_space ''fd00::2'')"
    by code_simp+
  then have "wgPrefix '' 10.0.0.2'' \<noteq> None" "wgPrefix ''fd00::2'' \<noteq> None" using wgPrefix_addr by blast+
  moreover have "endpoint_error ''192.0.2.7:53'' = None" by code_simp
  ultimately show ?thesis
    unfolding Validate_def first_some_None demo_wg_def by (simp add: reserved_error_def)
qed

lemma demo_wg_outbound: "\<exists>ob. wg_Outbound demo_wg = Ok ob"
  by (simp add: wg_Outbound_def demo_wg_valid Let_def)

lemma wireguard_outbound_families_witness:
  "\<exists>ob. wg_Outbound demo_wg = Ok ob \<and> (\<exists>ps. map wgPrefix (wg_Addresses demo_wg) = map Some ps \<and>
     arr_at (obj_or_nil ob ''settings'') ''address'' = map (\<lambda>p. JStr (prefix_text p)) ps)"
  using demo_wg_outbound wireguard_outbound_families [of demo_wg] by blast

lemma wireguard_outbound_endpoint_witness:
  "\<exists>ob h n. wg_Outbound demo_wg = Ok ob \<and> OutboundEndpoint (Some (JObj ob)) = Some (h, n)"
  using demo_wg_outbound wireguard_outbound_endpoint [of demo_wg] by blast

end
