(* ===== verification/Caddy.thy ===== *)
theory Caddy
  imports Inbounds Netip
begin

text \<open>
  The Caddyfile for the inbounds that sit behind Caddy on a Unix socket, and its installation
  (\<^verbatim>\<open>cmd/emx/caddy.go\<close>). Files are a map from paths to contents; what \<^verbatim>\<open>caddy\<close> and \<^verbatim>\<open>systemctl\<close> answer, and
  which writes succeed, are arguments.
\<close>

section \<open>What the daemon reports of an inbound\<close>

record caddy_inbound =
  ci_Name :: string
  ci_Enabled :: bool
  ci_Network :: string
  ci_Security :: string
  ci_Port :: nat
  ci_Listen :: string
  ci_PublicHost :: string
  ci_Path :: string

text \<open>A blank public host is reported as the public address of the box.\<close>

definition caddy_info :: "string \<Rightarrow> inbound \<Rightarrow> caddy_inbound" where
  "caddy_info publicIP i =
     \<lparr>ci_Name = in_Name i, ci_Enabled = in_Enabled i, ci_Network = in_Network i, ci_Security = in_Security i,
      ci_Port = in_Port i, ci_Listen = in_Listen i,
      ci_PublicHost = (if in_PublicHost i = [] then publicIP else in_PublicHost i), ci_Path = in_Path i\<rparr>"

definition isCaddyInboundInfo :: "caddy_inbound \<Rightarrow> bool" where
  "isCaddyInboundInfo c \<longleftrightarrow> ci_Network c = ''xhttp'' \<and> ci_Security c = ''none'' \<and> ci_Port c = 0 \<and> ci_Listen c \<noteq> []"

section \<open>Checks\<close>

datatype caddy_flaw = DomainEmpty | DomainIsAddress | DomainInvalid | PathNotRooted | PathUnsafe | SocketNotAbsolute | SocketUnsafe

datatype caddy_error = InboundFlaw string caddy_flaw | SameRoute string string

definition label_char :: "char \<Rightarrow> bool" where
  "label_char c \<longleftrightarrow> is_alnum c \<or> c = CHR ''-''"

definition caddy_label_ok :: "string \<Rightarrow> bool" where
  "caddy_label_ok l \<longleftrightarrow> l \<noteq> [] \<and> hd l \<noteq> CHR ''-'' \<and> last l \<noteq> CHR ''-'' \<and> list_all label_char l"

definition is_address :: "string \<Rightarrow> bool" where
  "is_address s \<longleftrightarrow> ParseIP s \<noteq> None"

definition validateCaddyDomain :: "string \<Rightarrow> caddy_flaw option" where
  "validateCaddyDomain d =
     (if d = [] then Some DomainEmpty
      else if is_address d then Some DomainIsAddress
      else if \<not> list_all caddy_label_ok (split_on (CHR ''.'') d) then Some DomainInvalid else None)"

definition caddy_unsafe :: "char \<Rightarrow> bool" where
  "caddy_unsafe c \<longleftrightarrow> byte c \<in> {32, 9, 13, 10} \<or> c = CHR ''{'' \<or> c = CHR ''}'' \<or> c = CHR ''#''"

definition validateCaddyPath :: "string \<Rightarrow> caddy_flaw option" where
  "validateCaddyPath p =
     (if \<not> prefix ''/'' p then Some PathNotRooted else if list_ex caddy_unsafe p then Some PathUnsafe else None)"

definition socketPath :: "string \<Rightarrow> string" where
  "socketPath listen = (case cut '','' listen of Some (a, _) \<Rightarrow> a | None \<Rightarrow> listen)"

definition validateCaddySocket :: "string \<Rightarrow> caddy_flaw option" where
  "validateCaddySocket listen =
     (let p = socketPath listen
      in if \<not> prefix ''/'' p then Some SocketNotAbsolute else if list_ex caddy_unsafe p then Some SocketUnsafe else None)"

definition caddy_flaw_of :: "caddy_inbound \<Rightarrow> caddy_flaw option" where
  "caddy_flaw_of c =
     (case validateCaddyDomain (ci_PublicHost c) of
        Some f \<Rightarrow> Some f
      | None \<Rightarrow> (case validateCaddyPath (ci_Path c) of Some f \<Rightarrow> Some f | None \<Rightarrow> validateCaddySocket (ci_Listen c)))"

text \<open>The inbounds to serve, with the routes that are taken so far; the key of a route is its domain and its path.\<close>

definition route_key :: "caddy_inbound \<Rightarrow> string \<times> string" where
  "route_key c = (ci_PublicHost c, ci_Path c)"

fun caddy_managed :: "((string \<times> string) \<times> string) list \<Rightarrow> caddy_inbound list \<Rightarrow> (caddy_error, caddy_inbound list) outcome" where
  "caddy_managed routes [] = Ok []"
| "caddy_managed routes (c # cs) =
     (if \<not> (ci_Enabled c \<and> isCaddyInboundInfo c) then caddy_managed routes cs
      else (case caddy_flaw_of c of
              Some f \<Rightarrow> Fail (InboundFlaw (ci_Name c) f)
            | None \<Rightarrow>
                (case map_of routes (route_key c) of
                   Some other \<Rightarrow>
                     if other \<noteq> [] then Fail (SameRoute other (ci_Name c))
                     else obind (caddy_managed ((route_key c, ci_Name c) # routes) cs) (\<lambda>ms. Ok (c # ms))
                 | None \<Rightarrow> obind (caddy_managed ((route_key c, ci_Name c) # routes) cs) (\<lambda>ms. Ok (c # ms)))))"

section \<open>The file\<close>

definition nl :: string where "nl = [CHR 0x0A]"
definition tab :: string where "tab = [CHR 0x09]"

definition cloudflareHTTPPorts :: "nat list" where
  "cloudflareHTTPPorts = [80, 8080, 8880, 2052, 2082, 2086, 2095]"

definition cloudflareHTTPSPorts :: "nat list" where
  "cloudflareHTTPSPorts = [443, 2053, 2083, 2087, 2096, 8443]"

definition caddySiteAddresses :: "string \<Rightarrow> string" where
  "caddySiteAddresses d = join '', ''
     (map (\<lambda>p. ''http://'' @ d @ '':'' @ nat_str p) cloudflareHTTPPorts @
      map (\<lambda>p. ''https://'' @ d @ '':'' @ nat_str p) cloudflareHTTPSPorts)"

definition caddy_header :: string where
  "caddy_header = ''# Generated by emx. Changes are replaced by `emx caddy apply`.''"

definition caddy_route :: "nat \<Rightarrow> caddy_inbound \<Rightarrow> string" where
  "caddy_route i c =
     tab @ ''@emx_'' @ nat_str (i + 1) @ '' path '' @ ci_Path c @ ''*'' @ nl @
     tab @ ''reverse_proxy @emx_'' @ nat_str (i + 1) @ '' unix/'' @ socketPath (ci_Listen c) @ nl"

definition caddy_block :: "string \<Rightarrow> caddy_inbound list \<Rightarrow> string" where
  "caddy_block d cs =
     caddySiteAddresses d @ '' {'' @ nl @ concat (map (\<lambda>(i, c). caddy_route i c) (enumerate 0 cs)) @ ''}'' @ nl @ nl"

definition by_path :: "caddy_inbound \<Rightarrow> caddy_inbound \<Rightarrow> bool" where
  "by_path a b \<longleftrightarrow> ci_Path a < ci_Path b"

definition by_route :: "caddy_inbound \<Rightarrow> caddy_inbound \<Rightarrow> bool" where
  "by_route a b \<longleftrightarrow> (if ci_PublicHost a \<noteq> ci_PublicHost b then ci_PublicHost a < ci_PublicHost b else ci_Path a < ci_Path b)"

definition caddy_domains :: "caddy_inbound list \<Rightarrow> string list" where
  "caddy_domains ms = sort (remdups (map ci_PublicHost ms))"

definition renderCaddyfile :: "caddy_inbound list \<Rightarrow> (caddy_error, string \<times> caddy_inbound list) outcome" where
  "renderCaddyfile all =
     obind (caddy_managed [] all) (\<lambda>ms.
       Ok (caddy_header @ nl @ nl @
             concat (map (\<lambda>d. caddy_block d (go_sort by_path (filter (\<lambda>c. ci_PublicHost c = d) ms))) (caddy_domains ms)),
           go_sort by_route ms))"

section \<open>Installing it\<close>

text \<open>How the machine behaves: which directory can be made, which files can be written and read, whether caddy accepts a
  config, and whether the service is active, starts and reloads.\<close>

record caddy_host =
  ch_mkdir :: bool
  ch_writable :: "string \<Rightarrow> bool"
  ch_readable :: bool
  ch_renames :: bool
  ch_valid :: "string \<Rightarrow> bool"
  ch_active :: bool
  ch_starts :: bool
  ch_reloads :: bool

type_synonym file_map = "(string, string) map"

datatype apply_error = NoDirectory | NoTemp | Rejected | NoBackup | NoRename | StartFailed | ReloadFailed

definition write_file :: "caddy_host \<Rightarrow> string \<Rightarrow> string \<Rightarrow> file_map \<Rightarrow> file_map" where
  "write_file h f x fs = (if ch_writable h f then fs(f \<mapsto> x) else fs)"

definition temp_of :: "string \<Rightarrow> string" where
  "temp_of path = path @ ''.emx-tmp''"

definition rollback :: "caddy_host \<Rightarrow> string \<Rightarrow> string option \<Rightarrow> file_map \<Rightarrow> file_map" where
  "rollback h path old fs = (case old of Some x \<Rightarrow> write_file h path x fs | None \<Rightarrow> fs)"

text \<open>What is left to do once the file is in place; the old text is there when it was backed up.\<close>

definition caddy_service :: "caddy_host \<Rightarrow> string \<Rightarrow> bool \<Rightarrow> string option \<Rightarrow> file_map \<Rightarrow> file_map \<times> apply_error option" where
  "caddy_service h path noReload old fs =
     (if noReload then (fs, None)
      else if \<not> ch_active h then (if ch_starts h then (fs, None) else (rollback h path old fs, Some StartFailed))
      else if ch_reloads h then (fs, None) else (rollback h path old fs, Some ReloadFailed))"

definition applyCaddyConfig :: "caddy_host \<Rightarrow> string \<Rightarrow> string \<Rightarrow> string \<Rightarrow> bool \<Rightarrow> file_map \<Rightarrow> file_map \<times> apply_error option" where
  "applyCaddyConfig h backup path cfg noReload fs =
     (let tmp = temp_of path; done = (\<lambda>(fs, e). (fs(tmp := None), e))
      in if \<not> ch_mkdir h then (fs, Some NoDirectory)
         else if \<not> ch_writable h tmp then (fs, Some NoTemp)
         else let fs1 = fs(tmp \<mapsto> cfg); old = (if ch_readable h then fs1 path else None)
              in done
                (if \<not> ch_valid h cfg then (fs1, Some Rejected)
                 else if old = Some cfg then caddy_service h path noReload None fs1
                 else if old \<noteq> None \<and> \<not> ch_writable h backup then (fs1, Some NoBackup)
                 else let fs2 = (case old of Some x \<Rightarrow> fs1(backup \<mapsto> x) | None \<Rightarrow> fs1)
                      in if \<not> ch_renames h then (fs2, Some NoRename)
                         else caddy_service h path noReload old (fs2(path \<mapsto> cfg, tmp := None))))"

end
