(* ===== verification/Caddy_Props.thy ===== *)
theory Caddy_Props
  imports Caddy "HOL-Library.Product_Lexorder"
begin

text \<open>
  A Caddyfile read back line by line gives exactly the routes of the managed inbounds, each once; and an installation that
  fails puts the file back that was there.
\<close>

section \<open>Reading a Caddyfile\<close>

definition site_domain :: "string \<Rightarrow> string" where
  "site_domain l = (case cut '':'' (drop 7 l) of Some (d, _) \<Rightarrow> d | None \<Rightarrow> [])"

text \<open>The state is the domain of the block and the matcher that was last defined, with its path.\<close>

fun read_caddy :: "string \<Rightarrow> (string \<times> string) option \<Rightarrow> string list \<Rightarrow> (string \<times> string \<times> string) list" where
  "read_caddy site pend [] = []"
| "read_caddy site pend (l # ls) =
     (let ws = split_on (CHR '' '') l
      in if length ws = 3 \<and> ws ! 1 = ''path'' then read_caddy site (Some (drop 1 (ws ! 0), butlast (ws ! 2))) ls
         else if length ws = 3 then
           (case pend of
              Some (m, p) \<Rightarrow> (if ws ! 1 = m then [(site, p, drop 5 (ws ! 2))] else []) @ read_caddy site pend ls
            | None \<Rightarrow> read_caddy site pend ls)
         else if last ws = ''{'' then read_caddy (site_domain l) None ls
         else read_caddy site pend ls)"

definition read_caddyfile :: "string \<Rightarrow> (string \<times> string \<times> string) list" where
  "read_caddyfile s = read_caddy [] None (split_on (CHR 0x0A) s)"

definition caddy_target :: "caddy_inbound \<Rightarrow> string \<times> string \<times> string" where
  "caddy_target c = (ci_PublicHost c, ci_Path c, socketPath (ci_Listen c))"

section \<open>What the checks leave\<close>

definition text_safe :: "string \<Rightarrow> bool" where
  "text_safe s \<longleftrightarrow> CHR '' '' \<notin> set s \<and> CHR 0x0A \<notin> set s"

lemma caddy_unsafe_free: "\<not> list_ex caddy_unsafe s \<Longrightarrow> text_safe s"
proof -
  have "caddy_unsafe (CHR '' '')" "caddy_unsafe (CHR 0x0A)" by (simp_all add: caddy_unsafe_def byte_def)
  then show "\<not> list_ex caddy_unsafe s \<Longrightarrow> text_safe s" unfolding text_safe_def list_ex_iff by blast
qed

lemma label_char_safe: "label_char c \<Longrightarrow> c \<noteq> CHR '' '' \<and> c \<noteq> CHR 0x0A \<and> c \<noteq> CHR '':''"
  by (auto simp: label_char_def is_alnum_def is_digit_def byte_def)

lemma domain_safe:
  assumes "validateCaddyDomain d = None"
  shows "text_safe d \<and> CHR '':'' \<notin> set d"
proof -
  have "label_char c \<or> c = CHR ''.''" if "c \<in> set d" for c
    using set_split_cover [OF that, of "CHR ''.''"] assms
    by (auto simp: validateCaddyDomain_def caddy_label_ok_def list_all_iff split: if_splits)
  then show ?thesis using label_char_safe by (fastforce simp: text_safe_def)
qed

definition route_safe :: "caddy_inbound \<Rightarrow> bool" where
  "route_safe c \<longleftrightarrow> text_safe (ci_PublicHost c) \<and> CHR '':'' \<notin> set (ci_PublicHost c) \<and> text_safe (ci_Path c) \<and>
     text_safe (socketPath (ci_Listen c))"

lemma flawless_safe: "caddy_flaw_of c = None \<Longrightarrow> route_safe c"
  using domain_safe [of "ci_PublicHost c"]
  by (auto simp: caddy_flaw_of_def route_safe_def validateCaddyPath_def validateCaddySocket_def Let_def
      intro: caddy_unsafe_free split: option.splits if_splits)

lemma caddy_managed_safe: "caddy_managed rs cs = Ok ms \<Longrightarrow> c \<in> set ms \<Longrightarrow> route_safe c \<and> c \<in> set cs"
proof (induction rs cs arbitrary: ms rule: caddy_managed.induct)
  case (2 rs c' cs)
  then show ?case by (fastforce split: if_splits option.splits dest: flawless_safe)
qed simp

text \<open>What is managed: the enabled inbounds that are set up for Caddy.\<close>

lemma caddy_managed_filter: "caddy_managed rs cs = Ok ms \<Longrightarrow> ms = filter (\<lambda>c. ci_Enabled c \<and> isCaddyInboundInfo c) cs"
proof (induction rs cs arbitrary: ms rule: caddy_managed.induct)
  case (2 rs c cs)
  then show ?case by (fastforce split: if_splits option.splits)
qed simp

text \<open>Routes are kept apart as long as inbounds have names.\<close>

lemma caddy_managed_distinct:
  "caddy_managed rs cs = Ok ms \<Longrightarrow> \<forall>c \<in> set cs. ci_Name c \<noteq> [] \<Longrightarrow> \<forall>r \<in> set rs. snd r \<noteq> [] \<Longrightarrow>
   distinct (map route_key ms) \<and> fst ` set rs \<inter> route_key ` set ms = {}"
proof (induction rs cs arbitrary: ms rule: caddy_managed.induct)
  case (2 rs c cs)
  show ?case
  proof (cases "ci_Enabled c \<and> isCaddyInboundInfo c")
    case False
    then show ?thesis using 2 by auto
  next
    case True
    then obtain ms' where fl: "caddy_flaw_of c = None" and new: "map_of rs (route_key c) = None"
      and ms': "caddy_managed ((route_key c, ci_Name c) # rs) cs = Ok ms'" "ms = c # ms'"
      using "2.prems" by (fastforce split: option.splits if_splits dest: map_of_SomeD)
    have "distinct (map route_key ms') \<and> fst ` set ((route_key c, ci_Name c) # rs) \<inter> route_key ` set ms' = {}"
      using "2.IH"(2) [OF _ fl new ms'(1)] True "2.prems" by auto
    then show ?thesis using new by (auto simp: ms' map_of_eq_None_iff)
  qed
qed simp

section \<open>Lines\<close>

lemma split_nl [simp]: "CHR 0x0A \<notin> set s \<Longrightarrow> split_on (CHR 0x0A) (s @ CHR 0x0A # t) = s # split_on (CHR 0x0A) t"
  by (rule split_on_append)

lemma digit_safe [simp]: "CHR '' '' \<notin> set (nat_str n)" "CHR 0x0A \<notin> set (nat_str n)"
  by (rule digits_no; simp add: is_digit_def byte_def)+

lemma read_route:
  assumes "route_safe c"
  shows "\<exists>pend'. read_caddy site pend (split_on (CHR 0x0A) (caddy_route i c @ rest)) =
    (site, ci_Path c, socketPath (ci_Listen c)) # read_caddy site pend' (split_on (CHR 0x0A) rest)"
proof -
  let ?m = "''@emx_'' @ nat_str (i + 1)"
  let ?l1 = "tab @ ?m @ '' path '' @ ci_Path c @ ''*''"
  let ?l2 = "tab @ ''reverse_proxy '' @ ?m @ '' unix/'' @ socketPath (ci_Listen c)"
  have safe: "text_safe (ci_Path c)" "text_safe (socketPath (ci_Listen c))" using assms by (simp_all add: route_safe_def)
  have "caddy_route i c @ rest = ?l1 @ CHR 0x0A # ?l2 @ CHR 0x0A # rest" by (simp add: caddy_route_def nl_def)
  moreover have n1: "CHR 0x0A \<notin> set ?l1" and n2: "CHR 0x0A \<notin> set ?l2" using safe by (auto simp: text_safe_def tab_def)
  ultimately have lines: "split_on (CHR 0x0A) (caddy_route i c @ rest) = ?l1 # ?l2 # split_on (CHR 0x0A) rest"
    by (simp only: split_nl [OF n1] split_nl [OF n2])
  have "?l1 = (tab @ ?m) @ CHR '' '' # ''path'' @ CHR '' '' # ci_Path c @ ''*''" by simp
  moreover have b1: "CHR '' '' \<notin> set (tab @ ?m)" and b2: "CHR '' '' \<notin> set ''path''" and b3: "CHR '' '' \<notin> set (ci_Path c @ ''*'')"
    using safe by (auto simp: text_safe_def tab_def)
  ultimately have w1: "split_on (CHR '' '') ?l1 = [tab @ ?m, ''path'', ci_Path c @ ''*'']"
    by (simp only: split_on_append [OF b1] split_on_append [OF b2] split_on_absent [OF b3])
  have "?l2 = (tab @ ''reverse_proxy'') @ CHR '' '' # ?m @ CHR '' '' # ''unix/'' @ socketPath (ci_Listen c)" by simp
  moreover have c1: "CHR '' '' \<notin> set (tab @ ''reverse_proxy'')" and c2: "CHR '' '' \<notin> set ?m"
    and c3: "CHR '' '' \<notin> set (''unix/'' @ socketPath (ci_Listen c))"
    using safe by (auto simp: text_safe_def tab_def)
  ultimately have w2: "split_on (CHR '' '') ?l2 = [tab @ ''reverse_proxy'', ?m, ''unix/'' @ socketPath (ci_Listen c)]"
    by (simp only: split_on_append [OF c1] split_on_append [OF c2] split_on_absent [OF c3])
  have d: "drop 1 (tab @ ?m) = ?m" "?m \<noteq> ''path''" by (simp_all add: tab_def)
  have "read_caddy site pend (?l1 # ?l2 # split_on (CHR 0x0A) rest) =
      (site, ci_Path c, socketPath (ci_Listen c)) # read_caddy site (Some (?m, ci_Path c)) (split_on (CHR 0x0A) rest)"
    unfolding read_caddy.simps Let_def w1 w2 using d by simp
  then show ?thesis using lines by metis
qed

lemma read_routes:
  assumes "\<forall>c \<in> set cs. route_safe c"
  shows "\<exists>pend'. read_caddy site pend (split_on (CHR 0x0A) (concat (map (\<lambda>(i, c). caddy_route i c) (enumerate n cs)) @ rest)) =
    map (\<lambda>c. (site, ci_Path c, socketPath (ci_Listen c))) cs @ read_caddy site pend' (split_on (CHR 0x0A) rest)"
  using assms
proof (induction cs arbitrary: n pend)
  case (Cons c cs)
  let ?r = "concat (map (\<lambda>(i, c). caddy_route i c) (enumerate (Suc n) cs)) @ rest"
  obtain p1 where 1: "read_caddy site pend (split_on (CHR 0x0A) (caddy_route n c @ ?r)) =
      (site, ci_Path c, socketPath (ci_Listen c)) # read_caddy site p1 (split_on (CHR 0x0A) ?r)"
    using read_route [of c site pend n ?r] Cons.prems by auto
  obtain p2 where "read_caddy site p1 (split_on (CHR 0x0A) ?r) =
      map (\<lambda>c. (site, ci_Path c, socketPath (ci_Listen c))) cs @ read_caddy site p2 (split_on (CHR 0x0A) rest)"
    using Cons.IH [of p1 "Suc n"] Cons.prems by auto
  then show ?case using 1 by auto
qed auto

lemma split_two: "split_on c (s @ c # t) = split_on c s @ split_on c t"
  by (induction s) (auto split: list.splits)

lemma length_split: "length (split_on c s) = Suc (length (filter (\<lambda>x. x = c) s))"
  by (induction s) (auto split: list.splits)

lemma site_line:
  assumes "text_safe d" "CHR '':'' \<notin> set d"
  shows "CHR 0x0A \<notin> set (caddySiteAddresses d @ '' {'') \<and> site_domain (caddySiteAddresses d @ '' {'') = d \<and>
    length (split_on (CHR '' '') (caddySiteAddresses d @ '' {'')) \<noteq> 3 \<and> last (split_on (CHR '' '') (caddySiteAddresses d @ '' {'')) = ''{''"
proof (intro conjI)
  show "CHR 0x0A \<notin> set (caddySiteAddresses d @ '' {'')"
    using assms by (simp add: caddySiteAddresses_def cloudflareHTTPPorts_def cloudflareHTTPSPorts_def text_safe_def)
  have "filter (\<lambda>x. x = CHR '' '') d = []" using assms by (auto simp: text_safe_def filter_empty_conv)
  moreover have "filter (\<lambda>x. x = CHR '' '') (nat_str n) = []" for n using digit_safe(1) [of n] by (auto simp: filter_empty_conv)
  ultimately show "length (split_on (CHR '' '') (caddySiteAddresses d @ '' {'')) \<noteq> 3"
    unfolding length_split by (simp add: caddySiteAddresses_def cloudflareHTTPPorts_def cloudflareHTTPSPorts_def)
  have "\<exists>r. caddySiteAddresses d @ '' {'' = ''http://'' @ d @ CHR '':'' # r"
    by (simp add: caddySiteAddresses_def cloudflareHTTPPorts_def)
  then obtain r where r: "caddySiteAddresses d @ '' {'' = ''http://'' @ d @ CHR '':'' # r" by blast
  have "drop 7 (caddySiteAddresses d @ '' {'') = d @ CHR '':'' # r" unfolding r by simp
  then show "site_domain (caddySiteAddresses d @ '' {'') = d"
    unfolding site_domain_def using cut_char_append [OF assms(2)] by simp
  have "caddySiteAddresses d @ '' {'' = caddySiteAddresses d @ CHR '' '' # ''{''" by simp
  then show "last (split_on (CHR '' '') (caddySiteAddresses d @ '' {'')) = ''{''"
    by (simp only: split_two) simp
qed

lemma read_block:
  assumes "text_safe d" "CHR '':'' \<notin> set d" "\<forall>c \<in> set cs. route_safe c"
  shows "\<exists>site' pend'. read_caddy site pend (split_on (CHR 0x0A) (caddy_block d cs @ rest)) =
    map (\<lambda>c. (d, ci_Path c, socketPath (ci_Listen c))) cs @ read_caddy site' pend' (split_on (CHR 0x0A) rest)"
proof -
  let ?l = "caddySiteAddresses d @ '' {''" and ?r = "concat (map (\<lambda>(i, c). caddy_route i c) (enumerate 0 cs))"
  let ?after = "''}'' @ CHR 0x0A # [] @ CHR 0x0A # rest"
  note s = site_line [OF assms(1,2)]
  have "caddy_block d cs @ rest = ?l @ CHR 0x0A # ?r @ ?after" by (simp add: caddy_block_def nl_def)
  moreover have n: "CHR 0x0A \<notin> set ?l" using s by blast
  ultimately have "split_on (CHR 0x0A) (caddy_block d cs @ rest) = ?l # split_on (CHR 0x0A) (?r @ ?after)"
    by (simp only: split_nl [OF n])
  moreover have "read_caddy site pend (?l # ls) = read_caddy d None ls" for ls
    unfolding read_caddy.simps Let_def using s by simp
  moreover obtain p where "read_caddy d None (split_on (CHR 0x0A) (?r @ ?after)) =
      map (\<lambda>c. (d, ci_Path c, socketPath (ci_Listen c))) cs @ read_caddy d p (split_on (CHR 0x0A) ?after)"
    using read_routes [OF assms(3)] by blast
  moreover have "read_caddy d p (split_on (CHR 0x0A) ?after) = read_caddy d p (split_on (CHR 0x0A) rest)" by simp
  ultimately show ?thesis by auto
qed

lemma read_blocks:
  assumes "\<forall>d \<in> set ds. text_safe d \<and> CHR '':'' \<notin> set d \<and> (\<forall>c \<in> set (f d). route_safe c)"
  shows "read_caddy site pend (split_on (CHR 0x0A) (concat (map (\<lambda>d. caddy_block d (f d)) ds))) =
    concat (map (\<lambda>d. map (\<lambda>c. (d, ci_Path c, socketPath (ci_Listen c))) (f d)) ds)"
  using assms
proof (induction ds arbitrary: site pend)
  case (Cons d ds)
  let ?r = "concat (map (\<lambda>d. caddy_block d (f d)) ds)"
  obtain s1 p1 where "read_caddy site pend (split_on (CHR 0x0A) (caddy_block d (f d) @ ?r)) =
      map (\<lambda>c. (d, ci_Path c, socketPath (ci_Listen c))) (f d) @ read_caddy s1 p1 (split_on (CHR 0x0A) ?r)"
    using read_block [of d "f d" site pend ?r] Cons.prems by auto
  then show ?case using Cons by simp
qed simp

section \<open>The routes of the file\<close>

lemma route_key_order: "by_route = (\<lambda>a b. route_key a < route_key b)"
  by (auto simp: fun_eq_iff by_route_def route_key_def)

lemma by_path_sort: "go_sort by_path = sort_key ci_Path"
proof -
  have e: "by_path = (\<lambda>a b. ci_Path a < ci_Path b)" by (simp add: fun_eq_iff by_path_def)
  show ?thesis by (rule ext) (simp only: e go_sort_key)
qed

lemma by_route_sort: "go_sort by_route = sort_key route_key"
  using go_sort_key [of route_key] by (simp add: route_key_order fun_eq_iff)

definition by_domain :: "caddy_inbound list \<Rightarrow> caddy_inbound list" where
  "by_domain ms = concat (map (\<lambda>d. sort_key ci_Path (filter (\<lambda>c. ci_PublicHost c = d) ms)) (caddy_domains ms))"

lemma mset_by_domain: "mset (by_domain ms) = mset ms"
proof -
  have "mset (concat (map (\<lambda>d. sort_key ci_Path (filter (\<lambda>c. ci_PublicHost c = d) ms)) ds)) =
      mset (filter (\<lambda>c. ci_PublicHost c \<in> set ds) ms)" if "distinct ds" for ds
    using that
  proof (induction ds)
    case (Cons d ds)
    have "mset (filter (\<lambda>c. ci_PublicHost c \<in> set (d # ds)) ms) =
        mset (filter (\<lambda>c. ci_PublicHost c = d) ms) + mset (filter (\<lambda>c. ci_PublicHost c \<in> set ds) ms)"
      using Cons.prems by (induction ms) auto
    then show ?case using Cons by simp
  qed simp
  moreover have "filter (\<lambda>c. ci_PublicHost c \<in> set (caddy_domains ms)) ms = ms" by (simp add: caddy_domains_def)
  moreover have "distinct (caddy_domains ms)" by (simp add: caddy_domains_def)
  ultimately show ?thesis unfolding by_domain_def by metis
qed

lemma sorted_in_domain:
  "sorted (map ci_Path cs) \<Longrightarrow> \<forall>c \<in> set cs. ci_PublicHost c = d \<Longrightarrow> sorted (map route_key cs)"
  by (induction cs) (auto simp: route_key_def less_eq_prod_def)

lemma sorted_concat:
  assumes "sorted ds" "\<forall>d \<in> set ds. sorted (map k (f d)) \<and> (\<forall>c \<in> set (f d). fst (k c) = d)" "distinct ds"
  shows "sorted (map (k :: 'x \<Rightarrow> string \<times> string) (concat (map f ds)))"
  using assms
proof (induction ds)
  case (Cons d ds)
  have "k a \<le> k b" if "a \<in> set (f d)" "b \<in> set (concat (map f ds))" for a b
  proof -
    from that(2) obtain e where e: "e \<in> set ds" "b \<in> set (f e)" by auto
    then have "fst (k a) = d" "fst (k b) = e" "d < e" using Cons.prems \<open>a \<in> set (f d)\<close> by (auto simp: order.strict_iff_order)
    then show ?thesis by (simp add: less_eq_prod_def)
  qed
  then show ?case using Cons by (auto simp: sorted_append)
qed simp

lemma by_domain_sorted:
  assumes "distinct (map route_key ms)"
  shows "by_domain ms = sort_key route_key ms"
proof -
  have "sorted (map route_key (by_domain ms))"
    unfolding by_domain_def
  proof (rule sorted_concat)
    show "\<forall>d \<in> set (caddy_domains ms). sorted (map route_key (sort_key ci_Path (filter (\<lambda>c. ci_PublicHost c = d) ms))) \<and>
        (\<forall>c \<in> set (sort_key ci_Path (filter (\<lambda>c. ci_PublicHost c = d) ms)). fst (route_key c) = d)"
    proof (intro ballI conjI)
      fix d
      show "sorted (map route_key (sort_key ci_Path (filter (\<lambda>c. ci_PublicHost c = d) ms)))"
        by (rule sorted_in_domain [where d = d]) simp_all
    qed (simp add: route_key_def)
  qed (simp_all add: caddy_domains_def)
  moreover have m: "mset (by_domain ms) = mset (sort_key route_key ms)" by (simp add: mset_by_domain)
  ultimately have "map route_key (by_domain ms) = map route_key (sort_key route_key ms)"
    by (metis mset_map sorted_sort_id sorted_sort_key properties_for_sort)
  moreover have "inj_on route_key (set (by_domain ms) \<union> set (sort_key route_key ms))"
    using assms m mset_by_domain [of ms] by (metis distinct_map set_mset_mset Un_absorb set_sort)
  ultimately show ?thesis by (rule map_inj_on)
qed

text \<open>C36. Read back line by line, the Caddyfile holds the routes of the enabled inbounds that are set up for Caddy and no
  others, each once, provided that no inbound has an empty name (the store has none): no name, domain, path or socket
  can add a line or change one.\<close>

theorem caddyfile_routes:
  assumes "renderCaddyfile all = Ok (file, managed)" "list_all (\<lambda>c. ci_Name c \<noteq> []) all"
  shows "read_caddyfile file = map caddy_target managed \<and> distinct (map route_key managed) \<and>
    mset managed = mset (filter (\<lambda>c. ci_Enabled c \<and> isCaddyInboundInfo c) all)"
proof -
  obtain ms where ms: "caddy_managed [] all = Ok ms" and man: "managed = go_sort by_route ms"
    and written: "file = caddy_header @ nl @ nl @
      concat (map (\<lambda>d. caddy_block d (go_sort by_path (filter (\<lambda>c. ci_PublicHost c = d) ms))) (caddy_domains ms))"
    using assms(1) by (auto simp: renderCaddyfile_def)
  have d: "distinct (map route_key ms)" using caddy_managed_distinct [OF ms] assms(2) by (simp add: list_all_iff)
  have safe: "\<forall>c \<in> set ms. route_safe c" using caddy_managed_safe [OF ms] by blast
  let ?f = "\<lambda>d. go_sort by_path (filter (\<lambda>c. ci_PublicHost c = d) ms)"
  let ?body = "concat (map (\<lambda>d. caddy_block d (?f d)) (caddy_domains ms))"
  have "file = caddy_header @ CHR 0x0A # [] @ CHR 0x0A # ?body" by (simp add: written nl_def)
  moreover have h: "CHR 0x0A \<notin> set caddy_header" "length (split_on (CHR '' '') caddy_header) = 11"
    "last (split_on (CHR '' '') caddy_header) \<noteq> ''{''" by (simp_all add: caddy_header_def)
  ultimately have "split_on (CHR 0x0A) file = caddy_header # [] # split_on (CHR 0x0A) ?body" by simp
  then have "read_caddyfile file = read_caddy [] None (split_on (CHR 0x0A) ?body)" using h by (simp add: read_caddyfile_def Let_def)
  also have "\<dots> = concat (map (\<lambda>d. map (\<lambda>c. (d, ci_Path c, socketPath (ci_Listen c))) (?f d)) (caddy_domains ms))"
    by (rule read_blocks) (use safe in \<open>auto simp: caddy_domains_def route_safe_def\<close>)
  also have "\<dots> = concat (map (\<lambda>d. map caddy_target (?f d)) (caddy_domains ms))"
    by (intro arg_cong [where f = concat] map_cong refl) (simp add: caddy_target_def)
  also have "\<dots> = map caddy_target (by_domain ms)" by (simp add: by_domain_def by_path_sort map_concat comp_def)
  finally have "read_caddyfile file = map caddy_target managed" by (simp add: man by_route_sort by_domain_sorted [OF d])
  moreover have "distinct (map route_key managed)" using d by (simp add: man distinct_map)
  moreover have "mset managed = mset (filter (\<lambda>c. ci_Enabled c \<and> isCaddyInboundInfo c) all)"
    using caddy_managed_filter [OF ms] by (simp add: man)
  ultimately show ?thesis by simp
qed

text \<open>A blank public host is reported as the address of the box, which is no domain: one such inbound keeps every other
  from being served.\<close>

lemma address_blocks_all:
  assumes "in_PublicHost i = []" "is_address ip" "ip \<noteq> []" "in_Enabled i" "isCaddyInboundInfo (caddy_info ip i)"
  shows "renderCaddyfile (caddy_info ip i # rest) = Fail (InboundFlaw (in_Name i) DomainIsAddress)"
  using assms by (simp add: renderCaddyfile_def caddy_flaw_of_def validateCaddyDomain_def) (simp add: caddy_info_def)

section \<open>Installing\<close>

lemma temp_apart [simp]: "temp_of path \<noteq> path" "path \<noteq> temp_of path"
  by (simp_all add: temp_of_def)

lemma caddy_service_path:
  assumes "ch_writable h path" "fs path = Some cfg"
  shows "fst (caddy_service h path noReload old fs) path =
    (case snd (caddy_service h path noReload old fs) of None \<Rightarrow> Some cfg | Some _ \<Rightarrow> (case old of Some x \<Rightarrow> Some x | None \<Rightarrow> Some cfg))"
  using assms by (auto simp: caddy_service_def rollback_def write_file_def split: option.splits)

text \<open>Applying a Caddyfile over one that can be read and written installs the new one, or fails and leaves the old one in
  place, whatever step fails.\<close>

theorem apply_all_or_nothing:
  assumes "fs path = Some old" "ch_readable h" "ch_writable h path" "backup \<noteq> path"
  shows "fst (applyCaddyConfig h backup path cfg noReload fs) path =
    (if snd (applyCaddyConfig h backup path cfg noReload fs) = None then Some cfg else Some old)"
proof -
  let ?tmp = "temp_of path"
  let ?fs2 = "(fs(?tmp \<mapsto> cfg, backup \<mapsto> old))(path \<mapsto> cfg, ?tmp := None)"
  note svc = caddy_service_path [OF assms(3), of _ cfg noReload]
  show ?thesis
  proof (cases "old = cfg")
    case True
    then show ?thesis
      using assms svc [of "fs(?tmp \<mapsto> cfg)" None]
      by (auto simp: applyCaddyConfig_def Let_def split: prod.splits option.splits)
  next
    case False
    then show ?thesis
      using assms svc [of ?fs2 "Some old"]
      by (auto simp: applyCaddyConfig_def Let_def split: prod.splits option.splits)
  qed
qed

text \<open>The first Caddyfile has nothing to go back to: it stays although the service does not take it.\<close>

lemma first_apply_stays:
  assumes "fs path = None" "ch_mkdir h" "ch_writable h (temp_of path)" "ch_valid h cfg" "ch_renames h" "ch_active h" "\<not> ch_reloads h"
  shows "fst (applyCaddyConfig h backup path cfg False fs) path = Some cfg \<and>
    snd (applyCaddyConfig h backup path cfg False fs) = Some ReloadFailed"
  using assms by (simp add: applyCaddyConfig_def Let_def caddy_service_def rollback_def)

section \<open>Witnesses\<close>

definition demo_caddy :: "string \<Rightarrow> string \<Rightarrow> caddy_inbound" where
  "demo_caddy name path = \<lparr>ci_Name = name, ci_Enabled = True, ci_Network = ''xhttp'', ci_Security = ''none'', ci_Port = 0,
     ci_Listen = ''/dev/shm/x.sock,0666'', ci_PublicHost = ''a.example'', ci_Path = path\<rparr>"

lemma demo_caddy_ok: "caddy_flaw_of (demo_caddy n ''/p/'') = None" "caddy_flaw_of (demo_caddy n ''/q/'') = None"
  by code_simp+

lemma caddyfile_routes_witness:
  "\<exists>file managed. renderCaddyfile [demo_caddy ''y'' ''/q/'', demo_caddy ''x'' ''/p/''] = Ok (file, managed) \<and>
     read_caddyfile file = map caddy_target managed"
proof -
  have "\<exists>file managed. renderCaddyfile [demo_caddy ''y'' ''/q/'', demo_caddy ''x'' ''/p/''] = Ok (file, managed)"
    by (simp add: renderCaddyfile_def demo_caddy_ok) (simp add: demo_caddy_def isCaddyInboundInfo_def route_key_def)
  moreover have "list_all (\<lambda>c. ci_Name c \<noteq> []) [demo_caddy ''y'' ''/q/'', demo_caddy ''x'' ''/p/'']" by (simp add: demo_caddy_def)
  ultimately show ?thesis using caddyfile_routes by blast
qed

definition demo_caddy_host :: caddy_host where
  "demo_caddy_host = \<lparr>ch_mkdir = True, ch_writable = (\<lambda>_. True), ch_readable = True, ch_renames = True, ch_valid = (\<lambda>_. True),
     ch_active = True, ch_starts = True, ch_reloads = False\<rparr>"

lemma apply_all_or_nothing_witness:
  "fst (applyCaddyConfig demo_caddy_host ''b'' ''f'' ''new'' False [''f'' \<mapsto> ''old'']) ''f'' = Some ''old''"
  using apply_all_or_nothing [of "[''f'' \<mapsto> ''old'']" "''f''" "''old''" demo_caddy_host "''b''" "''new''" False]
  by (simp add: demo_caddy_host_def applyCaddyConfig_def Let_def caddy_service_def)

end
