(* ===== verification/Paths.thy ===== *)
theory Paths
  imports Go_Strings
begin

text \<open>
  Where the program keeps its files (\<^verbatim>\<open>internal/paths/paths.go\<close>, \<^verbatim>\<open>legacy.go\<close>), with the lexical part of
  \<^verbatim>\<open>path/filepath\<close> they use. The environment, the user id and the platform are arguments.
\<close>

section \<open>File names\<close>

text \<open>The components of a cleaned path, the last one first in the accumulator.\<close>

fun clean_parts :: "bool \<Rightarrow> string list \<Rightarrow> string list \<Rightarrow> string list" where
  "clean_parts rooted st [] = rev st"
| "clean_parts rooted st (c # cs) =
     (if c = [] \<or> c = ''.'' then clean_parts rooted st cs
      else if c = ''..'' then
        (case st of
           [] \<Rightarrow> clean_parts rooted (if rooted then [] else [''..'']) cs
         | t # ts \<Rightarrow> clean_parts rooted (if t = ''..'' then ''..'' # st else ts) cs)
      else clean_parts rooted (c # st) cs)"

definition path_clean :: "string \<Rightarrow> string" where
  "path_clean p =
     (if p = [] then ''.''
      else let rooted = prefix ''/'' p; parts = clean_parts rooted [] (split_on (CHR ''/'') p)
           in if rooted then ''/'' @ join ''/'' parts else if parts = [] then ''.'' else join ''/'' parts)"

definition path_join :: "string list \<Rightarrow> string" where
  "path_join es =
     (case dropWhile (\<lambda>e. e = []) es of [] \<Rightarrow> [] | fs \<Rightarrow> path_clean (join ''/'' fs))"

section \<open>The locations\<close>

definition app :: string where "app = ''emx''"

record locations =
  p_Data :: string
  p_Config :: string
  p_State :: string
  p_Cache :: string
  p_Runtime :: string

definition baseDirFor :: "nat \<Rightarrow> string \<Rightarrow> string \<Rightarrow> string \<Rightarrow> string" where
  "baseDirFor uid xdg home fallback =
     (if uid \<noteq> 0 \<and> xdg \<noteq> [] then path_join [xdg, app] else path_join [home, fallback, app])"

definition rootStableTemp :: "bool \<Rightarrow> nat \<Rightarrow> string \<Rightarrow> string" where
  "rootStableTemp linux uid temp = (if uid = 0 \<and> linux then ''/tmp'' else temp)"

definition runtimeDirFor :: "nat \<Rightarrow> string \<Rightarrow> string \<Rightarrow> string" where
  "runtimeDirFor uid xdg temp =
     (if uid \<noteq> 0 \<and> xdg \<noteq> [] then path_join [xdg, app] else path_join [temp, app @ ''-'' @ nat_str uid])"

text \<open>What the process sees: its platform, its user, the home directory (none when it is not known), the temporary
  directory and the variables.\<close>

record surroundings =
  s_linux :: bool
  s_uid :: nat
  s_home :: "string option"
  s_temp :: string
  s_env :: "string \<Rightarrow> string"

definition baseDir :: "surroundings \<Rightarrow> string \<Rightarrow> string \<Rightarrow> string" where
  "baseDir s env fallback =
     (let home = (case s_home s of Some h \<Rightarrow> h | None \<Rightarrow> ''/tmp'')
      in baseDirFor (s_uid s) (s_env s env) (if s_uid s = 0 \<and> s_linux s then ''/root'' else home) fallback)"

definition runtimeDir :: "surroundings \<Rightarrow> string" where
  "runtimeDir s = runtimeDirFor (s_uid s) (s_env s ''XDG_RUNTIME_DIR'') (rootStableTemp (s_linux s) (s_uid s) (s_temp s))"

definition Default :: "surroundings \<Rightarrow> locations" where
  "Default s =
     \<lparr>p_Data = baseDir s ''XDG_DATA_HOME'' ''.local/share'', p_Config = baseDir s ''XDG_CONFIG_HOME'' ''.config'',
      p_State = baseDir s ''XDG_STATE_HOME'' ''.local/state'', p_Cache = baseDir s ''XDG_CACHE_HOME'' ''.cache'',
      p_Runtime = runtimeDir s\<rparr>"

definition Socket :: "locations \<Rightarrow> string" where "Socket p = path_join [p_Runtime p, ''emx.sock'']"
definition PIDFile :: "locations \<Rightarrow> string" where "PIDFile p = path_join [p_Runtime p, ''emx.pid'']"
definition DB :: "locations \<Rightarrow> string" where "DB p = path_join [p_Data p, ''emx.db'']"
definition XrayConfig :: "locations \<Rightarrow> string" where "XrayConfig p = path_join [p_Runtime p, ''config.json'']"
definition XrayBin :: "locations \<Rightarrow> string" where "XrayBin p = path_join [p_Cache p, ''xray'']"
definition AccessLog :: "locations \<Rightarrow> string" where "AccessLog p = path_join [p_State p, ''xray-access.log'']"
definition ErrorLog :: "locations \<Rightarrow> string" where "ErrorLog p = path_join [p_State p, ''xray-error.log'']"

section \<open>Earlier locations\<close>

fun dedupe_from :: "string list \<Rightarrow> string list \<Rightarrow> string list" where
  "dedupe_from seen [] = []"
| "dedupe_from seen (c # cs) =
     (if c = [] \<or> c \<in> set seen then dedupe_from seen cs else c # dedupe_from (c # seen) cs)"

definition dedupeExcept :: "string list \<Rightarrow> string \<Rightarrow> string list" where
  "dedupeExcept candidates current = dedupe_from [current] candidates"

definition legacyDataDirs :: "nat \<Rightarrow> string \<Rightarrow> string \<Rightarrow> string \<Rightarrow> string \<Rightarrow> string list" where
  "legacyDataDirs uid xdg home sudo current =
     dedupeExcept
       ((if xdg \<noteq> [] then [path_join [xdg, app]] else []) @
        map (\<lambda>h. path_join [h, ''.local/share'', app]) (filter (\<lambda>h. h \<noteq> []) [home, sudo]) @
        (if uid = 0 then [path_join [''/root/.local/share'', app]] else [])) current"

definition legacyRuntimeDirs :: "nat \<Rightarrow> string \<Rightarrow> string \<Rightarrow> string \<Rightarrow> string list" where
  "legacyRuntimeDirs uid xdg temp current =
     dedupeExcept
       ((if xdg \<noteq> [] then [path_join [xdg, app]] else []) @
        (if uid = 0 then [path_join [''/run/user/0'', app]] else []) @
        [path_join [temp, app @ ''-'' @ nat_str uid]]) current"

text \<open>The home of the human behind \<^verbatim>\<open>sudo\<close>, as the user database has it.\<close>

definition sudoHome :: "(string \<Rightarrow> string option) \<Rightarrow> string \<Rightarrow> string" where
  "sudoHome lookup name =
     (if name = [] \<or> name = ''root'' then [] else (case lookup name of Some h \<Rightarrow> h | None \<Rightarrow> []))"

definition LegacyDataDirs :: "(string \<Rightarrow> string option) \<Rightarrow> surroundings \<Rightarrow> string list" where
  "LegacyDataDirs lookup s =
     legacyDataDirs (s_uid s) (s_env s ''XDG_DATA_HOME'') (case s_home s of Some h \<Rightarrow> h | None \<Rightarrow> [])
       (sudoHome lookup (s_env s ''SUDO_USER'')) (p_Data (Default s))"

definition LegacyRuntimeDirs :: "surroundings \<Rightarrow> string list" where
  "LegacyRuntimeDirs s =
     legacyRuntimeDirs (s_uid s) (s_env s ''XDG_RUNTIME_DIR'') (rootStableTemp (s_linux s) (s_uid s) (s_temp s)) (p_Runtime (Default s))"

definition RootRuntime :: "bool \<Rightarrow> string \<Rightarrow> string" where
  "RootRuntime linux temp = runtimeDirFor 0 [] (rootStableTemp linux 0 temp)"

section \<open>Facts\<close>

text \<open>Every root process on Linux finds the same files, whatever environment it was started in; a non-root one
  looks for them where root has them.\<close>

lemma root_locations:
  assumes "s_linux s" "s_uid s = 0" "s_linux t" "s_uid t = 0"
  shows "Default s = Default t"
  using assms by (simp add: Default_def baseDir_def baseDirFor_def runtimeDir_def runtimeDirFor_def rootStableTemp_def)

lemma root_runtime: "s_linux s \<Longrightarrow> s_uid s = 0 \<Longrightarrow> p_Runtime (Default s) = RootRuntime True temp"
  by (simp add: Default_def runtimeDir_def runtimeDirFor_def rootStableTemp_def RootRuntime_def)

lemma dedupe_from_ok: "distinct (dedupe_from seen cs) \<and> set (dedupe_from seen cs) = set cs - set seen - {[]}"
  by (induction seen cs rule: dedupe_from.induct) auto

lemma legacy_dirs_other:
  "p_Data (Default s) \<notin> set (LegacyDataDirs lookup s)" "p_Runtime (Default s) \<notin> set (LegacyRuntimeDirs s)"
  "distinct (LegacyDataDirs lookup s)" "distinct (LegacyRuntimeDirs s)"
  by (simp_all add: LegacyDataDirs_def LegacyRuntimeDirs_def legacyDataDirs_def legacyRuntimeDirs_def dedupeExcept_def
      dedupe_from_ok)

text \<open>A file of a directory.\<close>

definition clean_dir :: "string \<Rightarrow> bool" where
  "clean_dir d \<longleftrightarrow> (\<exists>parts. d = ''/'' @ join ''/'' parts \<and> parts \<noteq> [] \<and>
     (\<forall>c \<in> set parts. c \<noteq> [] \<and> c \<noteq> ''.'' \<and> c \<noteq> ''..'' \<and> CHR ''/'' \<notin> set c))"

lemma clean_parts_plain:
  "(\<forall>c \<in> set cs. c \<noteq> [] \<and> c \<noteq> ''.'' \<and> c \<noteq> ''..'') \<Longrightarrow> clean_parts r st cs = rev st @ cs"
  by (induction r st cs rule: clean_parts.induct) auto

lemma join_snoc: "ps \<noteq> [] \<Longrightarrow> join sep (ps @ [x]) = join sep ps @ sep @ x"
  by (induction sep ps rule: join.induct) auto

lemma path_join_file:
  assumes "clean_dir d" "f \<noteq> []" "f \<noteq> ''.''" "f \<noteq> ''..''" "CHR ''/'' \<notin> set f"
  shows "path_join [d, f] = d @ ''/'' @ f"
proof -
  obtain parts where d: "d = ''/'' @ join ''/'' parts" "parts \<noteq> []"
    and p: "\<forall>c \<in> set parts. c \<noteq> [] \<and> c \<noteq> ''.'' \<and> c \<noteq> ''..'' \<and> CHR ''/'' \<notin> set c"
    using assms(1) by (auto simp: clean_dir_def)
  have e: "d @ ''/'' @ f = CHR ''/'' # join ''/'' (parts @ [f])" using d by (simp add: join_snoc)
  have "split_on (CHR ''/'') (join ''/'' (parts @ [f])) = parts @ [f]"
    using split_on_join [of "parts @ [f]" "CHR ''/''"] p assms by auto
  then have "path_clean (CHR ''/'' # join ''/'' (parts @ [f])) = CHR ''/'' # join ''/'' (parts @ [f])"
    using p assms(2-4) by (simp add: path_clean_def Let_def clean_parts_plain)
  then have "path_clean (d @ ''/'' @ f) = d @ ''/'' @ f" by (simp only: e)
  then show ?thesis using d(1) by (simp add: path_join_def)
qed

text \<open>A joined path ends in its last component.\<close>

lemma split_on_snoc: "CHR ''/'' \<notin> set f \<Longrightarrow> split_on (CHR ''/'') (d @ CHR ''/'' # f) = split_on (CHR ''/'') d @ [f]"
  by (induction d) (auto simp: split_on_absent split: list.splits)

lemma clean_parts_snoc:
  "f \<noteq> [] \<Longrightarrow> f \<noteq> ''.'' \<Longrightarrow> f \<noteq> ''..'' \<Longrightarrow> clean_parts r st (cs @ [f]) = clean_parts r st cs @ [f]"
  by (induction r st cs rule: clean_parts.induct) (auto split: list.splits)

lemma path_join_last:
  assumes "f \<noteq> []" "f \<noteq> ''.''" "f \<noteq> ''..''" "CHR ''/'' \<notin> set f"
  shows "\<exists>x. path_join [d, f] = x @ f"
proof (cases "d = []")
  case True
  then show ?thesis using assms clean_parts_snoc [OF assms(1-3), of _ "[]" "[]"]
    by (auto simp: path_join_def path_clean_def Let_def split_on_absent)
next
  case False
  have j: "\<exists>x. join ''/'' (ps @ [f]) = x @ f" for ps
    by (cases "ps = []") (auto simp: join_snoc)
  have "path_join [d, f] = path_clean (d @ CHR ''/'' # f)" using False by (simp add: path_join_def)
  also have "\<dots> = (if prefix ''/'' (d @ CHR ''/'' # f) then ''/'' else []) @
      join ''/'' (clean_parts (prefix ''/'' (d @ CHR ''/'' # f)) [] (split_on (CHR ''/'') d) @ [f])"
    using assms by (simp add: path_clean_def Let_def split_on_snoc clean_parts_snoc)
  finally show ?thesis using j [of "clean_parts (prefix ''/'' (d @ CHR ''/'' # f)) [] (split_on (CHR ''/'') d)"] by auto
qed

end
