(* ===== verification/Orphans.thy ===== *)
theory Orphans
  imports Inbounds Json_Parse Paths
begin

text \<open>
  Processes and sockets that a daemon which was killed leaves behind: finding and ending its xray processes
  (\<^verbatim>\<open>daemon/reap.go\<close>), the pid file (\<^verbatim>\<open>pidfile.go\<close>) and clearing the Unix sockets of the config before xray binds
  them (\<^verbatim>\<open>unixsock.go\<close>). The machine is a record of processes, sockets and files; \<^verbatim>\<open>/proc\<close> is there, as on Linux.
\<close>

section \<open>The machine\<close>

text \<open>A process has its command line as \<^verbatim>\<open>/proc\<close> shows it; it takes our signals or not, ends in time when it is asked to
  or not, and accepts on the sockets it listens on or not.\<close>

record process =
  pr_cmdline :: string
  pr_ours :: bool
  pr_yields :: bool
  pr_accepts :: bool

text \<open>A socket file has the processes that listen on it. A file is there with its text; some paths cannot be removed,
  written or read; some sockets cannot be dialed although a process listens (no rights, a full queue).\<close>

record machine =
  mc_self :: int
  mc_procs :: "(int \<times> process) list"
  mc_names :: "string list"
  mc_socks :: "(string, int list) map"
  mc_files :: "(string, string) map"
  mc_stuck :: "string \<Rightarrow> bool"
  mc_nowrite :: "string \<Rightarrow> bool"
  mc_noread :: "string \<Rightarrow> bool"
  mc_nodial :: "string \<Rightarrow> bool"

section \<open>Processes\<close>

definition processPIDs :: "machine \<Rightarrow> int list" where
  "processPIDs m = List.map_filter parse_int (map (\<lambda>(pid, _). itoa pid) (mc_procs m) @ mc_names m)"

definition cmdline_of :: "machine \<Rightarrow> int \<Rightarrow> string option" where
  "cmdline_of m pid = map_option pr_cmdline (map_of (mc_procs m) pid)"

definition nul :: char where "nul = CHR 0x00"

definition commandLine :: "machine \<Rightarrow> int \<Rightarrow> string option" where
  "commandLine m pid =
     (case cmdline_of m pid of
        None \<Rightarrow> None
      | Some b \<Rightarrow> let argv0 = (case cut [nul] b of Some (a, _) \<Rightarrow> a | None \<Rightarrow> b) in if argv0 = [] then None else Some argv0)"

definition isEmxXray :: "machine \<Rightarrow> int \<Rightarrow> string \<Rightarrow> bool" where
  "isEmxXray m pid bin = (case commandLine m pid of Some argv0 \<Rightarrow> argv0 = bin | None \<Rightarrow> False)"

definition hasArg :: "machine \<Rightarrow> int \<Rightarrow> string \<Rightarrow> bool" where
  "hasArg m pid arg = (case cmdline_of m pid of Some b \<Rightarrow> arg \<in> set (split_on nul b) | None \<Rightarrow> False)"

definition alive :: "machine \<Rightarrow> int \<Rightarrow> bool" where
  "alive m pid \<longleftrightarrow> 0 < pid \<and> map_of (mc_procs m) pid \<noteq> None"

definition StrayXray :: "locations \<Rightarrow> int list \<Rightarrow> machine \<Rightarrow> int list" where
  "StrayXray p keep m =
     filter (\<lambda>pid. pid \<notin> set (mc_self m # filter (\<lambda>k. 0 < k) keep) \<and> isEmxXray m pid (XrayBin p)) (processPIDs m)"

text \<open>A signal ends those of the processes that take it and act on it.\<close>

definition kill_where :: "(process \<Rightarrow> bool) \<Rightarrow> int list \<Rightarrow> machine \<Rightarrow> machine" where
  "kill_where acts pids m =
     m\<lparr>mc_procs := filter (\<lambda>(pid, q). \<not> (pid \<in> set pids \<and> pr_ours q \<and> acts q)) (mc_procs m)\<rparr>"

definition terminate :: "int list \<Rightarrow> machine \<Rightarrow> int list \<times> machine" where
  "terminate strays m =
     (if strays = [] then ([], m)
      else let m1 = kill_where pr_yields strays m
           in if \<not> list_ex (alive m1) strays then (strays, m1)
              else (strays, kill_where (\<lambda>_. True) (filter (alive m1) strays) m1))"

definition ReapStrayXray :: "locations \<Rightarrow> int list \<Rightarrow> machine \<Rightarrow> int list \<times> machine" where
  "ReapStrayXray p keep m = terminate (StrayXray p keep m) m"

definition ReapMainXray :: "locations \<Rightarrow> machine \<Rightarrow> int list \<times> machine" where
  "ReapMainXray p m = terminate (filter (\<lambda>pid. hasArg m pid (XrayConfig p)) (StrayXray p [] m)) m"

section \<open>The pid file\<close>

definition readPID :: "string \<Rightarrow> machine \<Rightarrow> int option" where
  "readPID path m =
     (case mc_files m path of
        Some b \<Rightarrow> if mc_noread m path then None else parse_int (trim_space b)
      | None \<Rightarrow> None)"

definition RunningPID :: "locations \<Rightarrow> machine \<Rightarrow> int \<times> bool" where
  "RunningPID p m = (case readPID (PIDFile p) m of Some pid \<Rightarrow> (pid, alive m pid) | None \<Rightarrow> (0, False))"

definition writePID :: "string \<Rightarrow> int \<Rightarrow> machine \<Rightarrow> machine option" where
  "writePID path pid m =
     (let tmp = path @ ''.tmp''
      in if mc_nowrite m tmp \<or> mc_nowrite m path then None
         else Some (m\<lparr>mc_files := (mc_files m)(tmp := None, path \<mapsto> itoa pid)\<rparr>))"

section \<open>Unix sockets\<close>

definition isSocket :: "machine \<Rightarrow> string \<Rightarrow> bool" where
  "isSocket m path \<longleftrightarrow> mc_socks m path \<noteq> None"

definition accepts :: "(int \<times> process) list \<Rightarrow> int list \<Rightarrow> bool" where
  "accepts ps pids \<longleftrightarrow> list_ex (\<lambda>pid. case map_of ps pid of Some q \<Rightarrow> pr_accepts q | None \<Rightarrow> False) pids"

definition removeIfStaleSocket :: "string \<Rightarrow> machine \<Rightarrow> bool \<times> machine" where
  "removeIfStaleSocket path m =
     (case mc_socks m path of
        None \<Rightarrow> (False, m)
      | Some pids \<Rightarrow>
          if \<not> mc_nodial m path \<and> accepts (mc_procs m) pids then (False, m)
          else if mc_stuck m path then (False, m) else (True, m\<lparr>mc_socks := (mc_socks m)(path := None)\<rparr>))"

text \<open>The listeners that the text of a config names.\<close>

fun listen_of :: "json \<Rightarrow> string option" where
  "listen_of (JObj ob) = struct_str ob ''listen''"
| "listen_of JNull = Some []"
| "listen_of _ = None"

definition config_listens :: "raw_json \<Rightarrow> string list option" where
  "config_listens r =
     (case r of
        Some (JObj ob) \<Rightarrow>
          (case struct_key ob ''inbounds'' of
             None \<Rightarrow> Some []
           | Some JNull \<Rightarrow> Some []
           | Some (JArr vs) \<Rightarrow> if list_all (\<lambda>v. listen_of v \<noteq> None) vs then Some (List.map_filter listen_of vs) else None
           | Some _ \<Rightarrow> None)
      | Some JNull \<Rightarrow> Some []
      | _ \<Rightarrow> None)"

definition socket_paths :: "string list \<Rightarrow> string list" where
  "socket_paths listens = map UnixSocketPath (filter (\<lambda>l. prefix ''/'' l) listens)"

text \<open>The first pass removes what nobody accepts on, and returns the sockets that are left.\<close>

fun first_pass :: "string list \<Rightarrow> machine \<Rightarrow> string list \<times> machine" where
  "first_pass [] m = ([], m)"
| "first_pass (path # ps) m =
     (case removeIfStaleSocket path m of
        (True, m') \<Rightarrow> first_pass ps m'
      | (False, m') \<Rightarrow> apfst (\<lambda>held. if isSocket m' path then path # held else held) (first_pass ps m'))"

fun second_pass :: "string list \<Rightarrow> machine \<Rightarrow> machine" where
  "second_pass [] m = m"
| "second_pass (path # ps) m = second_pass ps (snd (removeIfStaleSocket path m))"

definition clear_paths :: "(machine \<Rightarrow> int list \<times> machine) option \<Rightarrow> string list \<Rightarrow> machine \<Rightarrow> machine" where
  "clear_paths reap paths m =
     (case first_pass paths m of (held, m1) \<Rightarrow>
        if held = [] then m1
        else second_pass held (case reap of Some f \<Rightarrow> snd (f m1) | None \<Rightarrow> m1))"

definition clearStaleSockets :: "string \<Rightarrow> (machine \<Rightarrow> int list \<times> machine) option \<Rightarrow> machine \<Rightarrow> machine" where
  "clearStaleSockets configPath reap m =
     (case (if mc_noread m configPath then None else mc_files m configPath) of
        None \<Rightarrow> m
      | Some raw \<Rightarrow>
          (case config_listens (parse_json raw) of
             None \<Rightarrow> m
           | Some listens \<Rightarrow> clear_paths reap (socket_paths listens) m))"

text \<open>What the supervisor does before each start of its child.\<close>

definition clear_before_start :: "locations \<Rightarrow> machine \<Rightarrow> machine" where
  "clear_before_start p = clearStaleSockets (XrayConfig p) (Some (ReapMainXray p))"

section \<open>Facts\<close>

text \<open>Process ids are numbers of their own, and nothing else in \<^verbatim>\<open>/proc\<close> reads as one.\<close>

definition machine_ok :: "machine \<Rightarrow> bool" where
  "machine_ok m \<longleftrightarrow> distinct (map fst (mc_procs m)) \<and> list_all (\<lambda>(pid, _). 0 < pid \<and> pid < 2 ^ 63) (mc_procs m) \<and>
     list_all (\<lambda>s. parse_int s = None) (mc_names m)"

lemma map_filter_append [simp]: "List.map_filter f (xs @ ys) = List.map_filter f xs @ List.map_filter f ys"
  by (simp add: List.map_filter_def)

lemma processPIDs_ok: "machine_ok m \<Longrightarrow> processPIDs m = map fst (mc_procs m)"
proof -
  assume "machine_ok m"
  then have ps: "\<forall>(pid, q) \<in> set (mc_procs m). parse_int (itoa pid) = Some pid"
    and ns: "\<forall>s \<in> set (mc_names m). parse_int s = None"
    by (auto simp: machine_ok_def list_all_iff intro!: parse_int_itoa)
  have "List.map_filter parse_int (map (\<lambda>(pid, _). itoa pid) qs) = map fst qs"
    if "\<forall>(pid, q) \<in> set qs. parse_int (itoa pid) = Some pid" for qs :: "(int \<times> process) list"
    using that by (induction qs) (auto simp: List.map_filter_simps)
  moreover have "List.map_filter parse_int xs = []" if "\<forall>s \<in> set xs. parse_int s = None" for xs
    using that by (induction xs) (auto simp: List.map_filter_simps)
  ultimately show ?thesis using ps ns by (simp add: processPIDs_def)
qed

text \<open>Whatever the processes do on a first signal, those that were to end have ended if they take our signals.\<close>

lemma terminate_procs:
  assumes "machine_ok m" "list_all (\<lambda>pid. 0 < pid) strays"
  shows "snd (terminate strays m) = m\<lparr>mc_procs := filter (\<lambda>(pid, q). \<not> (pid \<in> set strays \<and> pr_ours q)) (mc_procs m)\<rparr>"
proof (cases "strays = []")
  case True
  then show ?thesis by (simp add: terminate_def)
next
  case False
  let ?m1 = "kill_where pr_yields strays m"
  have d: "distinct (map fst (mc_procs m))" using assms(1) by (simp add: machine_ok_def)
  have gone: "alive ?m1 pid \<longleftrightarrow> 0 < pid \<and> (\<exists>q. (pid, q) \<in> set (mc_procs m) \<and> \<not> (pid \<in> set strays \<and> pr_ours q \<and> pr_yields q))"
    for pid by (force simp: alive_def kill_where_def map_of_eq_None_iff)
  show ?thesis
  proof (cases "list_ex (alive ?m1) strays")
    case True
    have "alive ?m1 pid" if "(pid, q) \<in> set (mc_procs ?m1)" "pid \<in> set strays" for pid q
      using that assms(2) by (force simp: alive_def list_all_iff map_of_eq_None_iff)
    then have "filter (\<lambda>(pid, q). \<not> (pid \<in> set (filter (alive ?m1) strays) \<and> pr_ours q)) (mc_procs ?m1) =
        filter (\<lambda>(pid, q). \<not> (pid \<in> set strays \<and> pr_ours q)) (mc_procs ?m1)"
      by (auto intro!: filter_cong)
    also have "\<dots> = filter (\<lambda>(pid, q). \<not> (pid \<in> set strays \<and> pr_ours q)) (mc_procs m)"
      by (auto simp: kill_where_def intro!: filter_cong)
    finally have "kill_where (\<lambda>_. True) (filter (alive ?m1) strays) ?m1 =
        ?m1\<lparr>mc_procs := filter (\<lambda>(pid, q). \<not> (pid \<in> set strays \<and> pr_ours q)) (mc_procs m)\<rparr>"
      by (simp add: kill_where_def)
    then show ?thesis using True False by (simp add: terminate_def Let_def) (simp add: kill_where_def)
  next
    case dead: False
    have "pr_yields q" if "(pid, q) \<in> set (mc_procs m)" "pid \<in> set strays" "pr_ours q" for pid q
      using that dead assms(2) by (auto simp: gone list_ex_iff list_all_iff)
    then have "filter (\<lambda>(pid, q). \<not> (pid \<in> set strays \<and> pr_ours q \<and> pr_yields q)) (mc_procs m) =
        filter (\<lambda>(pid, q). \<not> (pid \<in> set strays \<and> pr_ours q)) (mc_procs m)"
      by (auto intro!: filter_cong)
    then show ?thesis using dead False by (simp add: terminate_def Let_def kill_where_def)
  qed
qed

text \<open>An xray of this program that serves the config of this daemon, and is not the daemon itself.\<close>

definition argv :: "process \<Rightarrow> string list" where
  "argv q = split_on nul (pr_cmdline q)"

definition leftover :: "locations \<Rightarrow> int \<Rightarrow> int \<times> process \<Rightarrow> bool" where
  "leftover p self x \<longleftrightarrow> fst x \<noteq> self \<and> XrayBin p \<noteq> [] \<and> hd (argv (snd x)) = XrayBin p \<and> XrayConfig p \<in> set (argv (snd x))"

definition survivors :: "locations \<Rightarrow> machine \<Rightarrow> (int \<times> process) list" where
  "survivors p m = filter (\<lambda>x. \<not> (leftover p (mc_self m) x \<and> pr_ours (snd x))) (mc_procs m)"

lemma hd_split: "hd (split_on c s) = (case cut [c] s of Some (a, _) \<Rightarrow> a | None \<Rightarrow> s)"
proof (cases "cut [c] s")
  case None
  then have "c \<notin> set s" using cut_char_None by blast
  then show ?thesis using None by (simp add: split_on_absent)
next
  case (Some ab)
  then show ?thesis by (cases ab) (auto simp: cut_char_Some split_on_append)
qed

lemma isEmxXray_argv:
  "map_of (mc_procs m) pid = Some q \<Longrightarrow> isEmxXray m pid bin \<longleftrightarrow> bin \<noteq> [] \<and> hd (argv q) = bin"
  by (auto simp: isEmxXray_def commandLine_def cmdline_of_def argv_def hd_split Let_def)

lemma hasArg_argv: "map_of (mc_procs m) pid = Some q \<Longrightarrow> hasArg m pid arg \<longleftrightarrow> arg \<in> set (argv q)"
  by (simp add: hasArg_def cmdline_of_def argv_def)

lemma StrayXray_pos: "machine_ok m \<Longrightarrow> list_all (\<lambda>pid. 0 < pid) (StrayXray p keep m)"
  by (auto simp: StrayXray_def processPIDs_ok machine_ok_def list_all_iff)

lemma StrayXray_iff:
  "machine_ok m \<Longrightarrow> (pid, q) \<in> set (mc_procs m) \<Longrightarrow> pid \<in> set (StrayXray p keep m) \<longleftrightarrow>
   pid \<noteq> mc_self m \<and> pid \<notin> set keep \<and> XrayBin p \<noteq> [] \<and> hd (argv q) = XrayBin p"
proof -
  assume a: "machine_ok m" "(pid, q) \<in> set (mc_procs m)"
  then have "map_of (mc_procs m) pid = Some q" by (simp add: machine_ok_def)
  moreover have "0 < pid" using a by (auto simp: machine_ok_def list_all_iff)
  ultimately show ?thesis using a by (force simp: StrayXray_def processPIDs_ok isEmxXray_argv)
qed

lemma ReapMainXray_machine: "machine_ok m \<Longrightarrow> snd (ReapMainXray p m) = m\<lparr>mc_procs := survivors p m\<rparr>"
proof -
  assume a: "machine_ok m"
  have "pid \<in> set (filter (\<lambda>pid. hasArg m pid (XrayConfig p)) (StrayXray p [] m)) \<longleftrightarrow> leftover p (mc_self m) (pid, q)"
    if "(pid, q) \<in> set (mc_procs m)" for pid q
    using that a hasArg_argv [of m pid q] by (auto simp: StrayXray_iff leftover_def machine_ok_def)
  then have "filter (\<lambda>(pid, q). \<not> (pid \<in> set (filter (\<lambda>pid. hasArg m pid (XrayConfig p)) (StrayXray p [] m)) \<and> pr_ours q))
      (mc_procs m) = survivors p m"
    by (auto simp: survivors_def intro!: filter_cong)
  moreover have "list_all (\<lambda>pid. 0 < pid) (filter (\<lambda>pid. hasArg m pid (XrayConfig p)) (StrayXray p [] m))"
    using StrayXray_pos [OF a, of p "[]"] by (auto simp: list_all_iff)
  ultimately show ?thesis by (simp only: ReapMainXray_def terminate_procs [OF a])
qed

definition stale :: "machine \<Rightarrow> string \<Rightarrow> bool" where
  "stale m s \<longleftrightarrow> \<not> mc_stuck m s \<and> (\<exists>pids. mc_socks m s = Some pids \<and> (mc_nodial m s \<or> \<not> accepts (mc_procs m) pids))"

lemma removeIfStaleSocket_is:
  "removeIfStaleSocket path m = (stale m path, if stale m path then m\<lparr>mc_socks := (mc_socks m)(path := None)\<rparr> else m)"
  by (auto simp: removeIfStaleSocket_def stale_def split: option.splits)

lemma stale_removed [simp]: "stale (m\<lparr>mc_socks := (mc_socks m)(p := None)\<rparr>) s \<longleftrightarrow> s \<noteq> p \<and> stale m s"
  by (auto simp: stale_def)

lemma first_pass_is:
  "snd (first_pass ps m) = m\<lparr>mc_socks := (\<lambda>s. if s \<in> set ps \<and> stale m s then None else mc_socks m s)\<rparr> \<and>
   set (fst (first_pass ps m)) = {s \<in> set ps. isSocket m s \<and> \<not> stale m s}"
proof (induction ps arbitrary: m)
  case (Cons p ps)
  show ?case
  proof (cases "stale m p")
    case True
    then show ?thesis using Cons.IH [of "m\<lparr>mc_socks := (mc_socks m)(p := None)\<rparr>"]
      by (auto simp: removeIfStaleSocket_is isSocket_def fun_eq_iff)
  next
    case False
    then show ?thesis using Cons.IH [of m] by (auto simp: removeIfStaleSocket_is isSocket_def fun_eq_iff)
  qed
qed simp

lemma second_pass_is:
  "second_pass ps m = m\<lparr>mc_socks := (\<lambda>s. if s \<in> set ps \<and> stale m s then None else mc_socks m s)\<rparr>"
  by (induction ps arbitrary: m) (auto simp: removeIfStaleSocket_is fun_eq_iff intro!: machine.equality)

lemma accepts_filter:
  "distinct (map fst ps) \<Longrightarrow> accepts (filter P ps) pids \<Longrightarrow> accepts ps pids"
proof -
  assume d: "distinct (map fst ps)" and a: "accepts (filter P ps) pids"
  have "map_of (filter P ps) k = Some q \<Longrightarrow> map_of ps k = Some q" for k q
    using d by (auto dest!: map_of_SomeD)
  then show ?thesis using a by (fastforce simp: accepts_def list_ex_iff split: option.splits)
qed

section \<open>Before a start\<close>


section \<open>A machine\<close>

definition demo_locations :: locations where
  "demo_locations = \<lparr>p_Data = ''/d'', p_Config = ''/f'', p_State = ''/s'', p_Cache = ''/c'', p_Runtime = ''/r''\<rparr>"

definition demo_orphan :: process where
  "demo_orphan = \<lparr>pr_cmdline = join [nul] [''/c/xray'', ''run'', ''-c'', ''/r/config.json'', []],
     pr_ours = True, pr_yields = False, pr_accepts = True\<rparr>"

definition demo_machine :: machine where
  "demo_machine =
     \<lparr>mc_self = 5, mc_procs = [(5, demo_orphan\<lparr>pr_cmdline := ''emx''\<rparr>), (7, demo_orphan)], mc_names = [''self''],
      mc_socks = [''/r/a'' \<mapsto> [7], ''/r/b'' \<mapsto> [7]],
      mc_files = [''/r/config.json'' \<mapsto> ''{\"inbounds\":[{\"listen\":\"/r/a,0666\"}]}''],
      mc_stuck = (\<lambda>_. False), mc_nowrite = (\<lambda>_. False), mc_noread = (\<lambda>_. False), mc_nodial = (\<lambda>_. False)\<rparr>"


end
