(* ===== verification/Start_Up.thy ===== *)
theory Start_Up
  imports Orphans Netip
begin

text \<open>
  How a daemon comes up: adopting the database of an earlier layout (\<^verbatim>\<open>daemon/migrate.go\<close>), the choice of loopback
  ports and the start itself (\<^verbatim>\<open>daemon.go\<close>), and the helpers it starts: log rotation (\<^verbatim>\<open>logrotate.go\<close>), the public
  address (\<^verbatim>\<open>publicip.go\<close>) and the maker of certificates (\<^verbatim>\<open>tlscert.go\<close>). A write that fails leaves the file as it was.
\<close>

section \<open>Adopting a database\<close>

definition fileExists :: "machine \<Rightarrow> string \<Rightarrow> bool" where
  "fileExists m path = (case mc_files m path of Some x \<Rightarrow> x \<noteq> [] | None \<Rightarrow> False)"

definition dbSidecars :: "string list" where "dbSidecars = [[], ''-wal'', ''-shm'']"

definition path_dir :: "string \<Rightarrow> string" where
  "path_dir p = path_clean (rev (dropWhile (\<lambda>c. c \<noteq> CHR ''/'') (rev p)))"

text \<open>A file is never copied over another; a source that is not there is left out.\<close>

definition copyDBFile :: "string \<Rightarrow> string \<Rightarrow> machine \<Rightarrow> bool \<times> machine" where
  "copyDBFile src dst m =
     (case mc_files m src of
        None \<Rightarrow> (True, m)
      | Some x \<Rightarrow>
          if mc_noread m src \<or> mc_files m dst \<noteq> None \<or> mc_nowrite m dst then (False, m)
          else (True, m\<lparr>mc_files := (mc_files m)(dst \<mapsto> x)\<rparr>))"

fun copy_each :: "string \<Rightarrow> string \<Rightarrow> string list \<Rightarrow> machine \<Rightarrow> bool \<times> machine" where
  "copy_each src dst [] m = (True, m)"
| "copy_each src dst (s # ss) m =
     (case copyDBFile (src @ s) (dst @ s) m of
        (True, m') \<Rightarrow> copy_each src dst ss m'
      | (False, m') \<Rightarrow> (False, m'))"

definition copyDB :: "string \<Rightarrow> string \<Rightarrow> machine \<Rightarrow> bool \<times> machine" where
  "copyDB src dst m = (if mc_nowrite m (path_dir dst) then (False, m) else copy_each src dst dbSidecars m)"

definition db_in :: "string \<Rightarrow> string" where "db_in dir = path_join [dir, ''emx.db'']"

definition adoptLegacyDB :: "string \<Rightarrow> string list \<Rightarrow> machine \<Rightarrow> bool \<times> machine" where
  "adoptLegacyDB db candidates m =
     (if fileExists m db then (True, m)
      else (case List.find (\<lambda>dir. fileExists m (db_in dir)) candidates of
              None \<Rightarrow> (True, m)
            | Some dir \<Rightarrow> copyDB (db_in dir) db m))"

definition LegacyDaemon :: "string list \<Rightarrow> locations \<Rightarrow> machine \<Rightarrow> (string \<times> int) option" where
  "LegacyDaemon runtimes p m =
     map_option (\<lambda>dir. (dir, fst (RunningPID (p\<lparr>p_Runtime := dir\<rparr>) m)))
       (List.find (\<lambda>dir. snd (RunningPID (p\<lparr>p_Runtime := dir\<rparr>) m)) runtimes)"

section \<open>The start\<close>

definition pickLoopbackPort :: "(int \<Rightarrow> bool) \<Rightarrow> int \<Rightarrow> int list \<Rightarrow> int" where
  "pickLoopbackPort free def avoid =
     (case List.find (\<lambda>port. port \<notin> set avoid \<and> free port) (map (\<lambda>k. def + int k) [0..<64]) of Some port \<Rightarrow> port | None \<Rightarrow> def)"

datatype start_error =
    DirsFailed
  | DaemonRunning int
  | LegacyRunning string int
  | SocketTooLong nat
  | PidFailed
  | ListenFailed
  | AdoptFailed
  | OpenFailed

text \<open>What the machine answers besides: whether the directories can be made, the socket bound and the database opened.\<close>

record answers =
  an_dirs :: bool
  an_listen :: bool
  an_open :: bool

text \<open>The checks before the daemon writes anything, and what it does once they have passed; on the way out it removes its
  socket and its pid file.\<close>

definition start_checks :: "answers \<Rightarrow> string list \<Rightarrow> locations \<Rightarrow> machine \<Rightarrow> start_error option" where
  "start_checks an runtimes p m =
     (if \<not> an_dirs an then Some DirsFailed
      else (case RunningPID p m of
              (pid, True) \<Rightarrow> Some (DaemonRunning pid)
            | (_, False) \<Rightarrow>
                (case LegacyDaemon runtimes p m of
                   Some (dir, pid) \<Rightarrow> Some (LegacyRunning dir pid)
                 | None \<Rightarrow> if length (Socket p) > 100 then Some (SocketTooLong (length (Socket p))) else None)))"

definition remove_path :: "string \<Rightarrow> machine \<Rightarrow> machine" where
  "remove_path path m =
     (if mc_stuck m path then m else m\<lparr>mc_files := (mc_files m)(path := None), mc_socks := (mc_socks m)(path := None)\<rparr>)"

definition start_acts :: "answers \<Rightarrow> string list \<Rightarrow> locations \<Rightarrow> machine \<Rightarrow> start_error option \<times> machine" where
  "start_acts an datas p m =
     (case writePID (PIDFile p) (mc_self m) m of
        None \<Rightarrow> (Some PidFailed, m)
      | Some m1 \<Rightarrow>
          let m2 = remove_path (Socket p) m1; undo = (\<lambda>x. remove_path (PIDFile p) x); undo2 = (\<lambda>x. undo (remove_path (Socket p) x))
          in if \<not> an_listen an \<or> isSocket m2 (Socket p) \<or> mc_files m2 (Socket p) \<noteq> None then (Some ListenFailed, undo m2)
             else let m3 = m2\<lparr>mc_socks := (mc_socks m2)(Socket p \<mapsto> [mc_self m])\<rparr>; m4 = snd (ReapStrayXray p [] m3)
                  in (case adoptLegacyDB (DB p) datas m4 of
                        (False, m5) \<Rightarrow> (Some AdoptFailed, undo2 m5)
                      | (True, m5) \<Rightarrow> if an_open an then (None, m5) else (Some OpenFailed, undo2 m5)))"

definition daemon_start :: "answers \<Rightarrow> string list \<Rightarrow> string list \<Rightarrow> locations \<Rightarrow> machine \<Rightarrow> start_error option \<times> machine" where
  "daemon_start an runtimes datas p m =
     (case start_checks an runtimes p m of Some e \<Rightarrow> (Some e, m) | None \<Rightarrow> start_acts an datas p m)"

section \<open>Log rotation\<close>

text \<open>The limit is the cap shifted left in 64 bits.\<close>

definition log_limit :: "int \<Rightarrow> int" where
  "log_limit maxMB = sint (push_bit 20 (word_of_int maxMB :: 64 word))"

definition copyFile :: "string \<Rightarrow> string \<Rightarrow> machine \<Rightarrow> machine option" where
  "copyFile src dst m =
     (case mc_files m src of
        None \<Rightarrow> None
      | Some x \<Rightarrow> if mc_noread m src \<or> mc_nowrite m dst then None else Some (m\<lparr>mc_files := (mc_files m)(dst \<mapsto> x)\<rparr>))"

definition rollLog :: "string \<Rightarrow> machine \<Rightarrow> machine" where
  "rollLog path m =
     (case copyFile path (path @ ''.prev'') m of
        None \<Rightarrow> m
      | Some m' \<Rightarrow> if mc_nowrite m' path then m' else m'\<lparr>mc_files := (mc_files m')(path \<mapsto> [])\<rparr>)"

definition roll_if :: "int \<Rightarrow> string \<Rightarrow> machine \<Rightarrow> machine" where
  "roll_if limit path m =
     (case mc_files m path of None \<Rightarrow> m | Some x \<Rightarrow> if int (length x) \<le> limit then m else rollLog path m)"

definition rotate_check :: "int \<Rightarrow> locations \<Rightarrow> machine \<Rightarrow> machine" where
  "rotate_check maxMB p m =
     (if maxMB \<le> 0 then m else fold (roll_if (log_limit maxMB)) [AccessLog p, ErrorLog p] m)"

section \<open>The public address\<close>

text \<open>What each service answers: nothing, or the first 64 bytes of a body.\<close>

definition detectPublicIP :: "string option list \<Rightarrow> string" where
  "detectPublicIP services =
     (case List.find (\<lambda>ip. ParseIP ip \<noteq> None) (map trim_space (List.map_filter (map_option (take 64)) services)) of
        Some ip \<Rightarrow> ip
      | None \<Rightarrow> [])"

text \<open>The cache of the server, and the address it reports.\<close>

definition publicIP :: "string option list \<Rightarrow> string \<Rightarrow> string" where
  "publicIP services cached = (if cached \<noteq> [] then cached else detectPublicIP services)"

section \<open>Certificates\<close>

text \<open>The pair that \<^verbatim>\<open>xray tls cert\<close> prints, as a certificate and a key in PEM; the command is an argument.\<close>

fun json_strings :: "json list \<Rightarrow> string list option" where
  "json_strings [] = Some []"
| "json_strings (JStr s # vs) = map_option (Cons s) (json_strings vs)"
| "json_strings (JNull # vs) = map_option (Cons []) (json_strings vs)"
| "json_strings (_ # vs) = None"

definition struct_strings :: "object \<Rightarrow> string \<Rightarrow> string list option" where
  "struct_strings ob k =
     (case struct_key ob k of None \<Rightarrow> Some [] | Some JNull \<Rightarrow> Some [] | Some (JArr vs) \<Rightarrow> json_strings vs | Some _ \<Rightarrow> None)"

definition xrayTLSCert :: "(string list \<Rightarrow> string option) \<Rightarrow> string \<Rightarrow> (string \<times> string) option" where
  "xrayTLSCert run sni =
     (case run ([''tls'', ''cert'', ''-expire=87600h''] @ (if sni \<noteq> [] then [''-domain='' @ sni] else [])) of
        None \<Rightarrow> None
      | Some out \<Rightarrow>
          (case (case parse_json out of
                   Some (JObj ob) \<Rightarrow> (struct_strings ob ''certificate'', struct_strings ob ''key'')
                 | Some JNull \<Rightarrow> (Some [], Some [])
                 | _ \<Rightarrow> (None, None)) of
             (Some cs, Some ks) \<Rightarrow>
               if cs = [] \<or> ks = [] then None else Some (join [CHR 0x0A] cs, join [CHR 0x0A] ks)
           | _ \<Rightarrow> None))"

section \<open>Facts\<close>

lemma copyDBFile_le: "mc_files m \<subseteq>\<^sub>m mc_files (snd (copyDBFile src dst m))"
  by (auto simp: copyDBFile_def map_le_def split: option.splits)

lemma copy_each_le: "mc_files m \<subseteq>\<^sub>m mc_files (snd (copy_each src dst ss m))"
proof (induction src dst ss m rule: copy_each.induct)
  case (2 src dst s ss m)
  then show ?case using copyDBFile_le [of m "src @ s" "dst @ s"]
    by (cases "copyDBFile (src @ s) (dst @ s) m") (auto split: bool.splits intro: map_le_trans)
qed simp

lemma copyDBFile_True:
  "copyDBFile src dst m = (True, m') \<Longrightarrow>
   m' = m\<lparr>mc_files := (\<lambda>f. if f = dst then (case mc_files m src of Some x \<Rightarrow> Some x | None \<Rightarrow> mc_files m dst) else mc_files m f)\<rparr>"
  by (auto simp: copyDBFile_def fun_eq_iff split: option.splits if_splits)

lemma copy_each_other:
  "mc_procs (snd (copy_each src dst ss m)) = mc_procs m" "mc_socks (snd (copy_each src dst ss m)) = mc_socks m"
  "mc_self (snd (copy_each src dst ss m)) = mc_self m" "mc_noread (snd (copy_each src dst ss m)) = mc_noread m"
  "mc_stuck (snd (copy_each src dst ss m)) = mc_stuck m" "mc_names (snd (copy_each src dst ss m)) = mc_names m"
  by (induction src dst ss m rule: copy_each.induct)
     (auto simp: copyDBFile_def split: option.splits bool.splits)

lemma adopt_other:
  "mc_procs (snd (adoptLegacyDB db cs m)) = mc_procs m" "mc_socks (snd (adoptLegacyDB db cs m)) = mc_socks m"
  "mc_self (snd (adoptLegacyDB db cs m)) = mc_self m" "mc_noread (snd (adoptLegacyDB db cs m)) = mc_noread m"
  "mc_stuck (snd (adoptLegacyDB db cs m)) = mc_stuck m" "mc_names (snd (adoptLegacyDB db cs m)) = mc_names m"
  by (auto simp: adoptLegacyDB_def copyDB_def copy_each_other split: option.splits)

lemma adopt_le: "mc_files m \<subseteq>\<^sub>m mc_files (snd (adoptLegacyDB db cs m))"
  by (auto simp: adoptLegacyDB_def copyDB_def copy_each_le split: option.splits)

text \<open>The paths of a database and of its sidecars, old and new, do not get in each other's way.\<close>

lemma db_paths_apart:
  assumes "src = x @ ''emx.db''" "dst = y @ ''emx.db''" "src \<noteq> dst" "s \<in> set dbSidecars" "t \<in> set dbSidecars"
  shows "src @ s \<noteq> dst @ t"
proof
  assume e: "src @ s = dst @ t"
  have "last (rev (take 4 (rev (src @ s)))) = last (rev (take 4 (rev (dst @ t))))" "last (src @ s) = last (dst @ t)"
    using e by simp_all
  then have "s = t" using assms(1,2,4,5) by (auto simp: dbSidecars_def)
  then show False using e assms(3) by simp
qed

text \<open>Adopting the database of an earlier layout never changes or removes a file that is there, whatever fails; when it
  succeeds, the database and its write-ahead files are those of the first earlier directory that has one.\<close>

theorem adoption_copies_database:
  assumes "\<not> fileExists m (DB p)" "List.find (\<lambda>dir. fileExists m (db_in dir)) datas = Some dir"
    "fst (adoptLegacyDB (DB p) datas m)"
  shows "mc_files m \<subseteq>\<^sub>m mc_files (snd (adoptLegacyDB (DB p) datas m)) \<and>
    map (\<lambda>s. mc_files (snd (adoptLegacyDB (DB p) datas m)) (DB p @ s)) dbSidecars =
    map (\<lambda>s. case mc_files m (db_in dir @ s) of Some x \<Rightarrow> Some x | None \<Rightarrow> mc_files m (DB p @ s)) dbSidecars"
proof -
  let ?src = "db_in dir" and ?dst = "DB p"
  obtain x y where xy: "?src = x @ ''emx.db''" "?dst = y @ ''emx.db''"
    using path_join_last [of "''emx.db''" dir] path_join_last [of "''emx.db''" "p_Data p"] by (auto simp: db_in_def DB_def)
  have ne: "?src \<noteq> ?dst" using assms(1) find_Some_iff [THEN iffD1, OF assms(2)] by auto
  have apart: "?src @ s \<noteq> ?dst @ t" if "s \<in> set dbSidecars" "t \<in> set dbSidecars" for s t
    using db_paths_apart [OF xy ne that] .
  obtain m1 m2 m3 where c: "copyDBFile (?src @ []) (?dst @ []) m = (True, m1)"
    "copyDBFile (?src @ ''-wal'') (?dst @ ''-wal'') m1 = (True, m2)"
    "copyDBFile (?src @ ''-shm'') (?dst @ ''-shm'') m2 = (True, m3)" "adoptLegacyDB (DB p) datas m = (True, m3)"
    using assms by (auto simp: adoptLegacyDB_def copyDB_def dbSidecars_def split: if_splits prod.splits bool.splits)
  have ap: "?src @ ''-wal'' \<noteq> ?dst" "?src @ ''-shm'' \<noteq> ?dst" "?src @ ''-shm'' \<noteq> ?dst @ ''-wal''"
    using apart [of "''-wal''" "[]"] apart [of "''-shm''" "[]"] apart [of "''-shm''" "''-wal''"] by (simp_all add: dbSidecars_def)
  have "map (\<lambda>s. mc_files m3 (DB p @ s)) dbSidecars =
      map (\<lambda>s. case mc_files m (db_in dir @ s) of Some x \<Rightarrow> Some x | None \<Rightarrow> mc_files m (DB p @ s)) dbSidecars"
    using ap by (simp add: dbSidecars_def copyDBFile_True [OF c(3)] copyDBFile_True [OF c(2)] copyDBFile_True [OF c(1)] split: option.split)
  then show ?thesis using adopt_le [of m "DB p" datas] by (simp add: c(4))
qed

text \<open>When a write-ahead file cannot be copied the start fails, but the main file stays, so that the next start takes it
  for the whole database and the transactions of the write-ahead file are lost.\<close>

lemma half_adopted_database:
  assumes "mc_files m (DB p) = None" "List.find (\<lambda>dir. fileExists m (db_in dir)) datas = Some dir"
    "\<not> mc_noread m (db_in dir)" "\<not> mc_nowrite m (DB p)" "\<not> mc_nowrite m (path_dir (DB p))"
    "mc_files m (db_in dir @ ''-wal'') = Some w" "mc_nowrite m (DB p @ ''-wal'')"
  shows "fst (adoptLegacyDB (DB p) datas m) = False \<and>
    adoptLegacyDB (DB p) datas ((snd (adoptLegacyDB (DB p) datas m))\<lparr>mc_nowrite := ok\<rparr>) =
      (True, (snd (adoptLegacyDB (DB p) datas m))\<lparr>mc_nowrite := ok\<rparr>) \<and>
    mc_files (snd (adoptLegacyDB (DB p) datas m)) (DB p @ ''-wal'') = mc_files m (DB p @ ''-wal'')"
proof -
  have d: "fileExists m (db_in dir)" using find_Some_iff [THEN iffD1, OF assms(2)] by auto
  then obtain b where b: "mc_files m (db_in dir) = Some b" "b \<noteq> []" by (auto simp: fileExists_def split: option.splits)
  obtain x y where xy: "db_in dir = x @ ''emx.db''" "DB p = y @ ''emx.db''"
    using path_join_last [of "''emx.db''" dir] path_join_last [of "''emx.db''" "p_Data p"] by (auto simp: db_in_def DB_def)
  have "db_in dir \<noteq> DB p" using assms(1) b by auto
  then have ne: "db_in dir @ ''-wal'' \<noteq> DB p"
    using db_paths_apart [OF xy, of "''-wal''" "[]"] by (simp add: dbSidecars_def)
  have a: "adoptLegacyDB (DB p) datas m = (False, m\<lparr>mc_files := (mc_files m)(DB p \<mapsto> b)\<rparr>)"
    using assms b ne by (simp add: adoptLegacyDB_def fileExists_def copyDB_def dbSidecars_def copyDBFile_def)
  then show ?thesis using b by (simp add: adoptLegacyDB_def fileExists_def)
qed

text \<open>An empty file in the place of the database counts as none, yet is never copied over: it blocks every start.\<close>

lemma empty_database_blocks_start:
  assumes "mc_files m (DB p) = Some []" "List.find (\<lambda>dir. fileExists m (db_in dir)) datas = Some dir"
  shows "adoptLegacyDB (DB p) datas m = (False, m)"
proof -
  have "fileExists m (db_in dir)" using find_Some_iff [THEN iffD1, OF assms(2)] by auto
  then show ?thesis using assms
    by (auto simp: adoptLegacyDB_def fileExists_def copyDB_def dbSidecars_def copyDBFile_def split: option.splits)
qed

section \<open>One daemon\<close>

lemma trim_space_itoa: "trim_space (itoa i) = itoa i"
proof -
  have "plain (nat_str n)" for n using nat_str_digits [of n] by (auto simp: plain_def list_all_iff is_digit_def ascii_space_def byte_def)
  then have "plain (itoa i)" by (auto simp: itoa_def plain_def ascii_space_def byte_def)
  then show ?thesis using trimmed_plain trimmed_iff by blast
qed

lemma pid_path_apart: "PIDFile p \<noteq> Socket p" "PIDFile p \<noteq> PIDFile p @ ''.tmp''"
proof -
  obtain x y where "PIDFile p = x @ ''emx.pid''" "Socket p = y @ ''emx.sock''"
    using path_join_last [of "''emx.pid''" "p_Runtime p"] path_join_last [of "''emx.sock''" "p_Runtime p"]
    by (auto simp: PIDFile_def Socket_def)
  then have "last (PIDFile p) \<noteq> last (Socket p)" by simp
  then show "PIDFile p \<noteq> Socket p" by auto
qed simp

lemma ReapStrayXray_machine:
  assumes "machine_ok m"
  shows "snd (ReapStrayXray p [] m) = m\<lparr>mc_procs := filter (\<lambda>x. \<not> (fst x \<noteq> mc_self m \<and> XrayBin p \<noteq> [] \<and>
      hd (argv (snd x)) = XrayBin p \<and> pr_ours (snd x))) (mc_procs m)\<rparr>"
proof -
  have "filter (\<lambda>(pid, q). \<not> (pid \<in> set (StrayXray p [] m) \<and> pr_ours q)) (mc_procs m) =
      filter (\<lambda>x. \<not> (fst x \<noteq> mc_self m \<and> XrayBin p \<noteq> [] \<and> hd (argv (snd x)) = XrayBin p \<and> pr_ours (snd x))) (mc_procs m)"
    using assms by (auto simp: StrayXray_iff intro!: filter_cong)
  then show ?thesis using terminate_procs [OF assms StrayXray_pos [OF assms]] by (simp add: ReapStrayXray_def)
qed

text \<open>What a start that succeeds has done.\<close>

lemma start_acts_ok:
  assumes "machine_ok m" "start_acts an datas p m = (None, m')"
  shows "mc_files m' (PIDFile p) = Some (itoa (mc_self m))" "mc_self m' = mc_self m" "mc_noread m' = mc_noread m"
    "mc_procs m' = filter (\<lambda>x. \<not> (fst x \<noteq> mc_self m \<and> XrayBin p \<noteq> [] \<and> hd (argv (snd x)) = XrayBin p \<and> pr_ours (snd x)))
      (mc_procs m)"
    "mc_socks m' (Socket p) = Some [mc_self m]" "mc_names m' = mc_names m"
proof -
  let ?tmp = "PIDFile p @ ''.tmp''"
  let ?m1 = "m\<lparr>mc_files := (mc_files m)(?tmp := None, PIDFile p \<mapsto> itoa (mc_self m))\<rparr>"
  let ?m2 = "remove_path (Socket p) ?m1"
  let ?m3 = "?m2\<lparr>mc_socks := (mc_socks ?m2)(Socket p \<mapsto> [mc_self m])\<rparr>"
  define m3 where "m3 = ?m3"
  have a: "adoptLegacyDB (DB p) datas (snd (ReapStrayXray p [] m3)) = (True, m')"
    using assms(2)
    by (auto simp: m3_def start_acts_def writePID_def Let_def remove_path_def split: if_splits prod.splits bool.splits)
  have ok: "machine_ok m3" and f: "mc_self m3 = mc_self m" "mc_procs m3 = mc_procs m" "mc_noread m3 = mc_noread m" "mc_names m3 = mc_names m"
    "mc_files m3 (PIDFile p) = Some (itoa (mc_self m))" "mc_socks m3 (Socket p) = Some [mc_self m]"
    using assms(1) pid_path_apart [of p] by (simp_all add: m3_def machine_ok_def remove_path_def)
  define m4 where "m4 = snd (ReapStrayXray p [] m3)"
  note r = ReapStrayXray_machine [OF ok, of p, folded m4_def, unfolded f(1,2)]
  have m': "m' = snd (adoptLegacyDB (DB p) datas m4)" by (simp add: a m4_def)
  have "mc_files m4 (PIDFile p) = Some (itoa (mc_self m))" by (simp add: r f)
  moreover have "mc_files m4 \<subseteq>\<^sub>m mc_files m'" unfolding m' by (rule adopt_le)
  ultimately show "mc_files m' (PIDFile p) = Some (itoa (mc_self m))" by (metis domI map_le_def)
  show "mc_self m' = mc_self m" "mc_noread m' = mc_noread m" "mc_socks m' (Socket p) = Some [mc_self m]"
    "mc_names m' = mc_names m"
    by (simp_all add: m' adopt_other) (simp_all add: r f)
  show "mc_procs m' = filter (\<lambda>x. \<not> (fst x \<noteq> mc_self m \<and> XrayBin p \<noteq> [] \<and> hd (argv (snd x)) = XrayBin p \<and> pr_ours (snd x)))
      (mc_procs m)"
    by (simp add: m' adopt_other) (simp add: r)
qed


text \<open>The checks and what follows them are not one step: of two starts that have both passed the checks, both come up, and
  the second takes the pid file and the socket from the first.\<close>

lemma racing_starts_both_run:
  assumes "machine_ok m" "start_checks an runtimes p m = None" "start_checks an runtimes p (m\<lparr>mc_self := other\<rparr>) = None"
    "start_acts an datas p m = (None, m1)" "start_acts an datas p (m1\<lparr>mc_self := other\<rparr>) = (None, m2)"
  shows "mc_files m1 (PIDFile p) = Some (itoa (mc_self m)) \<and> mc_files m2 (PIDFile p) = Some (itoa other) \<and>
    mc_socks m2 (Socket p) = Some [other] \<and> start_checks an runtimes p (m\<lparr>mc_self := other\<rparr>) = None"
proof -
  have "machine_ok (m1\<lparr>mc_self := other\<rparr>)"
    using assms(1) by (auto simp: machine_ok_def start_acts_ok(4,6) [OF assms(1,4)] list_all_iff distinct_map_filter)
  then show ?thesis using start_acts_ok(1) [OF assms(1,4)] start_acts_ok(1,5) [of "m1\<lparr>mc_self := other\<rparr>", OF _ assms(5)] assms(3)
    by simp
qed

section \<open>Logs stay below the limit\<close>

lemma roll_if_bound:
  assumes "\<not> mc_noread m path" "\<not> mc_nowrite m path" "\<not> mc_nowrite m (path @ ''.prev'')" "0 \<le> limit"
  shows "(case mc_files (roll_if limit path m) path of Some x \<Rightarrow> int (length x) \<le> limit | None \<Rightarrow> True) \<and>
    (\<forall>f. f \<noteq> path \<longrightarrow> f \<noteq> path @ ''.prev'' \<longrightarrow> mc_files (roll_if limit path m) f = mc_files m f)"
  using assms by (auto simp: roll_if_def rollLog_def copyFile_def split: option.splits)

text \<open>A log over the limit is kept whole as the previous one.\<close>

lemma rollLog_keeps: "mc_files m path = Some x \<Longrightarrow> \<not> mc_noread m path \<Longrightarrow> \<not> mc_nowrite m path \<Longrightarrow>
    \<not> mc_nowrite m (path @ ''.prev'') \<Longrightarrow>
    mc_files (rollLog path m) path = Some [] \<and> mc_files (rollLog path m) (path @ ''.prev'') = Some x"
  by (simp add: rollLog_def copyFile_def)

text \<open>A log that cannot be copied is not emptied.\<close>

lemma rollLog_safe: "mc_nowrite m (path @ ''.prev'') \<Longrightarrow> rollLog path m = m"
  by (auto simp: rollLog_def copyFile_def split: option.splits)

text \<open>A cap of two to the forty-third megabytes is a limit below zero: every log that is not empty is rolled at every check.\<close>

lemma log_limit_wraps: "log_limit (2 ^ 43) < 0"
  by (simp add: log_limit_def push_bit_eq_mult)

section \<open>A start\<close>

definition demo_start :: machine where
  "demo_start = demo_machine\<lparr>mc_files := [''/old/emx.db'' \<mapsto> ''rows'', ''/old/emx.db-wal'' \<mapsto> ''more'', ''/r/emx.pid'' \<mapsto> ''4711'']\<rparr>"

lemma demo_start_paths:
  "PIDFile demo_locations = ''/r/emx.pid''" "Socket demo_locations = ''/r/emx.sock''" "DB demo_locations = ''/d/emx.db''"
  "XrayBin demo_locations = ''/c/xray''" "db_in ''/old'' = ''/old/emx.db''" "path_dir ''/d/emx.db'' = ''/d''"
  by code_simp+

lemma adoption_copies_database_witness:
  "map (\<lambda>s. mc_files (snd (adoptLegacyDB (DB demo_locations) [''/old''] demo_start)) (DB demo_locations @ s)) dbSidecars =
   [Some ''rows'', Some ''more'', None]"
proof -
  have h: "\<not> fileExists demo_start (DB demo_locations)"
    "List.find (\<lambda>dir. fileExists demo_start (db_in dir)) [''/old''] = Some ''/old''"
    "fst (adoptLegacyDB (DB demo_locations) [''/old''] demo_start)"
    by (simp_all add: adoptLegacyDB_def copyDB_def dbSidecars_def copyDBFile_def demo_start_paths fileExists_def demo_start_def
        demo_machine_def)
  show ?thesis
    using conjunct2 [OF adoption_copies_database [OF h]]
    by (simp add: dbSidecars_def demo_start_paths demo_start_def demo_machine_def)
qed


end
