(* ===== verification/Xray_Bin.thy ===== *)
theory Xray_Bin
  imports Paths
begin

text \<open>
  Extracting the embedded xray (\<^verbatim>\<open>internal/xraybin/xraybin.go\<close>). A file has its data, its modification time and its mode;
  the hash is an argument, and so is what each system call does. A copy that was checked once is trusted as long as its
  size, time and mode are those it had then; others may do anything to the file between two extractions, its time
  included.
\<close>

section \<open>The model\<close>

definition Version :: "string option \<Rightarrow> string" where
  "Version asset =
     (case asset of
        None \<Rightarrow> ''unknown''
      | Some b \<Rightarrow>
          (case List.find (\<lambda>line. prefix ''version='' line) (split_on (CHR 0x0A) b) of
             Some line \<Rightarrow> trim_space (drop (length ''version='') line)
           | None \<Rightarrow> ''unknown''))"

record bin_file =
  bf_Data :: string
  bf_Time :: int
  bf_Mode :: nat

type_synonym stamp = "nat \<times> int \<times> nat"

definition stampOf :: "bin_file \<Rightarrow> stamp" where
  "stampOf f = (length (bf_Data f), bf_Time f, bf_Mode f)"

record bin_state =
  bs_Files :: "(string, bin_file) map"
  bs_Verified :: "(string, stamp) map"
  bs_Now :: int

text \<open>Whether the calls succeed; the mode a written file has before it is set; and what a write that fails leaves at
  its path: nothing new, or a file with some data and mode.\<close>

record bin_calls =
  bc_Read :: bool
  bc_Chmod :: bool
  bc_Write :: bool
  bc_Rename :: bool
  bc_Made :: nat
  bc_Left :: "(string \<times> nat) option"

definition same :: "(string \<Rightarrow> 'h) \<Rightarrow> bin_calls \<Rightarrow> string \<Rightarrow> string \<Rightarrow> bin_state \<Rightarrow> bool" where
  "same hash c path data st =
     (case bs_Files st path of
        None \<Rightarrow> False
      | Some f \<Rightarrow> length (bf_Data f) = length data \<and> bc_Read c \<and> hash (bf_Data f) = hash data)"

definition remember :: "string \<Rightarrow> bin_state \<Rightarrow> bool \<times> bin_state" where
  "remember dst st =
     (case bs_Files st dst of
        None \<Rightarrow> (False, st)
      | Some f \<Rightarrow> (True, st\<lparr>bs_Verified := (bs_Verified st)(dst \<mapsto> stampOf f)\<rparr>))"

definition known_good :: "string \<Rightarrow> nat \<Rightarrow> bin_state \<Rightarrow> bool" where
  "known_good dst mode st =
     (case bs_Files st dst of
        None \<Rightarrow> False
      | Some f \<Rightarrow> bs_Verified st dst = Some (stampOf f) \<and> bf_Mode f = mode)"

definition set_mode :: "string \<Rightarrow> nat \<Rightarrow> bin_state \<Rightarrow> bin_state" where
  "set_mode path mode st = st\<lparr>bs_Files := (bs_Files st)(path := map_option (\<lambda>f. f\<lparr>bf_Mode := mode\<rparr>) (bs_Files st path))\<rparr>"

definition put_file :: "string \<Rightarrow> bin_file \<Rightarrow> bin_state \<Rightarrow> bin_state" where
  "put_file path f st = st\<lparr>bs_Files := (bs_Files st)(path \<mapsto> f)\<rparr>"

definition writeEmbedded :: "bin_calls \<Rightarrow> string \<Rightarrow> string \<Rightarrow> nat \<Rightarrow> bin_state \<Rightarrow> bool \<times> bin_state" where
  "writeEmbedded c data path mode st =
     (if \<not> bc_Write c then
        (False, case bc_Left c of None \<Rightarrow> st
                | Some (part, md) \<Rightarrow> put_file path \<lparr>bf_Data = part, bf_Time = bs_Now st, bf_Mode = md\<rparr> st)
      else if \<not> bc_Chmod c then (False, put_file path \<lparr>bf_Data = data, bf_Time = bs_Now st, bf_Mode = bc_Made c\<rparr> st)
      else (True, put_file path \<lparr>bf_Data = data, bf_Time = bs_Now st, bf_Mode = mode\<rparr> st))"

definition rename_file :: "string \<Rightarrow> string \<Rightarrow> bin_state \<Rightarrow> bin_state" where
  "rename_file src dst st = st\<lparr>bs_Files := (bs_Files st)(src := None, dst := bs_Files st src)\<rparr>"

definition extractOne :: "(string \<Rightarrow> 'h) \<Rightarrow> bin_calls \<Rightarrow> string \<Rightarrow> string \<Rightarrow> nat \<Rightarrow> bin_state \<Rightarrow> bool \<times> bin_state" where
  "extractOne hash c data dst mode st =
     (let tmp = dst @ ''.tmp''
      in if known_good dst mode st then (True, st)
         else if same hash c dst data st then
           (if \<not> bc_Chmod c then (False, st) else remember dst (set_mode dst mode st))
         else (case writeEmbedded c data tmp mode st of
                 (False, st1) \<Rightarrow> (False, st1)
               | (True, st1) \<Rightarrow> if \<not> bc_Rename c then (False, st1) else remember dst (rename_file tmp dst st1)))"

text \<open>The three files, in the order the map yields them; the path of the binary.\<close>

fun extract_all :: "(string \<Rightarrow> 'h) \<Rightarrow> bin_calls \<Rightarrow> string \<Rightarrow> (string \<times> string \<times> nat) list \<Rightarrow> bin_state \<Rightarrow> bool \<times> bin_state" where
  "extract_all hash c dir [] st = (True, st)"
| "extract_all hash c dir ((name, data, mode) # fs) st =
     (case extractOne hash c data (path_join [dir, name]) mode st of
        (True, st') \<Rightarrow> extract_all hash c dir fs st'
      | (False, st') \<Rightarrow> (False, st'))"

definition Extract :: "(string \<Rightarrow> 'h) \<Rightarrow> bin_calls \<Rightarrow> bool \<Rightarrow> string option \<Rightarrow> string \<Rightarrow> (string \<times> string \<times> nat) list \<Rightarrow> bin_state \<Rightarrow>
    string option \<times> bin_state" where
  "Extract hash c mkdir asset dir files st =
     (if Version asset = ''none'' \<or> \<not> mkdir then (None, st)
      else (case extract_all hash c dir files st of
              (True, st') \<Rightarrow> (Some (path_join [dir, ''xray'']), st')
            | (False, st') \<Rightarrow> (None, st')))"

section \<open>What others may do to the file\<close>

text \<open>Between two extractions the file can be replaced (dated by the clock), removed, given another mode or another time,
  and the clock can be set.\<close>

datatype bin_op = Ext bin_calls | Put string nat | Remove | Chmod nat | Touch int | Clock int

definition change_file :: "string \<Rightarrow> (bin_file \<Rightarrow> bin_file) \<Rightarrow> bin_state \<Rightarrow> bin_state" where
  "change_file path f st = st\<lparr>bs_Files := (bs_Files st)(path := map_option f (bs_Files st path))\<rparr>"

fun bin_do :: "(string \<Rightarrow> 'h) \<Rightarrow> string \<Rightarrow> string \<Rightarrow> nat \<Rightarrow> bin_op \<Rightarrow> bin_state \<Rightarrow> bin_state" where
  "bin_do hash data dst mode (Ext c) st = snd (extractOne hash c data dst mode st)"
| "bin_do hash data dst mode (Put x md) st = put_file dst \<lparr>bf_Data = x, bf_Time = bs_Now st, bf_Mode = md\<rparr> st"
| "bin_do hash data dst mode Remove st = st\<lparr>bs_Files := (bs_Files st)(dst := None)\<rparr>"
| "bin_do hash data dst mode (Chmod md) st = set_mode dst md st"
| "bin_do hash data dst mode (Touch t) st = change_file dst (\<lambda>f. f\<lparr>bf_Time := t\<rparr>) st"
| "bin_do hash data dst mode (Clock t) st = st\<lparr>bs_Now := t\<rparr>"

definition bin_run :: "(string \<Rightarrow> 'h) \<Rightarrow> string \<Rightarrow> string \<Rightarrow> nat \<Rightarrow> bin_op list \<Rightarrow> bin_state \<Rightarrow> bin_state" where
  "bin_run hash data dst mode ops st = fold (bin_do hash data dst mode) ops st"

text \<open>What the trust rests on. The file is forged when it has other data and the size, time and mode on record, and a
  collision when it has other data, of the same size and with the same hash.\<close>

definition forged :: "string \<Rightarrow> string \<Rightarrow> bin_state \<Rightarrow> bool" where
  "forged data dst st \<longleftrightarrow>
     (case bs_Files st dst of None \<Rightarrow> False | Some f \<Rightarrow> bs_Verified st dst = Some (stampOf f) \<and> bf_Data f \<noteq> data)"

definition collides :: "(string \<Rightarrow> 'h) \<Rightarrow> string \<Rightarrow> string \<Rightarrow> bin_state \<Rightarrow> bool" where
  "collides hash data dst st \<longleftrightarrow>
     (case bs_Files st dst of None \<Rightarrow> False
      | Some f \<Rightarrow> length (bf_Data f) = length data \<and> hash (bf_Data f) = hash data \<and> bf_Data f \<noteq> data)"

fun honest :: "(string \<Rightarrow> 'h) \<Rightarrow> string \<Rightarrow> string \<Rightarrow> nat \<Rightarrow> bin_op list \<Rightarrow> bin_state \<Rightarrow> bool" where
  "honest hash data dst mode [] st = True"
| "honest hash data dst mode (Ext c # ops) st = honest hash data dst mode ops (bin_do hash data dst mode (Ext c) st)"
| "honest hash data dst mode (x # ops) st =
     (let st1 = bin_do hash data dst mode x st
      in \<not> forged data dst st1 \<and> \<not> collides hash data dst st1 \<and> honest hash data dst mode ops st1)"

section \<open>Facts\<close>

definition trusted :: "(string \<Rightarrow> 'h) \<Rightarrow> string \<Rightarrow> string \<Rightarrow> bin_state \<Rightarrow> bool" where
  "trusted hash data dst st \<longleftrightarrow> \<not> forged data dst st \<and> \<not> collides hash data dst st"

lemma tmp_apart: "dst @ ''.tmp'' \<noteq> dst" "dst \<noteq> dst @ ''.tmp''"
  by simp_all

lemma trusted_other: "path \<noteq> dst \<Longrightarrow> trusted hash data dst (put_file path f st) = trusted hash data dst st"
  by (simp add: trusted_def forged_def collides_def put_file_def split: option.split)

lemma writeEmbedded_ok:
  assumes "writeEmbedded c data path mode st = (r, st')" "path \<noteq> dst"
  shows "trusted hash data dst st' = trusted hash data dst st"
    and "r \<Longrightarrow> bs_Files st' path = Some \<lparr>bf_Data = data, bf_Time = bs_Now st, bf_Mode = mode\<rparr>"
  using assms by (auto simp: writeEmbedded_def trusted_other split: if_splits option.splits) (simp_all add: put_file_def)

text \<open>Where the embedded data are, they are there after they were put on record.\<close>

lemma remember_ok:
  assumes "bs_Files st dst = Some f" "bf_Data f = data" "remember dst st = (r, st')"
  shows "trusted hash data dst st' \<and> bs_Files st' dst = Some f"
  using assms by (auto simp: remember_def trusted_def forged_def collides_def)

lemma extractOne_ok:
  assumes "trusted hash data dst st" "extractOne hash c data dst mode st = (r, st')"
  shows "trusted hash data dst st' \<and> (r \<longrightarrow> (\<exists>f. bs_Files st' dst = Some f \<and> bf_Data f = data \<and> bf_Mode f = mode))"
proof -
  let ?tmp = "dst @ ''.tmp''"
  consider (known) "known_good dst mode st"
    | (same) "\<not> known_good dst mode st" "same hash c dst data st"
    | (new) "\<not> known_good dst mode st" "\<not> same hash c dst data st" by blast
  then show ?thesis
  proof cases
    case known
    then show ?thesis using assms
      by (auto simp: extractOne_def known_good_def trusted_def forged_def split: option.splits)
  next
    case same
    then obtain f where f: "bs_Files st dst = Some f" "bf_Data f = data"
      using assms(1) by (auto simp: same_def trusted_def collides_def split: option.splits)
    show ?thesis
    proof (cases "bc_Chmod c")
      case True
      then have "remember dst (set_mode dst mode st) = (r, st')" using same assms(2) by (simp add: extractOne_def)
      then show ?thesis using remember_ok [of "set_mode dst mode st" dst "f\<lparr>bf_Mode := mode\<rparr>" data r st' hash] f
        by (simp add: set_mode_def)
    next
      case False
      then show ?thesis using same assms by (simp add: extractOne_def)
    qed
  next
    case new
    obtain w st1 where w: "writeEmbedded c data ?tmp mode st = (w, st1)" by fastforce
    note k = writeEmbedded_ok [OF w tmp_apart(1)]
    show ?thesis
    proof (cases "w \<and> bc_Rename c")
      case True
      then have "remember dst (rename_file ?tmp dst st1) = (r, st')" using new assms(2) w by (simp add: extractOne_def Let_def)
      moreover have "bs_Files (rename_file ?tmp dst st1) dst = Some \<lparr>bf_Data = data, bf_Time = bs_Now st, bf_Mode = mode\<rparr>"
        using k(2) True by (simp add: rename_file_def)
      ultimately show ?thesis
        using remember_ok [of "rename_file ?tmp dst st1" dst "\<lparr>bf_Data = data, bf_Time = bs_Now st, bf_Mode = mode\<rparr>" data r st' hash] by simp
    next
      case False
      then have "\<not> r \<and> st' = st1" using new assms(2) w by (auto simp: extractOne_def Let_def split: bool.splits if_splits)
      then show ?thesis using k(1) [of hash] assms(1) by blast
    qed
  qed
qed

lemma bin_run_trusted: "trusted hash data dst st \<Longrightarrow> honest hash data dst mode ops st \<Longrightarrow> trusted hash data dst (bin_run hash data dst mode ops st)"
proof (induction hash data dst mode ops st rule: honest.induct)
  case (2 hash data dst mode c ops st)
  obtain r st' where e: "extractOne hash c data dst mode st = (r, st')" by fastforce
  from extractOne_ok [OF 2(2) e] 2(1,3) show ?case by (simp add: bin_run_def e)
qed (simp_all add: bin_run_def trusted_def Let_def)

text \<open>A file put there after the record was made is not forged: its time is another.\<close>

lemma later_put_honest:
  assumes "bs_Verified st dst = Some (n, t, m)" "t < bs_Now st"
  shows "\<not> forged data dst (bin_do hash data dst mode (Put x md) st)"
  using assms by (simp add: forged_def put_file_def stampOf_def)

text \<open>C39. Between extractions the file may be replaced, removed, given another mode or time, with the clock set at will,
  as long as no step leaves a file of other data that has the size, time and mode on record, or that has the size and
  hash of the embedded data. Then an extraction that succeeds leaves the embedded data with its mode in place, although
  it does not read a file that it takes for the one it has checked; failed and interrupted extractions in between do
  not change that.\<close>

theorem extracted_is_embedded:
  assumes "honest hash data dst mode ops st" "bs_Verified st dst = None" "\<not> collides hash data dst st"
    "extractOne hash c data dst mode (bin_run hash data dst mode ops st) = (True, st')"
  shows "\<exists>f. bs_Files st' dst = Some f \<and> bf_Data f = data \<and> bf_Mode f = mode"
proof -
  have "trusted hash data dst st" using assms(2,3) by (simp add: trusted_def forged_def split: option.splits)
  then have "trusted hash data dst (bin_run hash data dst mode ops st)" using assms(1) by (rule bin_run_trusted)
  from extractOne_ok [OF this assms(4)] show ?thesis by simp
qed

section \<open>Witness\<close>

definition all_calls :: bin_calls where
  "all_calls = \<lparr>bc_Read = True, bc_Chmod = True, bc_Write = True, bc_Rename = True, bc_Made = 420, bc_Left = None\<rparr>"

definition no_space :: bin_calls where
  "no_space = all_calls\<lparr>bc_Write := False, bc_Left := Some (''xr'', 420)\<rparr>"

abbreviation bin_demo :: bin_state where "bin_demo \<equiv> \<lparr>bs_Files = Map.empty, bs_Verified = Map.empty, bs_Now = 0\<rparr>"

lemmas bin_demo_defs = bin_run_def extractOne_def writeEmbedded_def put_file_def rename_file_def known_good_def same_def remember_def
  stampOf_def all_calls_def no_space_def set_mode_def change_file_def forged_def collides_def Let_def

text \<open>The file is extracted, replaced by another of its size, dated back, and extracted again, the first time onto a full
  disk.\<close>

lemma extracted_is_embedded_witness:
  "\<exists>f. bs_Files (snd (extractOne id all_calls ''xray'' ''/c/xray'' 493
     (bin_run id ''xray'' ''/c/xray'' 493 [Ext all_calls, Clock 5, Put ''evil'' 493, Touch 1, Ext no_space] bin_demo)))
     ''/c/xray'' = Some f \<and> bf_Data f = ''xray'' \<and> bf_Mode f = 493"
proof -
  let ?ops = "[Ext all_calls, Clock 5, Put ''evil'' 493, Touch 1, Ext no_space]"
  let ?run = "bin_run id ''xray'' ''/c/xray'' 493 ?ops bin_demo"
  have "fst (extractOne id all_calls ''xray'' ''/c/xray'' 493 ?run)" by (simp add: bin_demo_defs)
  then obtain st' where e: "extractOne id all_calls ''xray'' ''/c/xray'' 493 ?run = (True, st')"
    by (cases "extractOne id all_calls ''xray'' ''/c/xray'' 493 ?run") simp
  have "honest id ''xray'' ''/c/xray'' 493 ?ops bin_demo" by (simp add: bin_demo_defs)
  from extracted_is_embedded [OF this _ _ e] show ?thesis by (simp add: e collides_def)
qed

text \<open>Without that condition the trust is misplaced: a file of the same size and mode whose time was set to the one on
  record is taken for the checked copy.\<close>

theorem restored_time_is_accepted:
  "let st = bin_run id ''xray'' ''/c/xray'' 493 [Ext all_calls, Clock 5, Put ''evil'' 493, Touch 0] bin_demo;
       (r, st') = extractOne id all_calls ''xray'' ''/c/xray'' 493 st
   in r \<and> map_option bf_Data (bs_Files st' ''/c/xray'') = Some ''evil''"
  by (simp add: bin_demo_defs)

end
