(* ===== verification/Self_Update.thy ===== *)
theory Self_Update
  imports Url Outbounds Store
begin

text \<open>
  Updating the program (\<^verbatim>\<open>internal/selfupdate/selfupdate.go\<close>, \<^verbatim>\<open>cmd/emx/update.go\<close>): which release is newer, which file
  of it to fetch, the proxy to fetch it through, replacing the executable, and the wait for the new daemon. What the
  network answers is an argument.
\<close>

section \<open>Releases\<close>

record gh_release =
  rl_Tag :: string
  rl_Assets :: "(string \<times> string) list"

definition AssetURL :: "gh_release \<Rightarrow> string \<Rightarrow> string \<Rightarrow> string option" where
  "AssetURL r goos goarch =
     map_option snd (List.find (\<lambda>a. suffix (''-'' @ goos @ ''-'' @ goarch @ ''.tar.gz'') (fst a)) (rl_Assets r))"

definition parseVer :: "string \<Rightarrow> (int \<times> int \<times> int) option" where
  "parseVer v0 =
     (let v = takeWhile (\<lambda>c. c \<noteq> CHR ''-'' \<and> c \<noteq> CHR ''+'') (trim_prefix ''v'' (trim_space v0))
      in case map parse_int (split_on (CHR ''.'') v) of
           [Some a, Some b, Some c] \<Rightarrow> Some (a, b, c)
         | _ \<Rightarrow> None)"

definition Newer :: "string \<Rightarrow> string \<Rightarrow> bool" where
  "Newer current latest =
     (case parseVer latest of
        None \<Rightarrow> False
      | Some (l1, l2, l3) \<Rightarrow>
          (case parseVer current of
             None \<Rightarrow> True
           | Some (c1, c2, c3) \<Rightarrow>
               if l1 \<noteq> c1 then l1 > c1 else if l2 \<noteq> c2 then l2 > c2 else if l3 \<noteq> c3 then l3 > c3 else False))"

definition sameVersion :: "string \<Rightarrow> string \<Rightarrow> bool" where
  "sameVersion got want =
     (if want = [] \<or> want = ''dev'' then got \<noteq> [] else trim_prefix ''v'' got = trim_prefix ''v'' want)"

section \<open>The proxy\<close>

definition proxySchemes :: "string list" where
  "proxySchemes = [''http'', ''https'', ''socks5'', ''socks5h'']"

datatype proxy_error = BadProxy | UnsupportedScheme string | NoHost

definition parseProxyURL :: "string \<Rightarrow> (proxy_error, string \<times> url) outcome" where
  "parseProxyURL proxy =
     (case cut ''://'' (if cut ''://'' proxy = None then ''socks5h://'' @ proxy else proxy) of
        None \<Rightarrow> Fail BadProxy
      | Some (scheme, rest) \<Rightarrow>
          (case url_parse rest of
             None \<Rightarrow> Fail BadProxy
           | Some u \<Rightarrow>
               if to_lower scheme \<notin> set proxySchemes then Fail (UnsupportedScheme scheme)
               else if ur_Host u = [] then Fail NoHost else Ok (to_lower scheme, u)))"

text \<open>The proxy of a request: the one of the argument, else what the environment picks; credentials that are given replace
  those of the proxy.\<close>

definition withCredentials :: "(string \<times> url) option \<Rightarrow> string \<Rightarrow> string \<Rightarrow> (string \<times> url) option" where
  "withCredentials pick user pass = map_option (\<lambda>(s, u). (s, u\<lparr>ur_User := Some (user, Some pass)\<rparr>)) pick"

definition NewClient :: "(string \<times> url) option \<Rightarrow> string \<Rightarrow> string \<Rightarrow> string \<Rightarrow> (proxy_error, (string \<times> url) option) outcome" where
  "NewClient env proxy0 user pass =
     (let proxy = trim_space proxy0; auth = (\<lambda>pick. if user \<noteq> [] \<or> pass \<noteq> [] then withCredentials pick user pass else pick)
      in if proxy = [] then Ok (auth env)
         else obind (parseProxyURL proxy) (\<lambda>p. Ok (auth (Some p))))"

definition looksLikeAddress :: "string \<Rightarrow> bool" where
  "looksLikeAddress spec =
     (if cut ''://'' spec \<noteq> None then True
      else (case split_host_port spec of Some (_, port) \<Rightarrow> parse_int port \<noteq> None | None \<Rightarrow> False))"

datatype resolve_error = NoSuchInbound string | NotSocks string | InboundDisabled string | TargetsDirect string

definition resolveInboundProxy :: "inbound list \<Rightarrow> string \<Rightarrow> resolve_error + (string \<times> string \<times> string)" where
  "resolveInboundProxy ins name =
     (case List.find (\<lambda>i. equal_fold (in_Name i) name) ins of
        None \<Rightarrow> Inl (NoSuchInbound name)
      | Some i \<Rightarrow>
          if in_Protocol i \<noteq> ''socks'' then Inl (NotSocks (in_Name i))
          else if \<not> in_Enabled i then Inl (InboundDisabled (in_Name i))
          else if (case ParseTarget (in_Target i) of Inr (kind, _) \<Rightarrow> kind = TargetDirect | Inl _ \<Rightarrow> False)
            then Inl (TargetsDirect (in_Name i))
          else let host = (if in_Listen i = [] \<or> in_Listen i = ''0.0.0.0'' \<or> in_Listen i = ''::'' then ''127.0.0.1'' else in_Listen i)
               in Inr (JoinHostPort host (nat_str (in_Port i)), in_SocksUser i, in_Password i))"

definition firstNonEmpty :: "string \<Rightarrow> string \<Rightarrow> string" where
  "firstNonEmpty a b = (if a \<noteq> [] then a else b)"

datatype client_error = CredentialsWithoutProxy | Resolve resolve_error | Proxy proxy_error

text \<open>The variables: the proxy, its user and its password for this program, and whether a common proxy variable is set.\<close>

definition proxyHTTPClient ::
  "inbound list \<Rightarrow> (string \<Rightarrow> string) \<Rightarrow> (string \<times> url) option \<Rightarrow> string \<Rightarrow> string \<Rightarrow> string \<Rightarrow>
     (client_error, (string \<times> url) option) outcome" where
  "proxyHTTPClient ins env pick proxy0 user0 pass0 =
     (let proxy = firstNonEmpty proxy0 (env ''EMX_PROXY''); user = firstNonEmpty user0 (env ''EMX_PROXY_USER'');
          pass = firstNonEmpty pass0 (env ''EMX_PROXY_PASS'');
          client = (\<lambda>p u w. case NewClient pick p u w of Ok c \<Rightarrow> Ok c | Fail e \<Rightarrow> Fail (Proxy e) | Panic \<Rightarrow> Panic)
      in if proxy = [] \<and> (user \<noteq> [] \<or> pass \<noteq> []) \<and>
            list_all (\<lambda>k. env k = []) [''HTTPS_PROXY'', ''https_proxy'', ''HTTP_PROXY'', ''http_proxy''] then Fail CredentialsWithoutProxy
         else if proxy \<noteq> [] \<and> \<not> looksLikeAddress proxy then
           (case resolveInboundProxy ins proxy of
              Inl e \<Rightarrow> Fail (Resolve e)
            | Inr (addr, u, p) \<Rightarrow> client addr (firstNonEmpty user u) (firstNonEmpty pass p))
         else client proxy user pass)"

section \<open>Replacing the executable\<close>

text \<open>The entries of an archive, each with its kind, its name and its data, and whether the data arrive; an archive ends or
  breaks off.\<close>

record tar_entry =
  te_Regular :: bool
  te_Base :: string
  te_Data :: string
  te_Arrives :: bool

datatype reply = NoReply | BadStatus string | Archive "tar_entry list" bool

datatype update_error = NoTemp | Unreachable | DownloadStatus string | Broken | NoBinary | NoClose | NoChmod | NoRename

definition maxDownload :: nat where "maxDownload = 2 ^ 27"

text \<open>The data of the binary, at most as much as may be downloaded.\<close>

fun find_binary :: "tar_entry list \<Rightarrow> bool \<Rightarrow> update_error + string" where
  "find_binary [] ends = Inl (if ends then NoBinary else Broken)"
| "find_binary (e # es) ends =
     (if te_Regular e \<and> te_Base e = ''emx'' then
        (if te_Arrives e then Inr (take maxDownload (te_Data e)) else Inl Broken)
      else if te_Arrives e then find_binary es ends else Inl Broken)"

definition download :: "reply \<Rightarrow> update_error + string" where
  "download r =
     (case r of NoReply \<Rightarrow> Inl Unreachable | BadStatus s \<Rightarrow> Inl (DownloadStatus s) | Archive es ends \<Rightarrow> find_binary es ends)"

record update_calls =
  uc_Temp :: bool
  uc_Close :: bool
  uc_Chmod :: bool
  uc_Rename :: bool

definition Apply :: "update_calls \<Rightarrow> string \<Rightarrow> string \<Rightarrow> reply \<Rightarrow> (string, string) map \<Rightarrow> update_error option \<times> (string, string) map" where
  "Apply c exe tmp r fs =
     (if \<not> uc_Temp c then (Some NoTemp, fs)
      else (case download r of
              Inl e \<Rightarrow> (Some e, fs(tmp := None))
            | Inr x \<Rightarrow>
                if \<not> uc_Close c then (Some NoClose, fs(tmp := None))
                else if \<not> uc_Chmod c then (Some NoChmod, fs(tmp := None))
                else if \<not> uc_Rename c then (Some NoRename, fs(tmp := None))
                else (None, (fs(tmp := None))(exe \<mapsto> x))))"

section \<open>Waiting for the new daemon\<close>

text \<open>What a poll sees: the version, the status (with the state of xray, if it has one) and the inbounds, each when the
  daemon answers, and whether the deadline has passed.\<close>

record xray_state =
  xs_Running :: bool
  xs_ConfigError :: string
  xs_LastError :: string

record poll =
  po_Ping :: "string option"
  po_Status :: "xray_state option option"
  po_Dialled :: bool
  po_Inbounds :: "inbound list option"
  po_Late :: bool

datatype verify_error = WrongVersion string string | XrayDown string string

definition hasEnabledInbound :: "poll \<Rightarrow> bool" where
  "hasEnabledInbound ob = (case po_Inbounds ob of None \<Rightarrow> True | Some ins \<Rightarrow> list_ex in_Enabled ins)"

definition xray_up :: "xray_state option option \<Rightarrow> bool" where
  "xray_up st = (case st of Some (Some x) \<Rightarrow> xs_Running x | _ \<Rightarrow> False)"

definition why_down :: "xray_state option option \<Rightarrow> string" where
  "why_down st =
     (case st of
        Some (Some x) \<Rightarrow> if xs_ConfigError x \<noteq> [] then xs_ConfigError x else xs_LastError x
      | _ \<Rightarrow> [])"

text \<open>The version and the status that were last seen are kept; what is printed in the end reads the status.\<close>

fun verifyRuntime :: "string \<Rightarrow> string \<Rightarrow> xray_state option option \<Rightarrow> poll list \<Rightarrow> (verify_error, string \<times> xray_state option) outcome option" where
  "verifyRuntime want got st [] = None"
| "verifyRuntime want got0 st0 (ob # obs) =
     (let got = (if po_Dialled ob then (case po_Ping ob of Some v \<Rightarrow> v | None \<Rightarrow> got0) else got0);
          st = (if po_Dialled ob then po_Status ob else st0)
      in if sameVersion got want \<and> (xray_up st \<or> \<not> hasEnabledInbound ob) then
           Some (case st of Some x \<Rightarrow> Ok (got, x) | None \<Rightarrow> Panic)
         else if po_Late ob then
           Some (Fail (if \<not> sameVersion got want then WrongVersion got want else XrayDown got (why_down st)))
         else verifyRuntime want got st obs)"

section \<open>Facts\<close>

text \<open>Newer is a strict order, in which releases that differ in their numbers compare.\<close>

lemma Newer_releases:
  "parseVer a = Some (a1, a2, a3) \<Longrightarrow> parseVer b = Some (b1, b2, b3) \<Longrightarrow>
   Newer a b \<longleftrightarrow> a1 < b1 \<or> a1 = b1 \<and> (a2 < b2 \<or> a2 = b2 \<and> a3 < b3)"
  by (auto simp: Newer_def)

lemma Newer_irrefl: "\<not> Newer a a"
  by (simp add: Newer_def split: option.splits prod.splits)

lemma Newer_trans: "Newer a b \<Longrightarrow> Newer b c \<Longrightarrow> Newer a c"
proof -
  assume ab: "Newer a b" and bc: "Newer b c"
  obtain b1 b2 b3 where b: "parseVer b = Some (b1, b2, b3)" using ab by (auto simp: Newer_def split: option.splits)
  obtain c1 c2 c3 where c: "parseVer c = Some (c1, c2, c3)" using bc by (auto simp: Newer_def split: option.splits)
  show "Newer a c"
  proof (cases "parseVer a")
    case None
    then show ?thesis using c by (simp add: Newer_def)
  next
    case (Some x)
    then obtain a1 a2 a3 where a: "parseVer a = Some (a1, a2, a3)" by (cases x) auto
    show ?thesis using ab bc unfolding Newer_releases [OF a b] Newer_releases [OF b c] Newer_releases [OF a c] by auto
  qed
qed

lemma Newer_asym: "Newer a b \<Longrightarrow> \<not> Newer b a"
  using Newer_trans Newer_irrefl by blast

text \<open>A build of a prerelease counts as the release itself, so that it is never offered the release.\<close>

lemma prerelease_not_offered_release: "\<not> Newer ''v1.3.0-rc1'' ''v1.3.0''"
  by code_simp

text \<open>The executable is the old one, or on success the binary of the archive; a binary larger than what may be downloaded is
  cut off and installed all the same.\<close>

lemma Apply_result:
  assumes "tmp \<noteq> exe"
  shows "case Apply c exe tmp r fs of
      (None, fs') \<Rightarrow> (\<exists>x. download r = Inr x \<and> fs' = (fs(tmp := None))(exe \<mapsto> x))
    | (Some e, fs') \<Rightarrow> fs' exe = fs exe"
  using assms by (auto simp: Apply_def split: sum.splits)

lemma large_binary_truncated:
  assumes "maxDownload < length x"
  shows "\<exists>y. download (Archive [\<lparr>te_Regular = True, te_Base = ''emx'', te_Data = x, te_Arrives = True\<rparr>] True) = Inr y \<and> y \<noteq> x"
  using assms by (auto simp: download_def dest: arg_cong [of _ _ length])

text \<open>The wait ends by the deadline.\<close>

lemma verifyRuntime_ends: "list_ex po_Late obs \<Longrightarrow> verifyRuntime want got st obs \<noteq> None"
  by (induction want got st obs rule: verifyRuntime.induct) (auto simp: Let_def)

text \<open>A status that does not come while the version does and no inbound is enabled is read all the same.\<close>

lemma missing_status_panics:
  assumes "po_Dialled ob" "po_Ping ob = Some want" "want \<noteq> []" "po_Status ob = None" "\<not> hasEnabledInbound ob"
  shows "verifyRuntime want got st (ob # obs) = Some Panic"
  using assms by (simp add: sameVersion_def)

text \<open>A proxy that is resolved from an inbound is one that is enabled, speaks socks and does not go out directly.\<close>

lemma resolveInboundProxy_ok:
  "resolveInboundProxy ins name = Inr (addr, u, p) \<Longrightarrow>
   \<exists>i \<in> set ins. equal_fold (in_Name i) name \<and> in_Protocol i = ''socks'' \<and> in_Enabled i \<and>
     (\<forall>n. ParseTarget (in_Target i) \<noteq> Inr (TargetDirect, n)) \<and> u = in_SocksUser i \<and> p = in_Password i"
  by (auto simp: resolveInboundProxy_def Let_def find_Some_iff split: option.splits if_splits sum.splits)

end
