(* ===== verification/Cli_Entries.thy ===== *)
theory Cli_Entries
  imports Server
begin

text \<open>
  The command line's edits of dialers (\<^verbatim>\<open>cmd/emx/entry.go\<close>): which entries a selector names, and the dialers that
  \<^verbatim>\<open>emx entry dialer\<close> with refs, \<^verbatim>\<open>--add\<close>, \<^verbatim>\<open>--rm\<close> and \<^verbatim>\<open>--clear\<close> asks the daemon to store.
\<close>

section \<open>Selecting entries\<close>

datatype cli_error =
    BadID string
  | NoEntryWithID nat
  | NoEntriesMatch string
  | NoRefAnywhere string
  | ClearAndRefs
  | NoSuchRef string
  | InEntry string cli_error

text \<open>\<^verbatim>\<open>strconv.ParseUint\<close> in base ten and 32 bits takes no sign.\<close>

definition parseID :: "string \<Rightarrow> cli_error + nat" where
  "parseID s =
     (if s \<noteq> [] \<and> list_all is_digit s \<and> digits_val s < 2 ^ 32 then Inr (digits_val s) else Inl (BadID s))"

definition splitRefs :: "string \<Rightarrow> string list" where
  "splitRefs dialer = filter (\<lambda>r. r \<noteq> []) (map trim_space (split_on (CHR '','') dialer))"

text \<open>Of entries with one id the last is found.\<close>

fun pick_ids :: "entry_info list \<Rightarrow> entry_info list \<Rightarrow> string list \<Rightarrow> cli_error + entry_info list" where
  "pick_ids entries out [] = Inr out"
| "pick_ids entries out (p # ps) =
     (case parseID p of
        Inl e \<Rightarrow> Inl e
      | Inr i \<Rightarrow>
          (case List.find (\<lambda>e. e_ID (ei_Entry e) = i) (rev entries) of
             None \<Rightarrow> Inl (NoEntryWithID i)
           | Some e \<Rightarrow> pick_ids entries (if e \<in> set out then out else out @ [e]) ps))"

definition selectEntries :: "entry_info list \<Rightarrow> string \<Rightarrow> cli_error + entry_info list" where
  "selectEntries entries sel =
     (let found = (if sel = ''all'' then Inr entries
                   else if sel = ''masters'' then Inr (filter ei_IsMaster entries)
                   else pick_ids entries [] (splitRefs sel))
      in (case found of
            Inl e \<Rightarrow> Inl e
          | Inr out \<Rightarrow> if out = [] then Inl (NoEntriesMatch sel) else Inr out))"

section \<open>Editing dialers\<close>

fun drop_refs :: "string list \<Rightarrow> string list \<Rightarrow> cli_error + string list" where
  "drop_refs refs [] = Inr refs"
| "drop_refs refs (r # rs) = (if r \<in> set refs then drop_refs (remove1 r refs) rs else Inl (NoSuchRef r))"

definition add_refs :: "string list \<Rightarrow> string list \<Rightarrow> string list" where
  "add_refs refs add = fold (\<lambda>r refs. if r \<in> set refs then refs else refs @ [r]) add refs"

definition base_refs :: "string \<Rightarrow> string list \<Rightarrow> bool \<Rightarrow> string list" where
  "base_refs cur refs clear =
     (if refs \<noteq> [] then splitRefs (join '','' refs) else if clear then [] else splitRefs cur)"

definition editDialer :: "string \<Rightarrow> string list \<Rightarrow> string list \<Rightarrow> string list \<Rightarrow> bool \<Rightarrow> cli_error + string" where
  "editDialer cur refs add rm clear =
     (if clear \<and> refs \<noteq> [] then Inl ClearAndRefs
      else (case drop_refs (base_refs cur refs clear) (splitRefs (join '','' rm)) of
              Inl e \<Rightarrow> Inl e
            | Inr left \<Rightarrow> Inr (join '','' (keep_first id [] (add_refs left (splitRefs (join '','' add)))))))"

definition edit_one :: "string list \<Rightarrow> string list \<Rightarrow> string list \<Rightarrow> bool \<Rightarrow> entry_info \<Rightarrow> cli_error + nat \<times> string" where
  "edit_one refs add rmRefs clear e =
     (let have = splitRefs (e_Dialer (ei_Entry e))
      in (case editDialer (e_Dialer (ei_Entry e)) refs add (filter (\<lambda>r. r \<in> set have) rmRefs) clear of
            Inl er \<Rightarrow> Inl (InEntry (e_Name (ei_Entry e)) er)
          | Inr d \<Rightarrow> Inr (e_ID (ei_Entry e), d)))"

fun edit_all :: "(entry_info \<Rightarrow> cli_error + nat \<times> string) \<Rightarrow> entry_info list \<Rightarrow> cli_error + (nat \<times> string) list" where
  "edit_all f [] = Inr []"
| "edit_all f (e # es) =
     (case f e of
        Inl er \<Rightarrow> Inl er
      | Inr it \<Rightarrow> (case edit_all f es of Inl er \<Rightarrow> Inl er | Inr its \<Rightarrow> Inr (it # its)))"

definition editDialers ::
  "entry_info list \<Rightarrow> string list \<Rightarrow> string list \<Rightarrow> string list \<Rightarrow> bool \<Rightarrow> cli_error + (nat \<times> string) list" where
  "editDialers sel refs add rm clear =
     (let rmRefs = splitRefs (join '','' rm)
      in (case List.find (\<lambda>r. \<not> list_ex (\<lambda>e. r \<in> set (splitRefs (e_Dialer (ei_Entry e)))) sel) rmRefs of
            Some r \<Rightarrow> Inl (NoRefAnywhere r)
          | None \<Rightarrow> edit_all (edit_one refs add rmRefs clear) sel))"

text \<open>The command: the rows as the daemon lists them, the items, and the request.\<close>

definition entry_dialer_command ::
  "'p server \<Rightarrow> 'p turn \<Rightarrow> string \<Rightarrow> string list \<Rightarrow> string list \<Rightarrow> string list \<Rightarrow> bool \<Rightarrow> 'p box \<Rightarrow>
     'p box \<times> (cli_error + (serve_error, entry_info list) outcome)" where
  "entry_dialer_command sv tn which refs add rm clear b =
     (case selectEntries (EntryList b) which of
        Inl e \<Rightarrow> (b, Inl e)
      | Inr sel \<Rightarrow>
          (case editDialers sel refs add rm clear of
             Inl e \<Rightarrow> (b, Inl e)
           | Inr items \<Rightarrow> (case EntryBulkDialer sv tn items b of (b', r) \<Rightarrow> (b', Inr r))))"

section \<open>Labels\<close>

datatype mux_label = MuxInactive mux_note | MuxNA | MuxOn | MuxOff

definition muxLabel :: "entry_info \<Rightarrow> mux_label" where
  "muxLabel e =
     (case ei_MuxNote e of
        Some n \<Rightarrow> if e_Mux (ei_Entry e) then MuxInactive n else MuxNA
      | None \<Rightarrow> if e_Mux (ei_Entry e) then MuxOn else MuxOff)"

definition printDialer :: "entry_info \<Rightarrow> bool \<Rightarrow> string list" where
  "printDialer e named =
     (if e_Dialer (ei_Entry e) = [] then [e_Name (ei_Entry e) @ '': no dialer (plain entry)'']
      else if named then [e_Name (ei_Entry e) @ '': '' @ e_Dialer (ei_Entry e)]
      else splitRefs (e_Dialer (ei_Entry e)))"

section \<open>Facts\<close>

lemma splitRefs_ok: "r \<in> set (splitRefs s) \<Longrightarrow> r \<noteq> [] \<and> trimmed r \<and> CHR '','' \<notin> set r"
proof -
  assume "r \<in> set (splitRefs s)"
  then obtain x where x: "x \<in> set (split_on (CHR '','') s)" "r = trim_space x" "r \<noteq> []" by (auto simp: splitRefs_def)
  have "set (trim_space x) \<subseteq> set x" by (rule set_trim_space)
  then show ?thesis using x set_split_on [OF x(1)] by (auto simp: trimmed_iff)
qed

lemma splitRefs_join: "list_all (\<lambda>r. r \<noteq> [] \<and> trimmed r \<and> CHR '','' \<notin> set r) rs \<Longrightarrow> splitRefs (join '','' rs) = rs"
proof (cases "rs = []")
  case False
  assume a: "list_all (\<lambda>r. r \<noteq> [] \<and> trimmed r \<and> CHR '','' \<notin> set r) rs"
  then have "split_on (CHR '','') (join '','' rs) = rs" using False by (intro split_on_join) (auto simp: list_all_iff)
  moreover have "map trim_space rs = rs" using a by (auto simp: list_all_iff trimmed_iff intro: map_idI)
  ultimately show ?thesis using a by (auto simp: splitRefs_def list_all_iff intro!: filter_True)
qed (simp add: splitRefs_def trim_space_def)

lemma drop_refs_is: "drop_refs refs rs = Inr left \<Longrightarrow> left = fold remove1 rs refs \<and> set rs \<subseteq> set refs"
proof (induction refs rs rule: drop_refs.induct)
  case (2 refs r rs)
  then show ?case using set_remove1_subset [of r refs] by (auto split: if_splits)
qed simp

text \<open>A removal takes the first copy; of refs without a repetition it takes all there is.\<close>

lemma fold_remove1_distinct: "distinct refs \<Longrightarrow> fold remove1 rs refs = filter (\<lambda>r. r \<notin> set rs) refs"
proof (induction rs arbitrary: refs)
  case (Cons r rs)
  have "remove1 r refs = filter (\<lambda>x. r \<noteq> x) refs"
    using Cons.prems by (simp add: distinct_remove1_removeAll removeAll_filter_not_eq)
  then show ?case using Cons by (auto simp: filter_filter conj_commute intro: filter_cong)
qed simp

lemma drop_refs_subset: "drop_refs refs rs = Inr left \<Longrightarrow> set left \<subseteq> set refs"
proof (induction refs rs rule: drop_refs.induct)
  case (2 refs r rs)
  then show ?case using set_remove1_subset [of r refs] by (auto split: if_splits)
qed simp

lemma add_refs_set: "set (add_refs refs add) = set refs \<union> set add"
  unfolding add_refs_def by (induction add arbitrary: refs) auto

lemma add_refs_is: "keep_first id [] (add_refs refs add) = keep_first id [] (refs @ add)"
proof (induction add rule: rev_induct)
  case (snoc r add)
  have kf: "keep_first id seen (xs @ [r]) = keep_first id seen xs @ (if r \<in> set seen \<union> set xs then [] else [r])"
    for seen and xs :: "string list" by (induction xs arbitrary: seen) auto
  have "add_refs refs (add @ [r]) = (if r \<in> set (add_refs refs add) then add_refs refs add else add_refs refs add @ [r])"
    by (simp add: add_refs_def)
  then have "keep_first id [] (add_refs refs (add @ [r])) = keep_first id [] (add_refs refs add) @ (if r \<in> set (refs @ add) then [] else [r])"
    by (simp add: kf add_refs_set)
  also have "\<dots> = keep_first id [] ((refs @ add) @ [r])" unfolding snoc kf by simp
  finally show ?case by (simp only: append_assoc)
qed (simp add: add_refs_def)

lemma editDialer_result:
  assumes "editDialer cur refs add rm clear = Inr d"
  shows "splitRefs d = keep_first id [] (fold remove1 (splitRefs (join '','' rm)) (base_refs cur refs clear) @ splitRefs (join '','' add))"
proof -
  obtain left where l: "drop_refs (base_refs cur refs clear) (splitRefs (join '','' rm)) = Inr left"
    and d: "d = join '','' (keep_first id [] (add_refs left (splitRefs (join '','' add))))"
    using assms(1) by (auto simp: editDialer_def split: if_splits sum.splits)
  let ?k = "keep_first id [] (left @ splitRefs (join '','' add))"
  have "set (base_refs cur refs clear) \<subseteq> {r. r \<noteq> [] \<and> trimmed r \<and> CHR '','' \<notin> set r}"
    by (auto simp: base_refs_def dest: splitRefs_ok)
  then have "list_all (\<lambda>r. r \<noteq> [] \<and> trimmed r \<and> CHR '','' \<notin> set r) ?k"
    using keep_first_subset [of id "[]" "left @ splitRefs (join '','' add)"] drop_refs_subset [OF l]
    by (auto simp: list_all_iff dest!: subsetD splitRefs_ok)
  then have "splitRefs d = ?k" unfolding d add_refs_is by (rule splitRefs_join)
  then show ?thesis using drop_refs_is [OF l] by simp
qed

lemma splitRefs_own: "splitRefs (join '','' (filter P (splitRefs s))) = filter P (splitRefs s)"
  by (rule splitRefs_join) (auto simp: list_all_iff dest: splitRefs_ok)

lemma edit_all_items:
  "edit_all f es = Inr its \<Longrightarrow> map Inr its = map f es"
  by (induction f es arbitrary: its rule: edit_all.induct) (auto split: sum.splits)

text \<open>C40. An edit of dialers asks for one dialer for each selected entry, in order: the refs it had, or those it is given,
  from which each ref to remove that the entry has takes its first copy away, followed by those added; of what is left
  each ref appears once. And every ref to remove is one that a selected entry has.\<close>

theorem dialer_edits:
  assumes "editDialers sel refs add rm clear = Inr items"
  shows "map fst items = map (\<lambda>e. e_ID (ei_Entry e)) sel \<and>
    map (\<lambda>it. splitRefs (snd it)) items =
    map (\<lambda>e. let have = splitRefs (e_Dialer (ei_Entry e)); own = filter (\<lambda>r. r \<in> set have) (splitRefs (join '','' rm))
      in keep_first id [] (fold remove1 own (base_refs (e_Dialer (ei_Entry e)) refs clear) @ splitRefs (join '','' add))) sel \<and>
    set (splitRefs (join '','' rm)) \<subseteq> set (concat (map (\<lambda>e. splitRefs (e_Dialer (ei_Entry e))) sel))"
proof -
  let ?rms = "splitRefs (join '','' rm)"
  let ?edit = "\<lambda>e. let own = filter (\<lambda>r. r \<in> set (splitRefs (e_Dialer (ei_Entry e)))) ?rms
    in keep_first id [] (fold remove1 own (base_refs (e_Dialer (ei_Entry e)) refs clear) @ splitRefs (join '','' add))"
  have all: "edit_all (edit_one refs add ?rms clear) sel = Inr items"
    and some: "List.find (\<lambda>r. \<not> list_ex (\<lambda>e. r \<in> set (splitRefs (e_Dialer (ei_Entry e)))) sel) ?rms = None"
    using assms(1) by (auto simp: editDialers_def Let_def split: option.splits)
  have each: "fst it = e_ID (ei_Entry e) \<and> splitRefs (snd it) = ?edit e" if "edit_one refs add ?rms clear e = Inr it" for e it
  proof -
    let ?own = "filter (\<lambda>r. r \<in> set (splitRefs (e_Dialer (ei_Entry e)))) ?rms"
    have d: "editDialer (e_Dialer (ei_Entry e)) refs add ?own clear = Inr (snd it)" and i: "fst it = e_ID (ei_Entry e)"
      using that by (auto simp: edit_one_def Let_def split: sum.splits)
    from editDialer_result [OF d] i show ?thesis by (simp add: splitRefs_own)
  qed
  have "list_all2 (\<lambda>it e. edit_one refs add ?rms clear e = Inr it) items sel"
    using edit_all_items [OF all] by (auto simp: list_all2_conv_all_nth list_eq_iff_nth_eq)
  then have "list_all2 (\<lambda>it e. fst it = e_ID (ei_Entry e) \<and> splitRefs (snd it) = ?edit e) items sel"
    by (rule list.rel_mono_strong) (use each in blast)
  then show ?thesis using some
    by (auto simp: list_all2_conv_all_nth list_eq_iff_nth_eq Let_def find_None_iff list_ex_iff)
qed

text \<open>For a dialer that names no ref twice nothing that is removed remains.\<close>

lemma removed_refs_gone:
  assumes "distinct (base_refs cur refs clear)" "editDialer cur refs [] rm clear = Inr d"
  shows "set (splitRefs d) \<inter> set (splitRefs (join '','' rm)) = {}"
proof -
  have "splitRefs (join '','' []) = []" by code_simp
  then show ?thesis
    using editDialer_result [OF assms(2)] fold_remove1_distinct [OF assms(1)]
      keep_first_subset [of id "[]" "filter (\<lambda>r. r \<notin> set (splitRefs (join '','' rm))) (base_refs cur refs clear)"] by auto
qed

text \<open>One that names a ref twice, as it can be stored from what a user typed, still has it after the removal.\<close>

lemma removal_leaves_a_copy:
  "editDialer ''xraysub:a,xraysub:a'' [] [] [''xraysub:a''] False = Inr ''xraysub:a''"
  by code_simp

text \<open>Naming a ref to remove twice fails, although the first removal is what was asked.\<close>

lemma repeated_removal_refused:
  assumes "distinct (splitRefs cur)" "r \<in> set (splitRefs cur)" "r \<noteq> []" "trimmed r" "CHR '','' \<notin> set r"
  shows "editDialer cur [] [] [r, r] False = Inl (NoSuchRef r)"
proof -
  have "splitRefs (join '','' [r, r]) = [r, r]" using assms(3-5) by (intro splitRefs_join) simp
  then show ?thesis using assms(1,2) by (simp add: editDialer_def base_refs_def del: join.simps)
qed

text \<open>A selection has an entry, and a list of ids selects entries of the list, each once.\<close>

lemma pick_ids_ok:
  "pick_ids entries out ps = Inr sel \<Longrightarrow> set out \<subseteq> set entries \<Longrightarrow> distinct out \<Longrightarrow> set sel \<subseteq> set entries \<and> distinct sel"
proof (induction entries out ps rule: pick_ids.induct)
  case (2 entries out p ps)
  then obtain i e where i: "parseID p = Inr i" and e: "List.find (\<lambda>e. e_ID (ei_Entry e) = i) (rev entries) = Some e"
    by (auto split: sum.splits option.splits)
  then have "e \<in> set entries" using find_Some_iff [THEN iffD1, OF e] by (metis nth_mem set_rev)
  then show ?case using 2 i e by (auto split: if_splits)
qed simp

lemma selectEntries_ok:
  "selectEntries entries sel = Inr es \<Longrightarrow> es \<noteq> [] \<and> set es \<subseteq> set entries \<and> (distinct entries \<longrightarrow> distinct es)"
  using pick_ids_ok [of entries "[]" "splitRefs sel" es]
  by (auto simp: selectEntries_def Let_def split: sum.splits if_splits)

section \<open>Witness\<close>

definition demo_row :: "nat \<Rightarrow> string \<Rightarrow> entry_info" where
  "demo_row i dialer = entryInfo
     \<lparr>e_ID = i, e_Name = ''m'', e_Outbound = None, e_Enabled = True, e_Dialer = dialer, e_Mux = False\<rparr>"

lemma demo_row_fields [simp]: "e_ID (ei_Entry (demo_row i d)) = i" "e_Dialer (ei_Entry (demo_row i d)) = d"
  by (simp_all add: demo_row_def entryInfo_def)

lemma dialer_edits_witness:
  "\<exists>items. editDialers [demo_row 1 ''xraysub:a,xray:b'', demo_row 2 ''xraysub:a''] [] [''xraysub:c''] [''xray:b''] False = Inr items \<and>
     map fst items = [1, 2] \<and> map (\<lambda>it. splitRefs (snd it)) items = [[''xraysub:a'', ''xraysub:c''], [''xraysub:a'', ''xraysub:c'']]"
proof -
  let ?sel = "[demo_row 1 ''xraysub:a,xray:b'', demo_row 2 ''xraysub:a'']"
  have s: "splitRefs ''xraysub:a,xray:b'' = [''xraysub:a'', ''xray:b'']" "splitRefs ''xraysub:a'' = [''xraysub:a'']"
    "splitRefs ''xray:b'' = [''xray:b'']" "splitRefs ''xraysub:c'' = [''xraysub:c'']" "splitRefs [] = []"
    by code_simp+
  have "editDialers ?sel [] [''xraysub:c''] [''xray:b''] False =
      Inr [(1, ''xraysub:a,xraysub:c''), (2, ''xraysub:a,xraysub:c'')]"
    by (simp add: editDialers_def edit_one_def editDialer_def base_refs_def add_refs_def s)
  then obtain items where i: "editDialers ?sel [] [''xraysub:c''] [''xray:b''] False = Inr items" by blast
  from dialer_edits [OF i] i show ?thesis by (simp add: base_refs_def s)
qed

end
