(* ===== verification/Spec2Isabelle.thy ===== *)
theory Spec2Isabelle
  imports Config_Props Store_Props Pick_Props Node_Park Chain_Props Node_History Auto_Strategy Pool_Props Live_Props Live_Generated Reconcile_Props Watchdog Traffic_Props Share_Links Sub_Props Cuts Server_Props Wireguard Caddy_Props Start_Up Xray_Bin Self_Update Cli_Entries
begin

text \<open>
  A verification development of \<^verbatim>\<open>em-xray\<close>, a daemon that runs one xray process for a number of inbounds and
  entries. Clients connect to an inbound; the inbound routes to an entry (a \<^emph>\<open>master\<close>), an outbound whose traffic
  is dialled through a chain: the nodes of a subscription, another entry, or nothing. The program keeps its rows in a
  database, computes an xray config from them and from what it knows of the health of the nodes, applies the change to
  the running process (over its api when that is possible, by a restart when it is not), and watches the nodes so as to
  pick, for each master, the members of its pool it should dial through.

  \<^bold>\<open>Parts, theories and sources.\<close> Paths are under \<^verbatim>\<open>src/\<close>.

  \<^item> \<^verbatim>\<open>Prelude\<close>, \<^verbatim>\<open>Go_Strings\<close>: the parts of Go that the sources lean on. Strings are lists of bytes; a map is a list
    sorted by its keys; a stable sort is an insertion sort under the comparator, which need not be an order.
  \<^item> \<^verbatim>\<open>Json_Values\<close>, \<^verbatim>\<open>Json_Parse\<close>: JSON values, their text, and the decoding of a value into a struct field.
    A raw message is the value of its text, or nothing when it does not parse.
  \<^item> \<^verbatim>\<open>Models\<close> (\<^verbatim>\<open>core/xray/models.go\<close>), \<^verbatim>\<open>Tags\<close> (\<^verbatim>\<open>ports.go\<close>, parts of \<^verbatim>\<open>traffic.go\<close>), \<^verbatim>\<open>Sha256\<close>, \<^verbatim>\<open>Base64\<close>
    (\<^verbatim>\<open>base64.go\<close>): the rows and their defaults, tags, digests.
  \<^item> \<^verbatim>\<open>Dialers\<close>, \<^verbatim>\<open>Slots\<close> (\<^verbatim>\<open>core/xray/dialer.go\<close>): the grammar of dialers, their canonical form, cycles, renames, and
    the slots of pools.
  \<^item> \<^verbatim>\<open>Outbounds\<close> (\<^verbatim>\<open>mux.go\<close>, the outbounds of \<^verbatim>\<open>config.go\<close>), \<^verbatim>\<open>Inbounds\<close> (\<^verbatim>\<open>template.go\<close>, \<^verbatim>\<open>users.go\<close>, \<^verbatim>\<open>keygen.go\<close>),
    \<^verbatim>\<open>Config_Gen\<close> (\<^verbatim>\<open>config.go\<close>): the generator, from rows and slots to the whole config. It fails with an error value
    and it panics with a value of its own. \<^verbatim>\<open>Config_Props\<close>: a master never dials straight off the machine, no tag of
    a config dangles.
  \<^item> \<^verbatim>\<open>Store\<close> (\<^verbatim>\<open>store.go\<close>, \<^verbatim>\<open>traffic_store.go\<close>, \<^verbatim>\<open>settings.go\<close>): the tables as lists of rows and the operations as
    transactions; \<^verbatim>\<open>Store_Props\<close>: which nodes are active, renames, conservation of traffic.
  \<^item> \<^verbatim>\<open>Node_Pick\<close> (\<^verbatim>\<open>daemon/nodepick.go\<close>), \<^verbatim>\<open>Node_Park\<close> (\<^verbatim>\<open>nodepark.go\<close>), \<^verbatim>\<open>Chain_Probe\<close> (\<^verbatim>\<open>chainprobe.go\<close>),
    \<^verbatim>\<open>Node_History\<close> (\<^verbatim>\<open>nodehistory.go\<close>), \<^verbatim>\<open>Auto_Strategy\<close> (\<^verbatim>\<open>autostrategy.go\<close>): what is learned from the probes of xray and
    from probes through whole chains, and how members are ranked, parked and picked. \<^verbatim>\<open>Pick_Props\<close>, \<^verbatim>\<open>Chain_Props\<close>: the
    promises of the picks, and what a round of chain probes may conclude.
  \<^item> \<^verbatim>\<open>Pools\<close> (the pools and slots of \<^verbatim>\<open>daemon/xray.go\<close>) and \<^verbatim>\<open>Pool_Props\<close>: every master is on exactly one slot; slots
    keep their indices.
  \<^item> \<^verbatim>\<open>Live_Apply\<close> (\<^verbatim>\<open>daemon/xray_live.go\<close>) and \<^verbatim>\<open>Live_Props\<close>: the plan that turns the running config into the wanted
    one, and its execution over the api. The api is a locale, \<^verbatim>\<open>xray_api\<close>, that says which requests change which
    tables; the process \<^verbatim>\<open>xproc\<close> interprets it. \<^verbatim>\<open>Live_Generated\<close>: between configs that the generator makes, who dials
    through whom, and that nothing is left without what it dials through.
  \<^item> \<^verbatim>\<open>Reconcile\<close> (the rest of \<^verbatim>\<open>daemon/xray.go\<close>, \<^verbatim>\<open>validate.go\<close>), \<^verbatim>\<open>Reconcile_Props\<close>: the supervisor, which generates,
    validates, drops what xray refuses, applies and records. \<^verbatim>\<open>Watchdog\<close> (\<^verbatim>\<open>watchdog.go\<close>): the loop around the process,
    as a step relation.

  \<^item> \<^verbatim>\<open>Traffic\<close> (\<^verbatim>\<open>daemon/traffic.go\<close>), \<^verbatim>\<open>Traffic_Props\<close>: counters that restart with xray become totals that do not.
  \<^item> \<^verbatim>\<open>Json_Print\<close>, \<^verbatim>\<open>Url\<close>, \<^verbatim>\<open>Netip\<close>: canonical JSON text, URLs and addresses, as the standard library has them.
    \<^verbatim>\<open>Links\<close> (\<^verbatim>\<open>link.go\<close>, \<^verbatim>\<open>entrylink.go\<close>), \<^verbatim>\<open>Link_Props\<close>: a link parses to an outbound, which gives a link that parses to it.
    \<^verbatim>\<open>Share_Links\<close> (\<^verbatim>\<open>sharelink.go\<close>): what the clients of an inbound import.
  \<^item> \<^verbatim>\<open>Subscriptions\<close> (\<^verbatim>\<open>fetch.go\<close>, \<^verbatim>\<open>fingerprint.go\<close>, \<^verbatim>\<open>daemon/subscriptions.go\<close>), \<^verbatim>\<open>Sub_Props\<close>: a refresh replaces the pool.
    \<^verbatim>\<open>Renames\<close> (\<^verbatim>\<open>daemon/rename.go\<close>): pools keep their slots across a rename.
  \<^item> \<^verbatim>\<open>Sock_Diag\<close> (\<^verbatim>\<open>sockcut.go\<close>, \<^verbatim>\<open>sockcut_linux.go\<close>), \<^verbatim>\<open>Cuts\<close> (\<^verbatim>\<open>membercut.go\<close>, \<^verbatim>\<open>winner.go\<close>, \<^verbatim>\<open>observatory.go\<close>): the netlink
    messages that close connections, and which are closed. The codec of integers is a locale, \<^verbatim>\<open>field_codec\<close>, interpreted on
    both byte orders; the kernel, name resolution and \<^verbatim>\<open>/proc\<close> are arguments.
  \<^item> \<^verbatim>\<open>Probe\<close> (\<^verbatim>\<open>core/xray/probe.go\<close>), \<^verbatim>\<open>Probe_Props\<close>: testing outbounds in batches behind one xray each, and whom a failure
    is blamed on. Starting xray and the requests are a world of answers; concurrent requests are independent.
  \<^item> \<^verbatim>\<open>Server\<close>, \<^verbatim>\<open>Server_Subs\<close> (\<^verbatim>\<open>daemon/server_*.go\<close>), \<^verbatim>\<open>Server_Props\<close>: the requests, with their checks, the change of the
    rows and the reconcile; chains of entries stay free of cycles.
  \<^item> \<^verbatim>\<open>Wireguard\<close> (\<^verbatim>\<open>wireguard.go\<close>, \<^verbatim>\<open>internal/warp/warp.go\<close>): the checks and the outbound of a tunnel, and a WARP device.
    \<^verbatim>\<open>Caddy\<close> (\<^verbatim>\<open>cmd/emx/caddy.go\<close>), \<^verbatim>\<open>Caddy_Props\<close>: the Caddyfile, which reads back as the routes, and its installation.
    \<^verbatim>\<open>Cli_Entries\<close> (\<^verbatim>\<open>cmd/emx/entry.go\<close>): the edits of dialers that a command asks for.
  \<^item> \<^verbatim>\<open>Paths\<close> (\<^verbatim>\<open>internal/paths\<close>), \<^verbatim>\<open>Orphans\<close> (\<^verbatim>\<open>daemon/reap.go\<close>, \<^verbatim>\<open>pidfile.go\<close>, \<^verbatim>\<open>unixsock.go\<close>), \<^verbatim>\<open>Start_Up\<close> (\<^verbatim>\<open>daemon.go\<close>,
    \<^verbatim>\<open>migrate.go\<close>, \<^verbatim>\<open>logrotate.go\<close>, \<^verbatim>\<open>publicip.go\<close>, \<^verbatim>\<open>tlscert.go\<close>): a machine of processes, sockets and files; what a killed daemon
    leaves behind, and how the next one comes up and is the only one.
  \<^item> \<^verbatim>\<open>Xray_Bin\<close> (\<^verbatim>\<open>internal/xraybin\<close>): extracting the embedded xray, with its cache of what was checked. \<^verbatim>\<open>Self_Update\<close>
    (\<^verbatim>\<open>internal/selfupdate\<close>, \<^verbatim>\<open>cmd/emx/update.go\<close>): releases, proxies, the new executable and the wait for the new daemon.

  \<^bold>\<open>Interaction.\<close> The store gives the rows; the pools resolve the dialers of the enabled masters to members; ranking,
  parking and chain scores order the members and give the picks; the generator turns rows, pools and picks into a config;
  the supervisor applies it. The theorems follow the same path: the picks are members of the pool, the slots are built
  from the picks, the config routes only through slots, a live apply ends in that config, and whatever happens the child
  runs a config that was validated.

  \<^bold>\<open>Conventions.\<close> Times are integers in nanoseconds, with no value for Go's zero time. Floating point numbers are
  rationals. Lower-casing is that of ASCII. Transactions either happen or leave the tables alone. Random bytes, key
  derivation, the network, processes and the clock are arguments of the definitions that use them. A column with
  \<^verbatim>\<open>default:true\<close> is written by the ORM as true when the row holds false; the flag \<^verbatim>\<open>orm\<close> says whether it does.
  Logging is left out.

  \<^bold>\<open>Bounds and fuel.\<close> The supervisor drops at most sixteen refused outbounds in one reconcile, as the code does; the
  search for a dialer cycle and the closure over the members of a chain recurse over the entries not yet seen, so that
  they end without a bound of their own; a round of chain probes is cut at its 120 pairs, a history at its thirty minutes.

  \<^bold>\<open>Not modelled.\<close> Most of the command line (menus, tables, prompts and the other commands), the generated RPC types, status
  replies, the making of directories, the opening of the database, the running of processes, and the transport of downloads,
  registrations and probes. What the supervisor asks of xray itself (the verdict of its config test, its error texts, its
  answers) is an argument. A write or a copy that fails is taken to leave the file as it was, but for
  the extraction of xray, where it can leave a part of it.
\<close>

end
